(* ===== verification/GoPrelude.thy ===== *)
theory GoPrelude
  imports Complex_Main "HOL-Library.Log_Nat" "HOL-Library.Finite_Map"
begin

text \<open>
  The parts of Go and of its standard library that the modelled packages use, and the generic
  lemmas the component theories share.

  \<^item> \<open>goerr\<close> lists the error values the model tells apart; a fallible function returns
    \<open>goerr + 'a\<close> (\<open>Inl\<close> is the error) and \<open>bindE\<close> is the early return
    \<open>if err != nil { return err }\<close>. \<open>ErrField m e\<close> is \<open>fmt.Errorf("m: %w", e)\<close>, and
    \<open>rootErr\<close> is what \<open>errors.As\<close> finds under it.
  \<^item> Integers (\<open>int\<close>, \<open>int64\<close>) are \<open>int\<close>: every counter and millisecond
    timestamp of these packages is far below \<open>2 ^ 63\<close>; where the code cuts a value to
    a width (\<open>strconv\<close>, the column clamps) the bound is written out.
  \<^item> \<open>float64\<close> is a rational rounded by \<open>fl\<close> to 53 significant bits, ties to even
    (no exponent limits: the values stay near 1).
\<close>

section \<open>Named collections\<close>

named_theorems result_simps "unfolding of the error-returning operations"
named_theorems table_simps "effect of each runtime-table operation on each column"
named_theorems store_simps "effect of each repository operation on the stored rows"

section \<open>Errors as values\<close>

datatype goerr =
    ErrEmptyToken
  | ErrUnknownPool string
  | ErrUnknownStatus string
  | ErrType
  | ErrSyntax
  | ErrRange
  | ErrQuotaSource int
  | ErrField string goerr
  | ErrStrategy string
  | ErrEgressMode string
  | ErrClearanceMode string
  | ErrUnknownModel string
  | ErrValidation string
  | ErrAuth string
  | ErrRateLimit string
  | ErrApp int string string
  | ErrUpstream int string string
  | ErrStreamIdle
  | ErrStorage string
  | ErrConfig string
  | ErrTransport string
  | ErrSessionInvalid string string
  | ErrCancelled
  | ErrOther string

primrec rootErr :: "goerr \<Rightarrow> goerr" where
  "rootErr (ErrField m e) = rootErr e"
| "rootErr ErrEmptyToken = ErrEmptyToken"
| "rootErr (ErrUnknownPool s) = ErrUnknownPool s"
| "rootErr (ErrUnknownStatus s) = ErrUnknownStatus s"
| "rootErr ErrType = ErrType"
| "rootErr ErrSyntax = ErrSyntax"
| "rootErr ErrRange = ErrRange"
| "rootErr (ErrQuotaSource n) = ErrQuotaSource n"
| "rootErr (ErrStrategy s) = ErrStrategy s"
| "rootErr (ErrEgressMode s) = ErrEgressMode s"
| "rootErr (ErrClearanceMode s) = ErrClearanceMode s"
| "rootErr (ErrUnknownModel s) = ErrUnknownModel s"
| "rootErr (ErrValidation s) = ErrValidation s"
| "rootErr (ErrAuth s) = ErrAuth s"
| "rootErr (ErrRateLimit s) = ErrRateLimit s"
| "rootErr (ErrApp n s c) = ErrApp n s c"
| "rootErr (ErrUpstream n s b) = ErrUpstream n s b"
| "rootErr ErrStreamIdle = ErrStreamIdle"
| "rootErr (ErrStorage s) = ErrStorage s"
| "rootErr (ErrConfig s) = ErrConfig s"
| "rootErr (ErrTransport s) = ErrTransport s"
| "rootErr (ErrSessionInvalid r s) = ErrSessionInvalid r s"
| "rootErr ErrCancelled = ErrCancelled"
| "rootErr (ErrOther s) = ErrOther s"

definition bindE :: "goerr + 'a \<Rightarrow> ('a \<Rightarrow> goerr + 'b) \<Rightarrow> goerr + 'b" where
  "bindE m f = (case m of Inl e \<Rightarrow> Inl e | Inr x \<Rightarrow> f x)"

lemma bindE_simps [simp]:
  "bindE (Inl e) f = Inl e"
  "bindE (Inr x) f = f x"
  by (simp_all add: bindE_def)

lemma bindE_Inr_iff: "bindE m f = Inr y \<longleftrightarrow> (\<exists>x. m = Inr x \<and> f x = Inr y)"
  by (cases m) auto

lemma bindE_InrE [elim!]:
  assumes "bindE m f = Inr y"
  obtains x where "m = Inr x" "f x = Inr y"
  using assms by (auto simp: bindE_Inr_iff)

definition wrapE :: "string \<Rightarrow> goerr + 'a \<Rightarrow> goerr + 'a" where
  "wrapE msg m = (case m of Inl e \<Rightarrow> Inl (ErrField msg e) | Inr x \<Rightarrow> Inr x)"

lemma wrapE_simps [simp]:
  "wrapE msg (Inl e) = Inl (ErrField msg e)"
  "wrapE msg (Inr x) = Inr x"
  by (simp_all add: wrapE_def)

section \<open>Integers\<close>

definition truncDiv :: "int \<Rightarrow> int \<Rightarrow> int" where
  "truncDiv a b = sgn a * sgn b * (\<bar>a\<bar> div \<bar>b\<bar>)"

definition truncMod :: "int \<Rightarrow> int \<Rightarrow> int" where
  "truncMod a b = a - b * truncDiv a b"

definition int64Range :: "int \<Rightarrow> bool" where
  "int64Range v \<longleftrightarrow> - (2 ^ 63) \<le> v \<and> v < 2 ^ 63"

section \<open>float64\<close>

text \<open>The exponent \<open>e\<close> of a positive rational: \<open>2 powi e \<le> x < 2 powi (e + 1)\<close>.\<close>

definition fexp :: "rat \<Rightarrow> int" where
  "fexp x = (let (p, q) = quotient_of x; k = bitlen p - bitlen q
     in if 2 powi k \<le> x then k else k - 1)"

definition roundEven :: "rat \<Rightarrow> int" where
  "roundEven y = (let f = \<lfloor>y\<rfloor>; d = y - of_int f
     in if d < 1 / 2 then f else if d > 1 / 2 then f + 1 else if even f then f else f + 1)"

definition flPos :: "rat \<Rightarrow> rat" where
  "flPos x = (let u = 2 powi (fexp x - 52) in of_int (roundEven (x / u)) * u)"

definition fl :: "rat \<Rightarrow> rat" where
  "fl x = (if x = 0 then 0 else if x < 0 then - flPos (- x) else flPos x)"

text \<open>\<open>int(v)\<close> of a \<open>float64\<close> cuts towards zero.\<close>

definition truncRat :: "rat \<Rightarrow> int" where
  "truncRat r = (if r < 0 then - \<lfloor>- r\<rfloor> else \<lfloor>r\<rfloor>)"

lemma truncRat_of_int [simp]: "truncRat (of_int n) = n"
  by (simp add: truncRat_def floor_minus)

lemma fexp_bounds:
  assumes "x > 0"
  shows "2 powi (fexp x) \<le> x" and "x < 2 powi (fexp x + 1)"
proof -
  obtain p q where pq: "quotient_of x = (p, q)" by (cases "quotient_of x")
  have q: "q > 0" using quotient_of_denom_pos [OF pq] .
  have x: "x = of_int p / of_int q" using quotient_of_div [OF pq] .
  have p: "p > 0"
    using assms q by (simp add: x zero_less_divide_iff)
  have bp: "bitlen p \<ge> 1" "bitlen q \<ge> 1"
    using p q bitlen_nonneg [of p] bitlen_nonneg [of q] bitlen_eq_zero_iff [of p] bitlen_eq_zero_iff [of q]
    by linarith+
  have pw: "(2::rat) powi n = 2 ^ nat n" if "n \<ge> 0" for n
    using that by (simp add: power_int_def)
  have conv: "(2::rat) powi (bitlen z - 1) \<le> of_int z" "of_int z < (2::rat) powi (bitlen z)"
    if "z > 0" "bitlen z \<ge> 1" for z
  proof -
    have "(2::int) ^ nat (bitlen z - 1) \<le> z" "z < 2 ^ nat (bitlen z)"
      using bitlen_bounds [OF that(1)] by auto
    then have "(of_int (2 ^ nat (bitlen z - 1)) :: rat) \<le> of_int z"
      and "(of_int z :: rat) < of_int (2 ^ nat (bitlen z))"
      by (simp_all only: of_int_le_iff of_int_less_iff)
    then show "(2::rat) powi (bitlen z - 1) \<le> of_int z" "of_int z < (2::rat) powi (bitlen z)"
      using that(2) by (simp_all add: pw)
  qed
  define k where "k = bitlen p - bitlen q"
  have q0: "(0::rat) < of_int q" using q by simp
  have lo: "2 powi (k - 1) \<le> x"
  proof -
    have "(2::rat) powi (k - 1) * of_int q \<le> 2 powi (k - 1) * 2 powi (bitlen q)"
      using conv(2) [OF q bp(2)] by (intro mult_left_mono) auto
    also have "\<dots> = 2 powi (bitlen p - 1)"
      by (simp add: power_int_add [symmetric] k_def)
    also have "\<dots> \<le> of_int p" by (rule conv(1) [OF p bp(1)])
    finally show ?thesis using q0 by (simp add: x pos_le_divide_eq)
  qed
  have hi: "x < 2 powi (k + 1)"
  proof -
    have "(of_int p :: rat) < 2 powi (bitlen p)" by (rule conv(2) [OF p bp(1)])
    also have "\<dots> = 2 powi (k + 1) * 2 powi (bitlen q - 1)"
      by (simp add: power_int_add [symmetric] k_def)
    also have "\<dots> \<le> 2 powi (k + 1) * of_int q"
      using conv(1) [OF q bp(2)] by (intro mult_left_mono) auto
    finally show ?thesis using q0 by (simp add: x pos_divide_less_eq)
  qed
  have fe: "fexp x = (if 2 powi k \<le> x then k else k - 1)"
    by (simp add: fexp_def pq k_def Let_def)
  show "2 powi (fexp x) \<le> x" "x < 2 powi (fexp x + 1)"
    using lo hi by (auto simp: fe)
qed

lemma fexp_mono:
  assumes "0 < x" "x \<le> y"
  shows "fexp x \<le> fexp y"
proof (rule ccontr)
  assume "\<not> fexp x \<le> fexp y"
  then have "fexp y + 1 \<le> fexp x" by simp
  then have "(2::rat) powi (fexp y + 1) \<le> 2 powi (fexp x)"
    by (rule power_int_increasing) simp
  with fexp_bounds [of x] fexp_bounds [of y] assms show False by force
qed

lemma roundEven_mono: "x \<le> y \<Longrightarrow> roundEven x \<le> roundEven y"
proof -
  assume xy: "x \<le> y"
  have b: "\<lfloor>z\<rfloor> \<le> roundEven z" "roundEven z \<le> \<lfloor>z\<rfloor> + 1" for z
    by (auto simp: roundEven_def Let_def)
  have f: "\<lfloor>x\<rfloor> \<le> \<lfloor>y\<rfloor>" using xy by (rule floor_mono)
  show ?thesis
  proof (cases "\<lfloor>x\<rfloor> = \<lfloor>y\<rfloor>")
    case True
    with xy show ?thesis by (auto simp: roundEven_def Let_def)
  next
    case False
    with f have "\<lfloor>x\<rfloor> + 1 \<le> \<lfloor>y\<rfloor>" by simp
    with b [of x] b [of y] show ?thesis by linarith
  qed
qed

lemma roundEven_of_int [simp]: "roundEven (of_int n) = n"
  by (simp add: roundEven_def)

lemma ulp_scale: "(2::rat) powi (e - 52) * 4503599627370496 = 2 powi e"
  using power_int_add [of "2::rat" "e - 52" 52] by simp

lemma flPos_mono:
  assumes "0 < x" "x \<le> y"
  shows "flPos x \<le> flPos y"
proof (cases "fexp x = fexp y")
  case True
  have "roundEven (x / 2 powi (fexp y - 52)) \<le> roundEven (y / 2 powi (fexp y - 52))"
    using assms by (intro roundEven_mono divide_right_mono) auto
  then show ?thesis using True by (simp add: flPos_def Let_def mult_right_mono)
next
  case False
  with fexp_mono [OF assms] have lt: "fexp x + 1 \<le> fexp y" by simp
  have x1: "flPos x \<le> 2 powi (fexp x + 1)"
  proof -
    let ?u = "(2::rat) powi (fexp x - 52)"
    have "x / ?u \<le> 2 powi (fexp x + 1) / ?u"
      using fexp_bounds(2) [OF assms(1)] by (intro divide_right_mono) auto
    also have "\<dots> = of_int (2 ^ 53)"
      by (simp add: power_int_add field_simps ulp_scale)
    finally have "roundEven (x / ?u) \<le> 2 ^ 53"
      using roundEven_mono roundEven_of_int by metis
    then have "(of_int (roundEven (x / ?u)) :: rat) \<le> of_int (2 ^ 53)"
      by (simp only: of_int_le_iff)
    then have "of_int (roundEven (x / ?u)) * ?u \<le> of_int (2 ^ 53) * ?u"
      by (rule mult_right_mono) simp
    also have "\<dots> = 2 powi (fexp x + 1)"
      using ulp_scale [of "fexp x"] by (simp add: power_int_add field_simps)
    finally show ?thesis by (simp add: flPos_def Let_def)
  qed
  have y1: "2 powi (fexp y) \<le> flPos y"
  proof -
    let ?u = "(2::rat) powi (fexp y - 52)"
    have "2 powi (fexp y) / ?u = of_int (2 ^ 52)"
      by (simp add: field_simps ulp_scale)
    moreover have "2 powi (fexp y) / ?u \<le> y / ?u"
      using fexp_bounds(1) [of y] assms by (intro divide_right_mono) auto
    ultimately have "2 ^ 52 \<le> roundEven (y / ?u)"
      using roundEven_mono roundEven_of_int by metis
    then have "(of_int (2 ^ 52) :: rat) \<le> of_int (roundEven (y / ?u))"
      by (simp only: of_int_le_iff)
    then have "of_int (2 ^ 52) * ?u \<le> of_int (roundEven (y / ?u)) * ?u"
      by (rule mult_right_mono) simp
    then have "2 powi (fexp y) \<le> of_int (roundEven (y / ?u)) * ?u"
      using ulp_scale [of "fexp y"] by (simp add: mult.commute)
    then show ?thesis by (simp add: flPos_def Let_def)
  qed
  have "(2::rat) powi (fexp x + 1) \<le> 2 powi (fexp y)"
    using lt by (rule power_int_increasing) simp
  with x1 y1 show ?thesis by linarith
qed

lemma flPos_nonneg: "0 < x \<Longrightarrow> 0 \<le> flPos x"
proof -
  assume "0 < x"
  then have "0 \<le> roundEven (x / 2 powi (fexp x - 52))"
    using roundEven_mono [of 0 "x / 2 powi (fexp x - 52)"] roundEven_of_int [of 0]
    by (simp del: roundEven_of_int)
  then show ?thesis by (simp add: flPos_def Let_def)
qed

lemma fl_mono: "x \<le> y \<Longrightarrow> fl x \<le> fl y"
proof -
  assume xy: "x \<le> y"
  consider "0 < x" | "x = 0" | "x < 0" "y < 0" | "x < 0" "y = 0" | "x < 0" "0 < y"
    by linarith
  then show ?thesis
  proof cases
    case 1
    then show ?thesis using xy flPos_mono [of x y] by (simp add: fl_def)
  next
    case 2
    then show ?thesis using xy flPos_nonneg [of y] by (auto simp: fl_def)
  next
    case 3
    then show ?thesis using xy flPos_mono [of "- y" "- x"] by (simp add: fl_def)
  next
    case 4
    then show ?thesis using flPos_nonneg [of "- x"] by (simp add: fl_def)
  next
    case 5
    then show ?thesis using flPos_nonneg [of "- x"] flPos_nonneg [of y] by (simp add: fl_def)
  qed
qed

lemma fl_of_int:
  assumes "\<bar>n\<bar> < 2 ^ 53"
  shows "fl (of_int n) = of_int n"
proof -
  have pos: "flPos (of_int m) = of_int m" if m: "0 < m" "m < 2 ^ 53" for m
  proof -
    let ?e = "fexp (of_int m)"
    have e: "2 powi ?e \<le> (of_int m :: rat)" using fexp_bounds(1) m by simp
    have "(of_int m :: rat) < of_int (2 ^ 53)" using m(2) by (simp only: of_int_less_iff)
    with e have "(2::rat) powi ?e < 2 powi 53" by (simp add: power_int_def)
    then have "?e < 53"
      by (rule contrapos_pp)
        (use power_int_increasing [of 53 "?e" "2::rat"] in \<open>simp add: not_less del: power_int_numeral\<close>)
    then have k: "52 - ?e \<ge> 0" by simp
    have "(of_int m :: rat) / 2 powi (?e - 52) = of_int m * 2 powi (52 - ?e)"
      by (simp add: power_int_diff)
    also have "\<dots> = of_int (m * 2 ^ nat (52 - ?e))"
      using k by (simp add: power_int_def)
    finally have "roundEven (of_int m / 2 powi (?e - 52)) = m * 2 ^ nat (52 - ?e)"
      by (simp only: roundEven_of_int)
    then have "flPos (of_int m) = of_int m * 2 ^ nat (52 - ?e) * 2 powi (?e - 52)"
      by (simp add: flPos_def Let_def)
    also have "\<dots> = of_int m * (2 powi (52 - ?e) * 2 powi (?e - 52))"
      using k by (simp add: power_int_def)
    also have "\<dots> = of_int m" by (simp add: power_int_add [symmetric])
    finally show ?thesis .
  qed
  show ?thesis
  proof (cases "n = 0")
    case False
    then show ?thesis using pos [of n] pos [of "- n"] assms by (auto simp: fl_def)
  qed (simp add: fl_def)
qed

lemma fl_le_int: "x \<le> of_int n \<Longrightarrow> \<bar>n\<bar> < 2 ^ 53 \<Longrightarrow> fl x \<le> of_int n"
  using fl_mono fl_of_int by metis

lemma fl_ge_int: "of_int n \<le> x \<Longrightarrow> \<bar>n\<bar> < 2 ^ 53 \<Longrightarrow> of_int n \<le> fl x"
  using fl_mono fl_of_int by metis

lemma truncRat_le_int: "x \<le> of_int n \<Longrightarrow> 0 \<le> x \<Longrightarrow> truncRat x \<le> n"
  by (simp add: truncRat_def floor_le_iff)

lemma truncRat_ge_int: "of_int n \<le> x \<Longrightarrow> 0 \<le> n \<Longrightarrow> n \<le> truncRat x"
  by (auto simp: truncRat_def le_floor_iff)

end
