(* ===== verification/GoStrings.thy ===== *)
theory GoStrings
  imports GoPrelude
begin

text \<open>
  Strings, number parsing and the dynamic type \<open>any\<close>: \<open>segs\<close> is UTF-8 decoding as a
  \<open>range\<close> loop does it (an invalid byte is the rune 65533 of width 1), \<open>trimSpace\<close>,
  \<open>containsStr\<close>, \<open>splitOn\<close>, \<open>itoa\<close> and \<open>atoi\<close> are the library functions the code
  calls, \<open>goval\<close> is the dynamic type \<open>any\<close> (\<open>GOther\<close> stands for every dynamic type the
  code has no case for), \<open>map[string]any\<close> is \<open>gomap\<close> with \<open>mapGet\<close> for \<open>m[k]\<close>, and \<open>jsonNorm\<close> is what \<open>encoding/json\<close> gives
  back for a value it has marshalled (numbers come back as \<open>float64\<close>).
\<close>

section \<open>UTF-8 decoding\<close>

definition byteOf :: "char \<Rightarrow> nat" where
  "byteOf c = of_char c"

definition isCont :: "nat \<Rightarrow> nat \<Rightarrow> nat \<Rightarrow> bool" where
  "isCont lo hi b \<longleftrightarrow> lo \<le> b \<and> b \<le> hi"

definition badRune :: "nat \<times> nat" where
  "badRune = (65533, 1)"

fun decodeRune :: "nat list \<Rightarrow> nat \<times> nat" where
  "decodeRune [] = badRune"
| "decodeRune (b0 # bs) =
    (if b0 < 128 then (b0, 1)
     else if 194 \<le> b0 \<and> b0 \<le> 223 then
       (case bs of b1 # _ \<Rightarrow> if isCont 128 191 b1 then ((b0 mod 32) * 64 + b1 mod 64, 2) else badRune
        | _ \<Rightarrow> badRune)
     else if 224 \<le> b0 \<and> b0 \<le> 239 then
       (case bs of b1 # b2 # _ \<Rightarrow>
          if isCont (if b0 = 224 then 160 else 128) (if b0 = 237 then 159 else 191) b1 \<and> isCont 128 191 b2
          then ((b0 mod 16) * 4096 + (b1 mod 64) * 64 + b2 mod 64, 3) else badRune
        | _ \<Rightarrow> badRune)
     else if 240 \<le> b0 \<and> b0 \<le> 244 then
       (case bs of b1 # b2 # b3 # _ \<Rightarrow>
          if isCont (if b0 = 240 then 144 else 128) (if b0 = 244 then 143 else 191) b1
             \<and> isCont 128 191 b2 \<and> isCont 128 191 b3
          then ((b0 mod 8) * 262144 + (b1 mod 64) * 4096 + (b2 mod 64) * 64 + b3 mod 64, 4) else badRune
        | _ \<Rightarrow> badRune)
     else badRune)"

text \<open>A string cut into runes, each with the bytes it was read from.\<close>

fun segs :: "string \<Rightarrow> (nat \<times> string) list" where
  "segs [] = []"
| "segs (c # cs) =
    (let (r, w) = decodeRune (map byteOf (c # cs))
     in (r, c # take (w - 1) cs) # segs (drop (w - 1) cs))"

definition runesOf :: "string \<Rightarrow> nat list" where
  "runesOf s = map fst (segs s)"

definition asciiString :: "string \<Rightarrow> bool" where
  "asciiString s \<longleftrightarrow> (\<forall>c \<in> set s. byteOf c < 128)"

lemma decodeRune_ascii [simp]: "b0 < 128 \<Longrightarrow> decodeRune (b0 # bs) = (b0, 1)"
  by simp

lemma segs_ascii:
  "asciiString s \<Longrightarrow> segs s = map (\<lambda>c. (byteOf c, [c])) s"
  by (induction s) (auto simp: asciiString_def simp del: decodeRune.simps)

lemma concat_segs: "concat (map snd (segs s)) = s"
proof (induction s rule: segs.induct)
  case (2 c cs)
  obtain r w where rw: "decodeRune (map byteOf (c # cs)) = (r, w)"
    by (cases "decodeRune (map byteOf (c # cs))")
  with 2 show ?case by (simp del: decodeRune.simps)
qed simp

definition isSpaceRune :: "nat \<Rightarrow> bool" where
  "isSpaceRune r \<longleftrightarrow> r \<in> {9, 10, 11, 12, 13, 32, 133, 160, 5760, 8232, 8233, 8239, 8287, 12288}
     \<or> (8192 \<le> r \<and> r \<le> 8202)"

definition trimSpace :: "string \<Rightarrow> string" where
  "trimSpace s = concat (map snd (rev (dropWhile (isSpaceRune \<circ> fst)
     (rev (dropWhile (isSpaceRune \<circ> fst) (segs s))))))"

lemma trimSpace_Nil [simp]: "trimSpace [] = []"
  by (simp add: trimSpace_def)

section \<open>Searching and case\<close>

definition hasPrefix :: "string \<Rightarrow> string \<Rightarrow> bool" where
  "hasPrefix s p \<longleftrightarrow> take (length p) s = p"

fun containsStr :: "string \<Rightarrow> string \<Rightarrow> bool" where
  "containsStr [] sub = (sub = [])"
| "containsStr (c # cs) sub = (hasPrefix (c # cs) sub \<or> containsStr cs sub)"

definition lowerChar :: "char \<Rightarrow> char" where
  "lowerChar c = (if 65 \<le> byteOf c \<and> byteOf c \<le> 90 then char_of (byteOf c + 32) else c)"

text \<open>\<open>strings.ToLower\<close>, as far as its result is compared with ASCII text: the only letters
  outside ASCII with an ASCII lower case are U+0130 and U+212A; every other rune outside ASCII
  keeps a lower case outside ASCII and is left as it is.\<close>

definition lowerSeg :: "nat \<times> string \<Rightarrow> string" where
  "lowerSeg sg = (if fst sg = 304 then ''i'' else if fst sg = 8490 then ''k'' else map lowerChar (snd sg))"

definition goLower :: "string \<Rightarrow> string" where
  "goLower s = concat (map lowerSeg (segs s))"

text \<open>\<open>strings.Split\<close> at a one-byte separator.\<close>

fun splitOn :: "char \<Rightarrow> string \<Rightarrow> string list" where
  "splitOn sep [] = [[]]"
| "splitOn sep (c # cs) =
    (if c = sep then [] # splitOn sep cs
     else (case splitOn sep cs of [] \<Rightarrow> [[c]] | w # ws \<Rightarrow> (c # w) # ws))"

definition defaultString :: "string \<Rightarrow> string \<Rightarrow> string" where
  "defaultString value fallback = (if value = '''' then fallback else value)"

text \<open>The facts with which \<open>simp\<close> evaluates the string operations on literals.\<close>

lemmas string_eval = trimSpace_def runesOf_def byteOf_def isSpaceRune_def goLower_def lowerSeg_def
  lowerChar_def hasPrefix_def char_of_def of_char_def bit_Suc_0_iff

section \<open>Decimal numbers\<close>

definition digitChar :: "nat \<Rightarrow> char" where
  "digitChar n = char_of (48 + n)"

fun showNat :: "nat \<Rightarrow> string" where
  "showNat n = (if n < 10 then [digitChar n] else showNat (n div 10) @ [digitChar (n mod 10)])"

declare showNat.simps [simp del]

definition itoa :: "int \<Rightarrow> string" where
  "itoa i = (if i < 0 then CHR ''-'' # showNat (nat (- i)) else showNat (nat i))"

definition isDigit :: "char \<Rightarrow> bool" where
  "isDigit c \<longleftrightarrow> 48 \<le> byteOf c \<and> byteOf c \<le> 57"

definition digitsValue :: "string \<Rightarrow> int" where
  "digitsValue ds = foldl (\<lambda>acc c. 10 * acc + (int (byteOf c) - 48)) 0 ds"

text \<open>\<open>strconv.Atoi\<close> and \<open>strconv.ParseInt(s, 10, 64)\<close>.\<close>

definition atoi :: "string \<Rightarrow> goerr + int" where
  "atoi s =
    (let neg = hasPrefix s ''-'';
         ds = (if neg \<or> hasPrefix s ''+'' then drop 1 s else s)
     in if ds = [] \<or> \<not> list_all isDigit ds then Inl ErrSyntax
        else let v = (if neg then - digitsValue ds else digitsValue ds)
             in if int64Range v then Inr v else Inl ErrRange)"

lemma digitChar_byte: "n < 10 \<Longrightarrow> byteOf (digitChar n) = 48 + n"
  by (simp add: byteOf_def digitChar_def)

lemma showNat_digits: "list_all isDigit (showNat n) \<and> showNat n \<noteq> []"
proof (induction n rule: showNat.induct)
  case (1 n)
  then show ?case
    by (cases "n < 10")
      (auto simp: showNat.simps [of n] list.pred_set isDigit_def digitChar_byte)
qed

lemma showNat_value: "digitsValue (showNat n) = int n"
proof (induction n rule: showNat.induct)
  case (1 n)
  then show ?case
    by (subst showNat.simps) (auto simp: digitsValue_def digitChar_byte zmod_int zdiv_int)
qed

lemma showNat_no_sign: "\<not> hasPrefix (showNat n) ''-'' \<and> \<not> hasPrefix (showNat n) ''+''"
proof -
  have "isDigit (hd (showNat n))"
    using showNat_digits [of n] by (cases "showNat n") auto
  moreover have "\<not> isDigit (CHR ''-'')" "\<not> isDigit (CHR ''+'')"
    by (simp_all add: isDigit_def byteOf_def)
  ultimately show ?thesis
    using showNat_digits [of n] by (cases "showNat n") (auto simp: hasPrefix_def)
qed

lemma atoi_itoa: "int64Range n \<Longrightarrow> atoi (itoa n) = Inr n"
  using showNat_digits [of "nat n"] showNat_digits [of "nat (- n)"] showNat_no_sign [of "nat n"]
  by (auto simp: itoa_def atoi_def showNat_value hasPrefix_def)

section \<open>The dynamic type any\<close>

datatype goval =
    GNil
  | GBool bool
  | GInt int
  | GInt64 int
  | GFloat rat
  | GStr string
  | GMap "(string, goval) fmap"
  | GMapMap "(string, (string, goval) fmap) fmap"
  | GOther

type_synonym gomap = "(string, goval) fmap"

definition mapGet :: "gomap \<Rightarrow> string \<Rightarrow> goval" where
  "mapGet m k = (case fmlookup m k of None \<Rightarrow> GNil | Some v \<Rightarrow> v)"

lemma mapGet_simps [simp]:
  "mapGet (fmupd k v m) k' = (if k = k' then v else mapGet m k')"
  "mapGet fmempty k = GNil"
  by (simp_all add: mapGet_def)

lemma mapGet_drop [simp]:
  "mapGet (fmdrop k m) k' = (if k = k' then GNil else mapGet m k')"
  by (simp add: mapGet_def)

lemma fmupd_neq_empty [simp]: "fmupd k v m \<noteq> fmempty"
proof
  assume "fmupd k v m = fmempty"
  then have "fmlookup (fmupd k v m) k = fmlookup fmempty k" by simp
  then show False by simp
qed

lemma fmempty_neq_upd [simp]: "fmempty \<noteq> fmupd k v m"
  using fmupd_neq_empty [of k v m] by metis

primrec jsonNorm :: "goval \<Rightarrow> goval" where
  "jsonNorm GNil = GNil"
| "jsonNorm (GBool b) = GBool b"
| "jsonNorm (GInt n) = GFloat (fl (of_int n))"
| "jsonNorm (GInt64 n) = GFloat (fl (of_int n))"
| "jsonNorm (GFloat r) = GFloat r"
| "jsonNorm (GStr s) = GStr s"
| "jsonNorm (GMap m) = GMap (fmmap jsonNorm m)"
| "jsonNorm (GMapMap m) = GMap (fmmap GMap (fmmap (fmmap jsonNorm) m))"
| "jsonNorm GOther = GOther"

lemma mapGet_fmmap: "f GNil = GNil \<Longrightarrow> mapGet (fmmap f m) k = f (mapGet m k)"
  by (simp add: mapGet_def split: option.splits)

end
