(* ===== verification/AccountQuota.thy ===== *)
theory AccountQuota
  imports GoStrings
begin

text \<open>
  Quota windows and quota sets of an account (\<open>app/control/account/models_quota.go\<close>,
  \<open>quota_defaults.go\<close> and the enumerations of \<open>enums.go\<close>): the window of one mode, the set
  of six windows addressed by mode id, their conversion to and from \<open>map[string]any\<close>, the
  defaults and supported modes of each pool, normalisation against the pool, and inference of
  the pool from live windows. Pointers to windows are \<open>option\<close>s; the \<open>clone\<close> helpers of
  the source copy values, so in this value semantics they are the identity and have no
  definition.
\<close>

section \<open>Enumerations\<close>

datatype AccountStatus = StActive | StCooling | StExpired | StDisabled

fun statusString :: "AccountStatus \<Rightarrow> string" where
  "statusString StActive = ''active''"
| "statusString StCooling = ''cooling''"
| "statusString StExpired = ''expired''"
| "statusString StDisabled = ''disabled''"

definition ParseAccountStatus :: "string \<Rightarrow> AccountStatus option" where
  "ParseAccountStatus value =
    (if value = ''active'' then Some StActive
     else if value = ''cooling'' then Some StCooling
     else if value = ''expired'' then Some StExpired
     else if value = ''disabled'' then Some StDisabled
     else None)"

datatype QuotaSource = SrcDefault | SrcReal | SrcEstimated

fun sourceInt :: "QuotaSource \<Rightarrow> int" where
  "sourceInt SrcDefault = 0"
| "sourceInt SrcReal = 1"
| "sourceInt SrcEstimated = 2"

definition ParseQuotaSource :: "int \<Rightarrow> QuotaSource option" where
  "ParseQuotaSource v =
    (if v = 0 then Some SrcDefault else if v = 1 then Some SrcReal
     else if v = 2 then Some SrcEstimated else None)"

datatype FeedbackKind =
    FbSuccess | FbUnauthorized | FbForbidden | FbRateLimited
  | FbServerError | FbDisable | FbDelete | FbRestore

fun kindString :: "FeedbackKind \<Rightarrow> string" where
  "kindString FbSuccess = ''success''"
| "kindString FbUnauthorized = ''unauthorized''"
| "kindString FbForbidden = ''forbidden''"
| "kindString FbRateLimited = ''rate_limited''"
| "kindString FbServerError = ''server_error''"
| "kindString FbDisable = ''disable''"
| "kindString FbDelete = ''delete''"
| "kindString FbRestore = ''restore''"

definition ParseFeedbackKind :: "string \<Rightarrow> FeedbackKind option" where
  "ParseFeedbackKind value =
    (if value = ''success'' then Some FbSuccess
     else if value = ''unauthorized'' then Some FbUnauthorized
     else if value = ''forbidden'' then Some FbForbidden
     else if value = ''rate_limited'' then Some FbRateLimited
     else if value = ''server_error'' then Some FbServerError
     else if value = ''disable'' then Some FbDisable
     else if value = ''delete'' then Some FbDelete
     else if value = ''restore'' then Some FbRestore
     else None)"

lemma ParseAccountStatus_string [simp]: "ParseAccountStatus (statusString s) = Some s"
  by (cases s) (simp_all add: ParseAccountStatus_def)

lemma ParseQuotaSource_int [simp]: "ParseQuotaSource (sourceInt s) = Some s"
  by (cases s) (simp_all add: ParseQuotaSource_def)

lemma ParseFeedbackKind_string [simp]: "ParseFeedbackKind (kindString k) = Some k"
  by (cases k) (simp_all add: ParseFeedbackKind_def)

section \<open>Conversions from any\<close>

definition intFromAny :: "goval \<Rightarrow> int \<Rightarrow> goerr + int" where
  "intFromAny value defaultValue =
    (case value of
       GNil \<Rightarrow> Inr defaultValue
     | GInt v \<Rightarrow> Inr v
     | GInt64 v \<Rightarrow> Inr v
     | GFloat v \<Rightarrow> Inr (truncRat v)
     | GStr v \<Rightarrow> atoi (trimSpace v)
     | _ \<Rightarrow> Inl ErrType)"

definition int64FromAny :: "goval \<Rightarrow> goerr + int" where
  "int64FromAny value =
    (case value of
       GInt v \<Rightarrow> Inr v
     | GInt64 v \<Rightarrow> Inr v
     | GFloat v \<Rightarrow> Inr (truncRat v)
     | GStr v \<Rightarrow> atoi (trimSpace v)
     | _ \<Rightarrow> Inl ErrType)"

definition optionalInt64FromAny :: "goval \<Rightarrow> goerr + int option" where
  "optionalInt64FromAny value =
    (if value = GNil then Inr None
     else bindE (int64FromAny value) (\<lambda>parsed. Inr (Some parsed)))"

definition optionalInt64Value :: "int option \<Rightarrow> goval" where
  "optionalInt64Value value = (case value of None \<Rightarrow> GNil | Some v \<Rightarrow> GInt64 v)"

definition quotaSourceFromAny :: "goval \<Rightarrow> goerr + QuotaSource" where
  "quotaSourceFromAny value =
    bindE (wrapE ''source'' (intFromAny value 0)) (\<lambda>parsed.
      case ParseQuotaSource parsed of None \<Rightarrow> Inl (ErrQuotaSource parsed) | Some s \<Rightarrow> Inr s)"

definition mapFromAny :: "goval \<Rightarrow> goerr + gomap" where
  "mapFromAny value =
    (case value of
       GMap v \<Rightarrow> Inr v
     | GMapMap v \<Rightarrow> Inr (fmmap GMap v)
     | _ \<Rightarrow> Inl ErrType)"

section \<open>Quota windows\<close>

record QuotaWindow =
  qw_remaining :: int
  qw_total :: int
  qw_windowSeconds :: int
  qw_resetAt :: "int option"
  qw_syncedAt :: "int option"
  qw_source :: QuotaSource

definition IsExhausted :: "QuotaWindow \<Rightarrow> bool" where
  "IsExhausted w \<longleftrightarrow> qw_remaining w \<le> 0"

definition IsWindowExpired :: "QuotaWindow \<Rightarrow> int \<Rightarrow> bool" where
  "IsWindowExpired w now \<longleftrightarrow> (case qw_resetAt w of None \<Rightarrow> False | Some r \<Rightarrow> now \<ge> r)"

definition windowToDict :: "QuotaWindow \<Rightarrow> gomap" where
  "windowToDict w = fmap_of_list
    [(''remaining'', GInt (qw_remaining w)),
     (''total'', GInt (qw_total w)),
     (''window_seconds'', GInt (qw_windowSeconds w)),
     (''reset_at'', optionalInt64Value (qw_resetAt w)),
     (''synced_at'', optionalInt64Value (qw_syncedAt w)),
     (''source'', GInt (sourceInt (qw_source w)))]"

definition quotaWindowFromParsed :: "gomap \<Rightarrow> int \<Rightarrow> int \<Rightarrow> goerr + QuotaWindow" where
  "quotaWindowFromParsed data remaining ttl =
    bindE (wrapE ''window_seconds'' (intFromAny (mapGet data ''window_seconds'') 0)) (\<lambda>windowSeconds.
    bindE (wrapE ''reset_at'' (optionalInt64FromAny (mapGet data ''reset_at''))) (\<lambda>resetAt.
    bindE (wrapE ''synced_at'' (optionalInt64FromAny (mapGet data ''synced_at''))) (\<lambda>syncedAt.
    bindE (quotaSourceFromAny (mapGet data ''source'')) (\<lambda>source.
      Inr \<lparr>qw_remaining = remaining, qw_total = ttl, qw_windowSeconds = windowSeconds,
        qw_resetAt = resetAt, qw_syncedAt = syncedAt, qw_source = source\<rparr>))))"

definition QuotaWindowFromDict :: "gomap \<Rightarrow> goerr + QuotaWindow" where
  "QuotaWindowFromDict data =
    bindE (wrapE ''remaining'' (intFromAny (mapGet data ''remaining'') 0)) (\<lambda>remaining.
    bindE (wrapE ''total'' (intFromAny (mapGet data ''total'') 0)) (\<lambda>ttl.
      quotaWindowFromParsed data remaining ttl))"

text \<open>The invariant of a window the service writes itself.\<close>

definition window_ok :: "QuotaWindow \<Rightarrow> bool" where
  "window_ok w \<longleftrightarrow> 0 \<le> qw_remaining w \<and> qw_remaining w \<le> qw_total w \<and> 0 \<le> qw_windowSeconds w"

section \<open>Quota sets\<close>

record AccountQuotaSet =
  qs_auto :: QuotaWindow
  qs_fast :: QuotaWindow
  qs_expert :: QuotaWindow
  qs_heavy :: "QuotaWindow option"
  qs_grok43 :: "QuotaWindow option"
  qs_console :: "QuotaWindow option"

definition quotaGet :: "AccountQuotaSet \<Rightarrow> int \<Rightarrow> QuotaWindow option" where
  "quotaGet s modeID =
    (if modeID = 0 then Some (qs_auto s)
     else if modeID = 1 then Some (qs_fast s)
     else if modeID = 2 then Some (qs_expert s)
     else if modeID = 3 then qs_heavy s
     else if modeID = 4 then qs_grok43 s
     else if modeID = 5 then qs_console s
     else None)"

definition quotaSet :: "AccountQuotaSet \<Rightarrow> int \<Rightarrow> QuotaWindow \<Rightarrow> AccountQuotaSet" where
  "quotaSet s modeID window =
    (if modeID = 0 then s\<lparr>qs_auto := window\<rparr>
     else if modeID = 1 then s\<lparr>qs_fast := window\<rparr>
     else if modeID = 2 then s\<lparr>qs_expert := window\<rparr>
     else if modeID = 3 then s\<lparr>qs_heavy := Some window\<rparr>
     else if modeID = 4 then s\<lparr>qs_grok43 := Some window\<rparr>
     else s\<lparr>qs_console := Some window\<rparr>)"

definition addQuotaWindow :: "gomap \<Rightarrow> string \<Rightarrow> QuotaWindow option \<Rightarrow> gomap" where
  "addQuotaWindow data key window =
    (case window of None \<Rightarrow> data | Some w \<Rightarrow> fmupd key (GMap (windowToDict w)) data)"

definition quotaSetToDict :: "AccountQuotaSet \<Rightarrow> gomap" where
  "quotaSetToDict s =
    addQuotaWindow (addQuotaWindow (addQuotaWindow
      (fmap_of_list
        [(''auto'', GMap (windowToDict (qs_auto s))),
         (''fast'', GMap (windowToDict (qs_fast s))),
         (''expert'', GMap (windowToDict (qs_expert s)))])
      ''heavy'' (qs_heavy s)) ''grok_4_3'' (qs_grok43 s)) ''console'' (qs_console s)"

text \<open>\<open>mapAt\<close> answers \<open>None\<close> where the source answers \<open>ok = false\<close>.\<close>

definition mapAt :: "gomap \<Rightarrow> string \<Rightarrow> goerr + gomap option" where
  "mapAt data key =
    (if mapGet data key = GNil then Inr None
     else bindE (mapFromAny (mapGet data key)) (\<lambda>nested.
       if nested = fmempty then Inr None else Inr (Some nested)))"

definition quotaWindowAt :: "gomap \<Rightarrow> string \<Rightarrow> goerr + QuotaWindow option" where
  "quotaWindowAt data key =
    bindE (mapAt data key) (\<lambda>found.
      case found of
        None \<Rightarrow> Inr None
      | Some nested \<Rightarrow> bindE (wrapE key (QuotaWindowFromDict nested)) (\<lambda>window. Inr (Some window)))"

definition requiredQuotaWindowAt :: "gomap \<Rightarrow> string \<Rightarrow> goerr + QuotaWindow" where
  "requiredQuotaWindowAt data key =
    bindE (quotaWindowAt data key) (\<lambda>window.
      case window of None \<Rightarrow> QuotaWindowFromDict fmempty | Some w \<Rightarrow> Inr w)"

definition optionalQuotaSetFromDict ::
    "gomap \<Rightarrow> QuotaWindow \<Rightarrow> QuotaWindow \<Rightarrow> QuotaWindow \<Rightarrow> goerr + AccountQuotaSet" where
  "optionalQuotaSetFromDict data auto fast expert =
    bindE (quotaWindowAt data ''heavy'') (\<lambda>heavy.
    bindE (quotaWindowAt data ''grok_4_3'') (\<lambda>grok43.
    bindE (quotaWindowAt data ''console'') (\<lambda>console.
      Inr \<lparr>qs_auto = auto, qs_fast = fast, qs_expert = expert,
        qs_heavy = heavy, qs_grok43 = grok43, qs_console = console\<rparr>)))"

definition AccountQuotaSetFromDict :: "gomap \<Rightarrow> goerr + AccountQuotaSet" where
  "AccountQuotaSetFromDict data =
    bindE (requiredQuotaWindowAt data ''auto'') (\<lambda>auto.
    bindE (requiredQuotaWindowAt data ''fast'') (\<lambda>fast.
    bindE (requiredQuotaWindowAt data ''expert'') (\<lambda>expert.
      optionalQuotaSetFromDict data auto fast expert)))"

section \<open>Defaults and pools\<close>

definition quotaWindow :: "int \<Rightarrow> int \<Rightarrow> int \<Rightarrow> QuotaWindow" where
  "quotaWindow remaining ttl windowSeconds =
    \<lparr>qw_remaining = remaining, qw_total = ttl, qw_windowSeconds = windowSeconds,
     qw_resetAt = None, qw_syncedAt = None, qw_source = SrcDefault\<rparr>"

definition basicFastLimit :: int where "basicFastLimit = 30"
definition basicFastWindowSeconds :: int where "basicFastWindowSeconds = 86400"
definition basicConsoleLimit :: int where "basicConsoleLimit = 20"
definition basicConsoleWindowSeconds :: int where "basicConsoleWindowSeconds = 3600"

definition basicQuotaDefaults :: AccountQuotaSet where
  "basicQuotaDefaults =
    \<lparr>qs_auto = quotaWindow 0 0 0,
     qs_fast = quotaWindow basicFastLimit basicFastLimit basicFastWindowSeconds,
     qs_expert = quotaWindow 0 0 0,
     qs_heavy = None, qs_grok43 = None,
     qs_console = Some (quotaWindow basicConsoleLimit basicConsoleLimit basicConsoleWindowSeconds)\<rparr>"

definition superQuotaDefaults :: AccountQuotaSet where
  "superQuotaDefaults =
    \<lparr>qs_auto = quotaWindow 50 50 7200, qs_fast = quotaWindow 140 140 7200,
     qs_expert = quotaWindow 50 50 7200,
     qs_heavy = None, qs_grok43 = Some (quotaWindow 50 50 7200), qs_console = None\<rparr>"

definition heavyQuotaDefaults :: AccountQuotaSet where
  "heavyQuotaDefaults =
    \<lparr>qs_auto = quotaWindow 150 150 7200, qs_fast = quotaWindow 400 400 7200,
     qs_expert = quotaWindow 150 150 7200,
     qs_heavy = Some (quotaWindow 20 20 7200), qs_grok43 = Some (quotaWindow 150 150 7200),
     qs_console = None\<rparr>"

definition quotaDefaultsForPool :: "string \<Rightarrow> AccountQuotaSet" where
  "quotaDefaultsForPool pool =
    (if pool = ''super'' then superQuotaDefaults
     else if pool = ''heavy'' then heavyQuotaDefaults
     else basicQuotaDefaults)"

definition DefaultQuotaSet :: "string \<Rightarrow> AccountQuotaSet" where
  "DefaultQuotaSet pool = quotaDefaultsForPool pool"

definition supportedModeIDsByPool :: "string \<Rightarrow> int list option" where
  "supportedModeIDsByPool pool =
    (if pool = ''basic'' then Some [1, 5]
     else if pool = ''super'' then Some [0, 1, 2, 4, 5]
     else if pool = ''heavy'' then Some [0, 1, 2, 3, 4, 5]
     else None)"

definition supportedModesForPool :: "string \<Rightarrow> int list" where
  "supportedModesForPool pool =
    (case supportedModeIDsByPool pool of Some supported \<Rightarrow> supported | None \<Rightarrow> [1, 5])"

definition SupportsMode :: "string \<Rightarrow> int \<Rightarrow> bool" where
  "SupportsMode pool modeID \<longleftrightarrow> modeID \<in> set (supportedModesForPool pool)"

definition SupportedModeIDs :: "string \<Rightarrow> int list" where
  "SupportedModeIDs pool =
    filter (\<lambda>modeID. modeID \<in> set (supportedModesForPool pool)) [0, 1, 2, 3, 4, 5]"

definition DefaultQuotaWindow :: "string \<Rightarrow> int \<Rightarrow> QuotaWindow option" where
  "DefaultQuotaWindow pool modeID =
    (if \<not> SupportsMode pool modeID then None else quotaGet (DefaultQuotaSet pool) modeID)"

definition clampInt :: "int \<Rightarrow> int \<Rightarrow> int \<Rightarrow> int" where
  "clampInt value minimum maximum =
    (if value < minimum then minimum else if value > maximum then maximum else value)"

definition normalizeBasicFastWindow :: "QuotaWindow \<Rightarrow> QuotaWindow" where
  "normalizeBasicFastWindow w =
    \<lparr>qw_remaining = clampInt (qw_remaining w) 0 basicFastLimit,
     qw_total = basicFastLimit,
     qw_windowSeconds = basicFastWindowSeconds,
     qw_resetAt = qw_resetAt w, qw_syncedAt = qw_syncedAt w, qw_source = qw_source w\<rparr>"

definition NormalizeQuotaWindow :: "string \<Rightarrow> int \<Rightarrow> QuotaWindow option \<Rightarrow> QuotaWindow option" where
  "NormalizeQuotaWindow pool modeID window =
    (case window of
       None \<Rightarrow> None
     | Some w \<Rightarrow>
         if \<not> SupportsMode pool modeID then None
         else if pool = ''basic'' \<and> modeID = 1 then Some (normalizeBasicFastWindow w)
         else Some w)"

definition windowOrDefault :: "QuotaWindow option \<Rightarrow> QuotaWindow \<Rightarrow> QuotaWindow" where
  "windowOrDefault window fallback = (case window of None \<Rightarrow> fallback | Some w \<Rightarrow> w)"

definition windowPtrOrDefault :: "QuotaWindow option \<Rightarrow> QuotaWindow option \<Rightarrow> QuotaWindow option" where
  "windowPtrOrDefault window fallback = (case window of None \<Rightarrow> fallback | Some w \<Rightarrow> Some w)"

definition NormalizeQuotaSet :: "string \<Rightarrow> AccountQuotaSet \<Rightarrow> AccountQuotaSet" where
  "NormalizeQuotaSet pool s =
    (let defaults = DefaultQuotaSet pool
     in \<lparr>qs_auto = windowOrDefault (NormalizeQuotaWindow pool 0 (Some (qs_auto s))) (qs_auto defaults),
         qs_fast = windowOrDefault (NormalizeQuotaWindow pool 1 (Some (qs_fast s))) (qs_fast defaults),
         qs_expert = windowOrDefault (NormalizeQuotaWindow pool 2 (Some (qs_expert s))) (qs_expert defaults),
         qs_heavy = NormalizeQuotaWindow pool 3 (qs_heavy s),
         qs_grok43 = NormalizeQuotaWindow pool 4 (qs_grok43 s),
         qs_console = windowPtrOrDefault (NormalizeQuotaWindow pool 5 (qs_console s)) (qs_console defaults)\<rparr>)"

definition autoTotalToPool :: "int \<Rightarrow> string option" where
  "autoTotalToPool ttl =
    (if ttl = 20 then Some ''basic'' else if ttl = 50 then Some ''super''
     else if ttl = 150 then Some ''heavy'' else None)"

type_synonym windows = "int \<rightharpoonup> QuotaWindow"

definition InferPool :: "windows \<Rightarrow> string" where
  "InferPool ws =
    (case ws 0 of
       None \<Rightarrow> ''basic''
     | Some auto \<Rightarrow> (case autoTotalToPool (qw_total auto) of Some pool \<Rightarrow> pool | None \<Rightarrow> ''basic''))"

fun inferFromModes :: "windows \<Rightarrow> int list \<Rightarrow> string option" where
  "inferFromModes ws [] = None"
| "inferFromModes ws (modeID # rest) =
    (case ws modeID of
       None \<Rightarrow> inferFromModes ws rest
     | Some w \<Rightarrow>
         if qw_total w = 150 then Some ''heavy''
         else if qw_total w = 50 then Some ''super''
         else inferFromModes ws rest)"

definition InferPoolFromLiveWindows :: "windows \<Rightarrow> string option" where
  "InferPoolFromLiveWindows ws =
    (case ws 0 of
       None \<Rightarrow> inferFromModes ws [2, 4]
     | Some auto \<Rightarrow>
         if InferPool ws \<noteq> ''basic'' \<or> qw_total auto = 20 then Some (InferPool ws)
         else inferFromModes ws [2, 4])"

section \<open>Lemmas\<close>

lemma mode_cases:
  assumes "0 \<le> m" "m \<le> (5::int)"
  obtains "m = 0" | "m = 1" | "m = 2" | "m = 3" | "m = 4" | "m = 5"
  using assms by linarith

lemma optionalInt64_roundtrip [simp]: "optionalInt64FromAny (optionalInt64Value v) = Inr v"
  by (cases v) (simp_all add: optionalInt64FromAny_def optionalInt64Value_def int64FromAny_def)

lemma windowToDict_get [simp]:
  "mapGet (windowToDict w) ''remaining'' = GInt (qw_remaining w)"
  "mapGet (windowToDict w) ''total'' = GInt (qw_total w)"
  "mapGet (windowToDict w) ''window_seconds'' = GInt (qw_windowSeconds w)"
  "mapGet (windowToDict w) ''reset_at'' = optionalInt64Value (qw_resetAt w)"
  "mapGet (windowToDict w) ''synced_at'' = optionalInt64Value (qw_syncedAt w)"
  "mapGet (windowToDict w) ''source'' = GInt (sourceInt (qw_source w))"
  by (simp_all add: windowToDict_def)

lemma windowToDict_nonempty [simp]: "windowToDict w \<noteq> fmempty"
  by (simp add: windowToDict_def)

lemma window_roundtrip: "QuotaWindowFromDict (windowToDict w) = Inr w"
  by (simp add: QuotaWindowFromDict_def quotaWindowFromParsed_def quotaSourceFromAny_def intFromAny_def)

lemma quotaWindowAt_GMap [simp]:
  "mapGet d k = GMap (windowToDict w) \<Longrightarrow> quotaWindowAt d k = Inr (Some w)"
  by (simp add: quotaWindowAt_def mapAt_def mapFromAny_def window_roundtrip)

lemma quotaWindowAt_GNil [simp]: "mapGet d k = GNil \<Longrightarrow> quotaWindowAt d k = Inr None"
  by (simp add: quotaWindowAt_def mapAt_def)

lemma quotaSetToDict_get:
  "mapGet (quotaSetToDict s) ''auto'' = GMap (windowToDict (qs_auto s))"
  "mapGet (quotaSetToDict s) ''fast'' = GMap (windowToDict (qs_fast s))"
  "mapGet (quotaSetToDict s) ''expert'' = GMap (windowToDict (qs_expert s))"
  "mapGet (quotaSetToDict s) ''heavy'' = (case qs_heavy s of None \<Rightarrow> GNil | Some w \<Rightarrow> GMap (windowToDict w))"
  "mapGet (quotaSetToDict s) ''grok_4_3'' = (case qs_grok43 s of None \<Rightarrow> GNil | Some w \<Rightarrow> GMap (windowToDict w))"
  "mapGet (quotaSetToDict s) ''console'' = (case qs_console s of None \<Rightarrow> GNil | Some w \<Rightarrow> GMap (windowToDict w))"
  by (simp_all add: quotaSetToDict_def addQuotaWindow_def split: option.splits)

lemma quotaWindowAt_option:
  "mapGet d k = (case ow of None \<Rightarrow> GNil | Some w \<Rightarrow> GMap (windowToDict w)) \<Longrightarrow> quotaWindowAt d k = Inr ow"
  for ow :: "QuotaWindow option"
  by (cases ow) simp_all

lemma quota_set_dict: "AccountQuotaSetFromDict (quotaSetToDict s) = Inr s"
  by (simp add: AccountQuotaSetFromDict_def requiredQuotaWindowAt_def optionalQuotaSetFromDict_def
      quotaSetToDict_get quotaWindowAt_option)

lemma clampInt_bounds:
  "lo \<le> hi \<Longrightarrow> lo \<le> clampInt v lo hi \<and> clampInt v lo hi \<le> hi"
  by (simp add: clampInt_def)

lemma clampInt_id: "lo \<le> v \<Longrightarrow> v \<le> hi \<Longrightarrow> clampInt v lo hi = v"
  by (simp add: clampInt_def)

lemmas quota_access = quotaGet_def quotaSet_def

lemma quotaGet_quotaSet_same: "0 \<le> m \<Longrightarrow> m \<le> 5 \<Longrightarrow> quotaGet (quotaSet s m w) m = Some w"
  by (erule (1) mode_cases) (simp_all add: quota_access)

lemma quotaGet_quotaSet_other:
  "0 \<le> m \<Longrightarrow> m \<le> 5 \<Longrightarrow> m \<noteq> m' \<Longrightarrow> quotaGet (quotaSet s m w) m' = quotaGet s m'"
  by (erule (1) mode_cases) (simp_all add: quota_access)

lemmas pool_defs = SupportsMode_def supportedModesForPool_def supportedModeIDsByPool_def

lemmas default_defs = DefaultQuotaSet_def quotaDefaultsForPool_def basicQuotaDefaults_def
  superQuotaDefaults_def heavyQuotaDefaults_def quotaWindow_def basicFastLimit_def
  basicFastWindowSeconds_def basicConsoleLimit_def basicConsoleWindowSeconds_def

lemma default_windows_ok:
  "quotaGet (DefaultQuotaSet pool) m = Some w \<Longrightarrow> window_ok w \<and> qw_remaining w = qw_total w"
  by (auto simp: quotaGet_def default_defs window_ok_def split: if_splits)

lemma normalizeBasicFast_idem [simp]:
  "normalizeBasicFastWindow (normalizeBasicFastWindow w) = normalizeBasicFastWindow w"
  by (simp add: normalizeBasicFastWindow_def clampInt_def basicFastLimit_def)

lemma basic_supports: "SupportsMode pool 1" "SupportsMode pool 5"
  by (simp_all add: pool_defs)

lemma NormalizeQuotaWindow_idem:
  "NormalizeQuotaWindow pool m (NormalizeQuotaWindow pool m w) = NormalizeQuotaWindow pool m w"
  by (cases w; cases "pool = ''basic'' \<and> m = 1") (auto simp: NormalizeQuotaWindow_def basic_supports)

lemma NormalizeQuotaWindow_SomeD:
  "NormalizeQuotaWindow pool m w = Some w' \<Longrightarrow>
     SupportsMode pool m \<and> (\<exists>v. w = Some v \<and>
       w' = (if pool = ''basic'' \<and> m = 1 then normalizeBasicFastWindow v else v))"
  by (auto simp: NormalizeQuotaWindow_def split: option.splits if_splits)

definition json_int :: "int \<Rightarrow> bool" where
  "json_int n \<longleftrightarrow> \<bar>n\<bar> < 2 ^ 53"

definition window_json_safe :: "QuotaWindow \<Rightarrow> bool" where
  "window_json_safe w \<longleftrightarrow> json_int (qw_remaining w) \<and> json_int (qw_total w) \<and>
     json_int (qw_windowSeconds w) \<and> (\<forall>r. qw_resetAt w = Some r \<longrightarrow> json_int r) \<and>
     (\<forall>r. qw_syncedAt w = Some r \<longrightarrow> json_int r)"

definition quota_json_safe :: "AccountQuotaSet \<Rightarrow> bool" where
  "quota_json_safe s \<longleftrightarrow> (\<forall>m \<in> {0..5}. \<forall>w. quotaGet s m = Some w \<longrightarrow> window_json_safe w)"

lemma json_int_roundtrip [simp]:
  "json_int n \<Longrightarrow> intFromAny (jsonNorm (GInt n)) d = Inr n"
  by (simp add: intFromAny_def json_int_def fl_of_int)

lemma json_int64_roundtrip [simp]:
  "(\<forall>r. v = Some r \<longrightarrow> json_int r) \<Longrightarrow> optionalInt64FromAny (jsonNorm (optionalInt64Value v)) = Inr v"
  by (cases v)
    (simp_all add: optionalInt64FromAny_def optionalInt64Value_def int64FromAny_def json_int_def fl_of_int)

lemma window_json_roundtrip:
  assumes "window_json_safe w"
  shows "QuotaWindowFromDict (fmmap jsonNorm (windowToDict w)) = Inr w"
proof -
  have src: "json_int (sourceInt (qw_source w))"
    by (cases "qw_source w") (simp_all add: json_int_def)
  show ?thesis
    using assms src
    by (simp add: QuotaWindowFromDict_def quotaWindowFromParsed_def quotaSourceFromAny_def
        mapGet_fmmap window_json_safe_def del: jsonNorm.simps(3))
qed

lemma fmmap_windowToDict_nonempty [simp]: "fmmap jsonNorm (windowToDict w) \<noteq> fmempty"
proof
  assume "fmmap jsonNorm (windowToDict w) = fmempty"
  then have "mapGet (fmmap jsonNorm (windowToDict w)) ''total'' = mapGet fmempty ''total''" by simp
  then show False by (simp add: mapGet_fmmap)
qed

lemma quotaWindowAt_json:
  assumes "mapGet d k = (case ow of None \<Rightarrow> GNil | Some w \<Rightarrow> GMap (windowToDict w))"
    and "\<And>w. ow = Some w \<Longrightarrow> window_json_safe w"
  shows "quotaWindowAt (fmmap jsonNorm d) k = Inr ow"
  using assms
  by (cases ow)
    (simp_all add: quotaWindowAt_def mapAt_def mapFromAny_def mapGet_fmmap window_json_roundtrip)

lemma quota_set_json:
  assumes "quota_json_safe s"
  shows "AccountQuotaSetFromDict (fmmap jsonNorm (quotaSetToDict s)) = Inr s"
proof -
  have safe: "window_json_safe w" if "quotaGet s m = Some w" "m \<in> {0..5}" for m w
    using assms that by (auto simp: quota_json_safe_def)
  have at: "quotaWindowAt (fmmap jsonNorm (quotaSetToDict s)) ''auto'' = Inr (Some (qs_auto s))"
    "quotaWindowAt (fmmap jsonNorm (quotaSetToDict s)) ''fast'' = Inr (Some (qs_fast s))"
    "quotaWindowAt (fmmap jsonNorm (quotaSetToDict s)) ''expert'' = Inr (Some (qs_expert s))"
    "quotaWindowAt (fmmap jsonNorm (quotaSetToDict s)) ''heavy'' = Inr (qs_heavy s)"
    "quotaWindowAt (fmmap jsonNorm (quotaSetToDict s)) ''grok_4_3'' = Inr (qs_grok43 s)"
    "quotaWindowAt (fmmap jsonNorm (quotaSetToDict s)) ''console'' = Inr (qs_console s)"
    using safe [of 0] safe [of 1] safe [of 2] safe [of 3] safe [of 4] safe [of 5]
    by (auto intro!: quotaWindowAt_json simp: quotaSetToDict_get quotaGet_def)
  then show ?thesis
    by (simp add: AccountQuotaSetFromDict_def requiredQuotaWindowAt_def optionalQuotaSetFromDict_def)
qed

lemma default_json_safe: "quota_json_safe (DefaultQuotaSet pool)"
  by (auto simp: quota_json_safe_def window_json_safe_def json_int_def quotaGet_def default_defs
      split: if_splits)

section \<open>Properties\<close>

text \<open>C19. Round trip: reading back the \<open>map[string]any\<close> a quota set is written as gives the same
  set, directly and after the map went through JSON (where every number comes back as a
  \<open>float64\<close>), for numbers below \<open>2 ^ 53\<close>.\<close>

theorem quota_set_roundtrip:
  assumes "quota_json_safe s"
  shows "AccountQuotaSetFromDict (quotaSetToDict s) = Inr s \<and>
    AccountQuotaSetFromDict (fmmap jsonNorm (quotaSetToDict s)) = Inr s"
  using quota_set_dict [of s] quota_set_json [OF assms] by simp

theorem quota_set_roundtrip_witness:
  "quota_json_safe heavyQuotaDefaults \<and>
   AccountQuotaSetFromDict (fmmap jsonNorm (quotaSetToDict heavyQuotaDefaults)) = Inr heavyQuotaDefaults"
proof -
  have "quota_json_safe heavyQuotaDefaults"
    by (auto simp: quota_json_safe_def window_json_safe_def json_int_def quotaGet_def default_defs
        split: if_splits)
  then show ?thesis using quota_set_roundtrip by blast
qed

text \<open>Normalising a quota set against a pool is idempotent, it never grants a window of a mode
  the pool does not support beyond the pool's default, and the fast window of the basic pool ends
  within its fixed limit.\<close>

theorem normalize_quota_set:
  "NormalizeQuotaSet pool (NormalizeQuotaSet pool s) = NormalizeQuotaSet pool s \<and>
   (SupportsMode pool m \<or>
     quotaGet (NormalizeQuotaSet pool s) m \<in> {quotaGet (DefaultQuotaSet pool) m, None}) \<and>
   (\<exists>w. quotaGet (NormalizeQuotaSet ''basic'' s) 1 = Some w \<and> window_ok w \<and>
     qw_total w = 30 \<and> qw_windowSeconds w = 86400)"
proof (intro conjI)
  show "NormalizeQuotaSet pool (NormalizeQuotaSet pool s) = NormalizeQuotaSet pool s"
    by (simp add: NormalizeQuotaSet_def Let_def NormalizeQuotaWindow_idem)
      (auto simp: windowOrDefault_def windowPtrOrDefault_def NormalizeQuotaWindow_def basic_supports
        split: option.splits if_splits)
  show "SupportsMode pool m \<or>
     quotaGet (NormalizeQuotaSet pool s) m \<in> {quotaGet (DefaultQuotaSet pool) m, None}"
    by (auto simp: quotaGet_def NormalizeQuotaSet_def Let_def windowOrDefault_def windowPtrOrDefault_def
        NormalizeQuotaWindow_def split: option.splits)
  show "\<exists>w. quotaGet (NormalizeQuotaSet ''basic'' s) 1 = Some w \<and> window_ok w \<and>
     qw_total w = 30 \<and> qw_windowSeconds w = 86400"
    by (auto simp: quotaGet_def NormalizeQuotaSet_def Let_def windowOrDefault_def NormalizeQuotaWindow_def
        basic_supports normalizeBasicFastWindow_def window_ok_def clampInt_def basicFastLimit_def
        basicFastWindowSeconds_def)
qed

end
