(* ===== verification/AccountRecord.thy ===== *)
theory AccountRecord
  imports AccountQuota
begin

text \<open>
  Account records and the commands that change them (\<open>app/control/account/models_record.go\<close>,
  \<open>commands.go\<close>, \<open>models_results.go\<close>): normalisation of tokens, pools and tags, the
  constructor \<open>NewAccountRecord\<close>, upserts, patches, the list query and the result types. A
  nil pointer, and a nil map or slice where the code tests for it, is \<open>None\<close>. The arguments
  of type \<open>any\<close> are strings in every call of the repository, so the normalisers take strings.
\<close>

section \<open>Tokens\<close>

definition normalizeTokenRune :: "nat \<Rightarrow> nat option" where
  "normalizeTokenRune r =
    (if r \<in> {8208, 8209, 8210, 8211, 8212, 8722} then Some 45
     else if r \<in> {160, 8199, 8239} then Some 32
     else if r \<in> {8203, 8204, 8205, 65279} then None
     else Some r)"

text \<open>The text written to the \<open>strings.Builder\<close>, as the runes it holds.\<close>

fun normalizeTokenText :: "nat list \<Rightarrow> nat list" where
  "normalizeTokenText [] = []"
| "normalizeTokenText (r # rs) =
    (case normalizeTokenRune r of
       None \<Rightarrow> normalizeTokenText rs
     | Some mapped \<Rightarrow>
         if isSpaceRune mapped then normalizeTokenText rs else mapped # normalizeTokenText rs)"

definition asciiOnly :: "nat list \<Rightarrow> string" where
  "asciiOnly rs = map char_of (filter (\<lambda>r. r \<le> 127) rs)"

definition ssoPrefix :: "nat list" where
  "ssoPrefix = map byteOf ''sso=''"

definition NormalizeAccountToken :: "string \<Rightarrow> goerr + string" where
  "NormalizeAccountToken value =
    (let text1 = normalizeTokenText (runesOf value);
         text2 = (if take 4 text1 = ssoPrefix then drop 4 text1 else text1);
         token = asciiOnly text2
     in if token = '''' then Inl ErrEmptyToken else Inr token)"

text \<open>What a token is after normalisation: not empty, ASCII only and without white space.\<close>

definition token_clean :: "string \<Rightarrow> bool" where
  "token_clean t \<longleftrightarrow> t \<noteq> '''' \<and> asciiString t \<and> (\<forall>c \<in> set t. \<not> isSpaceRune (byteOf c))"

lemma normalizeTokenText_noSpace: "r \<in> set (normalizeTokenText rs) \<Longrightarrow> \<not> isSpaceRune r"
  by (induction rs) (auto split: option.splits if_splits)

lemma asciiOnly_clean:
  assumes "\<And>r. r \<in> set rs \<Longrightarrow> \<not> isSpaceRune r"
  shows "asciiString (asciiOnly rs) \<and> (\<forall>c \<in> set (asciiOnly rs). \<not> isSpaceRune (byteOf c))"
  using assms by (auto simp: asciiOnly_def asciiString_def byteOf_def)

lemma token_Inr_clean: "NormalizeAccountToken v = Inr t \<Longrightarrow> token_clean t"
proof -
  assume v: "NormalizeAccountToken v = Inr t"
  define text2 where "text2 = (let text1 = normalizeTokenText (runesOf v)
     in if take 4 text1 = ssoPrefix then drop 4 text1 else text1)"
  have t: "t = asciiOnly text2" "t \<noteq> ''''"
    using v by (auto simp: NormalizeAccountToken_def text2_def Let_def split: if_splits)
  have "r \<in> set text2 \<Longrightarrow> \<not> isSpaceRune r" for r
    by (rule normalizeTokenText_noSpace [of r "runesOf v"])
      (auto simp: text2_def Let_def dest: in_set_dropD split: if_splits)
  from asciiOnly_clean [OF this] t show "token_clean t" by (simp add: token_clean_def)
qed

lemma normalizeTokenText_ascii:
  "\<forall>r \<in> set rs. r < 128 \<and> \<not> isSpaceRune r \<Longrightarrow> normalizeTokenText rs = rs"
  by (induction rs) (auto simp: normalizeTokenRune_def)

lemma runesOf_ascii: "asciiString s \<Longrightarrow> runesOf s = map byteOf s"
  by (simp add: runesOf_def segs_ascii)

lemma asciiOnly_bytes: "asciiString s \<Longrightarrow> asciiOnly (map byteOf s) = s"
  by (auto simp: asciiOnly_def asciiString_def filter_map comp_def filter_id_conv byteOf_def
      intro: map_idI)

lemma token_clean_normalize:
  assumes "token_clean t"
  shows "NormalizeAccountToken t =
    (if hasPrefix t ''sso='' then (if drop 4 t = '''' then Inl ErrEmptyToken else Inr (drop 4 t)) else Inr t)"
proof -
  have a: "asciiString t" and ne: "t \<noteq> ''''" using assms by (auto simp: token_clean_def)
  have ad: "asciiString (drop 4 t)" using a by (auto simp: asciiString_def dest: in_set_dropD)
  have nt: "normalizeTokenText (runesOf t) = map byteOf t"
    using assms by (simp add: runesOf_ascii a)
      (rule normalizeTokenText_ascii, auto simp: token_clean_def asciiString_def)
  have inj: "inj byteOf" by (auto simp: inj_def byteOf_def)
  have pre: "take 4 (map byteOf t) = ssoPrefix \<longleftrightarrow> hasPrefix t ''sso=''"
    using inj_map_eq_map [OF inj, of "take 4 t" "''sso=''"]
    by (simp add: ssoPrefix_def hasPrefix_def take_map eval_nat_numeral)
  show ?thesis
    using ne by (simp add: NormalizeAccountToken_def nt Let_def pre asciiOnly_bytes a ad drop_map)
qed

section \<open>Pools and tags\<close>

definition NormalizeAccountPool :: "string \<Rightarrow> goerr + string" where
  "NormalizeAccountPool value =
    (let val = goLower (trimSpace value)
     in if containsStr ''super'' val then Inr ''super''
        else if val = ''heavy'' then Inr ''heavy''
        else if val = ''ssobasic'' \<or> val = ''basic'' \<or> val = '''' \<or> val = ''auto'' then Inr ''basic''
        else Inl (ErrUnknownPool value))"

definition uniqueTagsStep :: "string list \<Rightarrow> string \<Rightarrow> string list" where
  "uniqueTagsStep out value =
    (let tag = trimSpace value in if tag \<noteq> '''' \<and> tag \<notin> set out then out @ [tag] else out)"

definition uniqueTags :: "string list \<Rightarrow> string list" where
  "uniqueTags values = foldl uniqueTagsStep [] values"

definition NormalizeAccountTags :: "string list \<Rightarrow> string list" where
  "NormalizeAccountTags tags = uniqueTags tags"

definition NormalizeAccountTagsText :: "string \<Rightarrow> string list" where
  "NormalizeAccountTagsText v = uniqueTags (splitOn CHR '','' v)"

lemma uniqueTags_fold:
  "distinct out \<Longrightarrow> distinct (foldl uniqueTagsStep out vs) \<and>
     set (foldl uniqueTagsStep out vs) = set out \<union> (trimSpace ` set vs - {''''})"
  by (induction vs arbitrary: out) (auto simp: uniqueTagsStep_def Let_def)

lemma uniqueTags_distinct [simp]: "distinct (uniqueTags vs)"
  using uniqueTags_fold [of "[]" vs] by (simp add: uniqueTags_def)

lemma uniqueTags_set: "set (uniqueTags vs) = trimSpace ` set vs - {''''}"
  using uniqueTags_fold [of "[]" vs] by (simp add: uniqueTags_def)

lemma uniqueTags_id_fold:
  "distinct (out @ vs) \<Longrightarrow> (\<And>v. v \<in> set vs \<Longrightarrow> trimSpace v = v \<and> v \<noteq> '''') \<Longrightarrow>
     foldl uniqueTagsStep out vs = out @ vs"
  by (induction vs arbitrary: out) (auto simp: uniqueTagsStep_def Let_def)

text \<open>\<open>containsStr ''super''\<close> enumerated.\<close>

lemma contains_super: "containsStr ''super'' val \<longleftrightarrow>
  val \<in> {'''', ''s'', ''u'', ''p'', ''e'', ''r'', ''su'', ''up'', ''pe'', ''er'', ''sup'', ''upe'', ''per'',
    ''supe'', ''uper'', ''super''}"
  by (cases val; cases "tl val"; cases "tl (tl val)"; cases "tl (tl (tl val))";
      cases "tl (tl (tl (tl val)))"; cases "tl (tl (tl (tl (tl val))))")
    (auto simp: hasPrefix_def)

lemmas token_eval = NormalizeAccountToken_def normalizeTokenRune_def asciiOnly_def ssoPrefix_def string_eval
lemmas pool_eval = NormalizeAccountPool_def string_eval
lemma pool_fixed: "p \<in> {''basic'', ''super'', ''heavy''} \<Longrightarrow> NormalizeAccountPool p = Inr p"
  by (auto simp: pool_eval)

lemmas tags_eval = NormalizeAccountTags_def uniqueTags_def uniqueTagsStep_def string_eval

section \<open>Records\<close>

record AccountRecord =
  ar_token :: string
  ar_pool :: string
  ar_status :: AccountStatus
  ar_createdAt :: int
  ar_updatedAt :: int
  ar_tags :: "string list"
  ar_quota :: gomap
  ar_useCount :: int
  ar_failCount :: int
  ar_syncCount :: int
  ar_lastUseAt :: "int option"
  ar_lastFailAt :: "int option"
  ar_lastFailReason :: "string option"
  ar_lastSyncAt :: "int option"
  ar_lastClearAt :: "int option"
  ar_stateReason :: "string option"
  ar_deletedAt :: "int option"
  ar_ext :: gomap
  ar_revision :: int

definition normalizeRecordPool :: "string \<Rightarrow> goerr + string" where
  "normalizeRecordPool value = (if value = '''' then Inr ''basic'' else NormalizeAccountPool value)"

definition normalizeRecordStatus :: "string \<Rightarrow> goerr + AccountStatus" where
  "normalizeRecordStatus value =
    (if value = '''' then Inr StActive
     else case ParseAccountStatus value of Some s \<Rightarrow> Inr s | None \<Rightarrow> Inl (ErrUnknownStatus value))"

definition defaultTimestamp :: "int \<Rightarrow> int \<Rightarrow> int" where
  "defaultTimestamp now value = (if value \<noteq> 0 then value else now)"

text \<open>The input's status is the string \<open>rawStatus\<close>; its field \<open>ar_status\<close> is not read.\<close>

definition NewAccountRecord :: "int \<Rightarrow> string \<Rightarrow> AccountRecord \<Rightarrow> goerr + AccountRecord" where
  "NewAccountRecord now rawStatus input =
    bindE (NormalizeAccountToken (ar_token input)) (\<lambda>token.
    bindE (normalizeRecordPool (ar_pool input)) (\<lambda>pool.
    bindE (normalizeRecordStatus rawStatus) (\<lambda>status.
      Inr (input\<lparr>ar_token := token, ar_pool := pool, ar_status := status,
        ar_createdAt := defaultTimestamp now (ar_createdAt input),
        ar_updatedAt := defaultTimestamp now (ar_updatedAt input),
        ar_tags := NormalizeAccountTags (ar_tags input)\<rparr>))))"

definition IsNSFW :: "AccountRecord \<Rightarrow> bool" where
  "IsNSFW r \<longleftrightarrow> ''nsfw'' \<in> set (ar_tags r)"

definition IsSuper :: "AccountRecord \<Rightarrow> bool" where
  "IsSuper r \<longleftrightarrow> ar_pool r = ''super''"

definition IsHeavy :: "AccountRecord \<Rightarrow> bool" where
  "IsHeavy r \<longleftrightarrow> ar_pool r = ''heavy''"

definition IsDeleted :: "AccountRecord \<Rightarrow> bool" where
  "IsDeleted r \<longleftrightarrow> ar_deletedAt r \<noteq> None"

definition QuotaSet :: "AccountRecord \<Rightarrow> goerr + AccountQuotaSet" where
  "QuotaSet r = AccountQuotaSetFromDict (ar_quota r)"

definition WithQuotaSet :: "AccountRecord \<Rightarrow> AccountQuotaSet \<Rightarrow> AccountRecord" where
  "WithQuotaSet r s = r\<lparr>ar_quota := quotaSetToDict s\<rparr>"

lemma QuotaSet_With [simp]: "QuotaSet (WithQuotaSet r s) = Inr s"
  by (simp add: QuotaSet_def WithQuotaSet_def quota_set_dict)

section \<open>Commands and results\<close>

record AccountUpsert =
  up_token :: string
  up_pool :: string
  up_tags :: "string list"
  up_ext :: gomap

definition upsertNormalize :: "AccountUpsert \<Rightarrow> AccountUpsert" where
  "upsertNormalize u = (if up_pool u = '''' then u\<lparr>up_pool := ''basic''\<rparr> else u)"

record AccountPatch =
  pt_token :: string
  pt_pool :: "string option"
  pt_status :: "AccountStatus option"
  pt_tags :: "string list option"
  pt_addTags :: "string list"
  pt_removeTags :: "string list"
  pt_quotaAuto :: "gomap option"
  pt_quotaFast :: "gomap option"
  pt_quotaExpert :: "gomap option"
  pt_quotaHeavy :: "gomap option"
  pt_quotaGrok43 :: "gomap option"
  pt_quotaConsole :: "gomap option"
  pt_useDelta :: "int option"
  pt_failDelta :: "int option"
  pt_syncDelta :: "int option"
  pt_lastUseAt :: "int option"
  pt_lastFailAt :: "int option"
  pt_lastFailReason :: "string option"
  pt_lastSyncAt :: "int option"
  pt_lastClearAt :: "int option"
  pt_stateReason :: "string option"
  pt_extMerge :: gomap
  pt_clearFailures :: bool

text \<open>The literal \<open>AccountPatch{Token: token}\<close>.\<close>

definition emptyPatch :: "string \<Rightarrow> AccountPatch" where
  "emptyPatch token =
    \<lparr>pt_token = token, pt_pool = None, pt_status = None, pt_tags = None, pt_addTags = [],
     pt_removeTags = [], pt_quotaAuto = None, pt_quotaFast = None, pt_quotaExpert = None,
     pt_quotaHeavy = None, pt_quotaGrok43 = None, pt_quotaConsole = None, pt_useDelta = None,
     pt_failDelta = None, pt_syncDelta = None, pt_lastUseAt = None, pt_lastFailAt = None,
     pt_lastFailReason = None, pt_lastSyncAt = None, pt_lastClearAt = None,
     pt_stateReason = None, pt_extMerge = fmempty, pt_clearFailures = False\<rparr>"

record ListAccountsQuery =
  lq_page :: int
  lq_pageSize :: int
  lq_pool :: "string option"
  lq_status :: "AccountStatus option"
  lq_tags :: "string list option"
  lq_excludeTags :: "string list option"
  lq_includeDeleted :: bool
  lq_sortBy :: string
  lq_sortDesc :: bool

definition emptyListQuery :: ListAccountsQuery where
  "emptyListQuery = \<lparr>lq_page = 0, lq_pageSize = 0, lq_pool = None, lq_status = None, lq_tags = None,
     lq_excludeTags = None, lq_includeDeleted = False, lq_sortBy = '''', lq_sortDesc = False\<rparr>"

definition queryNormalize :: "ListAccountsQuery \<Rightarrow> ListAccountsQuery" where
  "queryNormalize q =
    (let q = (if lq_page q < 1 then q\<lparr>lq_page := 1\<rparr> else q);
         q = (if lq_pageSize q < 1 then q\<lparr>lq_pageSize := 50\<rparr> else q);
         q = (if lq_pageSize q > 2000 then q\<lparr>lq_pageSize := 2000\<rparr> else q);
         q = (if lq_tags q = None then q\<lparr>lq_tags := Some []\<rparr> else q);
         q = (if lq_excludeTags q = None then q\<lparr>lq_excludeTags := Some []\<rparr> else q)
     in if lq_sortBy q = '''' then q\<lparr>lq_sortBy := ''updated_at''\<rparr> else q)"

definition DefaultListAccountsQuery :: ListAccountsQuery where
  "DefaultListAccountsQuery = queryNormalize
     (emptyListQuery\<lparr>lq_page := 1, lq_pageSize := 50, lq_sortBy := ''updated_at'', lq_sortDesc := True\<rparr>)"

record BulkReplacePoolCommand =
  br_pool :: string
  br_upserts :: "AccountUpsert list"

definition bulkNormalize :: "BulkReplacePoolCommand \<Rightarrow> BulkReplacePoolCommand" where
  "bulkNormalize c = c\<lparr>br_upserts := map upsertNormalize (br_upserts c)\<rparr>"

record AccountMutationResult =
  mr_upserted :: int
  mr_patched :: int
  mr_deleted :: int
  mr_revision :: int

definition noMutation :: AccountMutationResult where
  "noMutation = \<lparr>mr_upserted = 0, mr_patched = 0, mr_deleted = 0, mr_revision = 0\<rparr>"

record AccountPage =
  ap_items :: "AccountRecord list"
  ap_total :: int
  ap_page :: int
  ap_pageSize :: int
  ap_totalPages :: int
  ap_revision :: int

record AccountChangeSet =
  cs_revision :: int
  cs_items :: "AccountRecord list"
  cs_deletedTokens :: "string list"
  cs_hasMore :: bool

record RuntimeSnapshot =
  sn_revision :: int
  sn_items :: "AccountRecord list"

lemma queryNormalize_bounds:
  "1 \<le> lq_page (queryNormalize q)" "1 \<le> lq_pageSize (queryNormalize q)"
  "lq_pageSize (queryNormalize q) \<le> 2000"
  by (auto simp: queryNormalize_def Let_def)

section \<open>Properties\<close>

text \<open>A token that \<open>NewAccountRecord\<close> accepts is not empty, is ASCII and holds no white
  space, its pool is one of the three pools, its tags are distinct and none is empty.\<close>

theorem new_record_wellformed:
  assumes "NewAccountRecord now raw input = Inr r"
  shows "token_clean (ar_token r) \<and> ar_pool r \<in> {''basic'', ''super'', ''heavy''} \<and>
    distinct (ar_tags r) \<and> '''' \<notin> set (ar_tags r) \<and> QuotaSet r = QuotaSet input"
  using assms token_Inr_clean
  by (auto simp: NewAccountRecord_def NormalizeAccountTags_def uniqueTags_set QuotaSet_def
      normalizeRecordPool_def NormalizeAccountPool_def Let_def split: if_splits)

definition sampleInput :: AccountRecord where
  "sampleInput = \<lparr>ar_token = '' sso=ab c'', ar_pool = ''SUPER '', ar_status = StActive, ar_createdAt = 0,
     ar_updatedAt = 0, ar_tags = ['' nsfw'', '''', ''nsfw''], ar_quota = fmempty, ar_useCount = 0,
     ar_failCount = 0, ar_syncCount = 0, ar_lastUseAt = None, ar_lastFailAt = None,
     ar_lastFailReason = None, ar_lastSyncAt = None, ar_lastClearAt = None, ar_stateReason = None,
     ar_deletedAt = None, ar_ext = fmempty, ar_revision = 0\<rparr>"

lemma sampleInput_new: "NewAccountRecord 7 '''' sampleInput = Inr (sampleInput\<lparr>ar_token := ''abc'',
    ar_pool := ''super'', ar_createdAt := 7, ar_updatedAt := 7, ar_tags := [''nsfw'']\<rparr>)"
  by (simp add: NewAccountRecord_def sampleInput_def token_eval pool_eval tags_eval
      normalizeRecordPool_def normalizeRecordStatus_def defaultTimestamp_def)

theorem new_record_wellformed_witness:
  "token_clean ''abc'' \<and> (\<exists>r. NewAccountRecord 7 '''' sampleInput = Inr r \<and> distinct (ar_tags r))"
  using new_record_wellformed [OF sampleInput_new] sampleInput_new by auto

text \<open>Normalising a token twice: a token that came out of the normalisation is a fixed point
  unless it starts with \<open>sso=\<close> again, in which case the second pass cuts four more bytes (or
  fails when nothing is left).\<close>

theorem token_renormalised:
  assumes "NormalizeAccountToken v = Inr t"
  shows "NormalizeAccountToken t =
    (if hasPrefix t ''sso='' then (if drop 4 t = '''' then Inl ErrEmptyToken else Inr (drop 4 t))
     else Inr t)"
  using assms by (rule token_clean_normalize [OF token_Inr_clean])

theorem token_renormalised_witness:
  "NormalizeAccountToken ''sso=sso=x'' = Inr ''sso=x'' \<and> NormalizeAccountToken ''sso=x'' = Inr ''x''"
proof -
  have first: "NormalizeAccountToken ''sso=sso=x'' = Inr ''sso=x''" by (simp add: token_eval)
  with token_renormalised [OF first] show ?thesis by (simp add: hasPrefix_def)
qed

text \<open>\<open>NormalizeAccountPool\<close> in closed form: after trimming and lowering, the sixteen
  substrings of \<open>super\<close>, the empty text among them, give \<open>super\<close>; only \<open>heavy\<close>,
  \<open>ssobasic\<close>, \<open>basic\<close> and \<open>auto\<close> are accepted besides.\<close>

theorem pool_normalisation:
  "NormalizeAccountPool v = (let w = goLower (trimSpace v)
     in if w \<in> {'''', ''s'', ''u'', ''p'', ''e'', ''r'', ''su'', ''up'', ''pe'', ''er'', ''sup'', ''upe'',
                ''per'', ''supe'', ''uper'', ''super''} then Inr ''super''
        else if w = ''heavy'' then Inr ''heavy''
        else if w \<in> {''ssobasic'', ''basic'', ''auto''} then Inr ''basic''
        else Inl (ErrUnknownPool v))"
  by (simp only: NormalizeAccountPool_def Let_def contains_super) auto

end
