(* ===== verification/FeedbackMachine.thy ===== *)
theory FeedbackMachine
  imports AccountRecord
begin

text \<open>
  The account state machine (\<open>app/control/account/state_machine.go\<close>,
  \<open>state_machine_types.go\<close>, \<open>state_machine_apply.go\<close>, \<open>state_machine_transitions.go\<close>):
  the status a record has at a time, whether it can be selected or managed, and
  \<open>ApplyFeedback\<close>, which threads a \<open>feedbackState\<close> through the quota, counter and status
  steps. The clock is an argument; the methods of \<open>*feedbackState\<close> return the updated state.
\<close>

section \<open>Policy and feedback\<close>

record StatePolicy =
  sp_failThreshold :: int
  sp_forbiddenStrikes :: int
  sp_defaultCoolingMS :: int

definition defaultStatePolicy :: StatePolicy where
  "defaultStatePolicy =
    \<lparr>sp_failThreshold = 5, sp_forbiddenStrikes = 1, sp_defaultCoolingMS = 15 * 60 * 1000\<rparr>"

record AccountFeedback =
  fb_kind :: FeedbackKind
  fb_modeID :: int
  fb_at :: int
  fb_statusCode :: "int option"
  fb_reason :: string
  fb_quotaWindow :: "QuotaWindow option"
  fb_retryAfterMS :: "int option"
  fb_confirmExpired :: bool
  fb_applyUsage :: bool

definition feedbackKindFromStatus :: "int \<Rightarrow> FeedbackKind" where
  "feedbackKindFromStatus statusCode =
    (if statusCode = 401 then FbUnauthorized
     else if statusCode = 403 then FbForbidden
     else if statusCode = 429 then FbRateLimited
     else if statusCode \<ge> 500 then FbServerError
     else if statusCode \<ge> 200 \<and> statusCode < 300 then FbSuccess
     else FbServerError)"

record FeedbackFromStatusOptions =
  fo_reason :: string
  fo_retryAfterMS :: "int option"
  fo_confirmExpired :: bool

definition AccountFeedbackFromStatusCode ::
    "int \<Rightarrow> int \<Rightarrow> int \<Rightarrow> FeedbackFromStatusOptions \<Rightarrow> AccountFeedback" where
  "AccountFeedbackFromStatusCode now statusCode modeID options =
    \<lparr>fb_kind = feedbackKindFromStatus statusCode, fb_modeID = modeID, fb_at = now,
     fb_statusCode = Some statusCode, fb_reason = fo_reason options, fb_quotaWindow = None,
     fb_retryAfterMS = fo_retryAfterMS options, fb_confirmExpired = fo_confirmExpired options,
     fb_applyUsage = False\<rparr>"

definition normalizeStatePolicy :: "StatePolicy \<Rightarrow> StatePolicy" where
  "normalizeStatePolicy p =
    (let p = (if sp_failThreshold p = 0
              then p\<lparr>sp_failThreshold := sp_failThreshold defaultStatePolicy\<rparr> else p);
         p = (if sp_forbiddenStrikes p = 0
              then p\<lparr>sp_forbiddenStrikes := sp_forbiddenStrikes defaultStatePolicy\<rparr> else p)
     in if sp_defaultCoolingMS p = 0
        then p\<lparr>sp_defaultCoolingMS := sp_defaultCoolingMS defaultStatePolicy\<rparr> else p)"

section \<open>Reading a record\<close>

text \<open>A missing key and a nil value are both \<open>GNil\<close> here, as in the source's test.\<close>

definition DeriveStatus :: "AccountRecord \<Rightarrow> int \<Rightarrow> AccountStatus" where
  "DeriveStatus record1 ts =
    (if ar_status record1 \<noteq> StCooling then ar_status record1
     else if mapGet (ar_ext record1) ''cooldown_until'' = GNil then StCooling
     else case int64FromAny (mapGet (ar_ext record1) ''cooldown_until'') of
            Inl _ \<Rightarrow> StCooling
          | Inr until \<Rightarrow> if ts < until then StCooling else StActive)"

definition IsSelectable :: "AccountRecord \<Rightarrow> int \<Rightarrow> int \<Rightarrow> bool" where
  "IsSelectable record1 modeID ts =
    (if IsDeleted record1 \<or> DeriveStatus record1 ts \<noteq> StActive then False
     else case QuotaSet record1 of
            Inl _ \<Rightarrow> False
          | Inr quotaSet1 \<Rightarrow>
              (case quotaGet quotaSet1 modeID of None \<Rightarrow> False | Some w \<Rightarrow> \<not> IsExhausted w))"

definition IsManageable :: "AccountRecord \<Rightarrow> int \<Rightarrow> bool" where
  "IsManageable record1 ts =
    (if IsDeleted record1 then False
     else DeriveStatus record1 ts = StActive \<or> DeriveStatus record1 ts = StCooling)"

definition clearFailureExt :: "gomap \<Rightarrow> gomap" where
  "clearFailureExt ext =
    fmdrop ''invalid_credentials'' (fmdrop ''forbidden_strikes'' (fmdrop ''expired_reason''
    (fmdrop ''expired_at'' (fmdrop ''disabled_reason'' (fmdrop ''disabled_at''
    (fmdrop ''cooldown_reason'' (fmdrop ''cooldown_until'' ext)))))))"

definition failureKeys :: "string list" where
  "failureKeys = [''cooldown_until'', ''cooldown_reason'', ''disabled_at'', ''disabled_reason'',
     ''expired_at'', ''expired_reason'', ''forbidden_strikes'', ''invalid_credentials'']"

definition ClearFailures :: "int \<Rightarrow> AccountRecord \<Rightarrow> AccountRecord" where
  "ClearFailures now r =
    r\<lparr>ar_status := StActive, ar_failCount := 0, ar_lastFailAt := None, ar_lastFailReason := None,
      ar_stateReason := None, ar_updatedAt := now, ar_ext := clearFailureExt (ar_ext r)\<rparr>"

section \<open>Applying feedback\<close>

record feedbackState =
  fs_base :: AccountRecord
  fs_quotaSet :: AccountQuotaSet
  fs_status :: AccountStatus
  fs_ext :: gomap
  fs_lastFailAt :: "int option"
  fs_lastFailReason :: "string option"
  fs_lastUseAt :: "int option"
  fs_lastSyncAt :: "int option"
  fs_useCount :: int
  fs_failCount :: int
  fs_syncCount :: int
  fs_stateReason :: "string option"

definition newFeedbackState :: "AccountRecord \<Rightarrow> goerr + feedbackState" where
  "newFeedbackState r =
    bindE (QuotaSet r) (\<lambda>quotaSet1.
      Inr \<lparr>fs_base = r, fs_quotaSet = quotaSet1, fs_status = ar_status r, fs_ext = ar_ext r,
        fs_lastFailAt = ar_lastFailAt r, fs_lastFailReason = ar_lastFailReason r,
        fs_lastUseAt = ar_lastUseAt r, fs_lastSyncAt = ar_lastSyncAt r,
        fs_useCount = ar_useCount r, fs_failCount = ar_failCount r, fs_syncCount = ar_syncCount r,
        fs_stateReason = ar_stateReason r\<rparr>)"

definition decrementQuota :: "int \<Rightarrow> feedbackState \<Rightarrow> feedbackState" where
  "decrementQuota modeID s =
    (case quotaGet (fs_quotaSet s) modeID of
       None \<Rightarrow> s
     | Some w \<Rightarrow> s\<lparr>fs_quotaSet := quotaSet (fs_quotaSet s) modeID
         (w\<lparr>qw_remaining := clampInt (qw_remaining w - 1) 0 (qw_total w)\<rparr>)\<rparr>)"

definition rateLimitQuota :: "AccountFeedback \<Rightarrow> feedbackState \<Rightarrow> feedbackState" where
  "rateLimitQuota fb s =
    (case quotaGet (fs_quotaSet s) (fb_modeID fb) of
       None \<Rightarrow> s
     | Some w \<Rightarrow>
         let resetAt = (case fb_retryAfterMS fb of
               None \<Rightarrow> fb_at fb + qw_windowSeconds w * 1000
             | Some ms \<Rightarrow> if ms \<noteq> 0 then fb_at fb + ms else fb_at fb + qw_windowSeconds w * 1000)
         in s\<lparr>fs_quotaSet := quotaSet (fs_quotaSet s) (fb_modeID fb)
              (w\<lparr>qw_remaining := 0, qw_resetAt := Some resetAt\<rparr>)\<rparr>)"

definition applyQuota :: "AccountFeedback \<Rightarrow> feedbackState \<Rightarrow> feedbackState" where
  "applyQuota fb s =
    (case fb_quotaWindow fb of
       Some w \<Rightarrow> s\<lparr>fs_quotaSet := quotaSet (fs_quotaSet s) (fb_modeID fb) w,
                   fs_lastSyncAt := Some (fb_at fb), fs_syncCount := fs_syncCount s + 1\<rparr>
     | None \<Rightarrow>
         if fb_kind fb = FbSuccess then decrementQuota (fb_modeID fb) s
         else if fb_kind fb = FbRateLimited then rateLimitQuota fb s
         else s)"

definition countsAsFailure :: "FeedbackKind \<Rightarrow> bool" where
  "countsAsFailure kind \<longleftrightarrow>
    kind \<noteq> FbSuccess \<and> kind \<noteq> FbRestore \<and> kind \<noteq> FbDisable \<and> kind \<noteq> FbDelete"

definition feedbackFailureReason :: "AccountFeedback \<Rightarrow> string" where
  "feedbackFailureReason fb =
    (if fb_reason fb \<noteq> '''' then fb_reason fb
     else case fb_statusCode fb of
            None \<Rightarrow> ''''
          | Some code \<Rightarrow> if code = 0 then '''' else itoa code)"

definition applyCounters :: "AccountFeedback \<Rightarrow> feedbackState \<Rightarrow> feedbackState" where
  "applyCounters fb s =
    (if fb_kind fb = FbSuccess \<and> fb_applyUsage fb
     then s\<lparr>fs_useCount := fs_useCount s + 1, fs_lastUseAt := Some (fb_at fb)\<rparr>
     else if countsAsFailure (fb_kind fb)
     then s\<lparr>fs_failCount := fs_failCount s + 1, fs_lastFailAt := Some (fb_at fb),
            fs_lastFailReason := Some (feedbackFailureReason fb)\<rparr>
     else s)"

definition disable :: "int \<Rightarrow> string \<Rightarrow> feedbackState \<Rightarrow> feedbackState" where
  "disable at1 reason s =
    s\<lparr>fs_status := StDisabled, fs_stateReason := Some reason,
      fs_ext := fmupd ''disabled_reason'' (GStr reason)
        (fmupd ''disabled_at'' (GInt64 at1) (fs_ext s))\<rparr>"

definition restore :: "feedbackState \<Rightarrow> feedbackState" where
  "restore s =
    s\<lparr>fs_status := StActive, fs_stateReason := None, fs_ext := clearFailureExt (fs_ext s),
      fs_quotaSet := DefaultQuotaSet (ar_pool (fs_base s))\<rparr>"

definition applyUnauthorized :: "AccountFeedback \<Rightarrow> feedbackState \<Rightarrow> feedbackState" where
  "applyUnauthorized fb s =
    (if \<not> fb_confirmExpired fb then s
     else let reason = defaultString (fb_reason fb) ''token_expired''
          in s\<lparr>fs_status := StExpired, fs_stateReason := Some reason,
               fs_ext := fmupd ''expired_reason'' (GStr reason)
                 (fmupd ''expired_at'' (GInt64 (fb_at fb)) (fs_ext s))\<rparr>)"

definition intFromExt :: "goval \<Rightarrow> int" where
  "intFromExt value = (case intFromAny value 0 of Inl _ \<Rightarrow> 0 | Inr parsed \<Rightarrow> parsed)"

definition applyForbidden :: "AccountFeedback \<Rightarrow> StatePolicy \<Rightarrow> feedbackState \<Rightarrow> feedbackState" where
  "applyForbidden fb policy s =
    (let strikes = intFromExt (mapGet (fs_ext s) ''forbidden_strikes'') + 1;
         s = s\<lparr>fs_ext := fmupd ''forbidden_strikes'' (GInt strikes) (fs_ext s)\<rparr>
     in if strikes < sp_forbiddenStrikes policy then s
        else disable (fb_at fb) (defaultString (fb_reason fb) ''forbidden'') s)"

definition applySuccess :: "AccountFeedback \<Rightarrow> feedbackState \<Rightarrow> feedbackState" where
  "applySuccess fb s =
    (if fs_status s \<noteq> StCooling then s
     else if mapGet (fs_ext s) ''cooldown_until'' = GNil then s
     else case int64FromAny (mapGet (fs_ext s) ''cooldown_until'') of
            Inl _ \<Rightarrow> s
          | Inr until \<Rightarrow>
              if fb_at fb < until then s
              else s\<lparr>fs_status := StActive, fs_stateReason := None,
                     fs_ext := fmdrop ''forbidden_strikes'' (fmdrop ''cooldown_reason''
                       (fmdrop ''cooldown_until'' (fs_ext s)))\<rparr>)"

definition applyStatus :: "AccountFeedback \<Rightarrow> StatePolicy \<Rightarrow> feedbackState \<Rightarrow> feedbackState" where
  "applyStatus fb policy s =
    (case fb_kind fb of
       FbUnauthorized \<Rightarrow> applyUnauthorized fb s
     | FbForbidden \<Rightarrow> applyForbidden fb policy s
     | FbRateLimited \<Rightarrow> s
     | FbSuccess \<Rightarrow> applySuccess fb s
     | FbDisable \<Rightarrow> disable (fb_at fb) (defaultString (fb_reason fb) ''operator_disabled'') s
     | FbRestore \<Rightarrow> restore s
     | _ \<Rightarrow> s)"

definition feedbackRecord :: "int \<Rightarrow> feedbackState \<Rightarrow> AccountRecord" where
  "feedbackRecord updatedAt s =
    (fs_base s)\<lparr>ar_status := fs_status s, ar_quota := quotaSetToDict (fs_quotaSet s),
      ar_useCount := fs_useCount s, ar_failCount := fs_failCount s, ar_syncCount := fs_syncCount s,
      ar_lastUseAt := fs_lastUseAt s, ar_lastFailAt := fs_lastFailAt s,
      ar_lastFailReason := fs_lastFailReason s, ar_lastSyncAt := fs_lastSyncAt s,
      ar_stateReason := fs_stateReason s, ar_ext := fs_ext s, ar_updatedAt := updatedAt\<rparr>"

definition ApplyFeedback ::
    "AccountRecord \<Rightarrow> AccountFeedback \<Rightarrow> StatePolicy \<Rightarrow> goerr + AccountRecord" where
  "ApplyFeedback r fb policy =
    (let policy = normalizeStatePolicy policy
     in bindE (newFeedbackState r) (\<lambda>s.
          Inr (feedbackRecord (fb_at fb) (applyStatus fb policy (applyCounters fb (applyQuota fb s))))))"

section \<open>Specification\<close>

text \<open>What a feedback promises: the status, the quota set and the failure strikes after it.\<close>

definition strikesOf :: "AccountRecord \<Rightarrow> int" where
  "strikesOf r = intFromExt (mapGet (ar_ext r) ''forbidden_strikes'')"

definition nextStatus :: "AccountRecord \<Rightarrow> AccountFeedback \<Rightarrow> int \<Rightarrow> AccountStatus" where
  "nextStatus r fb threshold =
    (case fb_kind fb of
       FbUnauthorized \<Rightarrow> if fb_confirmExpired fb then StExpired else ar_status r
     | FbForbidden \<Rightarrow> if strikesOf r + 1 < threshold then ar_status r else StDisabled
     | FbSuccess \<Rightarrow> DeriveStatus r (fb_at fb)
     | FbDisable \<Rightarrow> StDisabled
     | FbRestore \<Rightarrow> StActive
     | _ \<Rightarrow> ar_status r)"

definition nextWindow :: "QuotaWindow \<Rightarrow> AccountFeedback \<Rightarrow> QuotaWindow" where
  "nextWindow w fb =
    (case fb_quotaWindow fb of
       Some live \<Rightarrow> live
     | None \<Rightarrow>
         if fb_kind fb = FbSuccess then w\<lparr>qw_remaining := clampInt (qw_remaining w - 1) 0 (qw_total w)\<rparr>
         else if fb_kind fb = FbRateLimited
         then w\<lparr>qw_remaining := 0, qw_resetAt := Some (fb_at fb +
                (case fb_retryAfterMS fb of Some ms \<Rightarrow> if ms = 0 then qw_windowSeconds w * 1000 else ms
                 | None \<Rightarrow> qw_windowSeconds w * 1000))\<rparr>
         else w)"

definition quota_ok :: "AccountQuotaSet \<Rightarrow> bool" where
  "quota_ok s \<longleftrightarrow> (\<forall>m \<in> {0, 1, 2, 3, 4, 5}. \<forall>w. quotaGet s m = Some w \<longrightarrow> window_ok w)"

section \<open>Lemmas\<close>

named_theorems feedback_simps "effect of the feedback steps on each field of the state"

lemma quota_steps_frame [feedback_simps]:
  "fs_status (applyQuota fb s) = fs_status s" "fs_ext (applyQuota fb s) = fs_ext s"
  "fs_base (applyQuota fb s) = fs_base s" "fs_failCount (applyQuota fb s) = fs_failCount s"
  "fs_useCount (applyQuota fb s) = fs_useCount s" "fs_stateReason (applyQuota fb s) = fs_stateReason s"
  "fs_lastFailAt (applyQuota fb s) = fs_lastFailAt s" "fs_lastUseAt (applyQuota fb s) = fs_lastUseAt s"
  by (auto simp: applyQuota_def decrementQuota_def rateLimitQuota_def Let_def split: option.splits)

lemma counters_frame [feedback_simps]:
  "fs_status (applyCounters fb s) = fs_status s" "fs_ext (applyCounters fb s) = fs_ext s"
  "fs_base (applyCounters fb s) = fs_base s" "fs_quotaSet (applyCounters fb s) = fs_quotaSet s"
  by (auto simp: applyCounters_def)

lemma status_frame [feedback_simps]:
  "fs_base (applyStatus fb p s) = fs_base s"
  "fs_quotaSet (applyStatus fb p s) =
     (if fb_kind fb = FbRestore then DefaultQuotaSet (ar_pool (fs_base s)) else fs_quotaSet s)"
  by (auto simp: applyStatus_def applyUnauthorized_def applyForbidden_def applySuccess_def disable_def
      restore_def Let_def split: FeedbackKind.splits sum.splits)

lemma status_next [feedback_simps]:
  "fs_status (applyStatus fb p s) =
    (case fb_kind fb of
       FbUnauthorized \<Rightarrow> if fb_confirmExpired fb then StExpired else fs_status s
     | FbForbidden \<Rightarrow> if intFromExt (mapGet (fs_ext s) ''forbidden_strikes'') + 1 < sp_forbiddenStrikes p
         then fs_status s else StDisabled
     | FbSuccess \<Rightarrow> DeriveStatus (ar_status_update (\<lambda>_. fs_status s)
         (ar_ext_update (\<lambda>_. fs_ext s) (fs_base s))) (fb_at fb)
     | FbDisable \<Rightarrow> StDisabled
     | FbRestore \<Rightarrow> StActive
     | _ \<Rightarrow> fs_status s)"
  by (auto simp: applyStatus_def applyUnauthorized_def applyForbidden_def applySuccess_def disable_def
      restore_def DeriveStatus_def Let_def split: FeedbackKind.splits sum.splits)

lemma ApplyFeedback_Inr:
  assumes "ApplyFeedback r fb policy = Inr r'"
  obtains s where
    "r' = feedbackRecord (fb_at fb)
       (applyStatus fb (normalizeStatePolicy policy) (applyCounters fb (applyQuota fb s)))"
    "QuotaSet r = Inr (fs_quotaSet s)" "fs_base s = r" "fs_ext s = ar_ext r" "fs_status s = ar_status r"
proof -
  obtain s where n: "newFeedbackState r = Inr s" and r': "r' = feedbackRecord (fb_at fb)
       (applyStatus fb (normalizeStatePolicy policy) (applyCounters fb (applyQuota fb s)))"
    using assms by (auto simp: ApplyFeedback_def Let_def)
  from n have "QuotaSet r = Inr (fs_quotaSet s)" "fs_base s = r" "fs_ext s = ar_ext r"
    "fs_status s = ar_status r"
    by (auto simp: newFeedbackState_def)
  with r' show thesis by (rule that)
qed

lemma feedbackRecord_simps [simp]:
  "ar_status (feedbackRecord t s) = fs_status s" "ar_ext (feedbackRecord t s) = fs_ext s"
  "QuotaSet (feedbackRecord t s) = Inr (fs_quotaSet s)" "ar_token (feedbackRecord t s) = ar_token (fs_base s)"
  "ar_pool (feedbackRecord t s) = ar_pool (fs_base s)" "ar_deletedAt (feedbackRecord t s) = ar_deletedAt (fs_base s)"
  by (simp_all add: feedbackRecord_def QuotaSet_def quota_set_dict)

lemma DeriveStatus_own [simp]:
  "DeriveStatus (r\<lparr>ar_ext := ar_ext r, ar_status := ar_status r\<rparr>) t = DeriveStatus r t"
  by (simp add: DeriveStatus_def)

lemma applyQuota_window:
  "0 \<le> fb_modeID fb \<Longrightarrow> fb_modeID fb \<le> 5 \<Longrightarrow> quotaGet (fs_quotaSet s) (fb_modeID fb) = Some w \<Longrightarrow>
     quotaGet (fs_quotaSet (applyQuota fb s)) (fb_modeID fb) = Some (nextWindow w fb)"
  by (auto simp: applyQuota_def nextWindow_def decrementQuota_def rateLimitQuota_def Let_def
      quotaGet_quotaSet_same split: option.splits)

lemma applyQuota_other:
  "0 \<le> fb_modeID fb \<Longrightarrow> fb_modeID fb \<le> 5 \<Longrightarrow> m \<noteq> fb_modeID fb \<Longrightarrow>
     quotaGet (fs_quotaSet (applyQuota fb s)) m = quotaGet (fs_quotaSet s) m"
  by (auto simp: applyQuota_def decrementQuota_def rateLimitQuota_def Let_def
      quotaGet_quotaSet_other split: option.splits)

lemma nextWindow_ok:
  "window_ok w \<Longrightarrow> (\<And>v. fb_quotaWindow fb = Some v \<Longrightarrow> window_ok v) \<Longrightarrow> window_ok (nextWindow w fb)"
  by (auto simp: nextWindow_def window_ok_def clampInt_def split: option.splits)

lemma quota_ok_default: "quota_ok (DefaultQuotaSet pool)"
  by (auto simp: quota_ok_def dest: default_windows_ok)

lemma clearFailureExt_get [simp]:
  "mapGet (clearFailureExt ext) k = (if k \<in> set failureKeys then GNil else mapGet ext k)"
  by (auto simp: clearFailureExt_def failureKeys_def)

fun applyFeedbacks :: "AccountRecord \<Rightarrow> AccountFeedback list \<Rightarrow> StatePolicy \<Rightarrow> goerr + AccountRecord" where
  "applyFeedbacks r [] policy = Inr r"
| "applyFeedbacks r (fb # fbs) policy =
    bindE (ApplyFeedback r fb policy) (\<lambda>r'. applyFeedbacks r' fbs policy)"

lemma forbidden_step:
  assumes "QuotaSet r = Inr q" "fb_kind fb = FbForbidden"
    and thr: "thr = sp_forbiddenStrikes (normalizeStatePolicy policy)"
  shows "\<exists>r' q'. ApplyFeedback r fb policy = Inr r' \<and> QuotaSet r' = Inr q' \<and> strikesOf r' = strikesOf r + 1 \<and>
    ar_status r' = (if strikesOf r + 1 < thr then ar_status r else StDisabled)"
  using assms
  by (auto simp: ApplyFeedback_def newFeedbackState_def Let_def applyStatus_def applyForbidden_def disable_def
      strikesOf_def feedback_simps intFromExt_def intFromAny_def)

lemma forbidden_run:
  assumes "QuotaSet r = Inr q" "\<forall>fb \<in> set fbs. fb_kind fb = FbForbidden"
    and "thr = sp_forbiddenStrikes (normalizeStatePolicy policy)" "fbs \<noteq> []"
  shows "\<exists>r'. applyFeedbacks r fbs policy = Inr r' \<and> strikesOf r' = strikesOf r + int (length fbs) \<and>
    ar_status r' = (if strikesOf r + int (length fbs) < thr then ar_status r else StDisabled)"
  using assms
proof (induction fbs arbitrary: r q)
  case (Cons fb fbs)
  obtain r1 q1 where r1: "ApplyFeedback r fb policy = Inr r1" "QuotaSet r1 = Inr q1"
    "strikesOf r1 = strikesOf r + 1"
    "ar_status r1 = (if strikesOf r + 1 < thr then ar_status r else StDisabled)"
    using forbidden_step [of r q fb thr policy] Cons.prems by auto
  show ?case
  proof (cases "fbs = []")
    case True
    then show ?thesis using r1 by simp
  next
    case False
    with Cons.IH [OF r1(2)] Cons.prems obtain r2 where
      "applyFeedbacks r1 fbs policy = Inr r2" "strikesOf r2 = strikesOf r1 + int (length fbs)"
      "ar_status r2 = (if strikesOf r1 + int (length fbs) < thr then ar_status r1 else StDisabled)"
      by auto
    with r1 show ?thesis by (auto split: if_splits)
  qed
qed simp

section \<open>Properties\<close>

text \<open>C11. Feedback moves the status of an account exactly as the table \<open>nextStatus\<close> says: a confirmed
  401 expires it, a 403 disables it once the strikes reach the threshold, a success ends a cooling
  whose time has come, disable and restore set the status, everything else (a 429 too) keeps it.\<close>

theorem feedback_status:
  assumes "ApplyFeedback r fb policy = Inr r'"
  shows "ar_status r' = nextStatus r fb (sp_forbiddenStrikes (normalizeStatePolicy policy))
    \<and> ar_token r' = ar_token r \<and> ar_pool r' = ar_pool r \<and> IsDeleted r' = IsDeleted r"
proof -
  obtain s where r': "r' = feedbackRecord (fb_at fb)
       (applyStatus fb (normalizeStatePolicy policy) (applyCounters fb (applyQuota fb s)))"
    and s: "fs_base s = r" "fs_ext s = ar_ext r" "fs_status s = ar_status r"
    using ApplyFeedback_Inr [OF assms] by metis
  show ?thesis
    by (cases "fb_kind fb")
      (simp_all add: r' s feedback_simps nextStatus_def strikesOf_def IsDeleted_def)
qed

definition sampleRecord :: AccountRecord where
  "sampleRecord = sampleInput\<lparr>ar_token := ''tok'', ar_pool := ''basic'',
     ar_quota := quotaSetToDict basicQuotaDefaults\<rparr>"

definition sampleFeedback :: "FeedbackKind \<Rightarrow> AccountFeedback" where
  "sampleFeedback kind = \<lparr>fb_kind = kind, fb_modeID = 1, fb_at = 1000, fb_statusCode = None, fb_reason = '''',
     fb_quotaWindow = None, fb_retryAfterMS = None, fb_confirmExpired = True, fb_applyUsage = True\<rparr>"

lemma sample_quota: "QuotaSet sampleRecord = Inr basicQuotaDefaults"
  by (simp add: sampleRecord_def QuotaSet_def quota_set_dict)

lemma sample_apply: "\<exists>r'. ApplyFeedback sampleRecord (sampleFeedback kind) defaultStatePolicy = Inr r'"
  by (simp add: ApplyFeedback_def newFeedbackState_def sample_quota)

theorem feedback_status_witness:
  "\<exists>r'. ApplyFeedback sampleRecord (sampleFeedback FbUnauthorized) defaultStatePolicy = Inr r' \<and>
     ar_status r' = StExpired"
  using sample_apply [of FbUnauthorized] feedback_status
  by (fastforce simp: nextStatus_def sampleFeedback_def)

text \<open>Feedback changes the window of its own mode only (all of them are reset by a restore), to the
  window it carries, or one lower after a success (never below 0), or to 0 with a reset time after a
  429; well-formed windows stay well-formed.\<close>

theorem feedback_quota:
  assumes "ApplyFeedback r fb policy = Inr r'" "QuotaSet r = Inr q" "0 \<le> fb_modeID fb" "fb_modeID fb \<le> 5"
  shows "\<exists>q'. QuotaSet r' = Inr q' \<and>
    (\<forall>m. quotaGet q' m =
      (if fb_kind fb = FbRestore then quotaGet (DefaultQuotaSet (ar_pool r)) m
       else if m \<noteq> fb_modeID fb then quotaGet q m
       else case fb_quotaWindow fb of Some live \<Rightarrow> Some live
          | None \<Rightarrow> map_option (\<lambda>w. nextWindow w fb) (quotaGet q m))) \<and>
    (quota_ok q \<and> (\<forall>w. fb_quotaWindow fb = Some w \<longrightarrow> window_ok w) \<longrightarrow> quota_ok q')"
proof -
  from ApplyFeedback_Inr [OF assms(1)] assms(2) obtain s where
    r': "r' = feedbackRecord (fb_at fb) (applyStatus fb (normalizeStatePolicy policy)
           (applyCounters fb (applyQuota fb s)))"
    and s: "fs_quotaSet s = q" "fs_base s = r"
    by (metis sum.inject(2))
  let ?q' = "fs_quotaSet (applyStatus fb (normalizeStatePolicy policy) (applyCounters fb (applyQuota fb s)))"
  have own: "quotaGet (fs_quotaSet (applyQuota fb s)) (fb_modeID fb) =
      (case fb_quotaWindow fb of Some live \<Rightarrow> Some live
       | None \<Rightarrow> map_option (\<lambda>w. nextWindow w fb) (quotaGet q (fb_modeID fb)))"
    using applyQuota_window [OF assms(3,4), of s] s assms(3,4)
    by (cases "quotaGet q (fb_modeID fb)")
      (auto simp: applyQuota_def decrementQuota_def rateLimitQuota_def nextWindow_def quotaGet_quotaSet_same
        split: option.splits)
  have get: "quotaGet ?q' m =
      (if fb_kind fb = FbRestore then quotaGet (DefaultQuotaSet (ar_pool r)) m
       else if m \<noteq> fb_modeID fb then quotaGet q m
       else case fb_quotaWindow fb of Some live \<Rightarrow> Some live
          | None \<Rightarrow> map_option (\<lambda>w. nextWindow w fb) (quotaGet q m))" for m
    using own applyQuota_other [OF assms(3,4), of m s] s by (auto simp: feedback_simps)
  have ok: "quota_ok ?q'" if "quota_ok q" "\<forall>w. fb_quotaWindow fb = Some w \<longrightarrow> window_ok w"
    using that quota_ok_default [of "ar_pool r"] nextWindow_ok [of _ fb]
    by (auto simp: quota_ok_def get split: option.splits if_splits)
  show ?thesis using get ok by (simp add: r')
qed

theorem feedback_quota_witness:
  "\<exists>r' q'. ApplyFeedback sampleRecord (sampleFeedback FbSuccess) defaultStatePolicy = Inr r' \<and>
     QuotaSet r' = Inr q' \<and> map_option qw_remaining (quotaGet q' 1) = Some 29 \<and>
     quotaGet q' 5 = quotaGet basicQuotaDefaults 5"
proof -
  obtain r' where r': "ApplyFeedback sampleRecord (sampleFeedback FbSuccess) defaultStatePolicy = Inr r'"
    using sample_apply by blast
  from feedback_quota [OF r' sample_quota] obtain q' where q': "QuotaSet r' = Inr q'"
    "quotaGet q' 1 = map_option (\<lambda>w. nextWindow w (sampleFeedback FbSuccess)) (quotaGet basicQuotaDefaults 1)"
    "quotaGet q' 5 = quotaGet basicQuotaDefaults 5"
    by (auto simp: sampleFeedback_def)
  have "map_option qw_remaining (quotaGet q' 1) = Some 29"
    unfolding q'(2) by (simp add: quotaGet_def default_defs nextWindow_def sampleFeedback_def clampInt_def)
  with r' q' show ?thesis by blast
qed

text \<open>Counting 403s: a run of \<open>n\<close> forbidden feedbacks raises the strikes by \<open>n\<close>, always
  returns a record, and disables the account exactly when the strikes reach the policy's threshold.\<close>

theorem forbidden_strikes:
  assumes "QuotaSet r = Inr q" "\<forall>fb \<in> set fbs. fb_kind fb = FbForbidden" "fbs \<noteq> []"
  shows "\<exists>r'. applyFeedbacks r fbs policy = Inr r' \<and> strikesOf r' = strikesOf r + int (length fbs) \<and>
    ar_status r' = (if strikesOf r + int (length fbs) < sp_forbiddenStrikes (normalizeStatePolicy policy)
      then ar_status r else StDisabled)"
  using assms by (intro forbidden_run) auto

theorem forbidden_strikes_witness:
  "\<exists>r'. applyFeedbacks sampleRecord [sampleFeedback FbForbidden, sampleFeedback FbForbidden]
       (defaultStatePolicy\<lparr>sp_forbiddenStrikes := 2\<rparr>) = Inr r' \<and> ar_status r' = StDisabled"
proof -
  have kinds: "\<forall>fb \<in> set [sampleFeedback FbForbidden, sampleFeedback FbForbidden]. fb_kind fb = FbForbidden"
    by (simp add: sampleFeedback_def)
  have "strikesOf sampleRecord = 0"
    by (simp add: strikesOf_def sampleRecord_def sampleInput_def intFromExt_def intFromAny_def)
  moreover have "sp_forbiddenStrikes (normalizeStatePolicy (defaultStatePolicy\<lparr>sp_forbiddenStrikes := 2\<rparr>)) = 2"
    by (simp add: normalizeStatePolicy_def defaultStatePolicy_def Let_def)
  ultimately show ?thesis
    using forbidden_strikes [OF sample_quota kinds, of "defaultStatePolicy\<lparr>sp_forbiddenStrikes := 2\<rparr>"]
    by auto
qed

text \<open>Restoring brings an account back: whatever its status was, it is active, no failure marker of
  its \<open>ext\<close> is left while every other key is kept, and unless it is deleted it can be selected for each
  mode whose default quota is positive.\<close>

theorem restore_selectable:
  assumes "ApplyFeedback r fb policy = Inr r'" "fb_kind fb = FbRestore"
    and "\<not> IsDeleted r" "quotaGet (DefaultQuotaSet (ar_pool r)) m = Some w" "0 < qw_total w"
  shows "IsSelectable r' m ts \<and>
    (\<forall>k. mapGet (ar_ext r') k = (if k \<in> set failureKeys then GNil else mapGet (ar_ext r) k))"
proof -
  from ApplyFeedback_Inr [OF assms(1)] obtain s where
    r': "r' = feedbackRecord (fb_at fb) (applyStatus fb (normalizeStatePolicy policy)
           (applyCounters fb (applyQuota fb s)))"
    and s: "fs_base s = r" "fs_ext s = ar_ext r"
    by metis
  have "fs_ext (applyStatus fb (normalizeStatePolicy policy) (applyCounters fb (applyQuota fb s)))
      = clearFailureExt (ar_ext r)"
    using assms(2) s by (simp add: applyStatus_def restore_def feedback_simps)
  moreover have "qw_remaining w = qw_total w" using default_windows_ok assms(4) by blast
  moreover have "\<not> IsDeleted r'" using assms(3) s by (simp add: r' IsDeleted_def feedback_simps)
  ultimately show ?thesis
    using assms s
    by (simp add: r' IsSelectable_def DeriveStatus_def IsExhausted_def feedback_simps)
qed

theorem restore_selectable_witness:
  "\<exists>r'. ApplyFeedback (sampleRecord\<lparr>ar_status := StDisabled\<rparr>) (sampleFeedback FbRestore) defaultStatePolicy = Inr r' \<and>
     IsSelectable r' 1 0"
proof -
  have q: "QuotaSet (sampleRecord\<lparr>ar_status := StDisabled\<rparr>) = Inr basicQuotaDefaults"
    using sample_quota by (simp add: QuotaSet_def)
  then obtain r' where r': "ApplyFeedback (sampleRecord\<lparr>ar_status := StDisabled\<rparr>) (sampleFeedback FbRestore)
      defaultStatePolicy = Inr r'"
    by (auto simp: ApplyFeedback_def newFeedbackState_def)
  have w: "quotaGet (DefaultQuotaSet (ar_pool (sampleRecord\<lparr>ar_status := StDisabled\<rparr>))) 1 =
      Some (quotaWindow 30 30 86400)"
    by (simp add: sampleRecord_def quotaGet_def default_defs)
  show ?thesis
    using restore_selectable [OF r' _ _ w] r'
    by (auto simp: sampleFeedback_def IsDeleted_def sampleRecord_def sampleInput_def quotaWindow_def)
qed

end
