(* ===== verification/AccountRepo.thy ===== *)
theory AccountRepo
  imports FeedbackMachine "HOL-Library.List_Lexorder" "HOL-Library.Char_ord"
begin

text \<open>
  The SQLite account repository (\<open>app/control/account/backends/local_rows.go\<close>,
  \<open>local_schema.go\<close>, \<open>local_mutations.go\<close>, \<open>local_upsert.go\<close>, \<open>local_patch.go\<close>,
  \<open>local_delete.go\<close>, \<open>local_queries.go\<close>). The table \<open>accounts\<close> is a list of rows, its
  primary key the token; \<open>account_meta\<close> is the revision counter. A JSON column is the value its
  text decodes to, so storing a map applies \<open>jsonNorm\<close> to its values. Each mutation runs in one
  transaction: an error leaves the database as it was. Failures of the disk or of the driver are
  not modelled. The row order SQLite chooses for \<open>ORDER BY\<close> ties is the parameter \<open>ord\<close>, its
  \<open>LIKE\<close> on the tags column the parameter \<open>like\<close>.
\<close>

section \<open>Rows\<close>

record LocalRow =
  lr_token :: string
  lr_pool :: string
  lr_status :: string
  lr_createdAt :: int
  lr_updatedAt :: int
  lr_tags :: "string list"
  lr_quotaAuto :: gomap
  lr_quotaFast :: gomap
  lr_quotaExpert :: gomap
  lr_quotaHeavy :: gomap
  lr_quotaGrok43 :: gomap
  lr_quotaConsole :: gomap
  lr_useCount :: int
  lr_failCount :: int
  lr_syncCount :: int
  lr_lastUseAt :: "int option"
  lr_lastFailAt :: "int option"
  lr_lastFailReason :: "string option"
  lr_lastSyncAt :: "int option"
  lr_lastClearAt :: "int option"
  lr_stateReason :: "string option"
  lr_deletedAt :: "int option"
  lr_ext :: gomap
  lr_revision :: int

record LocalDB =
  db_rows :: "LocalRow list"
  db_revision :: int

definition jsonStore :: "gomap \<Rightarrow> gomap" where
  "jsonStore m = fmmap jsonNorm m"

definition quotaMapAdd :: "string \<Rightarrow> bool \<Rightarrow> gomap \<Rightarrow> gomap \<Rightarrow> gomap" where
  "quotaMapAdd name required data quota =
    (if required \<or> data \<noteq> fmempty then fmupd name (GMap data) quota else quota)"

definition quotaMap :: "LocalRow \<Rightarrow> gomap" where
  "quotaMap row =
    quotaMapAdd ''console'' False (lr_quotaConsole row)
    (quotaMapAdd ''grok_4_3'' False (lr_quotaGrok43 row)
    (quotaMapAdd ''heavy'' False (lr_quotaHeavy row)
    (quotaMapAdd ''expert'' True (lr_quotaExpert row)
    (quotaMapAdd ''fast'' True (lr_quotaFast row)
    (quotaMapAdd ''auto'' True (lr_quotaAuto row) fmempty)))))"

definition toRecord :: "int \<Rightarrow> LocalRow \<Rightarrow> goerr + AccountRecord" where
  "toRecord now row =
    NewAccountRecord now (lr_status row)
      \<lparr>ar_token = lr_token row, ar_pool = lr_pool row, ar_status = StActive,
       ar_createdAt = lr_createdAt row, ar_updatedAt = lr_updatedAt row, ar_tags = lr_tags row,
       ar_quota = quotaMap row, ar_useCount = lr_useCount row, ar_failCount = lr_failCount row,
       ar_syncCount = lr_syncCount row, ar_lastUseAt = lr_lastUseAt row,
       ar_lastFailAt = lr_lastFailAt row, ar_lastFailReason = lr_lastFailReason row,
       ar_lastSyncAt = lr_lastSyncAt row, ar_lastClearAt = lr_lastClearAt row,
       ar_stateReason = lr_stateReason row, ar_deletedAt = lr_deletedAt row,
       ar_ext = lr_ext row, ar_revision = lr_revision row\<rparr>"

fun scanRows :: "int \<Rightarrow> LocalRow list \<Rightarrow> goerr + AccountRecord list" where
  "scanRows now [] = Inr []"
| "scanRows now (row # rows) =
    bindE (toRecord now row) (\<lambda>r. bindE (scanRows now rows) (\<lambda>rs. Inr (r # rs)))"

definition bumpRevision :: "LocalDB \<Rightarrow> LocalDB" where
  "bumpRevision db = db\<lparr>db_revision := db_revision db + 1\<rparr>"

section \<open>Upserts\<close>

text \<open>The literal \<open>AccountRecord{Token: token, Pool: pool}\<close>.\<close>

definition bareRecord :: "string \<Rightarrow> string \<Rightarrow> AccountRecord" where
  "bareRecord token pool =
    \<lparr>ar_token = token, ar_pool = pool, ar_status = StActive, ar_createdAt = 0, ar_updatedAt = 0,
     ar_tags = [], ar_quota = fmempty, ar_useCount = 0, ar_failCount = 0, ar_syncCount = 0,
     ar_lastUseAt = None, ar_lastFailAt = None, ar_lastFailReason = None, ar_lastSyncAt = None,
     ar_lastClearAt = None, ar_stateReason = None, ar_deletedAt = None, ar_ext = fmempty,
     ar_revision = 0\<rparr>"

definition normalizeLocalUpsert :: "int \<Rightarrow> AccountUpsert \<Rightarrow> (string \<times> string) option" where
  "normalizeLocalUpsert now item =
    (let item = upsertNormalize item
     in case NewAccountRecord now '''' (bareRecord (up_token item) (up_pool item)) of
          Inl _ \<Rightarrow> None
        | Inr r \<Rightarrow> Some (ar_token r,
            if up_pool item = ''basic'' \<or> up_pool item = ''super'' \<or> up_pool item = ''heavy''
            then up_pool item else ''basic''))"

definition quotaJSON :: "QuotaWindow \<Rightarrow> gomap" where
  "quotaJSON w = jsonStore (windowToDict w)"

definition optionalQuotaJSON :: "QuotaWindow option \<Rightarrow> gomap" where
  "optionalQuotaJSON ow = (case ow of None \<Rightarrow> fmempty | Some w \<Rightarrow> quotaJSON w)"

text \<open>\<open>localUpsertSQL\<close>: the row a plain insert writes, and what a conflict on the token changes.\<close>

definition insertedRow :: "AccountUpsert \<Rightarrow> string \<Rightarrow> string \<Rightarrow> int \<Rightarrow> int \<Rightarrow> LocalRow" where
  "insertedRow item token pool ts revision =
    (let item = upsertNormalize item; q = DefaultQuotaSet pool
     in \<lparr>lr_token = token, lr_pool = pool, lr_status = ''active'', lr_createdAt = ts, lr_updatedAt = ts,
         lr_tags = up_tags item, lr_quotaAuto = quotaJSON (qs_auto q), lr_quotaFast = quotaJSON (qs_fast q),
         lr_quotaExpert = quotaJSON (qs_expert q), lr_quotaHeavy = optionalQuotaJSON (qs_heavy q),
         lr_quotaGrok43 = optionalQuotaJSON (qs_grok43 q), lr_quotaConsole = optionalQuotaJSON (qs_console q),
         lr_useCount = 0, lr_failCount = 0, lr_syncCount = 0, lr_lastUseAt = None, lr_lastFailAt = None,
         lr_lastFailReason = None, lr_lastSyncAt = None, lr_lastClearAt = None, lr_stateReason = None,
         lr_deletedAt = None, lr_ext = jsonStore (up_ext item), lr_revision = revision\<rparr>)"

definition conflictRow :: "LocalRow \<Rightarrow> LocalRow \<Rightarrow> LocalRow" where
  "conflictRow old excluded =
    old\<lparr>lr_pool := lr_pool excluded, lr_status := ''active'', lr_deletedAt := None,
      lr_updatedAt := lr_updatedAt excluded, lr_tags := lr_tags excluded,
      lr_quotaAuto := lr_quotaAuto excluded, lr_quotaFast := lr_quotaFast excluded,
      lr_quotaExpert := lr_quotaExpert excluded, lr_quotaHeavy := lr_quotaHeavy excluded,
      lr_quotaGrok43 := lr_quotaGrok43 excluded, lr_quotaConsole := lr_quotaConsole excluded,
      lr_ext := lr_ext excluded, lr_revision := lr_revision excluded\<rparr>"

fun upsertRow :: "LocalRow \<Rightarrow> LocalRow list \<Rightarrow> LocalRow list" where
  "upsertRow row [] = [row]"
| "upsertRow row (r # rs) =
    (if lr_token r = lr_token row then conflictRow r row # rs else r # upsertRow row rs)"

fun upsertLocalAccounts ::
    "int \<Rightarrow> int \<Rightarrow> AccountUpsert list \<Rightarrow> LocalRow list \<Rightarrow> int \<times> LocalRow list" where
  "upsertLocalAccounts ts revision [] rows = (0, rows)"
| "upsertLocalAccounts ts revision (item # items) rows =
    (case normalizeLocalUpsert ts item of
       None \<Rightarrow> upsertLocalAccounts ts revision items rows
     | Some (token, pool) \<Rightarrow>
         let (count, rows') = upsertLocalAccounts ts revision items
               (upsertRow (insertedRow item token pool ts revision) rows)
         in (count + 1, rows'))"

section \<open>Patches\<close>

text \<open>An assignment of the \<open>UPDATE\<close> statement; of two assignments to a column SQLite keeps the
  last.\<close>

datatype localPatchSet =
    SetUpdatedAt int | SetRevision int | SetPool string | SetStatus string
  | SetStateReason "string option" | SetLastUseAt int | SetLastFailAt "int option"
  | SetLastFailReason "string option" | SetLastSyncAt int | SetLastClearAt int
  | SetUseCount int | SetFailCount int | SetSyncCount int
  | SetQuotaAuto gomap | SetQuotaFast gomap | SetQuotaExpert gomap
  | SetQuotaHeavy gomap | SetQuotaGrok43 gomap | SetQuotaConsole gomap
  | SetTags "string list" | SetExt gomap

fun assignColumn :: "localPatchSet \<Rightarrow> LocalRow \<Rightarrow> LocalRow" where
  "assignColumn (SetUpdatedAt v) row = row\<lparr>lr_updatedAt := v\<rparr>"
| "assignColumn (SetRevision v) row = row\<lparr>lr_revision := v\<rparr>"
| "assignColumn (SetPool v) row = row\<lparr>lr_pool := v\<rparr>"
| "assignColumn (SetStatus v) row = row\<lparr>lr_status := v\<rparr>"
| "assignColumn (SetStateReason v) row = row\<lparr>lr_stateReason := v\<rparr>"
| "assignColumn (SetLastUseAt v) row = row\<lparr>lr_lastUseAt := Some v\<rparr>"
| "assignColumn (SetLastFailAt v) row = row\<lparr>lr_lastFailAt := v\<rparr>"
| "assignColumn (SetLastFailReason v) row = row\<lparr>lr_lastFailReason := v\<rparr>"
| "assignColumn (SetLastSyncAt v) row = row\<lparr>lr_lastSyncAt := Some v\<rparr>"
| "assignColumn (SetLastClearAt v) row = row\<lparr>lr_lastClearAt := Some v\<rparr>"
| "assignColumn (SetUseCount v) row = row\<lparr>lr_useCount := v\<rparr>"
| "assignColumn (SetFailCount v) row = row\<lparr>lr_failCount := v\<rparr>"
| "assignColumn (SetSyncCount v) row = row\<lparr>lr_syncCount := v\<rparr>"
| "assignColumn (SetQuotaAuto v) row = row\<lparr>lr_quotaAuto := v\<rparr>"
| "assignColumn (SetQuotaFast v) row = row\<lparr>lr_quotaFast := v\<rparr>"
| "assignColumn (SetQuotaExpert v) row = row\<lparr>lr_quotaExpert := v\<rparr>"
| "assignColumn (SetQuotaHeavy v) row = row\<lparr>lr_quotaHeavy := v\<rparr>"
| "assignColumn (SetQuotaGrok43 v) row = row\<lparr>lr_quotaGrok43 := v\<rparr>"
| "assignColumn (SetQuotaConsole v) row = row\<lparr>lr_quotaConsole := v\<rparr>"
| "assignColumn (SetTags v) row = row\<lparr>lr_tags := v\<rparr>"
| "assignColumn (SetExt v) row = row\<lparr>lr_ext := v\<rparr>"

definition optSet :: "('a \<Rightarrow> localPatchSet) \<Rightarrow> 'a option \<Rightarrow> localPatchSet list" where
  "optSet column value = (case value of None \<Rightarrow> [] | Some v \<Rightarrow> [column v])"

definition timestampPatchSets :: "AccountPatch \<Rightarrow> localPatchSet list" where
  "timestampPatchSets p =
    optSet (SetStateReason \<circ> Some) (pt_stateReason p) @ optSet SetLastUseAt (pt_lastUseAt p) @
    optSet (SetLastFailAt \<circ> Some) (pt_lastFailAt p) @
    optSet (SetLastFailReason \<circ> Some) (pt_lastFailReason p) @
    optSet SetLastSyncAt (pt_lastSyncAt p) @ optSet SetLastClearAt (pt_lastClearAt p)"

definition basicPatchSets :: "AccountPatch \<Rightarrow> localPatchSet list" where
  "basicPatchSets p =
    optSet SetPool (pt_pool p) @ optSet (SetStatus \<circ> statusString) (pt_status p) @ timestampPatchSets p"

definition usagePatchSets :: "AccountRecord \<Rightarrow> AccountPatch \<Rightarrow> localPatchSet list" where
  "usagePatchSets r p =
    optSet (\<lambda>d. SetUseCount (max 0 (ar_useCount r + d))) (pt_useDelta p) @
    optSet (\<lambda>d. SetFailCount (max 0 (ar_failCount r + d))) (pt_failDelta p) @
    optSet (\<lambda>d. SetSyncCount (max 0 (ar_syncCount r + d))) (pt_syncDelta p)"

definition quotaPatchSets :: "AccountPatch \<Rightarrow> localPatchSet list" where
  "quotaPatchSets p =
    optSet (SetQuotaAuto \<circ> jsonStore) (pt_quotaAuto p) @ optSet (SetQuotaFast \<circ> jsonStore) (pt_quotaFast p) @
    optSet (SetQuotaExpert \<circ> jsonStore) (pt_quotaExpert p) @
    optSet (SetQuotaHeavy \<circ> jsonStore) (pt_quotaHeavy p) @
    optSet (SetQuotaGrok43 \<circ> jsonStore) (pt_quotaGrok43 p) @
    optSet (SetQuotaConsole \<circ> jsonStore) (pt_quotaConsole p)"

text \<open>A Go map used as a set, then sorted: the order of the map does not matter.\<close>

definition patchedTags :: "string list \<Rightarrow> AccountPatch \<Rightarrow> string list" where
  "patchedTags current p =
    (let tags = (case pt_tags p of None \<Rightarrow> current | Some ts \<Rightarrow> ts) @ pt_addTags p
     in sort (filter (\<lambda>t. t \<notin> set (pt_removeTags p)) (remdups tags)))"

definition failureExtKeys :: "string list" where
  "failureExtKeys = [''cooldown_until'', ''cooldown_reason'', ''disabled_at'', ''disabled_reason'',
     ''expired_at'', ''expired_reason'', ''forbidden_strikes'']"

definition extPatchSets :: "AccountRecord \<Rightarrow> AccountPatch \<Rightarrow> localPatchSet list" where
  "extPatchSets r p =
    (let ext = ar_ext r ++\<^sub>f pt_extMerge p
     in if pt_clearFailures p
        then [SetStatus (statusString StActive), SetFailCount 0, SetLastFailAt None, SetLastFailReason None,
              SetStateReason None, SetExt (jsonStore (fold fmdrop failureExtKeys ext))]
        else [SetExt (jsonStore ext)])"

definition buildLocalPatchSets :: "AccountRecord \<Rightarrow> AccountPatch \<Rightarrow> int \<Rightarrow> int \<Rightarrow> localPatchSet list" where
  "buildLocalPatchSets r p ts revision =
    [SetUpdatedAt ts, SetRevision revision] @ basicPatchSets p @ usagePatchSets r p @ quotaPatchSets p @
    [SetTags (patchedTags (ar_tags r) p)] @ extPatchSets r p"

definition applySets :: "localPatchSet list \<Rightarrow> LocalRow \<Rightarrow> LocalRow" where
  "applySets sets row = fold assignColumn sets row"

fun findRow :: "string \<Rightarrow> LocalRow list \<Rightarrow> LocalRow option" where
  "findRow token [] = None"
| "findRow token (r # rs) = (if lr_token r = token then Some r else findRow token rs)"

definition updateWhere :: "(LocalRow \<Rightarrow> bool) \<Rightarrow> (LocalRow \<Rightarrow> LocalRow) \<Rightarrow> LocalRow list \<Rightarrow> LocalRow list" where
  "updateWhere P f rows = map (\<lambda>r. if P r then f r else r) rows"

definition patchLocalAccount ::
    "int \<Rightarrow> int \<Rightarrow> AccountPatch \<Rightarrow> LocalRow list \<Rightarrow> goerr + int \<times> LocalRow list" where
  "patchLocalAccount ts revision p rows =
    (case findRow (pt_token p) rows of
       None \<Rightarrow> Inr (0, rows)
     | Some row \<Rightarrow>
         bindE (toRecord ts row) (\<lambda>r.
           let sets = buildLocalPatchSets r p ts revision
           in Inr (int (length (filter (\<lambda>r. lr_token r = pt_token p) rows)),
                   updateWhere (\<lambda>r. lr_token r = pt_token p) (applySets sets) rows)))"

fun patchLocalAccounts ::
    "int \<Rightarrow> int \<Rightarrow> AccountPatch list \<Rightarrow> LocalRow list \<Rightarrow> goerr + int \<times> LocalRow list" where
  "patchLocalAccounts ts revision [] rows = Inr (0, rows)"
| "patchLocalAccounts ts revision (p # ps) rows =
    bindE (patchLocalAccount ts revision p rows) (\<lambda>(affected, rows1).
    bindE (patchLocalAccounts ts revision ps rows1) (\<lambda>(count, rows2).
      Inr (affected + count, rows2)))"

section \<open>Deletes\<close>

definition deleteRow :: "int \<Rightarrow> int \<Rightarrow> LocalRow \<Rightarrow> LocalRow" where
  "deleteRow ts revision row = row\<lparr>lr_deletedAt := Some ts, lr_updatedAt := ts, lr_revision := revision\<rparr>"

fun deleteLocalAccounts :: "int \<Rightarrow> int \<Rightarrow> string list \<Rightarrow> LocalRow list \<Rightarrow> int \<times> LocalRow list" where
  "deleteLocalAccounts ts revision [] rows = (0, rows)"
| "deleteLocalAccounts ts revision (token # tokens) rows =
    (let hit = (\<lambda>r. lr_token r = token \<and> lr_deletedAt r = None);
         affected = int (length (filter hit rows));
         (count, rows') = deleteLocalAccounts ts revision tokens (updateWhere hit (deleteRow ts revision) rows)
     in (affected + count, rows'))"

definition deleteLocalPool :: "int \<Rightarrow> int \<Rightarrow> string \<Rightarrow> LocalRow list \<Rightarrow> int \<times> LocalRow list" where
  "deleteLocalPool ts revision pool rows =
    (let hit = (\<lambda>r. lr_pool r = pool \<and> lr_deletedAt r = None)
     in (int (length (filter hit rows)), updateWhere hit (deleteRow ts revision) rows))"

section \<open>Mutations\<close>

definition UpsertAccounts :: "int \<Rightarrow> AccountUpsert list \<Rightarrow> LocalDB \<Rightarrow> AccountMutationResult \<times> LocalDB" where
  "UpsertAccounts now items db =
    (if items = [] then (noMutation, db)
     else let db1 = bumpRevision db;
              (count, rows) = upsertLocalAccounts now (db_revision db1) items (db_rows db1)
          in (noMutation\<lparr>mr_upserted := count, mr_revision := db_revision db1\<rparr>, db1\<lparr>db_rows := rows\<rparr>))"

definition PatchAccounts ::
    "int \<Rightarrow> AccountPatch list \<Rightarrow> LocalDB \<Rightarrow> (goerr + AccountMutationResult) \<times> LocalDB" where
  "PatchAccounts now patches db =
    (if patches = [] then (Inr noMutation, db)
     else let db1 = bumpRevision db
          in case patchLocalAccounts now (db_revision db1) patches (db_rows db1) of
               Inl e \<Rightarrow> (Inl e, db)
             | Inr (count, rows) \<Rightarrow>
                 (Inr (noMutation\<lparr>mr_patched := count, mr_revision := db_revision db1\<rparr>),
                  db1\<lparr>db_rows := rows\<rparr>))"

definition DeleteAccounts :: "int \<Rightarrow> string list \<Rightarrow> LocalDB \<Rightarrow> AccountMutationResult \<times> LocalDB" where
  "DeleteAccounts now tokens db =
    (if tokens = [] then (noMutation, db)
     else let db1 = bumpRevision db;
              (count, rows) = deleteLocalAccounts now (db_revision db1) tokens (db_rows db1)
          in (noMutation\<lparr>mr_deleted := count, mr_revision := db_revision db1\<rparr>, db1\<lparr>db_rows := rows\<rparr>))"

definition ReplacePool :: "int \<Rightarrow> BulkReplacePoolCommand \<Rightarrow> LocalDB \<Rightarrow> AccountMutationResult \<times> LocalDB" where
  "ReplacePool now command db =
    (let command = bulkNormalize command;
         db1 = bumpRevision db;
         (deleted, rows1) = deleteLocalPool now (db_revision db1) (br_pool command) (db_rows db1);
         db2 = bumpRevision (db1\<lparr>db_rows := rows1\<rparr>);
         (upserted, rows2) = upsertLocalAccounts now (db_revision db2) (br_upserts command) (db_rows db2)
     in (noMutation\<lparr>mr_upserted := upserted, mr_deleted := deleted, mr_revision := db_revision db2\<rparr>,
         db2\<lparr>db_rows := rows2\<rparr>))"

section \<open>Queries\<close>

definition GetRevision :: "LocalDB \<Rightarrow> int" where
  "GetRevision db = db_revision db"

definition repoSnapshot :: "int \<Rightarrow> LocalDB \<Rightarrow> goerr + RuntimeSnapshot" where
  "repoSnapshot now db =
    bindE (scanRows now (filter (\<lambda>r. lr_deletedAt r = None) (db_rows db))) (\<lambda>items.
      Inr \<lparr>sn_revision = db_revision db, sn_items = items\<rparr>)"

definition GetAccounts :: "int \<Rightarrow> string list \<Rightarrow> LocalDB \<Rightarrow> goerr + AccountRecord list" where
  "GetAccounts now tokens db =
    (if tokens = [] then Inr []
     else scanRows now (filter (\<lambda>r. lr_token r \<in> set tokens) (db_rows db)))"

definition minRevisionAfter :: "int \<Rightarrow> LocalRow list \<Rightarrow> int option" where
  "minRevisionAfter since rows =
    (case filter (\<lambda>v. v > since) (map lr_revision rows) of [] \<Rightarrow> None | v # vs \<Rightarrow> Some (foldl min v vs))"

definition changeRows :: "AccountRecord list \<Rightarrow> int \<Rightarrow> bool \<Rightarrow> AccountChangeSet" where
  "changeRows records revision hasMore =
    \<lparr>cs_revision = revision, cs_items = filter (\<lambda>r. \<not> IsDeleted r) records,
     cs_deletedTokens = map ar_token (filter IsDeleted records), cs_hasMore = hasMore\<rparr>"

text \<open>The argument \<open>limit\<close> of the source selects nothing in this repository.\<close>

definition ScanChanges :: "int \<Rightarrow> int \<Rightarrow> LocalDB \<Rightarrow> goerr + AccountChangeSet" where
  "ScanChanges now since db =
    (case minRevisionAfter since (db_rows db) of
       None \<Rightarrow> Inr (changeRows [] (db_revision db) False)
     | Some next1 \<Rightarrow>
         bindE (scanRows now (sort_key lr_token (filter (\<lambda>r. lr_revision r = next1) (db_rows db)))) (\<lambda>records.
           Inr (changeRows records next1 (next1 < db_revision db))))"

definition isZeroLocalListQuery :: "ListAccountsQuery \<Rightarrow> bool" where
  "isZeroLocalListQuery q \<longleftrightarrow> lq_page q = 0 \<and> lq_pageSize q = 0 \<and> lq_pool q = None \<and> lq_status q = None \<and>
     lq_tags q = None \<and> lq_excludeTags q = None \<and> \<not> lq_includeDeleted q \<and> lq_sortBy q = '''' \<and> \<not> lq_sortDesc q"

definition normalizeLocalListQuery :: "ListAccountsQuery \<Rightarrow> ListAccountsQuery" where
  "normalizeLocalListQuery q =
    (if isZeroLocalListQuery q then DefaultListAccountsQuery else queryNormalize q)"

definition safeLocalSort :: "string \<Rightarrow> string" where
  "safeLocalSort sortBy =
    (if sortBy \<in> {''updated_at'', ''created_at'', ''last_use_at'', ''token'', ''usage_use_count'',
        ''usage_fail_count''} then sortBy else ''updated_at'')"

definition localListWhere :: "(string \<Rightarrow> string list \<Rightarrow> bool) \<Rightarrow> ListAccountsQuery \<Rightarrow> LocalRow \<Rightarrow> bool" where
  "localListWhere like q row \<longleftrightarrow>
    (lq_includeDeleted q \<or> lr_deletedAt row = None) \<and>
    (case lq_pool q of None \<Rightarrow> True | Some p \<Rightarrow> p = '''' \<or> lr_pool row = p) \<and>
    (case lq_status q of None \<Rightarrow> True | Some s \<Rightarrow> lr_status row = statusString s) \<and>
    list_all (\<lambda>tag. like tag (lr_tags row)) (case lq_tags q of None \<Rightarrow> [] | Some ts \<Rightarrow> ts) \<and>
    list_all (\<lambda>tag. \<not> like tag (lr_tags row)) (case lq_excludeTags q of None \<Rightarrow> [] | Some ts \<Rightarrow> ts)"

definition totalPages :: "int \<Rightarrow> int \<Rightarrow> int" where
  "totalPages ttl pageSize = max 1 (truncDiv (ttl + pageSize - 1) pageSize)"

definition listLocalAccounts ::
    "(string \<Rightarrow> string list \<Rightarrow> bool) \<Rightarrow> (string \<Rightarrow> bool \<Rightarrow> LocalRow list \<Rightarrow> LocalRow list) \<Rightarrow>
     int \<Rightarrow> ListAccountsQuery \<Rightarrow> LocalDB \<Rightarrow> goerr + AccountPage" where
  "listLocalAccounts like ord now q db =
    (let hits = filter (localListWhere like q) (db_rows db);
         offset = (lq_page q - 1) * lq_pageSize q;
         window = take (nat (lq_pageSize q)) (drop (nat offset)
           (ord (safeLocalSort (lq_sortBy q)) (lq_sortDesc q) hits))
     in bindE (scanRows now window) (\<lambda>items.
          Inr \<lparr>ap_items = items, ap_total = int (length hits), ap_page = lq_page q,
            ap_pageSize = lq_pageSize q, ap_totalPages = totalPages (int (length hits)) (lq_pageSize q),
            ap_revision = db_revision db\<rparr>))"

definition ListAccounts ::
    "(string \<Rightarrow> string list \<Rightarrow> bool) \<Rightarrow> (string \<Rightarrow> bool \<Rightarrow> LocalRow list \<Rightarrow> LocalRow list) \<Rightarrow>
     int \<Rightarrow> ListAccountsQuery \<Rightarrow> LocalDB \<Rightarrow> goerr + AccountPage" where
  "ListAccounts like ord now q db = listLocalAccounts like ord now (normalizeLocalListQuery q) db"

section \<open>Invariant\<close>

text \<open>Tokens are keys and are clean; no row is newer than the revision counter.\<close>

definition db_inv :: "LocalDB \<Rightarrow> bool" where
  "db_inv db \<longleftrightarrow> distinct (map lr_token (db_rows db)) \<and>
     (\<forall>r \<in> set (db_rows db). token_clean (lr_token r) \<and> lr_revision r \<le> db_revision db)"

definition rows_inv :: "int \<Rightarrow> LocalRow list \<Rightarrow> bool" where
  "rows_inv rev1 rows \<longleftrightarrow> distinct (map lr_token rows) \<and>
     (\<forall>r \<in> set rows. token_clean (lr_token r) \<and> lr_revision r \<le> rev1)"

lemma db_inv_rows: "db_inv db \<longleftrightarrow> rows_inv (db_revision db) (db_rows db)"
  by (simp add: db_inv_def rows_inv_def)

lemma rows_inv_mono: "rows_inv n rows \<Longrightarrow> n \<le> n' \<Longrightarrow> rows_inv n' rows"
  by (fastforce simp: rows_inv_def)

lemma rows_inv_Cons:
  "rows_inv n (r # rs) \<longleftrightarrow> token_clean (lr_token r) \<and> lr_revision r \<le> n \<and>
     lr_token r \<notin> set (map lr_token rs) \<and> rows_inv n rs"
  by (auto simp: rows_inv_def)

lemma conflictRow_token [simp]: "lr_token (conflictRow r e) = lr_token r"
  "lr_revision (conflictRow r e) = lr_revision e"
  by (simp_all add: conflictRow_def)

lemma upsertRow_tokens:
  "set (map lr_token (upsertRow row rows)) = insert (lr_token row) (set (map lr_token rows))"
  by (induction rows) auto

lemma upsertRow_inv:
  "rows_inv n rows \<Longrightarrow> token_clean (lr_token row) \<Longrightarrow> lr_revision row \<le> n \<Longrightarrow> rows_inv n (upsertRow row rows)"
proof (induction rows)
  case (Cons r rows)
  have "lr_token r \<notin> set (map lr_token (upsertRow row rows))" if "lr_token r \<noteq> lr_token row"
    using Cons.prems(1) that by (simp only: upsertRow_tokens) (simp add: rows_inv_Cons)
  with Cons show ?case by (auto simp: rows_inv_Cons)
qed (simp add: rows_inv_def)

lemma insertedRow_simps [simp]:
  "lr_token (insertedRow item token pool ts n) = token" "lr_revision (insertedRow item token pool ts n) = n"
  "lr_deletedAt (insertedRow item token pool ts n) = None" "lr_pool (insertedRow item token pool ts n) = pool"
  "lr_status (insertedRow item token pool ts n) = ''active''"
  by (simp_all add: insertedRow_def Let_def)

lemma normalizeLocalUpsert_Some:
  assumes "normalizeLocalUpsert now item = Some (token, pool)"
  shows "token_clean token" and "NormalizeAccountToken (up_token item) = Inr token"
    and "pool \<in> {''basic'', ''super'', ''heavy''}"
proof -
  have tok: "NormalizeAccountToken (up_token item) = Inr token"
    using assms
    by (auto simp: normalizeLocalUpsert_def NewAccountRecord_def bareRecord_def upsertNormalize_def Let_def
        split: sum.splits if_splits)
  then show "NormalizeAccountToken (up_token item) = Inr token" .
  from tok show "token_clean token" by (rule token_Inr_clean)
  show "pool \<in> {''basic'', ''super'', ''heavy''}"
    using assms by (auto simp: normalizeLocalUpsert_def Let_def split: sum.splits if_splits)
qed

lemma upsertLocalAccounts_inv:
  "rows_inv n rows \<Longrightarrow> rows_inv n (snd (upsertLocalAccounts ts n items rows))"
  by (induction items arbitrary: rows)
    (auto simp: case_prod_unfold upsertRow_inv normalizeLocalUpsert_Some(1) Let_def split: option.splits)

lemma updateWhere_tokens [simp]:
  "(\<And>r. lr_token (f r) = lr_token r) \<Longrightarrow> map lr_token (updateWhere P f rows) = map lr_token rows"
  by (simp add: updateWhere_def)

lemma updateWhere_inv:
  "rows_inv n rows \<Longrightarrow> (\<And>r. lr_token (f r) = lr_token r \<and> lr_revision (f r) = n) \<Longrightarrow>
     rows_inv n (updateWhere P f rows)"
  unfolding rows_inv_def by (auto simp: updateWhere_def comp_def if_distrib cong: if_cong)

lemma deleteRow_simps [simp]:
  "lr_token (deleteRow ts n r) = lr_token r" "lr_revision (deleteRow ts n r) = n"
  "lr_deletedAt (deleteRow ts n r) = Some ts"
  by (simp_all add: deleteRow_def)

lemma deleteLocalAccounts_inv:
  "rows_inv n rows \<Longrightarrow> rows_inv n (snd (deleteLocalAccounts ts n tokens rows))"
  by (induction tokens arbitrary: rows) (simp_all add: Let_def case_prod_unfold updateWhere_inv)

lemma assignColumn_token [simp]: "lr_token (assignColumn s r) = lr_token r"
  by (cases s) simp_all

lemma applySets_token [simp]: "lr_token (applySets sets r) = lr_token r"
  by (induction sets arbitrary: r) (simp_all add: applySets_def)

fun setsRevision :: "localPatchSet \<Rightarrow> bool" where
  "setsRevision (SetRevision _) = True"
| "setsRevision _ = False"

lemma assignColumn_revision: "\<not> setsRevision s \<Longrightarrow> lr_revision (assignColumn s r) = lr_revision r"
  by (cases s) simp_all

lemma applySets_revision:
  "list_all (\<lambda>s. \<not> setsRevision s) sets \<Longrightarrow> lr_revision (applySets sets r) = lr_revision r"
  by (induction sets arbitrary: r) (simp_all add: applySets_def assignColumn_revision)

lemmas patch_set_defs = buildLocalPatchSets_def basicPatchSets_def timestampPatchSets_def usagePatchSets_def
  quotaPatchSets_def extPatchSets_def optSet_def

lemma list_all_optSet: "(\<And>x. P (c x)) \<Longrightarrow> list_all P (optSet c v)"
  by (simp add: optSet_def split: option.split)

lemma applySets_append [simp]: "applySets (xs @ ys) r = applySets ys (applySets xs r)"
  by (simp add: applySets_def)

lemma applySets_Cons [simp]: "applySets (x # xs) r = applySets xs (assignColumn x r)"
  by (simp add: applySets_def)

lemma applySets_Nil [simp]: "applySets [] r = r"
  by (simp add: applySets_def)

lemma buildSets_revision [simp]: "lr_revision (applySets (buildLocalPatchSets r p ts n) row) = n"
proof -
  have rest: "lr_revision (applySets (basicPatchSets p @ usagePatchSets r p @ quotaPatchSets p @
      [SetTags (patchedTags (ar_tags r) p)] @ extPatchSets r p) row') = lr_revision row'" for row'
    by (rule applySets_revision)
      (simp add: basicPatchSets_def timestampPatchSets_def usagePatchSets_def quotaPatchSets_def
        extPatchSets_def Let_def list_all_optSet)
  show ?thesis
    using rest [of "applySets [SetUpdatedAt ts, SetRevision n] row"]
    by (simp add: buildLocalPatchSets_def)
qed

lemma patchLocalAccount_inv:
  "rows_inv n rows \<Longrightarrow> patchLocalAccount ts n p rows = Inr (c, rows') \<Longrightarrow> rows_inv n rows'"
  by (auto simp: patchLocalAccount_def Let_def split: option.splits intro!: updateWhere_inv)

lemma patchLocalAccounts_inv:
  "rows_inv n rows \<Longrightarrow> patchLocalAccounts ts n ps rows = Inr (c, rows') \<Longrightarrow> rows_inv n rows'"
proof (induction ps arbitrary: rows c)
  case (Cons p ps)
  from Cons.prems(2) obtain a rows1 c2 where
    "patchLocalAccount ts n p rows = Inr (a, rows1)" "patchLocalAccounts ts n ps rows1 = Inr (c2, rows')"
    by (auto simp: bindE_Inr_iff)
  with Cons show ?case by (metis patchLocalAccount_inv)
qed simp

section \<open>Reading rows back\<close>

text \<open>A row that reads back as a record under its own token.\<close>

definition row_readable :: "LocalRow \<Rightarrow> bool" where
  "row_readable row \<longleftrightarrow> token_clean (lr_token row) \<and> \<not> hasPrefix (lr_token row) ''sso='' \<and>
     (\<exists>p. normalizeRecordPool (lr_pool row) = Inr p) \<and> (\<exists>s. normalizeRecordStatus (lr_status row) = Inr s)"

definition db_ok :: "LocalDB \<Rightarrow> bool" where
  "db_ok db \<longleftrightarrow> db_inv db \<and> (\<forall>r \<in> set (db_rows db). row_readable r)"

lemma toRecord_readable:
  assumes "row_readable row"
  obtains r where "toRecord now row = Inr r" "ar_token r = lr_token row" "ar_deletedAt r = lr_deletedAt row"
    "ar_quota r = quotaMap row" "ar_ext r = lr_ext row" "ar_revision r = lr_revision row"
    "normalizeRecordPool (lr_pool row) = Inr (ar_pool r)"
    "normalizeRecordStatus (lr_status row) = Inr (ar_status r)"
proof -
  from assms obtain p s where ps: "normalizeRecordPool (lr_pool row) = Inr p"
    "normalizeRecordStatus (lr_status row) = Inr s"
    by (auto simp: row_readable_def)
  have "NormalizeAccountToken (lr_token row) = Inr (lr_token row)"
    using assms by (simp add: row_readable_def token_clean_normalize)
  with ps show thesis
    by (intro that [of "case toRecord now row of Inr r \<Rightarrow> r"]) (simp_all add: toRecord_def NewAccountRecord_def)
qed

lemma toRecord_token:
  "toRecord now row = Inr r \<Longrightarrow> row_readable row \<Longrightarrow> ar_token r = lr_token row \<and> ar_deletedAt r = lr_deletedAt row"
  by (metis toRecord_readable sum.inject(2))

lemma scanRows_list_all2:
  "scanRows now rows = Inr rs \<longleftrightarrow> list_all2 (\<lambda>row r. toRecord now row = Inr r) rows rs"
  by (induction rows arbitrary: rs) (auto simp: bindE_Inr_iff list_all2_Cons1)

lemma scanRows_set:
  assumes "scanRows now rows = Inr rs"
  shows "set rs = {r. \<exists>row \<in> set rows. toRecord now row = Inr r}"
proof -
  from assms have "list_all2 (\<lambda>row r. toRecord now row = Inr r) rows rs" by (simp add: scanRows_list_all2)
  then show ?thesis by (induction rule: list_all2_induct) auto
qed

lemma scanRows_total:
  "\<forall>row \<in> set rows. row_readable row \<Longrightarrow> \<exists>rs. scanRows now rows = Inr rs"
proof (induction rows)
  case (Cons row rows)
  obtain r where "toRecord now row = Inr r" using Cons.prems toRecord_readable by (metis list.set_intros(1))
  with Cons show ?case by auto
qed simp

section \<open>The change feed\<close>

text \<open>What a client of \<open>ScanChanges\<close> relies on: the interface comment of \<open>repository.go\<close>
  (\<open>the complete next revision group after sinceRevision\<close>, revisions as monotonic, possibly sparse
  cursors). \<open>entry db t\<close> is the revision of token \<open>t\<close> and the record it reads as.\<close>

locale change_feed =
  fixes rev1 :: "'db \<Rightarrow> int"
    and entry :: "'db \<Rightarrow> string \<Rightarrow> (int \<times> AccountRecord) option"
    and scan :: "int \<Rightarrow> 'db \<Rightarrow> goerr + AccountChangeSet"
    and ok :: "'db \<Rightarrow> bool"
  assumes entry_finite: "ok db \<Longrightarrow> finite (dom (entry db))"
    and entry_bound: "ok db \<Longrightarrow> entry db t = Some (n, r) \<Longrightarrow> n \<le> rev1 db \<and> ar_token r = t"
    and scan_none: "ok db \<Longrightarrow> (\<And>t n r. entry db t = Some (n, r) \<Longrightarrow> n \<le> since) \<Longrightarrow>
      scan since db = Inr (changeRows [] (rev1 db) False)"
    and scan_some: "ok db \<Longrightarrow> entry db t0 = Some (n0, r0) \<Longrightarrow> since < n0 \<Longrightarrow>
      \<exists>cs. scan since db = Inr cs \<and> since < cs_revision cs \<and>
        (\<exists>t r. entry db t = Some (cs_revision cs, r)) \<and>
        (\<forall>t n r. entry db t = Some (n, r) \<longrightarrow> since < n \<longrightarrow> cs_revision cs \<le> n) \<and>
        set (cs_items cs) = {r. \<exists>t. entry db t = Some (cs_revision cs, r) \<and> \<not> IsDeleted r} \<and>
        set (cs_deletedTokens cs) = {t. \<exists>r. entry db t = Some (cs_revision cs, r) \<and> IsDeleted r} \<and>
        (cs_hasMore cs \<longleftrightarrow> cs_revision cs < rev1 db)"
begin

definition pending :: "'db \<Rightarrow> int \<Rightarrow> int set" where
  "pending db since = {n. since < n \<and> (\<exists>t r. entry db t = Some (n, r))}"

lemma pending_finite: "ok db \<Longrightarrow> finite (pending db since)"
proof -
  assume "ok db"
  have "pending db since \<subseteq> (\<lambda>t. fst (the (entry db t))) ` dom (entry db)"
    by (force simp: pending_def)
  then show ?thesis using entry_finite [OF \<open>ok db\<close>] finite_surj by blast
qed

lemma scan_total: "ok db \<Longrightarrow> \<exists>cs. scan since db = Inr cs"
  using scan_none scan_some by (metis not_le)

text \<open>Each scan makes progress: the revisions still to come shrink to those after the group returned.\<close>

lemma scan_progress:
  assumes "ok db" "scan since db = Inr cs" "pending db since \<noteq> {}"
  shows "pending db (cs_revision cs) \<subset> pending db since \<and>
    pending db since = insert (cs_revision cs) (pending db (cs_revision cs)) \<and> since < cs_revision cs"
proof -
  from assms(3) obtain n t r where "since < n" "entry db t = Some (n, r)"
    by (auto simp: pending_def)
  from scan_some [OF assms(1) this(2,1)] assms(2) have cs: "since < cs_revision cs"
    "\<exists>t r. entry db t = Some (cs_revision cs, r)"
    "\<And>t n r. entry db t = Some (n, r) \<Longrightarrow> since < n \<Longrightarrow> cs_revision cs \<le> n"
    by auto
  then have "pending db since = insert (cs_revision cs) (pending db (cs_revision cs))"
    by (force simp: pending_def)
  moreover have "cs_revision cs \<notin> pending db (cs_revision cs)" by (simp add: pending_def)
  ultimately show ?thesis using cs(1) by blast
qed

lemma scan_group:
  assumes "ok db" "scan since db = Inr cs" "pending db since \<noteq> {}"
  shows "set (cs_items cs) = {r. \<exists>t. entry db t = Some (cs_revision cs, r) \<and> \<not> IsDeleted r}"
    "set (cs_deletedTokens cs) = {t. \<exists>r. entry db t = Some (cs_revision cs, r) \<and> IsDeleted r}"
    "cs_hasMore cs \<longleftrightarrow> cs_revision cs < rev1 db"
  using assms scan_some by (fastforce simp: pending_def)+

lemma scan_caught_up:
  assumes "ok db" "pending db since = {}"
  shows "scan since db = Inr (changeRows [] (rev1 db) False)"
  using assms by (intro scan_none) (auto simp: pending_def not_less [symmetric])

end

definition entryOf :: "int \<Rightarrow> LocalDB \<Rightarrow> string \<Rightarrow> (int \<times> AccountRecord) option" where
  "entryOf now db t =
    (case findRow t (db_rows db) of
       None \<Rightarrow> None
     | Some row \<Rightarrow> (case toRecord now row of Inl _ \<Rightarrow> None | Inr r \<Rightarrow> Some (lr_revision row, r)))"

lemma findRow_Some:
  "findRow t rows = Some row \<Longrightarrow> row \<in> set rows \<and> lr_token row = t"
  by (induction rows) (auto split: if_splits)

lemma findRow_distinct:
  "distinct (map lr_token rows) \<Longrightarrow> row \<in> set rows \<Longrightarrow> findRow (lr_token row) rows = Some row"
  by (induction rows) (auto simp: rev_image_eqI)

lemma entryOf_iff:
  assumes "db_ok db"
  shows "entryOf now db t = Some (n, r) \<longleftrightarrow>
    (\<exists>row \<in> set (db_rows db). lr_token row = t \<and> lr_revision row = n \<and> toRecord now row = Inr r)"
  using assms findRow_distinct [of "db_rows db"]
  by (fastforce simp: entryOf_def db_ok_def db_inv_def dest: findRow_Some split: option.splits sum.splits)

lemma foldl_min: "foldl min v vs = Min (set (v # vs))" for v :: int
proof -
  have "(\<lambda>x s. min s x) = (min :: int \<Rightarrow> int \<Rightarrow> int)" by (auto simp: fun_eq_iff min.commute)
  then show ?thesis by (simp add: foldl_conv_fold Min.set_eq_fold del: list.set)
qed

lemma minRevisionAfter_cases:
  "minRevisionAfter since rows = (let R = {n \<in> lr_revision ` set rows. since < n}
     in if R = {} then None else Some (Min R))"
proof -
  have s: "set (filter (\<lambda>v. v > since) (map lr_revision rows)) = {n \<in> lr_revision ` set rows. since < n}"
    by auto
  show ?thesis
    by (cases "filter (\<lambda>v. v > since) (map lr_revision rows)")
      (use s in \<open>auto simp: minRevisionAfter_def foldl_min Let_def simp del: set_filter\<close>)
qed

lemma ScanChanges_group:
  assumes ok: "db_ok db" and row: "row0 \<in> set (db_rows db)" "since < lr_revision row0"
  shows "\<exists>cs n. ScanChanges now since db = Inr cs \<and> cs_revision cs = n \<and>
    n = Min {n \<in> lr_revision ` set (db_rows db). since < n} \<and>
    set (cs_items cs) = {r. \<exists>t. entryOf now db t = Some (n, r) \<and> \<not> IsDeleted r} \<and>
    set (cs_deletedTokens cs) = {t. \<exists>r. entryOf now db t = Some (n, r) \<and> IsDeleted r} \<and>
    (cs_hasMore cs \<longleftrightarrow> n < db_revision db)"
proof -
  define n where "n = Min {n \<in> lr_revision ` set (db_rows db). since < n}"
  have min: "minRevisionAfter since (db_rows db) = Some n"
    using row by (auto simp: minRevisionAfter_cases n_def Let_def)
  let ?grp = "sort_key lr_token (filter (\<lambda>r. lr_revision r = n) (db_rows db))"
  have "\<forall>r \<in> set ?grp. row_readable r" using ok by (auto simp: db_ok_def)
  then obtain rs where rs: "scanRows now ?grp = Inr rs" using scanRows_total by blast
  have set_rs: "set rs = {r. \<exists>row \<in> set (db_rows db). lr_revision row = n \<and> toRecord now row = Inr r}"
    using scanRows_set [OF rs] by auto
  have tok: "ar_token r = lr_token row" if "row \<in> set (db_rows db)" "toRecord now row = Inr r" for row r
    using ok that toRecord_token by (auto simp: db_ok_def)
  have "set (filter (\<lambda>r. \<not> IsDeleted r) rs) = {r. \<exists>t. entryOf now db t = Some (n, r) \<and> \<not> IsDeleted r}"
    by (auto simp: set_rs entryOf_iff [OF ok])
  moreover have "set (map ar_token (filter IsDeleted rs)) = {t. \<exists>r. entryOf now db t = Some (n, r) \<and> IsDeleted r}"
    by (fastforce simp: set_rs entryOf_iff [OF ok] image_iff dest: tok)
  ultimately show ?thesis
    using min rs by (auto simp: ScanChanges_def changeRows_def n_def [symmetric])
qed

interpretation local_feed: change_feed db_revision "entryOf now" "ScanChanges now" db_ok for now
proof
  fix db t n r since t0 n0 r0
  assume ok: "db_ok db"
  have "dom (entryOf now db) \<subseteq> set (map lr_token (db_rows db))"
    by (auto simp: entryOf_def dest!: findRow_Some split: option.splits)
  then show "finite (dom (entryOf now db))" by (rule finite_subset) simp
  show "n \<le> db_revision db \<and> ar_token r = t" if "entryOf now db t = Some (n, r)"
    using that ok toRecord_token by (auto simp: entryOf_iff [OF ok] db_ok_def db_inv_def)
  show "ScanChanges now since db = Inr (changeRows [] (db_revision db) False)"
    if old: "\<And>t n r. entryOf now db t = Some (n, r) \<Longrightarrow> n \<le> since"
  proof -
    have "lr_revision row \<le> since" if row: "row \<in> set (db_rows db)" for row
    proof -
      obtain r where "toRecord now row = Inr r"
        using ok row toRecord_readable by (metis db_ok_def)
      with row show ?thesis using old by (auto simp: entryOf_iff [OF ok])
    qed
    then have "minRevisionAfter since (db_rows db) = None"
      by (force simp: minRevisionAfter_cases Let_def)
    then show ?thesis by (simp add: ScanChanges_def)
  qed
  show "\<exists>cs. ScanChanges now since db = Inr cs \<and> since < cs_revision cs \<and>
        (\<exists>t r. entryOf now db t = Some (cs_revision cs, r)) \<and>
        (\<forall>t n r. entryOf now db t = Some (n, r) \<longrightarrow> since < n \<longrightarrow> cs_revision cs \<le> n) \<and>
        set (cs_items cs) = {r. \<exists>t. entryOf now db t = Some (cs_revision cs, r) \<and> \<not> IsDeleted r} \<and>
        set (cs_deletedTokens cs) = {t. \<exists>r. entryOf now db t = Some (cs_revision cs, r) \<and> IsDeleted r} \<and>
        (cs_hasMore cs \<longleftrightarrow> cs_revision cs < db_revision db)"
    if e: "entryOf now db t0 = Some (n0, r0)" "since < n0"
  proof -
    let ?R = "{n \<in> lr_revision ` set (db_rows db). since < n}"
    from e obtain row0 where row0: "row0 \<in> set (db_rows db)" "lr_revision row0 = n0"
      by (auto simp: entryOf_iff [OF ok])
    from ScanChanges_group [OF ok row0(1), of since now] e row0 obtain cs where cs:
      "ScanChanges now since db = Inr cs" "cs_revision cs = Min ?R"
      "set (cs_items cs) = {r. \<exists>t. entryOf now db t = Some (cs_revision cs, r) \<and> \<not> IsDeleted r}"
      "set (cs_deletedTokens cs) = {t. \<exists>r. entryOf now db t = Some (cs_revision cs, r) \<and> IsDeleted r}"
      "cs_hasMore cs \<longleftrightarrow> cs_revision cs < db_revision db"
      by auto
    have "Min ?R \<in> ?R" using row0 e by (intro Min_in) auto
    then obtain row where row: "row \<in> set (db_rows db)" "lr_revision row = Min ?R" "since < Min ?R" by auto
    moreover obtain r where "toRecord now row = Inr r"
      using ok row(1) toRecord_readable by (metis db_ok_def)
    ultimately have "\<exists>t r. entryOf now db t = Some (cs_revision cs, r)"
      by (auto simp: entryOf_iff [OF ok] cs(2))
    moreover have "cs_revision cs \<le> n" if "entryOf now db t = Some (n, r)" "since < n" for t n r
      unfolding cs(2) using that by (intro Min_le) (auto simp: entryOf_iff [OF ok])
    ultimately show ?thesis using cs row(3) by auto
  qed
qed

section \<open>Preservation of readability\<close>

lemma insertedRow_readable:
  assumes "normalizeLocalUpsert now item = Some (token, pool)" "\<not> hasPrefix token ''sso=''"
  shows "row_readable (insertedRow item token pool ts n)"
  using normalizeLocalUpsert_Some [OF assms(1)] assms(2)
  by (auto simp: row_readable_def normalizeRecordPool_def normalizeRecordStatus_def ParseAccountStatus_def pool_fixed)

lemma conflictRow_readable:
  "row_readable old \<Longrightarrow> row_readable new1 \<Longrightarrow> row_readable (conflictRow old new1)"
  by (auto simp: row_readable_def conflictRow_def normalizeRecordStatus_def ParseAccountStatus_def)

lemma upsertRow_readable:
  "\<forall>r \<in> set rows. row_readable r \<Longrightarrow> row_readable row \<Longrightarrow> \<forall>r \<in> set (upsertRow row rows). row_readable r"
  by (induction rows) (auto simp: conflictRow_readable)

lemma upsertLocalAccounts_readable:
  assumes "\<forall>r \<in> set rows. row_readable r"
    and "\<forall>item \<in> set items. \<forall>token pool. normalizeLocalUpsert ts item = Some (token, pool) \<longrightarrow>
      \<not> hasPrefix token ''sso=''"
  shows "\<forall>r \<in> set (snd (upsertLocalAccounts ts n items rows)). row_readable r"
  using assms
proof (induction items arbitrary: rows)
  case (Cons item items)
  show ?case
  proof (cases "normalizeLocalUpsert ts item")
    case (Some tp)
    obtain token pool where tp: "tp = (token, pool)" by (cases tp)
    with Cons.prems Some have "row_readable (insertedRow item token pool ts n)"
      by (auto intro: insertedRow_readable)
    with upsertRow_readable Cons.prems(1)
    have "\<forall>r \<in> set (upsertRow (insertedRow item token pool ts n) rows). row_readable r" by blast
    with Cons Some tp show ?thesis by (simp add: case_prod_unfold Let_def)
  qed (use Cons in simp)
qed simp

lemma updateWhere_readable:
  "\<forall>r \<in> set rows. row_readable r \<Longrightarrow> (\<And>r. row_readable r \<Longrightarrow> row_readable (f r)) \<Longrightarrow>
     \<forall>r \<in> set (updateWhere P f rows). row_readable r"
  by (auto simp: updateWhere_def)

lemma deleteRow_readable: "row_readable r \<Longrightarrow> row_readable (deleteRow ts n r)"
  by (simp add: row_readable_def deleteRow_def)

lemma deleteLocalAccounts_readable:
  "\<forall>r \<in> set rows. row_readable r \<Longrightarrow> \<forall>r \<in> set (snd (deleteLocalAccounts ts n tokens rows)). row_readable r"
proof (induction tokens arbitrary: rows)
  case (Cons token tokens)
  have "\<forall>r \<in> set (updateWhere P (deleteRow ts n) rows). row_readable r" for P
    using Cons.prems deleteRow_readable by (rule updateWhere_readable)
  from Cons.IH [OF this] show ?case by (simp add: Let_def case_prod_unfold)
qed simp

section \<open>The effect of a patch, column by column\<close>

lemma optSet_frame:
  "(\<And>x row. F (assignColumn (c x) row) = F row) \<Longrightarrow> F (applySets (optSet c v) row) = F row"
  by (cases v) (simp_all add: optSet_def)

lemmas optSet_frames = optSet_frame [where F = lr_pool] optSet_frame [where F = lr_status]
  optSet_frame [where F = lr_useCount] optSet_frame [where F = lr_failCount]
  optSet_frame [where F = lr_syncCount] optSet_frame [where F = lr_deletedAt]
  optSet_frame [where F = lr_lastFailAt] optSet_frame [where F = lr_lastFailReason]
  optSet_frame [where F = lr_stateReason] optSet_frame [where F = lr_ext]
  optSet_frame [where F = lr_quotaFast] optSet_frame [where F = lr_quotaConsole]
  optSet_frame [where F = lr_updatedAt]

lemma optSet_own:
  "lr_pool (applySets (optSet SetPool a) row) = (case a of None \<Rightarrow> lr_pool row | Some v \<Rightarrow> v)"
  "lr_status (applySets (optSet (SetStatus \<circ> g) b) row) = (case b of None \<Rightarrow> lr_status row | Some v \<Rightarrow> g v)"
  "lr_useCount (applySets (optSet (\<lambda>d. SetUseCount (h d)) e) row) = (case e of None \<Rightarrow> lr_useCount row | Some v \<Rightarrow> h v)"
  "lr_failCount (applySets (optSet (\<lambda>d. SetFailCount (h d)) e) row) = (case e of None \<Rightarrow> lr_failCount row | Some v \<Rightarrow> h v)"
  "lr_syncCount (applySets (optSet (\<lambda>d. SetSyncCount (h d)) e) row) = (case e of None \<Rightarrow> lr_syncCount row | Some v \<Rightarrow> h v)"
  "lr_lastFailAt (applySets (optSet (SetLastFailAt \<circ> k) e) row) = (case e of None \<Rightarrow> lr_lastFailAt row | Some v \<Rightarrow> k v)"
  "lr_stateReason (applySets (optSet (SetStateReason \<circ> l) s) row) = (case s of None \<Rightarrow> lr_stateReason row | Some v \<Rightarrow> l v)"
  "lr_lastFailReason (applySets (optSet (SetLastFailReason \<circ> l) s) row) =
     (case s of None \<Rightarrow> lr_lastFailReason row | Some v \<Rightarrow> l v)"
  by (simp_all add: optSet_def split: option.splits)

lemmas patch_columns = buildLocalPatchSets_def basicPatchSets_def timestampPatchSets_def usagePatchSets_def
  quotaPatchSets_def extPatchSets_def Let_def optSet_frames optSet_own

lemma patch_row:
  fixes r p ts n row
  defines "row' \<equiv> applySets (buildLocalPatchSets r p ts n) row"
  shows patch_pool: "lr_pool row' = (case pt_pool p of None \<Rightarrow> lr_pool row | Some v \<Rightarrow> v)"
    and patch_status: "lr_status row' = (if pt_clearFailures p then ''active''
      else case pt_status p of None \<Rightarrow> lr_status row | Some s \<Rightarrow> statusString s)"
    and patch_useCount: "lr_useCount row' =
      (case pt_useDelta p of None \<Rightarrow> lr_useCount row | Some d \<Rightarrow> max 0 (ar_useCount r + d))"
    and patch_failCount: "lr_failCount row' = (if pt_clearFailures p then 0
      else case pt_failDelta p of None \<Rightarrow> lr_failCount row | Some d \<Rightarrow> max 0 (ar_failCount r + d))"
    and patch_syncCount: "lr_syncCount row' =
      (case pt_syncDelta p of None \<Rightarrow> lr_syncCount row | Some d \<Rightarrow> max 0 (ar_syncCount r + d))"
    and patch_deletedAt: "lr_deletedAt row' = lr_deletedAt row"
    and patch_ext: "lr_ext row' = jsonStore ((if pt_clearFailures p then fold fmdrop failureExtKeys else id)
      (ar_ext r ++\<^sub>f pt_extMerge p))"
    and patch_fail: "pt_clearFailures p \<Longrightarrow>
      lr_lastFailAt row' = None \<and> lr_lastFailReason row' = None \<and> lr_stateReason row' = None"
  unfolding row'_def by (simp_all add: patch_columns split: option.split)

lemma patch_readable:
  assumes "row_readable row" "\<And>v. pt_pool p = Some v \<Longrightarrow> \<exists>q. normalizeRecordPool v = Inr q"
  shows "row_readable (applySets (buildLocalPatchSets r p ts n) row)"
proof -
  have status: "\<exists>s. normalizeRecordStatus (statusString st) = Inr s" for st
    by (cases st) (simp_all add: normalizeRecordStatus_def ParseAccountStatus_def)
  have "\<exists>s. normalizeRecordStatus ''active'' = Inr s" using status [of StActive] by simp
  with assms status show ?thesis
    by (auto simp: row_readable_def patch_pool patch_status split: option.split)
qed

end
