(* ===== verification/RuntimeTable.thy ===== *)
theory RuntimeTable
  imports AccountRepo
begin

text \<open>
  The runtime account table (\<open>app/dataplane/account/table.go\<close>, \<open>feedback.go\<close>,
  \<open>app/dataplane/shared/enums.go\<close>): a struct of parallel columns indexed by slot, with the
  availability index \<open>ModeAvailable\<close> and the tag index. The four families of six mode columns
  are records \<open>ModeCols\<close>; slot indexes are \<open>nat\<close> (the code gets them from \<open>IdxByToken\<close> and
  never outside the columns); a missing bucket of an index map is the empty bucket, as a nil map is
  in Go. Health is a \<open>float64\<close> (\<open>fl\<close> rounds each operation; no fused multiply-add).
\<close>

section \<open>Columns\<close>

definition StatusActive :: int where "StatusActive = 0"
definition StatusCooling :: int where "StatusCooling = 1"
definition StatusExpired :: int where "StatusExpired = 2"
definition StatusDisabled :: int where "StatusDisabled = 3"
definition StatusDeleted :: int where "StatusDeleted = 4"

lemmas status_ids = StatusActive_def StatusCooling_def StatusExpired_def StatusDisabled_def StatusDeleted_def

definition allModeIDs :: "int list" where
  "allModeIDs = [0, 1, 2, 3, 4, 5]"

definition isKnownModeID :: "int \<Rightarrow> bool" where
  "isKnownModeID modeID \<longleftrightarrow> modeID \<in> set allModeIDs"

record ModeVals =
  mv_auto :: int
  mv_fast :: int
  mv_expert :: int
  mv_heavy :: int
  mv_grok43 :: int
  mv_console :: int

record ModeCols =
  mc_auto :: "int list"
  mc_fast :: "int list"
  mc_expert :: "int list"
  mc_heavy :: "int list"
  mc_grok43 :: "int list"
  mc_console :: "int list"

text \<open>The \<open>switch\<close> shared by \<open>quotaCol\<close>, \<open>windowCol\<close>, \<open>totalCol\<close> and \<open>resetCol\<close>: any other mode
  id falls to the console column.\<close>

definition modeCol :: "ModeCols \<Rightarrow> int \<Rightarrow> int list" where
  "modeCol c modeID =
    (if modeID = 0 then mc_auto c else if modeID = 1 then mc_fast c
     else if modeID = 2 then mc_expert c else if modeID = 3 then mc_heavy c
     else if modeID = 4 then mc_grok43 c else mc_console c)"

definition setModeCol :: "ModeCols \<Rightarrow> int \<Rightarrow> nat \<Rightarrow> int \<Rightarrow> ModeCols" where
  "setModeCol c modeID idx v =
    (if modeID = 0 then c\<lparr>mc_auto := (mc_auto c)[idx := v]\<rparr>
     else if modeID = 1 then c\<lparr>mc_fast := (mc_fast c)[idx := v]\<rparr>
     else if modeID = 2 then c\<lparr>mc_expert := (mc_expert c)[idx := v]\<rparr>
     else if modeID = 3 then c\<lparr>mc_heavy := (mc_heavy c)[idx := v]\<rparr>
     else if modeID = 4 then c\<lparr>mc_grok43 := (mc_grok43 c)[idx := v]\<rparr>
     else c\<lparr>mc_console := (mc_console c)[idx := v]\<rparr>)"

definition emptyCols :: ModeCols where
  "emptyCols = \<lparr>mc_auto = [], mc_fast = [], mc_expert = [], mc_heavy = [], mc_grok43 = [], mc_console = []\<rparr>"

definition appendCols :: "(int \<Rightarrow> int) \<Rightarrow> ModeVals \<Rightarrow> ModeCols \<Rightarrow> ModeCols" where
  "appendCols f v c =
    \<lparr>mc_auto = mc_auto c @ [f (mv_auto v)], mc_fast = mc_fast c @ [f (mv_fast v)],
     mc_expert = mc_expert c @ [f (mv_expert v)], mc_heavy = mc_heavy c @ [f (mv_heavy v)],
     mc_grok43 = mc_grok43 c @ [f (mv_grok43 v)], mc_console = mc_console c @ [f (mv_console v)]\<rparr>"

definition updateCols :: "(int \<Rightarrow> int) \<Rightarrow> ModeVals \<Rightarrow> nat \<Rightarrow> ModeCols \<Rightarrow> ModeCols" where
  "updateCols f v idx c =
    \<lparr>mc_auto = (mc_auto c)[idx := f (mv_auto v)], mc_fast = (mc_fast c)[idx := f (mv_fast v)],
     mc_expert = (mc_expert c)[idx := f (mv_expert v)], mc_heavy = (mc_heavy c)[idx := f (mv_heavy v)],
     mc_grok43 = (mc_grok43 c)[idx := f (mv_grok43 v)], mc_console = (mc_console c)[idx := f (mv_console v)]\<rparr>"

definition modeVal :: "ModeVals \<Rightarrow> int \<Rightarrow> int" where
  "modeVal v modeID =
    (if modeID = 0 then mv_auto v else if modeID = 1 then mv_fast v
     else if modeID = 2 then mv_expert v else if modeID = 3 then mv_heavy v
     else if modeID = 4 then mv_grok43 v else mv_console v)"

section \<open>Index maps\<close>

type_synonym 'k buckets = "('k, nat set) fmap"

definition bucketOf :: "'k buckets \<Rightarrow> 'k \<Rightarrow> nat set" where
  "bucketOf m k = (case fmlookup m k of None \<Rightarrow> {} | Some s \<Rightarrow> s)"

definition bucketAdd :: "'k \<Rightarrow> nat \<Rightarrow> 'k buckets \<Rightarrow> 'k buckets" where
  "bucketAdd k idx m = fmupd k (insert idx (bucketOf m k)) m"

definition bucketDelete :: "'k \<Rightarrow> nat \<Rightarrow> 'k buckets \<Rightarrow> 'k buckets" where
  "bucketDelete k idx m =
    (case fmlookup m k of None \<Rightarrow> m | Some s \<Rightarrow> fmupd k (s - {idx}) m)"

section \<open>The table\<close>

record AccountSlot =
  sl_token :: string
  sl_pool :: int
  sl_status :: int
  sl_quota :: ModeVals
  sl_total :: ModeVals
  sl_window :: ModeVals
  sl_reset :: ModeVals
  sl_health :: rat
  sl_lastUse :: int
  sl_lastFail :: int
  sl_failCount :: int
  sl_tags :: "string list"

record AccountRuntimeTable =
  rt_tokens :: "string list"
  rt_idx :: "string \<rightharpoonup> nat"
  rt_pool :: "int list"
  rt_status :: "int list"
  rt_quota :: ModeCols
  rt_total :: ModeCols
  rt_window :: ModeCols
  rt_reset :: ModeCols
  rt_inflight :: "int list"
  rt_failCount :: "int list"
  rt_health :: "rat list"
  rt_lastUse :: "int list"
  rt_lastFail :: "int list"
  rt_coolingUntil :: "int list"
  rt_avail :: "(int \<times> int) buckets"
  rt_tags :: "string buckets"
  rt_revision :: int
  rt_size :: int

definition MakeEmptyTable :: AccountRuntimeTable where
  "MakeEmptyTable =
    \<lparr>rt_tokens = [], rt_idx = Map.empty, rt_pool = [], rt_status = [], rt_quota = emptyCols,
     rt_total = emptyCols, rt_window = emptyCols, rt_reset = emptyCols, rt_inflight = [],
     rt_failCount = [], rt_health = [], rt_lastUse = [], rt_lastFail = [], rt_coolingUntil = [],
     rt_avail = fmempty, rt_tags = fmempty, rt_revision = 0, rt_size = 0\<rparr>"

definition QuotaFor :: "AccountRuntimeTable \<Rightarrow> nat \<Rightarrow> int \<Rightarrow> int" where
  "QuotaFor t idx modeID = modeCol (rt_quota t) modeID ! idx"

definition TotalFor :: "AccountRuntimeTable \<Rightarrow> nat \<Rightarrow> int \<Rightarrow> int" where
  "TotalFor t idx modeID = modeCol (rt_total t) modeID ! idx"

definition WindowFor :: "AccountRuntimeTable \<Rightarrow> nat \<Rightarrow> int \<Rightarrow> int" where
  "WindowFor t idx modeID = modeCol (rt_window t) modeID ! idx"

definition ResetFor :: "AccountRuntimeTable \<Rightarrow> nat \<Rightarrow> int \<Rightarrow> int" where
  "ResetFor t idx modeID = modeCol (rt_reset t) modeID ! idx"

definition GetToken :: "AccountRuntimeTable \<Rightarrow> nat \<Rightarrow> string" where
  "GetToken t idx = rt_tokens t ! idx"

definition GetPoolID :: "AccountRuntimeTable \<Rightarrow> nat \<Rightarrow> int" where
  "GetPoolID t idx = rt_pool t ! idx"

definition IterLiveIndices :: "AccountRuntimeTable \<Rightarrow> nat list" where
  "IterLiveIndices t = filter (\<lambda>idx. rt_status t ! idx \<noteq> StatusDeleted) [0..<length (rt_tokens t)]"

definition clampQuota :: "int \<Rightarrow> int" where
  "clampQuota value = (if value < -1 then -1 else if value > 32767 then 32767 else value)"

definition clampTotal :: "int \<Rightarrow> int" where
  "clampTotal value = (if value < 0 then 0 else if value > 32767 then 32767 else value)"

definition clampNonNegative :: "int \<Rightarrow> int" where
  "clampNonNegative value = (if value < 0 then 0 else value)"

definition clampFailCount :: "int \<Rightarrow> int" where
  "clampFailCount value = (if value < 0 then 0 else if value > 65535 then 65535 else value)"

definition addModes :: "(int \<Rightarrow> bool) \<Rightarrow> int \<Rightarrow> nat \<Rightarrow> (int \<times> int) buckets \<Rightarrow> (int \<times> int) buckets" where
  "addModes P pool idx m = fold (\<lambda>mode m. if P mode then bucketAdd (pool, mode) idx m else m) allModeIDs m"

definition dropModes :: "int \<Rightarrow> nat \<Rightarrow> (int \<times> int) buckets \<Rightarrow> (int \<times> int) buckets" where
  "dropModes pool idx m = fold (\<lambda>mode. bucketDelete (pool, mode) idx) allModeIDs m"

definition addToIndexes :: "nat \<Rightarrow> AccountRuntimeTable \<Rightarrow> AccountRuntimeTable" where
  "addToIndexes idx t =
    (if rt_status t ! idx \<noteq> StatusActive then t
     else t\<lparr>rt_avail := addModes (\<lambda>mode. modeCol (rt_window t) mode ! idx > 0) (rt_pool t ! idx) idx (rt_avail t)\<rparr>)"

definition removeFromIndexes :: "nat \<Rightarrow> AccountRuntimeTable \<Rightarrow> AccountRuntimeTable" where
  "removeFromIndexes idx t = t\<lparr>rt_avail := dropModes (rt_pool t ! idx) idx (rt_avail t)\<rparr>"

definition removeFromTagIdx :: "nat \<Rightarrow> string list \<Rightarrow> AccountRuntimeTable \<Rightarrow> AccountRuntimeTable" where
  "removeFromTagIdx idx tags t = t\<lparr>rt_tags := fold (\<lambda>tag. bucketDelete tag idx) tags (rt_tags t)\<rparr>"

definition addToTagIdx :: "nat \<Rightarrow> string list \<Rightarrow> AccountRuntimeTable \<Rightarrow> AccountRuntimeTable" where
  "addToTagIdx idx tags t = t\<lparr>rt_tags := fold (\<lambda>tag. bucketAdd tag idx) tags (rt_tags t)\<rparr>"

definition appendRow :: "AccountSlot \<Rightarrow> AccountRuntimeTable \<Rightarrow> AccountRuntimeTable" where
  "appendRow slot t = t\<lparr>
     rt_tokens := rt_tokens t @ [sl_token slot],
     rt_idx := (rt_idx t)(sl_token slot \<mapsto> length (rt_tokens t)),
     rt_pool := rt_pool t @ [sl_pool slot],
     rt_status := rt_status t @ [sl_status slot],
     rt_quota := appendCols clampQuota (sl_quota slot) (rt_quota t),
     rt_total := appendCols clampTotal (sl_total slot) (rt_total t),
     rt_window := appendCols clampNonNegative (sl_window slot) (rt_window t),
     rt_reset := appendCols id (sl_reset slot) (rt_reset t),
     rt_inflight := rt_inflight t @ [0],
     rt_failCount := rt_failCount t @ [clampFailCount (sl_failCount slot)],
     rt_health := rt_health t @ [sl_health slot],
     rt_lastUse := rt_lastUse t @ [sl_lastUse slot],
     rt_lastFail := rt_lastFail t @ [sl_lastFail slot],
     rt_coolingUntil := rt_coolingUntil t @ [0],
     rt_size := rt_size t + 1\<rparr>"

definition AppendSlot :: "AccountSlot \<Rightarrow> AccountRuntimeTable \<Rightarrow> AccountRuntimeTable" where
  "AppendSlot slot t =
    (let idx = length (rt_tokens t)
     in addToTagIdx idx (sl_tags slot) (addToIndexes idx (appendRow slot t)))"

definition overwriteRow :: "nat \<Rightarrow> AccountSlot \<Rightarrow> AccountRuntimeTable \<Rightarrow> AccountRuntimeTable" where
  "overwriteRow idx slot t = t\<lparr>
     rt_pool := (rt_pool t)[idx := sl_pool slot],
     rt_status := (rt_status t)[idx := sl_status slot],
     rt_quota := updateCols clampQuota (sl_quota slot) idx (rt_quota t),
     rt_total := updateCols clampTotal (sl_total slot) idx (rt_total t),
     rt_window := updateCols clampNonNegative (sl_window slot) idx (rt_window t),
     rt_reset := updateCols id (sl_reset slot) idx (rt_reset t),
     rt_failCount := (rt_failCount t)[idx := clampFailCount (sl_failCount slot)],
     rt_lastUse := (rt_lastUse t)[idx := sl_lastUse slot],
     rt_lastFail := (rt_lastFail t)[idx := sl_lastFail slot]\<rparr>"

definition UpdateSlot :: "nat \<Rightarrow> AccountSlot \<Rightarrow> string list \<Rightarrow> AccountRuntimeTable \<Rightarrow> AccountRuntimeTable" where
  "UpdateSlot idx slot oldTags t =
    addToTagIdx idx (sl_tags slot) (addToIndexes idx
      (overwriteRow idx slot (removeFromTagIdx idx oldTags (removeFromIndexes idx t))))"

section \<open>Feedback on a slot\<close>

definition successStep :: rat where "successStep = fl (12 / 100)"
definition authFactor :: rat where "authFactor = fl (55 / 100)"
definition forbiddenFactor :: rat where "forbiddenFactor = fl (25 / 100)"
definition rateLimitFactor :: rat where "rateLimitFactor = fl (45 / 100)"
definition serverErrorFactor :: rat where "serverErrorFactor = fl (75 / 100)"
definition minHealth :: rat where "minHealth = fl (5 / 100)"
definition maxHealth :: rat where "maxHealth = 1"

definition bumpHealth :: "nat \<Rightarrow> AccountRuntimeTable \<Rightarrow> AccountRuntimeTable" where
  "bumpHealth idx t = t\<lparr>rt_health := (rt_health t)[idx := min maxHealth (fl (rt_health t ! idx + successStep))]\<rparr>"

definition adjustHealth :: "nat \<Rightarrow> rat \<Rightarrow> AccountRuntimeTable \<Rightarrow> AccountRuntimeTable" where
  "adjustHealth idx factor t =
    t\<lparr>rt_health := (rt_health t)[idx := max minHealth (fl (rt_health t ! idx * factor))]\<rparr>"

definition setQuota :: "int \<Rightarrow> nat \<Rightarrow> int \<Rightarrow> AccountRuntimeTable \<Rightarrow> AccountRuntimeTable" where
  "setQuota modeID idx v t = t\<lparr>rt_quota := setModeCol (rt_quota t) modeID idx v\<rparr>"

definition setReset :: "int \<Rightarrow> nat \<Rightarrow> int \<Rightarrow> AccountRuntimeTable \<Rightarrow> AccountRuntimeTable" where
  "setReset modeID idx v t = t\<lparr>rt_reset := setModeCol (rt_reset t) modeID idx v\<rparr>"

definition ApplySuccessQuota :: "nat \<Rightarrow> int \<Rightarrow> AccountRuntimeTable \<Rightarrow> AccountRuntimeTable" where
  "ApplySuccessQuota idx modeID t = bumpHealth idx (setQuota modeID idx (max 0 (QuotaFor t idx modeID - 1)) t)"

definition ApplySuccessRandom :: "nat \<Rightarrow> AccountRuntimeTable \<Rightarrow> AccountRuntimeTable" where
  "ApplySuccessRandom idx t = bumpHealth idx t"

definition ApplyRateLimitedQuota :: "nat \<Rightarrow> int \<Rightarrow> AccountRuntimeTable \<Rightarrow> AccountRuntimeTable" where
  "ApplyRateLimitedQuota idx modeID t =
    adjustHealth idx rateLimitFactor (if isKnownModeID modeID then setQuota modeID idx 0 t else t)"

definition ApplyRateLimitedRandom :: "nat \<Rightarrow> int \<Rightarrow> int \<Rightarrow> int \<Rightarrow> AccountRuntimeTable \<Rightarrow> AccountRuntimeTable" where
  "ApplyRateLimitedRandom idx modeID nowS coolingSec t =
    adjustHealth idx rateLimitFactor
     (if isKnownModeID modeID
      then let t1 = setQuota modeID idx 0 t; ts = nowS + max 0 coolingSec
           in if ts > ResetFor t1 idx modeID then setReset modeID idx ts t1 else t1
      else t)"

definition ApplyAuthFailure :: "nat \<Rightarrow> AccountRuntimeTable \<Rightarrow> AccountRuntimeTable" where
  "ApplyAuthFailure idx t = adjustHealth idx authFactor t"

definition ApplyForbidden :: "nat \<Rightarrow> AccountRuntimeTable \<Rightarrow> AccountRuntimeTable" where
  "ApplyForbidden idx t = adjustHealth idx forbiddenFactor t"

definition ApplyServerError :: "nat \<Rightarrow> AccountRuntimeTable \<Rightarrow> AccountRuntimeTable" where
  "ApplyServerError idx t = adjustHealth idx serverErrorFactor t"

definition ApplyStatusChange :: "nat \<Rightarrow> int \<Rightarrow> AccountRuntimeTable \<Rightarrow> AccountRuntimeTable" where
  "ApplyStatusChange idx newStatusID t =
    (if rt_status t ! idx = newStatusID then t
     else let pool = rt_pool t ! idx; t1 = t\<lparr>rt_status := (rt_status t)[idx := newStatusID]\<rparr>
          in if newStatusID \<noteq> StatusActive
             then t1\<lparr>rt_avail := dropModes pool idx (rt_avail t1)\<rparr>
             else t1\<lparr>rt_avail := addModes (\<lambda>mode. modeCol (rt_quota t1) mode ! idx > 0) pool idx (rt_avail t1)\<rparr>)"

definition ApplyQuotaUpdate :: "nat \<Rightarrow> int \<Rightarrow> int \<Rightarrow> int \<Rightarrow> AccountRuntimeTable \<Rightarrow> AccountRuntimeTable" where
  "ApplyQuotaUpdate idx modeID remaining resetS t =
    (let t1 = setReset modeID idx resetS (setQuota modeID idx (clampInt remaining 0 32767) t)
     in if rt_status t1 ! idx = StatusActive \<and> modeCol (rt_window t1) modeID ! idx > 0
        then t1\<lparr>rt_avail := bucketAdd (rt_pool t1 ! idx, modeID) idx (rt_avail t1)\<rparr> else t1)"

definition IncrementInflight :: "nat \<Rightarrow> AccountRuntimeTable \<Rightarrow> AccountRuntimeTable" where
  "IncrementInflight idx t = t\<lparr>rt_inflight := (rt_inflight t)[idx := min (rt_inflight t ! idx + 1) 65535]\<rparr>"

definition DecrementInflight :: "nat \<Rightarrow> AccountRuntimeTable \<Rightarrow> AccountRuntimeTable" where
  "DecrementInflight idx t = t\<lparr>rt_inflight := (rt_inflight t)[idx := max 0 (rt_inflight t ! idx - 1)]\<rparr>"

definition UpdateLastUse :: "nat \<Rightarrow> int \<Rightarrow> AccountRuntimeTable \<Rightarrow> AccountRuntimeTable" where
  "UpdateLastUse idx nowS t = t\<lparr>rt_lastUse := (rt_lastUse t)[idx := nowS]\<rparr>"

definition UpdateLastFail :: "nat \<Rightarrow> int \<Rightarrow> AccountRuntimeTable \<Rightarrow> AccountRuntimeTable" where
  "UpdateLastFail idx nowS t =
    t\<lparr>rt_lastFail := (rt_lastFail t)[idx := nowS],
      rt_failCount := (rt_failCount t)[idx := min (rt_failCount t ! idx + 1) 65535]\<rparr>"

definition markDeleted :: "nat \<Rightarrow> AccountRuntimeTable \<Rightarrow> AccountRuntimeTable" where
  "markDeleted idx t =
    (let t1 = removeFromIndexes idx t;
         t2 = t1\<lparr>rt_status := (rt_status t1)[idx := StatusDeleted]\<rparr>
     in if rt_size t2 > 0 then t2\<lparr>rt_size := rt_size t2 - 1\<rparr> else t2)"

section \<open>Column and bucket lemmas\<close>

definition canonMode :: "int \<Rightarrow> int" where
  "canonMode m = (if m \<in> {0, 1, 2, 3, 4} then m else 5)"

lemma modeCol_set [table_simps]:
  "modeCol (setModeCol c m i v) m' = (if canonMode m = canonMode m' then (modeCol c m')[i := v] else modeCol c m')"
  by (simp add: modeCol_def setModeCol_def canonMode_def)

lemma modeCol_append [table_simps]: "modeCol (appendCols f v c) m = modeCol c m @ [f (modeVal v m)]"
  by (simp add: modeCol_def appendCols_def modeVal_def)

lemma modeCol_update [table_simps]: "modeCol (updateCols f v i c) m = (modeCol c m)[i := f (modeVal v m)]"
  by (simp add: modeCol_def updateCols_def modeVal_def)

lemma modeCol_empty [table_simps]: "modeCol emptyCols m = []"
  by (simp add: modeCol_def emptyCols_def)

lemma bucketOf_empty [simp]: "bucketOf fmempty k = {}"
  by (simp add: bucketOf_def)

lemma bucketOf_add [simp]: "bucketOf (bucketAdd k i m) k' = (if k = k' then insert i (bucketOf m k') else bucketOf m k')"
  by (simp add: bucketOf_def bucketAdd_def)

lemma bucketOf_delete [simp]: "bucketOf (bucketDelete k i m) k' = (if k = k' then bucketOf m k' - {i} else bucketOf m k')"
  by (simp add: bucketOf_def bucketDelete_def split: option.split)

lemma known_modes: "isKnownModeID m \<longleftrightarrow> m = 0 \<or> m = 1 \<or> m = 2 \<or> m = 3 \<or> m = 4 \<or> m = 5"
  by (simp add: isKnownModeID_def allModeIDs_def)

lemma bucketOf_addModes [simp]:
  "bucketOf (addModes P pool idx m) (p, mode) =
    (if p = pool \<and> isKnownModeID mode \<and> P mode then insert idx (bucketOf m (p, mode)) else bucketOf m (p, mode))"
proof -
  have "bucketOf (fold (\<lambda>mode m. if P mode then bucketAdd (pool, mode) idx m else m) ms m) (p, mode) =
      (if p = pool \<and> mode \<in> set ms \<and> P mode then insert idx (bucketOf m (p, mode)) else bucketOf m (p, mode))" for ms
    by (induction ms arbitrary: m) auto
  then show ?thesis by (simp add: addModes_def isKnownModeID_def)
qed

lemma bucketOf_dropModes [simp]:
  "bucketOf (dropModes pool idx m) (p, mode) =
    (if p = pool \<and> isKnownModeID mode then bucketOf m (p, mode) - {idx} else bucketOf m (p, mode))"
proof -
  have "bucketOf (fold (\<lambda>mode. bucketDelete (pool, mode) idx) ms m) (p, mode) =
      (if p = pool \<and> mode \<in> set ms then bucketOf m (p, mode) - {idx} else bucketOf m (p, mode))" for ms
    by (induction ms arbitrary: m) auto
  then show ?thesis by (simp add: dropModes_def isKnownModeID_def)
qed

lemma bucketOf_fold_add:
  "bucketOf (fold (\<lambda>tag. bucketAdd tag idx) tags m) tag =
    (if tag \<in> set tags then insert idx (bucketOf m tag) else bucketOf m tag)"
  by (induction tags arbitrary: m) auto

lemma bucketOf_fold_delete:
  "bucketOf (fold (\<lambda>tag. bucketDelete tag idx) tags m) tag =
    (if tag \<in> set tags then bucketOf m tag - {idx} else bucketOf m tag)"
  by (induction tags arbitrary: m) auto

section \<open>Invariant\<close>

definition columns_ok :: "AccountRuntimeTable \<Rightarrow> bool" where
  "columns_ok t \<longleftrightarrow> (let n = length (rt_tokens t) in
     length (rt_pool t) = n \<and> length (rt_status t) = n \<and> length (rt_inflight t) = n \<and>
     length (rt_failCount t) = n \<and> length (rt_health t) = n \<and> length (rt_lastUse t) = n \<and>
     length (rt_lastFail t) = n \<and> length (rt_coolingUntil t) = n \<and>
     (\<forall>m. length (modeCol (rt_quota t) m) = n \<and> length (modeCol (rt_total t) m) = n \<and>
        length (modeCol (rt_window t) m) = n \<and> length (modeCol (rt_reset t) m) = n))"

definition index_ok :: "AccountRuntimeTable \<Rightarrow> bool" where
  "index_ok t \<longleftrightarrow> (\<forall>tok i. rt_idx t tok = Some i \<longleftrightarrow> i < length (rt_tokens t) \<and> rt_tokens t ! i = tok)"

text \<open>What \<open>ModeAvailable\<close> has to hold for a pool and a mode.\<close>

definition availableSet :: "AccountRuntimeTable \<Rightarrow> int \<Rightarrow> int \<Rightarrow> nat set" where
  "availableSet t p m = {i. i < length (rt_tokens t) \<and> isKnownModeID m \<and> rt_pool t ! i = p \<and>
     rt_status t ! i = StatusActive \<and> modeCol (rt_window t) m ! i > 0}"

definition avail_ok :: "AccountRuntimeTable \<Rightarrow> bool" where
  "avail_ok t \<longleftrightarrow> (\<forall>p m. bucketOf (rt_avail t) (p, m) = availableSet t p m)"

definition ranges_ok :: "AccountRuntimeTable \<Rightarrow> bool" where
  "ranges_ok t \<longleftrightarrow> (\<forall>i < length (rt_tokens t).
     0 \<le> rt_inflight t ! i \<and> rt_inflight t ! i \<le> 65535 \<and> 0 \<le> rt_failCount t ! i \<and> rt_failCount t ! i \<le> 65535 \<and>
     minHealth \<le> rt_health t ! i \<and> rt_health t ! i \<le> 1 \<and>
     (\<forall>m. -1 \<le> modeCol (rt_quota t) m ! i \<and> modeCol (rt_quota t) m ! i \<le> 32767 \<and>
        0 \<le> modeCol (rt_total t) m ! i \<and> modeCol (rt_total t) m ! i \<le> 32767))"

definition table_ok :: "AccountRuntimeTable \<Rightarrow> bool" where
  "table_ok t \<longleftrightarrow> columns_ok t \<and> index_ok t \<and> avail_ok t \<and> ranges_ok t \<and>
     (\<forall>tag. bucketOf (rt_tags t) tag \<subseteq> {..<length (rt_tokens t)})"

text \<open>What is left of it when \<open>ModeAvailable\<close> is not exact: it names slots that exist and, under a known mode, active
  slots of the pool.\<close>

definition avail_sound :: "AccountRuntimeTable \<Rightarrow> bool" where
  "avail_sound t \<longleftrightarrow> (\<forall>p m. \<forall>i \<in> bucketOf (rt_avail t) (p, m). i < length (rt_tokens t) \<and>
     (isKnownModeID m \<longrightarrow> rt_pool t ! i = p \<and> rt_status t ! i = StatusActive))"

definition table_sound :: "AccountRuntimeTable \<Rightarrow> bool" where
  "table_sound t \<longleftrightarrow> columns_ok t \<and> index_ok t \<and> avail_sound t \<and> ranges_ok t \<and>
     (\<forall>tag. bucketOf (rt_tags t) tag \<subseteq> {..<length (rt_tokens t)})"

lemma table_ok_sound: "table_ok t \<Longrightarrow> table_sound t"
  by (auto simp: table_ok_def table_sound_def avail_ok_def avail_sound_def availableSet_def)

lemma table_sound_ok: "table_ok t \<longleftrightarrow> table_sound t \<and> avail_ok t"
  using table_ok_sound by (auto simp: table_ok_def table_sound_def)

lemma fl_simps: "minHealth \<le> 1" "0 \<le> minHealth" "0 \<le> successStep"
    "authFactor \<le> 1" "forbiddenFactor \<le> 1" "rateLimitFactor \<le> 1" "serverErrorFactor \<le> 1"
    "0 \<le> authFactor" "0 \<le> forbiddenFactor" "0 \<le> rateLimitFactor" "0 \<le> serverErrorFactor"
proof -
  have 1: "fl x \<le> 1" if "x \<le> 1" for x using fl_mono [OF that] fl_of_int [of 1] by simp
  have 0: "0 \<le> fl x" if "0 \<le> x" for x using fl_mono [OF that] by (simp add: fl_def)
  show "minHealth \<le> 1" "0 \<le> minHealth" "0 \<le> successStep"
    "authFactor \<le> 1" "forbiddenFactor \<le> 1" "rateLimitFactor \<le> 1" "serverErrorFactor \<le> 1"
    "0 \<le> authFactor" "0 \<le> forbiddenFactor" "0 \<le> rateLimitFactor" "0 \<le> serverErrorFactor"
    by (simp_all add: minHealth_def successStep_def authFactor_def forbiddenFactor_def rateLimitFactor_def
        serverErrorFactor_def 0 1)
qed

lemma fexp_unique:
  assumes "2 powi k \<le> x" "x < 2 powi (k + 1)"
  shows "fexp x = k"
proof -
  have x: "0 < x" using assms(1) by (rule less_le_trans [rotated]) simp
  have lt: "a \<le> b" if "(2::rat) powi a < 2 powi (b + 1)" for a b :: int
    using that power_int_increasing [of "b + 1" a "2::rat"] by (cases "a \<le> b") auto
  have "fexp x \<le> k" using fexp_bounds(1) [OF x] assms(2) by (intro lt) linarith
  moreover have "k \<le> fexp x" using fexp_bounds(2) [OF x] assms(1) by (intro lt) linarith
  ultimately show ?thesis by simp
qed

lemma fl_sixteenth: "fl (1 / 16) = 1 / 16"
proof -
  have "fexp (1 / 16) = -4"
    by (rule fexp_unique) (simp_all add: power_int_def eval_nat_numeral)
  moreover have "(1 / 16 :: rat) / 2 powi (-56) = of_int 4503599627370496"
    by (simp add: power_int_def power_one_over)
  then have "roundEven ((1 / 16 :: rat) / 2 powi (-56)) = 4503599627370496"
    by (simp only: roundEven_of_int)
  ultimately have "flPos (1 / 16) = of_int 4503599627370496 * 2 powi (-56)"
    by (simp add: flPos_def Let_def)
  then show ?thesis by (simp add: fl_def power_int_def power_one_over)
qed

lemma successStep_bound: "1 / 16 \<le> successStep"
  using fl_mono [of "1 / 16" "12 / 100"] by (simp add: successStep_def fl_sixteenth)

lemma bumped_health: "0 \<le> h \<Longrightarrow> minHealth \<le> fl (h + successStep)"
  unfolding minHealth_def using successStep_bound by (intro fl_mono) linarith

lemma lowered_health:
  assumes "0 \<le> h" "h \<le> 1" "0 \<le> f" "f \<le> 1"
  shows "fl (h * f) \<le> 1"
proof -
  have "h * f \<le> 1" using assms by (simp add: mult_le_one)
  then show ?thesis using fl_mono [of "h * f" 1] fl_of_int [of 1] by simp
qed

lemma nth_upd: "xs[i := x] ! j = (if i = j \<and> j < length xs then x else xs ! j)"
  by (cases "i < length xs") (auto simp: nth_list_update list_update_beyond)

section \<open>Every operation preserves the invariant\<close>

named_theorems slot_ops "definitions of the operations on one slot"

lemmas [slot_ops] = ApplySuccessQuota_def ApplySuccessRandom_def ApplyRateLimitedQuota_def
  ApplyRateLimitedRandom_def ApplyAuthFailure_def ApplyForbidden_def ApplyServerError_def
  IncrementInflight_def DecrementInflight_def UpdateLastUse_def UpdateLastFail_def
  setQuota_def setReset_def bumpHealth_def adjustHealth_def

text \<open>Operations on the counters, the health and the quota of one slot: they keep every column
  length and leave tokens, pools, statuses, windows and indexes alone.\<close>

definition same_shape :: "AccountRuntimeTable \<Rightarrow> AccountRuntimeTable \<Rightarrow> bool" where
  "same_shape t t' \<longleftrightarrow> rt_tokens t' = rt_tokens t \<and> rt_idx t' = rt_idx t \<and> rt_pool t' = rt_pool t \<and>
     rt_status t' = rt_status t \<and> rt_window t' = rt_window t \<and> rt_total t' = rt_total t \<and>
     rt_avail t' = rt_avail t \<and> rt_tags t' = rt_tags t \<and>
     length (rt_inflight t') = length (rt_inflight t) \<and> length (rt_failCount t') = length (rt_failCount t) \<and>
     length (rt_health t') = length (rt_health t) \<and> length (rt_lastUse t') = length (rt_lastUse t) \<and>
     length (rt_lastFail t') = length (rt_lastFail t) \<and>
     length (rt_coolingUntil t') = length (rt_coolingUntil t) \<and>
     (\<forall>m. length (modeCol (rt_quota t') m) = length (modeCol (rt_quota t) m) \<and>
        length (modeCol (rt_reset t') m) = length (modeCol (rt_reset t) m))"

lemma same_shape_sound:
  "table_sound t \<Longrightarrow> same_shape t t' \<Longrightarrow> ranges_ok t' \<Longrightarrow> table_sound t'"
  by (simp add: table_sound_def same_shape_def columns_ok_def index_ok_def avail_sound_def Let_def)

lemma same_shape_avail: "same_shape t t' \<Longrightarrow> avail_ok t' = avail_ok t"
  by (simp add: same_shape_def avail_ok_def availableSet_def)

lemma slot_shape:
  "same_shape t (ApplySuccessQuota i m t)" "same_shape t (ApplySuccessRandom i t)"
  "same_shape t (ApplyRateLimitedQuota i m t)" "same_shape t (ApplyRateLimitedRandom i m n c t)"
  "same_shape t (ApplyAuthFailure i t)" "same_shape t (ApplyForbidden i t)" "same_shape t (ApplyServerError i t)"
  "same_shape t (IncrementInflight i t)" "same_shape t (DecrementInflight i t)"
  "same_shape t (UpdateLastUse i n t)" "same_shape t (UpdateLastFail i n t)"
  "same_shape t (setReset m i r (setQuota m i v t))"
  by (simp_all add: same_shape_def slot_ops table_simps Let_def)

lemma ranges_slot:
  assumes "columns_ok t" "ranges_ok t"
  shows "ranges_ok (bumpHealth i t)" "0 \<le> f \<Longrightarrow> f \<le> 1 \<Longrightarrow> ranges_ok (adjustHealth i f t)"
    "-1 \<le> v \<Longrightarrow> v \<le> 32767 \<Longrightarrow> ranges_ok (setQuota m i v t)" "ranges_ok (setReset m i r t)"
    "ranges_ok (IncrementInflight i t)" "ranges_ok (DecrementInflight i t)"
    "ranges_ok (UpdateLastUse i n t)" "ranges_ok (UpdateLastFail i n t)"
proof -
  have h: "minHealth \<le> rt_health t ! j" "rt_health t ! j \<le> 1" "0 \<le> rt_health t ! j" if "j < length (rt_tokens t)" for j
    using assms(2) that fl_simps(2) by (auto simp: ranges_ok_def intro: order_trans)
  have len: "length (rt_health t) = length (rt_tokens t)" "length (rt_inflight t) = length (rt_tokens t)"
    "length (rt_failCount t) = length (rt_tokens t)" "length (modeCol (rt_quota t) m') = length (rt_tokens t)" for m'
    using assms(1) by (auto simp: columns_ok_def Let_def)
  show "ranges_ok (bumpHealth i t)"
    using assms(2) h bumped_health fl_simps(1)
    by (auto simp: ranges_ok_def bumpHealth_def maxHealth_def nth_upd len)
  show "ranges_ok (adjustHealth i f t)" if "0 \<le> f" "f \<le> 1"
    using assms(2) h lowered_health that fl_simps(1)
    by (auto simp: ranges_ok_def adjustHealth_def nth_upd len)
  show "ranges_ok (setQuota m i v t)" if "-1 \<le> v" "v \<le> 32767"
    using assms(2) that by (auto simp: ranges_ok_def setQuota_def table_simps nth_upd len)
  show "ranges_ok (setReset m i r t)" "ranges_ok (UpdateLastUse i n t)"
    using assms(2) by (auto simp: ranges_ok_def setReset_def UpdateLastUse_def)
  show "ranges_ok (IncrementInflight i t)" "ranges_ok (DecrementInflight i t)" "ranges_ok (UpdateLastFail i n t)"
    using assms(2)
    by (auto simp: ranges_ok_def IncrementInflight_def DecrementInflight_def UpdateLastFail_def nth_upd len)
qed

lemma ranges_shape: "same_shape t t' \<Longrightarrow> columns_ok t \<Longrightarrow> columns_ok t'"
  by (simp add: same_shape_def columns_ok_def Let_def)

lemma setQuota_shape: "same_shape t (setQuota m i v t)" "same_shape t (setReset m i v t)"
  by (simp_all add: same_shape_def setQuota_def setReset_def table_simps)

lemma slot_ranges:
  assumes "columns_ok t" "ranges_ok t" "i < length (rt_tokens t)"
  shows "ranges_ok (ApplySuccessQuota i m t)" "ranges_ok (ApplySuccessRandom i t)"
    "ranges_ok (ApplyRateLimitedQuota i m t)" "ranges_ok (ApplyRateLimitedRandom i m n c t)"
    "ranges_ok (ApplyAuthFailure i t)" "ranges_ok (ApplyForbidden i t)" "ranges_ok (ApplyServerError i t)"
    "ranges_ok (IncrementInflight i t)" "ranges_ok (DecrementInflight i t)"
    "ranges_ok (UpdateLastUse i n t)" "ranges_ok (UpdateLastFail i n t)"
    "-1 \<le> v \<Longrightarrow> v \<le> 32767 \<Longrightarrow> ranges_ok (setReset m i r (setQuota m i v t))"
proof -
  note c = assms(1) and r = assms(2)
  have q: "columns_ok (setQuota m i v t)" for v using ranges_shape [OF setQuota_shape(1) c] .
  have quota: "QuotaFor t i m \<le> 32767"
    using r assms(3) by (auto simp: ranges_ok_def QuotaFor_def)
  have factors: "0 \<le> authFactor" "authFactor \<le> 1" "0 \<le> forbiddenFactor" "forbiddenFactor \<le> 1"
    "0 \<le> rateLimitFactor" "rateLimitFactor \<le> 1" "0 \<le> serverErrorFactor" "serverErrorFactor \<le> 1"
    by (rule fl_simps)+
  show "ranges_ok (ApplySuccessQuota i m t)"
    using ranges_slot(1) [OF q ranges_slot(3) [OF c r]] quota by (simp add: ApplySuccessQuota_def)
  show "ranges_ok (ApplySuccessRandom i t)"
    using ranges_slot(1) [OF c r] by (simp add: ApplySuccessRandom_def)
  show "ranges_ok (ApplyRateLimitedQuota i m t)"
    using ranges_slot(2) [OF q ranges_slot(3) [OF c r]] ranges_slot(2) [OF c r] factors
    by (simp add: ApplyRateLimitedQuota_def)
  have zero: "ranges_ok (setQuota m i 0 t)" using ranges_slot(3) [OF c r] by simp
  show "ranges_ok (ApplyRateLimitedRandom i m n c t)"
    using ranges_slot(2) [OF ranges_shape [OF setQuota_shape(2) q] ranges_slot(4) [OF q zero]]
      ranges_slot(2) [OF q zero] ranges_slot(2) [OF c r] factors
    by (simp add: ApplyRateLimitedRandom_def Let_def)
  show "ranges_ok (ApplyAuthFailure i t)" "ranges_ok (ApplyForbidden i t)" "ranges_ok (ApplyServerError i t)"
    using ranges_slot(2) [OF c r] factors
    by (simp_all add: ApplyAuthFailure_def ApplyForbidden_def ApplyServerError_def)
  show "ranges_ok (IncrementInflight i t)" "ranges_ok (DecrementInflight i t)"
    "ranges_ok (UpdateLastUse i n t)" "ranges_ok (UpdateLastFail i n t)"
    using ranges_slot(5-8) [OF c r] by auto
  show "ranges_ok (setReset m i r (setQuota m i v t))" if "-1 \<le> v" "v \<le> 32767" for r
    using ranges_slot(4) [OF q ranges_slot(3) [OF c \<open>ranges_ok t\<close> that]] .
qed

lemma slot_sound:
  assumes "table_sound t" "i < length (rt_tokens t)"
  shows "table_sound (ApplySuccessQuota i m t)" "table_sound (ApplySuccessRandom i t)"
    "table_sound (ApplyRateLimitedQuota i m t)" "table_sound (ApplyRateLimitedRandom i m n c t)"
    "table_sound (ApplyAuthFailure i t)" "table_sound (ApplyForbidden i t)" "table_sound (ApplyServerError i t)"
    "table_sound (IncrementInflight i t)" "table_sound (DecrementInflight i t)"
    "table_sound (UpdateLastUse i n t)" "table_sound (UpdateLastFail i n t)"
    "-1 \<le> v \<Longrightarrow> v \<le> 32767 \<Longrightarrow> table_sound (setReset m i r (setQuota m i v t))"
proof -
  have "columns_ok t" "ranges_ok t" using assms(1) by (simp_all add: table_sound_def)
  note ranges = slot_ranges [OF this assms(2)]
  show "table_sound (ApplySuccessQuota i m t)" "table_sound (ApplySuccessRandom i t)"
    "table_sound (ApplyRateLimitedQuota i m t)" "table_sound (ApplyRateLimitedRandom i m n c t)"
    "table_sound (ApplyAuthFailure i t)" "table_sound (ApplyForbidden i t)" "table_sound (ApplyServerError i t)"
    "table_sound (IncrementInflight i t)" "table_sound (DecrementInflight i t)"
    "table_sound (UpdateLastUse i n t)" "table_sound (UpdateLastFail i n t)"
    "-1 \<le> v \<Longrightarrow> v \<le> 32767 \<Longrightarrow> table_sound (setReset m i r (setQuota m i v t))"
    by (rule same_shape_sound [OF assms(1) slot_shape(1) ranges(1)] same_shape_sound [OF assms(1) slot_shape(2) ranges(2)]
        same_shape_sound [OF assms(1) slot_shape(3) ranges(3)] same_shape_sound [OF assms(1) slot_shape(4) ranges(4)]
        same_shape_sound [OF assms(1) slot_shape(5) ranges(5)] same_shape_sound [OF assms(1) slot_shape(6) ranges(6)]
        same_shape_sound [OF assms(1) slot_shape(7) ranges(7)] same_shape_sound [OF assms(1) slot_shape(8) ranges(8)]
        same_shape_sound [OF assms(1) slot_shape(9) ranges(9)] same_shape_sound [OF assms(1) slot_shape(10) ranges(10)]
        same_shape_sound [OF assms(1) slot_shape(11) ranges(11)] same_shape_sound [OF assms(1) slot_shape(12) ranges(12)]; assumption)+
qed

lemma slot_ok:
  assumes "table_ok t" "i < length (rt_tokens t)"
  shows "table_ok (ApplySuccessQuota i m t)" "table_ok (ApplySuccessRandom i t)"
    "table_ok (ApplyRateLimitedQuota i m t)" "table_ok (ApplyRateLimitedRandom i m n c t)"
    "table_ok (ApplyAuthFailure i t)" "table_ok (ApplyForbidden i t)" "table_ok (ApplyServerError i t)"
    "table_ok (IncrementInflight i t)" "table_ok (DecrementInflight i t)"
    "table_ok (UpdateLastUse i n t)" "table_ok (UpdateLastFail i n t)"
    "-1 \<le> v \<Longrightarrow> v \<le> 32767 \<Longrightarrow> table_ok (setReset m i r (setQuota m i v t))"
  using slot_sound [OF table_ok_sound [OF assms(1)] assms(2)] same_shape_avail [OF slot_shape(1)]
    same_shape_avail [OF slot_shape(2)] same_shape_avail [OF slot_shape(3)] same_shape_avail [OF slot_shape(4)]
    same_shape_avail [OF slot_shape(5)] same_shape_avail [OF slot_shape(6)] same_shape_avail [OF slot_shape(7)]
    same_shape_avail [OF slot_shape(8)] same_shape_avail [OF slot_shape(9)] same_shape_avail [OF slot_shape(10)]
    same_shape_avail [OF slot_shape(11)] same_shape_avail [OF slot_shape(12)] assms(1)
  by (simp_all add: table_sound_ok)

lemma bucketOf_tags [simp]: "rt_tags (addToIndexes i t) = rt_tags t" "rt_tags (overwriteRow i s t) = rt_tags t"
  "rt_tags (removeFromIndexes i t) = rt_tags t" "rt_tags (appendRow s t) = rt_tags t"
  by (simp_all add: addToIndexes_def overwriteRow_def removeFromIndexes_def appendRow_def)

lemma addToIndexes_frame [simp]:
  "rt_tokens (addToIndexes i t) = rt_tokens t" "rt_pool (addToIndexes i t) = rt_pool t"
  "rt_status (addToIndexes i t) = rt_status t" "rt_window (addToIndexes i t) = rt_window t"
  "columns_ok (addToIndexes i t) = columns_ok t" "index_ok (addToIndexes i t) = index_ok t"
  "ranges_ok (addToIndexes i t) = ranges_ok t"
  by (simp_all add: addToIndexes_def columns_ok_def index_ok_def ranges_ok_def)

lemma tagIdx_frame [simp]:
  "columns_ok (addToTagIdx i tags t) = columns_ok t" "index_ok (addToTagIdx i tags t) = index_ok t"
  "ranges_ok (addToTagIdx i tags t) = ranges_ok t" "avail_ok (addToTagIdx i tags t) = avail_ok t"
  "rt_tokens (addToTagIdx i tags t) = rt_tokens t" "avail_sound (addToTagIdx i tags t) = avail_sound t"
  by (simp_all add: addToTagIdx_def columns_ok_def index_ok_def ranges_ok_def avail_ok_def avail_sound_def availableSet_def)

lemma addToIndexes_avail:
  "bucketOf (rt_avail (addToIndexes i t)) (p, m) =
    (if rt_status t ! i = StatusActive \<and> p = rt_pool t ! i \<and> isKnownModeID m \<and> modeCol (rt_window t) m ! i > 0
     then insert i (bucketOf (rt_avail t) (p, m)) else bucketOf (rt_avail t) (p, m))"
  by (simp add: addToIndexes_def)

lemma AppendSlot_sound:
  assumes "table_sound t" "sl_token slot \<notin> dom (rt_idx t)" "minHealth \<le> sl_health slot" "sl_health slot \<le> 1"
  shows "table_sound (AppendSlot slot t)"
proof -
  let ?n = "length (rt_tokens t)" and ?t' = "appendRow slot t"
  have len: "length (rt_pool t) = ?n" "length (rt_status t) = ?n" "length (rt_inflight t) = ?n"
    "length (rt_failCount t) = ?n" "length (rt_health t) = ?n"
    "length (modeCol (rt_quota t) m) = ?n" "length (modeCol (rt_total t) m) = ?n"
    "length (modeCol (rt_window t) m) = ?n" for m
    using assms(1) by (auto simp: table_sound_def columns_ok_def Let_def)
  have cols: "columns_ok ?t'"
    using assms(1) by (simp add: table_sound_def columns_ok_def appendRow_def table_simps Let_def)
  have idx: "index_ok ?t'"
    using assms(1,2) by (auto simp: table_sound_def index_ok_def appendRow_def nth_append less_Suc_eq dom_def)
  have rng: "ranges_ok ?t'"
    using assms(1,3,4)
    by (auto simp: table_sound_def ranges_ok_def appendRow_def table_simps nth_append less_Suc_eq len
        clampQuota_def clampTotal_def clampFailCount_def)
  have avail: "avail_sound (addToIndexes ?n ?t')"
    using assms(1) unfolding table_sound_def avail_sound_def addToIndexes_avail
    by (auto simp: appendRow_def nth_append less_Suc_eq len split: if_splits)
  have "bucketOf (rt_tags t) tag \<subseteq> {..<Suc ?n}" for tag
    using assms(1) by (fastforce simp: table_sound_def)
  then have "bucketOf (rt_tags (addToTagIdx ?n (sl_tags slot) (addToIndexes ?n ?t'))) tag \<subseteq> {..<Suc ?n}" for tag
    by (simp add: addToTagIdx_def bucketOf_fold_add)
  moreover have "length (rt_tokens ?t') = Suc ?n" by (simp add: appendRow_def)
  ultimately show ?thesis
    using cols idx rng avail by (simp add: AppendSlot_def table_sound_def Let_def)
qed

lemma AppendSlot_ok:
  assumes "table_ok t" "sl_token slot \<notin> dom (rt_idx t)" "minHealth \<le> sl_health slot" "sl_health slot \<le> 1"
  shows "table_ok (AppendSlot slot t)"
proof -
  let ?n = "length (rt_tokens t)" and ?t' = "appendRow slot t"
  have len: "length (rt_pool t) = ?n" "length (rt_status t) = ?n" "length (modeCol (rt_window t) m) = ?n" for m
    using assms(1) by (auto simp: table_ok_def columns_ok_def Let_def)
  have "avail_ok (addToIndexes ?n ?t')"
    using assms(1) unfolding table_ok_def avail_ok_def addToIndexes_avail availableSet_def
    by (auto simp: appendRow_def table_simps nth_append less_Suc_eq len)
  with AppendSlot_sound [OF table_ok_sound [OF assms(1)] assms(2-4)] show ?thesis
    by (simp add: table_sound_ok AppendSlot_def Let_def)
qed

lemma UpdateSlot_sound:
  assumes "table_sound t" "i < length (rt_tokens t)"
  shows "table_sound (UpdateSlot i slot oldTags t)"
proof -
  let ?t0 = "removeFromTagIdx i oldTags (removeFromIndexes i t)"
  let ?t' = "overwriteRow i slot ?t0"
  have len: "length (rt_pool t) = length (rt_tokens t)" "length (rt_status t) = length (rt_tokens t)"
    "length (rt_inflight t) = length (rt_tokens t)" "length (rt_failCount t) = length (rt_tokens t)"
    "length (modeCol (rt_quota t) m) = length (rt_tokens t)" "length (modeCol (rt_total t) m) = length (rt_tokens t)"
    "length (modeCol (rt_window t) m) = length (rt_tokens t)" for m
    using assms(1) by (auto simp: table_sound_def columns_ok_def Let_def)
  note defs = overwriteRow_def removeFromTagIdx_def removeFromIndexes_def
  have cols: "columns_ok ?t'"
    using assms(1) by (simp add: table_sound_def columns_ok_def defs table_simps Let_def)
  have idx: "index_ok ?t'"
    using assms(1) by (simp add: table_sound_def index_ok_def defs)
  have rng: "ranges_ok ?t'"
    using assms(1)
    by (auto simp: table_sound_def ranges_ok_def defs table_simps nth_upd len
        clampQuota_def clampTotal_def clampFailCount_def)
  have avail: "avail_sound (addToIndexes i ?t')"
    using assms unfolding table_sound_def avail_sound_def addToIndexes_avail
    by (auto simp: defs nth_upd len split: if_splits)
  have "bucketOf (rt_tags ?t0) tag \<subseteq> {..<length (rt_tokens t)}" for tag
    using assms(1) by (auto simp: table_sound_def defs bucketOf_fold_delete)
  moreover have "rt_tokens ?t' = rt_tokens t" by (simp add: defs)
  ultimately show ?thesis
    using assms(2) cols idx rng avail
    by (auto simp: UpdateSlot_def table_sound_def) (auto simp: addToTagIdx_def bucketOf_fold_add split: if_splits)
qed

lemma UpdateSlot_ok:
  assumes "table_ok t" "i < length (rt_tokens t)"
  shows "table_ok (UpdateSlot i slot oldTags t)"
proof -
  let ?t' = "overwriteRow i slot (removeFromTagIdx i oldTags (removeFromIndexes i t))"
  have len: "length (rt_pool t) = length (rt_tokens t)" "length (rt_status t) = length (rt_tokens t)"
    "length (modeCol (rt_window t) m) = length (rt_tokens t)" for m
    using assms(1) by (auto simp: table_ok_def columns_ok_def Let_def)
  have "avail_ok (addToIndexes i ?t')"
    using assms unfolding table_ok_def avail_ok_def addToIndexes_avail availableSet_def
    by (auto simp: overwriteRow_def removeFromTagIdx_def removeFromIndexes_def table_simps nth_upd len split: if_splits)
  with UpdateSlot_sound [OF table_ok_sound [OF assms(1)] assms(2)] show ?thesis
    by (simp add: table_sound_ok UpdateSlot_def)
qed

lemma status_drop_sound:
  assumes "table_sound t" "s \<noteq> StatusActive"
  shows "table_sound (t\<lparr>rt_status := (rt_status t)[i := s], rt_avail := dropModes (rt_pool t ! i) i (rt_avail t)\<rparr>)"
proof -
  have len: "length (rt_status t) = length (rt_tokens t)"
    using assms(1) by (auto simp: table_sound_def columns_ok_def Let_def)
  let ?t' = "t\<lparr>rt_status := (rt_status t)[i := s], rt_avail := dropModes (rt_pool t ! i) i (rt_avail t)\<rparr>"
  have "avail_sound ?t'"
    using assms unfolding table_sound_def avail_sound_def
    by (auto simp: nth_upd len split: if_splits)
  then show ?thesis
    using assms(1) by (simp add: table_sound_def columns_ok_def index_ok_def ranges_ok_def Let_def)
qed

lemma status_drop_ok:
  assumes "table_ok t" "s \<noteq> StatusActive"
  shows "table_ok (t\<lparr>rt_status := (rt_status t)[i := s], rt_avail := dropModes (rt_pool t ! i) i (rt_avail t)\<rparr>)"
proof -
  have len: "length (rt_status t) = length (rt_tokens t)"
    using assms(1) by (auto simp: table_ok_def columns_ok_def Let_def)
  let ?t' = "t\<lparr>rt_status := (rt_status t)[i := s], rt_avail := dropModes (rt_pool t ! i) i (rt_avail t)\<rparr>"
  have "avail_ok ?t'"
    using assms unfolding table_ok_def avail_ok_def availableSet_def
    by (auto simp: nth_upd len split: if_splits)
  with status_drop_sound [OF table_ok_sound [OF assms(1)] assms(2)] show ?thesis by (simp add: table_sound_ok)
qed

lemma size_irrelevant [simp]: "table_ok (t\<lparr>rt_size := n\<rparr>) = table_ok t" "table_ok (t\<lparr>rt_revision := k\<rparr>) = table_ok t"
  "table_sound (t\<lparr>rt_size := n\<rparr>) = table_sound t" "table_sound (t\<lparr>rt_revision := k\<rparr>) = table_sound t"
  by (simp_all add: table_sound_def avail_sound_def table_ok_def columns_ok_def index_ok_def ranges_ok_def avail_ok_def availableSet_def)

lemma drop_order: "t\<lparr>rt_avail := a, rt_status := s\<rparr> = t\<lparr>rt_status := s, rt_avail := a\<rparr>"
  by simp

lemma markDeleted_ok: "table_ok t \<Longrightarrow> table_ok (markDeleted i t)"
  using status_drop_ok [of t StatusDeleted i]
  by (simp add: markDeleted_def removeFromIndexes_def Let_def StatusDeleted_def StatusActive_def drop_order)

lemma markDeleted_sound: "table_sound t \<Longrightarrow> table_sound (markDeleted i t)"
  using status_drop_sound [of t StatusDeleted i]
  by (simp add: markDeleted_def removeFromIndexes_def Let_def StatusDeleted_def StatusActive_def drop_order)

lemma ApplyStatusChange_ok:
  "table_ok t \<Longrightarrow> s \<noteq> StatusActive \<Longrightarrow> table_ok (ApplyStatusChange i s t)"
  using status_drop_ok [of t s i] by (simp add: ApplyStatusChange_def Let_def)

text \<open>Activation indexes a slot under the modes with quota left, where the other operations look at the window.\<close>

lemma ApplyStatusChange_sound:
  assumes "table_sound t" "i < length (rt_tokens t)"
  shows "table_sound (ApplyStatusChange i s t)"
proof (cases "s = StatusActive \<and> rt_status t ! i \<noteq> s")
  case True
  let ?t1 = "t\<lparr>rt_status := (rt_status t)[i := s]\<rparr>"
  let ?t' = "?t1\<lparr>rt_avail := addModes (\<lambda>mode. modeCol (rt_quota ?t1) mode ! i > 0) (rt_pool t ! i) i (rt_avail ?t1)\<rparr>"
  have len: "length (rt_status t) = length (rt_tokens t)"
    using assms(1) by (auto simp: table_sound_def columns_ok_def Let_def)
  have "avail_sound ?t'"
    using assms True unfolding table_sound_def avail_sound_def by (auto simp: nth_upd len split: if_splits)
  then have "table_sound ?t'"
    using assms(1) by (simp add: table_sound_def columns_ok_def index_ok_def ranges_ok_def Let_def)
  with True show ?thesis by (simp add: ApplyStatusChange_def Let_def)
next
  case False
  then show ?thesis using status_drop_sound [OF assms(1), of s i] assms(1) by (auto simp: ApplyStatusChange_def Let_def)
qed

lemma ApplyQuotaUpdate_sound:
  assumes "table_sound t" "i < length (rt_tokens t)"
  shows "table_sound (ApplyQuotaUpdate i m v r t)"
proof -
  let ?t1 = "setReset m i r (setQuota m i (clampInt v 0 32767) t)"
  have ok: "table_sound ?t1" using assms by (intro slot_sound(12)) (simp_all add: clampInt_def)
  have "i < length (rt_tokens ?t1)" using assms(2) by (simp add: setQuota_def setReset_def)
  then have "table_sound (?t1\<lparr>rt_avail := bucketAdd (rt_pool ?t1 ! i, m) i (rt_avail ?t1)\<rparr>)"
    if "rt_status ?t1 ! i = StatusActive"
    using ok that by (auto simp: table_sound_def columns_ok_def index_ok_def ranges_ok_def avail_sound_def)
  with ok show ?thesis by (simp add: ApplyQuotaUpdate_def Let_def)
qed

lemma ApplyQuotaUpdate_ok:
  assumes "table_ok t" "i < length (rt_tokens t)" "isKnownModeID m"
  shows "table_ok (ApplyQuotaUpdate i m v r t)"
proof -
  let ?t1 = "setReset m i r (setQuota m i (clampInt v 0 32767) t)"
  have ok: "table_ok ?t1" using assms by (intro slot_ok(12)) (simp_all add: clampInt_def)
  have "i < length (rt_tokens ?t1)" using assms(2) by (simp add: setQuota_def setReset_def)
  then have "avail_ok (ApplyQuotaUpdate i m v r t)"
    using ok assms(3) by (auto simp: ApplyQuotaUpdate_def Let_def table_ok_def avail_ok_def availableSet_def)
  with ApplyQuotaUpdate_sound [OF table_ok_sound [OF assms(1)] assms(2)] show ?thesis by (simp add: table_sound_ok)
qed

lemma empty_ok: "table_ok MakeEmptyTable"
  by (simp add: table_ok_def MakeEmptyTable_def columns_ok_def index_ok_def ranges_ok_def avail_ok_def
      availableSet_def table_simps)

section \<open>Operations as steps\<close>

text \<open>The operations on slots that exist. The flag marks the uses the directory makes of them: it changes a status to
  another one than active and updates the quota of a known mode.\<close>

inductive table_step :: "bool \<Rightarrow> AccountRuntimeTable \<Rightarrow> AccountRuntimeTable \<Rightarrow> bool" for directory where
  append: "sl_token slot \<notin> dom (rt_idx t) \<Longrightarrow> minHealth \<le> sl_health slot \<Longrightarrow> sl_health slot \<le> 1 \<Longrightarrow>
    table_step directory t (AppendSlot slot t)"
| update: "i < length (rt_tokens t) \<Longrightarrow> table_step directory t (UpdateSlot i slot oldTags t)"
| deleted: "i < length (rt_tokens t) \<Longrightarrow> table_step directory t (markDeleted i t)"
| success_quota: "i < length (rt_tokens t) \<Longrightarrow> table_step directory t (ApplySuccessQuota i m t)"
| success_random: "i < length (rt_tokens t) \<Longrightarrow> table_step directory t (ApplySuccessRandom i t)"
| limited_quota: "i < length (rt_tokens t) \<Longrightarrow> table_step directory t (ApplyRateLimitedQuota i m t)"
| limited_random: "i < length (rt_tokens t) \<Longrightarrow> table_step directory t (ApplyRateLimitedRandom i m n c t)"
| auth: "i < length (rt_tokens t) \<Longrightarrow> table_step directory t (ApplyAuthFailure i t)"
| forbidden: "i < length (rt_tokens t) \<Longrightarrow> table_step directory t (ApplyForbidden i t)"
| server: "i < length (rt_tokens t) \<Longrightarrow> table_step directory t (ApplyServerError i t)"
| status: "i < length (rt_tokens t) \<Longrightarrow> directory \<longrightarrow> s \<noteq> StatusActive \<Longrightarrow> table_step directory t (ApplyStatusChange i s t)"
| quota: "i < length (rt_tokens t) \<Longrightarrow> directory \<longrightarrow> isKnownModeID m \<Longrightarrow> table_step directory t (ApplyQuotaUpdate i m v r t)"
| inc: "i < length (rt_tokens t) \<Longrightarrow> table_step directory t (IncrementInflight i t)"
| dec: "i < length (rt_tokens t) \<Longrightarrow> table_step directory t (DecrementInflight i t)"
| last_use: "i < length (rt_tokens t) \<Longrightarrow> table_step directory t (UpdateLastUse i n t)"
| last_fail: "i < length (rt_tokens t) \<Longrightarrow> table_step directory t (UpdateLastFail i n t)"
| reset: "i < length (rt_tokens t) \<Longrightarrow> 0 \<le> v \<Longrightarrow> v \<le> 32767 \<Longrightarrow>
    table_step directory t (setReset m i r (setQuota m i v t))"
| revision: "table_step directory t (t\<lparr>rt_revision := k\<rparr>)"

inductive_cases table_stepE: "table_step directory t t'"

lemma table_step_ok: "table_step True t t' \<Longrightarrow> table_ok t \<Longrightarrow> table_ok t'"
  by (induction rule: table_step.induct)
    (auto intro: AppendSlot_ok UpdateSlot_ok markDeleted_ok ApplyStatusChange_ok ApplyQuotaUpdate_ok slot_ok)

lemma table_step_sound: "table_step directory t t' \<Longrightarrow> table_sound t \<Longrightarrow> table_sound t'"
  by (induction rule: table_step.induct)
    (auto intro: AppendSlot_sound UpdateSlot_sound markDeleted_sound ApplyStatusChange_sound ApplyQuotaUpdate_sound slot_sound)

lemma IterLive_card:
  "length (IterLiveIndices t) = card {i. i < length (rt_tokens t) \<and> rt_status t ! i \<noteq> StatusDeleted}"
proof -
  have "set (IterLiveIndices t) = {i. i < length (rt_tokens t) \<and> rt_status t ! i \<noteq> StatusDeleted}"
    by (auto simp: IterLiveIndices_def)
  moreover have "distinct (IterLiveIndices t)" by (simp add: IterLiveIndices_def)
  ultimately show ?thesis by (metis distinct_card)
qed

section \<open>Properties\<close>

text \<open>When activating a slot keeps the index exact.\<close>

lemma reactivated_exact:
  assumes "table_ok t" "i < length (rt_tokens t)" "rt_status t ! i \<noteq> StatusActive"
  shows "table_ok (ApplyStatusChange i StatusActive t) \<longleftrightarrow>
    (\<forall>m \<in> set allModeIDs. 0 < QuotaFor t i m \<longleftrightarrow> 0 < WindowFor t i m)"
proof -
  let ?t' = "ApplyStatusChange i StatusActive t"
  have len: "length (rt_status t) = length (rt_tokens t)"
    using assms(1) by (auto simp: table_ok_def columns_ok_def Let_def)
  have avail: "bucketOf (rt_avail ?t') (p, m) = (if p = rt_pool t ! i \<and> isKnownModeID m \<and> 0 < QuotaFor t i m
      then insert i (availableSet t p m) else availableSet t p m)" for p m
    using assms(1,3) by (auto simp: ApplyStatusChange_def Let_def table_ok_def avail_ok_def QuotaFor_def)
  have set1: "availableSet ?t' p m = (if p = rt_pool t ! i \<and> isKnownModeID m \<and> 0 < WindowFor t i m
      then insert i (availableSet t p m) else availableSet t p m)" for p m
    using assms(2,3) by (auto simp: availableSet_def ApplyStatusChange_def Let_def WindowFor_def nth_upd len split: if_splits)
  have out: "i \<notin> availableSet t p m" for p m using assms(3) by (simp add: availableSet_def)
  have "avail_ok ?t' \<longleftrightarrow> (\<forall>p m. p = rt_pool t ! i \<and> isKnownModeID m \<longrightarrow> (0 < QuotaFor t i m \<longleftrightarrow> 0 < WindowFor t i m))"
    unfolding avail_ok_def avail set1
    by (rule all_cong1 [OF all_cong1]) (use out insert_eq_iff in \<open>auto simp: set_eq_iff split: if_splits\<close>)
  then show ?thesis
    using ApplyStatusChange_sound [OF table_ok_sound [OF assms(1)] assms(2)] by (auto simp: table_sound_ok isKnownModeID_def)
qed

text \<open>C21. Every table the operations can build, in whatever order they are called on slots that exist: the columns have
  one length, the token index is a bijection onto the slots, counters, quotas and health stay in their ranges, and
  \<open>ModeAvailable\<close> names under a known mode only active slots of its pool. When the operations are used the way the
  directory uses them, it holds for each pool and mode exactly the active slots of that pool whose window for the mode is
  positive. One use the directory does not make breaks exactness: activating a slot keeps it if and only if the slot has
  quota left for just the modes it has a window for.\<close>

theorem table_invariant:
  assumes "(table_step directory)\<^sup>*\<^sup>* MakeEmptyTable t"
  shows "table_sound t \<and> (directory \<longrightarrow> table_ok t) \<and>
    (\<forall>i. directory \<longrightarrow> i < length (rt_tokens t) \<longrightarrow> rt_status t ! i \<noteq> StatusActive \<longrightarrow>
      (table_ok (ApplyStatusChange i StatusActive t) \<longleftrightarrow>
        (\<forall>m \<in> set allModeIDs. 0 < QuotaFor t i m \<longleftrightarrow> 0 < WindowFor t i m)))"
proof -
  have "table_sound t \<and> (directory \<longrightarrow> table_ok t)"
    using assms
  proof (induction rule: rtranclp_induct)
    case base
    show ?case using empty_ok table_ok_sound by blast
  next
    case (step y z)
    then show ?case using table_step_ok table_step_sound by (cases directory) auto
  qed
  then show ?thesis using reactivated_exact by blast
qed

definition sampleVals :: ModeVals where
  "sampleVals = \<lparr>mv_auto = 0, mv_fast = 30, mv_expert = 0, mv_heavy = -1, mv_grok43 = -1, mv_console = 20\<rparr>"

definition sampleSlot :: "string \<Rightarrow> AccountSlot" where
  "sampleSlot token = \<lparr>sl_token = token, sl_pool = 0, sl_status = 0, sl_quota = sampleVals, sl_total = sampleVals,
     sl_window = sampleVals, sl_reset = sampleVals, sl_health = 1, sl_lastUse = 0, sl_lastFail = 0,
     sl_failCount = 0, sl_tags = []\<rparr>"

definition sampleTable :: AccountRuntimeTable where
  "sampleTable = AppendSlot (sampleSlot ''b'') (AppendSlot (sampleSlot ''a'') MakeEmptyTable)"

lemma sampleTable_reach: "(table_step True)\<^sup>*\<^sup>* MakeEmptyTable sampleTable"
proof -
  have "table_step True MakeEmptyTable (AppendSlot (sampleSlot ''a'') MakeEmptyTable)"
    using fl_simps(1) by (intro table_step.append) (simp_all add: MakeEmptyTable_def sampleSlot_def)
  moreover have "table_step True (AppendSlot (sampleSlot ''a'') MakeEmptyTable) sampleTable"
    unfolding sampleTable_def using fl_simps(1)
    by (intro table_step.append)
      (simp_all add: MakeEmptyTable_def sampleSlot_def AppendSlot_def appendRow_def addToIndexes_def addToTagIdx_def Let_def)
  ultimately show ?thesis by (meson rtranclp.rtrancl_refl rtranclp.rtrancl_into_rtrancl)
qed

lemma sampleTable_simps:
  "rt_tokens sampleTable = [''a'', ''b'']" "rt_status sampleTable = [0, 0]" "rt_pool sampleTable = [0, 0]"
  "rt_size sampleTable = 2" "rt_inflight sampleTable = [0, 0]" "rt_coolingUntil sampleTable = [0, 0]"
  "rt_quota sampleTable = appendCols clampQuota sampleVals (appendCols clampQuota sampleVals emptyCols)"
  "rt_window sampleTable = appendCols clampNonNegative sampleVals (appendCols clampNonNegative sampleVals emptyCols)"
  "rt_idx sampleTable = [''a'' \<mapsto> 0, ''b'' \<mapsto> 1]"
  by (simp_all add: sampleTable_def AppendSlot_def addToTagIdx_def addToIndexes_def appendRow_def sampleSlot_def
      MakeEmptyTable_def Let_def)

theorem table_invariant_witness:
  "table_ok sampleTable \<and> bucketOf (rt_avail sampleTable) (0, 1) = {0, 1} \<and> bucketOf (rt_avail sampleTable) (0, 0) = {}"
proof -
  have ok: "table_ok sampleTable" using table_invariant [OF sampleTable_reach] by simp
  then have "bucketOf (rt_avail sampleTable) (0, m) = availableSet sampleTable 0 m" for m
    by (simp add: table_ok_def avail_ok_def)
  moreover have "modeCol (rt_window sampleTable) 1 = [30, 30]" "modeCol (rt_window sampleTable) 0 = [0, 0]"
    by (simp_all add: sampleTable_simps table_simps modeVal_def sampleVals_def clampNonNegative_def)
  then have "availableSet sampleTable 0 1 = {0, 1}" "availableSet sampleTable 0 0 = {}"
    by (auto simp: availableSet_def sampleTable_simps known_modes StatusActive_def less_2_cases_iff)
  ultimately show ?thesis using ok by simp
qed

text \<open>The counter \<open>Size\<close> drifts from the number of live slots: deleting a slot that is already
  deleted lowers it again, and bringing a deleted token back with \<open>UpdateSlot\<close> does not raise it.\<close>

theorem size_drift:
  assumes "table_ok t" "i < length (rt_tokens t)" "rt_status t ! i \<noteq> StatusDeleted"
    and "rt_size t = int (length (IterLiveIndices t))" "2 \<le> rt_size t" "sl_status slot = StatusActive"
  shows "rt_size (markDeleted i t) = int (length (IterLiveIndices (markDeleted i t))) \<and>
    rt_size (markDeleted i (markDeleted i t)) = int (length (IterLiveIndices (markDeleted i (markDeleted i t)))) - 1 \<and>
    rt_size (UpdateSlot i slot old (markDeleted i t)) =
      int (length (IterLiveIndices (UpdateSlot i slot old (markDeleted i t)))) - 1"
proof -
  let ?t1 = "markDeleted i t" and ?live = "\<lambda>t. {i. i < length (rt_tokens t) \<and> rt_status t ! i \<noteq> StatusDeleted}"
  have len: "length (rt_status t) = length (rt_tokens t)"
    using assms(1) by (auto simp: table_ok_def columns_ok_def Let_def)
  have mark: "rt_tokens (markDeleted i u) = rt_tokens u"
    "rt_status (markDeleted i u) = (rt_status u)[i := StatusDeleted]"
    "0 < rt_size u \<Longrightarrow> rt_size (markDeleted i u) = rt_size u - 1" for u
    by (simp_all add: markDeleted_def removeFromIndexes_def Let_def)
  have upd: "rt_tokens (UpdateSlot i slot old u) = rt_tokens u" "rt_size (UpdateSlot i slot old u) = rt_size u"
    "rt_status (UpdateSlot i slot old u) = (rt_status u)[i := StatusActive]" for u
    using assms(6)
    by (simp_all add: UpdateSlot_def overwriteRow_def removeFromIndexes_def removeFromTagIdx_def
        addToIndexes_def addToTagIdx_def)
  have l1: "?live ?t1 = ?live t - {i}" "?live (markDeleted i ?t1) = ?live t - {i}"
    "?live (UpdateSlot i slot old ?t1) = ?live t"
    using len assms(2,3) by (auto simp: mark upd nth_upd status_ids)
  have "card (?live t - {i}) = card (?live t) - 1" using assms(2,3) by simp
  moreover have "2 \<le> card (?live t)" using assms(4,5) by (simp add: IterLive_card)
  ultimately have live: "int (length (IterLiveIndices ?t1)) = rt_size t - 1"
    "int (length (IterLiveIndices (markDeleted i ?t1))) = rt_size t - 1"
    "int (length (IterLiveIndices (UpdateSlot i slot old ?t1))) = rt_size t"
    using assms(4) unfolding IterLive_card l1 by auto
  show ?thesis using assms(5) unfolding live upd by (simp add: mark)
qed

theorem size_drift_witness:
  "rt_size (markDeleted 0 (markDeleted 0 sampleTable)) = 0 \<and>
   IterLiveIndices (markDeleted 0 (markDeleted 0 sampleTable)) = [1]"
proof -
  have ok: "table_ok sampleTable"
    using sampleTable_reach by (induction rule: rtranclp_induct) (auto intro: empty_ok table_step_ok)
  have live: "IterLiveIndices sampleTable = [0, 1]"
    by (simp add: IterLiveIndices_def sampleTable_simps status_ids)
  have after: "IterLiveIndices (markDeleted 0 (markDeleted 0 sampleTable)) = [1]"
    by (simp add: IterLiveIndices_def markDeleted_def removeFromIndexes_def sampleTable_simps status_ids Let_def)
  from size_drift [OF ok, of 0 "sampleSlot ''a''" "[]"] show ?thesis
    by (simp add: live after sampleTable_simps sampleSlot_def status_ids)
qed

end
