(* ===== verification/Selector.thy ===== *)
theory Selector
  imports RuntimeTable
begin

text \<open>
  Account selection (\<open>app/dataplane/account/selector.go\<close>, \<open>selection_status.go\<close>): the quota
  strategy (best score), the random strategy, window resets of the basic pool, and the counts that
  classify a failed reservation. Go ranges over a map in any order: \<open>iter\<close> gives the order, and
  \<open>iterates\<close> is all that is assumed of it; \<open>pick n\<close> is \<open>rand.Intn(n)\<close>. A nil set of slots is
  \<open>{}\<close>. Scores are \<open>float64\<close> computations.
\<close>

section \<open>Parameters\<close>

type_synonym iteration = "nat set \<Rightarrow> nat list"

definition iterates :: "iteration \<Rightarrow> bool" where
  "iterates iter \<longleftrightarrow> (\<forall>S. finite S \<longrightarrow> set (iter S) = S \<and> distinct (iter S))"

definition picks :: "(nat \<Rightarrow> nat) \<Rightarrow> bool" where
  "picks pick \<longleftrightarrow> (\<forall>n > 0. pick n < n)"

record SelectOptions =
  so_exclude :: "nat set"
  so_prefer :: "nat set"
  so_nowS :: int
  so_maxInflight :: int

definition strategyQuota :: string where "strategyQuota = ''quota''"
definition strategyRandom :: string where "strategyRandom = ''random''"
definition defaultMaxInflight :: int where "defaultMaxInflight = 8"
definition recentWindowS :: int where "recentWindowS = 15"

definition SetStrategy :: "string \<Rightarrow> string \<Rightarrow> goerr + string" where
  "SetStrategy current name =
    (if name \<noteq> strategyQuota \<and> name \<noteq> strategyRandom then Inl (ErrStrategy name) else Inr name)"

section \<open>Candidates\<close>

definition effectiveMaxInflight :: "SelectOptions \<Rightarrow> int" where
  "effectiveMaxInflight o1 = (if so_maxInflight o1 \<le> 0 then defaultMaxInflight else so_maxInflight o1)"

definition poolUnion :: "AccountRuntimeTable \<Rightarrow> int \<Rightarrow> nat set" where
  "poolUnion t pool = \<Union> (bucketOf (rt_avail t) ` {k \<in> fset (fmdom (rt_avail t)). fst k = pool})"

definition preferIfAvailable :: "nat set \<Rightarrow> nat set \<Rightarrow> nat set" where
  "preferIfAvailable working prefer =
    (if prefer = {} then working
     else if working \<inter> prefer = {} then working else working \<inter> prefer)"

definition supportsQuotaWindowReset :: "int \<Rightarrow> bool" where
  "supportsQuotaWindowReset pool \<longleftrightarrow> pool = 0"

definition maybeResetOne :: "int \<Rightarrow> int \<Rightarrow> int \<Rightarrow> nat \<Rightarrow> AccountRuntimeTable \<Rightarrow> AccountRuntimeTable" where
  "maybeResetOne modeID pool nowS idx t =
    (let reset = ResetFor t idx modeID
     in if reset = 0 \<or> nowS < reset then t
        else if rt_pool t ! idx \<noteq> pool then t
        else if TotalFor t idx modeID \<le> 0 \<or> WindowFor t idx modeID \<le> 0 then t
        else setReset modeID idx (nowS + WindowFor t idx modeID)
          (setQuota modeID idx (TotalFor t idx modeID) t))"

definition maybeResetWindows ::
    "iteration \<Rightarrow> nat set \<Rightarrow> int \<Rightarrow> int \<Rightarrow> int \<Rightarrow> AccountRuntimeTable \<Rightarrow> AccountRuntimeTable" where
  "maybeResetWindows iter candidates modeID pool nowS t =
    (if \<not> supportsQuotaWindowReset pool then t
     else fold (maybeResetOne modeID pool nowS) (iter candidates) t)"

section \<open>Scores\<close>

definition scoreCandidate :: "rat \<Rightarrow> int \<Rightarrow> int \<Rightarrow> int \<Rightarrow> int \<Rightarrow> int \<Rightarrow> bool \<Rightarrow> rat" where
  "scoreCandidate health quota inflight failCount lastUse nowS includeQuota =
    (let fails = (if failCount > 10 then 10 else failCount);
         score = fl (fl (fl (health * 100) - fl (fl (of_int inflight) * 20)) - fl (fl (of_int fails) * 4));
         score = (if includeQuota then fl (score + fl (fl (of_int quota) * 25)) else score)
     in if lastUse > 0
        then let ageS = nowS - lastUse
             in if ageS < recentWindowS
                then fl (score - fl (fl (1 - fl (fl (of_int ageS) / of_int recentWindowS)) * 15))
                else score
        else score)"

definition slotScore :: "AccountRuntimeTable \<Rightarrow> int option \<Rightarrow> int \<Rightarrow> nat \<Rightarrow> rat" where
  "slotScore t quotaMode nowS idx =
    scoreCandidate (rt_health t ! idx)
      (case quotaMode of None \<Rightarrow> 0 | Some m \<Rightarrow> QuotaFor t idx m)
      (rt_inflight t ! idx) (rt_failCount t ! idx) (rt_lastUse t ! idx) nowS (quotaMode \<noteq> None)"

definition worstScore :: rat where
  "worstScore = - (10 ^ 18)"

definition bestStep :: "(nat \<Rightarrow> rat) \<Rightarrow> nat \<Rightarrow> nat option \<times> rat \<Rightarrow> nat option \<times> rat" where
  "bestStep score idx acc = (if score idx > snd acc then (Some idx, score idx) else acc)"

definition best :: "iteration \<Rightarrow> AccountRuntimeTable \<Rightarrow> nat set \<Rightarrow> int \<Rightarrow> int \<Rightarrow> nat option" where
  "best iter t working modeID nowS =
    fst (fold (bestStep (slotScore t (Some modeID) nowS))
      (filter (\<lambda>idx. QuotaFor t idx modeID > 0) (iter working)) (None, worstScore))"

definition bestNoQuota :: "iteration \<Rightarrow> AccountRuntimeTable \<Rightarrow> nat set \<Rightarrow> int \<Rightarrow> nat option" where
  "bestNoQuota iter t working nowS =
    fst (fold (bestStep (slotScore t None nowS)) (iter working) (None, worstScore))"

section \<open>Selection\<close>

text \<open>The filter all four selectors apply; \<open>quotaMode\<close> is \<open>None\<close> where the code passes no quota
  column.\<close>

definition workingSet :: "AccountRuntimeTable \<Rightarrow> int option \<Rightarrow> SelectOptions \<Rightarrow> nat set \<Rightarrow> nat set" where
  "workingSet t quotaMode o1 candidates =
    {idx \<in> candidates. idx \<notin> so_exclude o1 \<and>
      (case quotaMode of None \<Rightarrow> True | Some m \<Rightarrow> QuotaFor t idx m > 0) \<and>
      rt_coolingUntil t ! idx \<le> so_nowS o1 \<and> rt_inflight t ! idx < effectiveMaxInflight o1}"

definition quotaSelect ::
    "iteration \<Rightarrow> int \<Rightarrow> int \<Rightarrow> SelectOptions \<Rightarrow> AccountRuntimeTable \<Rightarrow> nat option \<times> AccountRuntimeTable" where
  "quotaSelect iter pool modeID o1 t =
    (let candidates = bucketOf (rt_avail t) (pool, modeID)
     in if candidates = {} then (None, t)
        else let t = maybeResetWindows iter candidates modeID pool (so_nowS o1) t;
                 working = workingSet t (Some modeID) o1 candidates
             in if working = {} then (None, t)
                else (best iter t (preferIfAvailable working (so_prefer o1)) modeID (so_nowS o1), t))"

definition quotaSelectAny ::
    "iteration \<Rightarrow> int \<Rightarrow> SelectOptions \<Rightarrow> AccountRuntimeTable \<Rightarrow> nat option \<times> AccountRuntimeTable" where
  "quotaSelectAny iter pool o1 t =
    (let candidates = poolUnion t pool
     in if candidates = {} then (None, t)
        else let working = workingSet t None o1 candidates
             in if working = {} then (None, t)
                else (bestNoQuota iter t (preferIfAvailable working (so_prefer o1)) (so_nowS o1), t))"

definition randomSelectFrom ::
    "iteration \<Rightarrow> (nat \<Rightarrow> nat) \<Rightarrow> nat set \<Rightarrow> int option \<Rightarrow> SelectOptions \<Rightarrow> AccountRuntimeTable \<Rightarrow> nat option" where
  "randomSelectFrom iter pick candidates quotaMode o1 t =
    (let working = workingSet t quotaMode o1 candidates
     in if working = {} then None
        else let choices = iter (preferIfAvailable working (so_prefer o1))
             in Some (choices ! pick (length choices)))"

definition randomSelect ::
    "iteration \<Rightarrow> (nat \<Rightarrow> nat) \<Rightarrow> int \<Rightarrow> int \<Rightarrow> SelectOptions \<Rightarrow> AccountRuntimeTable \<Rightarrow> nat option \<times> AccountRuntimeTable" where
  "randomSelect iter pick pool modeID o1 t =
    (let candidates = bucketOf (rt_avail t) (pool, modeID)
     in if candidates = {} then (None, t)
        else let t = maybeResetWindows iter candidates modeID pool (so_nowS o1) t
             in (randomSelectFrom iter pick candidates (Some modeID) o1 t, t))"

definition randomSelectAny ::
    "iteration \<Rightarrow> (nat \<Rightarrow> nat) \<Rightarrow> int \<Rightarrow> SelectOptions \<Rightarrow> AccountRuntimeTable \<Rightarrow> nat option \<times> AccountRuntimeTable" where
  "randomSelectAny iter pick pool o1 t =
    (let candidates = poolUnion t pool
     in if candidates = {} then (None, t)
        else (randomSelectFrom iter pick candidates None o1 t, t))"

definition Select ::
    "string \<Rightarrow> iteration \<Rightarrow> (nat \<Rightarrow> nat) \<Rightarrow> int \<Rightarrow> int \<Rightarrow> SelectOptions \<Rightarrow> AccountRuntimeTable \<Rightarrow>
     nat option \<times> AccountRuntimeTable" where
  "Select strategy iter pick pool modeID o1 t =
    (if strategy = strategyRandom then randomSelect iter pick pool modeID o1 t
     else quotaSelect iter pool modeID o1 t)"

definition SelectAny ::
    "string \<Rightarrow> iteration \<Rightarrow> (nat \<Rightarrow> nat) \<Rightarrow> int \<Rightarrow> SelectOptions \<Rightarrow> AccountRuntimeTable \<Rightarrow>
     nat option \<times> AccountRuntimeTable" where
  "SelectAny strategy iter pick pool o1 t =
    (if strategy = strategyRandom then randomSelectAny iter pick pool o1 t
     else quotaSelectAny iter pool o1 t)"

section \<open>Counting candidates\<close>

record selectionCandidateCounts =
  cc_total :: int
  cc_available :: int
  cc_cooling :: int
  cc_invalid :: int
  cc_disabled :: int
  cc_inflight :: int

definition slotSupportsMode :: "AccountRuntimeTable \<Rightarrow> nat \<Rightarrow> int \<Rightarrow> bool \<Rightarrow> bool" where
  "slotSupportsMode t idx modeID anyMode =
    (if anyMode then list_ex (\<lambda>c. WindowFor t idx c > 0) allModeIDs
     else isKnownModeID modeID \<and> WindowFor t idx modeID > 0)"

definition slotHasSelectableQuota :: "AccountRuntimeTable \<Rightarrow> nat \<Rightarrow> int \<Rightarrow> bool \<Rightarrow> bool" where
  "slotHasSelectableQuota t idx modeID anyMode =
    (if anyMode then list_ex (\<lambda>c. WindowFor t idx c > 0 \<and> QuotaFor t idx c > 0) allModeIDs
     else QuotaFor t idx modeID > 0)"

definition countCooling :: "selectionCandidateCounts \<Rightarrow> selectionCandidateCounts" where
  "countCooling c = c\<lparr>cc_cooling := cc_cooling c + 1\<rparr>"

definition countSlot ::
    "AccountRuntimeTable \<Rightarrow> int list \<Rightarrow> int \<Rightarrow> SelectOptions \<Rightarrow> bool \<Rightarrow> nat \<Rightarrow>
     selectionCandidateCounts \<Rightarrow> selectionCandidateCounts" where
  "countSlot t pools modeID o1 anyMode idx c =
    (if rt_status t ! idx = StatusDeleted then c
     else if pools \<noteq> [] \<and> rt_pool t ! idx \<notin> set pools then c
     else if idx \<in> so_exclude o1 then c
     else if \<not> slotSupportsMode t idx modeID anyMode then c
     else let c = c\<lparr>cc_total := cc_total c + 1, cc_inflight := cc_inflight c + rt_inflight t ! idx\<rparr>;
              s = rt_status t ! idx
          in if s = StatusDisabled then c\<lparr>cc_disabled := cc_disabled c + 1\<rparr>
             else if s = StatusExpired then c\<lparr>cc_invalid := cc_invalid c + 1\<rparr>
             else if s = StatusCooling then countCooling c
             else if s = StatusActive then
               (if rt_coolingUntil t ! idx > so_nowS o1 then countCooling c
                else if rt_inflight t ! idx \<ge> effectiveMaxInflight o1 then countCooling c
                else if \<not> slotHasSelectableQuota t idx modeID anyMode then countCooling c
                else c\<lparr>cc_available := cc_available c + 1\<rparr>)
             else countCooling c)"

definition zeroCounts :: selectionCandidateCounts where
  "zeroCounts = \<lparr>cc_total = 0, cc_available = 0, cc_cooling = 0, cc_invalid = 0, cc_disabled = 0, cc_inflight = 0\<rparr>"

definition countSelectionCandidates ::
    "AccountRuntimeTable \<Rightarrow> int list \<Rightarrow> int \<Rightarrow> SelectOptions \<Rightarrow> bool \<Rightarrow> selectionCandidateCounts" where
  "countSelectionCandidates t pools modeID o1 anyMode =
    fold (countSlot t pools modeID o1 anyMode) [0..<length (rt_tokens t)] zeroCounts"

datatype ReserveFailureReason =
  RfNone | RfNoAvailable | RfRateLimited | RfInvalidCredentials | RfDisabled

definition classifyReserveFailure ::
    "AccountRuntimeTable \<Rightarrow> int list \<Rightarrow> int \<Rightarrow> SelectOptions \<Rightarrow> bool \<Rightarrow> ReserveFailureReason" where
  "classifyReserveFailure t pools modeID o1 anyMode =
    (let c = countSelectionCandidates t pools modeID o1 anyMode
     in if cc_total c = 0 then RfNoAvailable
        else if cc_available c > 0 then RfNoAvailable
        else if cc_disabled c = cc_total c then RfDisabled
        else if cc_invalid c = cc_total c then RfInvalidCredentials
        else if cc_cooling c > 0 then RfRateLimited
        else RfNoAvailable)"

definition selectionMaxInflight :: "int \<Rightarrow> int" where
  "selectionMaxInflight configured = (if configured \<le> 0 then defaultMaxInflight else configured)"

section \<open>Window resets\<close>

text \<open>The slots whose window has run out and is refilled.\<close>

definition resetDue :: "AccountRuntimeTable \<Rightarrow> int \<Rightarrow> int \<Rightarrow> int \<Rightarrow> nat \<Rightarrow> bool" where
  "resetDue t modeID pool nowS idx \<longleftrightarrow> ResetFor t idx modeID \<noteq> 0 \<and> ResetFor t idx modeID \<le> nowS \<and>
     rt_pool t ! idx = pool \<and> 0 < TotalFor t idx modeID \<and> 0 < WindowFor t idx modeID"

definition only_quota :: "AccountRuntimeTable \<Rightarrow> AccountRuntimeTable \<Rightarrow> bool" where
  "only_quota t t' \<longleftrightarrow> (\<exists>q r. t' = t\<lparr>rt_quota := q, rt_reset := r\<rparr>)"

lemma only_quota_refl [simp]: "only_quota t t"
proof -
  have "t = t\<lparr>rt_quota := rt_quota t, rt_reset := rt_reset t\<rparr>" by simp
  then show ?thesis unfolding only_quota_def by blast
qed

lemma only_quota_trans: "only_quota t u \<Longrightarrow> only_quota u v \<Longrightarrow> only_quota t v"
  unfolding only_quota_def by fastforce

lemma only_quotaD:
  assumes "only_quota t t'"
  shows "rt_tokens t' = rt_tokens t" "rt_idx t' = rt_idx t" "rt_pool t' = rt_pool t" "rt_status t' = rt_status t"
    "rt_total t' = rt_total t" "rt_window t' = rt_window t" "rt_inflight t' = rt_inflight t"
    "rt_health t' = rt_health t" "rt_failCount t' = rt_failCount t" "rt_lastUse t' = rt_lastUse t"
    "rt_coolingUntil t' = rt_coolingUntil t" "rt_avail t' = rt_avail t" "rt_tags t' = rt_tags t"
    "rt_size t' = rt_size t" "rt_revision t' = rt_revision t"
  using assms by (auto simp: only_quota_def)

lemma maybeResetOne_eq:
  "maybeResetOne modeID pool nowS idx t =
    (if resetDue t modeID pool nowS idx
     then setReset modeID idx (nowS + WindowFor t idx modeID) (setQuota modeID idx (TotalFor t idx modeID) t)
     else t)"
  by (auto simp: maybeResetOne_def resetDue_def Let_def)

lemma maybeResetOne_quota_only: "only_quota t (maybeResetOne modeID pool nowS idx t)"
proof -
  have "setReset modeID idx r (setQuota modeID idx v t) =
      t\<lparr>rt_quota := setModeCol (rt_quota t) modeID idx v, rt_reset := setModeCol (rt_reset t) modeID idx r\<rparr>" for r v
    by (simp add: setReset_def setQuota_def)
  then have "only_quota t (setReset modeID idx r (setQuota modeID idx v t))" for r v
    unfolding only_quota_def by blast
  then show ?thesis by (simp add: maybeResetOne_eq)
qed

lemma maybeResetOne_ok:
  assumes "table_ok t" "idx < length (rt_tokens t)"
  shows "table_ok (maybeResetOne modeID pool nowS idx t)"
proof -
  have "TotalFor t idx modeID \<le> 32767" "0 \<le> TotalFor t idx modeID"
    using assms by (auto simp: table_ok_def ranges_ok_def TotalFor_def)
  then show ?thesis using assms by (simp add: maybeResetOne_eq slot_ok)
qed

lemma maybeResetOne_cols:
  assumes "table_ok t" "idx < length (rt_tokens t)"
  shows "QuotaFor (maybeResetOne modeID pool nowS idx t) j modeID =
      (if j = idx \<and> resetDue t modeID pool nowS idx then TotalFor t idx modeID else QuotaFor t j modeID)"
    "ResetFor (maybeResetOne modeID pool nowS idx t) j modeID =
      (if j = idx \<and> resetDue t modeID pool nowS idx then nowS + WindowFor t idx modeID else ResetFor t j modeID)"
proof -
  have "length (modeCol (rt_quota t) modeID) = length (rt_tokens t)"
    "length (modeCol (rt_reset t) modeID) = length (rt_tokens t)"
    using assms(1) by (auto simp: table_ok_def columns_ok_def Let_def)
  with assms(2) show "QuotaFor (maybeResetOne modeID pool nowS idx t) j modeID =
      (if j = idx \<and> resetDue t modeID pool nowS idx then TotalFor t idx modeID else QuotaFor t j modeID)"
    "ResetFor (maybeResetOne modeID pool nowS idx t) j modeID =
      (if j = idx \<and> resetDue t modeID pool nowS idx then nowS + WindowFor t idx modeID else ResetFor t j modeID)"
    by (auto simp: maybeResetOne_eq QuotaFor_def ResetFor_def setReset_def setQuota_def modeCol_set nth_upd)
qed

lemma resetDue_other:
  assumes "table_ok t" "idx < length (rt_tokens t)" "j \<noteq> idx"
  shows "resetDue (maybeResetOne modeID pool nowS idx t) modeID pool nowS j = resetDue t modeID pool nowS j"
  using maybeResetOne_cols(2) [OF assms(1,2), of modeID pool nowS j] assms(3)
    only_quotaD [OF maybeResetOne_quota_only [of t modeID pool nowS idx]]
  by (simp add: resetDue_def TotalFor_def WindowFor_def)

lemma reset_fold:
  assumes "table_ok t" "set xs \<subseteq> {..<length (rt_tokens t)}" "distinct xs"
  shows "table_ok (fold (maybeResetOne modeID pool nowS) xs t) \<and>
    only_quota t (fold (maybeResetOne modeID pool nowS) xs t) \<and>
    (\<forall>j. QuotaFor (fold (maybeResetOne modeID pool nowS) xs t) j modeID =
      (if j \<in> set xs \<and> resetDue t modeID pool nowS j then TotalFor t j modeID else QuotaFor t j modeID))"
  using assms
proof (induction xs arbitrary: t)
  case (Cons x xs)
  let ?t1 = "maybeResetOne modeID pool nowS x t"
  have x: "x < length (rt_tokens t)" using Cons.prems by simp
  have t1: "table_ok ?t1" "only_quota t ?t1" using maybeResetOne_ok [OF Cons.prems(1) x] maybeResetOne_quota_only by auto
  note same = only_quotaD [OF t1(2)]
  have "set xs \<subseteq> {..<length (rt_tokens ?t1)}" "distinct xs" using Cons.prems same by auto
  note ih = Cons.IH [OF t1(1) this]
  have "QuotaFor (fold (maybeResetOne modeID pool nowS) xs ?t1) j modeID =
      (if j \<in> set (x # xs) \<and> resetDue t modeID pool nowS j then TotalFor t j modeID else QuotaFor t j modeID)" for j
  proof (cases "j = x")
    case True
    then have "j \<notin> set xs" using Cons.prems by simp
    then show ?thesis using ih maybeResetOne_cols(1) [OF Cons.prems(1) x] True by simp
  next
    case False
    have "TotalFor ?t1 j modeID = TotalFor t j modeID" by (simp add: TotalFor_def same)
    then show ?thesis
      using ih maybeResetOne_cols(1) [OF Cons.prems(1) x] resetDue_other [OF Cons.prems(1) x False] False by simp
  qed
  then show ?case using ih t1 by (auto intro: only_quota_trans)
qed simp

lemma maybeResetWindows_effect:
  assumes "table_ok t" "iterates iter" "candidates \<subseteq> {..<length (rt_tokens t)}"
  shows "table_ok (maybeResetWindows iter candidates modeID pool nowS t)"
    "only_quota t (maybeResetWindows iter candidates modeID pool nowS t)"
    "QuotaFor (maybeResetWindows iter candidates modeID pool nowS t) j modeID =
      (if supportsQuotaWindowReset pool \<and> j \<in> candidates \<and> resetDue t modeID pool nowS j
       then TotalFor t j modeID else QuotaFor t j modeID)"
proof -
  have "finite candidates" using assms(3) finite_subset by blast
  then have "set (iter candidates) = candidates" "distinct (iter candidates)"
    using assms(2) by (auto simp: iterates_def)
  then show "table_ok (maybeResetWindows iter candidates modeID pool nowS t)"
    "only_quota t (maybeResetWindows iter candidates modeID pool nowS t)"
    "QuotaFor (maybeResetWindows iter candidates modeID pool nowS t) j modeID =
      (if supportsQuotaWindowReset pool \<and> j \<in> candidates \<and> resetDue t modeID pool nowS j
       then TotalFor t j modeID else QuotaFor t j modeID)"
    using reset_fold [of t "iter candidates" modeID pool nowS] assms by (auto simp: maybeResetWindows_def)
qed

section \<open>The best candidate\<close>

lemma best_fold:
  "fold (bestStep f) xs (b, s) = (b', s') \<Longrightarrow>
     s \<le> s' \<and> (\<forall>x \<in> set xs. f x \<le> s') \<and> ((b', s') = (b, s) \<or> (\<exists>x \<in> set xs. b' = Some x \<and> s' = f x))"
proof (induction xs arbitrary: b s)
  case (Cons x xs)
  show ?case
  proof (cases "f x > s")
    case True
    with Cons.prems have "fold (bestStep f) xs (Some x, f x) = (b', s')" by (simp add: bestStep_def [of f x])
    from Cons.IH [OF this] True show ?thesis by auto
  next
    case False
    with Cons.prems have "fold (bestStep f) xs (b, s) = (b', s')" by (simp add: bestStep_def [of f x])
    from Cons.IH [OF this] False show ?thesis by auto
  qed
qed simp

lemma best_of:
  assumes "xs \<noteq> []" "\<And>x. x \<in> set xs \<Longrightarrow> worstScore < f x"
  obtains x where "fst (fold (bestStep f) xs (None, worstScore)) = Some x" "x \<in> set xs"
    "\<And>y. y \<in> set xs \<Longrightarrow> f y \<le> f x"
proof -
  obtain b s where bs: "fold (bestStep f) xs (None, worstScore) = (b, s)"
    by (cases "fold (bestStep f) xs (None, worstScore)")
  obtain y where "y \<in> set xs" using assms(1) by (cases xs) auto
  with best_fold [OF bs] assms(2) have "s \<noteq> worstScore" by (metis not_le)
  with best_fold [OF bs] obtain x where "x \<in> set xs" "b = Some x" "s = f x" "\<forall>x \<in> set xs. f x \<le> s" by auto
  with bs show thesis using that by auto
qed

lemma score_bound:
  assumes "0 \<le> h" "0 \<le> q" "q \<le> 32767" "0 \<le> i" "i \<le> 65535" "0 \<le> f" "lu \<le> now + 10 ^ 14"
  shows "worstScore < scoreCandidate h q i f lu now b"
proof -
  define fails where "fails = (if f > 10 then 10 else f)"
  have fb: "0 \<le> fails" "fails \<le> 10" using assms(6) by (auto simp: fails_def)
  have i1: "fl (of_int i) = of_int i" "fl (of_int fails) = of_int fails" "fl (of_int q) = of_int q"
    using assms fb by (auto intro!: fl_of_int)
  have a1: "of_int 0 \<le> fl (h * 100)" using assms(1) by (intro fl_ge_int) auto
  have a2: "fl (of_int i * 20) \<le> of_int 1310700" using assms(5) by (intro fl_le_int) auto
  have a3: "of_int (-1310700) \<le> fl (fl (h * 100) - fl (of_int i * 20))" using a1 a2 by (intro fl_ge_int) auto
  have a4: "fl (of_int fails * 4) \<le> of_int 40" using fb by (intro fl_le_int) auto
  define s0 where "s0 = fl (fl (fl (h * 100) - fl (of_int i * 20)) - fl (of_int fails * 4))"
  have s0: "of_int (-1310740) \<le> s0" unfolding s0_def using a3 a4 by (intro fl_ge_int) auto
  define s1 where "s1 = (if b then fl (s0 + fl (of_int q * 25)) else s0)"
  have "of_int 0 \<le> fl (of_int q * 25)" using assms(2) by (intro fl_ge_int) auto
  then have s1: "of_int (-1310740) \<le> s1"
    using s0 fl_ge_int [of "-1310740" "s0 + fl (of_int q * 25)"] by (cases b) (simp_all add: s1_def)
  have s2: "worstScore < s1" using s1 by (simp add: worstScore_def)
  define age where "age = now - lu"
  have age: "- (10 ^ 14) \<le> age" using assms(7) by (simp add: age_def)
  have "worstScore < fl (s1 - fl (fl (1 - fl (fl (of_int age) / 15)) * 15))" if "age < 15"
  proof -
    have b0: "of_int (- (10 ^ 14)) \<le> fl (of_int age)" using age by (intro fl_ge_int) (simp_all only: of_int_le_iff, simp)
    have b1: "of_int (- (10 ^ 13)) \<le> fl (fl (of_int age) / 15)" using b0 by (intro fl_ge_int) auto
    have b2: "fl (1 - fl (fl (of_int age) / 15)) \<le> of_int (10 ^ 13 + 1)" using b1 by (intro fl_le_int) auto
    have b3: "fl (fl (1 - fl (fl (of_int age) / 15)) * 15) \<le> of_int (10 ^ 14 + 10 ^ 14)"
      using b2 by (intro fl_le_int) auto
    have "of_int (- (10 ^ 15)) \<le> fl (s1 - fl (fl (1 - fl (fl (of_int age) / 15)) * 15))"
      using b3 s1 by (intro fl_ge_int) auto
    then show ?thesis by (simp add: worstScore_def)
  qed
  with s2 show ?thesis
    by (cases b) (simp_all add: scoreCandidate_def Let_def i1 fails_def [symmetric] s0_def [symmetric] s1_def
        age_def [symmetric] recentWindowS_def)
qed

section \<open>What each selector returns\<close>

definition clock_ok :: "AccountRuntimeTable \<Rightarrow> int \<Rightarrow> bool" where
  "clock_ok t nowS \<longleftrightarrow> (\<forall>i < length (rt_tokens t). rt_lastUse t ! i \<le> nowS + 10 ^ 14)"

text \<open>Which slots may be handed out, over the columns: an active slot of the pool, not excluded, out of its cooling period,
  below the limit of requests in flight (8 where none is configured), with a window and quota left for the mode, or
  with a window for some mode.\<close>

definition usableSlot :: "SelectOptions \<Rightarrow> AccountRuntimeTable \<Rightarrow> int \<Rightarrow> nat \<Rightarrow> bool" where
  "usableSlot o1 t pool i \<longleftrightarrow> i < length (rt_tokens t) \<and> rt_pool t ! i = pool \<and> rt_status t ! i = StatusActive \<and>
     i \<notin> so_exclude o1 \<and> rt_coolingUntil t ! i \<le> so_nowS o1 \<and>
     rt_inflight t ! i < (if 0 < so_maxInflight o1 then so_maxInflight o1 else 8)"

definition selectable :: "int \<Rightarrow> SelectOptions \<Rightarrow> AccountRuntimeTable \<Rightarrow> int \<Rightarrow> nat \<Rightarrow> bool" where
  "selectable modeID o1 t pool i \<longleftrightarrow> usableSlot o1 t pool i \<and> isKnownModeID modeID \<and>
     0 < WindowFor t i modeID \<and> 0 < QuotaFor t i modeID"

definition selectableAny :: "SelectOptions \<Rightarrow> AccountRuntimeTable \<Rightarrow> int \<Rightarrow> nat \<Rightarrow> bool" where
  "selectableAny o1 t pool i \<longleftrightarrow> usableSlot o1 t pool i \<and> (\<exists>m. isKnownModeID m \<and> 0 < WindowFor t i m)"

lemma bucket_slots: "table_ok t \<Longrightarrow> bucketOf (rt_avail t) (p, m) \<subseteq> {..<length (rt_tokens t)}"
  by (auto simp: table_ok_def avail_ok_def availableSet_def)

lemma poolUnion_iff: "i \<in> poolUnion t pool \<longleftrightarrow> (\<exists>m. i \<in> bucketOf (rt_avail t) (pool, m))"
proof
  assume "\<exists>m. i \<in> bucketOf (rt_avail t) (pool, m)"
  then obtain m where m: "i \<in> bucketOf (rt_avail t) (pool, m)" by blast
  then have "(pool, m) |\<in>| fmdom (rt_avail t)"
    by (auto simp: bucketOf_def fmlookup_dom_iff split: option.splits)
  with m show "i \<in> poolUnion t pool" unfolding poolUnion_def by auto
qed (auto simp: poolUnion_def)

lemma bucket_iff:
  "table_ok t \<Longrightarrow> i \<in> bucketOf (rt_avail t) (p, m) \<longleftrightarrow> i < length (rt_tokens t) \<and> isKnownModeID m \<and> rt_pool t ! i = p \<and>
     rt_status t ! i = StatusActive \<and> 0 < WindowFor t i m"
  by (simp add: table_ok_def avail_ok_def availableSet_def WindowFor_def)

text \<open>The filter of the code lets through just these slots.\<close>

lemma workingSet_selectable:
  "table_ok t \<Longrightarrow> i \<in> workingSet t (Some m) o1 (bucketOf (rt_avail t) (p, m)) \<longleftrightarrow> selectable m o1 t p i"
  by (auto simp: workingSet_def bucket_iff selectable_def usableSlot_def effectiveMaxInflight_def defaultMaxInflight_def)

lemma workingSet_selectableAny:
  "table_ok t \<Longrightarrow> i \<in> workingSet t None o1 (poolUnion t p) \<longleftrightarrow> selectableAny o1 t p i"
  by (auto simp: workingSet_def poolUnion_iff bucket_iff selectableAny_def usableSlot_def effectiveMaxInflight_def defaultMaxInflight_def)

lemma poolUnion_slots: "table_ok t \<Longrightarrow> poolUnion t pool \<subseteq> {..<length (rt_tokens t)}"
  using bucket_slots by (fastforce simp: poolUnion_iff)

lemma prefer_subset: "preferIfAvailable w p \<subseteq> w"
  by (auto simp: preferIfAvailable_def)

lemma prefer_nonempty: "w \<noteq> {} \<Longrightarrow> preferIfAvailable w p \<noteq> {}"
  by (auto simp: preferIfAvailable_def)

lemma prefer_preferred: "w \<inter> p \<noteq> {} \<Longrightarrow> preferIfAvailable w p = w \<inter> p"
  by (auto simp: preferIfAvailable_def)

lemma workingSet_subset: "workingSet t q o1 c \<subseteq> c"
  by (auto simp: workingSet_def)

lemma iter_facts:
  assumes "iterates iter" "S \<subseteq> {..<n}"
  shows "set (iter S) = S" "S \<noteq> {} \<Longrightarrow> iter S \<noteq> []"
proof -
  have "finite S" using assms(2) finite_lessThan by (rule finite_subset)
  then show set: "set (iter S) = S" using assms(1) by (simp add: iterates_def)
  show "iter S \<noteq> []" if "S \<noteq> {}" using set that by (metis list.set(1))
qed

lemma iter_empty: "iterates iter \<Longrightarrow> iter {} = []"
  using iter_facts(1) [of iter "{}" 0] by simp

lemma slotScore_bound:
  assumes "table_ok t" "clock_ok t nowS" "i < length (rt_tokens t)"
    and "\<And>m. quotaMode = Some m \<Longrightarrow> 0 \<le> QuotaFor t i m"
  shows "worstScore < slotScore t quotaMode nowS i"
proof -
  have "0 \<le> rt_health t ! i" "0 \<le> rt_inflight t ! i" "rt_inflight t ! i \<le> 65535" "0 \<le> rt_failCount t ! i"
    "\<And>m. QuotaFor t i m \<le> 32767"
    using assms(1,3) fl_simps(2) by (auto simp: table_ok_def ranges_ok_def QuotaFor_def intro: order_trans)
  moreover have "rt_lastUse t ! i \<le> nowS + 10 ^ 14" using assms(2,3) by (simp add: clock_ok_def)
  ultimately show ?thesis
    using assms(4) by (auto simp: slotScore_def intro!: score_bound split: option.splits)
qed

lemma best_spec:
  assumes "table_ok t" "clock_ok t nowS" "iterates iter" "w \<subseteq> {..<length (rt_tokens t)}" "w \<noteq> {}"
    and "\<And>i. i \<in> w \<Longrightarrow> 0 < QuotaFor t i modeID"
  obtains i where "best iter t w modeID nowS = Some i" "i \<in> w"
    "\<And>j. j \<in> w \<Longrightarrow> slotScore t (Some modeID) nowS j \<le> slotScore t (Some modeID) nowS i"
proof -
  have all: "filter (\<lambda>idx. QuotaFor t idx modeID > 0) (iter w) = iter w"
    using iter_facts(1) [OF assms(3,4)] assms(6) by (auto simp: filter_id_conv)
  have "worstScore < slotScore t (Some modeID) nowS i" if "i \<in> set (iter w)" for i
    using that iter_facts(1) [OF assms(3,4)] assms(4,6) by (intro slotScore_bound [OF assms(1,2)]) (auto intro: less_imp_le)
  from best_of [OF iter_facts(2) [OF assms(3,4,5)], of "slotScore t (Some modeID) nowS", OF this] obtain i where
    "best iter t w modeID nowS = Some i" "i \<in> set (iter w)"
    "\<And>j. j \<in> set (iter w) \<Longrightarrow> slotScore t (Some modeID) nowS j \<le> slotScore t (Some modeID) nowS i"
    unfolding best_def all by blast
  then show thesis unfolding iter_facts(1) [OF assms(3,4)] by (rule that)
qed

lemma bestNoQuota_spec:
  assumes "table_ok t" "clock_ok t nowS" "iterates iter" "w \<subseteq> {..<length (rt_tokens t)}" "w \<noteq> {}"
  obtains i where "bestNoQuota iter t w nowS = Some i" "i \<in> w"
    "\<And>j. j \<in> w \<Longrightarrow> slotScore t None nowS j \<le> slotScore t None nowS i"
proof -
  have "worstScore < slotScore t None nowS i" if "i \<in> set (iter w)" for i
    using that iter_facts(1) [OF assms(3,4)] assms(4) by (intro slotScore_bound [OF assms(1,2)]) auto
  from best_of [OF iter_facts(2) [OF assms(3,4,5)], of "slotScore t None nowS", OF this] obtain i where
    "bestNoQuota iter t w nowS = Some i" "i \<in> set (iter w)"
    "\<And>j. j \<in> set (iter w) \<Longrightarrow> slotScore t None nowS j \<le> slotScore t None nowS i"
    unfolding bestNoQuota_def by blast
  then show thesis unfolding iter_facts(1) [OF assms(3,4)] by (rule that)
qed

lemma random_spec:
  assumes "table_ok t" "iterates iter" "picks pick" "c \<subseteq> {..<length (rt_tokens t)}"
  shows "case randomSelectFrom iter pick c q o1 t of
     None \<Rightarrow> workingSet t q o1 c = {}
   | Some i \<Rightarrow> i \<in> preferIfAvailable (workingSet t q o1 c) (so_prefer o1)"
proof -
  let ?w = "workingSet t q o1 c" and ?p = "preferIfAvailable (workingSet t q o1 c) (so_prefer o1)"
  show ?thesis
  proof (cases "?w = {}")
    case False
    have sub: "?p \<subseteq> {..<length (rt_tokens t)}" using prefer_subset workingSet_subset assms(4) by blast
    have ne: "iter ?p \<noteq> []" using iter_facts(2) [OF assms(2) sub] prefer_nonempty [OF False] by blast
    then have "iter ?p ! pick (length (iter ?p)) \<in> set (iter ?p)"
      using assms(3) by (intro nth_mem) (simp add: picks_def)
    then show ?thesis
      using False iter_facts(1) [OF assms(2) sub] by (simp add: randomSelectFrom_def Let_def)
  qed (simp add: randomSelectFrom_def)
qed

text \<open>The table a mode selection works on, after the resets.\<close>

definition resetTable :: "iteration \<Rightarrow> int \<Rightarrow> int \<Rightarrow> int \<Rightarrow> AccountRuntimeTable \<Rightarrow> AccountRuntimeTable" where
  "resetTable iter pool modeID nowS t =
    maybeResetWindows iter (bucketOf (rt_avail t) (pool, modeID)) modeID pool nowS t"

lemma resetTable_facts:
  assumes "table_ok t" "iterates iter"
  shows "table_ok (resetTable iter pool modeID nowS t)" "only_quota t (resetTable iter pool modeID nowS t)"
    "rt_avail (resetTable iter pool modeID nowS t) = rt_avail t"
  using maybeResetWindows_effect(1,2) [OF assms bucket_slots [OF assms(1)]] only_quotaD(12)
  by (simp_all add: resetTable_def)

lemma resetTable_empty: "iterates iter \<Longrightarrow> bucketOf (rt_avail t) (pool, modeID) = {} \<Longrightarrow> resetTable iter pool modeID nowS t = t"
  by (simp add: resetTable_def maybeResetWindows_def iter_empty)

lemma Select_spec:
  assumes "table_ok t" "clock_ok t (so_nowS o1)" "iterates iter" "picks pick"
    and "Select strategy iter pick pool modeID o1 t = (r, t')"
  shows "t' = resetTable iter pool modeID (so_nowS o1) t"
    "case r of None \<Rightarrow> workingSet t' (Some modeID) o1 (bucketOf (rt_avail t') (pool, modeID)) = {}
     | Some i \<Rightarrow> i \<in> preferIfAvailable (workingSet t' (Some modeID) o1 (bucketOf (rt_avail t') (pool, modeID))) (so_prefer o1)"
proof -
  let ?c = "bucketOf (rt_avail t) (pool, modeID)"
  let ?t1 = "resetTable iter pool modeID (so_nowS o1) t"
  have t1: "table_ok ?t1" "only_quota t ?t1" "rt_avail ?t1 = rt_avail t" using resetTable_facts [OF assms(1,3)] by auto
  have c: "?c \<subseteq> {..<length (rt_tokens ?t1)}"
    using bucket_slots [OF assms(1)] only_quotaD(1) [OF t1(2)] by simp
  have clock: "clock_ok ?t1 (so_nowS o1)"
    using assms(2) only_quotaD [OF t1(2)] by (simp add: clock_ok_def)
  show t': "t' = ?t1"
    using assms(5) resetTable_empty [OF assms(3)]
    by (auto simp: Select_def randomSelect_def quotaSelect_def resetTable_def Let_def split: if_splits)
  let ?w = "workingSet ?t1 (Some modeID) o1 ?c" and ?p = "preferIfAvailable (workingSet ?t1 (Some modeID) o1 ?c) (so_prefer o1)"
  have "case r of None \<Rightarrow> ?w = {} | Some i \<Rightarrow> i \<in> ?p"
  proof (cases "?c = {}")
    case True
    then have "r = None" using assms(5)
      by (auto simp: Select_def randomSelect_def quotaSelect_def Let_def split: if_splits)
    then show ?thesis using True by (simp add: workingSet_def)
  next
    case nonempty: False
    show ?thesis
    proof (cases "strategy = strategyRandom")
      case True
      then have "r = randomSelectFrom iter pick ?c (Some modeID) o1 ?t1"
        using assms(5) nonempty by (auto simp: Select_def randomSelect_def resetTable_def Let_def)
      then show ?thesis using random_spec [OF t1(1) assms(3,4) c, of "Some modeID" o1] by simp
    next
      case False
      show ?thesis
      proof (cases "?w = {}")
        case True
        then have "r = None" using assms(5) nonempty False
          by (simp add: Select_def quotaSelect_def resetTable_def Let_def)
        then show ?thesis using True by simp
      next
        case w: False
        have r: "r = best iter ?t1 ?p modeID (so_nowS o1)"
          using assms(5) nonempty False w by (auto simp: Select_def quotaSelect_def resetTable_def Let_def)
        have "?p \<subseteq> {..<length (rt_tokens ?t1)}" using prefer_subset workingSet_subset c by blast
        moreover have "0 < QuotaFor ?t1 i modeID" if "i \<in> ?p" for i
          using that prefer_subset [of ?w "so_prefer o1"] by (auto simp: workingSet_def)
        ultimately obtain i where "best iter ?t1 ?p modeID (so_nowS o1) = Some i" "i \<in> ?p"
          using best_spec [OF t1(1) clock assms(3) _ prefer_nonempty [OF w]] by metis
        then show ?thesis using r by simp
      qed
    qed
  qed
  then show "case r of None \<Rightarrow> workingSet t' (Some modeID) o1 (bucketOf (rt_avail t') (pool, modeID)) = {}
     | Some i \<Rightarrow> i \<in> preferIfAvailable (workingSet t' (Some modeID) o1 (bucketOf (rt_avail t') (pool, modeID))) (so_prefer o1)"
    unfolding t' t1(3) .
qed

lemma SelectAny_spec:
  assumes "table_ok t" "clock_ok t (so_nowS o1)" "iterates iter" "picks pick"
    and "SelectAny strategy iter pick pool o1 t = (r, t')"
  shows "t' = t"
    "case r of None \<Rightarrow> workingSet t None o1 (poolUnion t pool) = {}
     | Some i \<Rightarrow> i \<in> preferIfAvailable (workingSet t None o1 (poolUnion t pool)) (so_prefer o1)"
proof -
  let ?c = "poolUnion t pool"
  let ?w = "workingSet t None o1 ?c" and ?p = "preferIfAvailable (workingSet t None o1 ?c) (so_prefer o1)"
  have c: "?c \<subseteq> {..<length (rt_tokens t)}" by (rule poolUnion_slots [OF assms(1)])
  show "t' = t"
    using assms(5) by (auto simp: SelectAny_def randomSelectAny_def quotaSelectAny_def Let_def split: if_splits)
  show "case r of None \<Rightarrow> ?w = {} | Some i \<Rightarrow> i \<in> ?p"
  proof (cases "?c = {} \<or> (strategy \<noteq> strategyRandom \<and> ?w = {})")
    case True
    then have "r = None" "?w = {}" using assms(5)
      by (auto simp: SelectAny_def randomSelectAny_def quotaSelectAny_def workingSet_def randomSelectFrom_def
          Let_def split: if_splits)
    then show ?thesis by simp
  next
    case nonempty: False
    show ?thesis
    proof (cases "strategy = strategyRandom")
      case True
      then have "r = randomSelectFrom iter pick ?c None o1 t"
        using assms(5) nonempty by (auto simp: SelectAny_def randomSelectAny_def Let_def)
      then show ?thesis using random_spec [OF assms(1,3,4) c, of None o1] by simp
    next
      case False
      then have w: "?w \<noteq> {}" and r: "r = bestNoQuota iter t ?p (so_nowS o1)"
        using assms(5) nonempty False by (auto simp: SelectAny_def quotaSelectAny_def Let_def)
      have "?p \<subseteq> {..<length (rt_tokens t)}" using prefer_subset workingSet_subset c by blast
      then obtain i where "bestNoQuota iter t ?p (so_nowS o1) = Some i" "i \<in> ?p"
        using bestNoQuota_spec [OF assms(1,2,3) _ prefer_nonempty [OF w]] by metis
      then show ?thesis using r by simp
    qed
  qed
qed

section \<open>The selector interface\<close>

text \<open>What \<open>reserveDetailed\<close> needs of a selection function, whatever its strategy: it returns only
  eligible slots, it answers no only when its pool has none, and it changes nothing but quotas and
  reset times of its own pool.\<close>

locale slot_selector =
  fixes sel :: "int \<Rightarrow> AccountRuntimeTable \<Rightarrow> nat option \<times> AccountRuntimeTable"
    and elig :: "AccountRuntimeTable \<Rightarrow> int \<Rightarrow> nat \<Rightarrow> bool"
    and ok :: "AccountRuntimeTable \<Rightarrow> bool"
  assumes sel_ok: "ok t \<Longrightarrow> ok (snd (sel p t))"
    and sel_sound: "ok t \<Longrightarrow> sel p t = (Some i, t') \<Longrightarrow> elig t' p i"
    and sel_complete: "ok t \<Longrightarrow> sel p t = (None, t') \<Longrightarrow> \<not> elig t' p i"
    and sel_frame: "ok t \<Longrightarrow> q \<noteq> p \<Longrightarrow> elig (snd (sel p t)) q i \<longleftrightarrow> elig t q i"
    and sel_quota: "ok t \<Longrightarrow> only_quota t (snd (sel p t))"

text \<open>The loop of \<open>reserveDetailed\<close> over the pool candidates.\<close>

fun firstPool ::
    "(int \<Rightarrow> AccountRuntimeTable \<Rightarrow> nat option \<times> AccountRuntimeTable) \<Rightarrow> int list \<Rightarrow> AccountRuntimeTable \<Rightarrow>
     nat option \<times> AccountRuntimeTable" where
  "firstPool sel [] t = (None, t)"
| "firstPool sel (p # ps) t =
    (case sel p t of (Some i, t') \<Rightarrow> (Some i, t') | (None, t') \<Rightarrow> firstPool sel ps t')"

context slot_selector
begin

lemma first_ok: "ok t \<Longrightarrow> ok (snd (firstPool sel ps t)) \<and> only_quota t (snd (firstPool sel ps t))"
proof (induction ps arbitrary: t)
  case (Cons p ps)
  obtain r t1 where s: "sel p t = (r, t1)" by (cases "sel p t")
  then have t1: "ok t1" "only_quota t t1" using sel_ok [OF Cons.prems, of p] sel_quota [OF Cons.prems, of p] by auto
  then show ?case using s Cons.IH [OF t1(1)] only_quota_trans [OF t1(2)] by (cases r) auto
qed simp

lemma first_sound: "ok t \<Longrightarrow> firstPool sel ps t = (Some i, t') \<Longrightarrow> \<exists>p \<in> set ps. elig t' p i"
proof (induction ps arbitrary: t)
  case (Cons p ps)
  obtain r t1 where s: "sel p t = (r, t1)" by (cases "sel p t")
  then have t1: "ok t1" using sel_ok [OF Cons.prems(1), of p] by simp
  show ?case
  proof (cases r)
    case None
    then show ?thesis using Cons s t1 by auto
  next
    case (Some j)
    then show ?thesis using sel_sound [OF Cons.prems(1)] s Cons.prems(2) by auto
  qed
qed simp

lemma first_frame:
  "ok t \<Longrightarrow> q \<notin> set ps \<Longrightarrow> elig (snd (firstPool sel ps t)) q i \<longleftrightarrow> elig t q i"
proof (induction ps arbitrary: t)
  case (Cons p ps)
  obtain r t1 where s: "sel p t = (r, t1)" by (cases "sel p t")
  then have t1: "ok t1" "elig t1 q i \<longleftrightarrow> elig t q i"
    using sel_ok [OF Cons.prems(1), of p] sel_frame [OF Cons.prems(1), of q p] Cons.prems(2) by auto
  then show ?case using s Cons.IH [OF t1(1)] Cons.prems(2) by (cases r) auto
qed simp

lemma first_complete:
  "ok t \<Longrightarrow> firstPool sel ps t = (None, t') \<Longrightarrow> p \<in> set ps \<Longrightarrow> \<not> elig t' p i"
proof (induction ps arbitrary: t)
  case (Cons p' ps)
  obtain r t1 where s: "sel p' t = (r, t1)" by (cases "sel p' t")
  then have r: "r = None" "firstPool sel ps t1 = (None, t')" using Cons.prems(2) by (auto split: option.splits)
  have t1: "ok t1" using sel_ok [OF Cons.prems(1), of p'] s by simp
  show ?case
  proof (cases "p \<in> set ps")
    case True
    then show ?thesis using Cons.IH [OF t1 r(2)] by simp
  next
    case False
    then have "p = p'" using Cons.prems(3) by simp
    then have "\<not> elig t1 p i" using sel_complete [OF Cons.prems(1)] s r(1) by simp
    then show ?thesis using first_frame [OF t1 False, of i] r(2) by simp
  qed
qed simp

end

text \<open>The assumptions on the clock, the map order and the random numbers are part of the state
  predicate, so that the strategies instantiate the interface as they are.\<close>

definition sel_state_ok :: "iteration \<Rightarrow> (nat \<Rightarrow> nat) \<Rightarrow> int \<Rightarrow> AccountRuntimeTable \<Rightarrow> bool" where
  "sel_state_ok iter pick nowS t \<longleftrightarrow> table_ok t \<and> clock_ok t nowS \<and> iterates iter \<and> picks pick"

lemma clock_quota_only: "only_quota t t' \<Longrightarrow> clock_ok t' nowS = clock_ok t nowS"
  by (auto simp: clock_ok_def only_quotaD)

lemma reset_other_pool:
  assumes "table_ok t" "iterates iter" "i \<in> bucketOf (rt_avail t) (q, modeID)" "q \<noteq> pool"
  shows "QuotaFor (resetTable iter pool modeID nowS t) i modeID = QuotaFor t i modeID"
proof -
  have "rt_pool t ! i = q" using assms(1,3) by (auto simp: table_ok_def avail_ok_def availableSet_def)
  then show ?thesis
    using maybeResetWindows_effect(3) [OF assms(1,2) bucket_slots [OF assms(1)]] assms(4)
    by (simp add: resetTable_def resetDue_def)
qed

interpretation mode_select: slot_selector "\<lambda>p. Select strategy iter pick p modeID o1"
    "selectable modeID o1" "sel_state_ok iter pick (so_nowS o1)"
  for strategy iter pick modeID o1
proof
  fix t p q i t'
  assume ok: "sel_state_ok iter pick (so_nowS o1) t"
  then have prems: "table_ok t" "clock_ok t (so_nowS o1)" "iterates iter" "picks pick"
    by (auto simp: sel_state_ok_def)
  obtain r t1 where s: "Select strategy iter pick p modeID o1 t = (r, t1)"
    by (cases "Select strategy iter pick p modeID o1 t")
  note spec = Select_spec [OF prems s]
  have t1: "table_ok t1" "only_quota t t1" "rt_avail t1 = rt_avail t"
    using resetTable_facts [OF prems(1,3)] by (simp_all add: spec(1))
  show "sel_state_ok iter pick (so_nowS o1) (snd (Select strategy iter pick p modeID o1 t))"
    using prems t1 clock_quota_only [OF t1(2)] by (simp add: s sel_state_ok_def)
  show "only_quota t (snd (Select strategy iter pick p modeID o1 t))" using t1 by (simp add: s)
  note w = workingSet_selectable [OF t1(1)]
  show "selectable modeID o1 t' p i" if "Select strategy iter pick p modeID o1 t = (Some i, t')"
    using spec(2) s that prefer_subset w by fastforce
  show "\<not> selectable modeID o1 t' p i" if "Select strategy iter pick p modeID o1 t = (None, t')"
    using spec(2) s that w by auto
  show "selectable modeID o1 (snd (Select strategy iter pick p modeID o1 t)) q i \<longleftrightarrow> selectable modeID o1 t q i"
    if "q \<noteq> p"
  proof (cases "i \<in> bucketOf (rt_avail t) (q, modeID)")
    case True
    then have "QuotaFor t1 i modeID = QuotaFor t i modeID"
      using reset_other_pool [OF prems(1,3) True that] by (simp add: spec(1))
    then show ?thesis
      using only_quotaD [OF t1(2)] by (simp add: s selectable_def usableSlot_def WindowFor_def)
  next
    case False
    then have "\<not> (i < length (rt_tokens t) \<and> isKnownModeID modeID \<and> rt_pool t ! i = q \<and>
        rt_status t ! i = StatusActive \<and> 0 < WindowFor t i modeID)"
      by (simp only: bucket_iff [OF prems(1)] simp_thms)
    then show ?thesis
      using only_quotaD [OF t1(2)] by (auto simp: s selectable_def usableSlot_def WindowFor_def)
  qed
qed

interpretation any_select: slot_selector "\<lambda>p. SelectAny strategy iter pick p o1"
    "selectableAny o1" "sel_state_ok iter pick (so_nowS o1)"
  for strategy iter pick o1
proof
  fix t p q i t'
  assume ok: "sel_state_ok iter pick (so_nowS o1) t"
  then have prems: "table_ok t" "clock_ok t (so_nowS o1)" "iterates iter" "picks pick"
    by (auto simp: sel_state_ok_def)
  obtain r t1 where s: "SelectAny strategy iter pick p o1 t = (r, t1)"
    by (cases "SelectAny strategy iter pick p o1 t")
  note spec = SelectAny_spec [OF prems s]
  show "sel_state_ok iter pick (so_nowS o1) (snd (SelectAny strategy iter pick p o1 t))"
    using ok by (simp add: s spec(1))
  show "only_quota t (snd (SelectAny strategy iter pick p o1 t))" by (simp add: s spec(1))
  note w = workingSet_selectableAny [OF prems(1)]
  show "selectableAny o1 t' p i" if "SelectAny strategy iter pick p o1 t = (Some i, t')"
    using spec s that prefer_subset w by fastforce
  show "\<not> selectableAny o1 t' p i" if "SelectAny strategy iter pick p o1 t = (None, t')"
    using spec s that w by auto
  show "selectableAny o1 (snd (SelectAny strategy iter pick p o1 t)) q i \<longleftrightarrow> selectableAny o1 t q i"
    by (simp add: s spec(1))
qed

section \<open>Counting\<close>

definition countedSlot :: "AccountRuntimeTable \<Rightarrow> int list \<Rightarrow> int \<Rightarrow> SelectOptions \<Rightarrow> bool \<Rightarrow> nat \<Rightarrow> bool" where
  "countedSlot t pools modeID o1 anyMode i \<longleftrightarrow> rt_status t ! i \<noteq> StatusDeleted \<and>
     (pools = [] \<or> rt_pool t ! i \<in> set pools) \<and> i \<notin> so_exclude o1 \<and> slotSupportsMode t i modeID anyMode"

definition availableSlot :: "AccountRuntimeTable \<Rightarrow> int list \<Rightarrow> int \<Rightarrow> SelectOptions \<Rightarrow> bool \<Rightarrow> nat \<Rightarrow> bool" where
  "availableSlot t pools modeID o1 anyMode i \<longleftrightarrow> countedSlot t pools modeID o1 anyMode i \<and>
     rt_status t ! i = StatusActive \<and> rt_coolingUntil t ! i \<le> so_nowS o1 \<and>
     rt_inflight t ! i < effectiveMaxInflight o1 \<and> slotHasSelectableQuota t i modeID anyMode"

text \<open>What a count leaves unclassified; each step keeps it.\<close>

definition unclassified :: "selectionCandidateCounts \<Rightarrow> int" where
  "unclassified c = cc_total c - cc_available c - cc_cooling c - cc_invalid c - cc_disabled c"

lemma countSlot_step:
  "cc_available (countSlot t pools m o1 b i c) =
     cc_available c + (if availableSlot t pools m o1 b i then 1 else 0)"
  "cc_total (countSlot t pools m o1 b i c) = cc_total c + (if countedSlot t pools m o1 b i then 1 else 0)"
  "unclassified (countSlot t pools m o1 b i c) = unclassified c"
  by (auto simp: countSlot_def availableSlot_def countedSlot_def countCooling_def unclassified_def Let_def status_ids)

lemma countSlot_fold:
  "cc_available (fold (countSlot t pools m o1 b) xs c) =
     cc_available c + int (length (filter (availableSlot t pools m o1 b) xs))"
  "cc_total (fold (countSlot t pools m o1 b) xs c) =
     cc_total c + int (length (filter (countedSlot t pools m o1 b) xs))"
  "unclassified (fold (countSlot t pools m o1 b) xs c) = unclassified c"
  by (induction xs arbitrary: c) (auto simp: countSlot_step)

lemma length_filter_upt: "length (filter P [0..<n]) = card {i. i < n \<and> P i}"
proof -
  have "set (filter P [0..<n]) = {i. i < n \<and> P i}" by auto
  moreover have "distinct (filter P [0..<n])" by simp
  ultimately show ?thesis by (metis distinct_card)
qed

lemma counts_card:
  "cc_available (countSelectionCandidates t pools m o1 b) =
     int (card {i. i < length (rt_tokens t) \<and> availableSlot t pools m o1 b i})"
  "cc_total (countSelectionCandidates t pools m o1 b) =
     int (card {i. i < length (rt_tokens t) \<and> countedSlot t pools m o1 b i})"
  "cc_total (countSelectionCandidates t pools m o1 b) = cc_available (countSelectionCandidates t pools m o1 b) +
     cc_cooling (countSelectionCandidates t pools m o1 b) + cc_invalid (countSelectionCandidates t pools m o1 b) +
     cc_disabled (countSelectionCandidates t pools m o1 b)"
  using countSlot_fold [of t pools m o1 b "[0..<length (rt_tokens t)]" zeroCounts]
  by (simp_all add: countSelectionCandidates_def zeroCounts_def length_filter_upt unclassified_def)

lemma available_iff_selectable:
  assumes "table_ok t" "isKnownModeID m" "pools \<noteq> []"
  shows "i < length (rt_tokens t) \<and> availableSlot t pools m o1 False i \<longleftrightarrow> (\<exists>p \<in> set pools. selectable m o1 t p i)"
proof -
  have "i \<in> bucketOf (rt_avail t) (p, m) \<longleftrightarrow> i < length (rt_tokens t) \<and> rt_pool t ! i = p \<and>
      rt_status t ! i = StatusActive \<and> WindowFor t i m > 0" for p
    using assms(1,2) by (auto simp: table_ok_def avail_ok_def availableSet_def WindowFor_def)
  then show ?thesis
    using assms(2,3)
    by (auto simp: availableSlot_def countedSlot_def selectable_def usableSlot_def slotSupportsMode_def
        slotHasSelectableQuota_def status_ids effectiveMaxInflight_def defaultMaxInflight_def)
qed

section \<open>Properties\<close>

text \<open>C12. Selection for a mode, under both strategies and for any order of the map and any random number:
  a slot is returned exactly when one may be used, that is, when the pool has an active slot that is not excluded, whose
  cooling period is over, with fewer requests in flight than the limit, and with a window and quota left for the mode. The
  slot returned is one of these, one with a preferred tag if there is any. The call changes nothing but quotas and reset
  times: where the reset of a slot of pool 0 is due its quota is full again before slots are looked at.\<close>

theorem select_sound_complete:
  assumes "table_ok t" "clock_ok t (so_nowS o1)" "iterates iter" "picks pick"
    and "Select strategy iter pick pool modeID o1 t = (r, t')"
  shows "table_ok t' \<and> only_quota t t' \<and> (r = None \<longleftrightarrow> (\<forall>i. \<not> selectable modeID o1 t' pool i)) \<and>
    (\<forall>i. r = Some i \<longrightarrow> selectable modeID o1 t' pool i \<and> i < length (rt_tokens t) \<and> rt_pool t ! i = pool \<and>
      rt_status t ! i = StatusActive \<and> 0 < WindowFor t i modeID \<and>
      ((\<exists>j \<in> so_prefer o1. selectable modeID o1 t' pool j) \<longrightarrow> i \<in> so_prefer o1)) \<and>
    (\<forall>i \<in> bucketOf (rt_avail t) (pool, modeID). QuotaFor t' i modeID =
      (if pool = 0 \<and> resetDue t modeID pool (so_nowS o1) i then TotalFor t i modeID else QuotaFor t i modeID))"
proof -
  note spec = Select_spec [OF assms]
  have t1: "table_ok t'" "only_quota t t'" "rt_avail t' = rt_avail t"
    using resetTable_facts [OF assms(1,3)] by (simp_all add: spec(1))
  let ?w = "workingSet t' (Some modeID) o1 (bucketOf (rt_avail t') (pool, modeID))"
  have w: "selectable modeID o1 t' pool i \<longleftrightarrow> i \<in> ?w" for i by (rule workingSet_selectable [OF t1(1), symmetric])
  have none: "r = None \<longleftrightarrow> ?w = {}"
    using spec(2) prefer_subset by (cases r) auto
  have some: "i \<in> ?w \<and> ((\<exists>j \<in> so_prefer o1. j \<in> ?w) \<longrightarrow> i \<in> so_prefer o1)" if "r = Some i" for i
    using spec(2) that prefer_subset [of ?w "so_prefer o1"] prefer_preferred [of ?w "so_prefer o1"] by auto
  have slot: "i < length (rt_tokens t) \<and> rt_pool t ! i = pool \<and> rt_status t ! i = StatusActive \<and> 0 < WindowFor t i modeID"
    if "i \<in> ?w" for i
    using that workingSet_subset [of t'] assms(1) t1(3)
    by (auto simp: table_ok_def avail_ok_def availableSet_def WindowFor_def)
  have quota: "QuotaFor t' i modeID =
      (if pool = 0 \<and> resetDue t modeID pool (so_nowS o1) i then TotalFor t i modeID else QuotaFor t i modeID)"
    if "i \<in> bucketOf (rt_avail t) (pool, modeID)" for i
    using maybeResetWindows_effect(3) [OF assms(1,3) bucket_slots [OF assms(1)]] that
    by (simp add: spec(1) resetTable_def supportsQuotaWindowReset_def)
  show ?thesis using t1(1,2) none some slot quota by (auto simp: w)
qed

definition sampleOptions :: SelectOptions where
  "sampleOptions = \<lparr>so_exclude = {0}, so_prefer = {}, so_nowS = 0, so_maxInflight = 0\<rparr>"

lemma sample_params: "iterates sorted_list_of_set" "picks (\<lambda>n. 0)"
  by (simp_all add: iterates_def picks_def)

lemma sampleTable_ok: "table_ok sampleTable"
  using sampleTable_reach by (induction rule: rtranclp_induct) (auto intro: empty_ok table_step_ok)

lemma sampleTable_clock: "clock_ok sampleTable 0"
  by (auto simp: clock_ok_def sampleTable_def AppendSlot_def addToTagIdx_def addToIndexes_def appendRow_def
      sampleSlot_def MakeEmptyTable_def Let_def less_Suc_eq nth_Cons')

lemma sampleTable_bucket: "1 \<in> bucketOf (rt_avail sampleTable) (0, 1)"
proof -
  have "bucketOf (rt_avail sampleTable) (0, 1) = availableSet sampleTable 0 1"
    using sampleTable_ok by (simp add: table_ok_def avail_ok_def)
  then show ?thesis
    by (simp add: availableSet_def sampleTable_simps known_modes StatusActive_def table_simps modeVal_def
        sampleVals_def clampNonNegative_def)
qed

lemma sampleTable_quota: "QuotaFor sampleTable 1 1 = 30"
  by (simp add: QuotaFor_def sampleTable_simps table_simps modeVal_def sampleVals_def clampQuota_def)

lemma sampleTable_notDue: "\<not> resetDue sampleTable 1 0 0 1"
  by (simp add: resetDue_def ResetFor_def sampleTable_def AppendSlot_def addToTagIdx_def addToIndexes_def
      appendRow_def sampleSlot_def MakeEmptyTable_def Let_def table_simps modeVal_def sampleVals_def)

theorem select_sound_complete_witness:
  "\<exists>t'. Select strategyQuota sorted_list_of_set (\<lambda>n. 0) 0 1 sampleOptions sampleTable = (Some 1, t')"
proof -
  obtain r t' where s: "Select strategyQuota sorted_list_of_set (\<lambda>n. 0) 0 1 sampleOptions sampleTable = (r, t')"
    by (cases "Select strategyQuota sorted_list_of_set (\<lambda>n. 0) 0 1 sampleOptions sampleTable")
  have "clock_ok sampleTable (so_nowS sampleOptions)" using sampleTable_clock by (simp add: sampleOptions_def)
  note th = select_sound_complete [OF sampleTable_ok this sample_params s]
  then have q: "QuotaFor t' 1 1 = 30"
    using sampleTable_bucket sampleTable_notDue sampleTable_quota by (auto simp: sampleOptions_def)
  have oq: "only_quota sampleTable t'" using th by blast
  have "selectable 1 sampleOptions t' 0 1"
    using q sampleTable_bucket bucket_iff [OF sampleTable_ok, of 1 0 1]
    by (simp add: selectable_def usableSlot_def WindowFor_def only_quotaD [OF oq] sampleTable_simps sampleOptions_def)
  then obtain i where i: "r = Some i" "selectable 1 sampleOptions t' 0 i" "i < 2"
    using th by (cases r) (auto simp: sampleTable_simps)
  then have "i \<noteq> 0" by (auto simp: selectable_def usableSlot_def sampleOptions_def)
  with i s show ?thesis by (metis One_nat_def less_2_cases)
qed

text \<open>The quota strategy returns a slot of highest score among the slots it may choose from, whatever the
  order of the map.\<close>

theorem quota_select_best:
  assumes "table_ok t" "clock_ok t (so_nowS o1)" "iterates iter"
    and "quotaSelect iter pool modeID o1 t = (Some i, t')"
    and "j \<in> preferIfAvailable (workingSet t' (Some modeID) o1 (bucketOf (rt_avail t') (pool, modeID))) (so_prefer o1)"
  shows "slotScore t' (Some modeID) (so_nowS o1) j \<le> slotScore t' (Some modeID) (so_nowS o1) i"
proof -
  let ?c = "bucketOf (rt_avail t) (pool, modeID)"
  have t': "t' = resetTable iter pool modeID (so_nowS o1) t" and ne: "?c \<noteq> {}"
    using assms(4) by (auto simp: quotaSelect_def resetTable_def Let_def split: if_splits)
  have t1: "table_ok t'" "only_quota t t'" "rt_avail t' = rt_avail t"
    using resetTable_facts [OF assms(1,3)] by (simp_all add: t')
  let ?p = "preferIfAvailable (workingSet t' (Some modeID) o1 (bucketOf (rt_avail t') (pool, modeID))) (so_prefer o1)"
  have i: "best iter t' ?p modeID (so_nowS o1) = Some i"
    using assms(4) ne t1(3) t' by (auto simp: quotaSelect_def resetTable_def Let_def split: if_splits)
  have sub: "?p \<subseteq> {..<length (rt_tokens t')}"
    using prefer_subset workingSet_subset bucket_slots [OF t1(1)] by blast
  have pos: "0 < QuotaFor t' k modeID" if "k \<in> ?p" for k
    using that prefer_subset by (fastforce simp: workingSet_def)
  have clock: "clock_ok t' (so_nowS o1)" using assms(2) clock_quota_only [OF t1(2)] by simp
  have "?p \<noteq> {}" using assms(5) by blast
  then obtain k where "best iter t' ?p modeID (so_nowS o1) = Some k"
    "\<And>j. j \<in> ?p \<Longrightarrow> slotScore t' (Some modeID) (so_nowS o1) j \<le> slotScore t' (Some modeID) (so_nowS o1) k"
    using best_spec [OF t1(1) clock assms(3) sub _ pos] by metis
  with i assms(5) show ?thesis by simp
qed

theorem quota_select_best_witness:
  "\<exists>i t'. quotaSelect sorted_list_of_set 0 1 (sampleOptions\<lparr>so_exclude := {}\<rparr>) sampleTable = (Some i, t') \<and>
     slotScore t' (Some 1) 0 1 \<le> slotScore t' (Some 1) 0 i"
proof -
  let ?o = "sampleOptions\<lparr>so_exclude := {}\<rparr>"
  have clock: "clock_ok sampleTable (so_nowS ?o)" using sampleTable_clock by (simp add: sampleOptions_def)
  obtain r t' where s: "quotaSelect sorted_list_of_set 0 1 ?o sampleTable = (r, t')"
    by (cases "quotaSelect sorted_list_of_set 0 1 ?o sampleTable")
  then have sel: "Select strategyQuota sorted_list_of_set (\<lambda>n. 0) 0 1 ?o sampleTable = (r, t')"
    by (simp add: Select_def strategyQuota_def strategyRandom_def)
  note spec = Select_spec [OF sampleTable_ok clock sample_params sel]
  have facts: "only_quota sampleTable t'" "rt_avail t' = rt_avail sampleTable"
    using resetTable_facts [OF sampleTable_ok sample_params(1)] by (simp_all add: spec(1))
  have "QuotaFor t' 1 1 = 30"
    using maybeResetWindows_effect(3) [OF sampleTable_ok sample_params(1) bucket_slots [OF sampleTable_ok]]
      sampleTable_notDue sampleTable_quota
    by (simp add: spec(1) resetTable_def sampleOptions_def)
  then have w: "1 \<in> workingSet t' (Some 1) ?o (bucketOf (rt_avail t') (0, 1))"
    using sampleTable_bucket
    by (simp add: workingSet_def only_quotaD [OF facts(1)] sampleTable_simps sampleOptions_def
        effectiveMaxInflight_def defaultMaxInflight_def)
  then obtain i where r: "r = Some i" using spec(2) by (cases r) auto
  have "1 \<in> preferIfAvailable (workingSet t' (Some 1) ?o (bucketOf (rt_avail t') (0, 1))) (so_prefer ?o)"
    using w by (simp add: preferIfAvailable_def sampleOptions_def)
  from quota_select_best [OF sampleTable_ok clock sample_params(1) s [unfolded r] this] s r show ?thesis
    by (auto simp: sampleOptions_def)
qed

text \<open>The counts behind \<open>SelectionStatus\<close> and \<open>classifyReserveFailure\<close> partition the slots they count,
  and for a known mode \<open>available\<close> counts exactly the slots the selectors could return.\<close>

theorem counts_partition:
  assumes "table_ok t" "isKnownModeID m" "pools \<noteq> []"
  shows "let c = countSelectionCandidates t pools m o1 False
    in cc_total c = cc_available c + cc_cooling c + cc_invalid c + cc_disabled c \<and>
       cc_available c = int (card {i. \<exists>p \<in> set pools. selectable m o1 t p i}) \<and>
       cc_total c = int (card {i. i < length (rt_tokens t) \<and> rt_status t ! i \<noteq> StatusDeleted \<and>
         rt_pool t ! i \<in> set pools \<and> i \<notin> so_exclude o1 \<and> 0 < WindowFor t i m})"
proof -
  have "{i. i < length (rt_tokens t) \<and> availableSlot t pools m o1 False i} =
      {i. \<exists>p \<in> set pools. selectable m o1 t p i}"
    using available_iff_selectable [OF assms] by blast
  moreover have "{i. i < length (rt_tokens t) \<and> countedSlot t pools m o1 False i} =
      {i. i < length (rt_tokens t) \<and> rt_status t ! i \<noteq> StatusDeleted \<and>
         rt_pool t ! i \<in> set pools \<and> i \<notin> so_exclude o1 \<and> 0 < WindowFor t i m}"
    using assms(2,3) by (auto simp: countedSlot_def slotSupportsMode_def)
  ultimately show ?thesis using counts_card [of t pools m o1 False] by (simp add: Let_def)
qed

theorem counts_partition_witness:
  "cc_total (countSelectionCandidates sampleTable [0] 1 sampleOptions False) = 1"
proof -
  have "WindowFor sampleTable 1 1 = 30"
    by (simp add: WindowFor_def sampleTable_simps table_simps modeVal_def sampleVals_def clampNonNegative_def)
  then have "{i. i < length (rt_tokens sampleTable) \<and> rt_status sampleTable ! i \<noteq> StatusDeleted \<and>
      rt_pool sampleTable ! i \<in> set [0] \<and> i \<notin> so_exclude sampleOptions \<and> 0 < WindowFor sampleTable i 1} = {1}"
    by (auto simp: sampleTable_simps sampleOptions_def less_2_cases_iff status_ids)
  then show ?thesis
    using counts_partition [OF sampleTable_ok, of 1 "[0]" sampleOptions] by (simp add: Let_def known_modes)
qed

end
