(* ===== verification/DirectorySync.thy ===== *)
theory DirectorySync
  imports Selector
begin

text \<open>
  The account directory (\<open>app/dataplane/account/sync.go\<close>, \<open>directory.go\<close>, \<open>lease.go\<close>): building
  the runtime table from a repository snapshot, catching up with the repository's changes, reserving
  and releasing slots, and runtime feedback. The repository is the function its methods compute on
  the current database; the loop of \<open>ApplyChanges\<close> carries fuel, and \<open>change_feed\<close> gives how much
  is enough. Configuration values, the clock and lease ids are arguments.
\<close>

section \<open>Records to slots\<close>

definition MSToS :: "int \<Rightarrow> int" where
  "MSToS ms = (let q = truncDiv ms 1000; r = truncMod ms 1000 in if r \<noteq> 0 \<and> ms < 0 then q - 1 else q)"

lemma MSToS_floor: "MSToS ms = ms div 1000"
proof (cases "ms < 0")
  case True
  then have "truncDiv ms 1000 = - ((- ms) div 1000)" by (simp add: truncDiv_def sgn_if)
  then show ?thesis
    using True by (auto simp: MSToS_def truncMod_def Let_def zdiv_zminus1_eq_if zmod_zminus1_eq_if
        minus_div_mult_eq_mod)
next
  case False
  then show ?thesis by (auto simp: MSToS_def truncDiv_def sgn_if)
qed

text \<open>\<open>time.Now().Unix()\<close> cuts to the second below as well, so both clocks agree.\<close>

definition PoolStringToID :: "string \<rightharpoonup> int" where
  "PoolStringToID = [''basic'' \<mapsto> 0, ''super'' \<mapsto> 1, ''heavy'' \<mapsto> 2]"

definition PoolIDToString :: "int \<rightharpoonup> string" where
  "PoolIDToString = [0 \<mapsto> ''basic'', 1 \<mapsto> ''super'', 2 \<mapsto> ''heavy'']"

definition StatusStringToID :: "string \<rightharpoonup> int" where
  "StatusStringToID = [''active'' \<mapsto> StatusActive, ''cooling'' \<mapsto> StatusCooling,
     ''expired'' \<mapsto> StatusExpired, ''disabled'' \<mapsto> StatusDisabled]"

definition resetSeconds :: "QuotaWindow \<Rightarrow> int" where
  "resetSeconds w = (case qw_resetAt w of None \<Rightarrow> 0 | Some ms \<Rightarrow> MSToS ms)"

definition optionalMSToS :: "int option \<Rightarrow> int" where
  "optionalMSToS v = (case v of None \<Rightarrow> 0 | Some ms \<Rightarrow> MSToS ms)"

definition optionalWindowValues :: "QuotaWindow option \<Rightarrow> int \<times> int \<times> int \<times> int" where
  "optionalWindowValues ow =
    (case ow of None \<Rightarrow> (-1, 0, 0, 0)
     | Some w \<Rightarrow> (max 0 (qw_remaining w), max 0 (qw_total w), max 0 (qw_windowSeconds w), resetSeconds w))"

text \<open>\<open>remaining\<close>, \<open>total\<close>, \<open>windowSeconds\<close> and \<open>resetSeconds\<close> of the six windows.\<close>

definition windowVals :: "(int \<times> int \<times> int \<times> int \<Rightarrow> int) \<Rightarrow> AccountQuotaSet \<Rightarrow> ModeVals" where
  "windowVals part q =
    \<lparr>mv_auto = part (optionalWindowValues (Some (qs_auto q))),
     mv_fast = part (optionalWindowValues (Some (qs_fast q))),
     mv_expert = part (optionalWindowValues (Some (qs_expert q))),
     mv_heavy = part (optionalWindowValues (qs_heavy q)),
     mv_grok43 = part (optionalWindowValues (qs_grok43 q)),
     mv_console = part (optionalWindowValues (qs_console q))\<rparr>"

definition recordToSlot :: "int \<Rightarrow> AccountRecord \<Rightarrow> goerr + AccountSlot" where
  "recordToSlot now r =
    bindE (wrapE ''account quota set'' (QuotaSet r)) (\<lambda>q.
      let q = NormalizeQuotaSet (ar_pool r) q
      in Inr \<lparr>sl_token = ar_token r,
          sl_pool = (case PoolStringToID (ar_pool r) of None \<Rightarrow> 0 | Some i \<Rightarrow> i),
          sl_status = (case StatusStringToID (statusString (DeriveStatus r now)) of
             None \<Rightarrow> StatusActive | Some i \<Rightarrow> i),
          sl_quota = windowVals (\<lambda>(a, b, c, d). a) q, sl_total = windowVals (\<lambda>(a, b, c, d). b) q,
          sl_window = windowVals (\<lambda>(a, b, c, d). c) q, sl_reset = windowVals (\<lambda>(a, b, c, d). d) q,
          sl_health = 1, sl_lastUse = optionalMSToS (ar_lastUseAt r),
          sl_lastFail = optionalMSToS (ar_lastFailAt r), sl_failCount = ar_failCount r,
          sl_tags = ar_tags r\<rparr>)"

section \<open>Bootstrap and change application\<close>

text \<open>The tags whose bucket holds the slot; Go lists them in map order, here they are sorted (the only
  use deletes the slot from each bucket).\<close>

definition oldTagsFor :: "AccountRuntimeTable \<Rightarrow> nat \<Rightarrow> string list" where
  "oldTagsFor t idx = sorted_list_of_set {tag \<in> fset (fmdom (rt_tags t)). idx \<in> bucketOf (rt_tags t) tag}"

definition putSlot :: "AccountSlot \<Rightarrow> AccountRuntimeTable \<Rightarrow> AccountRuntimeTable" where
  "putSlot slot t =
    (case rt_idx t (sl_token slot) of
       Some i \<Rightarrow> UpdateSlot i slot (oldTagsFor t i) t
     | None \<Rightarrow> AppendSlot slot t)"

fun bootstrapItems :: "int \<Rightarrow> AccountRecord list \<Rightarrow> AccountRuntimeTable \<Rightarrow> goerr + AccountRuntimeTable" where
  "bootstrapItems now [] t = Inr t"
| "bootstrapItems now (r # rs) t =
    (if IsDeleted r then bootstrapItems now rs t
     else bindE (recordToSlot now r) (\<lambda>slot. bootstrapItems now rs (putSlot slot t)))"

definition Bootstrap :: "int \<Rightarrow> goerr + RuntimeSnapshot \<Rightarrow> goerr + AccountRuntimeTable" where
  "Bootstrap now snapshot =
    bindE snapshot (\<lambda>sn. bindE (bootstrapItems now (sn_items sn) MakeEmptyTable) (\<lambda>t.
      Inr (t\<lparr>rt_revision := sn_revision sn\<rparr>)))"

text \<open>A change application in progress: the error that stopped it, the table, the \<open>changed\<close> flag.\<close>

type_synonym sync_state = "goerr option \<times> AccountRuntimeTable \<times> bool"

definition deleteToken :: "string \<Rightarrow> AccountRuntimeTable \<times> bool \<Rightarrow> AccountRuntimeTable \<times> bool" where
  "deleteToken token s =
    (case rt_idx (fst s) token of None \<Rightarrow> s | Some i \<Rightarrow> (markDeleted i (fst s), True))"

fun applyItems :: "int \<Rightarrow> AccountRecord list \<Rightarrow> AccountRuntimeTable \<times> bool \<Rightarrow> sync_state" where
  "applyItems now [] s = (None, s)"
| "applyItems now (r # rs) s =
    (if IsDeleted r then applyItems now rs (deleteToken (ar_token r) s)
     else case recordToSlot now r of
            Inl e \<Rightarrow> (Some e, s)
          | Inr slot \<Rightarrow> applyItems now rs (putSlot slot (fst s), True))"

definition bumpTableRevision :: "int \<Rightarrow> AccountRuntimeTable \<Rightarrow> AccountRuntimeTable" where
  "bumpTableRevision n t = (if n > rt_revision t then t\<lparr>rt_revision := n\<rparr> else t)"

fun ApplyChanges ::
    "nat \<Rightarrow> int \<Rightarrow> (int \<Rightarrow> goerr + AccountChangeSet) \<Rightarrow> AccountRuntimeTable \<times> bool \<Rightarrow> sync_state option" where
  "ApplyChanges 0 now scan s = None"
| "ApplyChanges (Suc fuel) now scan s =
    (case scan (rt_revision (fst s)) of
       Inl e \<Rightarrow> Some (Some e, s)
     | Inr cs \<Rightarrow>
         (case applyItems now (cs_items cs) (fold deleteToken (cs_deletedTokens cs) s) of
            (Some e, s') \<Rightarrow> Some (Some e, s')
          | (None, t, changed) \<Rightarrow>
              let t = bumpTableRevision (cs_revision cs) t
              in if \<not> cs_hasMore cs then Some (None, t, changed)
                 else ApplyChanges fuel now scan (t, changed)))"

text \<open>The methods of \<open>AccountDirectory\<close> over an optional table (nil before the bootstrap): a failing
  bootstrap keeps the table it has, \<open>SyncIfChanged\<close> without a table does nothing.\<close>

definition dirBootstrap :: "int \<Rightarrow> goerr + RuntimeSnapshot \<Rightarrow> AccountRuntimeTable option \<Rightarrow>
    goerr option \<times> AccountRuntimeTable option" where
  "dirBootstrap now snapshot dir =
    (case Bootstrap now snapshot of Inl e \<Rightarrow> (Some e, dir) | Inr t \<Rightarrow> (None, Some t))"

definition SyncIfChanged ::
    "nat \<Rightarrow> int \<Rightarrow> (int \<Rightarrow> goerr + AccountChangeSet) \<Rightarrow> AccountRuntimeTable option \<Rightarrow>
     (goerr option \<times> bool \<times> AccountRuntimeTable option) option" where
  "SyncIfChanged fuel now scan dir =
    (case dir of
       None \<Rightarrow> Some (None, False, None)
     | Some t \<Rightarrow> map_option (\<lambda>(e, t', changed). (e, changed, Some t')) (ApplyChanges fuel now scan (t, False)))"

section \<open>Reservations\<close>

record ReserveOptions =
  ro_excludeTokens :: "string list"
  ro_preferTags :: "string list"

record AccountLease =
  le_id :: int
  le_idx :: nat
  le_token :: string
  le_pool :: int
  le_mode :: int
  le_selectedAt :: int

definition NewLease :: "int \<Rightarrow> nat \<Rightarrow> string \<Rightarrow> int \<Rightarrow> int \<Rightarrow> int \<Rightarrow> AccountLease" where
  "NewLease nextID idx token pool modeID selectedAt =
    \<lparr>le_id = nextID, le_idx = idx, le_token = token, le_pool = pool, le_mode = modeID, le_selectedAt = selectedAt\<rparr>"

definition excludeIdxs :: "AccountRuntimeTable \<Rightarrow> string list \<Rightarrow> nat set" where
  "excludeIdxs t tokens = the ` (rt_idx t ` set tokens - {None})"

definition preferTagIdxs :: "AccountRuntimeTable \<Rightarrow> string list \<Rightarrow> nat set" where
  "preferTagIdxs t tags = \<Union> (bucketOf (rt_tags t) ` set tags)"

definition selectOptions :: "AccountRuntimeTable \<Rightarrow> int \<Rightarrow> int \<Rightarrow> ReserveOptions \<Rightarrow> SelectOptions" where
  "selectOptions t configured ts ro =
    \<lparr>so_exclude = excludeIdxs t (ro_excludeTokens ro), so_prefer = preferTagIdxs t (ro_preferTags ro),
     so_nowS = ts, so_maxInflight = selectionMaxInflight configured\<rparr>"

text \<open>The environment of a reservation: the strategy in force, the order of map iteration, the random
  number source, the configured in-flight limit, the next lease id.\<close>

record ReserveEnv =
  re_strategy :: string
  re_iter :: iteration
  re_pick :: "nat \<Rightarrow> nat"
  re_maxInflight :: int
  re_nextID :: int

definition reserveDetailed ::
    "ReserveEnv \<Rightarrow> int list \<Rightarrow> int \<Rightarrow> ReserveOptions \<Rightarrow> int \<Rightarrow> bool \<Rightarrow> AccountRuntimeTable option \<Rightarrow>
     (AccountLease option \<times> ReserveFailureReason) \<times> AccountRuntimeTable option" where
  "reserveDetailed env pools modeID ro ts anyMode dir =
    (if pools = [] then ((None, RfNoAvailable), dir)
     else case dir of
       None \<Rightarrow> ((None, RfNoAvailable), None)
     | Some t \<Rightarrow>
         let o1 = selectOptions t (re_maxInflight env) ts ro;
             sel = (if anyMode then (\<lambda>p. SelectAny (re_strategy env) (re_iter env) (re_pick env) p o1)
                    else (\<lambda>p. Select (re_strategy env) (re_iter env) (re_pick env) p modeID o1))
         in (case firstPool sel pools t of
               (None, t1) \<Rightarrow> ((None, classifyReserveFailure t1 pools modeID o1 anyMode), Some t1)
             | (Some i, t1) \<Rightarrow>
                 let t2 = UpdateLastUse i ts (IncrementInflight i t1)
                 in ((Some (NewLease (re_nextID env) i (GetToken t2 i) (GetPoolID t2 i) modeID ts), RfNone), Some t2)))"

definition Release :: "AccountLease \<Rightarrow> AccountRuntimeTable option \<Rightarrow> AccountRuntimeTable option" where
  "Release lease dir =
    (case dir of None \<Rightarrow> None
     | Some t \<Rightarrow> if le_idx lease \<ge> length (rt_inflight t) then Some t
                 else Some (DecrementInflight (le_idx lease) t))"

section \<open>Runtime feedback\<close>

definition directoryPoolInterval :: "string \<Rightarrow> (string \<times> int) option" where
  "directoryPoolInterval pool =
    (if pool = ''basic'' then Some (''account.refresh.basic_interval_sec'', 86400)
     else if pool = ''super'' then Some (''account.refresh.super_interval_sec'', 7200)
     else if pool = ''heavy'' then Some (''account.refresh.heavy_interval_sec'', 7200)
     else None)"

definition poolCoolingSec :: "(string \<Rightarrow> int \<Rightarrow> int) \<Rightarrow> int \<Rightarrow> int" where
  "poolCoolingSec getInt poolID =
    (let pool = (case PoolIDToString poolID of None \<Rightarrow> ''basic'' | Some s \<Rightarrow> s);
         (key, defaultSec) = (case directoryPoolInterval pool of
            Some i \<Rightarrow> i | None \<Rightarrow> (''account.refresh.basic_interval_sec'', 86400));
         seconds = getInt key defaultSec
     in if seconds < 0 then 0 else seconds)"

definition feedbackSlot ::
    "string \<Rightarrow> (string \<Rightarrow> int \<Rightarrow> int) \<Rightarrow> FeedbackKind \<Rightarrow> int \<Rightarrow> int \<Rightarrow> nat \<Rightarrow> AccountRuntimeTable \<Rightarrow> AccountRuntimeTable" where
  "feedbackSlot strategy getInt kind modeID ts i t =
    (case kind of
       FbSuccess \<Rightarrow> if strategy = strategyRandom then ApplySuccessRandom i t else ApplySuccessQuota i modeID t
     | FbRateLimited \<Rightarrow>
         UpdateLastFail i ts
           (if strategy = strategyRandom
            then ApplyRateLimitedRandom i modeID ts (poolCoolingSec getInt (rt_pool t ! i)) t
            else ApplyRateLimitedQuota i modeID t)
     | FbUnauthorized \<Rightarrow> ApplyStatusChange i StatusExpired (UpdateLastFail i ts (ApplyAuthFailure i t))
     | FbForbidden \<Rightarrow> UpdateLastFail i ts (ApplyForbidden i t)
     | FbServerError \<Rightarrow> UpdateLastFail i ts (ApplyServerError i t)
     | _ \<Rightarrow> t)"

definition dirFeedback ::
    "string \<Rightarrow> (string \<Rightarrow> int \<Rightarrow> int) \<Rightarrow> string \<Rightarrow> FeedbackKind \<Rightarrow> int \<Rightarrow> int \<Rightarrow> (int \<times> int) option \<Rightarrow>
     AccountRuntimeTable option \<Rightarrow> AccountRuntimeTable option" where
  "dirFeedback strategy getInt token kind modeID ts quotaUpdate dir =
    (case dir of
       None \<Rightarrow> None
     | Some t \<Rightarrow>
         (case rt_idx t token of
            None \<Rightarrow> Some t
          | Some i \<Rightarrow>
              let t1 = feedbackSlot strategy getInt kind modeID ts i t
              in (case quotaUpdate of
                    Some (remaining, resetAtMS) \<Rightarrow>
                      if strategy = strategyQuota
                      then Some (ApplyQuotaUpdate i modeID remaining (truncDiv resetAtMS 1000) t1) else Some t1
                  | None \<Rightarrow> Some t1)))"

record SelectionStatus =
  ss_strategy :: string
  ss_maxInflight :: int
  ss_counts :: selectionCandidateCounts

definition dirSelectionStatus :: "string \<Rightarrow> int \<Rightarrow> int \<Rightarrow> AccountRuntimeTable option \<Rightarrow> SelectionStatus" where
  "dirSelectionStatus strategy configured nowS dir =
    (let limit = selectionMaxInflight configured;
         o1 = \<lparr>so_exclude = {}, so_prefer = {}, so_nowS = nowS, so_maxInflight = limit\<rparr>
     in \<lparr>ss_strategy = strategy, ss_maxInflight = limit,
         ss_counts = (case dir of None \<Rightarrow> zeroCounts | Some t \<Rightarrow> countSelectionCandidates t [] (-1) o1 True)\<rparr>)"

definition AvailablePools :: "int \<Rightarrow> int \<Rightarrow> AccountRuntimeTable option \<Rightarrow> string set" where
  "AvailablePools configured nowS dir =
    (case dir of
       None \<Rightarrow> {}
     | Some t \<Rightarrow>
         let o1 = \<lparr>so_exclude = {}, so_prefer = {}, so_nowS = nowS, so_maxInflight = selectionMaxInflight configured\<rparr>
         in set (map snd (filter (\<lambda>(poolID, pool).
              list_ex (\<lambda>m. cc_available (countSelectionCandidates t [poolID] m o1 False) > 0) allModeIDs)
              [(0, ''basic''), (1, ''super''), (2, ''heavy'')])))"

section \<open>What a slot shows of its record\<close>

record SlotView =
  sv_pool :: int
  sv_status :: int
  sv_quota :: "int \<Rightarrow> int"
  sv_total :: "int \<Rightarrow> int"
  sv_window :: "int \<Rightarrow> int"
  sv_reset :: "int \<Rightarrow> int"
  sv_failCount :: int
  sv_lastUse :: int
  sv_lastFail :: int

definition slotView :: "AccountRuntimeTable \<Rightarrow> nat \<Rightarrow> SlotView" where
  "slotView t i = \<lparr>sv_pool = rt_pool t ! i, sv_status = rt_status t ! i, sv_quota = QuotaFor t i,
     sv_total = TotalFor t i, sv_window = WindowFor t i, sv_reset = ResetFor t i,
     sv_failCount = rt_failCount t ! i, sv_lastUse = rt_lastUse t ! i, sv_lastFail = rt_lastFail t ! i\<rparr>"

definition viewOfSlot :: "AccountSlot \<Rightarrow> SlotView" where
  "viewOfSlot s = \<lparr>sv_pool = sl_pool s, sv_status = sl_status s,
     sv_quota = (\<lambda>m. clampQuota (modeVal (sl_quota s) m)), sv_total = (\<lambda>m. clampTotal (modeVal (sl_total s) m)),
     sv_window = (\<lambda>m. clampNonNegative (modeVal (sl_window s) m)), sv_reset = modeVal (sl_reset s),
     sv_failCount = clampFailCount (sl_failCount s), sv_lastUse = sl_lastUse s, sv_lastFail = sl_lastFail s\<rparr>"

definition viewToken :: "AccountRuntimeTable \<Rightarrow> string \<Rightarrow> SlotView option" where
  "viewToken t tok = map_option (slotView t) (rt_idx t tok)"

lemmas view_defs = slotView_def QuotaFor_def TotalFor_def WindowFor_def ResetFor_def fun_eq_iff

lemma index_frames [simp]:
  "rt_idx (addToTagIdx i tags t) = rt_idx t" "rt_idx (addToIndexes i t) = rt_idx t"
  "rt_idx (removeFromTagIdx i tags t) = rt_idx t" "rt_idx (removeFromIndexes i t) = rt_idx t"
  "slotView (addToTagIdx i tags t) = slotView t" "slotView (addToIndexes i t) = slotView t"
  "slotView (removeFromTagIdx i tags t) = slotView t" "slotView (removeFromIndexes i t) = slotView t"
  "rt_revision (addToTagIdx i tags t) = rt_revision t" "rt_revision (addToIndexes i t) = rt_revision t"
  "rt_revision (removeFromTagIdx i tags t) = rt_revision t" "rt_revision (removeFromIndexes i t) = rt_revision t"
  "rt_tokens (removeFromTagIdx i tags t) = rt_tokens t" "rt_tokens (removeFromIndexes i t) = rt_tokens t"
  by (simp_all add: addToTagIdx_def addToIndexes_def removeFromTagIdx_def removeFromIndexes_def view_defs)

lemma table_lengths:
  assumes "table_ok t"
  shows "length (rt_pool t) = length (rt_tokens t)" "length (rt_status t) = length (rt_tokens t)"
    "length (rt_failCount t) = length (rt_tokens t)" "length (rt_lastUse t) = length (rt_tokens t)"
    "length (rt_lastFail t) = length (rt_tokens t)" "length (rt_inflight t) = length (rt_tokens t)"
    "length (rt_health t) = length (rt_tokens t)" "length (rt_coolingUntil t) = length (rt_tokens t)"
    "length (modeCol (rt_quota t) m) = length (rt_tokens t)" "length (modeCol (rt_total t) m) = length (rt_tokens t)"
    "length (modeCol (rt_window t) m) = length (rt_tokens t)" "length (modeCol (rt_reset t) m) = length (rt_tokens t)"
  using assms by (auto simp: table_ok_def columns_ok_def Let_def)

lemma table_index: "table_ok t \<Longrightarrow> rt_idx t tok = Some i \<longleftrightarrow> i < length (rt_tokens t) \<and> rt_tokens t ! i = tok"
  by (simp add: table_ok_def index_ok_def)

lemma view_append:
  assumes "table_ok t"
  shows "slotView (appendRow slot t) (length (rt_tokens t)) = viewOfSlot slot"
    "j < length (rt_tokens t) \<Longrightarrow> slotView (appendRow slot t) j = slotView t j"
  using table_lengths [OF assms]
  by (simp_all add: view_defs viewOfSlot_def appendRow_def table_simps nth_append)

lemma view_overwrite:
  assumes "table_ok t" "i < length (rt_tokens t)"
  shows "slotView (overwriteRow i slot t) i = viewOfSlot slot"
    "j \<noteq> i \<Longrightarrow> slotView (overwriteRow i slot t) j = slotView t j"
  using table_lengths [OF assms(1)] assms(2)
  by (simp_all add: view_defs viewOfSlot_def overwriteRow_def table_simps)

lemma removed_ok: "slotView (overwriteRow i slot (removeFromTagIdx i tags (removeFromIndexes i t))) =
    slotView (overwriteRow i slot t)"
  by (simp add: view_defs overwriteRow_def removeFromTagIdx_def removeFromIndexes_def)

lemma putSlot_effect:
  assumes "table_ok t" "minHealth \<le> sl_health slot" "sl_health slot \<le> 1"
  shows "table_ok (putSlot slot t)" "rt_revision (putSlot slot t) = rt_revision t"
    "viewToken (putSlot slot t) tok = (if tok = sl_token slot then Some (viewOfSlot slot) else viewToken t tok)"
proof -
  have "table_ok (putSlot slot t) \<and> rt_revision (putSlot slot t) = rt_revision t \<and>
    viewToken (putSlot slot t) tok = (if tok = sl_token slot then Some (viewOfSlot slot) else viewToken t tok)"
  proof (cases "rt_idx t (sl_token slot)")
    case None
    then have p: "putSlot slot t = AppendSlot slot t" by (simp add: putSlot_def)
    have ok: "table_ok (putSlot slot t)" unfolding p using None assms by (intro AppendSlot_ok) auto
    have "rt_revision (putSlot slot t) = rt_revision t"
      by (simp add: p AppendSlot_def Let_def appendRow_def)
    moreover have "rt_idx (putSlot slot t) = (rt_idx t)(sl_token slot \<mapsto> length (rt_tokens t))"
      "slotView (putSlot slot t) = slotView (appendRow slot t)"
      by (simp_all add: p AppendSlot_def Let_def) (simp add: appendRow_def)
    moreover have "j < length (rt_tokens t)" if "rt_idx t tok = Some j" for j
      using that table_index [OF assms(1)] by simp
    ultimately show ?thesis
      using ok None view_append(1) [OF assms(1), of slot] view_append(2) [OF assms(1), of _ slot]
      by (cases "rt_idx t tok") (auto simp: viewToken_def)
  next
    case (Some i)
    then have p: "putSlot slot t = UpdateSlot i slot (oldTagsFor t i) t" by (simp add: putSlot_def)
    have i: "i < length (rt_tokens t)" "rt_tokens t ! i = sl_token slot"
      using Some table_index [OF assms(1)] by auto
    have ok: "table_ok (putSlot slot t)" unfolding p using UpdateSlot_ok [OF assms(1) i(1)] .
    have rev: "rt_revision (putSlot slot t) = rt_revision t"
      by (simp add: p UpdateSlot_def overwriteRow_def)
    have idx: "rt_idx (putSlot slot t) = rt_idx t"
      "slotView (putSlot slot t) = slotView (overwriteRow i slot t)"
      by (simp_all add: p UpdateSlot_def removed_ok) (simp add: overwriteRow_def)
    have "j \<noteq> i" if "rt_idx t tok = Some j" "tok \<noteq> sl_token slot" for j
      using that i table_index [OF assms(1)] by auto
    then show ?thesis
      using ok rev idx Some view_overwrite(1) [OF assms(1) i(1), of slot]
        view_overwrite(2) [OF assms(1) i(1), of _ slot]
      by (cases "rt_idx t tok") (auto simp: viewToken_def)
  qed
  then show "table_ok (putSlot slot t)" "rt_revision (putSlot slot t) = rt_revision t"
    "viewToken (putSlot slot t) tok = (if tok = sl_token slot then Some (viewOfSlot slot) else viewToken t tok)"
    by auto
qed

lemma deleteToken_effect:
  assumes "table_ok (fst s)"
  shows "table_ok (fst (deleteToken token s))" "rt_revision (fst (deleteToken token s)) = rt_revision (fst s)"
    "viewToken (fst (deleteToken token s)) tok =
      (if tok = token then map_option (sv_status_update (\<lambda>_. StatusDeleted)) (viewToken (fst s) tok)
       else viewToken (fst s) tok)"
proof -
  let ?t = "fst s"
  have "table_ok (fst (deleteToken token s)) \<and> rt_revision (fst (deleteToken token s)) = rt_revision ?t \<and>
    viewToken (fst (deleteToken token s)) tok =
      (if tok = token then map_option (sv_status_update (\<lambda>_. StatusDeleted)) (viewToken ?t tok)
       else viewToken ?t tok)"
  proof (cases "rt_idx ?t token")
    case None
    then show ?thesis using assms by (simp add: deleteToken_def viewToken_def)
  next
    case (Some i)
    then have d: "fst (deleteToken token s) = markDeleted i ?t" by (simp add: deleteToken_def)
    have i: "i < length (rt_tokens ?t)" "rt_tokens ?t ! i = token" using Some table_index [OF assms] by auto
    have m: "rt_idx (markDeleted i ?t) = rt_idx ?t" "rt_revision (markDeleted i ?t) = rt_revision ?t"
      by (simp_all add: markDeleted_def Let_def removeFromIndexes_def)
    have v: "slotView (markDeleted i ?t) j =
        (if j = i then (slotView ?t i)\<lparr>sv_status := StatusDeleted\<rparr> else slotView ?t j)" for j
      using i(1) table_lengths(2) [OF assms]
      by (simp add: markDeleted_def Let_def removeFromIndexes_def view_defs)
    have "j \<noteq> i" if "rt_idx ?t tok = Some j" "tok \<noteq> token" for j
      using that i table_index [OF assms] by auto
    then show ?thesis
      using Some markDeleted_ok [OF assms] m v by (cases "rt_idx ?t tok") (auto simp: d viewToken_def)
  qed
  then show "table_ok (fst (deleteToken token s))" "rt_revision (fst (deleteToken token s)) = rt_revision (fst s)"
    "viewToken (fst (deleteToken token s)) tok =
      (if tok = token then map_option (sv_status_update (\<lambda>_. StatusDeleted)) (viewToken (fst s) tok)
       else viewToken (fst s) tok)"
    by auto
qed

text \<open>The table shows a record: its slot data, or a tombstone (or no slot) when it is deleted.\<close>

definition reflects :: "int \<Rightarrow> AccountRuntimeTable \<Rightarrow> AccountRecord \<Rightarrow> bool" where
  "reflects now t r \<longleftrightarrow>
    (if IsDeleted r then \<forall>v. viewToken t (ar_token r) = Some v \<longrightarrow> sv_status v = StatusDeleted
     else \<exists>slot. recordToSlot now r = Inr slot \<and> viewToken t (ar_token r) = Some (viewOfSlot slot))"

lemma reflects_view:
  "reflects now t r \<Longrightarrow> viewToken t' (ar_token r) = viewToken t (ar_token r) \<Longrightarrow> reflects now t' r"
  by (simp add: reflects_def)

lemma recordToSlot_facts:
  "recordToSlot now r = Inr slot \<Longrightarrow> sl_token slot = ar_token r \<and> sl_health slot = 1"
  by (auto simp: recordToSlot_def Let_def bindE_Inr_iff)

definition convertible :: "int \<Rightarrow> AccountRecord \<Rightarrow> bool" where
  "convertible now r \<longleftrightarrow> IsDeleted r \<or> (\<exists>slot. recordToSlot now r = Inr slot)"

lemma applyItems_effect:
  assumes "table_ok (fst s)" "\<forall>r \<in> set rs. convertible now r"
    and "\<forall>r \<in> set rs. \<forall>r' \<in> set rs. ar_token r = ar_token r' \<longrightarrow> r = r'"
  shows "\<exists>s'. applyItems now rs s = (None, s') \<and> table_ok (fst s') \<and> rt_revision (fst s') = rt_revision (fst s) \<and>
    (\<forall>r \<in> set rs. reflects now (fst s') r) \<and>
    (\<forall>tok. tok \<notin> ar_token ` set rs \<longrightarrow> viewToken (fst s') tok = viewToken (fst s) tok)"
  using assms
proof (induction rs arbitrary: s)
  case (Cons r rs)
  have "\<exists>s1. applyItems now (r # rs) s = applyItems now rs s1 \<and> table_ok (fst s1) \<and>
      rt_revision (fst s1) = rt_revision (fst s) \<and> reflects now (fst s1) r \<and>
      (\<forall>tok. tok \<noteq> ar_token r \<longrightarrow> viewToken (fst s1) tok = viewToken (fst s) tok)"
  proof (cases "IsDeleted r")
    case True
    then show ?thesis
      using deleteToken_effect [OF Cons.prems(1)]
      by (intro exI [of _ "deleteToken (ar_token r) s"]) (auto simp: reflects_def)
  next
    case False
    then obtain slot where slot: "recordToSlot now r = Inr slot"
      using Cons.prems(2) by (auto simp: convertible_def)
    note f = recordToSlot_facts [OF slot]
    have "minHealth \<le> sl_health slot" "sl_health slot \<le> 1" using f fl_simps(1) by auto
    note p = putSlot_effect [OF Cons.prems(1) this]
    show ?thesis
      using False slot f p by (intro exI [of _ "(putSlot slot (fst s), True)"]) (auto simp: reflects_def)
  qed
  then obtain s1 where s1: "applyItems now (r # rs) s = applyItems now rs s1" "table_ok (fst s1)"
    "rt_revision (fst s1) = rt_revision (fst s)" "reflects now (fst s1) r"
    "\<And>tok. tok \<noteq> ar_token r \<Longrightarrow> viewToken (fst s1) tok = viewToken (fst s) tok" by blast
  obtain s' where s': "applyItems now rs s1 = (None, s')" "table_ok (fst s')"
    "rt_revision (fst s') = rt_revision (fst s1)" "\<forall>r \<in> set rs. reflects now (fst s') r"
    "\<And>tok. tok \<notin> ar_token ` set rs \<Longrightarrow> viewToken (fst s') tok = viewToken (fst s1) tok"
    using Cons.IH [OF s1(2)] Cons.prems(2,3) by (metis list.set_intros(2))
  have "reflects now (fst s') r"
  proof (cases "ar_token r \<in> ar_token ` set rs")
    case True
    then obtain r' where "r' \<in> set rs" "ar_token r = ar_token r'" by auto
    then have "r = r'" using Cons.prems(3) by (metis list.set_intros(1,2))
    then show ?thesis using s'(4) \<open>r' \<in> set rs\<close> by simp
  next
    case False
    show ?thesis using reflects_view [OF s1(4) s'(5) [OF False]] .
  qed
  then show ?case using s1 s' by auto
qed simp

lemma deleteTokens_effect:
  assumes "table_ok (fst s)"
  shows "table_ok (fst (fold deleteToken toks s)) \<and>
    rt_revision (fst (fold deleteToken toks s)) = rt_revision (fst s) \<and>
    (\<forall>tok. tok \<notin> set toks \<longrightarrow> viewToken (fst (fold deleteToken toks s)) tok = viewToken (fst s) tok) \<and>
    (\<forall>tok \<in> set toks. \<forall>v. viewToken (fst (fold deleteToken toks s)) tok = Some v \<longrightarrow> sv_status v = StatusDeleted)"
  using assms
proof (induction toks arbitrary: s)
  case (Cons a toks)
  note one = deleteToken_effect [OF Cons.prems, of a]
  note ih = Cons.IH [OF one(1)]
  have "sv_status v = StatusDeleted"
    if "tok \<in> set (a # toks)" "viewToken (fst (fold deleteToken toks (deleteToken a s))) tok = Some v" for tok v
  proof (cases "tok \<in> set toks")
    case True
    then show ?thesis using ih that(2) by blast
  next
    case False
    then have "tok = a" "viewToken (fst (deleteToken a s)) tok = Some v" using that ih by auto
    then show ?thesis using one(3) [of tok] by (cases "viewToken (fst s) a") auto
  qed
  then show ?case using ih one by auto
qed simp

lemma view_revision: "viewToken (t\<lparr>rt_revision := n\<rparr>) = viewToken t"
proof -
  have "slotView (t\<lparr>rt_revision := n\<rparr>) = slotView t" by (simp add: view_defs)
  then show ?thesis by (intro ext) (simp add: viewToken_def)
qed

lemma bumpTableRevision_effect [simp]:
  "table_ok (bumpTableRevision n t) = table_ok t" "rt_revision (bumpTableRevision n t) = max (rt_revision t) n"
  "viewToken (bumpTableRevision n t) = viewToken t"
  by (auto simp: bumpTableRevision_def view_revision)

section \<open>Catching up with the change feed\<close>

context change_feed
begin

lemma group_applied:
  assumes "ok db" "table_ok (fst s)" "pending db (rt_revision (fst s)) \<noteq> {}"
    and conv: "\<And>t n r. entry db t = Some (n, r) \<Longrightarrow> convertible now r"
    and cs: "scan (rt_revision (fst s)) db = Inr cs"
  shows "\<exists>s'. applyItems now (cs_items cs) (fold deleteToken (cs_deletedTokens cs) s) = (None, s') \<and>
    table_ok (fst s') \<and> rt_revision (fst s') = rt_revision (fst s) \<and>
    (\<forall>t r. entry db t = Some (cs_revision cs, r) \<longrightarrow> reflects now (fst s') r) \<and>
    (\<forall>t. (\<forall>r. entry db t \<noteq> Some (cs_revision cs, r)) \<longrightarrow> viewToken (fst s') t = viewToken (fst s) t)"
proof -
  note g = scan_group [OF assms(1) cs assms(3)]
  let ?s1 = "fold deleteToken (cs_deletedTokens cs) s"
  note del = deleteTokens_effect [OF assms(2), of "cs_deletedTokens cs"]
  have tok: "ar_token r = t" if "entry db t = Some (n, r)" for t n r
    using entry_bound [OF assms(1) that] by simp
  have items: "\<forall>r \<in> set (cs_items cs). convertible now r"
    "\<forall>r \<in> set (cs_items cs). \<forall>r' \<in> set (cs_items cs). ar_token r = ar_token r' \<longrightarrow> r = r'"
    using conv tok by (fastforce simp: g(1))+
  from applyItems_effect [OF conjunct1 [OF del] items] obtain s' where s':
    "applyItems now (cs_items cs) ?s1 = (None, s')" "table_ok (fst s')"
    "rt_revision (fst s') = rt_revision (fst ?s1)" "\<forall>r \<in> set (cs_items cs). reflects now (fst s') r"
    "\<And>t. t \<notin> ar_token ` set (cs_items cs) \<Longrightarrow> viewToken (fst s') t = viewToken (fst ?s1) t" by blast
  have "reflects now (fst s') r" if e: "entry db t = Some (cs_revision cs, r)" for t r
  proof (cases "IsDeleted r")
    case True
    have "t \<notin> ar_token ` set (cs_items cs)" using e True tok by (fastforce simp: g(1))
    moreover have "t \<in> set (cs_deletedTokens cs)" using e True by (auto simp: g(2))
    ultimately show ?thesis using del s'(5) True tok [OF e] by (simp add: reflects_def)
  next
    case False
    then show ?thesis using e s'(4) by (auto simp: g(1))
  qed
  moreover have "viewToken (fst s') t = viewToken (fst s) t" if e: "\<forall>r. entry db t \<noteq> Some (cs_revision cs, r)" for t
  proof -
    have "t \<notin> ar_token ` set (cs_items cs)" "t \<notin> set (cs_deletedTokens cs)"
      using e tok by (auto simp: g)
    then show ?thesis using del s'(5) by simp
  qed
  moreover have "rt_revision (fst s') = rt_revision (fst s)" using s'(3) del by simp
  ultimately show ?thesis using s'(1,2) by (intro exI [of _ s']) simp
qed

lemma apply_converges:
  assumes "ok db" "table_ok (fst s)" "card (pending db (rt_revision (fst s))) < fuel"
    and conv: "\<And>t n r. entry db t = Some (n, r) \<Longrightarrow> convertible now r"
  shows "\<exists>s'. ApplyChanges fuel now (\<lambda>since. scan since db) s = Some (None, s') \<and> table_ok (fst s') \<and>
    rt_revision (fst s') = max (rt_revision (fst s)) (rev1 db) \<and>
    (\<forall>t n r. entry db t = Some (n, r) \<longrightarrow> rt_revision (fst s) < n \<longrightarrow> reflects now (fst s') r) \<and>
    (\<forall>t. (\<forall>n r. entry db t = Some (n, r) \<longrightarrow> n \<le> rt_revision (fst s)) \<longrightarrow>
      viewToken (fst s') t = viewToken (fst s) t)"
  using assms(2,3)
proof (induction fuel arbitrary: s)
  case (Suc fuel)
  let ?old = "rt_revision (fst s)"
  show ?case
  proof (cases "pending db ?old = {}")
    case True
    have c: "scan ?old db = Inr (changeRows [] (rev1 db) False)" by (rule scan_caught_up [OF assms(1) True])
    have "n \<le> ?old" if "entry db t = Some (n, r)" for t n r
      using True that by (auto simp: pending_def not_less [symmetric])
    moreover have "ApplyChanges (Suc fuel) now (\<lambda>since. scan since db) s =
        Some (None, bumpTableRevision (rev1 db) (fst s), snd s)"
      by (cases s) (use c in \<open>simp add: changeRows_def\<close>)
    ultimately show ?thesis
      using Suc.prems(1) by (intro exI [of _ "(bumpTableRevision (rev1 db) (fst s), snd s)"]) fastforce
  next
    case False
    obtain cs where cs: "scan ?old db = Inr cs" using scan_total [OF assms(1)] by blast
    note p = scan_progress [OF assms(1) cs False]
    obtain t1 ch where a: "applyItems now (cs_items cs) (fold deleteToken (cs_deletedTokens cs) s) = (None, t1, ch)"
      "table_ok t1" "rt_revision t1 = ?old"
      "\<And>t r. entry db t = Some (cs_revision cs, r) \<Longrightarrow> reflects now t1 r"
      "\<And>t. (\<forall>r. entry db t \<noteq> Some (cs_revision cs, r)) \<Longrightarrow> viewToken t1 t = viewToken (fst s) t"
      using group_applied [OF assms(1) Suc.prems(1) False conv cs] by force
    let ?t2 = "bumpTableRevision (cs_revision cs) t1"
    have rev2: "rt_revision ?t2 = cs_revision cs" using a(3) p by simp
    have le: "cs_revision cs \<le> n" if e: "entry db t = Some (n, r)" "?old < n" for t n r
    proof -
      have "n \<in> pending db ?old" using e by (auto simp: pending_def)
      then have "n = cs_revision cs \<or> n \<in> pending db (cs_revision cs)" using p by auto
      then show ?thesis by (auto simp: pending_def)
    qed
    have view2: "reflects now ?t2 r" if "entry db t = Some (cs_revision cs, r)" for t r
      using reflects_view [OF a(4) [OF that]] by simp
    show ?thesis
    proof (cases "cs_hasMore cs")
      case True
      have "card (pending db (cs_revision cs)) < card (pending db ?old)"
        by (rule psubset_card_mono [OF pending_finite [OF assms(1)] conjunct1 [OF p]])
      then have "card (pending db (cs_revision cs)) < fuel" using Suc.prems(2) by simp
      then obtain s' where s': "ApplyChanges fuel now (\<lambda>since. scan since db) (?t2, ch) = Some (None, s')"
        "table_ok (fst s')" "rt_revision (fst s') = max (cs_revision cs) (rev1 db)"
        "\<And>t n r. entry db t = Some (n, r) \<Longrightarrow> cs_revision cs < n \<Longrightarrow> reflects now (fst s') r"
        "\<And>t. (\<forall>n r. entry db t = Some (n, r) \<longrightarrow> n \<le> cs_revision cs) \<Longrightarrow> viewToken (fst s') t = viewToken ?t2 t"
        using Suc.IH [of "(?t2, ch)"] a(2) rev2 by auto
      have run: "ApplyChanges (Suc fuel) now (\<lambda>since. scan since db) s = Some (None, s')"
        using True s'(1) by (simp add: cs a(1))
      have "reflects now (fst s') r" if e: "entry db t = Some (n, r)" "?old < n" for t n r
      proof (cases "n = cs_revision cs")
        case True
        have "ar_token r = t" using entry_bound [OF assms(1) e(1)] by simp
        then show ?thesis using reflects_view [OF view2 [OF e(1) [unfolded True]] s'(5)] e True by simp
      next
        case False
        then show ?thesis using s'(4) [OF e(1)] le [OF e] by simp
      qed
      moreover have "viewToken (fst s') t = viewToken (fst s) t"
        if e: "\<forall>n r. entry db t = Some (n, r) \<longrightarrow> n \<le> ?old" for t
        using s'(5) [of t] a(5) [of t] e p by fastforce
      moreover have "max (cs_revision cs) (rev1 db) = max ?old (rev1 db)"
        using p True scan_group(3) [OF assms(1) cs False] by auto
      ultimately show ?thesis using run s'(2,3) by metis
    next
      case False
      then have last: "\<not> cs_revision cs < rev1 db" using scan_group(3) [OF assms(1) cs \<open>pending db ?old \<noteq> {}\<close>] by simp
      have run: "ApplyChanges (Suc fuel) now (\<lambda>since. scan since db) s = Some (None, ?t2, ch)"
        using False by (simp add: cs a(1))
      have "reflects now ?t2 r" if e: "entry db t = Some (n, r)" "?old < n" for t n r
        using view2 [of t r] le [OF e] entry_bound [OF assms(1) e(1)] last e(1) by force
      moreover have "viewToken ?t2 t = viewToken (fst s) t"
        if e: "\<forall>n r. entry db t = Some (n, r) \<longrightarrow> n \<le> ?old" for t
        using a(5) [of t] e p by fastforce
      moreover have "cs_revision cs \<le> rev1 db"
      proof -
        have "cs_revision cs \<in> pending db ?old" using p by auto
        then show ?thesis using entry_bound [OF assms(1)] by (auto simp: pending_def)
      qed
      ultimately show ?thesis using run last rev2 a(2) p by (intro exI [of _ "(?t2, ch)"]) auto
    qed
  qed
qed simp

end

end
