(* ===== verification/AccountRepoProps.thy ===== *)
theory AccountRepoProps
  imports AccountRepo "HOL-Library.Multiset"
begin

text \<open>
  What the SQLite repository promises: its mutations as a step relation with an invariant and
  monotone revision stamps, the functional behaviour of upserts, patches and deletes as seen by
  later reads, and the paging of \<open>ListAccounts\<close>.
\<close>

section \<open>Mutations as steps\<close>

inductive repo_step :: "LocalDB \<Rightarrow> LocalDB \<Rightarrow> bool" where
  upsert: "repo_step db (snd (UpsertAccounts now items db))"
| patch: "repo_step db (snd (PatchAccounts now patches db))"
| delete: "repo_step db (snd (DeleteAccounts now tokens db))"
| replace: "repo_step db (snd (ReplacePool now command db))"

inductive_cases repo_stepE: "repo_step db db'"

definition emptyDB :: LocalDB where
  "emptyDB = \<lparr>db_rows = [], db_revision = 0\<rparr>"

text \<open>No row disappears, and every row that is new or different carries a stamp above \<open>k\<close>.\<close>

definition stamped :: "int \<Rightarrow> LocalRow list \<Rightarrow> LocalRow list \<Rightarrow> bool" where
  "stamped k rows rows' \<longleftrightarrow> (\<forall>r \<in> set rows'. r \<in> set rows \<or> k < lr_revision r) \<and>
     lr_token ` set rows \<subseteq> lr_token ` set rows'"

lemma stamped_refl [simp]: "stamped k rows rows"
  by (simp add: stamped_def)

lemma stamped_trans: "stamped k a b \<Longrightarrow> stamped k b c \<Longrightarrow> stamped k a c"
proof -
  assume ab: "stamped k a b" and bc: "stamped k b c"
  have "r \<in> set a \<or> k < lr_revision r" if "r \<in> set c" for r
    using ab bc that by (meson stamped_def)
  moreover have "lr_token ` set a \<subseteq> lr_token ` set c"
    using ab bc by (meson stamped_def subset_trans)
  ultimately show ?thesis by (simp add: stamped_def)
qed

lemma upsertRow_set: "r \<in> set (upsertRow row rows) \<Longrightarrow> r \<in> set rows \<or> lr_revision r = lr_revision row"
  by (induction rows) (auto split: if_splits)

lemma stamped_upsertRow: "k < lr_revision row \<Longrightarrow> stamped k rows (upsertRow row rows)"
  using upsertRow_tokens [of row rows] upsertRow_set by (fastforce simp: stamped_def)

lemma stamped_updateWhere:
  assumes "\<And>r. lr_token (f r) = lr_token r \<and> k < lr_revision (f r)"
  shows "stamped k rows (updateWhere P f rows)"
proof -
  have "map lr_token (updateWhere P f rows) = map lr_token rows"
    using assms by (intro updateWhere_tokens) simp
  then have "lr_token ` set (updateWhere P f rows) = lr_token ` set rows"
    by (metis set_map)
  then show ?thesis using assms by (auto simp: stamped_def updateWhere_def)
qed

lemma stamped_upserts: "k < n \<Longrightarrow> stamped k rows (snd (upsertLocalAccounts ts n items rows))"
proof (induction items arbitrary: rows)
  case (Cons item items)
  show ?case
  proof (cases "normalizeLocalUpsert ts item")
    case (Some tp)
    obtain token pool where tp: "tp = (token, pool)" by (cases tp)
    let ?rows1 = "upsertRow (insertedRow item token pool ts n) rows"
    have "stamped k rows ?rows1" using Cons.prems by (intro stamped_upsertRow) simp
    from stamped_trans [OF this Cons.IH [OF Cons.prems]] show ?thesis
      using Some tp by (simp add: case_prod_unfold Let_def)
  qed (use Cons in simp)
qed simp

lemma stamped_deletes: "k < n \<Longrightarrow> stamped k rows (snd (deleteLocalAccounts ts n tokens rows))"
proof (induction tokens arbitrary: rows)
  case (Cons token tokens)
  have "stamped k rows (updateWhere P (deleteRow ts n) rows)" for P
    using Cons.prems by (intro stamped_updateWhere) simp
  from stamped_trans [OF this Cons.IH [OF Cons.prems]] show ?case
    by (simp add: case_prod_unfold Let_def)
qed simp

lemma stamped_patch:
  "k < n \<Longrightarrow> patchLocalAccount ts n p rows = Inr (c, rows') \<Longrightarrow> stamped k rows rows'"
  by (auto simp: patchLocalAccount_def Let_def split: option.splits intro!: stamped_updateWhere)

lemma stamped_patches:
  "k < n \<Longrightarrow> patchLocalAccounts ts n ps rows = Inr (c, rows') \<Longrightarrow> stamped k rows rows'"
proof (induction ps arbitrary: rows c)
  case (Cons p ps)
  from Cons.prems(2) obtain a rows1 c2 where
    "patchLocalAccount ts n p rows = Inr (a, rows1)" "patchLocalAccounts ts n ps rows1 = Inr (c2, rows')"
    by (auto simp: bindE_Inr_iff)
  with Cons show ?case by (metis stamped_patch stamped_trans)
qed simp

lemmas mutation_defs = UpsertAccounts_def PatchAccounts_def DeleteAccounts_def ReplacePool_def bumpRevision_def

lemma repo_step_inv:
  assumes "repo_step db db'" "db_inv db"
  shows "db_inv db' \<and> db_revision db \<le> db_revision db' \<and>
    stamped (db_revision db) (db_rows db) (db_rows db')"
  using assms(1)
proof cases
  case (upsert now items)
  then show ?thesis
    using assms(2) upsertLocalAccounts_inv [of "db_revision db + 1" "db_rows db"]
      rows_inv_mono [of "db_revision db" "db_rows db" "db_revision db + 1"]
    by (auto simp: UpsertAccounts_def bumpRevision_def db_inv_rows case_prod_unfold Let_def stamped_upserts)
next
  case (patch now patches)
  show ?thesis
  proof (cases "patchLocalAccounts now (db_revision db + 1) patches (db_rows db)")
    case (Inr cr)
    then show ?thesis
      using assms(2) patch patchLocalAccounts_inv [of "db_revision db + 1" "db_rows db" now patches]
        stamped_patches [of "db_revision db" "db_revision db + 1" now patches "db_rows db"]
        rows_inv_mono [of "db_revision db" "db_rows db" "db_revision db + 1"]
      by (cases cr) (auto simp: PatchAccounts_def bumpRevision_def db_inv_rows Let_def)
  qed (use assms(2) patch in \<open>auto simp: PatchAccounts_def bumpRevision_def Let_def\<close>)
next
  case (delete now tokens)
  then show ?thesis
    using assms(2) deleteLocalAccounts_inv [of "db_revision db + 1" "db_rows db"]
      rows_inv_mono [of "db_revision db" "db_rows db" "db_revision db + 1"]
    by (auto simp: DeleteAccounts_def bumpRevision_def db_inv_rows case_prod_unfold Let_def stamped_deletes)
next
  case (replace now command)
  let ?pool = "br_pool (bulkNormalize command)"
  let ?items = "br_upserts (bulkNormalize command)"
  define rows1 where "rows1 = snd (deleteLocalPool now (db_revision db + 1) ?pool (db_rows db))"
  have rows1: "rows_inv (db_revision db + 1) rows1" "stamped (db_revision db) (db_rows db) rows1"
    using assms(2) rows_inv_mono [of "db_revision db" "db_rows db" "db_revision db + 1"]
    by (auto simp: rows1_def deleteLocalPool_def Let_def db_inv_rows intro!: updateWhere_inv stamped_updateWhere)
  have "rows_inv (2 + db_revision db) (snd (upsertLocalAccounts now (2 + db_revision db) ?items rows1))"
    using rows_inv_mono [OF rows1(1), of "2 + db_revision db"] by (intro upsertLocalAccounts_inv) simp
  moreover have "stamped (db_revision db) (db_rows db)
      (snd (upsertLocalAccounts now (2 + db_revision db) ?items rows1))"
    using rows1(2) stamped_upserts by (rule stamped_trans) simp
  ultimately show ?thesis
    using replace by (simp add: ReplacePool_def bumpRevision_def db_inv_rows case_prod_unfold Let_def rows1_def)
qed

section \<open>Properties\<close>

text \<open>C9. Whatever sequence of upserts, patches, deletes and pool replacements ran, tokens are
  distinct clean keys and no row is newer than the revision counter; a further mutation never lowers
  the counter, drops no row, and stamps every row it changes with a revision above the old counter.\<close>

theorem repo_invariant:
  assumes "repo_step\<^sup>*\<^sup>* emptyDB db" "repo_step db db'"
  shows "db_inv db \<and> db_inv db' \<and> db_revision db \<le> db_revision db' \<and>
    (\<forall>row \<in> set (db_rows db'). row \<in> set (db_rows db) \<or> db_revision db < lr_revision row) \<and>
    lr_token ` set (db_rows db) \<subseteq> lr_token ` set (db_rows db')"
proof -
  from assms(1) have "db_inv db"
  proof (induction rule: rtranclp_induct)
    case base
    show ?case by (simp add: db_inv_def emptyDB_def)
  next
    case (step y z)
    then show ?case using repo_step_inv by blast
  qed
  with repo_step_inv [OF assms(2)] show ?thesis by (simp add: stamped_def)
qed

definition sampleUpsert :: AccountUpsert where
  "sampleUpsert = \<lparr>up_token = ''tok'', up_pool = ''basic'', up_tags = [''a''], up_ext = fmempty\<rparr>"

lemma sample_clean: "token_clean ''tok''" "\<not> hasPrefix ''tok'' ''sso=''"
  by (simp_all add: token_clean_def asciiString_def byteOf_def isSpaceRune_def of_char_def hasPrefix_def)

lemma sample_normalize: "normalizeLocalUpsert now sampleUpsert = Some (''tok'', ''basic'')"
proof -
  have "NormalizeAccountToken ''tok'' = Inr ''tok''"
    using token_clean_normalize [OF sample_clean(1)] sample_clean(2) by simp
  then show ?thesis
    by (simp add: normalizeLocalUpsert_def sampleUpsert_def upsertNormalize_def NewAccountRecord_def
        bareRecord_def normalizeRecordPool_def pool_fixed normalizeRecordStatus_def)
qed

theorem repo_invariant_witness:
  "db_inv (snd (UpsertAccounts 5 [sampleUpsert] emptyDB)) \<and>
   db_revision (snd (DeleteAccounts 6 [''tok''] (snd (UpsertAccounts 5 [sampleUpsert] emptyDB)))) = 2"
proof -
  have "repo_step\<^sup>*\<^sup>* emptyDB (snd (UpsertAccounts 5 [sampleUpsert] emptyDB))"
    by (rule r_into_rtranclp, rule repo_step.upsert)
  from repo_invariant [OF this repo_step.delete [of _ 6 "[''tok'']"]] show ?thesis
    by (auto simp: DeleteAccounts_def UpsertAccounts_def bumpRevision_def emptyDB_def case_prod_unfold Let_def)
qed

section \<open>Reading after writing\<close>

lemma quotaMap_inserted:
  "quotaMap (insertedRow item token pool ts n) = fmmap jsonNorm (quotaSetToDict (DefaultQuotaSet pool))"
proof -
  have ne: "fmmap jsonNorm (windowToDict w) \<noteq> fmempty" for w by simp
  have upd: "fmmap jsonNorm (fmupd k v m) = fmupd k (jsonNorm v) (fmmap jsonNorm m)" for k v m
    by (rule fmap_ext) simp
  have swap: "fmupd ''auto'' a (fmupd ''fast'' b (fmupd ''expert'' c fmempty)) =
      fmupd ''expert'' c (fmupd ''fast'' b (fmupd ''auto'' a fmempty))" for a b c :: goval
    by (rule fmap_ext) auto
  show ?thesis
    by (simp add: quotaMap_def quotaMapAdd_def insertedRow_def quotaSetToDict_def addQuotaWindow_def Let_def
        quotaJSON_def optionalQuotaJSON_def jsonStore_def ne upd swap split: option.split)
qed

definition rowOf :: "string \<Rightarrow> LocalDB \<Rightarrow> LocalRow option" where
  "rowOf t db = findRow t (db_rows db)"

lemma findRow_None: "findRow t rows = None \<longleftrightarrow> t \<notin> lr_token ` set rows"
  by (induction rows) auto

lemma filter_findRow:
  "distinct (map lr_token rows) \<Longrightarrow>
     filter (\<lambda>r. lr_token r = t) rows = (case findRow t rows of None \<Rightarrow> [] | Some row \<Rightarrow> [row])"
proof (induction rows)
  case (Cons r rows)
  then show ?case
    by (cases "lr_token r = t") (auto simp: findRow_None [symmetric])
qed simp

lemma GetAccounts_one:
  assumes "db_inv db"
  shows "GetAccounts now [t] db = (case rowOf t db of None \<Rightarrow> Inr []
    | Some row \<Rightarrow> (case toRecord now row of Inl e \<Rightarrow> Inl e | Inr r \<Rightarrow> Inr [r]))"
  using filter_findRow [of "db_rows db" t] assms
  by (auto simp: GetAccounts_def rowOf_def db_inv_def split: option.splits sum.splits)

lemma findRow_upsertRow:
  "findRow t (upsertRow row rows) = (if t = lr_token row then
     (case findRow t rows of None \<Rightarrow> Some row | Some old \<Rightarrow> Some (conflictRow old row)) else findRow t rows)"
  by (induction rows) (auto split: option.splits)

lemma findRow_updateWhere:
  "(\<And>r. lr_token (f r) = lr_token r) \<Longrightarrow>
     findRow t (updateWhere P f rows) = map_option (\<lambda>r. if P r then f r else r) (findRow t rows)"
  by (induction rows) (auto simp: updateWhere_def)

lemma quotaMap_conflict: "quotaMap (conflictRow old new1) = quotaMap new1"
  by (simp add: quotaMap_def conflictRow_def)

text \<open>After an upsert the account can be read back: it is active, not deleted, holds the default quota
  of its pool and the new revision; no other account changes.\<close>

theorem upsert_then_get:
  assumes "db_ok db" "normalizeLocalUpsert now item = Some (token, pool)" "\<not> hasPrefix token ''sso=''"
  shows "\<exists>r. GetAccounts now' [token] (snd (UpsertAccounts now [item] db)) = Inr [r] \<and>
    ar_token r = token \<and> ar_pool r = pool \<and> ar_status r = StActive \<and> \<not> IsDeleted r \<and>
    QuotaSet r = Inr (DefaultQuotaSet pool) \<and> ar_revision r = db_revision db + 1 \<and>
    (\<forall>t. t \<noteq> token \<longrightarrow> GetAccounts now' [t] (snd (UpsertAccounts now [item] db)) = GetAccounts now' [t] db)"
proof -
  let ?db' = "snd (UpsertAccounts now [item] db)"
  let ?row = "insertedRow item token pool now (db_revision db + 1)"
  have rows: "db_rows ?db' = upsertRow ?row (db_rows db)"
    using assms(2) by (simp add: UpsertAccounts_def bumpRevision_def case_prod_unfold Let_def)
  have inv: "db_inv db" "db_inv ?db'"
    using assms(1) repo_step_inv [OF repo_step.upsert, of db now "[item]"] by (auto simp: db_ok_def)
  have new: "row_readable ?row" by (rule insertedRow_readable [OF assms(2,3)])
  obtain row where row: "rowOf token ?db' = Some row" "row_readable row" "lr_pool row = pool"
    "lr_status row = ''active''" "lr_deletedAt row = None" "quotaMap row = quotaMap ?row"
    "lr_token row = token" "lr_revision row = db_revision db + 1"
  proof (cases "findRow token (db_rows db)")
    case None
    with new show thesis
      by (intro that [of ?row]) (simp_all add: rowOf_def rows findRow_upsertRow)
  next
    case (Some old)
    then have "row_readable old" "lr_token old = token"
      using assms(1) by (auto simp: db_ok_def dest: findRow_Some)
    with Some new show thesis
      by (intro that [of "conflictRow old ?row"])
        (simp_all add: rowOf_def rows findRow_upsertRow conflictRow_readable quotaMap_conflict,
         simp_all add: conflictRow_def)
  qed
  obtain r where r: "toRecord now' row = Inr r" "ar_token r = lr_token row" "ar_deletedAt r = lr_deletedAt row"
    "ar_quota r = quotaMap row" "ar_revision r = lr_revision row"
    "normalizeRecordPool (lr_pool row) = Inr (ar_pool r)"
    "normalizeRecordStatus (lr_status row) = Inr (ar_status r)"
    using toRecord_readable [OF row(2), of now'] by metis
  have "pool \<in> {''basic'', ''super'', ''heavy''}" by (rule normalizeLocalUpsert_Some(3) [OF assms(2)])
  with r(6) row(3) have "ar_pool r = pool"
    by (auto simp: normalizeRecordPool_def pool_fixed)
  moreover have "ar_status r = StActive"
    using r(7) row(4) by (simp add: normalizeRecordStatus_def ParseAccountStatus_def)
  moreover have "QuotaSet r = Inr (DefaultQuotaSet pool)"
    by (simp add: QuotaSet_def r(4) row(6) quotaMap_inserted quota_set_json [OF default_json_safe])
  moreover have "GetAccounts now' [t] ?db' = GetAccounts now' [t] db" if "t \<noteq> token" for t
    using that by (simp add: GetAccounts_one inv rowOf_def rows findRow_upsertRow)
  ultimately show ?thesis
    using r row by (simp add: GetAccounts_one inv IsDeleted_def)
qed

theorem upsert_then_get_witness:
  "\<exists>r. GetAccounts 9 [''tok''] (snd (UpsertAccounts 5 [sampleUpsert] emptyDB)) = Inr [r] \<and>
     QuotaSet r = Inr basicQuotaDefaults \<and> ar_revision r = 1"
proof -
  have "db_ok emptyDB" by (simp add: db_ok_def db_inv_def emptyDB_def)
  from upsert_then_get [OF this sample_normalize sample_clean(2), of 9 5] show ?thesis
    by (auto simp: emptyDB_def DefaultQuotaSet_def quotaDefaultsForPool_def)
qed

section \<open>Patches\<close>

lemma PatchAccounts_one:
  assumes "db_ok db" "rowOf (pt_token p) db = Some row" "toRecord now row = Inr r"
  shows "\<exists>db'. PatchAccounts now [p] db = (Inr (noMutation\<lparr>mr_patched := 1, mr_revision := db_revision db + 1\<rparr>), db') \<and>
    rowOf (pt_token p) db' = Some (applySets (buildLocalPatchSets r p now (db_revision db + 1)) row) \<and>
    (\<forall>t. t \<noteq> pt_token p \<longrightarrow> rowOf t db' = rowOf t db) \<and> db_inv db'"
proof -
  have inv: "db_inv db" using assms(1) by (simp add: db_ok_def)
  have one: "filter (\<lambda>r. lr_token r = pt_token p) (db_rows db) = [row]"
    using filter_findRow [of "db_rows db" "pt_token p"] inv assms(2) by (simp add: db_inv_def rowOf_def)
  have row: "lr_token row = pt_token p" using assms(2) by (auto simp: rowOf_def dest: findRow_Some)
  let ?f = "applySets (buildLocalPatchSets r p now (db_revision db + 1))"
  let ?db' = "snd (PatchAccounts now [p] db)"
  have p: "PatchAccounts now [p] db = (Inr (noMutation\<lparr>mr_patched := 1, mr_revision := db_revision db + 1\<rparr>),
      \<lparr>db_rows = updateWhere (\<lambda>r. lr_token r = pt_token p) ?f (db_rows db), db_revision = db_revision db + 1\<rparr>)"
    using assms(2,3) one
    by (simp add: PatchAccounts_def patchLocalAccount_def bumpRevision_def rowOf_def Let_def)
  moreover have "db_inv ?db'" using repo_step_inv [OF repo_step.patch inv] by blast
  ultimately show ?thesis
    using assms(2) row by (auto simp: rowOf_def findRow_updateWhere map_option_case split: option.splits
        dest: findRow_Some)
qed

lemma mapGet_drop_keys:
  "mapGet (fold fmdrop ks m) k = (if k \<in> set ks then GNil else mapGet m k)"
  by (induction ks arbitrary: m) auto

lemma mapGet_add: "mapGet (m ++\<^sub>f n) k = (case fmlookup n k of None \<Rightarrow> mapGet m k | Some v \<Rightarrow> v)"
  by (auto simp: mapGet_def fmlookup_dom_iff split: option.splits)

text \<open>A patch of one account: it reports one patched row at the next revision, adds the counter deltas
  without ever going below 0, sets the status it carries, merges its \<open>ext\<close>, keeps the deletion mark,
  and changes no other account.\<close>

theorem patch_effect:
  assumes "db_ok db" "GetAccounts now [pt_token p] db = Inr [r]" "pt_pool p = None" "\<not> pt_clearFailures p"
  shows "\<exists>db' r'. PatchAccounts now [p] db =
      (Inr (noMutation\<lparr>mr_patched := 1, mr_revision := db_revision db + 1\<rparr>), db') \<and>
    GetAccounts now [pt_token p] db' = Inr [r'] \<and> ar_revision r' = db_revision db + 1 \<and>
    ar_status r' = (case pt_status p of None \<Rightarrow> ar_status r | Some s \<Rightarrow> s) \<and>
    ar_failCount r' = (case pt_failDelta p of None \<Rightarrow> ar_failCount r | Some d \<Rightarrow> max 0 (ar_failCount r + d)) \<and>
    ar_useCount r' = (case pt_useDelta p of None \<Rightarrow> ar_useCount r | Some d \<Rightarrow> max 0 (ar_useCount r + d)) \<and>
    ar_ext r' = jsonStore (ar_ext r ++\<^sub>f pt_extMerge p) \<and> ar_pool r' = ar_pool r \<and>
    ar_deletedAt r' = ar_deletedAt r \<and>
    (\<forall>t. t \<noteq> pt_token p \<longrightarrow> GetAccounts now [t] db' = GetAccounts now [t] db)"
proof -
  have inv: "db_inv db" using assms(1) by (simp add: db_ok_def)
  from assms(2) obtain row where row: "rowOf (pt_token p) db = Some row" "toRecord now row = Inr r"
    by (auto simp: GetAccounts_one inv split: option.splits sum.splits)
  then have rd: "row_readable row"
    using assms(1) by (auto simp: db_ok_def rowOf_def dest: findRow_Some)
  from PatchAccounts_one [OF assms(1) row] obtain db' where db':
    "PatchAccounts now [p] db = (Inr (noMutation\<lparr>mr_patched := 1, mr_revision := db_revision db + 1\<rparr>), db')"
    "rowOf (pt_token p) db' = Some (applySets (buildLocalPatchSets r p now (db_revision db + 1)) row)"
    "\<And>t. t \<noteq> pt_token p \<Longrightarrow> rowOf t db' = rowOf t db" "db_inv db'"
    by blast
  let ?row' = "applySets (buildLocalPatchSets r p now (db_revision db + 1)) row"
  have rd': "row_readable ?row'" using rd assms(3) by (intro patch_readable) auto
  have r: "ar_token r = lr_token row" "ar_useCount r = lr_useCount row" "ar_failCount r = lr_failCount row"
    "ar_ext r = lr_ext row" "ar_deletedAt r = lr_deletedAt row"
    "normalizeRecordPool (lr_pool row) = Inr (ar_pool r)"
    "normalizeRecordStatus (lr_status row) = Inr (ar_status r)"
    using row(2) toRecord_token [OF row(2) rd] by (auto simp: toRecord_def NewAccountRecord_def)
  obtain r' where r': "toRecord now ?row' = Inr r'" using toRecord_readable [OF rd'] by metis
  then have r2: "ar_useCount r' = lr_useCount ?row'" "ar_failCount r' = lr_failCount ?row'"
    "ar_ext r' = lr_ext ?row'" "ar_deletedAt r' = lr_deletedAt ?row'" "ar_revision r' = lr_revision ?row'"
    "normalizeRecordPool (lr_pool ?row') = Inr (ar_pool r')"
    "normalizeRecordStatus (lr_status ?row') = Inr (ar_status r')"
    by (auto simp: toRecord_def NewAccountRecord_def)
  have "ar_pool r' = ar_pool r" using r(6) r2(6) assms(3) by (simp add: patch_pool)
  moreover have "normalizeRecordStatus (statusString s) = Inr s" for s
    by (cases s) (simp_all add: normalizeRecordStatus_def ParseAccountStatus_def)
  then have "ar_status r' = (case pt_status p of None \<Rightarrow> ar_status r | Some s \<Rightarrow> s)"
    using r(7) r2(7) assms(4) by (auto simp: patch_status split: option.splits)
  moreover have "GetAccounts now [pt_token p] db' = Inr [r']"
    using db' r' by (simp add: GetAccounts_one)
  moreover have "GetAccounts now [t] db' = GetAccounts now [t] db" if "t \<noteq> pt_token p" for t
    using db'(3) [OF that] by (simp add: GetAccounts_one inv db'(4))
  ultimately show ?thesis
    using db'(1) r r2 assms(4)
    by (auto simp: patch_useCount patch_failCount patch_ext patch_deletedAt split: option.splits)
qed

definition sampleDB :: LocalDB where
  "sampleDB = snd (UpsertAccounts 5 [sampleUpsert] emptyDB)"

definition sampleRow :: LocalRow where
  "sampleRow = insertedRow sampleUpsert ''tok'' ''basic'' 5 1"

lemma sampleDB_rows: "sampleDB = \<lparr>db_rows = [sampleRow], db_revision = 1\<rparr>"
  by (simp add: sampleDB_def UpsertAccounts_def bumpRevision_def emptyDB_def sample_normalize sampleRow_def)

lemma sampleRow_readable: "row_readable sampleRow"
  unfolding sampleRow_def by (rule insertedRow_readable [OF sample_normalize sample_clean(2)])

lemma sampleDB_ok: "db_ok sampleDB"
proof -
  have "db_inv emptyDB" by (simp add: db_inv_def emptyDB_def)
  from repo_step_inv [OF repo_step.upsert this] show ?thesis
    using sampleRow_readable by (simp add: db_ok_def sampleDB_rows sampleDB_def [symmetric])
      (metis sampleDB_def sampleDB_rows)
qed

lemma sampleDB_get: "\<exists>r. GetAccounts now [''tok''] sampleDB = Inr [r] \<and> ar_failCount r = 0 \<and>
   ar_useCount r = 0 \<and> ar_token r = ''tok'' \<and> toRecord now sampleRow = Inr r \<and> ar_ext r = fmempty"
proof -
  obtain r where r: "toRecord now sampleRow = Inr r" "ar_token r = lr_token sampleRow"
    using toRecord_readable [OF sampleRow_readable] by metis
  have "lr_token sampleRow = ''tok''" by (simp add: sampleRow_def)
  moreover have "ar_failCount r = 0" "ar_useCount r = 0" "ar_ext r = fmempty"
    using r(1)
    by (auto simp: toRecord_def NewAccountRecord_def sampleRow_def insertedRow_def sampleUpsert_def
        upsertNormalize_def jsonStore_def Let_def)
  ultimately show ?thesis
    using r by (simp add: GetAccounts_def sampleDB_rows)
qed

theorem patch_effect_witness:
  "\<exists>db' r'. PatchAccounts 6 [(emptyPatch ''tok'')\<lparr>pt_failDelta := Some (-3), pt_useDelta := Some 2\<rparr>] sampleDB =
     (Inr (noMutation\<lparr>mr_patched := 1, mr_revision := 2\<rparr>), db') \<and>
     GetAccounts 6 [''tok''] db' = Inr [r'] \<and> ar_failCount r' = 0 \<and> ar_useCount r' = 2"
proof -
  let ?p = "(emptyPatch ''tok'')\<lparr>pt_failDelta := Some (-3), pt_useDelta := Some 2\<rparr>"
  obtain r where r: "GetAccounts 6 [''tok''] sampleDB = Inr [r]" "ar_failCount r = 0" "ar_useCount r = 0"
    using sampleDB_get by blast
  have "GetAccounts 6 [pt_token ?p] sampleDB = Inr [r]" using r by (simp add: emptyPatch_def)
  from patch_effect [OF sampleDB_ok this] r show ?thesis
    by (auto simp: emptyPatch_def sampleDB_rows)
qed

text \<open>Clearing failures through a patch resets the status, the failure count and the seven keys of
  \<open>failureExtKeys\<close>, but keeps the invalid-credentials counter, which \<open>ClearFailures\<close> of the
  state machine removes.\<close>

theorem clear_failures_patch:
  assumes "db_ok db" "rowOf token db = Some row" "toRecord now row = Inr r"
  shows "\<exists>db' row'. PatchAccounts now [(emptyPatch token)\<lparr>pt_clearFailures := True\<rparr>] db =
      (Inr (noMutation\<lparr>mr_patched := 1, mr_revision := db_revision db + 1\<rparr>), db') \<and>
    rowOf token db' = Some row' \<and> lr_status row' = ''active'' \<and> lr_failCount row' = 0 \<and>
    lr_lastFailAt row' = None \<and> lr_lastFailReason row' = None \<and> lr_stateReason row' = None \<and>
    (\<forall>k. mapGet (lr_ext row') k = (if k \<in> set failureExtKeys then GNil else jsonNorm (mapGet (ar_ext r) k))) \<and>
    mapGet (lr_ext row') ''invalid_credentials'' = jsonNorm (mapGet (ar_ext r) ''invalid_credentials'') \<and>
    mapGet (ar_ext (ClearFailures now r)) ''invalid_credentials'' = GNil"
proof -
  let ?p = "(emptyPatch token)\<lparr>pt_clearFailures := True\<rparr>"
  have tok: "pt_token ?p = token" by (simp add: emptyPatch_def)
  have "rowOf (pt_token ?p) db = Some row" using assms(2) tok by simp
  from PatchAccounts_one [OF assms(1) this assms(3)] obtain db' where db':
    "PatchAccounts now [?p] db = (Inr (noMutation\<lparr>mr_patched := 1, mr_revision := db_revision db + 1\<rparr>), db')"
    "rowOf token db' = Some (applySets (buildLocalPatchSets r ?p now (db_revision db + 1)) row)"
    unfolding tok by blast
  let ?row' = "applySets (buildLocalPatchSets r ?p now (db_revision db + 1)) row"
  have clear: "pt_clearFailures ?p" by simp
  have ext: "mapGet (lr_ext ?row') k =
      (if k \<in> set failureExtKeys then GNil else jsonNorm (mapGet (ar_ext r) k))" for k
    by (simp add: patch_ext jsonStore_def mapGet_fmmap mapGet_drop_keys emptyPatch_def)
  moreover have "''invalid_credentials'' \<notin> set failureExtKeys" by (simp add: failureExtKeys_def)
  moreover have "mapGet (ar_ext (ClearFailures now r)) ''invalid_credentials'' = GNil"
    by (simp add: ClearFailures_def failureKeys_def)
  moreover have "lr_status ?row' = ''active'' \<and> lr_failCount ?row' = 0"
    by (simp add: patch_status patch_failCount)
  ultimately show ?thesis
    using db' patch_fail [OF clear, of r now "db_revision db + 1" row] by auto
qed

theorem clear_failures_patch_witness:
  "\<exists>db'. PatchAccounts 7 [(emptyPatch ''tok'')\<lparr>pt_clearFailures := True\<rparr>] sampleDB =
     (Inr (noMutation\<lparr>mr_patched := 1, mr_revision := 2\<rparr>), db') \<and>
     (\<exists>row'. rowOf ''tok'' db' = Some row' \<and> lr_status row' = ''active'')"
proof -
  obtain r where r: "toRecord 7 sampleRow = Inr r" using sampleDB_get by blast
  have "rowOf ''tok'' sampleDB = Some sampleRow"
    by (simp add: rowOf_def sampleDB_rows) (simp add: sampleRow_def)
  from clear_failures_patch [OF sampleDB_ok this r] show ?thesis
    by (auto simp: sampleDB_rows)
qed

section \<open>Deletes and snapshots\<close>

lemma findRow_deletes:
  "findRow t (snd (deleteLocalAccounts ts n tokens rows)) =
    (case findRow t rows of None \<Rightarrow> None
     | Some row \<Rightarrow> Some (if t \<in> set tokens \<and> lr_deletedAt row = None then deleteRow ts n row else row))"
proof (induction tokens arbitrary: rows)
  case (Cons token tokens)
  have one: "findRow t (updateWhere (\<lambda>r. lr_token r = token \<and> lr_deletedAt r = None) (deleteRow ts n) rows) =
      map_option (\<lambda>r. if lr_token r = token \<and> lr_deletedAt r = None then deleteRow ts n r else r) (findRow t rows)"
    by (simp add: findRow_updateWhere)
  show ?case
    by (cases "findRow t rows") (auto simp: Let_def case_prod_unfold Cons.IH one dest: findRow_Some)
qed (simp split: option.split)

lemma rows_iff_find:
  "distinct (map lr_token rows) \<Longrightarrow> row \<in> set rows \<longleftrightarrow> findRow (lr_token row) rows = Some row"
  using findRow_Some findRow_distinct by blast

lemma db_ok_delete:
  assumes "db_ok db"
  shows "db_ok (snd (DeleteAccounts now tokens db))"
proof -
  have "\<forall>r \<in> set (db_rows (snd (DeleteAccounts now tokens db))). row_readable r"
    using assms deleteLocalAccounts_readable [of "db_rows db" now "db_revision db + 1" tokens]
    by (simp add: db_ok_def DeleteAccounts_def bumpRevision_def case_prod_unfold Let_def)
  then show ?thesis
    using assms repo_step_inv [OF repo_step.delete, of db now tokens] by (simp add: db_ok_def)
qed

definition liveTokens :: "LocalDB \<Rightarrow> string set" where
  "liveTokens db = {lr_token row |row. row \<in> set (db_rows db) \<and> lr_deletedAt row = None}"

lemma snapshot_tokens:
  assumes "db_ok db"
  shows "\<exists>sn. repoSnapshot now db = Inr sn \<and> ar_token ` set (sn_items sn) = liveTokens db \<and>
    sn_revision sn = db_revision db"
proof -
  let ?live = "filter (\<lambda>r. lr_deletedAt r = None) (db_rows db)"
  have "\<forall>r \<in> set ?live. row_readable r" using assms by (simp add: db_ok_def)
  then obtain rs where rs: "scanRows now ?live = Inr rs" using scanRows_total by blast
  have "ar_token ` set rs = liveTokens db"
  proof -
    have "ar_token r = lr_token row" if "row \<in> set ?live" "toRecord now row = Inr r" for row r
      using that assms toRecord_token by (auto simp: db_ok_def)
    moreover have "\<exists>r. toRecord now row = Inr r" if "row \<in> set ?live" for row
      using that assms toRecord_readable [of row now] by (auto simp: db_ok_def)
    ultimately show ?thesis
      unfolding scanRows_set [OF rs] liveTokens_def by (auto simp: image_iff) metis
  qed
  with rs show ?thesis by (simp add: repoSnapshot_def)
qed

lemma live_iff:
  assumes "db_ok db"
  shows "t \<in> liveTokens db \<longleftrightarrow> (\<exists>row. rowOf t db = Some row \<and> lr_deletedAt row = None)"
  using assms rows_iff_find [of "db_rows db"] findRow_Some [of t "db_rows db"]
  by (auto simp: liveTokens_def rowOf_def db_ok_def db_inv_def)

lemma finite_live [simp]: "finite (liveTokens db)"
proof -
  have "liveTokens db \<subseteq> lr_token ` set (db_rows db)" by (auto simp: liveTokens_def)
  then show ?thesis by (rule finite_subset) simp
qed

lemma DeleteAccounts_parts:
  "tokens \<noteq> [] \<Longrightarrow> db_rows (snd (DeleteAccounts now tokens db)) =
     snd (deleteLocalAccounts now (db_revision db + 1) tokens (db_rows db))"
  "tokens \<noteq> [] \<Longrightarrow> db_revision (snd (DeleteAccounts now tokens db)) = db_revision db + 1"
  "tokens \<noteq> [] \<Longrightarrow> mr_deleted (fst (DeleteAccounts now tokens db)) =
     fst (deleteLocalAccounts now (db_revision db + 1) tokens (db_rows db))"
  by (simp_all add: DeleteAccounts_def bumpRevision_def case_prod_unfold Let_def)

lemma rowOf_delete:
  "rowOf t (snd (DeleteAccounts now tokens db)) = (case rowOf t db of None \<Rightarrow> None
     | Some row \<Rightarrow> Some (if t \<in> set tokens \<and> lr_deletedAt row = None
         then deleteRow now (db_revision db + 1) row else row))"
proof (cases "tokens = []")
  case True
  then show ?thesis by (simp add: DeleteAccounts_def split: option.split)
next
  case False
  then show ?thesis by (simp add: rowOf_def DeleteAccounts_parts findRow_deletes)
qed

lemma live_delete:
  assumes "db_ok db"
  shows "liveTokens (snd (DeleteAccounts now tokens db)) = liveTokens db - set tokens"
proof (rule set_eqI)
  fix t
  show "t \<in> liveTokens (snd (DeleteAccounts now tokens db)) \<longleftrightarrow> t \<in> liveTokens db - set tokens"
    unfolding Diff_iff live_iff [OF assms] live_iff [OF db_ok_delete [OF assms]] rowOf_delete
    by (cases "rowOf t db") auto
qed

lemma rowOf_None: "rowOf t db = None \<longleftrightarrow> t \<notin> lr_token ` set (db_rows db)"
  by (simp add: rowOf_def findRow_None)

text \<open>Deleting accounts: the next snapshot lists exactly the accounts that were live and not named in
  the call, at the new revision; the deleted rows stay in the table as tombstones.\<close>

theorem delete_hides:
  assumes "db_ok db" "tokens \<noteq> []"
  shows "\<exists>sn. repoSnapshot now' (snd (DeleteAccounts now tokens db)) = Inr sn \<and>
    ar_token ` set (sn_items sn) = liveTokens db - set tokens \<and> sn_revision sn = db_revision db + 1 \<and>
    lr_token ` set (db_rows (snd (DeleteAccounts now tokens db))) = lr_token ` set (db_rows db)"
proof -
  let ?db' = "snd (DeleteAccounts now tokens db)"
  have "t \<in> lr_token ` set (db_rows ?db') \<longleftrightarrow> t \<in> lr_token ` set (db_rows db)" for t
    using rowOf_None [of t ?db'] rowOf_None [of t db] by (auto simp: rowOf_delete split: option.splits)
  then have "lr_token ` set (db_rows ?db') = lr_token ` set (db_rows db)" by (rule set_eqI)
  then show ?thesis
    using snapshot_tokens [OF db_ok_delete [OF assms(1)], of now' now tokens] assms
    by (auto simp: DeleteAccounts_parts live_delete)
qed

theorem delete_hides_witness:
  "\<exists>sn. repoSnapshot 9 (snd (DeleteAccounts 8 [''tok''] sampleDB)) = Inr sn \<and> sn_items sn = []"
proof -
  have "liveTokens sampleDB = {''tok''}" by (auto simp: liveTokens_def sampleDB_rows sampleRow_def)
  then show ?thesis using delete_hides [OF sampleDB_ok, of "[''tok'']" 9 8] by auto
qed

section \<open>Paging\<close>

lemma chunks_concat:
  "concat (map (\<lambda>i. take n (drop (i * n) xs)) [0..<k]) = take (k * n) xs"
proof (induction k)
  case (Suc k)
  have "take (Suc k * n) xs = take (k * n) xs @ take n (drop (k * n) xs)"
    by (simp add: take_add add.commute [of n])
  with Suc show ?case by simp
qed simp

lemma totalPages_enough:
  assumes "1 \<le> size1"
  shows "len \<le> nat (totalPages (int len) size1) * nat size1"
proof -
  have "truncDiv (int len + size1 - 1) size1 = (int len + size1 - 1) div size1"
    using assms by (cases "int len + size1 - 1 = 0") (auto simp: truncDiv_def sgn_if)
  moreover have "int len \<le> ((int len + size1 - 1) div size1) * size1"
  proof -
    have "(int len + size1 - 1) mod size1 < size1" using assms by simp
    then show ?thesis
      using minus_mod_eq_div_mult [of "int len + size1 - 1" size1] by linarith
  qed
  ultimately have "int len \<le> totalPages (int len) size1 * size1"
    using assms by (auto simp: totalPages_def max_def intro: order_trans mult_right_mono)
  moreover have "0 \<le> totalPages (int len) size1" by (simp add: totalPages_def)
  ultimately have "int len \<le> int (nat (totalPages (int len) size1) * nat size1)" using assms by simp
  then show ?thesis by (simp only: of_nat_le_iff)
qed

lemma scanRows_window:
  "scanRows now rows = Inr rs \<Longrightarrow> scanRows now (take n (drop m rows)) = Inr (take n (drop m rs))"
  by (simp add: scanRows_list_all2 list_all2_takeI list_all2_dropI)

text \<open>Paging: whatever order SQLite gives the rows, page \<open>p\<close> holds the \<open>p\<close>-th chunk of one fixed
  list, and the pages up to \<open>TotalPages\<close> put together are that list: every matching account once.\<close>

theorem list_pages:
  fixes ordRows :: "string \<Rightarrow> bool \<Rightarrow> LocalRow list \<Rightarrow> LocalRow list"
  assumes "db_ok db" "1 \<le> lq_pageSize q"
    and "\<And>rows. mset (ordRows (safeLocalSort (lq_sortBy q)) (lq_sortDesc q) rows) = mset rows"
  shows "\<exists>rs. mset (map ar_token rs) = mset (map lr_token (filter (localListWhere like q) (db_rows db))) \<and>
    (\<forall>p \<ge> 1. \<exists>page. listLocalAccounts like ordRows now (q\<lparr>lq_page := p\<rparr>) db = Inr page \<and>
      ap_items page = take (nat (lq_pageSize q)) (drop (nat ((p - 1) * lq_pageSize q)) rs) \<and>
      ap_total page = int (length rs) \<and> ap_totalPages page = totalPages (int (length rs)) (lq_pageSize q)) \<and>
    concat (map (\<lambda>i. take (nat (lq_pageSize q)) (drop (i * nat (lq_pageSize q)) rs))
      [0..<nat (totalPages (int (length rs)) (lq_pageSize q))]) = rs"
proof -
  let ?hits = "filter (localListWhere like q) (db_rows db)"
  let ?rows = "ordRows (safeLocalSort (lq_sortBy q)) (lq_sortDesc q) ?hits"
  have m: "mset ?rows = mset ?hits" by (rule assms(3))
  then have set: "set ?rows = set ?hits" by (rule mset_eq_setD)
  then have rd: "\<forall>r \<in> set ?rows. row_readable r" using assms(1) by (simp add: db_ok_def)
  then obtain rs where rs: "scanRows now ?rows = Inr rs" using scanRows_total by blast
  then have all2: "list_all2 (\<lambda>row r. toRecord now row = Inr r) ?rows rs" by (simp add: scanRows_list_all2)
  then have len: "length rs = length ?hits"
    using m by (metis list_all2_lengthD mset_eq_length)
  have "map ar_token rs = map lr_token ?rows"
    using all2 rd
    by (induction rule: list_all2_induct) (auto simp: toRecord_token)
  then have toks: "mset (map ar_token rs) = mset (map lr_token ?hits)" using m by (metis mset_map)
  have where1: "localListWhere like (q\<lparr>lq_page := p\<rparr>) = localListWhere like q" for p
    by (simp add: localListWhere_def fun_eq_iff)
  have pages: "\<exists>page. listLocalAccounts like ordRows now (q\<lparr>lq_page := p\<rparr>) db = Inr page \<and>
      ap_items page = take (nat (lq_pageSize q)) (drop (nat ((p - 1) * lq_pageSize q)) rs) \<and>
      ap_total page = int (length rs) \<and> ap_totalPages page = totalPages (int (length rs)) (lq_pageSize q)" for p
    using scanRows_window [OF rs] len by (simp add: listLocalAccounts_def where1 Let_def)
  have "concat (map (\<lambda>i. take (nat (lq_pageSize q)) (drop (i * nat (lq_pageSize q)) rs))
      [0..<nat (totalPages (int (length rs)) (lq_pageSize q))]) = rs"
    using totalPages_enough [OF assms(2), of "length rs"] by (simp add: chunks_concat)
  with toks pages show ?thesis by blast
qed

theorem list_pages_witness:
  "\<exists>rs. mset (map ar_token rs) = {#''tok''#} \<and>
     (\<exists>page. listLocalAccounts (\<lambda>_ _. True) (\<lambda>_ _ rows. rows) 9 (DefaultListAccountsQuery\<lparr>lq_page := 1\<rparr>) sampleDB = Inr page \<and>
       ap_items page = rs)"
proof -
  let ?q = "DefaultListAccountsQuery"
  have size1: "lq_pageSize ?q = 50"
    by (simp add: DefaultListAccountsQuery_def queryNormalize_def emptyListQuery_def Let_def)
  have w: "localListWhere (\<lambda>_ _. True) ?q sampleRow"
    by (simp add: localListWhere_def DefaultListAccountsQuery_def queryNormalize_def emptyListQuery_def
        sampleRow_def Let_def)
  have l1: "1 \<le> lq_pageSize ?q" by (simp add: size1)
  have m: "mset ((\<lambda>_ _ rows. rows) (safeLocalSort (lq_sortBy ?q)) (lq_sortDesc ?q) rows) = mset rows" for rows :: "LocalRow list"
    by simp
  from list_pages [of sampleDB ?q "\<lambda>_ _ rows. rows" "\<lambda>_ _. True" 9, OF sampleDB_ok l1 m] w
  obtain rs where rs: "mset (map ar_token rs) =
      mset (map lr_token (filter (localListWhere (\<lambda>_ _. True) ?q) (db_rows sampleDB)))"
    and pages: "\<forall>p \<ge> 1. \<exists>page. listLocalAccounts (\<lambda>_ _. True) (\<lambda>_ _ rows. rows) 9 (?q\<lparr>lq_page := p\<rparr>) sampleDB = Inr page \<and>
      ap_items page = take (nat (lq_pageSize ?q)) (drop (nat ((p - 1) * lq_pageSize ?q)) rs)"
    by blast
  have "filter (localListWhere (\<lambda>_ _. True) ?q) (db_rows sampleDB) = [sampleRow]"
    using w by (simp add: sampleDB_rows)
  then have rs1: "mset (map ar_token rs) = {#''tok''#}" using rs by (simp add: sampleRow_def)
  then have "length rs = 1" by (metis length_map size_mset size_single)
  then have all: "take 50 rs = rs" by simp
  from pages have "\<exists>page. listLocalAccounts (\<lambda>_ _. True) (\<lambda>_ _ rows. rows) 9 (?q\<lparr>lq_page := 1\<rparr>) sampleDB = Inr page \<and>
      ap_items page = take (nat (lq_pageSize ?q)) (drop (nat ((1 - 1) * lq_pageSize ?q)) rs)"
    by blast
  then have last: "\<exists>page. listLocalAccounts (\<lambda>_ _. True) (\<lambda>_ _ rows. rows) 9 (?q\<lparr>lq_page := 1\<rparr>) sampleDB = Inr page \<and>
      ap_items page = rs"
    by (simp add: size1 all)
  show ?thesis by (rule exI [of _ rs], rule conjI) (fact rs1, fact last)
qed

end
