(* ===== verification/DirectoryProps.thy ===== *)
theory DirectoryProps
  imports DirectorySync AccountRepoProps
begin

text \<open>
  What the account directory guarantees: it converges to the repository through the change feed, it
  hands out exactly the slots that may be used, it keeps the table invariant through every operation,
  and feedback withdraws a slot from selection. The reservation lemmas come from the
  \<open>slot_selector\<close> interface, the convergence lemmas from \<open>change_feed\<close>.
\<close>

section \<open>Convergence\<close>

lemma pending_rows:
  assumes "db_ok db"
  shows "card (local_feed.pending now db since) \<le> length (db_rows db)"
proof -
  have "local_feed.pending now db since \<subseteq> lr_revision ` set (db_rows db)"
    by (auto simp: local_feed.pending_def entryOf_iff [OF assms])
  then have "card (local_feed.pending now db since) \<le> card (lr_revision ` set (db_rows db))"
    by (intro card_mono) auto
  also have "\<dots> \<le> length (db_rows db)" by (metis card_image_le card_length finite_set le_trans)
  finally show ?thesis .
qed

text \<open>C4. \<open>ApplyChanges\<close> returns, with as many rounds as the repository has accounts and one more, and
  then the table has the repository's revision, shows every account changed since its old revision
  the way \<open>recordToSlot\<close> converts it (or as a tombstone when it was deleted), and shows every other
  account as before.\<close>

theorem apply_changes_converge:
  assumes "db_ok db" "table_ok t" "length (db_rows db) < fuel"
    and "\<forall>tok n r. entryOf now db tok = Some (n, r) \<longrightarrow> convertible now r"
  shows "\<exists>t' changed. ApplyChanges fuel now (\<lambda>since. ScanChanges now since db) (t, False) = Some (None, t', changed) \<and>
    table_ok t' \<and> rt_revision t' = max (rt_revision t) (db_revision db) \<and>
    (\<forall>tok n r. entryOf now db tok = Some (n, r) \<longrightarrow> rt_revision t < n \<longrightarrow> reflects now t' r) \<and>
    (\<forall>tok. (\<forall>n r. entryOf now db tok = Some (n, r) \<longrightarrow> n \<le> rt_revision t) \<longrightarrow> viewToken t' tok = viewToken t tok)"
proof -
  have "card (local_feed.pending now db (rt_revision (fst (t, False)))) < fuel"
    using pending_rows [OF assms(1), of now "rt_revision t"] assms(3) by simp
  from local_feed.apply_converges [OF assms(1) _ this, of now] assms(2,4) show ?thesis by auto
qed

lemma sample_entry:
  "entryOf now sampleDB tok = Some (n, r) \<longleftrightarrow> tok = ''tok'' \<and> n = 1 \<and> toRecord now sampleRow = Inr r"
proof -
  have "lr_token sampleRow = ''tok''" "lr_revision sampleRow = 1"
    by (simp_all add: sampleRow_def insertedRow_def Let_def)
  then show ?thesis unfolding entryOf_iff [OF sampleDB_ok] by (auto simp: sampleDB_rows)
qed

lemma sample_convertible:
  assumes "toRecord now sampleRow = Inr r"
  shows "convertible now r"
proof -
  have "ar_quota r = quotaMap sampleRow" using toRecord_readable [OF sampleRow_readable] assms by (metis sum.inject(2))
  then have "QuotaSet r = Inr (DefaultQuotaSet ''basic'')"
    by (simp add: QuotaSet_def sampleRow_def quotaMap_inserted quota_set_json [OF default_json_safe])
  then show ?thesis by (simp add: convertible_def recordToSlot_def wrapE_def Let_def)
qed

theorem apply_changes_converge_witness:
  "\<exists>t' changed. ApplyChanges 2 9 (\<lambda>since. ScanChanges 9 since sampleDB) (MakeEmptyTable, False) =
     Some (None, t', changed) \<and> rt_revision t' = 1 \<and> rt_idx t' ''tok'' \<noteq> None"
proof -
  obtain r where r: "toRecord 9 sampleRow = Inr r" "ar_token r = ''tok''" using sampleDB_get by blast
  have "\<forall>tok n r. entryOf 9 sampleDB tok = Some (n, r) \<longrightarrow> convertible 9 r"
    using sample_convertible by (simp add: sample_entry)
  from apply_changes_converge [OF sampleDB_ok empty_ok _ this, of 2] obtain t' changed where t':
    "ApplyChanges 2 9 (\<lambda>since. ScanChanges 9 since sampleDB) (MakeEmptyTable, False) = Some (None, t', changed)"
    "rt_revision t' = max 0 1" "reflects 9 t' r"
    using r(1) by (auto simp: sample_entry) (auto simp: sampleDB_rows MakeEmptyTable_def)
  have "lr_deletedAt sampleRow = None" by (simp add: sampleRow_def insertedRow_def Let_def)
  then have "\<not> IsDeleted r"
    using toRecord_token [OF r(1) sampleRow_readable] by (simp add: IsDeleted_def)
  then have "rt_idx t' ''tok'' \<noteq> None" using t'(3) r(2) by (auto simp: reflects_def viewToken_def)
  with t' show ?thesis by auto
qed

section \<open>Bootstrap\<close>

lemma bootstrapItems_apply:
  assumes "\<forall>r \<in> set rs. \<not> IsDeleted r \<and> convertible now r" "table_ok t"
  shows "\<exists>t' ch. bootstrapItems now rs t = Inr t' \<and> applyItems now rs (t, c) = (None, t', ch)"
  using assms
proof (induction rs arbitrary: t c)
  case (Cons r rs)
  then obtain slot where slot: "recordToSlot now r = Inr slot" by (auto simp: convertible_def)
  have "minHealth \<le> sl_health slot" "sl_health slot \<le> 1" using recordToSlot_facts [OF slot] fl_simps(1) by auto
  then have "table_ok (putSlot slot t)" by (rule putSlot_effect(1) [OF Cons.prems(2)])
  from Cons.IH [OF _ this, of True] Cons.prems(1) slot show ?case by auto
qed simp

lemma view_empty: "viewToken MakeEmptyTable tok = None"
  by (simp add: viewToken_def MakeEmptyTable_def)

text \<open>C10. \<open>Bootstrap\<close> on the repository's snapshot succeeds and builds a table that satisfies the table
  invariant, carries the repository's revision, shows every account that is not deleted the way
  \<open>recordToSlot\<close> converts it, and has no other slot; so catching up from it changes no slot.\<close>

theorem bootstrap_mirrors:
  assumes "db_ok db" "\<forall>tok n r. entryOf now db tok = Some (n, r) \<longrightarrow> convertible now r"
  shows "\<exists>t. Bootstrap now (repoSnapshot now db) = Inr t \<and> table_ok t \<and> rt_revision t = db_revision db \<and>
    (\<forall>tok. case entryOf now db tok of
        None \<Rightarrow> viewToken t tok = None
      | Some (n, r) \<Rightarrow> reflects now t r \<and> (IsDeleted r \<longrightarrow> viewToken t tok = None)) \<and>
    ApplyChanges 1 now (\<lambda>since. ScanChanges now since db) (t, False) = Some (None, t, False)"
proof -
  let ?rows = "filter (\<lambda>r. lr_deletedAt r = None) (db_rows db)"
  have "\<forall>row \<in> set ?rows. row_readable row" using assms(1) by (auto simp: db_ok_def)
  then obtain rs where rs: "scanRows now ?rows = Inr rs" using scanRows_total by blast
  have tok: "ar_token r = lr_token row \<and> ar_deletedAt r = lr_deletedAt row"
    if "row \<in> set (db_rows db)" "toRecord now row = Inr r" for row r
    using assms(1) that toRecord_token by (auto simp: db_ok_def)
  have set_rs: "set rs = {r. \<exists>tok n. entryOf now db tok = Some (n, r) \<and> \<not> IsDeleted r}"
    using tok by (fastforce simp: scanRows_set [OF rs] entryOf_iff [OF assms(1)] IsDeleted_def)
  have key: "ar_token r = k" if "entryOf now db k = Some (n, r)" for k n r
    using local_feed.entry_bound [OF assms(1) that] by simp
  have conv: "\<forall>r \<in> set rs. \<not> IsDeleted r \<and> convertible now r" using assms(2) by (auto simp: set_rs)
  have dist: "\<forall>r \<in> set rs. \<forall>r' \<in> set rs. ar_token r = ar_token r' \<longrightarrow> r = r'"
    using key by (fastforce simp: set_rs)
  obtain t0 ch where t0: "bootstrapItems now rs MakeEmptyTable = Inr t0"
    "applyItems now rs (MakeEmptyTable, False) = (None, t0, ch)"
    using bootstrapItems_apply [OF conv empty_ok] by blast
  have "table_ok (fst (MakeEmptyTable, False))" using empty_ok by simp
  from applyItems_effect [OF this _ dist, of now] conv t0(2)
  have eff: "table_ok t0" "\<forall>r \<in> set rs. reflects now t0 r" "\<And>k. k \<notin> ar_token ` set rs \<Longrightarrow> viewToken t0 k = None"
    by (auto simp: view_empty)
  let ?t = "t0\<lparr>rt_revision := db_revision db\<rparr>"
  have view: "viewToken ?t = viewToken t0" by (rule view_revision)
  have boot: "Bootstrap now (repoSnapshot now db) = Inr ?t"
    by (simp add: Bootstrap_def repoSnapshot_def rs t0(1))
  have "case entryOf now db k of None \<Rightarrow> viewToken ?t k = None
      | Some (n, r) \<Rightarrow> reflects now ?t r \<and> (IsDeleted r \<longrightarrow> viewToken ?t k = None)" for k
  proof (cases "entryOf now db k")
    case None
    then have "k \<notin> ar_token ` set rs" using key by (fastforce simp: set_rs)
    then show ?thesis using None eff(3) by (simp add: view)
  next
    case (Some e)
    obtain n r where e: "e = (n, r)" by (cases e)
    show ?thesis
    proof (cases "IsDeleted r")
      case True
      then have "k \<notin> ar_token ` set rs" using key Some e by (fastforce simp: set_rs)
      then have "viewToken ?t k = None" using eff(3) by (simp add: view)
      then show ?thesis using Some e True key by (simp add: reflects_def)
    next
      case False
      then have "r \<in> set rs" using Some e by (auto simp: set_rs)
      then have "reflects now ?t r" using eff(2) reflects_view view by metis
      then show ?thesis using Some e False by simp
    qed
  qed
  moreover have "local_feed.pending now db (rt_revision ?t) = {}"
    using local_feed.entry_bound [OF assms(1)] by (fastforce simp: local_feed.pending_def)
  from local_feed.scan_caught_up [OF assms(1) this]
  have "ApplyChanges 1 now (\<lambda>since. ScanChanges now since db) (?t, False) = Some (None, ?t, False)"
    by (simp add: changeRows_def bumpTableRevision_def)
  ultimately show ?thesis using boot eff(1) by auto
qed

theorem bootstrap_mirrors_witness:
  "\<exists>t v. Bootstrap 9 (repoSnapshot 9 sampleDB) = Inr t \<and> rt_revision t = 1 \<and> viewToken t ''tok'' = Some v \<and>
     viewToken t ''other'' = None"
proof -
  obtain r where r: "toRecord 9 sampleRow = Inr r" "ar_token r = ''tok''" using sampleDB_get by blast
  have conv: "\<forall>tok n r. entryOf 9 sampleDB tok = Some (n, r) \<longrightarrow> convertible 9 r"
    using sample_convertible by (simp add: sample_entry)
  have "lr_deletedAt sampleRow = None" by (simp add: sampleRow_def insertedRow_def Let_def)
  then have "\<not> IsDeleted r" using toRecord_token [OF r(1) sampleRow_readable] by (simp add: IsDeleted_def)
  moreover have "entryOf 9 sampleDB ''tok'' = Some (1, r)" "entryOf 9 sampleDB ''other'' = None"
    using r(1) sample_entry [of 9 "''other''"] by (simp add: sample_entry, cases "entryOf 9 sampleDB ''other''") auto
  moreover have "db_revision sampleDB = 1" by (simp add: sampleDB_rows)
  moreover from bootstrap_mirrors [OF sampleDB_ok conv] obtain t where t: "Bootstrap 9 (repoSnapshot 9 sampleDB) = Inr t"
    "rt_revision t = db_revision sampleDB"
    "\<And>tok. case entryOf 9 sampleDB tok of None \<Rightarrow> viewToken t tok = None
      | Some (n, r) \<Rightarrow> reflects 9 t r \<and> (IsDeleted r \<longrightarrow> viewToken t tok = None)" by blast
  ultimately show ?thesis using t(1,2) t(3) [of "''tok''"] t(3) [of "''other''"] r(2) by (auto simp: reflects_def)
qed

section \<open>Reservations\<close>

lemma selection_limit: "effectiveMaxInflight (selectOptions t c ts ro) = selectionMaxInflight c"
  by (simp add: effectiveMaxInflight_def selectOptions_def selectionMaxInflight_def defaultMaxInflight_def)

definition eligible :: "bool \<Rightarrow> int \<Rightarrow> SelectOptions \<Rightarrow> AccountRuntimeTable \<Rightarrow> int \<Rightarrow> nat \<Rightarrow> bool" where
  "eligible anyMode modeID o1 t p i = (if anyMode then selectableAny o1 t p i else selectable modeID o1 t p i)"

lemma eligible_slot:
  assumes "table_ok t" "eligible anyMode modeID o1 t p i"
  shows "i < length (rt_tokens t) \<and> rt_pool t ! i = p \<and> rt_status t ! i = StatusActive \<and> i \<notin> so_exclude o1 \<and>
    rt_inflight t ! i < effectiveMaxInflight o1 \<and> rt_coolingUntil t ! i \<le> so_nowS o1 \<and>
    (\<not> anyMode \<longrightarrow> 0 < WindowFor t i modeID \<and> 0 < QuotaFor t i modeID)"
  using assms
  by (auto simp: eligible_def selectable_def selectableAny_def usableSlot_def effectiveMaxInflight_def
      defaultMaxInflight_def split: if_splits)

definition pickSlot ::
    "ReserveEnv \<Rightarrow> int list \<Rightarrow> int \<Rightarrow> SelectOptions \<Rightarrow> bool \<Rightarrow> AccountRuntimeTable \<Rightarrow> nat option \<times> AccountRuntimeTable" where
  "pickSlot env pools modeID o1 anyMode t =
    firstPool (if anyMode then (\<lambda>p. SelectAny (re_strategy env) (re_iter env) (re_pick env) p o1)
               else (\<lambda>p. Select (re_strategy env) (re_iter env) (re_pick env) p modeID o1)) pools t"

lemma pickSlot_spec:
  assumes "table_ok t" "clock_ok t (so_nowS o1)" "iterates (re_iter env)" "picks (re_pick env)"
    and p: "pickSlot env pools modeID o1 anyMode t = (r, t1)"
  shows "table_ok t1" "only_quota t t1"
    "r = Some i \<Longrightarrow> \<exists>p \<in> set pools. eligible anyMode modeID o1 t1 p i"
    "r = None \<Longrightarrow> q \<in> set pools \<Longrightarrow> \<not> eligible anyMode modeID o1 t1 q i"
proof -
  have ok: "sel_state_ok (re_iter env) (re_pick env) (so_nowS o1) t" using assms(1-4) by (simp add: sel_state_ok_def)
  show "table_ok t1" "only_quota t t1"
    "r = Some i \<Longrightarrow> \<exists>p \<in> set pools. eligible anyMode modeID o1 t1 p i"
    "r = None \<Longrightarrow> q \<in> set pools \<Longrightarrow> \<not> eligible anyMode modeID o1 t1 q i"
    using p any_select.first_ok [OF ok, of "re_strategy env" pools]
      mode_select.first_ok [OF ok, of "re_strategy env" modeID pools]
      any_select.first_sound [OF ok, of "re_strategy env" pools]
      mode_select.first_sound [OF ok, of "re_strategy env" modeID pools]
      any_select.first_complete [OF ok, of "re_strategy env" pools]
      mode_select.first_complete [OF ok, of "re_strategy env" modeID pools]
    by (auto simp: pickSlot_def eligible_def sel_state_ok_def split: if_splits)
qed

lemma reserve_pick:
  assumes "pools \<noteq> []"
  shows "reserveDetailed env pools modeID ro ts anyMode (Some t) =
    (let o1 = selectOptions t (re_maxInflight env) ts ro
     in case pickSlot env pools modeID o1 anyMode t of
          (None, t1) \<Rightarrow> ((None, classifyReserveFailure t1 pools modeID o1 anyMode), Some t1)
        | (Some i, t1) \<Rightarrow>
            let t2 = UpdateLastUse i ts (IncrementInflight i t1)
            in ((Some (NewLease (re_nextID env) i (GetToken t2 i) (GetPoolID t2 i) modeID ts), RfNone), Some t2))"
  using assms by (simp add: reserveDetailed_def pickSlot_def Let_def)

lemma reserve_excluded:
  assumes "table_ok t" "i < length (rt_tokens t)" "i \<notin> excludeIdxs t tokens"
  shows "rt_tokens t ! i \<notin> set tokens"
proof
  assume "rt_tokens t ! i \<in> set tokens"
  moreover have "rt_idx t (rt_tokens t ! i) = Some i" using table_index [OF assms(1)] assms(2) by simp
  ultimately have "i \<in> excludeIdxs t tokens" by (force simp: excludeIdxs_def image_iff)
  then show False using assms(3) by simp
qed

lemma reserve_spec:
  assumes "table_ok t" "clock_ok t ts" "iterates (re_iter env)" "picks (re_pick env)" "pools \<noteq> []"
    and "reserveDetailed env pools modeID ro ts anyMode (Some t) = ((lease, reason), dir')"
  shows "\<exists>t1 t'. dir' = Some t' \<and> table_ok t' \<and> only_quota t t1 \<and> (lease = None \<longleftrightarrow> reason \<noteq> RfNone) \<and>
    (case lease of
       None \<Rightarrow> t' = t1 \<and> (\<forall>p \<in> set pools. \<forall>i. \<not> eligible anyMode modeID (selectOptions t (re_maxInflight env) ts ro) t1 p i)
     | Some l \<Rightarrow>
         le_pool l \<in> set pools \<and> le_idx l < length (rt_tokens t) \<and>
         eligible anyMode modeID (selectOptions t (re_maxInflight env) ts ro) t1 (le_pool l) (le_idx l) \<and>
         le_token l = rt_tokens t ! le_idx l \<and> le_token l \<notin> set (ro_excludeTokens ro) \<and>
         le_mode l = modeID \<and> le_selectedAt l = ts \<and> rt_status t ! le_idx l = StatusActive \<and>
         rt_coolingUntil t ! le_idx l \<le> ts \<and>
         rt_inflight t ! le_idx l < selectionMaxInflight (re_maxInflight env) \<and>
         rt_inflight t' = (rt_inflight t)[le_idx l := min (rt_inflight t ! le_idx l + 1) 65535] \<and>
         rt_lastUse t' = (rt_lastUse t)[le_idx l := ts])"
proof -
  let ?o = "selectOptions t (re_maxInflight env) ts ro"
  obtain r t1 where p: "pickSlot env pools modeID ?o anyMode t = (r, t1)"
    by (cases "pickSlot env pools modeID ?o anyMode t")
  have now: "so_nowS ?o = ts" by (simp add: selectOptions_def)
  note spec = pickSlot_spec [OF assms(1) _ assms(3,4) p, unfolded now, OF assms(2)]
  note oq = only_quotaD [OF spec(2)]
  show ?thesis
  proof (cases r)
    case None
    then have "lease = None" "reason = classifyReserveFailure t1 pools modeID ?o anyMode" "dir' = Some t1"
      using assms(6) by (simp_all add: reserve_pick [OF assms(5)] p Let_def)
    then show ?thesis using spec None by (auto simp: classifyReserveFailure_def Let_def)
  next
    case (Some i)
    let ?t2 = "UpdateLastUse i ts (IncrementInflight i t1)"
    have res: "lease = Some (NewLease (re_nextID env) i (GetToken ?t2 i) (GetPoolID ?t2 i) modeID ts)"
      "reason = RfNone" "dir' = Some ?t2"
      using assms(6) Some by (simp_all add: reserve_pick [OF assms(5)] p Let_def)
    obtain q where q: "q \<in> set pools" "eligible anyMode modeID ?o t1 q i" using spec(3) Some by blast
    note slot = eligible_slot [OF spec(1) q(2)]
    have ok: "table_ok ?t2" using spec(1) slot by (intro slot_ok) (auto simp: IncrementInflight_def)
    have excl: "rt_tokens t ! i \<notin> set (ro_excludeTokens ro)"
      using slot oq(1) by (intro reserve_excluded [OF assms(1)]) (auto simp: selectOptions_def)
    have "GetToken ?t2 i = rt_tokens t ! i" "GetPoolID ?t2 i = q"
      using slot oq by (simp_all add: GetToken_def GetPoolID_def UpdateLastUse_def IncrementInflight_def)
    then have l: "lease = Some \<lparr>le_id = re_nextID env, le_idx = i, le_token = rt_tokens t ! i, le_pool = q,
        le_mode = modeID, le_selectedAt = ts\<rparr>"
      using res(1) by (simp add: NewLease_def)
    have upd: "rt_inflight ?t2 = (rt_inflight t)[i := min (rt_inflight t ! i + 1) 65535]"
      "rt_lastUse ?t2 = (rt_lastUse t)[i := ts]"
      using oq by (simp_all add: UpdateLastUse_def IncrementInflight_def)
    show ?thesis
      using ok spec(2) q slot excl oq(1,3,4,7,11) upd
      by (intro exI [of _ t1] exI [of _ ?t2]) (simp add: res(2,3) l selection_limit now)
  qed
qed


definition sampleEnv :: ReserveEnv where
  "sampleEnv = \<lparr>re_strategy = ''quota'', re_iter = sorted_list_of_set, re_pick = (\<lambda>n. 0), re_maxInflight = 2, re_nextID = 7\<rparr>"

definition sampleReserve :: ReserveOptions where
  "sampleReserve = \<lparr>ro_excludeTokens = [''a''], ro_preferTags = []\<rparr>"

lemma sampleEnv_ok: "iterates (re_iter sampleEnv)" "picks (re_pick sampleEnv)"
  using sample_params by (simp_all add: sampleEnv_def)

lemma sample_eligible:
  "only_quota sampleTable t1 \<Longrightarrow> eligible True 1 (selectOptions sampleTable 2 0 sampleReserve) t1 0 1"
  using sampleTable_bucket bucket_iff [OF sampleTable_ok, of 1 0 1]
  by (auto simp: eligible_def selectableAny_def usableSlot_def only_quotaD WindowFor_def
      sampleTable_simps selectOptions_def sampleReserve_def excludeIdxs_def selectionMaxInflight_def)


lemma Release_inflight:
  "le_idx l < length (rt_inflight t) \<Longrightarrow> Release l (Some t) = Some (DecrementInflight (le_idx l) t)"
  by (simp add: Release_def)

lemma reserve_undone:
  assumes "table_ok t" "clock_ok t ts" "iterates (re_iter env)" "picks (re_pick env)"
    and "re_maxInflight env \<le> 65535"
    and "reserveDetailed env pools modeID ro ts anyMode (Some t) = ((Some l, reason), dir')"
  shows "\<exists>t'. Release l dir' = Some t' \<and> table_ok t' \<and> rt_inflight t' = rt_inflight t"
proof -
  have "pools \<noteq> []" using assms(6) by (auto simp: reserveDetailed_def)
  let ?o = "selectOptions t (re_maxInflight env) ts ro"
  obtain r t1 where p: "pickSlot env pools modeID ?o anyMode t = (r, t1)"
    by (cases "pickSlot env pools modeID ?o anyMode t")
  then obtain i where i: "r = Some i" "le_idx l = i" "dir' = Some (UpdateLastUse i ts (IncrementInflight i t1))"
    using assms(6) by (auto simp: reserve_pick [OF \<open>pools \<noteq> []\<close>] Let_def NewLease_def split: option.splits)
  have "clock_ok t (so_nowS ?o)" using assms(2) by (simp add: selectOptions_def)
  note spec = pickSlot_spec [OF assms(1) this assms(3,4) p]
  obtain q where "eligible anyMode modeID ?o t1 q i" using spec(3) i(1) by blast
  note slot = eligible_slot [OF spec(1) this]
  note oq = only_quotaD [OF spec(2)]
  let ?t2 = "UpdateLastUse i ts (IncrementInflight i t1)"
  have ok2: "table_ok ?t2" using spec(1) slot by (intro slot_ok) (auto simp: IncrementInflight_def)
  have len: "length (rt_inflight t) = length (rt_tokens t)" using table_lengths [OF assms(1)] by simp
  have t2: "rt_inflight ?t2 = (rt_inflight t)[i := min (rt_inflight t ! i + 1) 65535]" "rt_tokens ?t2 = rt_tokens t"
    using oq by (simp_all add: UpdateLastUse_def IncrementInflight_def)
  have "rt_inflight t ! i < 65535"
    using slot oq(7) assms(5) by (auto simp: selection_limit selectionMaxInflight_def defaultMaxInflight_def split: if_splits)
  moreover have "0 \<le> rt_inflight t ! i"
    using assms(1) slot oq(1) by (simp add: table_ok_def ranges_ok_def)
  ultimately have undone: "rt_inflight (DecrementInflight i ?t2) = rt_inflight t"
    using slot oq(1) len by (simp add: DecrementInflight_def t2)
  have rel: "Release l dir' = Some (DecrementInflight i ?t2)"
    using Release_inflight [of l ?t2] slot oq(1) len by (simp add: i t2(1))
  have "i < length (rt_tokens ?t2)" using slot oq(1) t2(2) by simp
  then have "table_ok (DecrementInflight i ?t2)" using slot_ok [OF ok2] by blast
  with undone rel show ?thesis by simp
qed

text \<open>Releasing the lease a reservation returned puts every in-flight counter back (a limit below
  65535 keeps the counter from saturating), and the table stays well formed.\<close>

theorem reserve_release:
  assumes "table_ok t" "clock_ok t ts" "iterates (re_iter env)" "picks (re_pick env)"
    and "re_maxInflight env \<le> 65535"
    and "reserveDetailed env pools modeID ro ts anyMode (Some t) = ((Some l, reason), dir')"
  shows "\<exists>t'. Release l dir' = Some t' \<and> table_ok t' \<and> rt_inflight t' = rt_inflight t"
  using assms by (rule reserve_undone)

theorem reserve_release_witness:
  "\<exists>l reason dir' t'. reserveDetailed sampleEnv [0] 1 sampleReserve 0 True (Some sampleTable) = ((Some l, reason), dir') \<and>
     Release l dir' = Some t' \<and> rt_inflight t' = [0, 0]"
proof -
  have clock: "clock_ok sampleTable (so_nowS (selectOptions sampleTable 2 0 sampleReserve))"
    using sampleTable_clock by (simp add: selectOptions_def)
  obtain lease reason dir' where res:
    "reserveDetailed sampleEnv [0] 1 sampleReserve 0 True (Some sampleTable) = ((lease, reason), dir')"
    by (metis prod.exhaust)
  have "lease \<noteq> None"
  proof
    assume none: "lease = None"
    obtain r t1 where p: "pickSlot sampleEnv [0] 1 (selectOptions sampleTable 2 0 sampleReserve) True sampleTable = (r, t1)"
      by (metis prod.exhaust)
    have "r = None" using res p none
      by (cases r) (simp_all add: reserve_pick sampleEnv_def Let_def)
    with sample_eligible [OF pickSlot_spec(2) [OF sampleTable_ok clock sampleEnv_ok p]]
      pickSlot_spec(4) [OF sampleTable_ok clock sampleEnv_ok p]
    show False by simp
  qed
  then obtain l where l: "lease = Some l" by auto
  from reserve_release [OF sampleTable_ok sampleTable_clock sampleEnv_ok _ res [unfolded l]] obtain t' where
    "Release l dir' = Some t'" "rt_inflight t' = rt_inflight sampleTable" by (auto simp: sampleEnv_def)
  with res l show ?thesis by (auto simp: sampleTable_simps)
qed

section \<open>Feedback\<close>

lemma eligible_iff:
  assumes "table_ok t"
  shows "eligible anyMode m o1 t p i \<longleftrightarrow> i < length (rt_tokens t) \<and> rt_pool t ! i = p \<and>
    rt_status t ! i = StatusActive \<and> i \<notin> so_exclude o1 \<and> rt_coolingUntil t ! i \<le> so_nowS o1 \<and>
    rt_inflight t ! i < effectiveMaxInflight o1 \<and>
    (if anyMode then \<exists>m'. isKnownModeID m' \<and> 0 < WindowFor t i m'
     else isKnownModeID m \<and> 0 < WindowFor t i m \<and> 0 < QuotaFor t i m)"
  using assms
  by (auto simp: eligible_def selectable_def selectableAny_def usableSlot_def effectiveMaxInflight_def
      defaultMaxInflight_def split: if_splits)

definition off_slot :: "nat \<Rightarrow> AccountRuntimeTable \<Rightarrow> AccountRuntimeTable \<Rightarrow> bool" where
  "off_slot i t t' \<longleftrightarrow> rt_tokens t' = rt_tokens t \<and> rt_idx t' = rt_idx t \<and> rt_pool t' = rt_pool t \<and>
     rt_window t' = rt_window t \<and> rt_inflight t' = rt_inflight t \<and> rt_coolingUntil t' = rt_coolingUntil t \<and>
     (\<forall>j. j \<noteq> i \<longrightarrow> rt_status t' ! j = rt_status t ! j \<and>
        (\<forall>m. QuotaFor t' j m = QuotaFor t j m \<and> ResetFor t' j m = ResetFor t j m))"

lemma off_slot_eligible:
  "off_slot i t t' \<Longrightarrow> table_ok t \<Longrightarrow> table_ok t' \<Longrightarrow> j \<noteq> i \<Longrightarrow>
     eligible anyMode m o1 t' p j = eligible anyMode m o1 t p j"
  by (simp add: eligible_iff off_slot_def WindowFor_def)

lemma feedbackSlot_ok:
  assumes "table_ok t" "i < length (rt_tokens t)"
  shows "table_ok (feedbackSlot strategy getInt kind modeID ts i t)"
proof -
  have fail: "table_ok (UpdateLastFail i ts (f t))" if "table_ok (f t)" "rt_tokens (f t) = rt_tokens t" for f
    using slot_ok [OF that(1)] that(2) assms(2) by simp
  note same = slot_shape [unfolded same_shape_def]
  show ?thesis
    by (cases kind)
      (auto simp: feedbackSlot_def same intro!: slot_ok [OF assms] fail ApplyStatusChange_ok assms(1)
        simp: StatusExpired_def StatusActive_def)
qed

lemma feedbackSlot_off: "off_slot i t (feedbackSlot strategy getInt kind modeID ts i t)"
  by (cases kind)
    (auto simp: feedbackSlot_def off_slot_def slot_ops ApplyStatusChange_def QuotaFor_def ResetFor_def table_simps Let_def)

lemma feedbackSlot_slot:
  assumes "table_ok t" "i < length (rt_tokens t)"
  shows "kind = FbUnauthorized \<Longrightarrow> rt_status (feedbackSlot strategy getInt kind modeID ts i t) ! i = StatusExpired"
    "kind = FbRateLimited \<Longrightarrow> isKnownModeID modeID \<Longrightarrow>
       QuotaFor (feedbackSlot strategy getInt kind modeID ts i t) i modeID = 0"
  using table_lengths [OF assms(1)] assms(2)
  by (auto simp: feedbackSlot_def slot_ops ApplyStatusChange_def QuotaFor_def table_simps Let_def)

lemma feedbackSlot_reset:
  assumes "table_ok t" "i < length (rt_tokens t)" "isKnownModeID modeID"
  shows "ResetFor (feedbackSlot strategy getInt FbRateLimited modeID ts i t) i modeID =
    (if strategy = strategyRandom then max (ResetFor t i modeID) (ts + max 0 (poolCoolingSec getInt (rt_pool t ! i)))
     else ResetFor t i modeID)"
  using table_lengths [OF assms(1)] assms(2,3)
  by (auto simp: feedbackSlot_def slot_ops ResetFor_def QuotaFor_def table_simps Let_def)

text \<open>What a selection may return: an active slot, and one without quota only after its reset.\<close>

lemma Select_returns:
  assumes "table_ok t" "clock_ok t (so_nowS o1)" "iterates iter" "picks pick"
    and "Select strategy iter pick p m o1 t = (Some i, t')"
  shows "rt_status t ! i = StatusActive" "isKnownModeID m"
    "QuotaFor t i m \<le> 0 \<Longrightarrow> p = 0 \<and> resetDue t m 0 (so_nowS o1) i"
proof -
  note spec = Select_spec [OF assms]
  have t1: "table_ok t'" "only_quota t t'" "rt_avail t' = rt_avail t"
    using resetTable_facts [OF assms(1,3)] by (simp_all add: spec(1))
  have i: "i \<in> workingSet t' (Some m) o1 (bucketOf (rt_avail t') (p, m))" using spec(2) prefer_subset by auto
  then have sel: "selectable m o1 t' p i" by (simp add: workingSet_selectable [OF t1(1)])
  then show "rt_status t ! i = StatusActive" "isKnownModeID m"
    using only_quotaD [OF t1(2)] by (simp_all add: selectable_def usableSlot_def)
  have "i \<in> bucketOf (rt_avail t) (p, m)" using i t1(3) by (simp add: workingSet_def)
  then have "QuotaFor t' i m = (if p = 0 \<and> resetDue t m p (so_nowS o1) i then TotalFor t i m else QuotaFor t i m)"
    using maybeResetWindows_effect(3) [OF assms(1,3) bucket_slots [OF assms(1)]]
    by (simp add: spec(1) resetTable_def supportsQuotaWindowReset_def)
  then show "p = 0 \<and> resetDue t m 0 (so_nowS o1) i" if "QuotaFor t i m \<le> 0"
    using sel that by (auto simp: selectable_def split: if_splits)
qed

lemma SelectAny_returns:
  assumes "table_ok t" "clock_ok t (so_nowS o1)" "iterates iter" "picks pick"
    and "SelectAny strategy iter pick p o1 t = (Some i, t')"
  shows "rt_status t ! i = StatusActive"
proof -
  have "i \<in> workingSet t None o1 (poolUnion t p)" using SelectAny_spec(2) [OF assms] prefer_subset by auto
  then show ?thesis by (simp add: workingSet_selectableAny [OF assms(1)] selectableAny_def usableSlot_def)
qed



section \<open>Histories of the directory\<close>

definition inflight_le :: "int \<Rightarrow> AccountRuntimeTable \<Rightarrow> bool" where
  "inflight_le n t \<longleftrightarrow> (\<forall>x \<in> set (rt_inflight t). x \<le> n)"

text \<open>The operations of the directory under a configured in-flight limit; a reservation happens at a
  time no slot's last use lies far beyond, a quota update names a mode that exists.\<close>

inductive dir_step :: "int \<Rightarrow> AccountRuntimeTable \<Rightarrow> AccountRuntimeTable \<Rightarrow> bool" where
  reserve: "clock_ok t ts \<Longrightarrow> iterates (re_iter env) \<Longrightarrow> picks (re_pick env) \<Longrightarrow> re_maxInflight env = limit \<Longrightarrow>
    reserveDetailed env pools m ro ts anyMode (Some t) = (res, Some t') \<Longrightarrow> dir_step limit t t'"
| release: "Release l (Some t) = Some t' \<Longrightarrow> dir_step limit t t'"
| feedback: "case upd of None \<Rightarrow> True | Some _ \<Rightarrow> isKnownModeID m \<Longrightarrow>
    dirFeedback strategy getInt token kind m ts upd (Some t) = Some t' \<Longrightarrow> dir_step limit t t'"
| sync: "ApplyChanges fuel now scan (t, False) = Some (e, t', changed) \<Longrightarrow> dir_step limit t t'"

inductive_cases dir_stepE: "dir_step limit t t'"

lemma putSlot_inflight: "inflight_le n t \<Longrightarrow> 0 \<le> n \<Longrightarrow> inflight_le n (putSlot slot t)"
  by (auto simp: putSlot_def inflight_le_def AppendSlot_def UpdateSlot_def addToTagIdx_def addToIndexes_def
      overwriteRow_def appendRow_def removeFromTagIdx_def removeFromIndexes_def Let_def split: option.splits)

lemma deleteToken_inflight: "inflight_le n (fst s) \<Longrightarrow> inflight_le n (fst (deleteToken tok s))"
  by (auto simp: deleteToken_def inflight_le_def markDeleted_def removeFromIndexes_def Let_def split: option.splits)

lemma deleteTokens_inflight: "inflight_le n (fst s) \<Longrightarrow> inflight_le n (fst (fold deleteToken toks s))"
  by (induction toks arbitrary: s) (auto simp: deleteToken_inflight)

lemma applyItems_keeps:
  assumes "table_ok (fst s)" "inflight_le n (fst s)" "0 \<le> n" "applyItems now rs s = (e, s')"
  shows "table_ok (fst s') \<and> inflight_le n (fst s')"
  using assms
proof (induction rs arbitrary: s)
  case (Cons r rs)
  show ?case
  proof (cases "IsDeleted r")
    case True
    then show ?thesis
      using Cons.prems Cons.IH [OF deleteToken_effect(1) deleteToken_inflight] by simp
  next
    case False
    show ?thesis
    proof (cases "recordToSlot now r")
      case (Inr slot)
      then have "minHealth \<le> sl_health slot" "sl_health slot \<le> 1"
        using recordToSlot_facts fl_simps(1) by fastforce+
      then have "table_ok (putSlot slot (fst s))" by (rule putSlot_effect(1) [OF Cons.prems(1)])
      then show ?thesis
        using Cons.prems Cons.IH [of "(putSlot slot (fst s), True)"] False Inr putSlot_inflight by auto
    qed (use Cons.prems False in auto)
  qed
qed auto

lemma bump_inflight: "inflight_le n (bumpTableRevision k t) = inflight_le n t"
  by (simp add: bumpTableRevision_def inflight_le_def)

lemma ApplyChanges_keeps:
  assumes "table_ok (fst s)" "inflight_le n (fst s)" "0 \<le> n" "ApplyChanges fuel now scan s = Some (e, s')"
  shows "table_ok (fst s') \<and> inflight_le n (fst s')"
  using assms
proof (induction fuel arbitrary: s)
  case (Suc fuel)
  show ?case
  proof (cases "scan (rt_revision (fst s))")
    case (Inl err)
    then show ?thesis using Suc.prems by simp
  next
    case (Inr cs)
    let ?s1 = "fold deleteToken (cs_deletedTokens cs) s"
    obtain e1 t1 ch where a: "applyItems now (cs_items cs) ?s1 = (e1, t1, ch)" by (metis prod.exhaust)
    have "table_ok (fst ?s1)" using deleteTokens_effect [OF Suc.prems(1)] by blast
    from applyItems_keeps [OF this deleteTokens_inflight [OF Suc.prems(2)] Suc.prems(3) a]
    have t1: "table_ok t1" "inflight_le n t1" by simp_all
    show ?thesis
    proof (cases e1)
      case (Some err)
      then show ?thesis using Suc.prems(4) Inr a t1 by auto
    next
      case None
      then show ?thesis
        using Suc.prems(3,4) Inr a t1 Suc.IH [of "(bumpTableRevision (cs_revision cs) t1, ch)"]
        by (auto simp: Let_def bump_inflight split: if_splits)
    qed
  qed
qed simp

lemma dirFeedback_keeps:
  assumes "table_ok t" "case upd of None \<Rightarrow> True | Some _ \<Rightarrow> isKnownModeID m"
    and "dirFeedback strategy getInt token kind m ts upd (Some t) = Some t'"
  shows "table_ok t' \<and> rt_inflight t' = rt_inflight t"
proof (cases "rt_idx t token")
  case None
  then show ?thesis using assms by (simp add: dirFeedback_def)
next
  case (Some i)
  then have i: "i < length (rt_tokens t)" using table_index [OF assms(1)] by simp
  let ?t1 = "feedbackSlot strategy getInt kind m ts i t"
  have t1: "table_ok ?t1" "off_slot i t ?t1" using feedbackSlot_ok [OF assms(1) i] feedbackSlot_off by auto
  then have "i < length (rt_tokens ?t1)" using i by (simp add: off_slot_def)
  then have "isKnownModeID m \<Longrightarrow> table_ok (ApplyQuotaUpdate i m v r ?t1)" for v r
    by (rule ApplyQuotaUpdate_ok [OF t1(1)])
  moreover have "rt_inflight (ApplyQuotaUpdate i m v r ?t1) = rt_inflight ?t1" for v r
    by (simp add: ApplyQuotaUpdate_def setQuota_def setReset_def Let_def)
  ultimately show ?thesis
    using assms(2,3) Some t1 by (auto simp: dirFeedback_def off_slot_def Let_def split: option.splits if_splits prod.splits)
qed

lemma reserve_keeps:
  assumes "table_ok t" "inflight_le (selectionMaxInflight (re_maxInflight env)) t"
    and "clock_ok t ts" "iterates (re_iter env)" "picks (re_pick env)"
    and "reserveDetailed env pools m ro ts anyMode (Some t) = (res, Some t')"
  shows "table_ok t' \<and> inflight_le (selectionMaxInflight (re_maxInflight env)) t'"
proof (cases "pools = []")
  case True
  then show ?thesis using assms by (simp add: reserveDetailed_def)
next
  case False
  let ?o = "selectOptions t (re_maxInflight env) ts ro"
  obtain r t1 where p: "pickSlot env pools m ?o anyMode t = (r, t1)" by (metis prod.exhaust)
  have clock: "clock_ok t (so_nowS ?o)" using assms(3) by (simp add: selectOptions_def)
  note spec = pickSlot_spec [OF assms(1) clock assms(4,5) p]
  note oq = only_quotaD [OF spec(2)]
  show ?thesis
  proof (cases r)
    case None
    then show ?thesis using assms(2,6) spec(1) oq(7) by (simp add: reserve_pick [OF False] p Let_def inflight_le_def)
  next
    case (Some i)
    obtain q where "eligible anyMode m ?o t1 q i" using spec(3) Some by blast
    note slot = eligible_slot [OF spec(1) this]
    have t': "t' = UpdateLastUse i ts (IncrementInflight i t1)"
      using assms(6) Some by (simp add: reserve_pick [OF False] p Let_def)
    have "table_ok t'" unfolding t' using spec(1) slot by (intro slot_ok) (auto simp: IncrementInflight_def)
    moreover have "rt_inflight t' = (rt_inflight t)[i := min (rt_inflight t ! i + 1) 65535]"
      by (simp add: t' UpdateLastUse_def IncrementInflight_def oq)
    ultimately show ?thesis
      using assms(2) slot oq(7) set_update_subset_insert [of "rt_inflight t" i]
      by (fastforce simp: inflight_le_def selection_limit)
  qed
qed

lemma dir_step_keeps:
  assumes "dir_step limit t t'" "table_ok t" "inflight_le (selectionMaxInflight limit) t"
  shows "table_ok t' \<and> inflight_le (selectionMaxInflight limit) t'"
  using assms(1)
proof cases
  case (reserve ts env pools m ro anyMode res)
  then show ?thesis using reserve_keeps [OF assms(2)] assms(3) by blast
next
  case (release l)
  show ?thesis
  proof (cases "le_idx l < length (rt_inflight t)")
    case False
    then show ?thesis using release assms(2,3) by (simp add: Release_def)
  next
    case True
    then have t': "t' = DecrementInflight (le_idx l) t" using release by (simp add: Release_def)
    have "table_ok t'" unfolding t' using True table_lengths(6) [OF assms(2)] by (intro slot_ok [OF assms(2)]) simp
    moreover have "0 \<le> selectionMaxInflight limit" by (simp add: selectionMaxInflight_def defaultMaxInflight_def)
    then have "inflight_le (selectionMaxInflight limit) t'"
      using True assms(3) set_update_subset_insert [of "rt_inflight t" "le_idx l"]
      by (simp add: t' inflight_le_def DecrementInflight_def) (smt (verit) insert_iff nth_mem subsetD)
    ultimately show ?thesis ..
  qed
next
  case (feedback upd m strategy getInt token kind ts)
  then show ?thesis using dirFeedback_keeps [OF assms(2)] assms(3) by (simp add: inflight_le_def)
next
  case (sync fuel now scan e changed)
  then show ?thesis
    using ApplyChanges_keeps [of "(t, False)" "selectionMaxInflight limit"] assms(2,3)
    by (fastforce simp: selectionMaxInflight_def defaultMaxInflight_def split: if_splits)
qed

text \<open>C8. Through every history of bootstrap, reservations, releases, feedback and change application the
  table keeps its invariant, and no account ever has more requests in flight than the limit in force.\<close>

theorem directory_invariant:
  assumes "Bootstrap now snapshot = Inr t0" "(dir_step limit)\<^sup>*\<^sup>* t0 t" "i < length (rt_tokens t)"
  shows "table_ok t \<and> 0 \<le> rt_inflight t ! i \<and> rt_inflight t ! i \<le> selectionMaxInflight limit"
proof -
  have boot: "table_ok t' \<and> inflight_le n t'"
    if "bootstrapItems k rs s = Inr t'" "table_ok s" "inflight_le n s" "0 \<le> n" for k rs s t' n
    using that
  proof (induction rs arbitrary: s)
    case (Cons r rs)
    show ?case
    proof (cases "IsDeleted r")
      case False
      then obtain slot where slot: "recordToSlot k r = Inr slot" "bootstrapItems k rs (putSlot slot s) = Inr t'"
        using Cons.prems(1) by (auto simp: bindE_Inr_iff)
      have "minHealth \<le> sl_health slot" "sl_health slot \<le> 1" using recordToSlot_facts [OF slot(1)] fl_simps(1) by auto
      then have "table_ok (putSlot slot s)" by (rule putSlot_effect(1) [OF Cons.prems(2)])
      then show ?thesis using Cons.IH [OF slot(2)] Cons.prems putSlot_inflight by blast
    qed (use Cons in auto)
  qed auto
  have pos: "0 \<le> selectionMaxInflight limit" by (simp add: selectionMaxInflight_def defaultMaxInflight_def)
  obtain sn t1 where sn: "snapshot = Inr sn" "bootstrapItems now (sn_items sn) MakeEmptyTable = Inr t1"
    "t0 = t1\<lparr>rt_revision := sn_revision sn\<rparr>"
    using assms(1) by (auto simp: Bootstrap_def bindE_Inr_iff)
  have "inflight_le (selectionMaxInflight limit) MakeEmptyTable" by (simp add: inflight_le_def MakeEmptyTable_def)
  from boot [OF sn(2) empty_ok this pos] have t0: "table_ok t0" "inflight_le (selectionMaxInflight limit) t0"
    by (simp_all add: sn(3) inflight_le_def)
  from assms(2) have "table_ok t \<and> inflight_le (selectionMaxInflight limit) t"
    by (induction rule: rtranclp_induct) (use t0 dir_step_keeps in auto)
  then show ?thesis
    using assms(3) table_lengths [of t] by (auto simp: table_ok_def ranges_ok_def inflight_le_def)
qed

theorem directory_invariant_witness:
  "\<exists>snapshot t0 t. Bootstrap 9 snapshot = Inr t0 \<and> (dir_step 0)\<^sup>*\<^sup>* t0 t \<and> rt_inflight t = [0] \<and> table_ok t \<and>
     rt_inflight t ! 0 \<le> 8"
proof -
  obtain r where r: "toRecord 9 sampleRow = Inr r" using sampleDB_get by blast
  have "lr_deletedAt sampleRow = None" by (simp add: sampleRow_def insertedRow_def Let_def)
  then have live: "\<not> IsDeleted r" using toRecord_token [OF r sampleRow_readable] by (simp add: IsDeleted_def)
  then obtain slot where slot: "recordToSlot 9 r = Inr slot"
    using sample_convertible [OF r] by (auto simp: convertible_def)
  let ?start = "(AppendSlot slot MakeEmptyTable)\<lparr>rt_revision := 1\<rparr>"
  have boot: "Bootstrap 9 (Inr \<lparr>sn_revision = 1, sn_items = [r]\<rparr>) = Inr ?start"
    using live slot by (simp add: Bootstrap_def putSlot_def MakeEmptyTable_def)
  have "rt_inflight (AppendSlot slot MakeEmptyTable) = [0]" "rt_tokens (AppendSlot slot MakeEmptyTable) = [sl_token slot]"
    by (simp_all add: AppendSlot_def addToTagIdx_def addToIndexes_def appendRow_def MakeEmptyTable_def Let_def)
  then have cols: "rt_inflight ?start = [0]" "rt_tokens ?start = [sl_token slot]" by simp_all
  let ?l = "NewLease 1 0 ''tok'' 0 1 9"
  let ?t = "DecrementInflight 0 ?start"
  have "le_idx ?l = 0" by (simp add: NewLease_def)
  with Release_inflight [of ?l ?start] cols(1) have "Release ?l (Some ?start) = Some ?t" by simp
  then have "dir_step 0 ?start ?t" by (rule dir_step.release)
  then have steps: "(dir_step 0)\<^sup>*\<^sup>* ?start ?t" by (rule r_into_rtranclp)
  have t: "rt_inflight ?t = [0]" using cols(1) by (simp add: DecrementInflight_def)
  have "rt_tokens ?t = [sl_token slot]" using cols(2) by (simp add: DecrementInflight_def)
  then have "0 < length (rt_tokens ?t)" by simp
  from directory_invariant [OF boot steps this] have "table_ok ?t" "rt_inflight ?t ! 0 \<le> 8"
    by (simp_all add: selectionMaxInflight_def defaultMaxInflight_def)
  with boot steps t show ?thesis by blast
qed

text \<open>The pools offered to a client are exactly those with a slot that may be used now for some mode.\<close>

theorem available_pools:
  assumes "table_ok t"
  shows "AvailablePools configured nowS (Some t) =
    {pool. \<exists>poolID m i. PoolStringToID pool = Some poolID \<and>
       selectable m \<lparr>so_exclude = {}, so_prefer = {}, so_nowS = nowS, so_maxInflight = selectionMaxInflight configured\<rparr>
         t poolID i}"
proof -
  let ?o = "\<lparr>so_exclude = {}, so_prefer = {}, so_nowS = nowS, so_maxInflight = selectionMaxInflight configured\<rparr> :: SelectOptions"
  have count: "cc_available (countSelectionCandidates t [q] m ?o False) > 0 \<longleftrightarrow> (\<exists>i. selectable m ?o t q i)"
    if "isKnownModeID m" for q m
  proof -
    have "{i. i < length (rt_tokens t) \<and> availableSlot t [q] m ?o False i} = {i. selectable m ?o t q i}"
      using available_iff_selectable [OF assms that, of "[q]" _ ?o] by auto
    moreover have "{i. selectable m ?o t q i} \<subseteq> {..<length (rt_tokens t)}"
      by (auto simp: selectable_def usableSlot_def)
    then have "finite {i. selectable m ?o t q i}" by (rule finite_subset) simp
    ultimately show ?thesis by (auto simp: counts_card(1) card_gt_0_iff)
  qed
  have modes: "m \<in> set allModeIDs \<longleftrightarrow> isKnownModeID m" for m by (simp add: allModeIDs_def known_modes)
  have unknown: "\<not> selectable m ?o t q i" if "\<not> isKnownModeID m" for m q i
    using that by (simp add: selectable_def)
  define P where "P q = list_ex (\<lambda>m. cc_available (countSelectionCandidates t [q] m ?o False) > 0) allModeIDs" for q
  have P: "P q \<longleftrightarrow> (\<exists>m i. selectable m ?o t q i)" for q
    unfolding P_def list_ex_iff Bex_def modes using count unknown by blast
  have "AvailablePools configured nowS (Some t) = set (map snd (filter (\<lambda>(q, pool). P q) [(0, ''basic''), (1, ''super''), (2, ''heavy'')]))"
    by (simp add: AvailablePools_def P_def Let_def)
  also have "\<dots> = {pool. \<exists>q. PoolStringToID pool = Some q \<and> P q}"
    by (auto simp: PoolStringToID_def split: if_splits)
  finally show ?thesis by (simp add: P)
qed

theorem available_pools_witness: "AvailablePools 0 0 (Some sampleTable) = {''basic''}"
proof -
  let ?o = "\<lparr>so_exclude = {}, so_prefer = {}, so_nowS = 0, so_maxInflight = selectionMaxInflight 0\<rparr> :: SelectOptions"
  have "selectable 1 ?o sampleTable 0 1"
    using sampleTable_bucket sampleTable_quota bucket_iff [OF sampleTable_ok, of 1 0 1]
    by (simp add: selectable_def usableSlot_def sampleTable_simps selectionMaxInflight_def defaultMaxInflight_def)
  moreover have "p = 0" if "selectable m ?o sampleTable p i" for m p i
    using eligible_slot [OF sampleTable_ok, of False m ?o p i] that
    by (auto simp: eligible_def sampleTable_simps less_2_cases_iff StatusActive_def)
  moreover have "PoolStringToID pool = Some 0 \<longleftrightarrow> pool = ''basic''" for pool
    by (simp add: PoolStringToID_def)
  ultimately show ?thesis
    unfolding available_pools [OF sampleTable_ok]
    by (intro set_eqI iffI) (simp only: mem_Collect_eq singleton_iff, blast)+
qed

end
