(* ===== verification/UpstreamErrors.thy ===== *)
theory UpstreamErrors
  imports FeedbackMachine
begin

text \<open>
  How failures of the upstream are told apart: the error classes of \<open>app/platform/errors.go\<close> and
  \<open>error_classification.go\<close>, the credential tests and the usage parsing of
  \<open>dataplane/reverse/protocol/xai_usage.go\<close>, the session probe of \<open>sso_session.go\<close>,
  \<open>FeedbackKindForError\<close> of \<open>control/account/invalid_credentials.go\<close> and the retry table of
  \<open>app/products/retry.go\<close>. Decoding the payload of a JWT (base64 and JSON) is the parameter
  \<open>claimsExp\<close>, the text of a URL without query and fragment is the parameter \<open>sanitize\<close>. Response
  headers are not modelled.
\<close>

section \<open>Error classes\<close>

datatype ErrorClass =
    ClassValidation | ClassAuth | ClassRateLimit | ClassUpstream
  | ClassTransport | ClassStorage | ClassConfig | ClassInternal

definition ClassifyError :: "goerr \<Rightarrow> ErrorClass" where
  "ClassifyError e =
    (case rootErr e of
       ErrValidation _ \<Rightarrow> ClassValidation
     | ErrAuth _ \<Rightarrow> ClassAuth
     | ErrRateLimit _ \<Rightarrow> ClassRateLimit
     | ErrStorage _ \<Rightarrow> ClassStorage
     | ErrConfig _ \<Rightarrow> ClassConfig
     | ErrTransport _ \<Rightarrow> ClassTransport
     | ErrUpstream _ _ _ \<Rightarrow> ClassUpstream
     | _ \<Rightarrow> ClassInternal)"

text \<open>The status \<open>AdaptErrorResponse\<close> answers with.\<close>

definition responseStatus :: "goerr \<Rightarrow> int" where
  "responseStatus e =
    (case rootErr e of
       ErrValidation _ \<Rightarrow> 400
     | ErrUpstream status _ _ \<Rightarrow> status
     | ErrAuth _ \<Rightarrow> 401
     | ErrRateLimit _ \<Rightarrow> 429
     | ErrStreamIdle \<Rightarrow> 504
     | ErrStorage _ \<Rightarrow> 500
     | ErrConfig _ \<Rightarrow> 500
     | ErrTransport _ \<Rightarrow> 502
     | ErrApp status _ _ \<Rightarrow> status
     | _ \<Rightarrow> 500)"

definition NewUpstreamError :: "string \<Rightarrow> int \<Rightarrow> string \<Rightarrow> goerr" where
  "NewUpstreamError message status body = ErrUpstream (if status = 0 then 502 else status) message body"

text \<open>\<open>errors.As(err, &upstream)\<close>: status, message and body.\<close>

definition asUpstream :: "goerr \<Rightarrow> (int \<times> string \<times> string) option" where
  "asUpstream e = (case rootErr e of ErrUpstream s m b \<Rightarrow> Some (s, m, b) | _ \<Rightarrow> None)"

section \<open>Credential failures\<close>

definition credentialMarks :: "string list" where
  "credentialMarks = [''invalid-credentials'', ''bad-credentials'', ''failed to look up session id'',
     ''blocked-user'', ''email-domain-rejected'', ''session not found'', ''account suspended'',
     ''token revoked'', ''token expired'']"

definition containsAny :: "string \<Rightarrow> string list \<Rightarrow> bool" where
  "containsAny text marks = list_ex (containsStr text) marks"

definition IsInvalidCredentialsBody :: "string \<Rightarrow> bool" where
  "IsInvalidCredentialsBody body = containsAny (goLower body) credentialMarks"

definition IsInvalidCredentialsError :: "goerr \<Rightarrow> bool" where
  "IsInvalidCredentialsError e =
    (case asUpstream e of None \<Rightarrow> False
     | Some (status, m, body) \<Rightarrow> status \<in> {400, 401, 403} \<and> IsInvalidCredentialsBody body)"

definition FeedbackKindForError :: "goerr option \<Rightarrow> FeedbackKind" where
  "FeedbackKindForError err =
    (case err of None \<Rightarrow> FbServerError
     | Some e \<Rightarrow>
         if IsInvalidCredentialsError e then FbUnauthorized
         else (case asUpstream e of None \<Rightarrow> FbServerError
               | Some (status, m, body) \<Rightarrow>
                   if status = 429 then FbRateLimited
                   else if status = 401 then FbUnauthorized
                   else if status = 403 then FbForbidden
                   else FbServerError))"

section \<open>Usage limits\<close>

definition usageModeName :: "int \<Rightarrow> string" where
  "usageModeName modeID =
    (if modeID = 0 then ''auto'' else if modeID = 1 then ''fast'' else if modeID = 2 then ''expert''
     else if modeID = 3 then ''heavy'' else if modeID = 4 then ''grok-420-computer-use-sa'' else ''auto'')"

definition usageDefaultWindow :: "int \<Rightarrow> int" where
  "usageDefaultWindow modeID =
    (if modeID = 1 then 86400 else if modeID \<in> {0, 2, 3, 4} then 7200 else 72000)"

definition numberAsInt :: "goval \<Rightarrow> int option" where
  "numberAsInt value =
    (case value of GInt v \<Rightarrow> Some v | GInt64 v \<Rightarrow> Some v | GFloat v \<Rightarrow> Some (truncRat v) | _ \<Rightarrow> None)"

definition usageNumberAsInt :: "goval \<Rightarrow> int option" where
  "usageNumberAsInt value =
    (case numberAsInt value of Some i \<Rightarrow> Some i
     | None \<Rightarrow> (case value of
         GStr s \<Rightarrow> if trimSpace s = '''' then None
                   else (case atoi (trimSpace s) of Inl _ \<Rightarrow> None | Inr i \<Rightarrow> Some i)
       | _ \<Rightarrow> None))"

definition usageWindowSeconds :: "goval \<Rightarrow> int \<Rightarrow> int" where
  "usageWindowSeconds value defaultSeconds =
    (case value of
       GStr s \<Rightarrow> if s = '''' then defaultSeconds
                 else (case usageNumberAsInt value of None \<Rightarrow> defaultSeconds | Some i \<Rightarrow> i)
     | _ \<Rightarrow> (case usageNumberAsInt value of None \<Rightarrow> defaultSeconds
             | Some i \<Rightarrow> if i = 0 then defaultSeconds else i))"

record RateLimitQuota =
  rq_remaining :: int
  rq_total :: int
  rq_windowSeconds :: int

definition ParseRateLimits :: "gomap \<Rightarrow> int \<Rightarrow> RateLimitQuota option" where
  "ParseRateLimits body defaultSeconds =
    (case usageNumberAsInt (mapGet body ''remainingQueries'') of
       None \<Rightarrow> None
     | Some remaining \<Rightarrow>
         Some \<lparr>rq_remaining = remaining,
           rq_total = (case usageNumberAsInt (mapGet body ''totalQueries'') of None \<Rightarrow> remaining | Some v \<Rightarrow> v),
           rq_windowSeconds = usageWindowSeconds (mapGet body ''windowSizeSeconds'') defaultSeconds\<rparr>)"

text \<open>\<open>ToUsageQuotaWindow\<close>, then \<open>usageWindowToQuotaWindow\<close> of the account package.\<close>

definition usageWindow :: "RateLimitQuota \<Rightarrow> int \<Rightarrow> QuotaWindow" where
  "usageWindow data syncedAt =
    \<lparr>qw_remaining = rq_remaining data, qw_total = rq_total data, qw_windowSeconds = rq_windowSeconds data,
     qw_resetAt = Some (syncedAt + rq_windowSeconds data * 1000), qw_syncedAt = Some syncedAt, qw_source = SrcReal\<rparr>"

text \<open>A fetcher answers a token and a mode name; without a fetcher every call fails with status 502.\<close>

type_synonym fetcher = "string \<Rightarrow> string \<Rightarrow> goerr + gomap"

definition missingUsageFetcher :: fetcher where
  "missingUsageFetcher token mode = Inl (NewUpstreamError ''usage fetcher is not configured'' 502 '''')"

definition FetchModeUsageQuota :: "fetcher \<Rightarrow> int \<Rightarrow> string \<Rightarrow> int \<Rightarrow> goerr + QuotaWindow option" where
  "FetchModeUsageQuota fetch syncedAt token modeID =
    (case fetch token (usageModeName modeID) of
       Inl e \<Rightarrow> if IsInvalidCredentialsError e then Inl e else Inr None
     | Inr body \<Rightarrow>
         (case ParseRateLimits body (usageDefaultWindow modeID) of
            None \<Rightarrow> Inr None
          | Some quota \<Rightarrow> Inr (Some (usageWindow quota syncedAt))))"

fun fetchModes :: "fetcher \<Rightarrow> int \<Rightarrow> string \<Rightarrow> int list \<Rightarrow> windows \<Rightarrow> goerr + windows" where
  "fetchModes fetch syncedAt token [] w = Inr w"
| "fetchModes fetch syncedAt token (m # ms) w =
    (case FetchModeUsageQuota fetch syncedAt token m of
       Inl e \<Rightarrow> if IsInvalidCredentialsError e then Inl e else fetchModes fetch syncedAt token ms w
     | Inr None \<Rightarrow> fetchModes fetch syncedAt token ms w
     | Inr (Some x) \<Rightarrow> fetchModes fetch syncedAt token ms (w(m \<mapsto> x)))"

definition FetchAllUsageQuotas :: "fetcher \<Rightarrow> int \<Rightarrow> string \<Rightarrow> int list \<Rightarrow> goerr + windows option" where
  "FetchAllUsageQuotas fetch syncedAt token modeIDs =
    bindE (fetchModes fetch syncedAt token (if modeIDs = [] then [0, 1, 2, 3, 4] else modeIDs) Map.empty) (\<lambda>w.
      Inr (if w = Map.empty then None else Some w))"

section \<open>The session probe\<close>

datatype SSOBrowserClass =
  BrowserOK | BrowserCloudflare | BrowserRateLimited | BrowserSessionInvalid | BrowserHTTPBlock | BrowserUnknown

definition NewSessionInvalidError :: "string \<Rightarrow> string \<Rightarrow> goerr" where
  "NewSessionInvalidError reason stage = ErrSessionInvalid (if reason = '''' then ''session_invalid'' else reason) stage"

definition IsSessionInvalidError :: "goerr \<Rightarrow> bool" where
  "IsSessionInvalidError e = (case rootErr e of ErrSessionInvalid _ _ \<Rightarrow> True | _ \<Rightarrow> False)"

definition IsTerminalSSOFailure :: "goerr \<Rightarrow> bool" where
  "IsTerminalSSOFailure e \<longleftrightarrow> IsSessionInvalidError e \<or> IsInvalidCredentialsError e"

text \<open>\<open>strings.Cut(s, "=")\<close>: the text before and after the first separator, if there is one.\<close>

fun cutEq :: "string \<Rightarrow> (string \<times> string) option" where
  "cutEq [] = None"
| "cutEq (c # cs) = (if c = CHR ''='' then Some ([], cs)
     else map_option (\<lambda>(a, b). (c # a, b)) (cutEq cs))"

fun ssoPart :: "string list \<Rightarrow> string" where
  "ssoPart [] = ''''"
| "ssoPart (part # parts) =
    (case cutEq (trimSpace part) of
       None \<Rightarrow> ssoPart parts
     | Some (name, value) \<Rightarrow>
         if goLower (trimSpace name) \<in> {''sso'', ''sso-rw''} \<and> trimSpace value \<noteq> '''' then trimSpace value
         else ssoPart parts)"

definition ExtractSSOTokenValue :: "string \<Rightarrow> string" where
  "ExtractSSOTokenValue token =
    (let raw = trimSpace token
     in if raw = '''' then ''''
        else if containsStr (goLower raw) ''sso='' \<or> containsStr (goLower raw) ''sso-rw=''
        then ssoPart (splitOn (CHR '';'') raw) else raw)"

definition SSOLocalInvalidReason :: "(string \<Rightarrow> int option) \<Rightarrow> string \<Rightarrow> int \<Rightarrow> string" where
  "SSOLocalInvalidReason claimsExp token nowS =
    (let value = ExtractSSOTokenValue token; parts = splitOn (CHR ''.'') value
     in if value = '''' then ''empty''
        else if length parts < 3 then ''''
        else (case claimsExp (parts ! 1) of
                None \<Rightarrow> ''''
              | Some ex \<Rightarrow> if ex \<le> 0 then '''' else if ex < nowS - 60 then ''jwt_expired'' else ''''))"

definition SessionInvalidReasonFromURL :: "string \<Rightarrow> string" where
  "SessionInvalidReasonFromURL url =
    (let l = goLower url
     in if containsAny l [''auth-error'', ''auth_error''] then ''auth_error''
        else if containsAny l [''sign-in'', ''signin''] then ''sign_in''
        else if containsAny l [''sign-up'', ''signup''] then ''sign_up''
        else ''session_invalid'')"

definition isSessionInvalidURL :: "string \<Rightarrow> bool" where
  "isSessionInvalidURL l = containsAny l [''auth-error'', ''auth_error'', ''sign-in'', ''signin'', ''sign-up'',
     ''signup'', ''/login'', ''login?'']"

definition isCloudflareBrowserResponse :: "int \<Rightarrow> string \<Rightarrow> string \<Rightarrow> bool" where
  "isCloudflareBrowserResponse status bodyLower urlLower \<longleftrightarrow>
    containsAny urlLower [''cdn-cgi'', ''challenges.cloudflare''] \<or>
    containsAny bodyLower [''cf-challenge'', ''cf-browser-verification'', ''just a moment'', ''attention required'',
      ''enable javascript and cookies to continue'', ''checking your browser before accessing''] \<or>
    (status = 403 \<or> status = 503) \<and> containsStr bodyLower ''cloudflare''"

definition ClassifySSOBrowserResponse :: "string \<Rightarrow> int \<Rightarrow> string \<Rightarrow> SSOBrowserClass" where
  "ClassifySSOBrowserResponse finalURL status body =
    (let bodyLower = goLower body; urlLower = goLower finalURL
     in if isCloudflareBrowserResponse status bodyLower urlLower then BrowserCloudflare
        else if status = 429 \<or> containsAny bodyLower [''too many requests'', ''rate limit''] then BrowserRateLimited
        else if isSessionInvalidURL urlLower then BrowserSessionInvalid
        else if containsAny urlLower [''consent'', ''/done''] then BrowserOK
        else if status \<ge> 200 \<and> status < 400 then BrowserOK
        else if status = 401 \<or> status = 403 then BrowserHTTPBlock
        else BrowserUnknown)"

definition statusOr :: "int \<Rightarrow> int \<Rightarrow> int" where
  "statusOr status fallback = (if status > 0 then status else fallback)"

definition truncateProbeBody :: "string \<Rightarrow> string" where
  "truncateProbeBody body = take 240 (trimSpace body)"

definition ErrorFromSSOBrowserClass ::
    "(string \<Rightarrow> string) \<Rightarrow> SSOBrowserClass \<Rightarrow> string \<Rightarrow> int \<Rightarrow> string \<Rightarrow> goerr option" where
  "ErrorFromSSOBrowserClass sanitize c finalURL status body =
    (case c of
       BrowserOK \<Rightarrow> None
     | BrowserSessionInvalid \<Rightarrow> Some (NewSessionInvalidError (SessionInvalidReasonFromURL finalURL) ''session'')
     | BrowserCloudflare \<Rightarrow>
         Some (NewUpstreamError ''sso probe cloudflare challenge'' (statusOr status 403) (truncateProbeBody body))
     | BrowserRateLimited \<Rightarrow>
         Some (NewUpstreamError ''sso probe rate limited'' (statusOr status 429) (truncateProbeBody body))
     | BrowserHTTPBlock \<Rightarrow>
         Some (NewUpstreamError ''sso probe http block (waf)'' (statusOr status 403) (truncateProbeBody body))
     | BrowserUnknown \<Rightarrow>
         Some (NewUpstreamError (''sso probe unknown response status='' @ itoa status @ '' url='' @ sanitize finalURL)
           (statusOr status 502) (truncateProbeBody body)))"

section \<open>Retries\<close>

record RetryPolicy =
  rp_maxAttempts :: int
  rp_statusCodes :: "int list"

definition ShouldRetry :: "RetryPolicy \<Rightarrow> goerr option \<Rightarrow> int \<Rightarrow> bool" where
  "ShouldRetry p err attempt =
    (case err of None \<Rightarrow> False
     | Some e \<Rightarrow> attempt + 1 < rp_maxAttempts p \<and>
         (case asUpstream e of None \<Rightarrow> False | Some (status, m, b) \<Rightarrow> status \<in> set (rp_statusCodes p)))"

section \<open>Which probes end an account\<close>

definition probeFallback :: "SSOBrowserClass \<Rightarrow> int" where
  "probeFallback c = (case c of BrowserCloudflare \<Rightarrow> 403 | BrowserRateLimited \<Rightarrow> 429 | BrowserHTTPBlock \<Rightarrow> 403 | _ \<Rightarrow> 502)"

lemma new_upstream [simp]:
  "asUpstream (NewUpstreamError m status body) = Some (if status = 0 then 502 else status, m, body)"
  "\<not> IsSessionInvalidError (NewUpstreamError m status body)"
  by (simp_all add: asUpstream_def IsSessionInvalidError_def NewUpstreamError_def)

lemma new_session_invalid [simp]: "IsSessionInvalidError (NewSessionInvalidError r s)"
  by (simp add: IsSessionInvalidError_def NewSessionInvalidError_def)

lemma statusOr_nonzero [simp]: "f \<noteq> 0 \<Longrightarrow> statusOr status f \<noteq> 0"
  by (simp add: statusOr_def)

text \<open>A probe of a session is terminal exactly when its answer is a redirect to the login pages, or it is
  not accepted and answers (or is taken to answer) 400, 401 or 403 with a body that names dead
  credentials: a Cloudflare page or a WAF block with such a body is terminal too.\<close>

theorem probe_terminal:
  "(case ErrorFromSSOBrowserClass sanitize (ClassifySSOBrowserResponse url status body) url status body of
      None \<Rightarrow> False | Some e \<Rightarrow> IsTerminalSSOFailure e) \<longleftrightarrow>
   (let c = ClassifySSOBrowserResponse url status body
    in c = BrowserSessionInvalid \<or>
       (c \<noteq> BrowserOK \<and> statusOr status (probeFallback c) \<in> {400, 401, 403} \<and>
        IsInvalidCredentialsBody (truncateProbeBody body)))"
  by (cases "ClassifySSOBrowserResponse url status body")
    (simp_all add: ErrorFromSSOBrowserClass_def IsTerminalSSOFailure_def IsInvalidCredentialsError_def probeFallback_def)

text \<open>The two classifications of the code agree: the feedback an error of the upstream leads to is the
  one its status code alone leads to, except that dead credentials count as unauthorized under 400, 401
  and 403, that an error never counts as a success, and that one without a status is a server error.\<close>

theorem feedback_kind:
  "FeedbackKindForError (Some e) =
    (case asUpstream e of
       None \<Rightarrow> FbServerError
     | Some (status, m, body) \<Rightarrow>
         if status \<in> {400, 401, 403} \<and> IsInvalidCredentialsBody body then FbUnauthorized
         else if 200 \<le> status \<and> status < 300 then FbServerError else feedbackKindFromStatus status)"
  by (auto simp: FeedbackKindForError_def IsInvalidCredentialsError_def feedbackKindFromStatus_def split: option.split)

end
