(* ===== verification/RefreshService.thy ===== *)
theory RefreshService
  imports UpstreamErrors AccountRepoProps
begin

text \<open>
  The refresh service of accounts (\<open>app/control/account/refresh_helpers.go\<close>, \<open>refresh_apply.go\<close>,
  \<open>refresh_fetch.go\<close>, \<open>refresh_types.go\<close>, \<open>invalid_credentials.go\<close>) over the local repository:
  fetching usage windows, turning them into patches, falling back to local estimates, recording
  failures, and expiring accounts with dead credentials. The usage fetcher and the configured
  failure limit are arguments. One clock value \<open>now\<close> serves a whole operation. The goroutines
  of a batch each patch the account they were started for; they run here in the order of the
  records. Timeouts and the logging are not modelled.
\<close>

section \<open>Error text\<close>

text \<open>\<open>err.Error()\<close>; the text of errors of other packages is the parameter \<open>other\<close>.\<close>

fun errText :: "(goerr \<Rightarrow> string) \<Rightarrow> goerr \<Rightarrow> string" where
  "errText other (ErrField m e) = m @ '': '' @ errText other e"
| "errText other (ErrUpstream s m b) = m"
| "errText other (ErrRateLimit m) = m"
| "errText other (ErrSessionInvalid r s) =
    (if r = '''' then ''sso session invalid'' else ''sso session invalid: '' @ r)"
| "errText other (ErrOther m) = m"
| "errText other e = other e"

section \<open>Results\<close>

record RefreshResult =
  rr_checked :: int
  rr_refreshed :: int
  rr_recovered :: int
  rr_expired :: int
  rr_disabled :: int
  rr_rateLimited :: int
  rr_failed :: int

definition zeroResult :: RefreshResult where
  "zeroResult = \<lparr>rr_checked = 0, rr_refreshed = 0, rr_recovered = 0, rr_expired = 0, rr_disabled = 0,
     rr_rateLimited = 0, rr_failed = 0\<rparr>"

definition mergeResult :: "RefreshResult \<Rightarrow> RefreshResult \<Rightarrow> RefreshResult" where
  "mergeResult other r =
    \<lparr>rr_checked = rr_checked r + rr_checked other, rr_refreshed = rr_refreshed r + rr_refreshed other,
     rr_recovered = rr_recovered r + rr_recovered other, rr_expired = rr_expired r + rr_expired other,
     rr_disabled = rr_disabled r + rr_disabled other, rr_rateLimited = rr_rateLimited r + rr_rateLimited other,
     rr_failed = rr_failed r + rr_failed other\<rparr>"

definition mergeRefreshResults :: "RefreshResult list \<Rightarrow> RefreshResult \<Rightarrow> RefreshResult" where
  "mergeRefreshResults results agg = fold mergeResult results agg"

definition clampRefreshConcurrency :: "int \<Rightarrow> int \<Rightarrow> int \<Rightarrow> int" where
  "clampRefreshConcurrency value fallback limit =
    (let v = (if value \<le> 0 then fallback else value)
     in if v < 1 then 1 else if limit > 0 \<and> v > limit then limit else v)"

section \<open>Which accounts are refreshed\<close>

definition deriveRefreshStatus :: "AccountRecord \<Rightarrow> int \<Rightarrow> AccountStatus" where
  "deriveRefreshStatus r now =
    (if ar_status r \<noteq> StCooling then ar_status r
     else case mapGet (ar_ext r) ''cooldown_until'' of
            GNil \<Rightarrow> StCooling
          | value \<Rightarrow> (case int64FromAny value of
              Inl _ \<Rightarrow> StCooling | Inr until \<Rightarrow> if now < until then StCooling else StActive))"

definition isRefreshManageable :: "AccountRecord \<Rightarrow> int \<Rightarrow> bool" where
  "isRefreshManageable r now \<longleftrightarrow>
    \<not> IsDeleted r \<and> (deriveRefreshStatus r now = StActive \<or> deriveRefreshStatus r now = StCooling)"

definition filterRefreshManageable :: "int \<Rightarrow> AccountRecord list \<Rightarrow> AccountRecord list" where
  "filterRefreshManageable now records = filter (\<lambda>r. isRefreshManageable r now) records"

definition filterRefreshPool :: "string \<Rightarrow> AccountRecord list \<Rightarrow> AccountRecord list" where
  "filterRefreshPool pool records = filter (\<lambda>r. ar_pool r = pool) records"

section \<open>Patches\<close>

definition setQuotaPatch :: "int \<Rightarrow> gomap \<Rightarrow> AccountPatch \<Rightarrow> AccountPatch" where
  "setQuotaPatch modeID value p =
    (if modeID = 0 then p\<lparr>pt_quotaAuto := Some value\<rparr>
     else if modeID = 1 then p\<lparr>pt_quotaFast := Some value\<rparr>
     else if modeID = 2 then p\<lparr>pt_quotaExpert := Some value\<rparr>
     else if modeID = 3 then p\<lparr>pt_quotaHeavy := Some value\<rparr>
     else if modeID = 4 then p\<lparr>pt_quotaGrok43 := Some value\<rparr>
     else if modeID = 5 then p\<lparr>pt_quotaConsole := Some value\<rparr>
     else p)"

definition hasQuotaPatch :: "AccountPatch \<Rightarrow> bool" where
  "hasQuotaPatch p \<longleftrightarrow> pt_quotaAuto p \<noteq> None \<or> pt_quotaFast p \<noteq> None \<or> pt_quotaExpert p \<noteq> None \<or>
     pt_quotaHeavy p \<noteq> None \<or> pt_quotaGrok43 p \<noteq> None \<or> pt_quotaConsole p \<noteq> None"

definition estimatedDecrementWindow :: "QuotaWindow \<Rightarrow> QuotaWindow" where
  "estimatedDecrementWindow w =
    w\<lparr>qw_remaining := clampInt (qw_remaining w - 1) 0 (qw_total w), qw_source := SrcEstimated\<rparr>"

definition defaultResetWindow :: "QuotaWindow \<Rightarrow> int \<Rightarrow> QuotaWindow" where
  "defaultResetWindow w now =
    \<lparr>qw_remaining = qw_total w, qw_total = qw_total w, qw_windowSeconds = qw_windowSeconds w,
     qw_resetAt = Some (now + qw_windowSeconds w * 1000), qw_syncedAt = Some now, qw_source = SrcDefault\<rparr>"

definition applyFallbackWindowPatch ::
    "AccountQuotaSet \<Rightarrow> string \<Rightarrow> int \<Rightarrow> int \<Rightarrow> AccountPatch \<Rightarrow> AccountPatch" where
  "applyFallbackWindowPatch q pool now modeID p =
    (case quotaGet q modeID of
       None \<Rightarrow> p
     | Some existing \<Rightarrow>
         if qw_source existing = SrcReal
         then setQuotaPatch modeID (windowToDict (estimatedDecrementWindow existing)) p
         else if IsWindowExpired existing now
         then (case DefaultQuotaWindow pool modeID of
                 None \<Rightarrow> p
               | Some fallback \<Rightarrow> setQuotaPatch modeID (windowToDict (defaultResetWindow fallback now)) p)
         else p)"

definition rateLimitedWindowPatch :: "QuotaWindow \<Rightarrow> int \<Rightarrow> QuotaWindow" where
  "rateLimitedWindowPatch w now =
    \<lparr>qw_remaining = 0, qw_total = qw_total w, qw_windowSeconds = qw_windowSeconds w,
     qw_resetAt = Some (case qw_resetAt w of
       Some r \<Rightarrow> if r > now then r else now + max (qw_windowSeconds w) 1 * 1000
     | None \<Rightarrow> now + max (qw_windowSeconds w) 1 * 1000),
     qw_syncedAt = qw_syncedAt w, qw_source = SrcEstimated\<rparr>"

text \<open>One use of a mode, counted locally: a run-out window starts anew, the console window (mode 5)
  starts its clock only at 12 remaining.\<close>

definition spentWindow :: "int \<Rightarrow> QuotaWindow \<Rightarrow> int \<Rightarrow> QuotaWindow" where
  "spentWindow modeID window now =
    (let w = window\<lparr>qw_remaining := clampInt (qw_remaining window - 1) 0 (qw_total window)\<rparr>;
         starts = (if modeID = 5 then qw_resetAt w = None \<and> qw_remaining w \<le> 12 \<and> qw_windowSeconds w > 0
                   else qw_resetAt w = None \<and> qw_windowSeconds w > 0);
         w = (if starts then w\<lparr>qw_resetAt := Some (now + qw_windowSeconds w * 1000)\<rparr> else w)
     in w\<lparr>qw_source := SrcEstimated\<rparr>)"

definition localUseWindowPatch :: "string \<Rightarrow> int \<Rightarrow> QuotaWindow \<Rightarrow> int \<Rightarrow> QuotaWindow" where
  "localUseWindowPatch pool modeID window now =
    (case (if IsWindowExpired window now then DefaultQuotaWindow pool modeID else None) of
       Some fallback \<Rightarrow>
         \<lparr>qw_remaining = clampInt (qw_total fallback - 1) 0 (qw_total fallback), qw_total = qw_total fallback,
          qw_windowSeconds = qw_windowSeconds fallback,
          qw_resetAt = Some (now + qw_windowSeconds fallback * 1000), qw_syncedAt = Some now,
          qw_source = SrcDefault\<rparr>
     | None \<Rightarrow> spentWindow modeID window now)"

definition allRefreshModeIDs :: "int list" where
  "allRefreshModeIDs = [0, 1, 2, 3, 4, 5]"

definition isKnownRefreshMode :: "int \<Rightarrow> bool" where
  "isKnownRefreshMode modeID \<longleftrightarrow> modeID \<ge> 0 \<and> modeID \<le> 5"

section \<open>Accounts with dead credentials\<close>

text \<open>\<open>PatchAccounts\<close> with one patch; a failing one leaves the database as it was.\<close>

definition patchOne :: "int \<Rightarrow> AccountPatch \<Rightarrow> LocalDB \<Rightarrow> goerr option \<times> LocalDB" where
  "patchOne now p db = (case PatchAccounts now [p] db of (Inl e, db') \<Rightarrow> (Some e, db') | (Inr _, db') \<Rightarrow> (None, db'))"

definition invalidCredentialsFailureThreshold :: "int \<Rightarrow> int" where
  "invalidCredentialsFailureThreshold configured = (if configured \<le> 0 then 3 else configured)"

definition failureCountIn :: "gomap \<Rightarrow> string \<Rightarrow> int" where
  "failureCountIn ext key =
    (case fmlookup ext key of
       Some (GMap data) \<Rightarrow>
         (case intFromAny (mapGet data ''failure_count'') 0 of Inl _ \<Rightarrow> 0 | Inr c \<Rightarrow> if c < 0 then 0 else c)
     | _ \<Rightarrow> 0)"

definition invalidCredentialsFailureCount :: "AccountRecord list \<Rightarrow> int" where
  "invalidCredentialsFailureCount records =
    (case records of [] \<Rightarrow> 0 | r # _ \<Rightarrow> failureCountIn (ar_ext r) ''invalid_credentials'')"

definition invalidCredentialsExt ::
    "AccountRecord list \<Rightarrow> int \<Rightarrow> string \<Rightarrow> int \<Rightarrow> string \<Rightarrow> string \<Rightarrow> gomap" where
  "invalidCredentialsExt records ts reason failureCount source text1 =
    fmupd ''invalid_credentials''
      (GMap (fmupd ''failure_count'' (GInt failureCount) (fmupd ''last_fail_at'' (GInt64 ts)
        (fmupd ''last_fail_reason'' (GStr reason) (fmupd ''last_fail_source'' (GStr source)
        (fmupd ''last_fail_error'' (GStr text1) fmempty))))))
      (case records of [] \<Rightarrow> fmempty | r # _ \<Rightarrow> ar_ext r)"

definition invalidCredentialsPatch ::
    "(goerr \<Rightarrow> string) \<Rightarrow> int \<Rightarrow> int \<Rightarrow> AccountRecord list \<Rightarrow> string \<Rightarrow> goerr \<Rightarrow> string \<Rightarrow> AccountPatch" where
  "invalidCredentialsPatch other configured now records token err source =
    (let count = invalidCredentialsFailureCount records + 1;
         ext = invalidCredentialsExt records now ''invalid_credentials'' count source (errText other err);
         p = (emptyPatch token)\<lparr>pt_lastFailAt := Some now, pt_lastFailReason := Some ''invalid_credentials'',
               pt_stateReason := Some ''invalid_credentials'', pt_extMerge := ext\<rparr>
     in if count \<ge> invalidCredentialsFailureThreshold configured
        then p\<lparr>pt_status := Some StExpired,
               pt_extMerge := fmupd ''expired_reason'' (GStr ''invalid_credentials'') (fmupd ''expired_at'' (GInt64 now) ext)\<rparr>
        else p)"

definition MarkAccountInvalidCredentials ::
    "(goerr \<Rightarrow> string) \<Rightarrow> int \<Rightarrow> int \<Rightarrow> string \<Rightarrow> goerr \<Rightarrow> string \<Rightarrow> LocalDB \<Rightarrow> (goerr + bool) \<times> LocalDB" where
  "MarkAccountInvalidCredentials other configured now token err source db =
    (if \<not> IsInvalidCredentialsError err then (Inr False, db)
     else case GetAccounts now [token] db of
       Inl e \<Rightarrow> (Inl e, db)
     | Inr records \<Rightarrow>
         let p = invalidCredentialsPatch other configured now records token err source
         in (case patchOne now p db of
               (Some e, db1) \<Rightarrow> (Inl e, db1)
             | (None, db1) \<Rightarrow>
                 if pt_status p = Some StExpired then (Inr True, snd (DeleteAccounts now [token] db1))
                 else (Inr True, db1)))"

definition expireInvalidCredentials ::
    "(goerr \<Rightarrow> string) \<Rightarrow> int \<Rightarrow> int \<Rightarrow> AccountRecord \<Rightarrow> goerr \<Rightarrow> string \<Rightarrow> LocalDB \<Rightarrow>
     (goerr + RefreshResult \<times> bool) \<times> LocalDB" where
  "expireInvalidCredentials other configured now r err source db =
    (if \<not> IsInvalidCredentialsError err then (Inr (zeroResult, False), db)
     else case MarkAccountInvalidCredentials other configured now (ar_token r) err source db of
       (Inl e, db1) \<Rightarrow> (Inl e, db1)
     | (Inr False, db1) \<Rightarrow> (Inr (zeroResult, False), db1)
     | (Inr True, db1) \<Rightarrow>
         if invalidCredentialsFailureCount [r] + 1 \<ge> invalidCredentialsFailureThreshold configured
         then (Inr (zeroResult\<lparr>rr_checked := 1, rr_expired := 1\<rparr>, True), db1)
         else (Inr (zeroResult\<lparr>rr_checked := 1, rr_failed := 1\<rparr>, True), db1))"

section \<open>Fetching\<close>

text \<open>An empty result of the fetch becomes an empty map of windows, which is not nil.\<close>

definition fetchAllQuotas :: "fetcher \<Rightarrow> int \<Rightarrow> string \<Rightarrow> string \<Rightarrow> bool \<Rightarrow> goerr + windows option" where
  "fetchAllQuotas fetch now token pool bootstrap =
    (case FetchAllUsageQuotas fetch now token (if bootstrap then [] else SupportedModeIDs pool) of
       Inl e \<Rightarrow> if asUpstream e \<noteq> None then Inl e else Inr None
     | Inr None \<Rightarrow> Inr (Some Map.empty)
     | Inr (Some w) \<Rightarrow> Inr (Some w))"

definition fetchModeQuota :: "fetcher \<Rightarrow> int \<Rightarrow> string \<Rightarrow> string \<Rightarrow> int \<Rightarrow> goerr + QuotaWindow option" where
  "fetchModeQuota fetch now token pool modeID =
    (if \<not> SupportsMode pool modeID then Inr None
     else case FetchModeUsageQuota fetch now token modeID of
       Inl e \<Rightarrow> if asUpstream e \<noteq> None then Inl e else Inr None
     | Inr w \<Rightarrow> Inr w)"

section \<open>Refreshing one account\<close>

definition fetchedStep ::
    "AccountQuotaSet \<Rightarrow> string \<Rightarrow> int \<Rightarrow> windows \<Rightarrow> bool \<Rightarrow> int \<Rightarrow> AccountPatch \<times> bool \<Rightarrow> AccountPatch \<times> bool" where
  "fetchedStep q effectivePool now windows1 applyFallback1 modeID s =
    (case windows1 modeID of
       Some w \<Rightarrow>
         (case NormalizeQuotaWindow effectivePool modeID (Some w) of
            None \<Rightarrow> s
          | Some normalized \<Rightarrow> (setQuotaPatch modeID (windowToDict normalized) (fst s), True))
     | None \<Rightarrow>
         if applyFallback1 then (applyFallbackWindowPatch q effectivePool now modeID (fst s), snd s) else s)"

definition patchFetchedResult ::
    "int \<Rightarrow> AccountRecord \<Rightarrow> AccountPatch \<Rightarrow> windows \<Rightarrow> bool \<Rightarrow> LocalDB \<Rightarrow> (goerr + RefreshResult) \<times> LocalDB" where
  "patchFetchedResult now r p windows1 refreshed db =
    (if \<not> hasQuotaPatch p then (Inr (zeroResult\<lparr>rr_checked := 1, rr_failed := (if refreshed then 0 else 1)\<rparr>), db)
     else
       let p = (case InferPoolFromLiveWindows windows1 of
                  None \<Rightarrow> p | Some pool \<Rightarrow> if pool \<noteq> ar_pool r then p\<lparr>pt_pool := Some pool\<rparr> else p);
           p = (if refreshed then p\<lparr>pt_lastSyncAt := Some now, pt_syncDelta := Some 1\<rparr> else p)
       in (case patchOne now p db of
             (Some e, db1) \<Rightarrow> (Inl e, db1)
           | (None, db1) \<Rightarrow>
               (Inr (zeroResult\<lparr>rr_checked := 1, rr_refreshed := (if refreshed then 1 else 0),
                  rr_failed := (if refreshed then 0 else 1),
                  rr_recovered := (if ar_status r = StCooling \<and> refreshed then 1 else 0)\<rparr>), db1)))"

definition applyFetchedWindows ::
    "int \<Rightarrow> AccountRecord \<Rightarrow> windows \<Rightarrow> bool \<Rightarrow> LocalDB \<Rightarrow> (goerr + RefreshResult) \<times> LocalDB" where
  "applyFetchedWindows now r windows1 applyFallback1 db =
    (case QuotaSet r of
       Inl e \<Rightarrow> (Inl e, db)
     | Inr q \<Rightarrow>
         let effectivePool = (case InferPoolFromLiveWindows windows1 of None \<Rightarrow> ar_pool r | Some pool \<Rightarrow> pool);
             (p, refreshed) = fold (fetchedStep q effectivePool now windows1 applyFallback1) allRefreshModeIDs
               (emptyPatch (ar_token r), False)
         in patchFetchedResult now r p windows1 refreshed db)"

definition applyFallback :: "int \<Rightarrow> AccountRecord \<Rightarrow> LocalDB \<Rightarrow> (goerr + RefreshResult) \<times> LocalDB" where
  "applyFallback now r db =
    (case QuotaSet r of
       Inl e \<Rightarrow> (Inl e, db)
     | Inr q \<Rightarrow>
         let p = fold (applyFallbackWindowPatch q (ar_pool r) now) allRefreshModeIDs (emptyPatch (ar_token r));
             done1 = zeroResult\<lparr>rr_checked := 1, rr_failed := 1\<rparr>
         in if hasQuotaPatch p
            then (case patchOne now p db of (Some e, db1) \<Rightarrow> (Inl e, db1) | (None, db1) \<Rightarrow> (Inr done1, db1))
            else (Inr done1, db))"

text \<open>The parameters of the service that every operation reads.\<close>

record RefreshEnv =
  rf_fetch :: fetcher
  rf_maxFailures :: int
  rf_text :: "goerr \<Rightarrow> string"

definition refreshOne ::
    "RefreshEnv \<Rightarrow> int \<Rightarrow> AccountRecord \<Rightarrow> bool \<Rightarrow> bool \<Rightarrow> LocalDB \<Rightarrow> (goerr + RefreshResult) \<times> LocalDB" where
  "refreshOne env now r applyFallback1 bootstrap db =
    (if IsDeleted r then (Inr zeroResult, db)
     else case fetchAllQuotas (rf_fetch env) now (ar_token r) (ar_pool r) bootstrap of
       Inl e \<Rightarrow>
         (case expireInvalidCredentials (rf_text env) (rf_maxFailures env) now r e ''refresh'' db of
            (Inl e1, db1) \<Rightarrow> (Inl e1, db1)
          | (Inr (result, handled), db1) \<Rightarrow> if handled then (Inr result, db1) else (Inl e, db1))
     | Inr None \<Rightarrow>
         if \<not> applyFallback1 then (Inr (zeroResult\<lparr>rr_checked := 1, rr_failed := 1\<rparr>), db) else applyFallback now r db
     | Inr (Some w) \<Rightarrow> applyFetchedWindows now r w applyFallback1 db)"

section \<open>Uses and failures of one mode\<close>

definition singleModePatch ::
    "int \<Rightarrow> AccountRecord \<Rightarrow> int \<Rightarrow> QuotaWindow option \<Rightarrow> bool \<Rightarrow> int \<Rightarrow> goerr + AccountPatch option" where
  "singleModePatch now r modeID window isUse useAtMS =
    bindE (QuotaSet r) (\<lambda>q.
      let p0 = emptyPatch (ar_token r);
          p1 = (case window of
            Some w \<Rightarrow> map_option (\<lambda>n. (setQuotaPatch modeID (windowToDict n) p0)
                        \<lparr>pt_lastSyncAt := Some now, pt_syncDelta := Some 1\<rparr>)
                      (NormalizeQuotaWindow (ar_pool r) modeID (Some w))
          | None \<Rightarrow> (case quotaGet q modeID of
              None \<Rightarrow> Some p0
            | Some existing \<Rightarrow>
                Some (setQuotaPatch modeID (windowToDict (localUseWindowPatch (ar_pool r) modeID existing useAtMS)) p0)))
      in Inr (map_option (\<lambda>p. if isUse then p\<lparr>pt_useDelta := Some 1, pt_lastUseAt := Some useAtMS\<rparr> else p) p1))"

definition applySingleMode ::
    "int \<Rightarrow> AccountRecord \<Rightarrow> int \<Rightarrow> QuotaWindow option \<Rightarrow> bool \<Rightarrow> int \<Rightarrow> LocalDB \<Rightarrow> goerr option \<times> LocalDB" where
  "applySingleMode now r modeID window isUse useAtMS db =
    (if \<not> isKnownRefreshMode modeID then (None, db)
     else case singleModePatch now r modeID window isUse useAtMS of
       Inl e \<Rightarrow> (Some e, db)
     | Inr None \<Rightarrow> (None, db)
     | Inr (Some p) \<Rightarrow> patchOne now p db)"

definition RefreshCallAsync :: "RefreshEnv \<Rightarrow> int \<Rightarrow> string \<Rightarrow> int \<Rightarrow> LocalDB \<Rightarrow> goerr option \<times> LocalDB" where
  "RefreshCallAsync env now token modeID db =
    (case GetAccounts now [token] db of
       Inl e \<Rightarrow> (Some e, db)
     | Inr [] \<Rightarrow> (None, db)
     | Inr (r # _) \<Rightarrow>
         if IsDeleted r then (None, db)
         else if modeID = 5 then applySingleMode now r modeID None True now db
         else case fetchModeQuota (rf_fetch env) now token (ar_pool r) modeID of
           Inl e \<Rightarrow>
             (case expireInvalidCredentials (rf_text env) (rf_maxFailures env) now r e ''refresh_call'' db of
                (Inl e1, db1) \<Rightarrow> (Some e1, db1)
              | (Inr (_, handled), db1) \<Rightarrow> if handled then (None, db1) else (Some e, db1))
         | Inr w \<Rightarrow> applySingleMode now r modeID w True now db)"

definition rateLimitedFailurePatch :: "int \<Rightarrow> AccountRecord \<Rightarrow> int \<Rightarrow> AccountPatch" where
  "rateLimitedFailurePatch now r modeID =
    (let p = (emptyPatch (ar_token r))\<lparr>pt_failDelta := Some 1, pt_lastFailAt := Some now,
               pt_lastFailReason := Some ''rate_limited''\<rparr>
     in (case QuotaSet r of
           Inl _ \<Rightarrow> p
         | Inr q \<Rightarrow> (case quotaGet q modeID of
             None \<Rightarrow> p | Some w \<Rightarrow> setQuotaPatch modeID (windowToDict (rateLimitedWindowPatch w now)) p)))"

text \<open>\<open>recordSpecificFailure\<close>: whether the failure was taken care of. Errors of the repository are
  swallowed.\<close>

definition recordSpecificFailure :: "RefreshEnv \<Rightarrow> int \<Rightarrow> string \<Rightarrow> int \<Rightarrow> goerr \<Rightarrow> LocalDB \<Rightarrow> bool \<times> LocalDB" where
  "recordSpecificFailure env now token modeID err db =
    (case GetAccounts now [token] db of
       Inl _ \<Rightarrow> (False, db)
     | Inr [] \<Rightarrow> (False, db)
     | Inr (r # _) \<Rightarrow>
         let (result, db1) = expireInvalidCredentials (rf_text env) (rf_maxFailures env) now r err ''runtime'' db
         in if (case result of Inr (_, handled) \<Rightarrow> handled | Inl _ \<Rightarrow> False) then (True, db1)
            else if (case asUpstream err of Some (status, _) \<Rightarrow> status \<noteq> 429 | None \<Rightarrow> True) \<or>
                    \<not> isKnownRefreshMode modeID then (False, db1)
            else (True, snd (patchOne now (rateLimitedFailurePatch now r modeID) db1)))"

definition RecordFailureAsync ::
    "RefreshEnv \<Rightarrow> int \<Rightarrow> string \<Rightarrow> int \<Rightarrow> goerr option \<Rightarrow> LocalDB \<Rightarrow> LocalDB" where
  "RecordFailureAsync env now token modeID err db =
    (let (handled, db1) = (case err of None \<Rightarrow> (False, db) | Some e \<Rightarrow> recordSpecificFailure env now token modeID e db)
     in if handled then db1
        else snd (patchOne now ((emptyPatch token)\<lparr>pt_failDelta := Some 1, pt_lastFailAt := Some now\<rparr>) db1))"

section \<open>Batches\<close>

text \<open>\<open>chunk\<close> cuts the tokens as the loop of \<open>getAccountsBatched\<close> does.\<close>

function chunk :: "nat \<Rightarrow> 'a list \<Rightarrow> 'a list list" where
  "chunk n xs = (if xs = [] \<or> n = 0 then [] else take n xs # chunk n (drop n xs))"
  by auto
termination by (relation "measure (\<lambda>(n, xs). length xs)") auto

declare chunk.simps [simp del]

fun getChunks :: "int \<Rightarrow> string list list \<Rightarrow> LocalDB \<Rightarrow> goerr + AccountRecord list" where
  "getChunks now [] db = Inr []"
| "getChunks now (c # cs) db =
    bindE (GetAccounts now c db) (\<lambda>rs. bindE (getChunks now cs db) (\<lambda>rest. Inr (rs @ rest)))"

definition getAccountsBatched :: "int \<Rightarrow> int \<Rightarrow> string list \<Rightarrow> LocalDB \<Rightarrow> goerr + AccountRecord list" where
  "getAccountsBatched batchSize now tokens db =
    (let limit = (if batchSize \<le> 0 then 500 else batchSize) in getChunks now (chunk (nat limit) tokens) db)"

fun refreshAll ::
    "RefreshEnv \<Rightarrow> int \<Rightarrow> bool \<Rightarrow> bool \<Rightarrow> AccountRecord list \<Rightarrow> LocalDB \<Rightarrow> goerr list \<times> RefreshResult list \<times> LocalDB" where
  "refreshAll env now fallback bootstrap [] db = ([], [], db)"
| "refreshAll env now fallback bootstrap (r # rs) db =
    (case refreshOne env now r fallback bootstrap db of
       (Inl e, db1) \<Rightarrow> (case refreshAll env now fallback bootstrap rs db1 of
           (errs, results, db2) \<Rightarrow> (e # errs, zeroResult # results, db2))
     | (Inr x, db1) \<Rightarrow> (case refreshAll env now fallback bootstrap rs db1 of
           (errs, results, db2) \<Rightarrow> (errs, x # results, db2)))"

definition runRefreshBatch ::
    "RefreshEnv \<Rightarrow> int \<Rightarrow> AccountRecord list \<Rightarrow> bool \<Rightarrow> bool \<Rightarrow> LocalDB \<Rightarrow> (goerr + RefreshResult list) \<times> LocalDB" where
  "runRefreshBatch env now records fallback bootstrap db =
    (case refreshAll env now fallback bootstrap records db of
       ([], results, db1) \<Rightarrow> (Inr results, db1)
     | (e # _, _, db1) \<Rightarrow> (Inl e, db1))"

definition RefreshOnImport ::
    "RefreshEnv \<Rightarrow> int \<Rightarrow> int \<Rightarrow> string list \<Rightarrow> LocalDB \<Rightarrow> (goerr + RefreshResult) \<times> LocalDB" where
  "RefreshOnImport env batchSize now tokens db =
    (case getAccountsBatched batchSize now tokens db of
       Inl e \<Rightarrow> (Inl e, db)
     | Inr records \<Rightarrow>
         let active = filterRefreshManageable now records; agg = zeroResult\<lparr>rr_checked := int (length records)\<rparr>
         in if active = [] then (Inr agg, db)
            else (case runRefreshBatch env now active True True db of
                    (Inl e, db1) \<Rightarrow> (Inl e, db1)
                  | (Inr results, db1) \<Rightarrow> (Inr (mergeRefreshResults results agg), db1)))"

definition RefreshScheduled ::
    "RefreshEnv \<Rightarrow> int \<Rightarrow> string option \<Rightarrow> LocalDB \<Rightarrow> (goerr + RefreshResult) \<times> LocalDB" where
  "RefreshScheduled env now pool db =
    (case repoSnapshot now db of
       Inl e \<Rightarrow> (Inl e, db)
     | Inr snapshot \<Rightarrow>
         let records = filterRefreshManageable now (sn_items snapshot);
             records = (case pool of None \<Rightarrow> records | Some p \<Rightarrow> filterRefreshPool p records)
         in (case runRefreshBatch env now records True False db of
               (Inl e, db1) \<Rightarrow> (Inl e, db1)
             | (Inr results, db1) \<Rightarrow> (Inr (mergeRefreshResults results zeroResult), db1)))"

definition RefreshTokens ::
    "RefreshEnv \<Rightarrow> int \<Rightarrow> int \<Rightarrow> string list \<Rightarrow> LocalDB \<Rightarrow> (goerr + RefreshResult) \<times> LocalDB" where
  "RefreshTokens env batchSize now tokens db =
    (case getAccountsBatched batchSize now tokens db of
       Inl e \<Rightarrow> (Inl e, db)
     | Inr records \<Rightarrow>
         (case runRefreshBatch env now (filterRefreshManageable now records) False True db of
            (Inl e, db1) \<Rightarrow> (Inl e, db1)
          | (Inr results, db1) \<Rightarrow> (Inr (mergeRefreshResults results zeroResult), db1)))"

text \<open>The guard of on-demand refreshes: a flag and the time of the last success (none at the start,
  which is the zero \<open>time.Time\<close>, long ago).\<close>

record OnDemand =
  od_running :: bool
  od_last :: "int option"

definition tryStartOnDemand :: "int \<Rightarrow> int \<Rightarrow> OnDemand \<Rightarrow> bool \<times> OnDemand" where
  "tryStartOnDemand minInterval now s =
    (if od_running s \<or> (case od_last s of None \<Rightarrow> False | Some t \<Rightarrow> now - t < minInterval) then (False, s)
     else (True, s\<lparr>od_running := True\<rparr>))"

definition finishOnDemand :: "int \<Rightarrow> bool \<Rightarrow> OnDemand \<Rightarrow> OnDemand" where
  "finishOnDemand now success s =
    (let s = s\<lparr>od_running := False\<rparr> in if success then s\<lparr>od_last := Some now\<rparr> else s)"

definition RefreshOnDemand ::
    "RefreshEnv \<Rightarrow> int \<Rightarrow> int \<Rightarrow> OnDemand \<times> LocalDB \<Rightarrow> (goerr + RefreshResult) \<times> OnDemand \<times> LocalDB" where
  "RefreshOnDemand env minInterval now s =
    (case tryStartOnDemand minInterval now (fst s) of
       (False, od) \<Rightarrow> (Inr zeroResult, od, snd s)
     | (True, od) \<Rightarrow>
         (case RefreshScheduled env now None (snd s) of
            (Inl e, db1) \<Rightarrow> (Inl e, finishOnDemand now False od, db1)
          | (Inr result, db1) \<Rightarrow> (Inr result, finishOnDemand now True od, db1)))"

section \<open>Console windows\<close>

text \<open>\<open>ResetExpiredConsoleWindows\<close>: the patch of one account, if its console window is due.\<close>

definition consoleResetPatch :: "int \<Rightarrow> AccountRecord \<Rightarrow> AccountPatch option" where
  "consoleResetPatch now r =
    (case QuotaSet r of
       Inl _ \<Rightarrow> None
     | Inr q \<Rightarrow> (case qs_console q of
         None \<Rightarrow> None
       | Some w \<Rightarrow>
           if \<not> IsWindowExpired w now \<and> \<not> (qw_remaining w \<le> 0 \<and> qw_resetAt w = None) then None
           else if qw_remaining w \<ge> qw_total w then None
           else (case DefaultQuotaWindow (ar_pool r) 5 of
                   None \<Rightarrow> None
                 | Some d \<Rightarrow>
                     Some ((emptyPatch (ar_token r))\<lparr>pt_quotaConsole := Some (windowToDict
                       \<lparr>qw_remaining = qw_total d, qw_total = qw_total d, qw_windowSeconds = qw_windowSeconds d,
                        qw_resetAt = None, qw_syncedAt = Some now, qw_source = SrcDefault\<rparr>)\<rparr>))))"

definition ResetExpiredConsoleWindows :: "int \<Rightarrow> LocalDB \<Rightarrow> (goerr + int) \<times> LocalDB" where
  "ResetExpiredConsoleWindows now db =
    (case repoSnapshot now db of
       Inl e \<Rightarrow> (Inl e, db)
     | Inr snapshot \<Rightarrow>
         let patches = List.map_filter (consoleResetPatch now) (sn_items snapshot)
         in if patches = [] then (Inr 0, db)
            else (case PatchAccounts now patches db of
                    (Inl e, db1) \<Rightarrow> (Inl e, db1)
                  | (Inr _, db1) \<Rightarrow> (Inr (int (length patches)), db1)))"

end
