(* ===== verification/ModelRegistry.thy ===== *)
theory ModelRegistry
  imports GoStrings "HOL-Library.List_Lexorder" "HOL-Library.Char_ord"
begin

unbundle bit_operations_syntax

text \<open>
  The model registry (\<open>app/control/model/enums.go\<close>, \<open>spec.go\<close>, \<open>registry.go\<close>, \<open>build.go\<close>): the
  specifications of the built-in models, lookup by name with the models of a dynamic provider after
  the built-in ones, the lists the API shows, and the account pools a model may use. What the dynamic
  provider answers is the parameter \<open>dynamic\<close> (no provider and a panicking one answer the empty list).
\<close>

section \<open>Specifications\<close>

definition ModeAuto :: int where "ModeAuto = 0"
definition ModeFast :: int where "ModeFast = 1"
definition ModeExpert :: int where "ModeExpert = 2"
definition ModeHeavy :: int where "ModeHeavy = 3"
definition ModeGrok43 :: int where "ModeGrok43 = 4"
definition ModeConsole :: int where "ModeConsole = 5"
definition ModeBuild :: int where "ModeBuild = 6"

lemmas mode_ids = ModeAuto_def ModeFast_def ModeExpert_def ModeHeavy_def ModeGrok43_def ModeConsole_def ModeBuild_def

definition ToAPIString :: "int \<Rightarrow> string" where
  "ToAPIString m =
    (if m = ModeGrok43 then ''grok-420-computer-use-sa''
     else if m = ModeAuto then ''auto'' else if m = ModeFast then ''fast''
     else if m = ModeExpert then ''expert'' else if m = ModeHeavy then ''heavy''
     else if m = ModeConsole then ''console'' else if m = ModeBuild then ''build'' else '''')"

datatype Tier = TierBasic | TierSuper | TierHeavy

fun tierInt :: "Tier \<Rightarrow> int" where
  "tierInt TierBasic = 0"
| "tierInt TierSuper = 1"
| "tierInt TierHeavy = 2"

text \<open>Capabilities are the bits of a mask.\<close>

definition CapabilityChat :: int where "CapabilityChat = 1"
definition CapabilityImage :: int where "CapabilityImage = 2"
definition CapabilityImageEdit :: int where "CapabilityImageEdit = 4"
definition CapabilityVideo :: int where "CapabilityVideo = 8"
definition CapabilityVoice :: int where "CapabilityVoice = 16"
definition CapabilityAsset :: int where "CapabilityAsset = 32"
definition CapabilityConsoleChat :: int where "CapabilityConsoleChat = 64"
definition CapabilityBuildChat :: int where "CapabilityBuildChat = 128"

lemmas capabilities = CapabilityChat_def CapabilityImage_def CapabilityImageEdit_def CapabilityVideo_def
  CapabilityVoice_def CapabilityAsset_def CapabilityConsoleChat_def CapabilityBuildChat_def

record ModelSpec =
  ms_name :: string
  ms_mode :: int
  ms_tier :: Tier
  ms_capability :: int
  ms_enabled :: bool
  ms_publicName :: string
  ms_preferBest :: bool

definition hasCapability :: "ModelSpec \<Rightarrow> int \<Rightarrow> bool" where
  "hasCapability s c \<longleftrightarrow> ms_capability s AND c \<noteq> 0"

definition IsChat :: "ModelSpec \<Rightarrow> bool" where
  "IsChat s = hasCapability s CapabilityChat"

definition IsConsoleChat :: "ModelSpec \<Rightarrow> bool" where
  "IsConsoleChat s = hasCapability s CapabilityConsoleChat"

definition IsBuildChat :: "ModelSpec \<Rightarrow> bool" where
  "IsBuildChat s = hasCapability s CapabilityBuildChat"

definition PoolName :: "ModelSpec \<Rightarrow> string" where
  "PoolName s = (if ms_tier s = TierSuper then ''super'' else if ms_tier s = TierHeavy then ''heavy'' else ''basic'')"

definition PoolCandidates :: "ModelSpec \<Rightarrow> int list" where
  "PoolCandidates s =
    (if ms_preferBest s
     then (if ms_tier s = TierHeavy then [2] else if ms_tier s = TierSuper then [2, 1] else [2, 1, 0])
     else if ms_tier s = TierBasic then [0, 1, 2]
     else if ms_tier s = TierSuper then [1, 2]
     else [2])"

section \<open>The built-in models\<close>

definition modelSpec :: "string \<Rightarrow> int \<Rightarrow> Tier \<Rightarrow> int \<Rightarrow> string \<Rightarrow> bool \<Rightarrow> ModelSpec" where
  "modelSpec name mode tier cap public1 best1 =
    \<lparr>ms_name = name, ms_mode = mode, ms_tier = tier, ms_capability = cap, ms_enabled = True,
     ms_publicName = public1, ms_preferBest = best1\<rparr>"

definition Models :: "ModelSpec list" where
  "Models = [
    modelSpec ''grok-4.20-0309-non-reasoning'' ModeFast TierBasic CapabilityChat ''Grok 4.20 0309 Non-Reasoning'' False,
    modelSpec ''grok-4.20-0309'' ModeAuto TierSuper CapabilityChat ''Grok 4.20 0309'' False,
    modelSpec ''grok-4.20-0309-reasoning'' ModeExpert TierSuper CapabilityChat ''Grok 4.20 0309 Reasoning'' False,
    modelSpec ''grok-4.20-0309-non-reasoning-super'' ModeFast TierSuper CapabilityChat ''Grok 4.20 0309 Non-Reasoning Super'' False,
    modelSpec ''grok-4.20-0309-super'' ModeAuto TierSuper CapabilityChat ''Grok 4.20 0309 Super'' False,
    modelSpec ''grok-4.20-0309-reasoning-super'' ModeExpert TierSuper CapabilityChat ''Grok 4.20 0309 Reasoning Super'' False,
    modelSpec ''grok-4.20-0309-non-reasoning-heavy'' ModeFast TierHeavy CapabilityChat ''Grok 4.20 0309 Non-Reasoning Heavy'' False,
    modelSpec ''grok-4.20-0309-heavy'' ModeAuto TierHeavy CapabilityChat ''Grok 4.20 0309 Heavy'' False,
    modelSpec ''grok-4.20-0309-reasoning-heavy'' ModeExpert TierHeavy CapabilityChat ''Grok 4.20 0309 Reasoning Heavy'' False,
    modelSpec ''grok-4.20-multi-agent-0309'' ModeHeavy TierHeavy CapabilityChat ''Grok 4.20 Multi-Agent 0309'' False,
    modelSpec ''grok-4.20-fast'' ModeFast TierBasic CapabilityChat ''Grok 4.20 Fast'' True,
    modelSpec ''grok-4.20-auto'' ModeAuto TierSuper CapabilityChat ''Grok 4.20 Auto'' True,
    modelSpec ''grok-4.20-expert'' ModeExpert TierSuper CapabilityChat ''Grok 4.20 Expert'' True,
    modelSpec ''grok-4.20-heavy'' ModeHeavy TierHeavy CapabilityChat ''Grok 4.20 Heavy'' True,
    modelSpec ''grok-4.3-fast'' ModeFast TierBasic CapabilityChat ''Grok 4.3 Fast'' True,
    modelSpec ''grok-4.3-beta'' ModeGrok43 TierSuper CapabilityChat ''Grok 4.3 Beta'' False,
    modelSpec ''grok-imagine-image-lite'' ModeFast TierBasic CapabilityImage ''Grok Imagine Image Lite'' False,
    modelSpec ''grok-imagine-image'' ModeAuto TierSuper CapabilityImage ''Grok Imagine Image'' False,
    modelSpec ''grok-imagine-image-pro'' ModeAuto TierSuper CapabilityImage ''Grok Imagine Image Pro'' False,
    modelSpec ''grok-imagine-image-edit'' ModeAuto TierSuper CapabilityImageEdit ''Grok Imagine Image Edit'' False,
    modelSpec ''grok-imagine-video'' ModeAuto TierSuper CapabilityVideo ''Grok Imagine Video'' False,
    modelSpec ''grok-4.3-console'' ModeConsole TierBasic CapabilityConsoleChat ''Grok 4.3 (Console)'' False,
    modelSpec ''grok-4.3-low'' ModeConsole TierBasic CapabilityConsoleChat ''Grok 4.3 Low Thinking'' False,
    modelSpec ''grok-4.3-medium'' ModeConsole TierBasic CapabilityConsoleChat ''Grok 4.3 Medium Thinking'' False,
    modelSpec ''grok-4.3-high'' ModeConsole TierBasic CapabilityConsoleChat ''Grok 4.3 High Thinking'' False,
    modelSpec ''grok-4.20-0309-reasoning-console'' ModeConsole TierBasic CapabilityConsoleChat ''Grok 4.20 0309 Reasoning (Console)'' False,
    modelSpec ''grok-4.20-0309-console'' ModeConsole TierBasic CapabilityConsoleChat ''Grok 4.20 0309 (Console)'' False,
    modelSpec ''grok-4.20-multi-agent-console'' ModeConsole TierBasic CapabilityConsoleChat ''Grok 4.20 Multi-Agent (Console)'' False,
    modelSpec ''grok-4.20-multi-agent-low'' ModeConsole TierBasic CapabilityConsoleChat ''Grok 4.20 Multi-Agent Low'' False,
    modelSpec ''grok-4.20-multi-agent-medium'' ModeConsole TierBasic CapabilityConsoleChat ''Grok 4.20 Multi-Agent Medium'' False,
    modelSpec ''grok-4.20-multi-agent-high'' ModeConsole TierBasic CapabilityConsoleChat ''Grok 4.20 Multi-Agent High'' False,
    modelSpec ''grok-4.20-multi-agent-xhigh'' ModeConsole TierBasic CapabilityConsoleChat ''Grok 4.20 Multi-Agent XHigh'' False,
    modelSpec ''grok-4.20-0309-non-reasoning-console'' ModeConsole TierBasic CapabilityConsoleChat ''Grok 4.20 0309 Non-Reasoning (Console)'' False,
    modelSpec ''grok-build-console'' ModeConsole TierBasic CapabilityConsoleChat ''Grok Build 0.1 (Console)'' False]"

section \<open>Build models\<close>

definition BuildModelPrefix :: string where
  "BuildModelPrefix = ''build/''"

definition IsBuildModelName :: "string \<Rightarrow> bool" where
  "IsBuildModelName name = hasPrefix (trimSpace name) BuildModelPrefix"

definition UpstreamIDFromBuildModel :: "string \<Rightarrow> string" where
  "UpstreamIDFromBuildModel modelName =
    (let name = trimSpace modelName
     in if \<not> hasPrefix name BuildModelPrefix then ''''
        else trimSpace (drop (length BuildModelPrefix) name))"

definition BuildSpecFromName :: "string \<Rightarrow> ModelSpec option" where
  "BuildSpecFromName modelName =
    (let upstream = UpstreamIDFromBuildModel modelName
     in if upstream = '''' then None
        else Some (modelSpec (trimSpace modelName) ModeBuild TierBasic CapabilityBuildChat (''Build '' @ upstream) False))"

section \<open>Lookup and lists\<close>

definition modelsByName :: "string \<Rightarrow> ModelSpec option" where
  "modelsByName = fold (\<lambda>spec m. m(ms_name spec \<mapsto> spec)) Models Map.empty"

definition GetModel :: "ModelSpec list \<Rightarrow> string \<Rightarrow> ModelSpec option" where
  "GetModel dynamic name =
    (case modelsByName name of
       Some spec \<Rightarrow> Some spec
     | None \<Rightarrow> find (\<lambda>spec. ms_name spec = name) dynamic)"

definition Resolve :: "ModelSpec list \<Rightarrow> string \<Rightarrow> goerr + ModelSpec" where
  "Resolve dynamic name =
    (case GetModel dynamic name of
       Some spec \<Rightarrow> Inr spec
     | None \<Rightarrow> (case BuildSpecFromName name of Some spec \<Rightarrow> Inr spec | None \<Rightarrow> Inl (ErrUnknownModel name)))"

fun addDynamic :: "ModelSpec list \<Rightarrow> ModelSpec list \<Rightarrow> ModelSpec list" where
  "addDynamic [] all = all"
| "addDynamic (spec # specs) all =
    (if ms_name spec = '''' \<or> ms_name spec \<in> ms_name ` set all then addDynamic specs all
     else addDynamic specs (all @ [spec]))"

definition allModels :: "ModelSpec list \<Rightarrow> ModelSpec list" where
  "allModels dynamic = addDynamic (sort_key ms_name dynamic) Models"

definition ListEnabled :: "ModelSpec list \<Rightarrow> ModelSpec list" where
  "ListEnabled dynamic = filter ms_enabled (allModels dynamic)"

definition ListByCapability :: "ModelSpec list \<Rightarrow> int \<Rightarrow> ModelSpec list" where
  "ListByCapability dynamic cap = filter (\<lambda>s. ms_enabled s \<and> hasCapability s cap) (allModels dynamic)"

section \<open>The lists\<close>

lemma Models_distinct: "distinct (map ms_name Models)"
  by (simp add: Models_def modelSpec_def)

lemma find_append: "find P (xs @ ys) = (case find P xs of None \<Rightarrow> find P ys | Some x \<Rightarrow> Some x)"
  by (induction xs) auto

lemma find_name_None: "find (\<lambda>s. ms_name s = name) specs = None \<longleftrightarrow> name \<notin> ms_name ` set specs"
  by (auto simp: find_None_iff)

lemma fold_upd: "fold (\<lambda>spec m. m(ms_name spec \<mapsto> spec)) specs m0 name =
    (case find (\<lambda>spec. ms_name spec = name) (rev specs) of Some s \<Rightarrow> Some s | None \<Rightarrow> m0 name)"
  by (induction specs arbitrary: m0 rule: rev_induct) (auto split: option.split)

lemma byName: "modelsByName name = find (\<lambda>spec. ms_name spec = name) Models"
proof -
  have "distinct (map ms_name specs) \<Longrightarrow>
      find (\<lambda>spec. ms_name spec = name) (rev specs) = find (\<lambda>spec. ms_name spec = name) specs" for specs
  proof (induction specs)
    case (Cons s specs)
    have "find (\<lambda>spec. ms_name spec = ms_name s) specs = None" using Cons.prems by (simp add: find_name_None)
    with Cons show ?case by (auto simp: find_append split: option.split)
  qed simp
  from this [OF Models_distinct] show ?thesis unfolding modelsByName_def fold_upd by (auto split: option.split)
qed

lemma addDynamic_spec:
  assumes "distinct (map ms_name all)" "'''' \<notin> ms_name ` set all"
  shows "distinct (map ms_name (addDynamic specs all)) \<and>
    ms_name ` set (addDynamic specs all) = ms_name ` set all \<union> (ms_name ` set specs - {''''}) \<and>
    (\<exists>rest. addDynamic specs all = all @ rest) \<and>
    (\<forall>name. name \<noteq> '''' \<longrightarrow> find (\<lambda>s. ms_name s = name) (addDynamic specs all) = find (\<lambda>s. ms_name s = name) (all @ specs))"
  using assms
proof (induction specs all rule: addDynamic.induct)
  case (2 spec specs all)
  show ?case
  proof (cases "ms_name spec = '''' \<or> ms_name spec \<in> ms_name ` set all")
    case True
    have "find (\<lambda>s. ms_name s = name) (all @ spec # specs) = find (\<lambda>s. ms_name s = name) (all @ specs)"
      if "name \<noteq> ''''" for name
    proof (cases "find (\<lambda>s. ms_name s = name) all")
      case None
      then have "ms_name spec \<noteq> name" using True that by (auto simp: find_name_None)
      then show ?thesis using None by (simp add: find_append)
    qed (simp add: find_append)
    then show ?thesis using 2 True by auto
  next
    case False
    let ?r = "addDynamic specs (all @ [spec])"
    have d: "distinct (map ms_name (all @ [spec]))" "'''' \<notin> ms_name ` set (all @ [spec])" using 2 False by auto
    note IH = "2.IH"(2) [OF False d]
    have "ms_name ` set ?r = ms_name ` set (all @ [spec]) \<union> (ms_name ` set specs - {''''})" using IH by blast
    also have "\<dots> = ms_name ` set all \<union> (ms_name ` set (spec # specs) - {''''})" using False by auto
    finally have "ms_name ` set ?r = ms_name ` set all \<union> (ms_name ` set (spec # specs) - {''''})" .
    moreover have "\<exists>rest. ?r = all @ rest" using IH by (metis append.assoc)
    moreover have "all @ spec # specs = (all @ [spec]) @ specs" by simp
    moreover have "addDynamic (spec # specs) all = ?r" using False by simp
    ultimately show ?thesis using IH by metis
  qed
qed simp

text \<open>The list of models: no name twice and none empty, the built-in models first and in their order,
  every named dynamic model whose name is not taken after them, and the lookup by name finds the
  model the list shows.\<close>

theorem models_listed:
  "distinct (map ms_name (allModels dynamic)) \<and>
   ms_name ` set (allModels dynamic) = ms_name ` set Models \<union> (ms_name ` set dynamic - {''''}) \<and>
   take (length Models) (allModels dynamic) = Models \<and>
   (\<forall>name. name \<noteq> '''' \<longrightarrow> GetModel dynamic name = find (\<lambda>s. ms_name s = name) (allModels dynamic))"
proof -
  have "'''' \<notin> ms_name ` set Models" by (simp add: Models_def modelSpec_def)
  note spec = addDynamic_spec [OF Models_distinct this, of "sort_key ms_name dynamic"]
  have head: "find P xs = (case filter P xs of [] \<Rightarrow> None | x # _ \<Rightarrow> Some x)" for P and xs :: "ModelSpec list"
    by (induction xs) auto
  have "filter (\<lambda>s. ms_name s = name) (sort_key ms_name dynamic) = filter (\<lambda>s. ms_name s = name) dynamic" for name
    by (rule sort_key_stable)
  then have "find (\<lambda>s. ms_name s = name) (sort_key ms_name dynamic) = find (\<lambda>s. ms_name s = name) dynamic" for name
    by (simp add: head)
  then have "find (\<lambda>s. ms_name s = name) (allModels dynamic) = GetModel dynamic name" if "name \<noteq> ''''" for name
    using spec that by (simp add: allModels_def GetModel_def byName find_append split: option.split)
  moreover have "take (length Models) (allModels dynamic) = Models" using spec by (auto simp: allModels_def)
  ultimately show ?thesis using spec by (simp add: allModels_def)
qed

definition sampleDynamic :: ModelSpec where
  "sampleDynamic = modelSpec ''my-model'' ModeFast TierBasic CapabilityChat ''My model'' False"

theorem models_listed_witness:
  "''my-model'' \<in> ms_name ` set (allModels [sampleDynamic]) \<and>
   GetModel [sampleDynamic] ''my-model'' = find (\<lambda>s. ms_name s = ''my-model'') (allModels [sampleDynamic])"
  using models_listed [of "[sampleDynamic]"] by (simp add: sampleDynamic_def modelSpec_def)

lemma pool_order:
  "PoolCandidates s = (if ms_preferBest s then rev else id) (map int [nat (tierInt (ms_tier s))..<3])"
  by (cases "ms_tier s") (simp_all add: PoolCandidates_def upt_rec)

end
