(* ===== verification/Dispatch.thy ===== *)
theory Dispatch
  imports DirectoryProps RefreshService ModelRegistry
begin

text \<open>
  Serving a request from the account pool: the dispatch loop (\<open>app/products/dispatch.go\<close>), the choice of
  an account over the candidate modes with a refresh on demand (\<open>app/products/account_selection.go\<close>), and
  the chat service that instantiates them (\<open>app/products/openai/chat.go\<close>, \<open>chat_globals.go\<close>,
  \<open>chat_errors.go\<close>, \<open>chat_prepare.go\<close>) over the account directory, the refresh service and the local
  repository. What the upstream answers is the parameter \<open>ce_attempt\<close> over an upstream state of any type;
  clocks are functions of that state. The kind \<open>""\<close> of a feedback is \<open>None\<close>.
\<close>

section \<open>The dispatch loop\<close>

record AccountDispatchLease =
  dl_token :: string
  dl_mode :: int

definition errOf :: "goerr + 'r \<Rightarrow> goerr option" where
  "errOf r = (case r of Inl e \<Rightarrow> Some e | Inr _ \<Rightarrow> None)"

record ('q, 's) DispatchOptions =
  do_reserve :: "'q \<Rightarrow> string list \<Rightarrow> 's \<Rightarrow> (goerr + AccountDispatchLease option) \<times> 's"
  do_release :: "AccountDispatchLease \<Rightarrow> 's \<Rightarrow> 's"
  do_feedback :: "string \<Rightarrow> FeedbackKind \<Rightarrow> int \<Rightarrow> 's \<Rightarrow> 's"
  do_spec :: 'q
  do_retry :: RetryPolicy
  do_retryable :: "(goerr \<Rightarrow> bool) option"
  do_kindOf :: "(goerr option \<Rightarrow> FeedbackKind option) option"
  do_message :: string

definition dispatchMaxAttempts :: "('q, 's) DispatchOptions \<Rightarrow> int" where
  "dispatchMaxAttempts o1 =
    (let attempts = rp_maxAttempts (do_retry o1) in if attempts \<le> 0 then 1 else attempts)"

definition shouldRetryDispatch :: "('q, 's) DispatchOptions \<Rightarrow> goerr option \<Rightarrow> int \<Rightarrow> bool" where
  "shouldRetryDispatch o1 err attempt =
    (case err of
       None \<Rightarrow> False
     | Some e \<Rightarrow>
         if attempt + 1 \<ge> dispatchMaxAttempts o1 then False
         else (case do_retryable o1 of Some f \<Rightarrow> f e | None \<Rightarrow> ShouldRetry (do_retry o1) err attempt))"

definition noAccountsError :: "string \<Rightarrow> goerr" where
  "noAccountsError message = ErrRateLimit (if message = '''' then ''No available accounts'' else message)"

definition dispatchFeedback ::
    "('q, 's) DispatchOptions \<Rightarrow> AccountDispatchLease \<Rightarrow> goerr option \<Rightarrow> 's \<Rightarrow> 's" where
  "dispatchFeedback o1 lease err s =
    (case do_kindOf o1 of
       None \<Rightarrow> s
     | Some f \<Rightarrow> (case f err of
         None \<Rightarrow> s
       | Some kind \<Rightarrow> do_feedback o1 (dl_token lease) kind (dl_mode lease) s))"

text \<open>The iterations of the loop from \<open>attempt\<close> on, \<open>n\<close> of them at most.\<close>

fun dispatchFrom ::
    "('q, 's) DispatchOptions \<Rightarrow> (AccountDispatchLease \<Rightarrow> 's \<Rightarrow> (goerr + 'r) \<times> 's) \<Rightarrow>
     nat \<Rightarrow> int \<Rightarrow> string list \<Rightarrow> 's \<Rightarrow> (goerr + 'r) \<times> 's" where
  "dispatchFrom o1 run 0 attempt excluded s = (Inl (noAccountsError (do_message o1)), s)"
| "dispatchFrom o1 run (Suc n) attempt excluded s =
    (case do_reserve o1 (do_spec o1) excluded s of
       (Inl e, s1) \<Rightarrow> (Inl e, s1)
     | (Inr None, s1) \<Rightarrow> (Inl (noAccountsError (do_message o1)), s1)
     | (Inr (Some lease), s1) \<Rightarrow>
         (case run lease s1 of
            (r, s2) \<Rightarrow>
              let s4 = dispatchFeedback o1 lease (errOf r) (do_release o1 lease s2)
              in (case r of
                    Inr x \<Rightarrow> (Inr x, s4)
                  | Inl e \<Rightarrow>
                      if \<not> shouldRetryDispatch o1 (Some e) attempt then (Inl e, s4)
                      else dispatchFrom o1 run n (attempt + 1) (excluded @ [dl_token lease]) s4)))"

definition RunAccountDispatch ::
    "('q, 's) DispatchOptions \<Rightarrow> (AccountDispatchLease \<Rightarrow> 's \<Rightarrow> (goerr + 'r) \<times> 's) \<Rightarrow> 's \<Rightarrow> (goerr + 'r) \<times> 's" where
  "RunAccountDispatch o1 run s = dispatchFrom o1 run (nat (dispatchMaxAttempts o1)) 0 [] s"

section \<open>Which account\<close>

definition randomMaxRetries :: int where
  "randomMaxRetries = 5"

definition SelectionMaxRetries :: "string \<Rightarrow> (string \<Rightarrow> int \<Rightarrow> int) \<Rightarrow> int" where
  "SelectionMaxRetries strategy getInt =
    (if strategy = ''random'' then randomMaxRetries else getInt ''retry.max_retries'' 1)"

definition ModeCandidates :: "bool \<Rightarrow> ModelSpec \<Rightarrow> int list" where
  "ModeCandidates fallback spec =
    (if IsChat spec \<and> ms_mode spec = ModeAuto \<and> fallback then [ms_mode spec, ModeFast, ModeExpert]
     else [ms_mode spec])"

datatype AccountSelectionFailureReason =
  FailureNone | FailureNoAvailable | FailureRateLimited | FailureInvalidCredentials | FailureDisabled

definition AccountSelectionFailureFromData :: "ReserveFailureReason \<Rightarrow> AccountSelectionFailureReason" where
  "AccountSelectionFailureFromData reason =
    (case reason of
       RfRateLimited \<Rightarrow> FailureRateLimited
     | RfInvalidCredentials \<Rightarrow> FailureInvalidCredentials
     | RfDisabled \<Rightarrow> FailureDisabled
     | RfNoAvailable \<Rightarrow> FailureNoAvailable
     | RfNone \<Rightarrow> FailureNone)"

record AccountSelectionResult =
  sr_mode :: int
  sr_ok :: bool
  sr_reason :: AccountSelectionFailureReason

definition ErrorCode :: "AccountSelectionResult \<Rightarrow> string" where
  "ErrorCode r =
    (case sr_reason r of
       FailureRateLimited \<Rightarrow> ''account_pool_rate_limited''
     | FailureInvalidCredentials \<Rightarrow> ''account_pool_invalid_credentials''
     | FailureDisabled \<Rightarrow> ''account_pool_disabled''
     | _ \<Rightarrow> ''no_available_account'')"

definition AccountSelectionError :: "AccountSelectionResult \<Rightarrow> goerr" where
  "AccountSelectionError result =
    ErrApp 429
      (case sr_reason result of
         FailureRateLimited \<Rightarrow> ''All candidate accounts are rate limited or at capacity''
       | FailureInvalidCredentials \<Rightarrow> ''All candidate accounts have invalid credentials''
       | FailureDisabled \<Rightarrow> ''All candidate accounts are disabled''
       | _ \<Rightarrow> ''No available accounts'')
      (ErrorCode result)"

section \<open>The world of a chat request\<close>

record chatAccount =
  ca_token :: string
  ca_mode :: int
  ca_lease :: AccountLease

datatype refreshJob = JobRefreshCall string int | JobRefreshOnDemand

text \<open>The directory, the state of the refresh service, the database, the queue of refresh jobs with the
  count of dropped ones, the lease id generator, the accounts a request holds, and the upstream.\<close>

record 'u ChatWorld =
  cw_dir :: "AccountRuntimeTable option"
  cw_onDemand :: OnDemand
  cw_db :: LocalDB
  cw_jobs :: "refreshJob list"
  cw_drops :: int
  cw_nextID :: int
  cw_accounts :: "AccountDispatchLease \<Rightarrow> chatAccount option"
  cw_upstream :: 'u

record ('u, 'r) ChatEnv =
  ce_reserve :: ReserveEnv
  ce_refresh :: RefreshEnv
  ce_service :: bool
  ce_minInterval :: int
  ce_fallback :: bool
  ce_getInt :: "string \<Rightarrow> int \<Rightarrow> int"
  ce_retryCodes :: "int set"
  ce_nowS :: "'u \<Rightarrow> int"
  ce_nowMS :: "'u \<Rightarrow> int"
  ce_attempt :: "chatAccount \<Rightarrow> 'u \<Rightarrow> (goerr + 'r) \<times> 'u"

section \<open>Reserving\<close>

definition reserveAccountCandidate ::
    "('u, 'r) ChatEnv \<Rightarrow> int list \<Rightarrow> int \<Rightarrow> string list \<Rightarrow> int \<Rightarrow> 'u ChatWorld \<Rightarrow>
     (AccountLease option \<times> AccountSelectionFailureReason) \<times> 'u ChatWorld" where
  "reserveAccountCandidate env pools ts excluded mode w =
    (case reserveDetailed ((ce_reserve env)\<lparr>re_nextID := cw_nextID w\<rparr>) pools mode
            \<lparr>ro_excludeTokens = excluded, ro_preferTags = []\<rparr> ts False (cw_dir w) of
       ((Some lease, _), dir) \<Rightarrow>
         ((Some lease, FailureNone), w\<lparr>cw_dir := dir, cw_nextID := cw_nextID w + 1\<rparr>)
     | ((None, reason), dir) \<Rightarrow>
         let reason = AccountSelectionFailureFromData reason
         in ((None, if reason = FailureNone then FailureNoAvailable else reason), w\<lparr>cw_dir := dir\<rparr>))"

fun reserveFromCandidates ::
    "('u, 'r) ChatEnv \<Rightarrow> int list \<Rightarrow> int \<Rightarrow> string list \<Rightarrow> int list \<Rightarrow> AccountSelectionResult \<Rightarrow> 'u ChatWorld \<Rightarrow>
     (AccountLease option \<times> AccountSelectionResult) \<times> 'u ChatWorld" where
  "reserveFromCandidates env pools ts excluded [] result w = ((None, result), w)"
| "reserveFromCandidates env pools ts excluded (mode # modes) result w =
    (case reserveAccountCandidate env pools ts excluded mode w of
       ((Some lease, _), w1) \<Rightarrow>
         ((Some lease, \<lparr>sr_mode = mode, sr_ok = True, sr_reason = FailureNone\<rparr>), w1)
     | ((None, reason), w1) \<Rightarrow>
         reserveFromCandidates env pools ts excluded modes
           (if reason \<noteq> FailureNone \<and> sr_reason result = FailureNoAvailable
            then result\<lparr>sr_reason := reason\<rparr> else result) w1)"

definition noResult :: "ModelSpec \<Rightarrow> AccountSelectionResult" where
  "noResult spec = \<lparr>sr_mode = ms_mode spec, sr_ok = False, sr_reason = FailureNoAvailable\<rparr>"

definition reserveCandidates ::
    "('u, 'r) ChatEnv \<Rightarrow> ModelSpec \<Rightarrow> int \<Rightarrow> string list \<Rightarrow> 'u ChatWorld \<Rightarrow>
     (AccountLease option \<times> AccountSelectionResult) \<times> 'u ChatWorld" where
  "reserveCandidates env spec ts excluded w =
    reserveFromCandidates env (PoolCandidates spec) ts excluded (ModeCandidates (ce_fallback env) spec) (noResult spec) w"

definition refreshOnDemandWorld :: "('u, 'r) ChatEnv \<Rightarrow> 'u ChatWorld \<Rightarrow> goerr option \<times> 'u ChatWorld" where
  "refreshOnDemandWorld env w =
    (case RefreshOnDemand (ce_refresh env) (ce_minInterval env) (ce_nowMS env (cw_upstream w)) (cw_onDemand w, cw_db w) of
       (Inl e, od, db) \<Rightarrow> (Some e, w\<lparr>cw_onDemand := od, cw_db := db\<rparr>)
     | (Inr _, od, db) \<Rightarrow> (None, w\<lparr>cw_onDemand := od, cw_db := db\<rparr>))"

definition ReserveAccountDetailed ::
    "('u, 'r) ChatEnv \<Rightarrow> ModelSpec \<Rightarrow> int \<Rightarrow> string list \<Rightarrow> 'u ChatWorld \<Rightarrow>
     (goerr + AccountLease option \<times> AccountSelectionResult) \<times> 'u ChatWorld" where
  "ReserveAccountDetailed env spec ts excluded w =
    (case reserveCandidates env spec ts excluded w of
       ((lease, result), w1) \<Rightarrow>
         if sr_ok result then (Inr (lease, result), w1)
         else if re_strategy (ce_reserve env) = ''random'' then (Inr (None, result), w1)
         else if \<not> ce_service env then (Inr (None, result), w1)
         else (case refreshOnDemandWorld env w1 of
                 (Some e, w2) \<Rightarrow> (Inl e, w2)
               | (None, w2) \<Rightarrow>
                   (case reserveCandidates env spec ts excluded w2 of ((lease, result), w3) \<Rightarrow> (Inr (lease, result), w3))))"

definition ReserveChatAccount ::
    "('u, 'r) ChatEnv \<Rightarrow> ModelSpec \<Rightarrow> string list \<Rightarrow> 'u ChatWorld \<Rightarrow> (goerr + chatAccount) \<times> 'u ChatWorld" where
  "ReserveChatAccount env spec excluded w =
    (case ReserveAccountDetailed env spec (ce_nowS env (cw_upstream w)) excluded w of
       (Inl e, w1) \<Rightarrow> (Inl e, w1)
     | (Inr (lease, result), w1) \<Rightarrow>
         if \<not> sr_ok result then (Inl (AccountSelectionError result), w1)
         else (case lease of
                 None \<Rightarrow> (Inl (ErrOther ''unexpected account lease type <nil>''), w1)
               | Some l \<Rightarrow> (Inr \<lparr>ca_token = le_token l, ca_mode = sr_mode result, ca_lease = l\<rparr>, w1)))"

section \<open>Refresh jobs\<close>

definition upstreamStatus :: "goerr \<Rightarrow> int" where
  "upstreamStatus e = (case asUpstream e of None \<Rightarrow> 0 | Some (status, _, _) \<Rightarrow> status)"

definition shouldRetryUpstream :: "int set \<Rightarrow> goerr \<Rightarrow> bool" where
  "shouldRetryUpstream codes e = (if IsInvalidCredentialsError e then False else upstreamStatus e \<in> codes)"

definition feedbackKind :: "goerr option \<Rightarrow> FeedbackKind" where
  "feedbackKind err =
    (case err of
       None \<Rightarrow> FbServerError
     | Some e \<Rightarrow>
         if IsInvalidCredentialsError e then FbUnauthorized
         else if upstreamStatus e = 429 then FbRateLimited
         else if upstreamStatus e = 401 then FbUnauthorized
         else if upstreamStatus e = 403 then FbForbidden
         else FbServerError)"

definition chatRefreshQueueCapacity :: nat where
  "chatRefreshQueueCapacity = 16"

text \<open>A job that finds the channel full is dropped and counted.\<close>

definition enqueueChatRefresh :: "refreshJob \<Rightarrow> 'u ChatWorld \<Rightarrow> 'u ChatWorld" where
  "enqueueChatRefresh job w =
    (if length (cw_jobs w) < chatRefreshQueueCapacity then w\<lparr>cw_jobs := cw_jobs w @ [job]\<rparr>
     else w\<lparr>cw_drops := cw_drops w + 1\<rparr>)"

definition quotaSync :: "('u, 'r) ChatEnv \<Rightarrow> string \<Rightarrow> int \<Rightarrow> 'u ChatWorld \<Rightarrow> 'u ChatWorld" where
  "quotaSync env token mode w =
    (if re_strategy (ce_reserve env) \<noteq> ''quota'' then w
     else if \<not> ce_service env then w
     else enqueueChatRefresh (JobRefreshCall token mode) w)"

definition failSync :: "('u, 'r) ChatEnv \<Rightarrow> string \<Rightarrow> int \<Rightarrow> goerr \<Rightarrow> 'u ChatWorld \<Rightarrow> 'u ChatWorld" where
  "failSync env token mode e w =
    (if \<not> ce_service env then w
     else let w1 = w\<lparr>cw_db := RecordFailureAsync (ce_refresh env) (ce_nowMS env (cw_upstream w)) token mode (Some e) (cw_db w)\<rparr>
          in if re_strategy (ce_reserve env) = ''quota'' \<and> upstreamStatus e = 429
             then enqueueChatRefresh JobRefreshOnDemand w1 else w1)"

text \<open>One turn of the worker of the queue.\<close>

definition chatRefreshRun :: "('u, 'r) ChatEnv \<Rightarrow> 'u ChatWorld \<Rightarrow> 'u ChatWorld" where
  "chatRefreshRun env w =
    (case cw_jobs w of
       [] \<Rightarrow> w
     | JobRefreshCall token mode # jobs \<Rightarrow>
         w\<lparr>cw_jobs := jobs,
           cw_db := snd (RefreshCallAsync (ce_refresh env) (ce_nowMS env (cw_upstream w)) token mode (cw_db w))\<rparr>
     | JobRefreshOnDemand # jobs \<Rightarrow> snd (refreshOnDemandWorld env (w\<lparr>cw_jobs := jobs\<rparr>)))"

section \<open>The chat service\<close>

definition chatReserve ::
    "('u, 'r) ChatEnv \<Rightarrow> ModelSpec \<Rightarrow> string list \<Rightarrow> 'u ChatWorld \<Rightarrow>
     (goerr + AccountDispatchLease option) \<times> 'u ChatWorld" where
  "chatReserve env spec excluded w =
    (case ReserveChatAccount env spec excluded w of
       (Inl e, w1) \<Rightarrow> (Inl e, w1)
     | (Inr account, w1) \<Rightarrow>
         let lease = \<lparr>dl_token = ca_token account, dl_mode = ca_mode account\<rparr>
         in (Inr (Some lease), w1\<lparr>cw_accounts := (cw_accounts w1)(lease \<mapsto> account)\<rparr>))"

definition chatRelease :: "AccountDispatchLease \<Rightarrow> 'u ChatWorld \<Rightarrow> 'u ChatWorld" where
  "chatRelease lease w =
    (case cw_accounts w lease of
       None \<Rightarrow> w
     | Some account \<Rightarrow>
         w\<lparr>cw_accounts := (cw_accounts w)(lease := None), cw_dir := Release (ca_lease account) (cw_dir w)\<rparr>)"

definition chatFeedback :: "('u, 'r) ChatEnv \<Rightarrow> string \<Rightarrow> FeedbackKind \<Rightarrow> int \<Rightarrow> 'u ChatWorld \<Rightarrow> 'u ChatWorld" where
  "chatFeedback env token kind mode w =
    w\<lparr>cw_dir := dirFeedback (re_strategy (ce_reserve env)) (ce_getInt env) token kind mode
        (ce_nowS env (cw_upstream w)) None (cw_dir w)\<rparr>"

definition chatDispatchFeedback :: "goerr option \<Rightarrow> FeedbackKind option" where
  "chatDispatchFeedback err = Some (case err of None \<Rightarrow> FbSuccess | Some e \<Rightarrow> feedbackKind err)"

definition chatRun ::
    "('u, 'r) ChatEnv \<Rightarrow> AccountDispatchLease \<Rightarrow> 'u ChatWorld \<Rightarrow> (goerr + 'r) \<times> 'u ChatWorld" where
  "chatRun env lease w =
    (case cw_accounts w lease of
       None \<Rightarrow> (Inl (ErrOther (''missing chat dispatch account for '' @ dl_token lease)), w)
     | Some account \<Rightarrow>
         (case ce_attempt env account (cw_upstream w) of
            (Inr x, u) \<Rightarrow> (Inr x, quotaSync env (ca_token account) (ca_mode account) (w\<lparr>cw_upstream := u\<rparr>))
          | (Inl e, u) \<Rightarrow> (Inl e, failSync env (ca_token account) (ca_mode account) e (w\<lparr>cw_upstream := u\<rparr>))))"

definition chatOptions :: "('u, 'r) ChatEnv \<Rightarrow> ModelSpec \<Rightarrow> (ModelSpec, 'u ChatWorld) DispatchOptions" where
  "chatOptions env spec =
    \<lparr>do_reserve = chatReserve env, do_release = chatRelease, do_feedback = chatFeedback env, do_spec = spec,
     do_retry = \<lparr>rp_maxAttempts = SelectionMaxRetries (re_strategy (ce_reserve env)) (ce_getInt env) + 1, rp_statusCodes = []\<rparr>,
     do_retryable = Some (shouldRetryUpstream (ce_retryCodes env)), do_kindOf = Some chatDispatchFeedback,
     do_message = ''No available accounts for this model tier''\<rparr>"

text \<open>The dispatch of \<open>Completions\<close> for a model of the account pools, with a fresh table of accounts.\<close>

definition chatCompletions ::
    "('u, 'r) ChatEnv \<Rightarrow> ModelSpec \<Rightarrow> 'u ChatWorld \<Rightarrow> (goerr + 'r) \<times> 'u ChatWorld" where
  "chatCompletions env spec w =
    RunAccountDispatch (chatOptions env spec) (chatRun env) (w\<lparr>cw_accounts := Map.empty\<rparr>)"

section \<open>Retry codes\<close>

text \<open>The configured value: a text, a list whose elements print as given, or anything else.\<close>

datatype retryConfig = RetryText string | RetryList "string list" | RetryOther

definition allDigits :: "string \<Rightarrow> bool" where
  "allDigits text1 \<longleftrightarrow> list_all isDigit text1 \<and> text1 \<noteq> ''''"

definition retryCode :: "string \<Rightarrow> int option" where
  "retryCode part =
    (let text1 = trimSpace part
     in if text1 = '''' \<or> \<not> allDigits text1 then None
        else (case atoi text1 of Inl _ \<Rightarrow> None | Inr code \<Rightarrow> Some code))"

definition parseRetryCodes :: "retryConfig \<Rightarrow> int set" where
  "parseRetryCodes value =
    (case value of
       RetryText s \<Rightarrow> set (List.map_filter retryCode (map trimSpace (splitOn (CHR '','') s)))
     | RetryList parts \<Rightarrow> set (List.map_filter retryCode parts)
     | RetryOther \<Rightarrow> {})"

definition configuredRetryCodes :: "retryConfig option \<Rightarrow> retryConfig option \<Rightarrow> int set" where
  "configuredRetryCodes onCodes legacy =
    parseRetryCodes (case onCodes of
       Some raw \<Rightarrow> raw
     | None \<Rightarrow> (case legacy of Some raw \<Rightarrow> raw | None \<Rightarrow> RetryText ''429,401,503''))"

end
