(* ===== verification/DispatchProps.thy ===== *)
theory DispatchProps
  imports Dispatch
begin

text \<open>
  The contract between the dispatch loop and the directory it draws accounts from, stated as a locale,
  what the loop guarantees to every such directory, and the chat service as an instance of it.
\<close>

section \<open>Outcomes\<close>

text \<open>Which errors the loop tries another account for, when the directory may refuse one, and how a run that
  has used \<open>used\<close> attempts before and made \<open>calls\<close> since may end.\<close>

definition dispatchRetryable :: "('q, 's) DispatchOptions \<Rightarrow> goerr \<Rightarrow> bool" where
  "dispatchRetryable o1 e = (case do_retryable o1 of Some f \<Rightarrow> f e
     | None \<Rightarrow> (case asUpstream e of None \<Rightarrow> False | Some (status, _, _) \<Rightarrow> status \<in> set (rp_statusCodes (do_retry o1))))"

definition refused :: "('q, 's) DispatchOptions \<Rightarrow> ('s \<Rightarrow> bool) \<Rightarrow> string list \<Rightarrow> goerr \<Rightarrow> bool" where
  "refused o1 ok ex e \<longleftrightarrow> (\<exists>s s1. ok s \<and> (do_reserve o1 (do_spec o1) ex s = (Inl e, s1) \<or>
     do_reserve o1 (do_spec o1) ex s = (Inr None, s1) \<and> e = noAccountsError (do_message o1)))"

definition failed_over :: "('q, 's) DispatchOptions \<Rightarrow> (string \<times> goerr option) list \<Rightarrow> bool" where
  "failed_over o1 calls \<longleftrightarrow> (\<forall>c \<in> set calls. \<exists>e. snd c = Some e \<and> dispatchRetryable o1 e)"

definition outcome :: "('q, 's) DispatchOptions \<Rightarrow> ('s \<Rightarrow> bool) \<Rightarrow> string list \<Rightarrow> (string \<times> goerr option) list \<Rightarrow> int \<Rightarrow>
    goerr + 'r \<Rightarrow> bool" where
  "outcome o1 ok ex calls used res =
    (case res of
       Inr x \<Rightarrow> calls \<noteq> [] \<and> failed_over o1 (butlast calls) \<and> snd (last calls) = None
     | Inl e \<Rightarrow>
         calls \<noteq> [] \<and> failed_over o1 (butlast calls) \<and> snd (last calls) = Some e \<and>
           (\<not> dispatchRetryable o1 e \<or> used + int (length calls) = dispatchMaxAttempts o1) \<or>
         failed_over o1 calls \<and> refused o1 ok (ex @ map fst calls) e)"

section \<open>The contract\<close>

text \<open>\<open>inv\<close> is the invariant of the state, \<open>held\<close> what the reservations hold, and \<open>log\<close> the calls of the
  upstream so far, each with its account and its error.\<close>

locale dispatch_directory =
  fixes o1 :: "('q, 's) DispatchOptions"
    and run :: "AccountDispatchLease \<Rightarrow> 's \<Rightarrow> (goerr + 'r) \<times> 's"
    and inv :: "'s \<Rightarrow> bool" and held :: "'s \<Rightarrow> 'h" and log :: "'s \<Rightarrow> (string \<times> goerr option) list"
  assumes refuse: "inv s \<Longrightarrow> do_reserve o1 (do_spec o1) ex s = (x, s1) \<Longrightarrow> \<forall>l. x \<noteq> Inr (Some l) \<Longrightarrow>
      inv s1 \<and> held s1 = held s \<and> log s1 = log s"
    and fresh: "inv s \<Longrightarrow> do_reserve o1 (do_spec o1) ex s = (Inr (Some l), s1) \<Longrightarrow> dl_token l \<notin> set ex"
    and turn: "inv s \<Longrightarrow> do_reserve o1 (do_spec o1) ex s = (Inr (Some l), s1) \<Longrightarrow> run l s1 = (r, s2) \<Longrightarrow>
      inv (do_release o1 l s2) \<and> held (do_release o1 l s2) = held s \<and>
      log (do_release o1 l s2) = log s @ [(dl_token l, errOf r)]"
    and told: "inv s \<Longrightarrow> inv (do_feedback o1 token kind mode s) \<and>
      held (do_feedback o1 token kind mode s) = held s \<and> log (do_feedback o1 token kind mode s) = log s"
begin

lemma retry_iff: "0 \<le> attempt \<Longrightarrow> shouldRetryDispatch o1 (Some e) attempt \<longleftrightarrow> attempt + 1 < dispatchMaxAttempts o1 \<and> dispatchRetryable o1 e"
  by (auto simp: shouldRetryDispatch_def dispatchRetryable_def ShouldRetry_def dispatchMaxAttempts_def Let_def
      split: option.splits if_splits prod.splits)

lemma feedback_keeps:
  "inv s \<Longrightarrow> inv (dispatchFeedback o1 l err s) \<and> held (dispatchFeedback o1 l err s) = held s \<and>
     log (dispatchFeedback o1 l err s) = log s"
  using told by (auto simp: dispatchFeedback_def split: option.split)

lemma outcome_Cons:
  assumes "outcome o1 inv (ex @ [token]) calls (used + 1) res" "dispatchRetryable o1 e"
  shows "outcome o1 inv ex ((token, Some e) # calls) used res"
  using assms by (auto simp: outcome_def failed_over_def algebra_simps split: sum.splits)

lemma dispatch_loop:
  assumes "inv s" "int n = dispatchMaxAttempts o1 - used" "0 < n" "distinct ex" "0 \<le> used"
    and "dispatchFrom o1 run n used ex s = (res, s')"
  shows "\<exists>calls. log s' = log s @ calls \<and> inv s' \<and> held s' = held s \<and> distinct (ex @ map fst calls) \<and>
    length calls \<le> n \<and> outcome o1 inv ex calls used res"
  using assms
proof (induction n arbitrary: s used ex)
  case (Suc n)
  obtain x s1 where rsv: "do_reserve o1 (do_spec o1) ex s = (x, s1)" by (metis prod.exhaust)
  show ?case
  proof (cases "\<exists>l. x = Inr (Some l)")
    case False
    then have "\<exists>e. s' = s1 \<and> res = Inl e \<and> (x = Inl e \<or> x = Inr None \<and> e = noAccountsError (do_message o1))"
      using Suc.prems(6) rsv by (auto split: sum.splits option.splits)
    then obtain e where e: "s' = s1" "res = Inl e" "x = Inl e \<or> x = Inr None \<and> e = noAccountsError (do_message o1)"
      by blast
    then have "refused o1 inv ex e" unfolding refused_def using rsv Suc.prems(1) by blast
    from refuse [OF Suc.prems(1) rsv] False have "inv s1 \<and> held s1 = held s \<and> log s1 = log s" by blast
    moreover from \<open>refused o1 inv ex e\<close> have "outcome o1 inv ex [] used res" by (simp add: e(2) outcome_def failed_over_def)
    ultimately show ?thesis using e(1) Suc.prems(4) by (intro exI [of _ "[]"]) simp
  next
    case True
    then obtain l where l: "x = Inr (Some l)" by blast
    note rsv = rsv [unfolded l]
    obtain r s2 where run: "run l s1 = (r, s2)" by (metis prod.exhaust)
    let ?s4 = "dispatchFeedback o1 l (errOf r) (do_release o1 l s2)"
    have s4: "inv ?s4" "held ?s4 = held s" "log ?s4 = log s @ [(dl_token l, errOf r)]"
      using turn [OF Suc.prems(1) rsv run] feedback_keeps by simp_all
    have new: "distinct (ex @ [dl_token l])" using fresh [OF Suc.prems(1) rsv] Suc.prems(4) by simp
    show ?thesis
    proof (cases "\<exists>e. r = Inl e \<and> shouldRetryDispatch o1 (Some e) used")
      case True
      then obtain e where e: "r = Inl e" "used + 1 < dispatchMaxAttempts o1" "dispatchRetryable o1 e"
        using Suc.prems(5) by (auto simp: retry_iff)
      then have rest: "dispatchFrom o1 run n (used + 1) (ex @ [dl_token l]) ?s4 = (res, s')"
        using Suc.prems(6) rsv run True by (simp add: Let_def)
      have n: "int n = dispatchMaxAttempts o1 - (used + 1)" "0 < n" "0 \<le> used + 1"
        using Suc.prems(2,5) e(2) by simp_all
      from Suc.IH [OF s4(1) n(1,2) new n(3) rest] obtain calls where calls:
        "log s' = log ?s4 @ calls" "inv s'" "held s' = held ?s4" "distinct ((ex @ [dl_token l]) @ map fst calls)"
        "length calls \<le> n" "outcome o1 inv (ex @ [dl_token l]) calls (used + 1) res" by blast
      have "outcome o1 inv ex ((dl_token l, Some e) # calls) used res" using outcome_Cons calls(6) e(3) .
      with calls s4 show ?thesis
        by (intro exI [of _ "(dl_token l, Some e) # calls"]) (simp add: e(1) errOf_def)
    next
      case False
      then have "s' = ?s4" "res = r" using Suc.prems(6) rsv run by (auto simp: Let_def split: sum.splits)
      moreover have "outcome o1 inv ex [(dl_token l, errOf r)] used r"
        using False Suc.prems(2,3,5) by (auto simp: outcome_def failed_over_def errOf_def retry_iff split: sum.split)
      ultimately show ?thesis using s4 new by (intro exI [of _ "[(dl_token l, errOf r)]"]) simp
    qed
  qed
qed simp

lemma dispatch_run:
  assumes "inv s" "RunAccountDispatch o1 run s = (res, s')"
  shows "\<exists>calls. log s' = log s @ calls \<and> inv s' \<and> held s' = held s \<and> distinct (map fst calls) \<and>
    int (length calls) \<le> dispatchMaxAttempts o1 \<and> outcome o1 inv [] calls 0 res"
proof -
  have "0 < dispatchMaxAttempts o1" by (simp add: dispatchMaxAttempts_def Let_def)
  then show ?thesis
    using dispatch_loop [of s "nat (dispatchMaxAttempts o1)" 0 "[]"] assms by (auto simp: RunAccountDispatch_def)
qed

lemma dispatch_calls:
  assumes "inv s" "do_reserve o1 (do_spec o1) [] s = (Inr (Some l), s1)" "RunAccountDispatch o1 run s = (res, s')"
  shows "\<exists>c calls. log s' = log s @ c # calls"
proof -
  have pos: "0 < dispatchMaxAttempts o1" by (simp add: dispatchMaxAttempts_def Let_def)
  then obtain n where n: "nat (dispatchMaxAttempts o1) = Suc n" by (metis gr0_implies_Suc zero_less_nat_eq)
  obtain r s2 where run: "run l s1 = (r, s2)" by (metis prod.exhaust)
  let ?s4 = "dispatchFeedback o1 l (errOf r) (do_release o1 l s2)"
  have s4: "inv ?s4" "log ?s4 = log s @ [(dl_token l, errOf r)]"
    using turn [OF assms(1,2) run] feedback_keeps by simp_all
  show ?thesis
  proof (cases "\<exists>e. r = Inl e \<and> shouldRetryDispatch o1 (Some e) 0")
    case True
    then have rest: "dispatchFrom o1 run n 1 [dl_token l] ?s4 = (res, s')" and "1 < dispatchMaxAttempts o1"
      using assms(2,3) run n by (auto simp: RunAccountDispatch_def Let_def retry_iff)
    with n have "int n = dispatchMaxAttempts o1 - 1" "0 < n" by simp_all
    from dispatch_loop [OF s4(1) this _ _ rest] s4(2) show ?thesis by auto
  next
    case False
    then have "s' = ?s4" using assms(2,3) run n by (auto simp: RunAccountDispatch_def Let_def split: sum.splits)
    then show ?thesis using s4(2) by simp
  qed
qed

end

section \<open>Reserving for a chat\<close>

text \<open>The upstream is observed through \<open>seen\<close>, to which every attempt appends its account and its error; its
  clock does not go back.\<close>

definition records :: "('u, 'r) ChatEnv \<Rightarrow> ('u \<Rightarrow> (string \<times> goerr option) list) \<Rightarrow> bool" where
  "records env seen \<longleftrightarrow> (\<forall>a u r u'. ce_attempt env a u = (r, u') \<longrightarrow>
     seen u' = seen u @ [(ca_token a, errOf r)] \<and> ce_nowS env u \<le> ce_nowS env u')"

definition env_ok :: "('u, 'r) ChatEnv \<Rightarrow> bool" where
  "env_ok env \<longleftrightarrow> iterates (re_iter (ce_reserve env)) \<and> picks (re_pick (ce_reserve env)) \<and>
     re_maxInflight (ce_reserve env) \<le> 65535"

definition dir_ok :: "int \<Rightarrow> AccountRuntimeTable option \<Rightarrow> bool" where
  "dir_ok ts dir \<longleftrightarrow> (\<forall>t. dir = Some t \<longrightarrow> table_ok t \<and> clock_ok t ts)"

abbreviation held :: "AccountRuntimeTable option \<Rightarrow> int list option" where
  "held dir \<equiv> map_option rt_inflight dir"

lemma dir_ok_later: "dir_ok a dir \<Longrightarrow> a \<le> b \<Longrightarrow> dir_ok b dir"
  by (fastforce simp: dir_ok_def clock_ok_def)

text \<open>What a successful reservation leaves behind.\<close>

definition granted :: "int \<Rightarrow> string list \<Rightarrow> AccountRuntimeTable option \<Rightarrow> AccountLease \<Rightarrow> AccountRuntimeTable option \<Rightarrow> bool" where
  "granted ts ex dir l dir' \<longleftrightarrow> le_token l \<notin> set ex \<and> dir_ok ts dir' \<and> dir_ok ts (Release l dir') \<and>
     held (Release l dir') = held dir"

lemma reserve_granted:
  assumes "env_ok env" "dir_ok ts dir" "pools \<noteq> []"
    and "reserveDetailed ((ce_reserve env)\<lparr>re_nextID := k\<rparr>) pools mode \<lparr>ro_excludeTokens = ex, ro_preferTags = []\<rparr> ts False dir =
      ((lease, reason), dir')"
  shows "case lease of None \<Rightarrow> dir_ok ts dir' \<and> held dir' = held dir \<and> reason \<noteq> RfNone | Some l \<Rightarrow> granted ts ex dir l dir'"
proof (cases dir)
  case None
  then show ?thesis using assms(3,4) by (auto simp: reserveDetailed_def dir_ok_def)
next
  case (Some t)
  let ?env = "(ce_reserve env)\<lparr>re_nextID := k\<rparr>"
  let ?ro = "\<lparr>ro_excludeTokens = ex, ro_preferTags = []\<rparr>"
  have env: "iterates (re_iter ?env)" "picks (re_pick ?env)" "re_maxInflight ?env \<le> 65535"
    using assms(1) by (simp_all add: env_ok_def)
  have t: "table_ok t" "clock_ok t ts" using assms(2) Some by (simp_all add: dir_ok_def)
  have res: "reserveDetailed ?env pools mode ?ro ts False (Some t) = ((lease, reason), dir')" using assms(4) Some by simp
  from reserve_spec [OF t env(1,2) assms(3) res] obtain t1 t' where spec: "dir' = Some t'" "table_ok t'" "only_quota t t1"
    "lease = None \<longleftrightarrow> reason \<noteq> RfNone" "lease = None \<Longrightarrow> t' = t1"
    "\<And>l. lease = Some l \<Longrightarrow> le_idx l < length (rt_tokens t) \<and> le_token l \<notin> set ex \<and>
       rt_inflight t' = (rt_inflight t)[le_idx l := min (rt_inflight t ! le_idx l + 1) 65535] \<and>
       rt_lastUse t' = (rt_lastUse t)[le_idx l := ts]"
    by (cases lease) auto
  show ?thesis
  proof (cases lease)
    case None
    then show ?thesis
      using spec(1-5) t only_quotaD(7) [OF spec(3)] Some by (auto simp: dir_ok_def clock_quota_only)
  next
    case l: (Some l)
    from reserve_undone [OF t env res [unfolded l]] spec(1) obtain t2 where
      t2: "Release l (Some t') = Some t2" "table_ok t2" "rt_inflight t2 = rt_inflight t" by auto
    have len: "length (rt_inflight t) = length (rt_tokens t)" "length (rt_lastUse t) = length (rt_tokens t)"
      "length (rt_lastUse t') = length (rt_tokens t')" using table_lengths [OF t(1)] table_lengths [OF spec(2)] by simp_all
    note l_spec = spec(6) [OF l]
    have "clock_ok t' ts"
      using t(2) l_spec len by (auto simp: clock_ok_def nth_list_update)
    moreover have "t2 = DecrementInflight (le_idx l) t'"
      using t2(1) l_spec len(1) by (simp add: Release_def)
    then have "clock_ok t2 ts = clock_ok t' ts" by (simp add: clock_ok_def DecrementInflight_def)
    ultimately show ?thesis
      using l_spec t2 spec(1,2) l Some by (simp add: granted_def dir_ok_def)
  qed
qed

lemma candidate_granted:
  assumes "env_ok env" "dir_ok ts (cw_dir w)" "pools \<noteq> []"
    and "reserveAccountCandidate env pools ts ex mode w = ((lease, reason), w1)"
  shows "cw_upstream w1 = cw_upstream w \<and> cw_accounts w1 = cw_accounts w \<and>
    (case lease of None \<Rightarrow> dir_ok ts (cw_dir w1) \<and> held (cw_dir w1) = held (cw_dir w) \<and> reason \<noteq> FailureNone
     | Some l \<Rightarrow> granted ts ex (cw_dir w) l (cw_dir w1))"
proof -
  obtain lease0 reason0 dir' where r: "reserveDetailed ((ce_reserve env)\<lparr>re_nextID := cw_nextID w\<rparr>) pools mode
      \<lparr>ro_excludeTokens = ex, ro_preferTags = []\<rparr> ts False (cw_dir w) = ((lease0, reason0), dir')"
    by (metis prod.exhaust)
  from reserve_granted [OF assms(1-3) r] assms(4) r show ?thesis
    by (cases lease0) (auto simp: reserveAccountCandidate_def Let_def split: if_splits)
qed

lemma candidates_granted:
  assumes "env_ok env" "dir_ok ts (cw_dir w)" "pools \<noteq> []"
    and "reserveFromCandidates env pools ts ex modes result w = ((lease, res), w1)"
  shows "cw_upstream w1 = cw_upstream w \<and> cw_accounts w1 = cw_accounts w \<and>
    (case lease of None \<Rightarrow> dir_ok ts (cw_dir w1) \<and> held (cw_dir w1) = held (cw_dir w) \<and> sr_ok res = sr_ok result
     | Some l \<Rightarrow> granted ts ex (cw_dir w) l (cw_dir w1) \<and> sr_ok res)"
  using assms(2,4)
proof (induction modes arbitrary: result w)
  case (Cons mode modes)
  obtain lease0 reason w0 where c: "reserveAccountCandidate env pools ts ex mode w = ((lease0, reason), w0)"
    by (metis prod.exhaust)
  note one = candidate_granted [OF assms(1) Cons.prems(1) assms(3) c]
  show ?case
  proof (cases lease0)
    case None
    let ?result = "if reason \<noteq> FailureNone \<and> sr_reason result = FailureNoAvailable then result\<lparr>sr_reason := reason\<rparr> else result"
    have rest: "reserveFromCandidates env pools ts ex modes ?result w0 = ((lease, res), w1)"
      using Cons.prems(2) c None by simp
    have "dir_ok ts (cw_dir w0)" "held (cw_dir w0) = held (cw_dir w)" using one None by simp_all
    with Cons.IH [OF this(1) rest] one show ?thesis by (auto simp: granted_def split: option.splits)
  next
    case (Some l)
    then have "lease = Some l" "sr_ok res" "w1 = w0" using Cons.prems(2) c by auto
    then show ?thesis using one Some by simp
  qed
qed simp

lemma pools_nonempty: "PoolCandidates spec \<noteq> []"
  by (simp add: PoolCandidates_def)

lemma refreshOnDemand_frame:
  "refreshOnDemandWorld env w = (e, w1) \<Longrightarrow>
     cw_upstream w1 = cw_upstream w \<and> cw_accounts w1 = cw_accounts w \<and> cw_dir w1 = cw_dir w"
  by (auto simp: refreshOnDemandWorld_def split: prod.splits sum.splits)

lemma detailed_granted:
  assumes "env_ok env" "dir_ok ts (cw_dir w)" "ReserveAccountDetailed env spec ts ex w = (x, w1)"
  shows "cw_upstream w1 = cw_upstream w \<and> cw_accounts w1 = cw_accounts w \<and>
    (case x of Inr (Some l, res) \<Rightarrow> granted ts ex (cw_dir w) l (cw_dir w1) \<and> sr_ok res
     | Inr (None, res) \<Rightarrow> dir_ok ts (cw_dir w1) \<and> held (cw_dir w1) = held (cw_dir w) \<and> \<not> sr_ok res
     | Inl e \<Rightarrow> dir_ok ts (cw_dir w1) \<and> held (cw_dir w1) = held (cw_dir w))"
proof -
  obtain lease res w2 where c: "reserveCandidates env spec ts ex w = ((lease, res), w2)" by (metis prod.exhaust)
  note one = candidates_granted [OF assms(1,2) pools_nonempty c [unfolded reserveCandidates_def]]
  show ?thesis
  proof (cases "sr_ok res \<or> re_strategy (ce_reserve env) = ''random'' \<or> \<not> ce_service env")
    case True
    then show ?thesis using assms(3) c one by (auto simp: ReserveAccountDetailed_def noResult_def split: option.splits if_splits)
  next
    case False
    then have none: "lease = None" using one by (auto split: option.splits)
    obtain e w3 where r: "refreshOnDemandWorld env w2 = (e, w3)" by (metis prod.exhaust)
    note frame = refreshOnDemand_frame [OF r]
    have ok: "dir_ok ts (cw_dir w3)" "held (cw_dir w3) = held (cw_dir w)" using one none frame by simp_all
    obtain lease2 res2 w4 where c2: "reserveCandidates env spec ts ex w3 = ((lease2, res2), w4)" by (metis prod.exhaust)
    note two = candidates_granted [OF assms(1) ok(1) pools_nonempty c2 [unfolded reserveCandidates_def]]
    show ?thesis
    proof (cases e)
      case None
      then have "x = Inr (lease2, res2)" "w1 = w4"
        using assms(3) c r c2 False by (auto simp: ReserveAccountDetailed_def)
      then show ?thesis
        using two one frame ok(2) by (auto simp: noResult_def granted_def split: option.splits)
    next
      case (Some e')
      then have "x = Inl e'" "w1 = w3" using assms(3) c r False by (auto simp: ReserveAccountDetailed_def)
      then show ?thesis using ok one frame by simp
    qed
  qed
qed

section \<open>The chat service keeps the contract\<close>

definition chat_inv :: "('u, 'r) ChatEnv \<Rightarrow> ('u \<Rightarrow> (string \<times> goerr option) list) \<Rightarrow> 'u ChatWorld \<Rightarrow> bool" where
  "chat_inv env seen w \<longleftrightarrow> env_ok env \<and> records env seen \<and> dir_ok (ce_nowS env (cw_upstream w)) (cw_dir w)"

lemma chat_options [simp]:
  "do_reserve (chatOptions env spec) = chatReserve env" "do_release (chatOptions env spec) = chatRelease"
  "do_feedback (chatOptions env spec) = chatFeedback env" "do_spec (chatOptions env spec) = spec"
  "do_retryable (chatOptions env spec) = Some (shouldRetryUpstream (ce_retryCodes env))"
  "do_message (chatOptions env spec) = ''No available accounts for this model tier''"
  "rp_maxAttempts (do_retry (chatOptions env spec)) = SelectionMaxRetries (re_strategy (ce_reserve env)) (ce_getInt env) + 1"
  by (simp_all add: chatOptions_def)

lemma enqueue_frame [simp]:
  "cw_dir (enqueueChatRefresh j w) = cw_dir w" "cw_accounts (enqueueChatRefresh j w) = cw_accounts w"
  "cw_upstream (enqueueChatRefresh j w) = cw_upstream w"
  by (simp_all add: enqueueChatRefresh_def)

lemma sync_frame [simp]:
  "cw_dir (quotaSync env token mode w) = cw_dir w" "cw_accounts (quotaSync env token mode w) = cw_accounts w"
  "cw_upstream (quotaSync env token mode w) = cw_upstream w"
  "cw_dir (failSync env token mode e w) = cw_dir w" "cw_accounts (failSync env token mode e w) = cw_accounts w"
  "cw_upstream (failSync env token mode e w) = cw_upstream w"
  by (simp_all add: quotaSync_def failSync_def Let_def)

lemma chatReserve_cases:
  assumes "chat_inv env seen w" "chatReserve env spec ex w = (x, w1)"
  shows "cw_upstream w1 = cw_upstream w \<and> x \<noteq> Inr None \<and>
    (case x of
       Inr (Some lease) \<Rightarrow> (\<exists>l. granted (ce_nowS env (cw_upstream w)) ex (cw_dir w) l (cw_dir w1) \<and>
         dl_token lease = le_token l \<and> (\<exists>a. cw_accounts w1 lease = Some a \<and> ca_lease a = l \<and> ca_token a = le_token l))
     | _ \<Rightarrow> dir_ok (ce_nowS env (cw_upstream w)) (cw_dir w1) \<and> held (cw_dir w1) = held (cw_dir w))"
proof -
  let ?ts = "ce_nowS env (cw_upstream w)"
  have ok: "env_ok env" "dir_ok ?ts (cw_dir w)" using assms(1) by (simp_all add: chat_inv_def)
  obtain y w0 where d: "ReserveAccountDetailed env spec ?ts ex w = (y, w0)" by (metis prod.exhaust)
  note spec = detailed_granted [OF ok d]
  show ?thesis
  proof (cases y)
    case (Inl e)
    then show ?thesis using assms(2) d spec by (auto simp: chatReserve_def ReserveChatAccount_def)
  next
    case (Inr p)
    then show ?thesis
      using assms(2) d spec
      by (cases p; cases "fst p")
        (auto simp: chatReserve_def ReserveChatAccount_def Let_def split: option.splits if_splits)
  qed
qed

text \<open>A turn with a reserved account: \<open>w2\<close> is any world an attempt with that account may leave.\<close>

lemma granted_turn:
  assumes "chat_inv env seen w" "chatReserve env spec ex w = (Inr (Some lease), w1)"
    and "\<And>a. cw_accounts w1 lease = Some a \<Longrightarrow>
      ce_attempt env a (cw_upstream w1) = (r, cw_upstream w2) \<and> cw_dir w2 = cw_dir w1 \<and> cw_accounts w2 = cw_accounts w1"
  shows "chat_inv env seen (chatRelease lease w2) \<and> held (cw_dir (chatRelease lease w2)) = held (cw_dir w) \<and>
    seen (cw_upstream (chatRelease lease w2)) = seen (cw_upstream w) @ [(dl_token lease, errOf r)]"
proof -
  from chatReserve_cases [OF assms(1,2)] obtain l a where l: "cw_upstream w1 = cw_upstream w"
    "granted (ce_nowS env (cw_upstream w)) ex (cw_dir w) l (cw_dir w1)" "dl_token lease = le_token l"
    "cw_accounts w1 lease = Some a" "ca_lease a = l" "ca_token a = le_token l" by auto
  note run = assms(3) [OF l(4)]
  have rec: "seen (cw_upstream w2) = seen (cw_upstream w) @ [(le_token l, errOf r)]"
    "ce_nowS env (cw_upstream w) \<le> ce_nowS env (cw_upstream w2)"
    using assms(1) run l(1,6) by (auto simp: chat_inv_def records_def)
  have rel: "cw_dir (chatRelease lease w2) = Release l (cw_dir w1)" "cw_upstream (chatRelease lease w2) = cw_upstream w2"
    using run l(4,5) by (simp_all add: chatRelease_def)
  have "dir_ok (ce_nowS env (cw_upstream w2)) (Release l (cw_dir w1))"
    using l(2) rec(2) dir_ok_later by (auto simp: granted_def)
  then show ?thesis
    using assms(1) rel l(2,3) rec(1) by (simp add: chat_inv_def granted_def)
qed

lemma chat_turn:
  assumes "chat_inv env seen w" "chatReserve env spec ex w = (Inr (Some lease), w1)" "chatRun env lease w1 = (r, w2)"
  shows "chat_inv env seen (chatRelease lease w2) \<and> held (cw_dir (chatRelease lease w2)) = held (cw_dir w) \<and>
    seen (cw_upstream (chatRelease lease w2)) = seen (cw_upstream w) @ [(dl_token lease, errOf r)]"
  by (rule granted_turn [OF assms(1,2)]) (use assms(3) in \<open>auto simp: chatRun_def split: sum.splits prod.splits\<close>)

lemma feedback_lastUse:
  "rt_lastUse (feedbackSlot strategy getInt kind mode ts i t) = rt_lastUse t"
  "rt_tokens (feedbackSlot strategy getInt kind mode ts i t) = rt_tokens t"
  using feedbackSlot_off [of i t strategy getInt kind mode ts]
  by (cases kind; simp add: off_slot_def feedbackSlot_def slot_ops ApplyStatusChange_def table_simps Let_def)+

lemma chat_told:
  assumes "chat_inv env seen w"
  shows "chat_inv env seen (chatFeedback env token kind mode w) \<and>
    held (cw_dir (chatFeedback env token kind mode w)) = held (cw_dir w)"
proof (cases "cw_dir w")
  case None
  then show ?thesis using assms by (simp add: chatFeedback_def dirFeedback_def chat_inv_def)
next
  case (Some t)
  obtain t' where t': "dirFeedback (re_strategy (ce_reserve env)) (ce_getInt env) token kind mode
      (ce_nowS env (cw_upstream w)) None (Some t) = Some t'"
    by (cases "rt_idx t token") (auto simp: dirFeedback_def Let_def)
  have t: "table_ok t" "clock_ok t (ce_nowS env (cw_upstream w))" using assms Some by (simp_all add: chat_inv_def dir_ok_def)
  have keep: "table_ok t' \<and> rt_inflight t' = rt_inflight t" using dirFeedback_keeps [OF t(1) _ t'] by simp
  have "rt_tokens t' = rt_tokens t \<and> rt_lastUse t' = rt_lastUse t"
    using t' by (auto simp: dirFeedback_def Let_def feedback_lastUse split: option.splits)
  then have "clock_ok t' (ce_nowS env (cw_upstream w))" using t(2) by (simp add: clock_ok_def)
  then show ?thesis using assms Some t' keep by (simp add: chatFeedback_def chat_inv_def dir_ok_def)
qed

section \<open>No refusal while an account is eligible\<close>

definition quota_kept :: "AccountRuntimeTable \<Rightarrow> AccountRuntimeTable \<Rightarrow> bool" where
  "quota_kept t t' \<longleftrightarrow> only_quota t t' \<and> (\<forall>i m. 0 < QuotaFor t i m \<longrightarrow> 0 < QuotaFor t' i m)"

lemma kept_refl [simp]: "quota_kept t t"
  by (simp add: quota_kept_def)

lemma kept_trans: "quota_kept t u \<Longrightarrow> quota_kept u v \<Longrightarrow> quota_kept t v"
  by (auto simp: quota_kept_def intro: only_quota_trans)

lemma one_kept: "quota_kept t (maybeResetOne mode pool nowS i t)"
  using maybeResetOne_quota_only [of t mode pool nowS i]
  by (auto simp: quota_kept_def maybeResetOne_eq QuotaFor_def setReset_def setQuota_def modeCol_set resetDue_def nth_upd)

lemma fold_kept: "quota_kept t (fold (maybeResetOne mode pool nowS) xs t)"
  by (induction xs arbitrary: t) (auto intro: kept_trans one_kept)

lemma Select_kept:
  assumes "sel_state_ok iter pick (so_nowS o1) t"
  shows "quota_kept t (snd (Select strategy iter pick pool mode o1 t))"
proof -
  obtain r t' where s: "Select strategy iter pick pool mode o1 t = (r, t')" by (metis prod.exhaust)
  have "t' = resetTable iter pool mode (so_nowS o1) t"
    using Select_spec(1) [OF _ _ _ _ s] assms by (simp add: sel_state_ok_def)
  then show ?thesis using fold_kept by (simp add: s resetTable_def maybeResetWindows_def)
qed

lemma firstPool_kept:
  assumes "sel_state_ok iter pick (so_nowS o1) t"
  shows "quota_kept t (snd (firstPool (\<lambda>p. Select strategy iter pick p mode o1) pools t))"
  using assms
proof (induction pools arbitrary: t)
  case (Cons p ps)
  obtain r t1 where s: "Select strategy iter pick p mode o1 t = (r, t1)" by (metis prod.exhaust)
  have "quota_kept t t1" using Select_kept [OF Cons.prems, of strategy p mode] s by simp
  moreover have "sel_state_ok iter pick (so_nowS o1) t1"
    using mode_select.first_ok [OF Cons.prems, of strategy mode "[p]"] s by (cases r) auto
  ultimately show ?case using Cons.IH s by (cases r) (auto intro: kept_trans)
qed simp

lemma kept_eligible:
  assumes "quota_kept t t'" "table_ok t" "table_ok t'" "eligible False m o1 t p i"
  shows "eligible False m o1 t' p i"
  using assms only_quotaD [of t t']
  by (auto simp: eligible_iff [OF assms(2)] eligible_iff [OF assms(3)] quota_kept_def WindowFor_def)

abbreviation chatSelect :: "('u, 'r) ChatEnv \<Rightarrow> AccountRuntimeTable \<Rightarrow> int \<Rightarrow> string list \<Rightarrow> SelectOptions" where
  "chatSelect env t ts ex \<equiv>
    selectOptions t (re_maxInflight (ce_reserve env)) ts \<lparr>ro_excludeTokens = ex, ro_preferTags = []\<rparr>"

lemma select_kept: "quota_kept t t' \<Longrightarrow> chatSelect env t' ts ex = chatSelect env t ts ex"
  using only_quotaD(2,13) [of t t'] by (simp add: quota_kept_def selectOptions_def excludeIdxs_def preferTagIdxs_def)

lemma candidate_refuses:
  assumes "env_ok env" "cw_dir w = Some t" "table_ok t" "clock_ok t ts" "pools \<noteq> []"
    and "reserveAccountCandidate env pools ts ex mode w = ((None, reason), w1)"
  shows "\<exists>t'. cw_dir w1 = Some t' \<and> table_ok t' \<and> clock_ok t' ts \<and> quota_kept t t' \<and>
    (\<forall>p \<in> set pools. \<forall>i. \<not> eligible False mode (chatSelect env t ts ex) t p i)"
proof -
  let ?env = "(ce_reserve env)\<lparr>re_nextID := cw_nextID w\<rparr>" and ?o = "chatSelect env t ts ex"
  obtain r t1 where p: "pickSlot ?env pools mode ?o False t = (r, t1)" by (metis prod.exhaust)
  have now: "so_nowS ?o = ts" by (simp add: selectOptions_def)
  have env: "iterates (re_iter ?env)" "picks (re_pick ?env)" using assms(1) by (simp_all add: env_ok_def)
  have clock: "clock_ok t (so_nowS ?o)" using assms(4) now by simp
  note spec = pickSlot_spec [OF assms(3) clock env p]
  have none: "r = None" "cw_dir w1 = Some t1"
    using assms(2,6) p
    by (auto simp: reserveAccountCandidate_def reserve_pick [OF assms(5)] Let_def split: option.splits if_splits)
  have "sel_state_ok (re_iter ?env) (re_pick ?env) (so_nowS ?o) t"
    using assms(3) clock env by (simp add: sel_state_ok_def)
  from firstPool_kept [OF this, of "re_strategy ?env" mode pools] p have kept: "quota_kept t t1"
    by (simp add: pickSlot_def)
  have "\<not> eligible False mode ?o t q i" if "q \<in> set pools" for q i
    using spec(4) [OF none(1) that, of i] kept_eligible [OF kept assms(3) spec(1)] by blast
  then show ?thesis using spec(1) kept none(2) assms(4) clock_quota_only [OF spec(2)] by simp
qed

lemma candidates_refuse:
  assumes "env_ok env" "cw_dir w = Some t" "table_ok t" "clock_ok t ts" "pools \<noteq> []"
    and "reserveFromCandidates env pools ts ex modes result w = ((None, res), w1)"
    and "mode \<in> set modes" "p \<in> set pools"
  shows "\<not> eligible False mode (chatSelect env t ts ex) t p i"
  using assms(2-4,6,7)
proof (induction modes arbitrary: result w t)
  case (Cons m ms)
  obtain lease0 reason w0 where c: "reserveAccountCandidate env pools ts ex m w = ((lease0, reason), w0)"
    by (metis prod.exhaust)
  with Cons.prems(4) have none: "lease0 = None" by (cases lease0) auto
  from candidate_refuses [OF assms(1) Cons.prems(1-3) assms(5) c [unfolded none]] obtain t' where t':
    "cw_dir w0 = Some t'" "table_ok t'" "clock_ok t' ts" "quota_kept t t'"
    "\<not> eligible False m (chatSelect env t ts ex) t p i" using assms(8) by blast
  show ?case
  proof (cases "mode = m")
    case False
    then have "mode \<in> set ms" using Cons.prems(5) by simp
    from Cons.IH [OF t'(1-3) _ this] Cons.prems(4) c none
    have "\<not> eligible False mode (chatSelect env t' ts ex) t' p i" by auto
    then show ?thesis
      using kept_eligible [OF t'(4) Cons.prems(2) t'(2)] select_kept [OF t'(4)] by metis
  qed (use t'(5) in simp)
qed simp

lemma chat_refuses:
  assumes "chat_inv env seen w" "cw_dir w = Some t" "chatReserve env spec ex w = (Inl e, w1)"
    and "mode \<in> set (ModeCandidates (ce_fallback env) spec)" "p \<in> set (PoolCandidates spec)"
  shows "\<not> eligible False mode (chatSelect env t (ce_nowS env (cw_upstream w)) ex) t p i"
proof -
  let ?ts = "ce_nowS env (cw_upstream w)"
  have ok: "env_ok env" "dir_ok ?ts (cw_dir w)" using assms(1) by (simp_all add: chat_inv_def)
  then have t: "table_ok t" "clock_ok t ?ts" using assms(2) by (simp_all add: dir_ok_def)
  obtain lease res w2 where c: "reserveCandidates env spec ?ts ex w = ((lease, res), w2)" by (metis prod.exhaust)
  note c' = c [unfolded reserveCandidates_def]
  have "lease = None"
  proof (rule ccontr)
    assume "lease \<noteq> None"
    then obtain l where "lease = Some l" by blast
    with candidates_granted [OF ok pools_nonempty c'] have "sr_ok res" by simp
    then show False using assms(3) c \<open>lease = Some l\<close>
      by (simp add: chatReserve_def ReserveChatAccount_def ReserveAccountDetailed_def Let_def)
  qed
  with candidates_refuse [OF ok(1) assms(2) t pools_nonempty _ assms(4,5)] c' show ?thesis by blast
qed

section \<open>Chat completions\<close>

interpretation chat: dispatch_directory "chatOptions env spec" "chatRun env" "chat_inv env seen"
    "\<lambda>w. held (cw_dir w)" "\<lambda>w. seen (cw_upstream w)"
  for env :: "('u, 'r) ChatEnv" and spec seen
proof
  fix w ex x w1 l r w2 token kind mode
  assume inv: "chat_inv env seen w"
  note cases = chatReserve_cases [OF inv]
  show "chat_inv env seen w1 \<and> held (cw_dir w1) = held (cw_dir w) \<and> seen (cw_upstream w1) = seen (cw_upstream w)"
    if "do_reserve (chatOptions env spec) (do_spec (chatOptions env spec)) ex w = (x, w1)" "\<forall>l. x \<noteq> Inr (Some l)"
    using cases [of spec ex x w1] that inv by (auto simp: chat_inv_def split: sum.splits option.splits)
  show "dl_token l \<notin> set ex"
    if "do_reserve (chatOptions env spec) (do_spec (chatOptions env spec)) ex w = (Inr (Some l), w1)"
    using cases [of spec ex "Inr (Some l)" w1] that by (auto simp: granted_def)
  show "chat_inv env seen (do_release (chatOptions env spec) l w2) \<and>
      held (cw_dir (do_release (chatOptions env spec) l w2)) = held (cw_dir w) \<and>
      seen (cw_upstream (do_release (chatOptions env spec) l w2)) = seen (cw_upstream w) @ [(dl_token l, errOf r)]"
    if "do_reserve (chatOptions env spec) (do_spec (chatOptions env spec)) ex w = (Inr (Some l), w1)"
      "chatRun env l w1 = (r, w2)"
    using chat_turn [OF inv] that by simp
  show "chat_inv env seen (do_feedback (chatOptions env spec) token kind mode w) \<and>
      held (cw_dir (do_feedback (chatOptions env spec) token kind mode w)) = held (cw_dir w) \<and>
      seen (cw_upstream (do_feedback (chatOptions env spec) token kind mode w)) = seen (cw_upstream w)"
    using chat_told [OF inv] by (simp add: chatFeedback_def)
qed

definition chatAttempts :: "('u, 'r) ChatEnv \<Rightarrow> int" where
  "chatAttempts env = max 1 (SelectionMaxRetries (re_strategy (ce_reserve env)) (ce_getInt env) + 1)"

lemma chat_attempts: "dispatchMaxAttempts (chatOptions env spec) = chatAttempts env"
  by (simp add: dispatchMaxAttempts_def chatAttempts_def Let_def)

lemma chat_retryable: "dispatchRetryable (chatOptions env spec) e = shouldRetryUpstream (ce_retryCodes env) e"
  by (simp add: dispatchRetryable_def)

lemma chat_fresh_inv:
  "env_ok env \<Longrightarrow> records env seen \<Longrightarrow> dir_ok (ce_nowS env (cw_upstream w)) (cw_dir w) \<Longrightarrow>
     chat_inv env seen (w\<lparr>cw_accounts := Map.empty\<rparr>)"
  by (simp add: chat_inv_def)

section \<open>A sample request\<close>

text \<open>An upstream that fails with 503 once and then answers, before a directory with two accounts.\<close>

definition sampleAttempt :: "chatAccount \<Rightarrow> (string \<times> goerr option) list \<Rightarrow> (goerr + string) \<times> (string \<times> goerr option) list" where
  "sampleAttempt a u =
    (if u = [] then (Inl (ErrUpstream 503 ''busy'' ''''), [(ca_token a, Some (ErrUpstream 503 ''busy'' ''''))])
     else (Inr ''ok'', u @ [(ca_token a, None)]))"

definition sampleChat :: "((string \<times> goerr option) list, string) ChatEnv" where
  "sampleChat =
    \<lparr>ce_reserve = sampleEnv,
     ce_refresh = \<lparr>rf_fetch = missingUsageFetcher, rf_maxFailures = 2, rf_text = (\<lambda>e. ''error'')\<rparr>,
     ce_service = False, ce_minInterval = 0, ce_fallback = True, ce_getInt = (\<lambda>key def1. def1), ce_retryCodes = {429, 503},
     ce_nowS = (\<lambda>u. 0), ce_nowMS = (\<lambda>u. 0), ce_attempt = sampleAttempt\<rparr>"

definition sampleWorld :: "((string \<times> goerr option) list) ChatWorld" where
  "sampleWorld =
    \<lparr>cw_dir = Some sampleTable, cw_onDemand = \<lparr>od_running = False, od_last = None\<rparr>, cw_db = emptyDB, cw_jobs = [],
     cw_drops = 0, cw_nextID = 1, cw_accounts = Map.empty, cw_upstream = []\<rparr>"

definition sampleModel :: ModelSpec where
  "sampleModel = modelSpec ''grok-4.20-fast'' ModeFast TierBasic CapabilityChat ''Grok 4.20 Fast'' True"

lemma sample_env_ok: "env_ok sampleChat"
  using sampleEnv_ok by (simp add: env_ok_def sampleChat_def) (simp add: sampleEnv_def)

lemma sample_records: "records sampleChat id"
  by (auto simp: records_def sampleChat_def sampleAttempt_def errOf_def split: if_splits)

lemma sample_world: "cw_dir sampleWorld = Some sampleTable" "cw_upstream sampleWorld = []" "ce_nowS sampleChat u = 0"
  by (simp_all add: sampleWorld_def sampleChat_def)

lemma sample_eligible_fast: "eligible False 1 (chatSelect sampleChat sampleTable 0 []) sampleTable 0 1"
  using sampleTable_bucket sampleTable_quota
  by (simp add: eligible_iff [OF sampleTable_ok] sampleTable_simps status_ids known_modes WindowFor_def QuotaFor_def
      selectOptions_def excludeIdxs_def effectiveMaxInflight_def selectionMaxInflight_def defaultMaxInflight_def
      sampleChat_def sampleEnv_def table_simps modeVal_def sampleVals_def clampNonNegative_def clampQuota_def)

text \<open>C1. A chat request on the account pool: it calls the upstream for pairwise different accounts, at
  most as often as the retry limit allows, and again only after an error that may be retried; it answers
  with the result of its last call, or with its error, or with the refusal of the directory; and when
  it ends, every account it had reserved is released, so no request stays counted as in flight.\<close>

theorem chat_dispatch:
  assumes "env_ok env" "records env seen" "dir_ok (ce_nowS env (cw_upstream w)) (cw_dir w)"
    and "chatCompletions env spec w = (res, w')"
  shows "\<exists>calls. seen (cw_upstream w') = seen (cw_upstream w) @ calls \<and> distinct (map fst calls) \<and>
    int (length calls) \<le> chatAttempts env \<and> held (cw_dir w') = held (cw_dir w) \<and>
    dir_ok (ce_nowS env (cw_upstream w')) (cw_dir w') \<and>
    (\<forall>c \<in> set (butlast calls). \<exists>e. snd c = Some e \<and> shouldRetryUpstream (ce_retryCodes env) e) \<and>
    (case res of
       Inr x \<Rightarrow> calls \<noteq> [] \<and> snd (last calls) = None
     | Inl e \<Rightarrow>
         calls \<noteq> [] \<and> snd (last calls) = Some e \<and>
           (shouldRetryUpstream (ce_retryCodes env) e \<longrightarrow> int (length calls) = chatAttempts env) \<or>
         (\<exists>w1 w2. chat_inv env seen w1 \<and> chatReserve env spec (map fst calls) w1 = (Inl e, w2)))"
proof -
  note inv = chat_fresh_inv [OF assms(1-3)]
  from chat.dispatch_run [OF inv, of spec res w'] assms(4) obtain calls where calls:
    "seen (cw_upstream w') = seen (cw_upstream w) @ calls" "chat_inv env seen w'" "held (cw_dir w') = held (cw_dir w)"
    "distinct (map fst calls)" "int (length calls) \<le> chatAttempts env" "outcome (chatOptions env spec) (chat_inv env seen) [] calls 0 res"
    by (auto simp: chatCompletions_def chat_attempts)
  have over: "failed_over (chatOptions env spec) cs \<longleftrightarrow>
      (\<forall>c \<in> set cs. \<exists>e. snd c = Some e \<and> shouldRetryUpstream (ce_retryCodes env) e)" for cs
    by (simp add: failed_over_def chat_retryable)
  have refused: "\<exists>w1 w2. chat_inv env seen w1 \<and> chatReserve env spec ex w1 = (Inl e, w2)"
    if "refused (chatOptions env spec) (chat_inv env seen) ex e" for ex e
    using that chatReserve_cases by (fastforce simp: refused_def)
  have "\<forall>c \<in> set (butlast calls). \<exists>e. snd c = Some e \<and> shouldRetryUpstream (ce_retryCodes env) e"
    using calls(6) by (auto simp: outcome_def over dest: in_set_butlastD split: sum.splits)
  moreover have "case res of
       Inr x \<Rightarrow> calls \<noteq> [] \<and> snd (last calls) = None
     | Inl e \<Rightarrow>
         calls \<noteq> [] \<and> snd (last calls) = Some e \<and>
           (shouldRetryUpstream (ce_retryCodes env) e \<longrightarrow> int (length calls) = chatAttempts env) \<or>
         (\<exists>w1 w2. chat_inv env seen w1 \<and> chatReserve env spec (map fst calls) w1 = (Inl e, w2))"
    using calls(6) refused by (auto simp: outcome_def chat_retryable chat_attempts split: sum.splits)
  ultimately show ?thesis using calls(1-5) by (auto simp: chat_inv_def)
qed

theorem chat_dispatch_witness:
  "\<exists>res w' calls. chatCompletions sampleChat sampleModel sampleWorld = (res, w') \<and> cw_upstream w' = calls \<and>
     distinct (map fst calls) \<and> int (length calls) \<le> 2 \<and> held (cw_dir w') = Some [0, 0]"
proof -
  obtain res w' where run: "chatCompletions sampleChat sampleModel sampleWorld = (res, w')" by (metis prod.exhaust)
  have dir: "dir_ok (ce_nowS sampleChat (cw_upstream sampleWorld)) (cw_dir sampleWorld)"
    using sampleTable_ok sampleTable_clock by (simp add: dir_ok_def sample_world)
  have "chatAttempts sampleChat = 2"
    by (simp add: chatAttempts_def SelectionMaxRetries_def sampleChat_def sampleEnv_def)
  with chat_dispatch [OF sample_env_ok sample_records dir run] run show ?thesis
    by (auto simp: sample_world sampleTable_simps)
qed

text \<open>C2. A request is not refused while an account can serve it: if some slot of a candidate pool may be
  used for a candidate mode, the request reaches the upstream.\<close>

theorem chat_served:
  assumes "env_ok env" "records env seen" "cw_dir w = Some t" "table_ok t" "clock_ok t (ce_nowS env (cw_upstream w))"
    and "mode \<in> set (ModeCandidates (ce_fallback env) spec)" "p \<in> set (PoolCandidates spec)"
    and "eligible False mode (chatSelect env t (ce_nowS env (cw_upstream w)) []) t p i"
    and "chatCompletions env spec w = (res, w')"
  shows "\<exists>c calls. seen (cw_upstream w') = seen (cw_upstream w) @ c # calls"
proof -
  let ?w = "w\<lparr>cw_accounts := Map.empty\<rparr>"
  have inv: "chat_inv env seen ?w" using assms(1-5) by (simp add: chat_inv_def dir_ok_def)
  obtain x w1 where rsv: "chatReserve env spec [] ?w = (x, w1)" by (metis prod.exhaust)
  have "x \<noteq> Inl e" for e
    using chat_refuses [OF inv _ _ assms(6,7), of t "[]" e w1 i] assms(3,8) rsv by auto
  with chatReserve_cases [OF inv rsv] obtain l where l: "x = Inr (Some l)" by (cases x) auto
  then have "do_reserve (chatOptions env spec) (do_spec (chatOptions env spec)) [] ?w = (Inr (Some l), w1)"
    using rsv by simp
  from chat.dispatch_calls [OF inv this, of res w'] assms(9) show ?thesis by (simp add: chatCompletions_def)
qed

theorem chat_served_witness:
  "\<exists>res w' c calls. chatCompletions sampleChat sampleModel sampleWorld = (res, w') \<and> cw_upstream w' = c # calls"
proof -
  obtain res w' where run: "chatCompletions sampleChat sampleModel sampleWorld = (res, w')" by (metis prod.exhaust)
  have clock: "clock_ok sampleTable (ce_nowS sampleChat (cw_upstream sampleWorld))"
    using sampleTable_clock by (simp add: sample_world)
  have cand: "1 \<in> set (ModeCandidates (ce_fallback sampleChat) sampleModel)" "0 \<in> set (PoolCandidates sampleModel)"
    by (simp_all add: ModeCandidates_def PoolCandidates_def sampleModel_def modelSpec_def mode_ids)
  have slot: "eligible False 1 (chatSelect sampleChat sampleTable (ce_nowS sampleChat (cw_upstream sampleWorld)) []) sampleTable 0 1"
    using sample_eligible_fast by (simp add: sample_world)
  from chat_served [OF sample_env_ok sample_records sample_world(1) sampleTable_ok clock cand slot run] run show ?thesis
    by (auto simp: sample_world)
qed

end
