(* ===== verification/Json.thy ===== *)
theory Json
  imports GoStrings
begin

text \<open>
  JSON values as \<open>encoding/json\<close> decodes them into \<open>any\<close>, and the helpers of the parsers of upstream streams
  (\<open>dataplane/reverse/protocol/xai_chat_helpers.go\<close>, \<open>xai_image_edit.go\<close>). An object is a list of its members; the text of
  JSON documents and the printing of values that are no strings (\<open>fmt.Sprint\<close>) are arguments, in \<open>JsonOps\<close>.
\<close>

datatype json = JNull | JBool bool | JNum rat | JStr string | JArr "json list" | JObj "(string \<times> json) list"

type_synonym jobj = "(string \<times> json) list"

record JsonOps =
  jo_unmarshal :: "string \<Rightarrow> json option"
  jo_marshal :: "json \<Rightarrow> string"
  jo_sprint :: "json \<Rightarrow> string"

definition jget :: "jobj \<Rightarrow> string \<Rightarrow> json" where
  "jget m k = (case map_of m k of None \<Rightarrow> JNull | Some v \<Rightarrow> v)"

definition jset :: "string \<Rightarrow> json \<Rightarrow> jobj \<Rightarrow> jobj" where
  "jset k v m = (k, v) # filter (\<lambda>e. fst e \<noteq> k) m"

text \<open>The type assertions \<open>v.(map[string]any)\<close>, \<open>v.([]any)\<close> (through \<open>anySlice\<close>) and \<open>v.(bool)\<close>.\<close>

definition asObj :: "json \<Rightarrow> jobj option" where
  "asObj v = (case v of JObj m \<Rightarrow> Some m | _ \<Rightarrow> None)"

definition anySlice :: "json \<Rightarrow> json list" where
  "anySlice v = (case v of JArr xs \<Rightarrow> xs | _ \<Rightarrow> [])"

definition boolFromAny :: "json \<Rightarrow> bool" where
  "boolFromAny v = (case v of JBool b \<Rightarrow> b | _ \<Rightarrow> False)"

definition truthyAny :: "json \<Rightarrow> bool" where
  "truthyAny v =
    (case v of JNull \<Rightarrow> False | JBool b \<Rightarrow> b | JNum r \<Rightarrow> r \<noteq> 0 | JStr s \<Rightarrow> s \<noteq> '''' | JArr xs \<Rightarrow> xs \<noteq> [] | JObj m \<Rightarrow> m \<noteq> [])"

definition jsonInt :: "json \<Rightarrow> int option" where
  "jsonInt v = (case v of JNum r \<Rightarrow> Some (truncRat r) | _ \<Rightarrow> None)"

text \<open>\<open>fmt.Sprint\<close> of a value.\<close>

definition sprintJson :: "JsonOps \<Rightarrow> json \<Rightarrow> string" where
  "sprintJson jo v = (case v of JStr s \<Rightarrow> s | _ \<Rightarrow> jo_sprint jo v)"

definition stringFromAny :: "JsonOps \<Rightarrow> json \<Rightarrow> string" where
  "stringFromAny jo v = (if v = JNull then '''' else sprintJson jo v)"

fun firstStringFromAny :: "JsonOps \<Rightarrow> json list \<Rightarrow> string" where
  "firstStringFromAny jo [] = ''''"
| "firstStringFromAny jo (v # vs) = (let t = trimSpace (stringFromAny jo v) in if t \<noteq> '''' then t else firstStringFromAny jo vs)"

fun firstPresent :: "JsonOps \<Rightarrow> jobj \<Rightarrow> string list \<Rightarrow> string" where
  "firstPresent jo m [] = ''''"
| "firstPresent jo m (k # ks) = (if jget m k \<noteq> JNull then sprintJson jo (jget m k) else firstPresent jo m ks)"

definition numericCode :: "json \<Rightarrow> int" where
  "numericCode v = (case v of JNum r \<Rightarrow> truncRat r | _ \<Rightarrow> 0)"

fun nestedMap :: "jobj \<Rightarrow> string list \<Rightarrow> jobj option" where
  "nestedMap m [] = Some m"
| "nestedMap m (k # ks) = (case asObj (jget m k) of None \<Rightarrow> None | Some m' \<Rightarrow> nestedMap m' ks)"

definition nonEmptyStringItems :: "json \<Rightarrow> string list" where
  "nonEmptyStringItems v = List.map_filter (\<lambda>x. case x of JStr s \<Rightarrow> if s \<noteq> '''' then Some s else None | _ \<Rightarrow> None) (anySlice v)"

section \<open>Text\<close>

text \<open>\<open>strings.Index\<close>.\<close>

fun indexOf :: "string \<Rightarrow> string \<Rightarrow> nat option" where
  "indexOf [] sub = (if sub = [] then Some 0 else None)"
| "indexOf (c # cs) sub = (if hasPrefix (c # cs) sub then Some 0 else map_option Suc (indexOf cs sub))"

lemma indexOf_Some: "indexOf s sub = Some i \<Longrightarrow> i + length sub \<le> length s \<and> take (length sub) (drop i s) = sub"
proof (induction s arbitrary: i)
  case (Cons c cs)
  show ?case
  proof (cases "hasPrefix (c # cs) sub")
    case True
    then have "take (length sub) (c # cs) = sub" by (simp add: hasPrefix_def)
    moreover from this have "length sub \<le> length (c # cs)" by (metis length_take min.cobounded1)
    ultimately show ?thesis using Cons.prems True by simp
  next
    case False
    then show ?thesis using Cons by auto
  qed
qed (simp split: if_splits)

definition hasSuffixOf :: "string \<Rightarrow> string \<Rightarrow> bool" where
  "hasSuffixOf s p \<longleftrightarrow> hasPrefix (rev s) (rev p)"

fun joinStrings :: "string \<Rightarrow> string list \<Rightarrow> string" where
  "joinStrings sep [] = ''''"
| "joinStrings sep [x] = x"
| "joinStrings sep (x # y # xs) = x @ sep @ joinStrings sep (y # xs)"

lemma joinStrings_Nil: "joinStrings '''' xs = concat xs"
  by (induction "'''' :: string" xs rule: joinStrings.induct) simp_all

text \<open>\<open>strings.ReplaceAll\<close> of one byte.\<close>

definition replaceByte :: "char \<Rightarrow> string \<Rightarrow> string \<Rightarrow> string" where
  "replaceByte c r s = concat (map (\<lambda>x. if x = c then r else [x]) s)"

text \<open>The class \<open>\s\<close> of regular expressions.\<close>

definition isReSpace :: "char \<Rightarrow> bool" where
  "isReSpace c \<longleftrightarrow> byteOf c \<in> {9, 10, 12, 13, 32}"

text \<open>\<open>\s+\<close> replaced by a blank.\<close>

fun squeezeSpaces :: "string \<Rightarrow> string" where
  "squeezeSpaces [] = []"
| "squeezeSpaces (c # cs) =
    (if isReSpace c then (case cs of [] \<Rightarrow> '' '' | d # ds \<Rightarrow> if isReSpace d then squeezeSpaces cs else CHR '' '' # squeezeSpaces cs)
     else c # squeezeSpaces cs)"

text \<open>\<open>string([]rune(s)[:n])\<close>: bytes that are no rune become U+FFFD.\<close>

definition runeText :: "nat \<times> string \<Rightarrow> string" where
  "runeText sg = (if fst sg = 65533 \<and> length (snd sg) = 1 then map char_of [239 :: nat, 191, 189] else snd sg)"

definition takeRunes :: "nat \<Rightarrow> string \<Rightarrow> string" where
  "takeRunes n s = concat (map runeText (take n (segs s)))"

text \<open>\<open>([a-z0-9])([A-Z])\<close> replaced by both with an underscore between them, in lower case; names of tools are ASCII.\<close>

definition isUpper :: "char \<Rightarrow> bool" where
  "isUpper c \<longleftrightarrow> 65 \<le> byteOf c \<and> byteOf c \<le> 90"

definition isLowerDigit :: "char \<Rightarrow> bool" where
  "isLowerDigit c \<longleftrightarrow> 97 \<le> byteOf c \<and> byteOf c \<le> 122 \<or> isDigit c"

fun camelBoundaries :: "string \<Rightarrow> string" where
  "camelBoundaries (a # b # cs) =
    (if isLowerDigit a \<and> isUpper b then a # CHR ''_'' # b # camelBoundaries cs else a # camelBoundaries (b # cs))"
| "camelBoundaries s = s"

definition camelToSnake :: "string \<Rightarrow> string" where
  "camelToSnake s = goLower (camelBoundaries s)"

end
