(* ===== verification/ChatAdapter.thy ===== *)
theory ChatAdapter
  imports Json UpstreamErrors
begin

text \<open>
  The adapter that turns the lines of an upstream chat stream into events (\<open>dataplane/reverse/protocol\<close>:
  \<open>xai_chat.go\<close>, \<open>xai_chat_adapter.go\<close>, \<open>xai_chat_helpers.go\<close>, \<open>xai_chat_render.go\<close>, \<open>xai_image_edit.go\<close>). Arguments are the text of
  JSON documents and of printed values, the base of image addresses, the order in which Go runs through a map, and the
  aggregator that summarises reasoning (\<open>xai_chat_reasoning*.go\<close>), a state machine over a state of type \<open>'g\<close> with
  the normalisation of its lines. The two regular expressions for render tags are written out over bytes.
\<close>

section \<open>Lines\<close>

datatype LineKind = LineSkip | LineDone | LineData string

definition ClassifyLine :: "string \<Rightarrow> LineKind" where
  "ClassifyLine line =
    (let line = trimSpace line
     in if line = '''' then LineSkip
        else if hasPrefix line ''data:'' then (let data = trimSpace (drop 5 line) in if data = ''[DONE]'' then LineDone else LineData data)
        else if hasPrefix line ''event:'' then LineSkip
        else if hasPrefix line ''{'' then LineData line
        else LineSkip)"

section \<open>Errors in the stream\<close>

definition marshalStreamErrorBody :: "JsonOps \<Rightarrow> jobj \<Rightarrow> string" where
  "marshalStreamErrorBody jo e =
    take 400
      (case map_of e ''message'' of
         Some message \<Rightarrow>
           ''{\"error\":{\"message\":'' @ jo_marshal jo message @
           (case map_of e ''code'' of Some code \<Rightarrow> '',\"code\":'' @ jo_marshal jo code | None \<Rightarrow> '''') @ ''}}''
       | None \<Rightarrow>
           (case map_of e ''error'' of
              Some text1 \<Rightarrow> ''{\"error\":{\"error\":'' @ jo_marshal jo text1 @ ''}}''
            | None \<Rightarrow> jo_marshal jo (JObj [(''error'', JObj e)])))"

definition StreamErrorFromPayload :: "JsonOps \<Rightarrow> jobj \<Rightarrow> goerr option" where
  "StreamErrorFromPayload jo obj =
    (case asObj (jget obj ''error'') of
       None \<Rightarrow> None
     | Some e \<Rightarrow>
         (let message = defaultString (firstPresent jo e [''message'', ''error'']) ''Upstream stream error''; text1 = goLower message;
              status = (if numericCode (jget e ''code'') = 8 \<or> containsStr text1 ''too many requests'' \<or> containsStr text1 ''rate limit''
                        then 429 else 502)
          in Some (NewUpstreamError (''Upstream stream error: '' @ message) status (marshalStreamErrorBody jo e))))"

section \<open>State\<close>

record UrlCitation =
  uc_url :: string
  uc_title :: string
  uc_start :: nat
  uc_end :: nat

datatype FrameEvent =
    EvThinking string string string "int option"
  | EvText string
  | EvAnnotation UrlCitation
  | EvImage string string
  | EvProgress int string
  | EvSoftStop

record pendingCitation =
  pn_url :: string
  pn_title :: string
  pn_needle :: string

record 'g StreamAdapter =
  sa_cards :: "(string, jobj) fmap"
  sa_citationOrder :: "string list"
  sa_citationMap :: "(string, int) fmap"
  sa_lastCitation :: int
  sa_pending :: "pendingCitation list"
  sa_annotations :: "UrlCitation list"
  sa_textOffset :: nat
  sa_emitted :: "string set"
  sa_reasoning :: 'g
  sa_summaryMode :: bool
  sa_showSources :: bool
  sa_lastRollout :: string
  sa_contentStarted :: bool
  sa_results :: "jobj list"
  sa_urlsSeen :: "string set"
  sa_thinkingBuf :: "string list"
  sa_textBuf :: "string list"
  sa_imageURLs :: "(string \<times> string) list"

record 'g AdapterEnv =
  ae_json :: JsonOps
  ae_assets :: string
  ae_iter :: "jobj \<Rightarrow> jobj"
  ae_fresh :: 'g
  ae_onThinking :: "string \<Rightarrow> string \<Rightarrow> string \<Rightarrow> int option \<Rightarrow> 'g \<Rightarrow> string list \<times> 'g"
  ae_onToolUsage :: "string \<Rightarrow> jobj \<Rightarrow> string \<Rightarrow> int option \<Rightarrow> 'g \<Rightarrow> string list \<times> 'g"
  ae_finalize :: "'g \<Rightarrow> string list \<times> 'g"
  ae_normalizeKey :: "string \<Rightarrow> string"

definition NewStreamAdapter :: "'g AdapterEnv \<Rightarrow> bool \<Rightarrow> bool \<Rightarrow> 'g StreamAdapter" where
  "NewStreamAdapter env summary sources =
    \<lparr>sa_cards = fmempty, sa_citationOrder = [], sa_citationMap = fmempty, sa_lastCitation = -1, sa_pending = [],
     sa_annotations = [], sa_textOffset = 0, sa_emitted = {}, sa_reasoning = ae_fresh env, sa_summaryMode = summary,
     sa_showSources = sources, sa_lastRollout = '''', sa_contentStarted = False, sa_results = [], sa_urlsSeen = {},
     sa_thinkingBuf = [], sa_textBuf = [], sa_imageURLs = []\<rparr>"

definition itemTitle :: "'g AdapterEnv \<Rightarrow> jobj \<Rightarrow> string" where
  "itemTitle env item = defaultString (stringFromAny (ae_json env) (jget item ''title'')) (stringFromAny (ae_json env) (jget item ''url''))"

definition escapeTitle :: "string \<Rightarrow> string" where
  "escapeTitle title = replaceByte (CHR '']'') [CHR 0x5C, CHR '']''] (replaceByte (CHR ''['') [CHR 0x5C, CHR ''[''] (replaceByte (CHR 0x5C) [CHR 0x5C, CHR 0x5C] title))"

definition ReferencesSuffix :: "'g AdapterEnv \<Rightarrow> 'g StreamAdapter \<Rightarrow> string" where
  "ReferencesSuffix env a =
    (if sa_results a = [] \<or> \<not> sa_showSources a then ''''
     else joinStrings [CHR 0x0A]
       (([CHR 0x0A, CHR 0x0A] @ ''## Sources'') # ''[gork-sources]: #'' #
        map (\<lambda>item. ''- ['' @ escapeTitle (itemTitle env item) @ '']('' @ stringFromAny (ae_json env) (jget item ''url'') @ '')'') (sa_results a))
       @ [CHR 0x0A])"

text \<open>Address, title and type of each source.\<close>

definition SearchSourcesList :: "'g AdapterEnv \<Rightarrow> 'g StreamAdapter \<Rightarrow> (json \<times> string \<times> string) list" where
  "SearchSourcesList env a =
    map (\<lambda>item. (jget item ''url'', itemTitle env item, defaultString (stringFromAny (ae_json env) (jget item ''type'')) ''web'')) (sa_results a)"

section \<open>Images\<close>

definition grokImageURL :: "'g AdapterEnv \<Rightarrow> string \<Rightarrow> string" where
  "grokImageURL env rawURL =
    (let u = trimSpace rawURL
     in if u = '''' then ''''
        else if hasPrefix u ''http://'' \<or> hasPrefix u ''https://'' then u
        else ae_assets env @ ''/'' @ dropWhile (\<lambda>c. c = CHR ''/'') u)"

definition addImage :: "string \<Rightarrow> string \<Rightarrow> 'g StreamAdapter \<Rightarrow> FrameEvent list \<times> 'g StreamAdapter" where
  "addImage url uuid a = (if url = '''' then ([], a) else ([EvImage url uuid], a\<lparr>sa_imageURLs := sa_imageURLs a @ [(url, uuid)]\<rparr>))"

definition progressEvent :: "int option \<Rightarrow> string \<Rightarrow> FrameEvent list" where
  "progressEvent progress uuid = (case progress of None \<Rightarrow> [] | Some p \<Rightarrow> [EvProgress p uuid])"

definition handleChunk :: "'g AdapterEnv \<Rightarrow> jobj \<Rightarrow> 'g StreamAdapter \<Rightarrow> FrameEvent list \<times> 'g StreamAdapter" where
  "handleChunk env ch a =
    (let progress = jsonInt (jget ch ''progress''); uuid = stringFromAny (ae_json env) (jget ch ''imageUuid'');
         (image, a) = (if progress = Some 100 \<and> \<not> boolFromAny (jget ch ''moderated'')
                       then addImage (grokImageURL env (stringFromAny (ae_json env) (jget ch ''imageUrl''))) uuid a else ([], a))
     in (progressEvent progress uuid @ image, a))"

definition handleCard :: "'g AdapterEnv \<Rightarrow> jobj \<Rightarrow> 'g StreamAdapter \<Rightarrow> FrameEvent list \<times> 'g StreamAdapter" where
  "handleCard env cardRaw a =
    (let jsonData = stringFromAny (ae_json env) (jget cardRaw ''jsonData'')
     in if jsonData = '''' then ([], a)
        else (case jo_unmarshal (ae_json env) jsonData of
                Some (JObj cd) \<Rightarrow>
                  (let a = a\<lparr>sa_cards := fmupd (stringFromAny (ae_json env) (jget cd ''id'')) cd (sa_cards a)\<rparr>
                   in case asObj (jget cd ''image_chunk'') of
                        None \<Rightarrow> ([], a)
                      | Some ch \<Rightarrow> if ch = [] then ([], a) else handleChunk env ch a)
              | Some JNull \<Rightarrow> ([], a\<lparr>sa_cards := fmdrop '''' (sa_cards a)\<rparr>)
              | _ \<Rightarrow> ([], a)))"

definition handleStreamingImageGeneration :: "'g AdapterEnv \<Rightarrow> jobj \<Rightarrow> 'g StreamAdapter \<Rightarrow> FrameEvent list \<times> 'g StreamAdapter" where
  "handleStreamingImageGeneration env stream a =
    (let progress = jsonInt (jget stream ''progress'');
         uuid = firstStringFromAny (ae_json env) [jget stream ''imageUuid'', jget stream ''assetId''];
         (image, a) = (if (case progress of None \<Rightarrow> True | Some p \<Rightarrow> p \<ge> 100) \<and> \<not> boolFromAny (jget stream ''moderated'')
                       then addImage (grokImageURL env (firstStringFromAny (ae_json env)
                              [jget stream ''imageUrl'', jget stream ''imageURL'', jget stream ''url''])) uuid a
                       else ([], a))
     in (progressEvent progress uuid @ image, a))"

fun addImages :: "'g AdapterEnv \<Rightarrow> string list \<Rightarrow> 'g StreamAdapter \<Rightarrow> FrameEvent list \<times> 'g StreamAdapter" where
  "addImages env [] a = ([], a)"
| "addImages env (u # us) a =
    (let (ev, a) = addImage (grokImageURL env u) '''' a; (evs, a) = addImages env us a in (ev @ evs, a))"

definition ExtractModelResponseImageEditURLs :: "jobj \<Rightarrow> string list" where
  "ExtractModelResponseImageEditURLs obj =
    (case nestedMap obj [''result'', ''response'', ''modelResponse''] of
       None \<Rightarrow> [] | Some m \<Rightarrow> nonEmptyStringItems (jget m ''generatedImageUrls''))"

definition ExtractStreamingImageEditResponse :: "jobj \<Rightarrow> jobj option" where
  "ExtractStreamingImageEditResponse obj =
    (case nestedMap obj [''result'', ''response''] of None \<Rightarrow> None | Some r \<Rightarrow> asObj (jget r ''streamingImageGenerationResponse''))"

section \<open>Search results\<close>

definition addResult :: "string \<Rightarrow> jobj \<Rightarrow> 'g StreamAdapter \<Rightarrow> 'g StreamAdapter" where
  "addResult url item a =
    (if url \<in> sa_urlsSeen a then a
     else a\<lparr>sa_urlsSeen := insert url (sa_urlsSeen a), sa_results := sa_results a @ [item]\<rparr>)"

definition webResult :: "'g AdapterEnv \<Rightarrow> json \<Rightarrow> 'g StreamAdapter \<Rightarrow> 'g StreamAdapter" where
  "webResult env raw a =
    (case asObj raw of
       None \<Rightarrow> a
     | Some item \<Rightarrow>
         (let url = stringFromAny (ae_json env) (jget item ''url'')
          in if url = '''' then a else addResult url (jset ''type'' (JStr ''web'') item) a))"

definition postTitle :: "string \<Rightarrow> string \<Rightarrow> string" where
  "postTitle username rawText =
    (let t = squeezeSpaces (trimSpace rawText); title = map char_of [240 :: nat, 157, 149, 143, 47, 64] @ username
     in if t = '''' then title else title @ '': '' @ (if length (segs t) > 50 then takeRunes 50 t @ ''...'' else t))"

definition postResult :: "'g AdapterEnv \<Rightarrow> json \<Rightarrow> 'g StreamAdapter \<Rightarrow> 'g StreamAdapter" where
  "postResult env raw a =
    (case asObj raw of
       None \<Rightarrow> a
     | Some item \<Rightarrow>
         (let post = stringFromAny (ae_json env) (jget item ''postId''); username = stringFromAny (ae_json env) (jget item ''username'')
          in if post = '''' \<or> username = '''' then a
             else (let url = ''https://x.com/'' @ username @ ''/status/'' @ post
                   in addResult url [(''url'', JStr url), (''title'', JStr (postTitle username (stringFromAny (ae_json env) (jget item ''text'')))),
                        (''type'', JStr ''x_post'')] a)))"

definition collectSearchResults :: "'g AdapterEnv \<Rightarrow> jobj \<Rightarrow> 'g StreamAdapter \<Rightarrow> 'g StreamAdapter" where
  "collectSearchResults env resp a =
    (let a = (case asObj (jget resp ''webSearchResults'') of
                None \<Rightarrow> a | Some w \<Rightarrow> fold (webResult env) (anySlice (jget w ''results'')) a)
     in case asObj (jget resp ''xSearchResults'') of
          None \<Rightarrow> a | Some x \<Rightarrow> fold (postResult env) (anySlice (jget x ''results'')) a)"


section \<open>Render tags\<close>

text \<open>\<open>(?s)<grok:render\s+([^>]*)>.*?</grok:render>\<close> at the start of the text: the attributes, and the text after it.\<close>

definition matchRender :: "string \<Rightarrow> (string \<times> string) option" where
  "matchRender s =
    (if \<not> hasPrefix s ''<grok:render'' then None
     else (let r = drop 12 s
           in if takeWhile isReSpace r = [] then None
              else (let r = dropWhile isReSpace r
                    in case dropWhile (\<lambda>c. c \<noteq> CHR ''>'') r of
                         [] \<Rightarrow> None
                       | _ # body \<Rightarrow>
                           (case indexOf body ''</grok:render>'' of
                              None \<Rightarrow> None
                            | Some i \<Rightarrow> Some (takeWhile (\<lambda>c. c \<noteq> CHR ''>'') r, drop (i + 14) body)))))"

lemma matchRender_shorter: "matchRender s = Some (raw, rest) \<Longrightarrow> length rest < length s"
proof -
  assume m: "matchRender s = Some (raw, rest)"
  let ?r = "dropWhile isReSpace (drop 12 s)"
  obtain c body i where b: "dropWhile (\<lambda>c. c \<noteq> CHR ''>'') ?r = c # body" "rest = drop (i + 14) body"
    using m unfolding matchRender_def Let_def by (auto split: if_splits list.splits option.splits)
  have "length (c # body) \<le> length ?r" unfolding b(1) [symmetric] by (rule length_dropWhile_le)
  also have "\<dots> \<le> length (drop 12 s)" by (rule length_dropWhile_le)
  also have "\<dots> \<le> length s" by simp
  finally show ?thesis using b(2) by simp
qed

text \<open>\<open>\b([a-zA-Z_][\w:-]*)="([^"]*)"\<close>, all of it; \<open>prev\<close> tells whether the byte before is part of a word.\<close>

definition isWordByte :: "char \<Rightarrow> bool" where
  "isWordByte c \<longleftrightarrow> isDigit c \<or> isUpper c \<or> 97 \<le> byteOf c \<and> byteOf c \<le> 122 \<or> c = CHR ''_''"

definition isNameByte :: "char \<Rightarrow> bool" where
  "isNameByte c \<longleftrightarrow> isWordByte c \<or> c = CHR '':'' \<or> c = CHR ''-''"

text \<open>The value and the text after it, when the text is a name followed by a quoted value.\<close>

definition quotedValue :: "string \<Rightarrow> (string \<times> string) option" where
  "quotedValue s =
    (case s of
       e # q # r \<Rightarrow>
         if e = CHR ''='' \<and> q = CHR 0x22 then
           (case dropWhile (\<lambda>c. c \<noteq> CHR 0x22) r of [] \<Rightarrow> None | _ # rest \<Rightarrow> Some (takeWhile (\<lambda>c. c \<noteq> CHR 0x22) r, rest))
         else None
     | _ \<Rightarrow> None)"

lemma quotedValue_shorter: "quotedValue s = Some (v, rest) \<Longrightarrow> length rest < length s"
proof -
  assume q: "quotedValue s = Some (v, rest)"
  then obtain e c r d where s: "s = e # c # r" "dropWhile (\<lambda>c. c \<noteq> CHR 0x22) r = d # rest"
    unfolding quotedValue_def by (auto split: list.splits if_splits)
  have "length (d # rest) \<le> length r" unfolding s(2) [symmetric] by (rule length_dropWhile_le)
  then show ?thesis using s(1) by simp
qed

function attrsFrom :: "bool \<Rightarrow> string \<Rightarrow> (string \<times> string) list" where
  "attrsFrom prev [] = []"
| "attrsFrom prev (c # cs) =
    (if \<not> prev \<and> isWordByte c \<and> \<not> isDigit c then
       (case quotedValue (dropWhile isNameByte cs) of
          Some (v, rest) \<Rightarrow> (c # takeWhile isNameByte cs, v) # attrsFrom False rest
        | None \<Rightarrow> attrsFrom (isWordByte c) cs)
     else attrsFrom (isWordByte c) cs)"
  by pat_completeness auto
termination
proof (relation "measure (\<lambda>(prev, s). length s)")
  fix prev c cs x v rest
  assume "quotedValue (dropWhile isNameByte cs) = Some x" "(v, rest) = x"
  then have "length rest < length (dropWhile isNameByte cs)" using quotedValue_shorter by metis
  also have "\<dots> \<le> length cs" by (rule length_dropWhile_le)
  finally show "((False, rest), (prev, c # cs)) \<in> measure (\<lambda>(prev, s). length s)" by simp
qed simp_all

definition grokRenderAttr :: "string \<Rightarrow> string \<Rightarrow> string" where
  "grokRenderAttr raw name = (case map_of (rev (attrsFrom False raw)) name of None \<Rightarrow> '''' | Some v \<Rightarrow> v)"

section \<open>Citations\<close>

fun citedTitle :: "'g AdapterEnv \<Rightarrow> string \<Rightarrow> jobj list \<Rightarrow> string" where
  "citedTitle env url [] = ''''"
| "citedTitle env url (item # items) =
    (if stringFromAny (ae_json env) (jget item ''url'') = url then stringFromAny (ae_json env) (jget item ''title'')
     else citedTitle env url items)"

definition citationText :: "int \<Rightarrow> string \<Rightarrow> string" where
  "citationText index url = '' [['' @ itoa index @ '']]('' @ url @ '')''"

definition renderInlineCitation :: "'g AdapterEnv \<Rightarrow> jobj \<Rightarrow> 'g StreamAdapter \<Rightarrow> string \<times> 'g StreamAdapter" where
  "renderInlineCitation env cd a =
    (let url = stringFromAny (ae_json env) (jget cd ''url'')
     in if url = '''' then ('''', a)
        else (let (index, a) = (case fmlookup (sa_citationMap a) url of
                     Some i \<Rightarrow> (i, a)
                   | None \<Rightarrow> (let i = int (length (sa_citationOrder a)) + 1
                             in (i, a\<lparr>sa_citationOrder := sa_citationOrder a @ [url], sa_citationMap := fmupd url i (sa_citationMap a)\<rparr>)))
              in if index = sa_lastCitation a then ('''', a)
                 else (let needle = citationText index url;
                           title = defaultString (stringFromAny (ae_json env) (jget cd ''title'')) (citedTitle env url (sa_results a));
                           title = defaultString title url
                       in (needle, a\<lparr>sa_lastCitation := index,
                             sa_pending := sa_pending a @ [\<lparr>pn_url = url, pn_title = title, pn_needle = needle\<rparr>]\<rparr>))))"

definition renderSearchedImage :: "'g AdapterEnv \<Rightarrow> jobj \<Rightarrow> string" where
  "renderSearchedImage env cd =
    (let img = (case asObj (jget cd ''image'') of None \<Rightarrow> [] | Some m \<Rightarrow> m); str = (\<lambda>k. stringFromAny (ae_json env) (jget img k));
         title = defaultString (str ''title'') ''image''; thumb = defaultString (str ''thumbnail'') (str ''original''); link = str ''link''
     in if link \<noteq> '''' then ''[!['' @ title @ '']('' @ thumb @ '')]('' @ link @ '')'' else ''!['' @ title @ '']('' @ thumb @ '')'')"

definition renderReplace :: "'g AdapterEnv \<Rightarrow> string \<Rightarrow> string \<Rightarrow> 'g StreamAdapter \<Rightarrow> string \<times> 'g StreamAdapter" where
  "renderReplace env cardID renderType a =
    (case fmlookup (sa_cards a) cardID of
       None \<Rightarrow> ('''', a)
     | Some cd \<Rightarrow>
         if renderType = ''render_searched_image'' then (renderSearchedImage env cd, a)
         else if renderType = ''render_inline_citation'' then renderInlineCitation env cd a
         else ('''', a))"

function renderAll :: "'g AdapterEnv \<Rightarrow> string \<Rightarrow> 'g StreamAdapter \<Rightarrow> string \<times> 'g StreamAdapter" where
  "renderAll env [] a = ([], a)"
| "renderAll env (c # cs) a =
    (case matchRender (c # cs) of
       Some (raw, rest) \<Rightarrow>
         (let (text1, a) = renderReplace env (grokRenderAttr raw ''card_id'') (grokRenderAttr raw ''type'') a;
              (more, a) = renderAll env rest a
          in (text1 @ more, a))
     | None \<Rightarrow> (let (more, a) = renderAll env cs a in (c # more, a)))"
  by pat_completeness auto
termination
proof (relation "measure (\<lambda>(env, s, a). length s)")
  fix env :: "'g AdapterEnv" and c cs a x raw rest y text1 a1
  assume "matchRender (c # cs) = Some x" "(raw, rest) = x"
  then have "length rest < length (c # cs)" using matchRender_shorter by metis
  then show "((env, rest, a1), (env, c # cs, a)) \<in> measure (\<lambda>(env, s, a). length s)" by simp
qed simp_all

fun locateCitations :: "string \<Rightarrow> nat \<Rightarrow> pendingCitation list \<Rightarrow> UrlCitation list" where
  "locateCitations cleaned from1 [] = []"
| "locateCitations cleaned from1 (cite # cites) =
    (case indexOf (drop from1 cleaned) (pn_needle cite) of
       None \<Rightarrow> locateCitations cleaned from1 cites
     | Some rel \<Rightarrow>
         (let pos = from1 + rel; end1 = pos + length (pn_needle cite)
          in \<lparr>uc_url = pn_url cite, uc_title = pn_title cite, uc_start = pos, uc_end = end1\<rparr> # locateCitations cleaned end1 cites))"

definition cleanToken :: "'g AdapterEnv \<Rightarrow> string \<Rightarrow> 'g StreamAdapter \<Rightarrow> (string \<times> UrlCitation list) \<times> 'g StreamAdapter" where
  "cleanToken env token a =
    (if \<not> containsStr token ''<grok:render'' then ((token, []), a)
     else (let (cleaned, a) = renderAll env token a;
               cleaned = (if hasPrefix cleaned [CHR 0x0A] \<and> containsStr cleaned ''[['' then dropWhile (\<lambda>c. c = CHR 0x0A) cleaned else cleaned)
           in ((cleaned, locateCitations cleaned 0 (sa_pending a)), a\<lparr>sa_pending := []\<rparr>)))"

section \<open>Reasoning\<close>

definition appendReasoning :: "'g AdapterEnv \<Rightarrow> string \<Rightarrow> string \<Rightarrow> string \<Rightarrow> int option \<Rightarrow> 'g StreamAdapter \<Rightarrow> FrameEvent list \<times> 'g StreamAdapter" where
  "appendReasoning env line rollout tag step a =
    (let text1 = (if sa_summaryMode a then trimSpace line else line);
         key = (if sa_summaryMode a then ae_normalizeKey env text1 else rollout @ '':'' @ text1)
     in if text1 = '''' \<or> key \<in> sa_emitted a then ([], a)
        else (let formatted = (if hasSuffixOf text1 [CHR 0x0A] then text1 else text1 @ [CHR 0x0A])
              in ([EvThinking formatted rollout tag step],
                  a\<lparr>sa_emitted := insert key (sa_emitted a), sa_thinkingBuf := sa_thinkingBuf a @ [formatted]\<rparr>)))"

fun appendLines :: "'g AdapterEnv \<Rightarrow> string list \<Rightarrow> string \<Rightarrow> string \<Rightarrow> int option \<Rightarrow> 'g StreamAdapter \<Rightarrow> FrameEvent list \<times> 'g StreamAdapter" where
  "appendLines env [] rollout tag step a = ([], a)"
| "appendLines env (l # ls) rollout tag step a =
    (let (ev, a) = appendReasoning env l rollout tag step a; (evs, a) = appendLines env ls rollout tag step a in (ev @ evs, a))"

definition flushPendingReasoning :: "'g AdapterEnv \<Rightarrow> 'g StreamAdapter \<Rightarrow> FrameEvent list \<times> 'g StreamAdapter" where
  "flushPendingReasoning env a =
    (if sa_summaryMode a
     then (let (ls, g) = ae_finalize env (sa_reasoning a) in appendLines env ls '''' ''summary'' None (a\<lparr>sa_reasoning := g\<rparr>))
     else ([], a))"

text \<open>The first member of a tool card, in the order of the map, whose value is an object.\<close>

definition extractToolInfo :: "'g AdapterEnv \<Rightarrow> jobj \<Rightarrow> string \<times> jobj" where
  "extractToolInfo env resp =
    (case asObj (jget resp ''toolUsageCard'') of
       None \<Rightarrow> ('''', [])
     | Some cd \<Rightarrow>
         (case filter (\<lambda>(k, v). k \<noteq> ''toolUsageCardId'' \<and> asObj v \<noteq> None) (ae_iter env cd) of
            [] \<Rightarrow> ('''', [])
          | (k, v) # _ \<Rightarrow>
              (camelToSnake k, case asObj v of None \<Rightarrow> [] | Some m \<Rightarrow> (case asObj (jget m ''args'') of None \<Rightarrow> [] | Some args \<Rightarrow> args))))"

definition toolFormat :: "(string \<times> nat list \<times> string list) list" where
  "toolFormat =
    [(''web_search'', [240, 159, 148, 141], [''query'', ''q'']), (''x_search'', [240, 159, 148, 141], [''query'']),
     (''x_keyword_search'', [240, 159, 148, 141], [''query'']), (''x_semantic_search'', [240, 159, 148, 141], [''query'']),
     (''browse_page'', [240, 159, 140, 144], [''url'']),
     (''search_images'', [240, 159, 150, 188, 239, 184, 143], [''image_description'', ''imageDescription'']),
     (''image_search'', [240, 159, 150, 188, 239, 184, 143], [''image_description'', ''imageDescription'']),
     (''chatroom_send'', [240, 159, 147, 139], [''message'']), (''code_execution'', [240, 159, 146, 187], [])]"

definition formatToolCard :: "'g AdapterEnv \<Rightarrow> jobj \<Rightarrow> string \<Rightarrow> string" where
  "formatToolCard env resp rollout =
    (let (toolName, args) = extractToolInfo env resp
     in if toolName = '''' then ''''
        else (let (emoji, keys) = (case map_of toolFormat toolName of None \<Rightarrow> ([240, 159, 148, 167], []) | Some f \<Rightarrow> f);
                  displayArg = firstStringFromAny (ae_json env) (map (jget args) keys);
                  pre = (if rollout \<noteq> '''' then ''['' @ rollout @ ''] '' else '''')
              in pre @ map char_of emoji @ '' '' @ toolName @ (if displayArg \<noteq> '''' then '': '' @ displayArg else '''')))"

definition summarizeToolUsageSummary :: "'g AdapterEnv \<Rightarrow> jobj \<Rightarrow> string \<Rightarrow> int option \<Rightarrow> 'g StreamAdapter \<Rightarrow> string list \<times> 'g StreamAdapter" where
  "summarizeToolUsageSummary env resp rollout step a =
    (let (toolName, args) = extractToolInfo env resp
     in if toolName = '''' then ([], a)
        else (let (ls, g) = ae_onToolUsage env toolName args rollout step (sa_reasoning a) in (ls, a\<lparr>sa_reasoning := g\<rparr>)))"

definition feedThinking :: "'g AdapterEnv \<Rightarrow> string \<Rightarrow> string \<Rightarrow> string \<Rightarrow> int option \<Rightarrow> 'g StreamAdapter \<Rightarrow> FrameEvent list \<times> 'g StreamAdapter" where
  "feedThinking env raw tag rollout step a =
    (if sa_contentStarted a then
       ([], if trimSpace raw = '''' then a
            else a\<lparr>sa_thinkingBuf := sa_thinkingBuf a @ [if hasSuffixOf raw [CHR 0x0A] then raw else raw @ [CHR 0x0A]]\<rparr>)
     else if sa_summaryMode a then
       (let (ls, g) = ae_onThinking env raw tag rollout step (sa_reasoning a)
        in appendLines env ls rollout tag step (a\<lparr>sa_reasoning := g\<rparr>))
     else
       (let raw = (if hasPrefix raw ''- '' then trimSpace (drop 2 raw) else raw)
        in if raw = '''' then ([], a)
           else (let (header, a) =
                       (if rollout \<noteq> '''' \<and> rollout \<noteq> sa_lastRollout a then
                          (let h = CHR 0x0A # ''['' @ rollout @ '']'' @ [CHR 0x0A]
                           in ([EvThinking h rollout '''' None], a\<lparr>sa_lastRollout := rollout, sa_thinkingBuf := sa_thinkingBuf a @ [h]\<rparr>))
                        else ([], a));
                     (evs, a) = appendReasoning env raw rollout tag step a
                 in (header @ evs, a))))"

section \<open>Feeding a line\<close>

definition shiftCitation :: "nat \<Rightarrow> UrlCitation \<Rightarrow> UrlCitation" where
  "shiftCitation n c = c\<lparr>uc_start := n + uc_start c, uc_end := n + uc_end c\<rparr>"

definition feedFinal :: "'g AdapterEnv \<Rightarrow> string \<Rightarrow> 'g StreamAdapter \<Rightarrow> FrameEvent list \<times> 'g StreamAdapter" where
  "feedFinal env token a =
    (let ((cleaned, local), a) = cleanToken env token (a\<lparr>sa_contentStarted := True\<rparr>)
     in if cleaned = '''' then ([], a)
        else (let anns = map (shiftCitation (sa_textOffset a)) local
              in (EvText cleaned # map EvAnnotation anns,
                  a\<lparr>sa_textBuf := sa_textBuf a @ [cleaned], sa_annotations := sa_annotations a @ anns,
                    sa_textOffset := sa_textOffset a + length cleaned\<rparr>)))"

definition feedToolCard :: "'g AdapterEnv \<Rightarrow> jobj \<Rightarrow> string \<Rightarrow> string \<Rightarrow> int option \<Rightarrow> 'g StreamAdapter \<Rightarrow> FrameEvent list \<times> 'g StreamAdapter" where
  "feedToolCard env resp tag rollout step a =
    (if sa_contentStarted a then ([], a)
     else if sa_summaryMode a then
       (let (ls, a) = summarizeToolUsageSummary env resp rollout step a in appendLines env ls rollout tag step a)
     else (let line = formatToolCard env resp rollout
           in if line = '''' then ([], a)
              else appendReasoning env line rollout tag step (if rollout \<noteq> '''' then a\<lparr>sa_lastRollout := rollout\<rparr> else a)))"

text \<open>The part of \<open>Feed\<close> from the token on.\<close>

definition feedToken :: "'g AdapterEnv \<Rightarrow> jobj \<Rightarrow> 'g StreamAdapter \<Rightarrow> FrameEvent list \<times> 'g StreamAdapter" where
  "feedToken env resp a =
    (let think = boolFromAny (jget resp ''isThinking''); tag = stringFromAny (ae_json env) (jget resp ''messageTag'');
         rollout = stringFromAny (ae_json env) (jget resp ''rolloutId''); step = jsonInt (jget resp ''messageStepId'')
     in if tag = ''tool_usage_card'' then feedToolCard env resp tag rollout step a
        else if tag = ''raw_function_result'' then ([], a)
        else if map_of resp ''toolUsageCardId'' \<noteq> None \<and> jget resp ''webSearchResults'' = JNull \<and> jget resp ''codeExecutionResult'' = JNull
        then ([], a)
        else (case map_of resp ''token'' of
                Some token \<Rightarrow>
                  if think then feedThinking env (sprintJson (ae_json env) token) tag rollout step a
                  else if tag = ''final'' then feedFinal env (sprintJson (ae_json env) token) a
                  else if boolFromAny (jget resp ''isSoftStop'') \<or> truthyAny (jget resp ''finalMetadata'')
                  then (let (evs, a) = flushPendingReasoning env a in (evs @ [EvSoftStop], a))
                  else ([], a)
              | None \<Rightarrow>
                  if boolFromAny (jget resp ''isSoftStop'') \<or> truthyAny (jget resp ''finalMetadata'')
                  then (let (evs, a) = flushPendingReasoning env a in (evs @ [EvSoftStop], a))
                  else ([], a)))"

text \<open>The events of the images of a line.\<close>

definition feedImages :: "'g AdapterEnv \<Rightarrow> jobj \<Rightarrow> jobj \<Rightarrow> 'g StreamAdapter \<Rightarrow> FrameEvent list \<times> 'g StreamAdapter" where
  "feedImages env obj resp a =
    (let (cards, a) = (case asObj (jget resp ''cardAttachment'') of None \<Rightarrow> ([], a) | Some c \<Rightarrow> if c = [] then ([], a) else handleCard env c a);
         (stream, a) = (case ExtractStreamingImageEditResponse obj of None \<Rightarrow> ([], a) | Some s \<Rightarrow> handleStreamingImageGeneration env s a);
         (edits, a) = addImages env (ExtractModelResponseImageEditURLs obj) a
     in (cards @ stream @ edits, a))"

definition FeedAdapter :: "'g AdapterEnv \<Rightarrow> string \<Rightarrow> 'g StreamAdapter \<Rightarrow> (goerr + FrameEvent list) \<times> 'g StreamAdapter" where
  "FeedAdapter env data a =
    (case jo_unmarshal (ae_json env) data of
       Some (JObj obj) \<Rightarrow>
         (case StreamErrorFromPayload (ae_json env) obj of
            Some e \<Rightarrow> (Inl e, a)
          | None \<Rightarrow>
              (case nestedMap obj [''result'', ''response''] of
                 None \<Rightarrow> (Inr [], a)
               | Some resp \<Rightarrow>
                   if resp = [] then (Inr [], a)
                   else (let (images, a) = feedImages env obj resp a; a = collectSearchResults env resp a;
                             (evs, a) = feedToken env resp a
                         in (Inr (images @ evs), a))))
     | _ \<Rightarrow> (Inr [], a))"

end
