(* ===== verification/ToolSieve.thy ===== *)
theory ToolSieve
  imports GoStrings "HOL-Library.Sublist"
begin

text \<open>
  The sieve that keeps tool-call markup out of a streamed answer (\<open>app/products/openai/tool_sieve.go\<close>): text
  goes through until an opening tag, the block up to the closing tag is held back and parsed. The two regular
  expressions are written out over bytes: letters match in both cases, and \<open>s\<close> also matches the long s
  (bytes C5 BF), as Go folds it. The parser of a block (\<open>protocol.ParseToolCalls\<close>) is an argument: it answers
  whether it saw tool syntax, and the calls.
\<close>

section \<open>Tags\<close>

fun stripFold :: "string \<Rightarrow> string \<Rightarrow> string option" where
  "stripFold [] s = Some s"
| "stripFold (p # ps) [] = None"
| "stripFold (p # ps) (c # cs) = (if lowerChar c = p then stripFold ps cs else None)"

definition stripS :: "string \<Rightarrow> string option" where
  "stripS s =
    (case s of
       [] \<Rightarrow> None
     | c # cs \<Rightarrow>
         if lowerChar c = CHR ''s'' then Some cs
         else (case cs of
           [] \<Rightarrow> None
         | d # ds \<Rightarrow> if byteOf c = 197 \<and> byteOf d = 191 then Some ds else None))"

definition isBlank :: "char \<Rightarrow> bool" where
  "isBlank c \<longleftrightarrow> byteOf c \<in> {9, 10, 12, 13, 32}"

text \<open>What is left after a tag at the start of the text.\<close>

definition openRest :: "string \<Rightarrow> string option" where
  "openRest s = (case stripFold ''<tool_call'' s of None \<Rightarrow> None | Some r \<Rightarrow> stripS r)"

definition closeRest :: "string \<Rightarrow> string option" where
  "closeRest s =
    (case stripFold ''</tool_call'' s of
       None \<Rightarrow> None
     | Some r \<Rightarrow>
         (case stripS r of
            None \<Rightarrow> None
          | Some r \<Rightarrow> (case dropWhile isBlank r of [] \<Rightarrow> None | c # cs \<Rightarrow> if c = CHR ''>'' then Some cs else None)))"

text \<open>The leftmost opening tag: the text before it, and the text from it on.\<close>

fun splitOpen :: "string \<Rightarrow> (string \<times> string) option" where
  "splitOpen [] = None"
| "splitOpen (c # cs) =
    (if openRest (c # cs) \<noteq> None then Some ([], c # cs)
     else map_option (\<lambda>(a, b). (c # a, b)) (splitOpen cs))"

text \<open>The text up to the end of the leftmost closing tag.\<close>

fun takeClose :: "string \<Rightarrow> string option" where
  "takeClose [] = None"
| "takeClose (c # cs) =
    (case closeRest (c # cs) of
       Some r \<Rightarrow> Some (take (length (c # cs) - length r) (c # cs))
     | None \<Rightarrow> map_option ((#) c) (takeClose cs))"

text \<open>The longest suffix that is a proper prefix of the pattern, tried from the longest on.\<close>

fun boundaryFrom :: "nat \<Rightarrow> string \<Rightarrow> string \<Rightarrow> string \<times> string" where
  "boundaryFrom 0 text1 pre = (text1, [])"
| "boundaryFrom (Suc i) text1 pre =
    (if suffix (take (Suc i) pre) text1
     then (take (length text1 - Suc i) text1, drop (length text1 - Suc i) text1)
     else boundaryFrom i text1 pre)"

definition splitAtBoundary :: "string \<Rightarrow> string \<Rightarrow> string \<times> string" where
  "splitAtBoundary text1 pre = boundaryFrom (min (length pre - 1) (length text1)) text1 pre"

section \<open>The sieve\<close>

record ParsedToolCall =
  tc_id :: string
  tc_name :: string
  tc_arguments :: string

type_synonym toolParser = "string \<Rightarrow> string list \<Rightarrow> bool \<times> ParsedToolCall list"

definition maxToolSieveBufferBytes :: nat where
  "maxToolSieveBufferBytes = 65536"

record ToolSieve =
  ts_names :: "string list"
  ts_buf :: string
  ts_capturing :: bool
  ts_done :: bool

definition NewToolSieve :: "string list \<Rightarrow> ToolSieve" where
  "NewToolSieve names = \<lparr>ts_names = names, ts_buf = '''', ts_capturing = False, ts_done = False\<rparr>"

text \<open>No calls stands for a nil slice.\<close>

definition feedCapturing :: "toolParser \<Rightarrow> string \<Rightarrow> ToolSieve \<Rightarrow> (string \<times> ParsedToolCall list option) \<times> ToolSieve" where
  "feedCapturing parse chunk1 s =
    (let s = s\<lparr>ts_buf := ts_buf s @ chunk1\<rparr>
     in if length (ts_buf s) > maxToolSieveBufferBytes
        then (('''', None), s\<lparr>ts_buf := '''', ts_capturing := False, ts_done := True\<rparr>)
        else (case takeClose (ts_buf s) of
          None \<Rightarrow> (('''', None), s)
        | Some block \<Rightarrow>
            let (saw, calls) = parse block (ts_names s)
            in (('''', if saw then Some calls else None), s\<lparr>ts_buf := '''', ts_capturing := False, ts_done := True\<rparr>)))"

definition feedScanning :: "toolParser \<Rightarrow> string \<Rightarrow> ToolSieve \<Rightarrow> (string \<times> ParsedToolCall list option) \<times> ToolSieve" where
  "feedScanning parse chunk1 s =
    (let combined = ts_buf s @ chunk1; s = s\<lparr>ts_buf := ''''\<rparr>
     in case splitOpen combined of
          None \<Rightarrow> (let (safe, leftover) = splitAtBoundary combined ''<tool_calls'' in ((safe, None), s\<lparr>ts_buf := leftover\<rparr>))
        | Some (safe, rest) \<Rightarrow>
            (let ((capSafe, calls), s1) = feedCapturing parse '''' (s\<lparr>ts_buf := rest, ts_capturing := True\<rparr>)
             in ((safe @ capSafe, calls), s1)))"

definition FeedSieve :: "toolParser \<Rightarrow> string \<Rightarrow> ToolSieve \<Rightarrow> (string \<times> ParsedToolCall list option) \<times> ToolSieve" where
  "FeedSieve parse chunk1 s =
    (if ts_done s \<or> chunk1 = '''' then (if ts_capturing s then ('''', None) else (chunk1, None), s)
     else if ts_capturing s then feedCapturing parse chunk1 s
     else feedScanning parse chunk1 s)"

definition FlushSieve :: "toolParser \<Rightarrow> ToolSieve \<Rightarrow> ParsedToolCall list option \<times> ToolSieve" where
  "FlushSieve parse s =
    (if ts_done s \<or> ts_buf s = '''' then (None, s)
     else let (saw, calls) = parse (ts_buf s) (ts_names s)
          in (if saw then Some calls else None, s\<lparr>ts_done := True, ts_buf := ''''\<rparr>))"

definition suppressToolSyntax :: "toolParser \<Rightarrow> string \<Rightarrow> string" where
  "suppressToolSyntax parse text1 = fst (fst (FeedSieve parse text1 (NewToolSieve [])))"

text \<open>A stream of chunks: the text that comes out, and the calls, in order.\<close>

fun feedAll :: "toolParser \<Rightarrow> string list \<Rightarrow> ToolSieve \<Rightarrow> (string \<times> ParsedToolCall list list) \<times> ToolSieve" where
  "feedAll parse [] s = (([], []), s)"
| "feedAll parse (x # xs) s =
    (let ((safe, calls), s1) = FeedSieve parse x s; ((rest, more), s2) = feedAll parse xs s1
     in ((safe @ rest, (case calls of None \<Rightarrow> [] | Some cs \<Rightarrow> [cs]) @ more), s2))"

end
