(* ===== verification/TextRun.thy ===== *)
theory TextRun
  imports ChatAdapter ToolSieve
begin

text \<open>
  Runs over the lines of a chat stream (\<open>products/openai\<close>: \<open>text_run_stream.go\<close>, \<open>chat_consume.go\<close>, \<open>chat_response.go\<close>):
  the events of the adapter with tool blocks taken out of the text, the frames a streaming client receives, and the
  answer of a client that does not stream. Arguments, beside those of the adapter, are the parser of tool blocks, the
  download of images and the estimates of tokens. A frame stands for its JSON document.
\<close>

section \<open>Runs\<close>

record 'g TextEnv =
  te_adapter :: "'g AdapterEnv"
  te_parse :: toolParser
  te_resolve :: "string \<Rightarrow> string \<Rightarrow> string \<Rightarrow> goerr + string"
  te_tokens :: "string \<Rightarrow> int"
  te_callTokens :: "ParsedToolCall list \<Rightarrow> int"

record textRunOptions =
  tr_token :: string
  tr_emitThinking :: bool
  tr_thinkingSummary :: bool
  tr_showSources :: bool
  tr_toolNames :: "string list"
  tr_disableTools :: bool
  tr_enableSieve :: bool
  tr_stopAfterCall :: bool

record textRunState =
  ru_text :: string
  ru_thinking :: string
  ru_imageTexts :: "string list"
  ru_references :: string
  ru_annotations :: "UrlCitation list"
  ru_sources :: "(json \<times> string \<times> string) list"
  ru_calls :: "ParsedToolCall list"
  ru_suppressed :: bool

datatype textRunEvent = RvThinking string | RvText string | RvAnnotation UrlCitation | RvTools "ParsedToolCall list"

record 'g textRun =
  tr_options :: textRunOptions
  tr_adapter :: "'g StreamAdapter"
  tr_out :: "textRunEvent list"
  tr_sieve :: "ToolSieve option"
  tr_called :: bool
  tr_done :: bool

definition newTextRun :: "'g TextEnv \<Rightarrow> textRunOptions \<Rightarrow> 'g textRun" where
  "newTextRun env opts =
    \<lparr>tr_options = opts, tr_adapter = NewStreamAdapter (te_adapter env) (tr_thinkingSummary opts) (tr_showSources opts), tr_out = [],
     tr_sieve = (if tr_enableSieve opts \<and> (tr_toolNames opts \<noteq> [] \<or> tr_disableTools opts) then Some (NewToolSieve (tr_toolNames opts)) else None),
     tr_called = False, tr_done = False\<rparr>"

definition emitRun :: "textRunEvent \<Rightarrow> 'g textRun \<Rightarrow> 'g textRun" where
  "emitRun ev c = c\<lparr>tr_out := tr_out c @ [ev]\<rparr>"

definition emitText :: "string \<Rightarrow> 'g textRun \<Rightarrow> 'g textRun" where
  "emitText text1 c = (if text1 \<noteq> '''' then emitRun (RvText text1) c else c)"

definition consumeTextEvent :: "'g TextEnv \<Rightarrow> string \<Rightarrow> 'g textRun \<Rightarrow> 'g textRun" where
  "consumeTextEvent env text1 c =
    (case tr_sieve c of
       None \<Rightarrow> emitText text1 c
     | Some s \<Rightarrow>
         (let ((safe, calls), s) = FeedSieve (te_parse env) text1 s; c = emitText safe (c\<lparr>tr_sieve := Some s\<rparr>)
          in case calls of
               None \<Rightarrow> c
             | Some cs \<Rightarrow> if tr_disableTools (tr_options c) then c else (emitRun (RvTools cs) c)\<lparr>tr_called := True\<rparr>))"

definition consumeEvent :: "'g TextEnv \<Rightarrow> FrameEvent \<Rightarrow> 'g textRun \<Rightarrow> 'g textRun" where
  "consumeEvent env ev c =
    (case ev of
       EvThinking t rollout tag step \<Rightarrow> if tr_emitThinking (tr_options c) \<and> t \<noteq> '''' then emitRun (RvThinking t) c else c
     | EvText t \<Rightarrow> consumeTextEvent env t c
     | EvAnnotation a \<Rightarrow> emitRun (RvAnnotation a) c
     | _ \<Rightarrow> c)"

definition stopsNow :: "'g textRun \<Rightarrow> bool" where
  "stopsNow c \<longleftrightarrow> tr_called c \<and> tr_stopAfterCall (tr_options c)"

fun consumeEvents :: "'g TextEnv \<Rightarrow> FrameEvent list \<Rightarrow> 'g textRun \<Rightarrow> 'g textRun" where
  "consumeEvents env [] c = c"
| "consumeEvents env (ev # evs) c =
    (if stopsNow c then consumeEvents env evs c
     else (let c = consumeEvent env ev c in if stopsNow c then c\<lparr>tr_done := True\<rparr> else consumeEvents env evs c))"

text \<open>The error or the run after a line. The events it added are the end of \<open>tr_out\<close>.\<close>

definition ConsumeLine :: "'g TextEnv \<Rightarrow> string \<Rightarrow> 'g textRun \<Rightarrow> goerr option \<times> 'g textRun" where
  "ConsumeLine env line c =
    (if tr_done c then (None, c)
     else (case ClassifyLine line of
             LineDone \<Rightarrow> (None, c\<lparr>tr_done := True\<rparr>)
           | LineSkip \<Rightarrow> (None, c)
           | LineData data \<Rightarrow>
               if data = '''' then (None, c)
               else (case FeedAdapter (te_adapter env) data (tr_adapter c) of
                       (Inl e, a) \<Rightarrow> (Some e, c\<lparr>tr_adapter := a\<rparr>)
                     | (Inr evs, a) \<Rightarrow> (None, consumeEvents env evs (c\<lparr>tr_adapter := a\<rparr>)))))"

fun firstTools :: "textRunEvent list \<Rightarrow> ParsedToolCall list" where
  "firstTools [] = []"
| "firstTools (RvTools cs # evs) = cs"
| "firstTools (ev # evs) = firstTools evs"

definition resolvedImages :: "'g TextEnv \<Rightarrow> string \<Rightarrow> (string \<times> string) list \<Rightarrow> string list" where
  "resolvedImages env token =
    List.map_filter (\<lambda>(url, uuid). case te_resolve env token url uuid of Inl e \<Rightarrow> None | Inr t \<Rightarrow> if t \<noteq> '''' then Some t else None)"

definition flushRun :: "'g TextEnv \<Rightarrow> 'g textRun \<Rightarrow> 'g textRun" where
  "flushRun env c =
    (case tr_sieve c of
       None \<Rightarrow> c
     | Some s \<Rightarrow>
         if tr_called c \<or> tr_disableTools (tr_options c) then c
         else (let (calls, s) = FlushSieve (te_parse env) s; c = c\<lparr>tr_sieve := Some s\<rparr>
               in case calls of None \<Rightarrow> c | Some cs \<Rightarrow> (emitRun (RvTools cs) c)\<lparr>tr_called := True\<rparr>))"

definition runState :: "'g TextEnv \<Rightarrow> 'g textRun \<Rightarrow> textRunState" where
  "runState env c =
    (let a = tr_adapter c; opts = tr_options c; text1 = concat (sa_textBuf a)
     in \<lparr>ru_text = (if tr_disableTools opts then suppressToolSyntax (te_parse env) text1 else text1),
         ru_thinking = (if tr_emitThinking opts then concat (sa_thinkingBuf a) else ''''),
         ru_imageTexts = resolvedImages env (tr_token opts) (sa_imageURLs a),
         ru_references = ReferencesSuffix (te_adapter env) a,
         ru_annotations = sa_annotations a,
         ru_sources = SearchSourcesList (te_adapter env) a,
         ru_calls = (if tr_called c then firstTools (tr_out c) else []),
         ru_suppressed = tr_disableTools opts\<rparr>)"

definition FinishRun :: "'g TextEnv \<Rightarrow> 'g textRun \<Rightarrow> textRunState \<times> 'g textRun" where
  "FinishRun env c = (let c = flushRun env c in (runState env c, c))"

fun consumeRun :: "'g TextEnv \<Rightarrow> string list \<Rightarrow> 'g textRun \<Rightarrow> goerr + 'g textRun" where
  "consumeRun env [] c = Inr c"
| "consumeRun env (l # ls) c =
    (case ConsumeLine env l c of
       (Some e, c) \<Rightarrow> Inl e
     | (None, c) \<Rightarrow> if tr_done c then Inr c else consumeRun env ls c)"

definition consumeTextRunLines :: "'g TextEnv \<Rightarrow> string list \<Rightarrow> textRunOptions \<Rightarrow> goerr + textRunState \<times> textRunEvent list" where
  "consumeTextRunLines env ls opts =
    (case consumeRun env ls (newTextRun env opts) of
       Inl e \<Rightarrow> Inl e
     | Inr c \<Rightarrow> (let (st, c) = FinishRun env c in Inr (st, tr_out c)))"

section \<open>Chat frames\<close>

datatype chatFrame =
    CfText string
  | CfThinking string
  | CfTool nat ParsedToolCall
  | CfToolDone
  | CfFinal "UrlCitation list" "(json \<times> string \<times> string) list"
  | CfDone

record consumeChatOptions =
  cc_token :: string
  cc_emitThink :: bool
  cc_isStream :: bool
  cc_toolNames :: "string list"
  cc_disableTools :: bool

record 'g chatConsumer =
  ch_options :: consumeChatOptions
  ch_run :: "'g textRun"
  ch_called :: bool
  ch_cursor :: nat
  ch_done :: bool

definition chatTextOptions :: "consumeChatOptions \<Rightarrow> textRunOptions" where
  "chatTextOptions opts =
    \<lparr>tr_token = cc_token opts, tr_emitThinking = cc_emitThink opts, tr_thinkingSummary = cc_emitThink opts, tr_showSources = True,
     tr_toolNames = cc_toolNames opts, tr_disableTools = cc_disableTools opts, tr_enableSieve = cc_isStream opts, tr_stopAfterCall = False\<rparr>"

definition newChatConsumer :: "'g TextEnv \<Rightarrow> consumeChatOptions \<Rightarrow> 'g chatConsumer" where
  "newChatConsumer env opts =
    \<lparr>ch_options = opts, ch_run = newTextRun env (chatTextOptions opts), ch_called = False, ch_cursor = 0, ch_done = False\<rparr>"

definition appendToolCallFrames :: "ParsedToolCall list \<Rightarrow> chatFrame list" where
  "appendToolCallFrames calls = map (\<lambda>(i, call). CfTool i call) (enumerate 0 calls) @ [CfToolDone, CfDone]"

text \<open>The frames of events, and whether tool calls have been sent.\<close>

fun framesForEvents :: "consumeChatOptions \<Rightarrow> textRunEvent list \<Rightarrow> bool \<Rightarrow> chatFrame list \<times> bool" where
  "framesForEvents opts [] called = ([], called)"
| "framesForEvents opts (ev # evs) called =
    (if \<not> cc_isStream opts then ([], called)
     else if called then framesForEvents opts evs called
     else (let (fs, called) =
                 (case ev of
                    RvText t \<Rightarrow> (if t = '''' then [] else [CfText t], False)
                  | RvThinking t \<Rightarrow> (if cc_emitThink opts \<and> t \<noteq> '''' then [CfThinking t] else [], False)
                  | RvTools calls \<Rightarrow> (appendToolCallFrames calls, True)
                  | RvAnnotation a \<Rightarrow> ([], False));
               (further, called) = framesForEvents opts evs called
           in (fs @ further, called)))"

definition ConsumeChat :: "'g TextEnv \<Rightarrow> string \<Rightarrow> 'g chatConsumer \<Rightarrow> (goerr + chatFrame list) \<times> 'g chatConsumer" where
  "ConsumeChat env line c =
    (case ConsumeLine env line (ch_run c) of
       (Some e, r) \<Rightarrow> (Inl e, c\<lparr>ch_run := r\<rparr>)
     | (None, r) \<Rightarrow>
         (let evs = drop (length (tr_out (ch_run c))) (tr_out r); (frames, called) = framesForEvents (ch_options c) evs (ch_called c)
          in (Inr frames, c\<lparr>ch_run := r, ch_done := tr_done r, ch_called := called, ch_cursor := ch_cursor c + length evs\<rparr>)))"

definition FinishChat :: "'g TextEnv \<Rightarrow> 'g chatConsumer \<Rightarrow> textRunState \<times> chatFrame list" where
  "FinishChat env c =
    (let (st, r) = FinishRun env (ch_run c);
         (frames, called) = (if ch_cursor c < length (tr_out r) then framesForEvents (ch_options c) (drop (ch_cursor c) (tr_out r)) (ch_called c)
                             else ([], ch_called c))
     in (st, frames @ (if cc_isStream (ch_options c) \<and> \<not> called then [CfFinal (ru_annotations st) (ru_sources st), CfDone] else [])))"

fun consumeChat :: "'g TextEnv \<Rightarrow> string list \<Rightarrow> 'g chatConsumer \<Rightarrow> goerr + chatFrame list \<times> 'g chatConsumer" where
  "consumeChat env [] c = Inr ([], c)"
| "consumeChat env (l # ls) c =
    (case ConsumeChat env l c of
       (Inl e, c) \<Rightarrow> Inl e
     | (Inr frames, c) \<Rightarrow>
         if ch_done c then Inr (frames, c)
         else (case consumeChat env ls c of Inl e \<Rightarrow> Inl e | Inr (further, c) \<Rightarrow> Inr (frames @ further, c)))"

definition consumeChatLines :: "'g TextEnv \<Rightarrow> string list \<Rightarrow> consumeChatOptions \<Rightarrow> goerr + textRunState \<times> chatFrame list" where
  "consumeChatLines env ls opts =
    (case consumeChat env ls (newChatConsumer env opts) of
       Inl e \<Rightarrow> Inl e
     | Inr (frames, c) \<Rightarrow> (let (st, final) = FinishChat env c in Inr (st, frames @ final)))"

text \<open>The path of \<open>runChatCompletionAttempt\<close> that writes each frame as it comes: the frames written, and how it ended.\<close>

fun consumeIncremental :: "'g TextEnv \<Rightarrow> string list \<Rightarrow> 'g chatConsumer \<Rightarrow> chatFrame list \<times> (goerr + 'g chatConsumer)" where
  "consumeIncremental env [] c = ([], Inr c)"
| "consumeIncremental env (l # ls) c =
    (case ConsumeChat env l c of
       (Inl e, c) \<Rightarrow> ([], Inl e)
     | (Inr frames, c) \<Rightarrow> (let (further, r) = consumeIncremental env ls c in (frames @ further, r)))"

definition chatIncremental :: "'g TextEnv \<Rightarrow> string list \<Rightarrow> consumeChatOptions \<Rightarrow> chatFrame list \<times> goerr option" where
  "chatIncremental env ls opts =
    (case consumeIncremental env ls (newChatConsumer env opts) of
       (frames, Inl e) \<Rightarrow> (frames, Some e)
     | (frames, Inr c) \<Rightarrow> (frames @ snd (FinishChat env c), None))"

section \<open>The answer of a client that does not stream\<close>

record tokenUsage =
  us_prompt :: int
  us_completion :: int
  us_all :: int
  us_reasoning :: int

definition BuildUsage :: "int \<Rightarrow> int \<Rightarrow> int \<Rightarrow> tokenUsage" where
  "BuildUsage prompt completion reasoning =
    (let pt = max 0 prompt; ct = max 0 completion in \<lparr>us_prompt = pt, us_completion = ct, us_all = pt + ct, us_reasoning = max 0 reasoning\<rparr>)"

definition EstimatePromptTokens :: "'g TextEnv \<Rightarrow> string \<Rightarrow> int" where
  "EstimatePromptTokens env text1 = (let base = te_tokens env text1 in if base \<le> 0 then 0 else base + 4)"

datatype chatAnswer =
    TextAnswer string string "UrlCitation list" "(json \<times> string \<times> string) list" tokenUsage
  | ToolAnswer "ParsedToolCall list" "(json \<times> string \<times> string) list" tokenUsage

fun appendImageTexts :: "string \<Rightarrow> string list \<Rightarrow> string" where
  "appendImageTexts text1 [] = text1"
| "appendImageTexts text1 (i # is) =
    (if i = '''' then appendImageTexts text1 is
     else appendImageTexts ((if text1 \<noteq> '''' then text1 @ [CHR 0x0A, CHR 0x0A] else text1) @ i) is)"

definition fullText :: "textRunState \<Rightarrow> string" where
  "fullText st = appendImageTexts (ru_text st) (ru_imageTexts st) @ ru_references st"

definition buildNonStreamChatResponse :: "'g TextEnv \<Rightarrow> textRunState \<Rightarrow> string \<Rightarrow> bool \<Rightarrow> string list \<Rightarrow> chatAnswer" where
  "buildNonStreamChatResponse env st message emitThink toolNames =
    (let text1 = fullText st; thinking = (if emitThink then ru_thinking st else ''''); calls = snd (te_parse env text1 toolNames)
     in if toolNames \<noteq> [] \<and> calls \<noteq> []
        then ToolAnswer calls (ru_sources st) (BuildUsage (EstimatePromptTokens env message) (te_callTokens env calls) 0)
        else (let reasoning = (if thinking \<noteq> '''' then te_tokens env thinking else 0)
              in TextAnswer text1 thinking (ru_annotations st) (ru_sources st)
                   (BuildUsage (EstimatePromptTokens env message) (te_tokens env text1 + reasoning) reasoning)))"

end
