(* ===== verification/ChatAdapterProps.thy ===== *)
theory ChatAdapterProps
  imports ChatAdapter
begin

text \<open>
  What the events of the chat adapter have to do with its buffers: the text, the images and the annotations it keeps
  are those of its events, an annotation gives the place of its citation in the text, and without a summary no
  reasoning comes after the answer has begun.
\<close>

section \<open>Events\<close>

definition textsOf :: "FrameEvent list \<Rightarrow> string list" where
  "textsOf = List.map_filter (\<lambda>ev. case ev of EvText t \<Rightarrow> Some t | _ \<Rightarrow> None)"

definition annotationsOf :: "FrameEvent list \<Rightarrow> UrlCitation list" where
  "annotationsOf = List.map_filter (\<lambda>ev. case ev of EvAnnotation c \<Rightarrow> Some c | _ \<Rightarrow> None)"

definition imagesOf :: "FrameEvent list \<Rightarrow> (string \<times> string) list" where
  "imagesOf = List.map_filter (\<lambda>ev. case ev of EvImage u i \<Rightarrow> Some (u, i) | _ \<Rightarrow> None)"

primrec isThinking :: "FrameEvent \<Rightarrow> bool" where
  "isThinking (EvThinking t rollout tag step) = True"
| "isThinking (EvText t) = False"
| "isThinking (EvAnnotation c) = False"
| "isThinking (EvImage u i) = False"
| "isThinking (EvProgress p i) = False"
| "isThinking EvSoftStop = False"

text \<open>No reasoning after a text.\<close>

fun thinkingFirst :: "FrameEvent list \<Rightarrow> bool" where
  "thinkingFirst [] = True"
| "thinkingFirst (EvText t # evs) = list_all (\<lambda>ev. \<not> isThinking ev) evs"
| "thinkingFirst (ev # evs) = thinkingFirst evs"

lemma map_filter_append: "List.map_filter f (xs @ ys) = List.map_filter f xs @ List.map_filter f ys"
  by (simp add: List.map_filter_def)

lemma events_append [simp]:
  "textsOf (xs @ ys) = textsOf xs @ textsOf ys" "annotationsOf (xs @ ys) = annotationsOf xs @ annotationsOf ys"
  "imagesOf (xs @ ys) = imagesOf xs @ imagesOf ys"
  by (simp_all add: textsOf_def annotationsOf_def imagesOf_def map_filter_append)

lemma events_Nil [simp]: "textsOf [] = []" "annotationsOf [] = []" "imagesOf [] = []"
  by (simp_all add: textsOf_def annotationsOf_def imagesOf_def List.map_filter_def)

lemma events_Cons [simp]:
  "textsOf (ev # evs) = (case ev of EvText t \<Rightarrow> [t] | _ \<Rightarrow> []) @ textsOf evs"
  "annotationsOf (ev # evs) = (case ev of EvAnnotation c \<Rightarrow> [c] | _ \<Rightarrow> []) @ annotationsOf evs"
  "imagesOf (ev # evs) = (case ev of EvImage u i \<Rightarrow> [(u, i)] | _ \<Rightarrow> []) @ imagesOf evs"
  by (cases ev; simp add: textsOf_def annotationsOf_def imagesOf_def List.map_filter_def)+

lemma events_anns [simp]:
  "textsOf (map EvAnnotation cs) = []" "annotationsOf (map EvAnnotation cs) = cs" "imagesOf (map EvAnnotation cs) = []"
  by (induction cs) simp_all

lemma thinkingFirst_none: "list_all (\<lambda>ev. \<not> isThinking ev) evs \<Longrightarrow> thinkingFirst evs"
  by (induction evs rule: thinkingFirst.induct) auto

lemma thinkingFirst_quiet: "textsOf evs = [] \<Longrightarrow> thinkingFirst (evs @ evs2) = thinkingFirst evs2"
proof (induction evs)
  case (Cons ev evs)
  then show ?case by (cases ev) auto
qed simp

lemma thinkingFirst_append:
  "thinkingFirst evs \<Longrightarrow> thinkingFirst evs2 \<Longrightarrow> (textsOf evs \<noteq> [] \<Longrightarrow> list_all (\<lambda>ev. \<not> isThinking ev) evs2) \<Longrightarrow> thinkingFirst (evs @ evs2)"
proof (induction evs)
  case (Cons ev evs)
  then show ?case by (cases ev) auto
qed simp

lemma thinkingFirst_tail: "thinkingFirst (xs @ ys) \<Longrightarrow> textsOf xs \<noteq> [] \<Longrightarrow> list_all (\<lambda>ev. \<not> isThinking ev) ys"
proof (induction xs)
  case (Cons x xs)
  then show ?case by (cases x) auto
qed simp

lemma thinkingFirst_front: "thinkingFirst (xs @ ys) \<Longrightarrow> thinkingFirst xs"
proof (induction xs)
  case (Cons x xs)
  then show ?case by (cases x) auto
qed simp

section \<open>What leaves the answer alone\<close>

text \<open>Everything but the token of an answer.\<close>

definition quiet :: "FrameEvent list \<Rightarrow> 'g StreamAdapter \<Rightarrow> 'g StreamAdapter \<Rightarrow> bool" where
  "quiet evs a b \<longleftrightarrow> textsOf evs = [] \<and> annotationsOf evs = [] \<and> sa_textBuf b = sa_textBuf a \<and> sa_textOffset b = sa_textOffset a \<and>
    sa_annotations b = sa_annotations a \<and> sa_imageURLs b = sa_imageURLs a @ imagesOf evs \<and>
    sa_contentStarted b = sa_contentStarted a \<and> sa_pending b = sa_pending a \<and> sa_summaryMode b = sa_summaryMode a \<and>
    sa_showSources b = sa_showSources a \<and>
    (sa_contentStarted a \<and> \<not> sa_summaryMode a \<longrightarrow> list_all (\<lambda>ev. \<not> isThinking ev) evs)"

lemma quiet_refl [simp]: "quiet [] a a"
  by (simp add: quiet_def)

lemma quiet_trans: "quiet evs a b \<Longrightarrow> quiet evs2 b c \<Longrightarrow> quiet (evs @ evs2) a c"
  by (auto simp: quiet_def)

lemma addImage_quiet: "addImage u i a = (evs, b) \<Longrightarrow> quiet evs a b"
  by (auto simp: addImage_def quiet_def split: if_splits)

lemma progress_quiet: "quiet (progressEvent p i) a a"
  by (simp add: progressEvent_def quiet_def split: option.split)

lemma image_quiet: "(if c then addImage u i a else ([], a)) = (evs, b) \<Longrightarrow> quiet (progressEvent p j @ evs) a b"
  using quiet_trans [OF progress_quiet addImage_quiet] quiet_trans [OF progress_quiet quiet_refl] by (auto split: if_splits)

lemma handleChunk_quiet:
  assumes "handleChunk env ch a = (evs, b)"
  shows "quiet evs a b"
proof -
  obtain image c where i: "(if jsonInt (jget ch ''progress'') = Some 100 \<and> \<not> boolFromAny (jget ch ''moderated'')
      then addImage (grokImageURL env (stringFromAny (ae_json env) (jget ch ''imageUrl''))) (stringFromAny (ae_json env) (jget ch ''imageUuid'')) a
      else ([], a)) = (image, c)" by (metis prod.exhaust)
  have "evs = progressEvent (jsonInt (jget ch ''progress'')) (stringFromAny (ae_json env) (jget ch ''imageUuid'')) @ image" "b = c"
    using assms unfolding handleChunk_def Let_def i by simp_all
  then show ?thesis using image_quiet [OF i] by simp
qed

lemma cards_quiet: "quiet evs (a\<lparr>sa_cards := m\<rparr>) b \<Longrightarrow> quiet evs a b"
  by (simp add: quiet_def)

lemma handleCard_quiet:
  assumes "handleCard env c a = (evs, b)"
  shows "quiet evs a b"
proof (cases "stringFromAny (ae_json env) (jget c ''jsonData'') = ''''")
  case True
  then show ?thesis using assms by (simp add: handleCard_def)
next
  case False
  let ?u = "jo_unmarshal (ae_json env) (stringFromAny (ae_json env) (jget c ''jsonData''))"
  show ?thesis
  proof (cases "\<exists>m. ?u = Some (JObj m)")
    case True
    then obtain m where m: "?u = Some (JObj m)" by blast
    let ?a = "a\<lparr>sa_cards := fmupd (stringFromAny (ae_json env) (jget m ''id'')) m (sa_cards a)\<rparr>"
    have "handleCard env c a = (case asObj (jget m ''image_chunk'') of None \<Rightarrow> ([], ?a) | Some ch \<Rightarrow> if ch = [] then ([], ?a) else handleChunk env ch ?a)"
      using False m by (simp add: handleCard_def Let_def)
    then have "(case asObj (jget m ''image_chunk'') of None \<Rightarrow> ([], ?a) | Some ch \<Rightarrow> if ch = [] then ([], ?a) else handleChunk env ch ?a) = (evs, b)"
      using assms by simp
    then have "quiet evs ?a b" by (cases "asObj (jget m ''image_chunk'')") (auto split: if_splits dest: handleChunk_quiet)
    then show ?thesis by (rule cards_quiet)
  next
    case no: False
    have "evs = [] \<and> (b = a \<or> b = a\<lparr>sa_cards := fmdrop '''' (sa_cards a)\<rparr>)"
      using assms False no by (cases ?u rule: option.exhaust; cases "the ?u") (simp_all add: handleCard_def Let_def)
    then show ?thesis by (auto simp: quiet_def)
  qed
qed

lemma stream_quiet:
  assumes "handleStreamingImageGeneration env s a = (evs, b)"
  shows "quiet evs a b"
proof -
  let ?uuid = "firstStringFromAny (ae_json env) [jget s ''imageUuid'', jget s ''assetId'']"
  obtain image c where i: "(if (case jsonInt (jget s ''progress'') of None \<Rightarrow> True | Some p \<Rightarrow> p \<ge> 100) \<and> \<not> boolFromAny (jget s ''moderated'')
      then addImage (grokImageURL env (firstStringFromAny (ae_json env) [jget s ''imageUrl'', jget s ''imageURL'', jget s ''url''])) ?uuid a
      else ([], a)) = (image, c)" by (metis prod.exhaust)
  have "evs = progressEvent (jsonInt (jget s ''progress'')) ?uuid @ image" "b = c"
    using assms unfolding handleStreamingImageGeneration_def Let_def i by (simp_all del: firstStringFromAny.simps)
  then show ?thesis using image_quiet [OF i] by simp
qed

lemma addImages_quiet: "addImages env us a = (evs, b) \<Longrightarrow> quiet evs a b"
proof (induction us arbitrary: a evs b)
  case (Cons u us)
  obtain ev c where c: "addImage (grokImageURL env u) '''' a = (ev, c)" by fastforce
  obtain evs2 d where d: "addImages env us c = (evs2, d)" by fastforce
  have "evs = ev @ evs2" "b = d" using Cons.prems c d by simp_all
  then show ?case using quiet_trans [OF addImage_quiet [OF c] Cons.IH [OF d]] by simp
qed simp

lemma feedImages_quiet: "feedImages env obj resp a = (evs, b) \<Longrightarrow> quiet evs a b"
proof -
  assume f: "feedImages env obj resp a = (evs, b)"
  obtain e1 a1 where 1: "(case asObj (jget resp ''cardAttachment'') of None \<Rightarrow> ([], a) | Some c \<Rightarrow> if c = [] then ([], a) else handleCard env c a) = (e1, a1)"
    by fastforce
  obtain e2 a2 where 2: "(case ExtractStreamingImageEditResponse obj of None \<Rightarrow> ([], a1) | Some s \<Rightarrow> handleStreamingImageGeneration env s a1) = (e2, a2)"
    by fastforce
  obtain e3 a3 where 3: "addImages env (ExtractModelResponseImageEditURLs obj) a2 = (e3, a3)" by fastforce
  have "evs = e1 @ e2 @ e3" "b = a3" using f 1 2 3 unfolding feedImages_def Let_def by simp_all
  moreover have "quiet e1 a a1" using 1 by (auto dest: handleCard_quiet split: option.splits if_splits)
  moreover have "quiet e2 a1 a2" using 2 by (auto dest: stream_quiet split: option.splits)
  ultimately show ?thesis using addImages_quiet [OF 3] quiet_trans by metis
qed

lemma addResult_quiet: "quiet [] a (addResult u item a)"
  by (simp add: addResult_def quiet_def)

lemma collect_quiet: "quiet [] a (collectSearchResults env resp a)"
proof -
  have one: "quiet [] a (fold f xs a)" if "\<And>x a. quiet [] a (f x a)" for f :: "json \<Rightarrow> 'a StreamAdapter \<Rightarrow> 'a StreamAdapter" and xs a
  proof (induction xs arbitrary: a)
    case (Cons x xs)
    have "quiet ([] @ []) a (fold f xs (f x a))" by (rule quiet_trans [OF that Cons.IH])
    then show ?case by simp
  qed simp
  have web: "quiet [] a (webResult env x a)" for x a
    by (simp add: webResult_def Let_def addResult_quiet split: option.split)
  have post: "quiet [] a (postResult env x a)" for x a
    by (simp add: postResult_def Let_def addResult_quiet split: option.split)
  have "quiet ([] @ []) a (collectSearchResults env resp a)"
    unfolding collectSearchResults_def Let_def
    by (rule quiet_trans [where b = "case asObj (jget resp ''webSearchResults'') of None \<Rightarrow> a | Some w \<Rightarrow> fold (webResult env) (anySlice (jget w ''results'')) a"])
      (auto intro!: one web post split: option.split)
  then show ?thesis by simp
qed


lemma appendReasoning_quiet: "\<not> sa_contentStarted a \<or> sa_summaryMode a \<Longrightarrow> appendReasoning env l rollout tag step a = (evs, b) \<Longrightarrow> quiet evs a b"
  by (auto simp: appendReasoning_def Let_def quiet_def split: if_splits)

lemma appendReasoning_mode: "appendReasoning env l rollout tag step a = (evs, b) \<Longrightarrow>
    sa_contentStarted b = sa_contentStarted a \<and> sa_summaryMode b = sa_summaryMode a"
  by (auto simp: appendReasoning_def Let_def split: if_splits)

lemma appendLines_quiet: "\<not> sa_contentStarted a \<or> sa_summaryMode a \<Longrightarrow> appendLines env ls rollout tag step a = (evs, b) \<Longrightarrow> quiet evs a b"
proof (induction ls arbitrary: a evs b)
  case (Cons l ls)
  obtain e1 a1 where 1: "appendReasoning env l rollout tag step a = (e1, a1)" by fastforce
  obtain e2 a2 where 2: "appendLines env ls rollout tag step a1 = (e2, a2)" by fastforce
  have "evs = e1 @ e2" "b = a2" using Cons.prems 1 2 by simp_all
  moreover have "quiet e2 a1 a2" using Cons.IH [OF _ 2] Cons.prems(1) appendReasoning_mode [OF 1] by simp
  ultimately show ?case using quiet_trans [OF appendReasoning_quiet [OF Cons.prems(1) 1]] by simp
qed simp

lemma reasoning_state: "quiet evs (a\<lparr>sa_reasoning := g\<rparr>) b \<Longrightarrow> quiet evs a b" "quiet evs (a\<lparr>sa_lastRollout := r\<rparr>) b \<Longrightarrow> quiet evs a b"
  by (simp_all add: quiet_def)

lemma summary_quiet: "sa_summaryMode a \<Longrightarrow> appendLines env ls rollout tag step (a\<lparr>sa_reasoning := g\<rparr>) = (evs, b) \<Longrightarrow> quiet evs a b"
  by (rule reasoning_state(1) [OF appendLines_quiet]) simp_all

lemma flush_quiet: "flushPendingReasoning env a = (evs, b) \<Longrightarrow> quiet evs a b"
  by (auto simp: flushPendingReasoning_def Let_def split: if_splits prod.splits intro: summary_quiet)

lemma feedToolCard_quiet:
  assumes "feedToolCard env resp tag rollout step a = (evs, b)"
  shows "quiet evs a b"
proof (cases "sa_contentStarted a")
  case True
  then show ?thesis using assms by (simp add: feedToolCard_def)
next
  case False
  show ?thesis
  proof (cases "sa_summaryMode a")
    case True
    obtain ls c where s: "summarizeToolUsageSummary env resp rollout step a = (ls, c)" by fastforce
    have "quiet [] a c" "sa_summaryMode c"
      using s True by (auto simp: summarizeToolUsageSummary_def Let_def quiet_def split: prod.splits if_splits)
    moreover have "appendLines env ls rollout tag step c = (evs, b)" using assms False True s by (simp add: feedToolCard_def)
    ultimately show ?thesis using quiet_trans [OF _ appendLines_quiet, of "[]" a c] by fastforce
  next
    case no: False
    let ?a = "if rollout \<noteq> '''' then a\<lparr>sa_lastRollout := rollout\<rparr> else a"
    have "evs = [] \<and> b = a \<or> appendReasoning env (formatToolCard env resp rollout) rollout tag step ?a = (evs, b)"
      using assms False no by (auto simp: feedToolCard_def Let_def split: if_splits)
    moreover have "quiet evs a b" if "appendReasoning env (formatToolCard env resp rollout) rollout tag step ?a = (evs, b)"
      using appendReasoning_quiet [OF _ that] False by (cases "rollout = ''''") (auto intro: reasoning_state)
    ultimately show ?thesis by auto
  qed
qed

lemma feedThinking_quiet:
  assumes "feedThinking env raw tag rollout step a = (evs, b)"
  shows "quiet evs a b"
proof (cases "sa_contentStarted a")
  case True
  then show ?thesis using assms by (auto simp: feedThinking_def quiet_def split: if_splits)
next
  case False
  show ?thesis
  proof (cases "sa_summaryMode a")
    case True
    then show ?thesis
      using assms False by (auto simp: feedThinking_def Let_def split: prod.splits intro: summary_quiet)
  next
    case no: False
    let ?raw = "if hasPrefix raw ''- '' then trimSpace (drop 2 raw) else raw"
    let ?h = "CHR 0x0A # ''['' @ rollout @ '']'' @ [CHR 0x0A]"
    obtain header c where h: "(if rollout \<noteq> '''' \<and> rollout \<noteq> sa_lastRollout a
        then ([EvThinking ?h rollout '''' None], a\<lparr>sa_lastRollout := rollout, sa_thinkingBuf := sa_thinkingBuf a @ [?h]\<rparr>) else ([], a)) = (header, c)"
      by (metis prod.exhaust)
    have c: "quiet header a c" "\<not> sa_contentStarted c" using h False by (auto simp: quiet_def split: if_splits)
    obtain e2 d where r: "appendReasoning env ?raw rollout tag step c = (e2, d)" by fastforce
    have "evs = [] \<and> b = a \<or> evs = header @ e2 \<and> b = d"
      using assms False no h r unfolding feedThinking_def Let_def by (auto split: if_splits prod.splits)
    then show ?thesis using quiet_trans [OF c(1) appendReasoning_quiet [OF _ r]] c(2) by auto
  qed
qed

section \<open>The answer\<close>

text \<open>A citation at its place in a text.\<close>

definition cited :: "string \<Rightarrow> UrlCitation \<Rightarrow> bool" where
  "cited text1 c \<longleftrightarrow> uc_end c \<le> length text1 \<and>
    (\<exists>i. take (uc_end c - uc_start c) (drop (uc_start c) text1) = citationText i (uc_url c))"

lemma cited_append: "cited t c \<Longrightarrow> cited (t @ u) c"
proof -
  assume c: "cited t c"
  then obtain i where i: "uc_end c \<le> length t" "take (uc_end c - uc_start c) (drop (uc_start c) t) = citationText i (uc_url c)"
    by (auto simp: cited_def)
  have pos: "citationText i (uc_url c) \<noteq> []" by (simp add: citationText_def)
  then have lt: "uc_start c < uc_end c" using i(2) by (cases "uc_start c < uc_end c") auto
  have "drop (uc_start c) (t @ u) = drop (uc_start c) t @ u" using i(1) lt by simp
  moreover have "take (uc_end c - uc_start c) (drop (uc_start c) t @ u) = take (uc_end c - uc_start c) (drop (uc_start c) t)"
    using i(1) lt by simp
  ultimately show ?thesis using i by (auto simp: cited_def)
qed

lemma cited_shift: "cited u c \<Longrightarrow> cited (t @ u) (shiftCitation (length t) c)"
  by (auto simp: cited_def shiftCitation_def)

definition needles :: "pendingCitation list \<Rightarrow> bool" where
  "needles ps \<longleftrightarrow> (\<forall>p \<in> set ps. \<exists>i. pn_needle p = citationText i (pn_url p))"

lemma locate_cited: "needles ps \<Longrightarrow> list_all (cited cleaned) (locateCitations cleaned n ps)"
proof (induction cleaned n ps rule: locateCitations.induct)
  case (2 cleaned n p ps)
  then have ps: "needles ps" and p: "\<exists>i. pn_needle p = citationText i (pn_url p)" by (auto simp: needles_def)
  show ?case
  proof (cases "indexOf (drop n cleaned) (pn_needle p)")
    case None
    then show ?thesis using 2(1) ps by simp
  next
    case (Some rel)
    have ne: "pn_needle p \<noteq> []" using p by (auto simp: citationText_def)
    from indexOf_Some [OF Some] have l: "rel + length (pn_needle p) \<le> length cleaned - n"
      and s: "take (length (pn_needle p)) (drop rel (drop n cleaned)) = pn_needle p" by simp_all
    have "0 < length cleaned - n" using l ne by (cases "pn_needle p") auto
    then have "n + rel + length (pn_needle p) \<le> length cleaned" using l by simp
    moreover have "take (length (pn_needle p)) (drop (n + rel) cleaned) = pn_needle p" using s by (simp add: add.commute)
    ultimately have "cited cleaned \<lparr>uc_url = pn_url p, uc_title = pn_title p, uc_start = n + rel, uc_end = n + rel + length (pn_needle p)\<rparr>"
      using p by (auto simp: cited_def)
    then show ?thesis using 2(2) [OF Some refl refl] ps Some by (simp add: Let_def)
  qed
qed simp

text \<open>What rendering a token may change.\<close>

definition renders :: "'g StreamAdapter \<Rightarrow> 'g StreamAdapter \<Rightarrow> bool" where
  "renders a b \<longleftrightarrow> sa_textBuf b = sa_textBuf a \<and> sa_textOffset b = sa_textOffset a \<and> sa_annotations b = sa_annotations a \<and>
    sa_imageURLs b = sa_imageURLs a \<and> sa_contentStarted b = sa_contentStarted a \<and> sa_summaryMode b = sa_summaryMode a \<and>
    sa_showSources b = sa_showSources a \<and> (needles (sa_pending a) \<longrightarrow> needles (sa_pending b))"

lemma renders_refl [simp]: "renders a a" and renders_trans: "renders a b \<Longrightarrow> renders b c \<Longrightarrow> renders a c"
  by (auto simp: renders_def)

lemma needles_add: "needles ps \<Longrightarrow> needles (ps @ [\<lparr>pn_url = u, pn_title = t, pn_needle = citationText i u\<rparr>])"
  unfolding needles_def by fastforce

lemma inline_renders:
  assumes "renderInlineCitation env c a = (t, b)"
  shows "renders a b"
proof (cases "stringFromAny (ae_json env) (jget c ''url'') = ''''")
  case True
  then show ?thesis using assms by (simp add: renderInlineCitation_def)
next
  case False
  then show ?thesis
    using assms by (auto simp: renderInlineCitation_def Let_def renders_def intro: needles_add split: option.splits if_splits)
qed

lemma replace_renders: "renderReplace env i k a = (t, b) \<Longrightarrow> renders a b"
  by (auto simp: renderReplace_def split: option.splits if_splits dest: inline_renders)

lemma renderAll_renders: "renderAll env s a = (t, b) \<Longrightarrow> renders a b"
proof (induction env s a arbitrary: t b rule: renderAll.induct)
  case (2 env c cs a)
  show ?case
  proof (cases "matchRender (c # cs)")
    case None
    obtain u d where u: "renderAll env cs a = (u, d)" by fastforce
    show ?thesis using 2(1) [OF None u] 2(3) None u by simp
  next
    case (Some m)
    obtain raw rest where m: "m = (raw, rest)" by fastforce
    obtain t1 a1 where t1: "renderReplace env (grokRenderAttr raw ''card_id'') (grokRenderAttr raw ''type'') a = (t1, a1)" by fastforce
    obtain t2 a2 where t2: "renderAll env rest a1 = (t2, a2)" by fastforce
    have "b = a2" using 2(3) Some m t1 t2 by simp
    moreover have "renders a1 a2" using 2(2) [OF Some m [symmetric] refl t1 [symmetric] t2] .
    ultimately show ?thesis using renders_trans [OF replace_renders [OF t1]] by simp
  qed
qed simp


lemma cleanToken_spec:
  assumes "cleanToken env token a = ((cleaned, local), b)" and "sa_pending a = []"
  shows "renders a b \<and> sa_pending b = [] \<and> list_all (cited cleaned) local"
proof (cases "containsStr token ''<grok:render''")
  case False
  then show ?thesis using assms by (simp add: cleanToken_def)
next
  case True
  obtain t c where t: "renderAll env token a = (t, c)" by fastforce
  note r = renderAll_renders [OF t]
  have "needles (sa_pending c)" using r assms(2) by (simp add: renders_def needles_def)
  then show ?thesis
    using assms True t r locate_cited [of "sa_pending c" cleaned 0]
    by (auto simp: cleanToken_def Let_def renders_def needles_def)
qed

text \<open>The adapter after the events \<open>evs\<close>.\<close>

definition adapter_inv :: "bool \<Rightarrow> FrameEvent list \<Rightarrow> 'g StreamAdapter \<Rightarrow> bool" where
  "adapter_inv m evs a \<longleftrightarrow> sa_textBuf a = textsOf evs \<and> sa_textOffset a = length (concat (textsOf evs)) \<and>
    sa_annotations a = annotationsOf evs \<and> sa_imageURLs a = imagesOf evs \<and> sa_pending a = [] \<and>
    list_all (cited (concat (sa_textBuf a))) (sa_annotations a) \<and> (textsOf evs \<noteq> [] \<longrightarrow> sa_contentStarted a) \<and>
    sa_summaryMode a = m \<and> (\<not> m \<longrightarrow> thinkingFirst evs)"

lemma new_inv: "adapter_inv summary [] (NewStreamAdapter env summary sources)"
  by (simp add: adapter_inv_def NewStreamAdapter_def)

lemma quiet_inv:
  assumes "adapter_inv m evs a" and "quiet new a b"
  shows "adapter_inv m (evs @ new) b"
proof -
  have "thinkingFirst (evs @ new)" if "\<not> sa_summaryMode a"
  proof (rule thinkingFirst_append)
    show "thinkingFirst evs" using assms(1) that by (simp add: adapter_inv_def)
    show "thinkingFirst new" using assms(2) thinkingFirst_quiet [of new "[]"] by (simp add: quiet_def)
    show "textsOf evs \<noteq> [] \<Longrightarrow> list_all (\<lambda>ev. \<not> isThinking ev) new" using assms that by (simp add: adapter_inv_def quiet_def)
  qed
  then show ?thesis using assms by (auto simp: adapter_inv_def quiet_def)
qed

lemma final_inv:
  assumes "adapter_inv m evs a" and "feedFinal env token a = (new, b)"
  shows "adapter_inv m (evs @ new) b"
proof -
  let ?a = "a\<lparr>sa_contentStarted := True\<rparr>"
  obtain cleaned local c where c: "cleanToken env token ?a = ((cleaned, local), c)" by (metis prod.exhaust)
  have spec: "renders ?a c" "sa_pending c = []" "list_all (cited cleaned) local"
    using cleanToken_spec [OF c] assms(1) by (simp_all add: adapter_inv_def)
  show ?thesis
  proof (cases "cleaned = ''''")
    case True
    then have "new = []" "b = c" using assms(2) c by (simp_all add: feedFinal_def)
    then show ?thesis using assms(1) spec by (auto simp: adapter_inv_def renders_def)
  next
    case False
    define anns where "anns = map (shiftCitation (sa_textOffset c)) local"
    have new: "new = EvText cleaned # map EvAnnotation anns" and
      b: "b = c\<lparr>sa_textBuf := sa_textBuf c @ [cleaned], sa_annotations := sa_annotations c @ anns, sa_textOffset := sa_textOffset c + length cleaned\<rparr>"
      using assms(2) c False by (simp_all add: feedFinal_def anns_def)
    have first: "thinkingFirst (evs @ new)" if "thinkingFirst evs"
      by (rule thinkingFirst_append [OF that]) (simp_all add: new list_all_iff)
    have old: "list_all (cited (concat (sa_textBuf a) @ cleaned)) (sa_annotations a)"
      using assms(1) cited_append unfolding adapter_inv_def list_all_iff by blast
    have "sa_textOffset c = length (concat (sa_textBuf a))" using assms(1) spec(1) by (simp add: adapter_inv_def renders_def)
    then have "list_all (cited (concat (sa_textBuf a) @ cleaned)) anns"
      using spec(3) cited_shift by (auto simp: anns_def list_all_iff)
    then show ?thesis using assms(1) spec(1,2) old first by (simp add: adapter_inv_def renders_def new b)
  qed
qed

lemma feedToken_inv:
  assumes "adapter_inv m evs a" and "feedToken env resp a = (new, b)"
  shows "adapter_inv m (evs @ new) b"
proof -
  have stop: "adapter_inv m (evs @ e @ [EvSoftStop]) c" if "flushPendingReasoning env a = (e, c)" for e c
  proof -
    have "quiet [EvSoftStop] c c" by (simp add: quiet_def)
    then show ?thesis using quiet_inv [OF assms(1) quiet_trans [OF flush_quiet [OF that]]] by simp
  qed
  have "quiet new a b \<or> feedFinal env (sprintJson (ae_json env) (the (map_of resp ''token''))) a = (new, b) \<or>
      (\<exists>e. flushPendingReasoning env a = (e, b) \<and> new = e @ [EvSoftStop])"
    using assms(2) unfolding feedToken_def Let_def
    by (auto split: if_splits option.splits prod.splits dest: feedToolCard_quiet feedThinking_quiet)
  then show ?thesis using quiet_inv [OF assms(1)] final_inv [OF assms(1)] stop by auto
qed

lemma feed_inv:
  assumes "adapter_inv m evs a" and "FeedAdapter env data a = (Inr new, b)"
  shows "adapter_inv m (evs @ new) b"
proof -
  have "new = [] \<and> b = a \<or> (\<exists>obj resp images a1 e2. feedImages env obj resp a = (images, a1) \<and>
      feedToken env resp (collectSearchResults env resp a1) = (e2, b) \<and> new = images @ e2)"
    using assms(2) unfolding FeedAdapter_def Let_def
    by (auto simp del: nestedMap.simps split: option.splits json.splits if_splits prod.splits) blast+
  then show ?thesis
  proof
    assume "\<exists>obj resp images a1 e2. feedImages env obj resp a = (images, a1) \<and>
      feedToken env resp (collectSearchResults env resp a1) = (e2, b) \<and> new = images @ e2"
    then obtain obj resp images a1 e2 where i: "feedImages env obj resp a = (images, a1)"
      and t: "feedToken env resp (collectSearchResults env resp a1) = (e2, b)" and n: "new = images @ e2" by blast
    have "adapter_inv m (evs @ images) (collectSearchResults env resp a1)"
      using quiet_inv [OF assms(1) quiet_trans [OF feedImages_quiet [OF i] collect_quiet]] by simp
    from feedToken_inv [OF this t] n show ?thesis by simp
  qed (use assms(1) in simp)
qed

lemma feed_error: "FeedAdapter env data a = (Inl e, b) \<Longrightarrow> b = a"
  unfolding FeedAdapter_def Let_def by (auto simp del: nestedMap.simps split: option.splits json.splits if_splits prod.splits)


section \<open>Properties\<close>

text \<open>A stream of lines up to the first error.\<close>

fun feedLines :: "'g AdapterEnv \<Rightarrow> string list \<Rightarrow> 'g StreamAdapter \<Rightarrow> FrameEvent list \<times> 'g StreamAdapter" where
  "feedLines env [] a = ([], a)"
| "feedLines env (d # ds) a =
    (case FeedAdapter env d a of
       (Inl e, b) \<Rightarrow> ([], b)
     | (Inr evs, b) \<Rightarrow> (let (evs2, c) = feedLines env ds b in (evs @ evs2, c)))"

lemma lines_inv: "adapter_inv m evs a \<Longrightarrow> feedLines env ds a = (new, b) \<Longrightarrow> adapter_inv m (evs @ new) b"
proof (induction ds arbitrary: evs a new)
  case (Cons d ds)
  obtain r c where f: "FeedAdapter env d a = (r, c)" by fastforce
  show ?case
  proof (cases r)
    case (Inl e)
    then show ?thesis using Cons.prems f feed_error [of env d a e c] by simp
  next
    case (Inr e1)
    obtain e2 b' where l: "feedLines env ds c = (e2, b')" by fastforce
    then have "new = e1 @ e2" "b' = b" using Cons.prems(2) f Inr by simp_all
    then show ?thesis using Cons.IH [OF feed_inv [OF Cons.prems(1) f [unfolded Inr]], of e2] l by simp
  qed
qed simp

lemma lines_new: "feedLines env ds (NewStreamAdapter env summary sources) = (evs, a) \<Longrightarrow> adapter_inv summary evs a"
  using lines_inv [OF new_inv] by fastforce

text \<open>C17. Whatever lines come in, every annotation the adapter keeps gives the place of a citation of its address in the
  whole text of the answer, over all the tokens the text came in.\<close>

theorem annotations_cite:
  "let a = snd (feedLines env ds (NewStreamAdapter env summary sources)) in list_all (cited (concat (sa_textBuf a))) (sa_annotations a)"
proof -
  obtain evs a where "feedLines env ds (NewStreamAdapter env summary sources) = (evs, a)" by fastforce
  from lines_new [OF this] this show ?thesis by (auto simp: adapter_inv_def)
qed

text \<open>Without a summary of the reasoning, no event of reasoning comes after an event of text.\<close>

theorem thinking_before_text: "thinkingFirst (fst (feedLines env ds (NewStreamAdapter env False sources)))"
proof -
  obtain evs a where "feedLines env ds (NewStreamAdapter env False sources) = (evs, a)" by fastforce
  from lines_new [OF this] this show ?thesis by (simp add: adapter_inv_def)
qed

end
