(* ===== verification/ToolSieveProps.thy ===== *)
theory ToolSieveProps
  imports ToolSieve
begin

text \<open>
  What the sieve does to a stream: text without a tool block comes out unchanged however it is cut into chunks, but
  for a held-back start of a tag at the end; a block with a lower-case tag is found and parsed whole, however it is cut;
  and what the sieve loses.
\<close>

section \<open>Tags as languages\<close>

definition sTok :: "string \<Rightarrow> bool" where
  "sTok m \<longleftrightarrow> (\<exists>c. m = [c] \<and> lowerChar c = CHR ''s'') \<or> (\<exists>c d. m = [c, d] \<and> byteOf c = 197 \<and> byteOf d = 191)"

definition openTag :: "string \<Rightarrow> bool" where
  "openTag m \<longleftrightarrow> (\<exists>a b. m = a @ b \<and> map lowerChar a = ''<tool_call'' \<and> sTok b)"

definition closeTag :: "string \<Rightarrow> bool" where
  "closeTag m \<longleftrightarrow> (\<exists>a b w. m = a @ b @ w @ ''>'' \<and> map lowerChar a = ''</tool_call'' \<and> sTok b \<and> list_all isBlank w)"

lemma lowerChar_lt: "lowerChar c = CHR ''<'' \<longleftrightarrow> c = CHR ''<''"
proof
  assume l: "lowerChar c = CHR ''<''"
  show "c = CHR ''<''"
  proof (cases "65 \<le> byteOf c \<and> byteOf c \<le> 90")
    case True
    then have "byteOf (CHR ''<'') = byteOf c + 32" using l by (simp add: lowerChar_def byteOf_def flip: l)
    moreover have "byteOf (CHR ''<'') = 60" by (simp add: byteOf_def)
    ultimately show ?thesis using True by simp
  qed (use l in \<open>auto simp: lowerChar_def\<close>)
qed (simp add: lowerChar_def byteOf_def)

lemma stripFold_iff: "stripFold p s = Some r \<longleftrightarrow> (\<exists>m. s = m @ r \<and> map lowerChar m = p)"
proof (induction p s rule: stripFold.induct)
  case (3 p ps c cs)
  show ?case
  proof (cases "lowerChar c = p")
    case True
    then show ?thesis using 3 by (auto simp: Cons_eq_append_conv)
  qed (auto simp: Cons_eq_append_conv)
qed auto

lemma long_s: "byteOf c = 197 \<Longrightarrow> lowerChar c \<noteq> CHR ''s''"
  by (auto simp: lowerChar_def byteOf_def)

lemma stripS_iff: "stripS s = Some r \<longleftrightarrow> (\<exists>m. s = m @ r \<and> sTok m)"
proof
  assume "stripS s = Some r"
  then show "\<exists>m. s = m @ r \<and> sTok m"
    by (auto simp: stripS_def sTok_def split: list.splits if_splits)
next
  assume "\<exists>m. s = m @ r \<and> sTok m"
  then show "stripS s = Some r" using long_s by (auto simp: stripS_def sTok_def)
qed

lemma openRest_iff: "openRest s = Some r \<longleftrightarrow> (\<exists>m. s = m @ r \<and> openTag m)"
proof -
  have "openRest s = Some r \<longleftrightarrow> (\<exists>r1. stripFold ''<tool_call'' s = Some r1 \<and> stripS r1 = Some r)"
    by (simp add: openRest_def split: option.split)
  also have "\<dots> \<longleftrightarrow> (\<exists>m. s = m @ r \<and> openTag m)"
    unfolding stripFold_iff stripS_iff openTag_def by (metis append.assoc)
  finally show ?thesis .
qed

lemma blank_split:
  "(\<exists>cs. dropWhile isBlank r = CHR ''>'' # cs \<and> cs = t) \<longleftrightarrow> (\<exists>w. r = w @ ''>'' @ t \<and> list_all isBlank w)"
proof
  assume "\<exists>cs. dropWhile isBlank r = CHR ''>'' # cs \<and> cs = t"
  then have d: "dropWhile isBlank r = ''>'' @ t" by simp
  have "takeWhile isBlank r @ dropWhile isBlank r = r" by (rule takeWhile_dropWhile_id)
  then have "takeWhile isBlank r @ ''>'' @ t = r" by (simp only: d)
  moreover have "list_all isBlank (takeWhile isBlank r)" by (auto simp: list_all_iff dest: set_takeWhileD)
  ultimately show "\<exists>w. r = w @ ''>'' @ t \<and> list_all isBlank w" by metis
next
  assume "\<exists>w. r = w @ ''>'' @ t \<and> list_all isBlank w"
  moreover have "\<not> isBlank CHR ''>''" by (simp add: isBlank_def byteOf_def)
  ultimately show "\<exists>cs. dropWhile isBlank r = CHR ''>'' # cs \<and> cs = t"
    by (auto simp: list_all_iff dropWhile_append2)
qed

lemma closeRest_iff: "closeRest s = Some r \<longleftrightarrow> (\<exists>m. s = m @ r \<and> closeTag m)"
proof -
  have "closeRest s = Some r \<longleftrightarrow> (\<exists>r1 r2. stripFold ''</tool_call'' s = Some r1 \<and> stripS r1 = Some r2 \<and>
      (\<exists>cs. dropWhile isBlank r2 = CHR ''>'' # cs \<and> cs = r))"
    by (auto simp: closeRest_def simp del: dropWhile_eq_Nil_conv dropWhile_eq_Cons_conv split: option.splits list.splits)
  also have "\<dots> \<longleftrightarrow> (\<exists>m. s = m @ r \<and> closeTag m)"
    unfolding stripFold_iff stripS_iff blank_split closeTag_def by (metis append.assoc)
  finally show ?thesis .
qed

lemma fold_lt: "map lowerChar a = CHR ''<'' # p \<Longrightarrow> CHR ''<'' \<notin> set p \<Longrightarrow> \<exists>a'. a = CHR ''<'' # a' \<and> CHR ''<'' \<notin> set a'"
proof -
  assume a: "map lowerChar a = CHR ''<'' # p" "CHR ''<'' \<notin> set p"
  then obtain c a' where c: "a = c # a'" "lowerChar c = CHR ''<''" "map lowerChar a' = p" unfolding map_eq_Cons_conv by blast
  have "lowerChar (CHR ''<'') = CHR ''<''" unfolding lowerChar_lt by (rule refl)
  then have "CHR ''<'' \<in> set a' \<Longrightarrow> CHR ''<'' \<in> lowerChar ` set a'" by (metis image_eqI)
  then have "CHR ''<'' \<notin> set a'" using a(2) unfolding c(3) [symmetric] set_map by blast
  then show ?thesis using c(1,2) unfolding lowerChar_lt by blast
qed

lemma sTok_lt: "sTok m \<Longrightarrow> CHR ''<'' \<notin> set m"
proof -
  assume m: "sTok m"
  have n: "byteOf (CHR ''<'') = 60" "lowerChar (CHR ''<'') \<noteq> CHR ''s''" by (simp_all add: byteOf_def lowerChar_def)
  show ?thesis
  proof (cases "\<exists>c. m = [c] \<and> lowerChar c = CHR ''s''")
    case True
    then obtain c where c: "m = [c]" "lowerChar c = CHR ''s''" by blast
    have "c \<noteq> CHR ''<''" using c(2) n(2) by (intro notI) simp
    then show ?thesis using c(1) by simp
  next
    case False
    then obtain c d where c: "m = [c, d]" "byteOf c = 197" "byteOf d = 191" using m unfolding sTok_def by blast
    have "c \<noteq> CHR ''<''" using c(2) n(1) by (intro notI) simp
    moreover have "d \<noteq> CHR ''<''" using c(3) n(1) by (intro notI) simp
    ultimately show ?thesis using c(1) by simp
  qed
qed

text \<open>A tag starts with \<open><\<close> and holds no other one.\<close>

lemma closeTag_lt: "closeTag m \<Longrightarrow> \<exists>m'. m = CHR ''<'' # m' \<and> CHR ''<'' \<notin> set m'"
proof -
  assume "closeTag m"
  then obtain a b w where m: "m = a @ b @ w @ ''>''" "map lowerChar a = ''</tool_call''" "sTok b" "list_all isBlank w"
    unfolding closeTag_def by (elim exE conjE) (rule that)
  have "\<exists>a'. a = CHR ''<'' # a' \<and> CHR ''<'' \<notin> set a'" using m(2) by (rule fold_lt) simp
  then obtain a' where a: "a = CHR ''<'' # a'" "CHR ''<'' \<notin> set a'" by blast
  have "\<not> isBlank (CHR ''<'')" by (simp add: isBlank_def byteOf_def)
  then have "CHR ''<'' \<notin> set w" using m(4) unfolding list_all_iff by blast
  moreover have "CHR ''<'' \<notin> set b" by (rule sTok_lt [OF m(3)])
  ultimately show ?thesis using a unfolding m(1) by simp
qed

lemma openTag_lt: "openTag m \<Longrightarrow> \<exists>m'. m = CHR ''<'' # m' \<and> CHR ''<'' \<notin> set m'"
proof -
  assume "openTag m"
  then obtain a b where m: "m = a @ b" "map lowerChar a = ''<tool_call''" "sTok b" unfolding openTag_def by (elim exE conjE) (rule that)
  have "\<exists>a'. a = CHR ''<'' # a' \<and> CHR ''<'' \<notin> set a'" using m(2) by (rule fold_lt) simp
  then obtain a' where a: "a = CHR ''<'' # a'" "CHR ''<'' \<notin> set a'" by blast
  then show ?thesis using sTok_lt [OF m(3)] unfolding m(1) by simp
qed

lemma openTag_length: "openTag m \<Longrightarrow> 11 \<le> length m"
proof -
  assume "openTag m"
  then obtain a b where m: "m = a @ b" "map lowerChar a = ''<tool_call''" "sTok b" unfolding openTag_def by (elim exE conjE) (rule that)
  have "length (map lowerChar a) = length ''<tool_call''" by (rule arg_cong [OF m(2)])
  then have "length a = 10" by simp
  moreover have "1 \<le> length b" using m(3) unfolding sTok_def by auto
  ultimately show ?thesis unfolding m(1) by simp
qed

lemma lower_tag: "openRest (''<tool_calls'' @ u) \<noteq> None"
  by (simp add: openRest_def stripS_def lowerChar_def byteOf_def)

lemma openRest_append: "openRest s \<noteq> None \<Longrightarrow> openRest (s @ u) \<noteq> None"
  unfolding not_None_eq openRest_iff by (metis append.assoc)

lemma openRest_length: "openRest s \<noteq> None \<Longrightarrow> 11 \<le> length s"
  unfolding not_None_eq openRest_iff using openTag_length by fastforce

section \<open>The leftmost tag\<close>

lemma openRest_Nil [simp]: "openRest [] = None"
  by (simp add: openRest_def)

lemma closeRest_Nil [simp]: "closeRest [] = None"
  by (simp add: closeRest_def)

lemma splitOpen_None: "splitOpen s = None \<longleftrightarrow> (\<forall>i. openRest (drop i s) = None)"
proof (induction s)
  case (Cons c cs)
  have "(\<forall>i. openRest (drop i (c # cs)) = None) \<longleftrightarrow> openRest (c # cs) = None \<and> (\<forall>i. openRest (drop i cs) = None)"
    by (metis drop0 drop_Suc_Cons not0_implies_Suc)
  then show ?case using Cons by auto
qed simp

lemma splitOpen_Some:
  "splitOpen s = Some (a, b) \<longleftrightarrow> s = a @ b \<and> openRest b \<noteq> None \<and> (\<forall>i < length a. openRest (drop i s) = None)"
proof (induction s arbitrary: a)
  case (Cons c cs)
  show ?case
  proof (cases "openRest (c # cs) = None")
    case True
    have step: "(\<forall>i < Suc n. openRest (drop i (c # cs)) = None) \<longleftrightarrow> (\<forall>i < n. openRest (drop i cs) = None)" for n
      unfolding less_Suc_eq_0_disj using True by auto
    show ?thesis
    proof (cases a)
      case Nil
      then show ?thesis using True by auto
    next
      case a: (Cons x a')
      have "splitOpen (c # cs) = Some (a, b) \<longleftrightarrow> c = x \<and> splitOpen cs = Some (a', b)" using True a by auto
      then show ?thesis using step [of "length a'"] unfolding Cons.IH a by auto
    qed
  next
    case False
    then show ?thesis by (cases a) auto
  qed
qed auto

lemma splitOpen_SomeD:
  assumes "splitOpen s = Some (a, b)"
  shows "s = a @ b" and "openRest b \<noteq> None" and "\<forall>i < length a. openRest (drop i s) = None"
proof -
  have all: "s = a @ b \<and> openRest b \<noteq> None \<and> (\<forall>i < length a. openRest (drop i s) = None)"
    using assms unfolding splitOpen_Some .
  show "s = a @ b" by (rule conjunct1 [OF all])
  show "openRest b \<noteq> None" by (rule conjunct1 [OF conjunct2 [OF all]])
  show "\<forall>i < length a. openRest (drop i s) = None" by (rule conjunct2 [OF conjunct2 [OF all]])
qed

lemma splitOpen_drop_None: "splitOpen s = None \<Longrightarrow> splitOpen (drop k s) = None"
  by (simp add: splitOpen_None)

lemma splitOpen_drop_Some: "splitOpen s = Some (a, b) \<Longrightarrow> k \<le> length a \<Longrightarrow> splitOpen (drop k s) = Some (drop k a, b)"
proof -
  assume s: "splitOpen s = Some (a, b)" and k: "k \<le> length a"
  have p: "s = a @ b" "openRest b \<noteq> None" and m: "\<forall>i < length a. openRest (drop i s) = None"
    by (rule splitOpen_SomeD [OF s])+
  have "drop k s = drop k a @ b" using k p(1) by simp
  moreover have "openRest (drop i (drop k s)) = None" if "i < length (drop k a)" for i
  proof -
    have "i + k < length a" using that by simp
    then show ?thesis using m by (simp only: drop_drop)
  qed
  ultimately show "splitOpen (drop k s) = Some (drop k a, b)" unfolding splitOpen_Some using p(2) by blast
qed

lemma splitOpen_prefix_None: "splitOpen (t @ u) = None \<Longrightarrow> splitOpen t = None"
  unfolding splitOpen_None
proof
  fix i assume n: "\<forall>i. openRest (drop i (t @ u)) = None"
  then have "openRest (drop i t @ drop (i - length t) u) = None" by (metis drop_append)
  then show "openRest (drop i t) = None" using openRest_append by blast
qed

text \<open>Reading more never moves a tag that starts in lower case.\<close>

lemma splitOpen_prefix_Some:
  assumes w: "splitOpen (t @ u) = Some (pre, rest)" and lc: "take 11 rest = ''<tool_calls''"
    and f: "splitOpen t = Some (a, b)"
  shows "a = pre" and "rest = b @ u"
proof -
  have t: "t = a @ b" "openRest b \<noteq> None" and mina: "\<forall>i < length a. openRest (drop i t) = None"
    by (rule splitOpen_SomeD [OF f])+
  have tu: "t @ u = pre @ rest" and minp: "\<forall>i < length pre. openRest (drop i (t @ u)) = None"
    by (rule splitOpen_SomeD [OF w])+
  have "drop (length a) (t @ u) = b @ u" by (simp add: t(1))
  then have "\<not> length a < length pre" using minp openRest_append [OF t(2)] by metis
  moreover have "\<not> length pre < length a"
  proof
    assume l: "length pre < length a"
    define d where "d = drop (length pre) t"
    have "length a + 11 \<le> length t" using t(1) openRest_length [OF t(2)] by simp
    then have len: "11 \<le> length d" using l by (simp add: d_def)
    have "rest = d @ u" using tu l t(1) unfolding d_def
      by (metis append_eq_append_conv_if append_eq_conv_conj drop_append length_append less_imp_le_nat trans_le_add1 diff_is_0_eq drop0)
    then have "take 11 d = ''<tool_calls''" using lc len by simp
    then have "d = ''<tool_calls'' @ drop 11 d" by (metis append_take_drop_id)
    then have "openRest d \<noteq> None" using lower_tag by metis
    then show False using mina l unfolding d_def by simp
  qed
  ultimately have e: "length a = length pre" by simp
  have "a @ (b @ u) = pre @ rest" using tu t(1) by simp
  then show "a = pre" "rest = b @ u" using e by simp_all
qed

text \<open>A closing tag that has been read stays the leftmost one.\<close>

lemma closeRest_lt: "closeRest s \<noteq> None \<Longrightarrow> CHR ''<'' \<in> set s"
proof -
  assume "closeRest s \<noteq> None"
  then obtain r m where "s = m @ r" "closeTag m" unfolding not_None_eq closeRest_iff by blast
  then show ?thesis using closeTag_lt [of m] by auto
qed

lemma takeClose_lt: "takeClose s \<noteq> None \<Longrightarrow> CHR ''<'' \<in> set s"
proof (induction s)
  case (Cons c cs)
  show ?case
  proof (cases "closeRest (c # cs)")
    case None
    then have "takeClose cs \<noteq> None" using Cons.prems by simp
    then show ?thesis using Cons.IH by simp
  next
    case (Some r)
    then show ?thesis using closeRest_lt [of "c # cs"] by simp
  qed
qed simp

lemma closeRest_later: "closeRest (c # cs) = None \<Longrightarrow> CHR ''<'' \<in> set cs \<Longrightarrow> closeRest (c # cs @ u) = None"
proof (rule ccontr)
  assume n: "closeRest (c # cs) = None" and lt: "CHR ''<'' \<in> set cs" and "closeRest (c # cs @ u) \<noteq> None"
  then obtain r m where m: "(c # cs) @ u = m @ r" "closeTag m" unfolding not_None_eq closeRest_iff by auto
  obtain m' where m': "m = CHR ''<'' # m'" "CHR ''<'' \<notin> set m'" using closeTag_lt [OF m(2)] by (elim exE conjE) (rule that)
  from m(1) obtain us where "(c # cs = m @ us \<and> us @ u = r) \<or> (c # cs) @ us = m \<and> u = us @ r"
    unfolding append_eq_append_conv2 by (elim exE) (rule that)
  then show False
  proof (elim disjE conjE)
    assume "c # cs = m @ us"
    then have "closeRest (c # cs) = Some us" unfolding closeRest_iff using m(2) by (intro exI conjI)
    then show False using n by simp
  next
    assume "(c # cs) @ us = m"
    then have "m' = cs @ us" using m'(1) by simp
    then show False using m'(2) lt by simp
  qed
qed

lemma closeRest_more: "closeRest s = Some r \<Longrightarrow> closeRest (s @ u) = Some (r @ u)"
  unfolding closeRest_iff by (elim exE conjE) (intro exI conjI, simp)

lemma takeClose_more: "takeClose s = Some blk \<Longrightarrow> takeClose (s @ u) = Some blk"
proof (induction s arbitrary: blk)
  case (Cons c cs)
  show ?case
  proof (cases "closeRest (c # cs)")
    case None
    then obtain b where b: "takeClose cs = Some b" "blk = c # b" using Cons.prems by auto
    have "CHR ''<'' \<in> set cs" using takeClose_lt [of cs] b(1) by simp
    then have "closeRest (c # cs @ u) = None" using None by (rule closeRest_later [rotated])
    then show ?thesis using Cons.IH [OF b(1)] b(2) by simp
  next
    case (Some r)
    then have r: "closeRest (c # cs @ u) = Some (r @ u)" using closeRest_more [of "c # cs" r u] by simp
    obtain m where "c # cs = m @ r" using Some unfolding closeRest_iff by blast
    then have len: "length r \<le> length (c # cs)" by simp
    have "takeClose (c # cs @ u) = Some (take (length (c # cs @ u) - length (r @ u)) (c # cs @ u))" using r by simp
    also have "\<dots> = Some (take (length (c # cs) - length r) ((c # cs) @ u))" by simp
    also have "\<dots> = Some (take (length (c # cs) - length r) (c # cs))" unfolding take_append using len by simp
    also have "\<dots> = takeClose (c # cs)" using Some by simp
    finally show ?thesis using Cons.prems by simp
  qed
qed simp

lemma takeClose_prefix: "takeClose s = Some blk \<Longrightarrow> prefix blk s"
proof (induction s arbitrary: blk)
  case (Cons c cs)
  then show ?case
  proof (cases "closeRest (c # cs)")
    case None
    then show ?thesis using Cons by auto
  next
    case (Some r)
    then have "blk = take (length (c # cs) - length r) (c # cs)" using Cons.prems by simp
    then show ?thesis by (simp only: take_is_prefix)
  qed
qed simp

section \<open>Holding back\<close>

text \<open>What \<open>splitAtBoundary\<close> keeps: the longest suffix that is a proper prefix of the tag.\<close>

lemma boundaryFrom_spec:
  "i < length p \<Longrightarrow> i \<le> length t \<Longrightarrow> fst (boundaryFrom i t p) @ snd (boundaryFrom i t p) = t \<and>
    (\<exists>k \<le> i. snd (boundaryFrom i t p) = take k p \<and> length (snd (boundaryFrom i t p)) = k) \<and>
    (\<forall>k \<le> i. suffix (take k p) t \<longrightarrow> k \<le> length (snd (boundaryFrom i t p)))"
proof (induction i)
  case (Suc i)
  show ?case
  proof (cases "suffix (take (Suc i) p) t")
    case True
    then have "drop (length t - Suc i) t = take (Suc i) p" using Suc.prems by (auto simp: suffix_def)
    moreover from this have "take (length t - Suc i) t @ take (Suc i) p = t" by (metis append_take_drop_id)
    ultimately show ?thesis using True Suc.prems by (auto intro!: exI [of _ "Suc i"])
  next
    case False
    then have b: "boundaryFrom (Suc i) t p = boundaryFrom i t p" by simp
    show ?thesis unfolding b using Suc False by (auto simp: le_Suc_eq)
  qed
qed simp

definition held :: "string \<Rightarrow> string" where
  "held t = snd (splitAtBoundary t ''<tool_calls'')"

lemma held_spec:
  shows "fst (splitAtBoundary t ''<tool_calls'') @ held t = t"
    and "\<exists>k \<le> 10. held t = take k ''<tool_calls'' \<and> length (held t) = k"
    and "k \<le> 10 \<Longrightarrow> suffix (take k ''<tool_calls'') t \<Longrightarrow> k \<le> length (held t)"
proof -
  define i where "i = min 10 (length t)"
  have ten: "length ''<tool_calls'' - 1 = 10" by simp
  have b: "splitAtBoundary t ''<tool_calls'' = boundaryFrom i t ''<tool_calls''" unfolding splitAtBoundary_def i_def ten ..
  have i: "i < length ''<tool_calls''" "i \<le> length t" "i \<le> 10" by (auto simp: i_def)
  have s: "fst (boundaryFrom i t ''<tool_calls'') @ snd (boundaryFrom i t ''<tool_calls'') = t"
    "\<exists>k \<le> i. snd (boundaryFrom i t ''<tool_calls'') = take k ''<tool_calls'' \<and> length (snd (boundaryFrom i t ''<tool_calls'')) = k"
    "\<forall>k \<le> i. suffix (take k ''<tool_calls'') t \<longrightarrow> k \<le> length (snd (boundaryFrom i t ''<tool_calls''))"
    using boundaryFrom_spec [OF i(1,2)] by (auto simp only:)
  show "fst (splitAtBoundary t ''<tool_calls'') @ held t = t" unfolding held_def b by (rule s(1))
  show "\<exists>k \<le> 10. held t = take k ''<tool_calls'' \<and> length (held t) = k"
    unfolding held_def b using s(2) i(3) by (meson order.trans)
  assume k: "k \<le> 10" "suffix (take k ''<tool_calls'') t"
  have "length (take k ''<tool_calls'') \<le> length t" using k(2) by (rule suffix_length_le)
  then have "k \<le> i" using k(1) by (simp add: i_def)
  then show "k \<le> length (held t)" unfolding held_def b using k(2) s(3) by blast
qed

text \<open>
  The interface the scanner relies on: holding back keeps a suffix, and holding back again after more text gives what
  holding back the whole text gives.
\<close>

locale holdback =
  fixes pass :: "string \<Rightarrow> string" and hold :: "string \<Rightarrow> string"
  assumes split: "pass t @ hold t = t"
    and again: "hold (hold t @ x) = hold (t @ x)"
begin

lemma pass_more: "pass t @ pass (hold t @ x) = pass (t @ x)"
proof -
  have "(pass t @ pass (hold t @ x)) @ hold (t @ x) = pass t @ pass (hold t @ x) @ hold (hold t @ x)" by (simp add: again)
  also have "\<dots> = t @ x" using split [of t] split [of "hold t @ x"] by (metis append.assoc)
  also have "\<dots> = pass (t @ x) @ hold (t @ x)" by (rule split [symmetric])
  finally show ?thesis by simp
qed

lemma hold_drop: "hold t @ x = drop (length (pass t)) (t @ x)"
  by (metis append.assoc append_eq_conv_conj split)

lemma Nil [simp]: "pass [] = []" "hold [] = []"
  using split [of "[]"] by auto

end

definition passed :: "string \<Rightarrow> string" where
  "passed t = fst (splitAtBoundary t ''<tool_calls'')"

lemma held_again: "held (held t @ x) = held (t @ x)"
proof -
  obtain k where k: "k \<le> 10" "held (t @ x) = take k ''<tool_calls''" "length (held (t @ x)) = k"
    using held_spec(2) [of "t @ x"] by blast
  obtain j where j: "j \<le> 10" "held (held t @ x) = take j ''<tool_calls''" "length (held (held t @ x)) = j"
    using held_spec(2) [of "held t @ x"] by blast
  have whole: "t @ x = fst (splitAtBoundary t ''<tool_calls'') @ held t @ x" using held_spec(1) [of t] by (metis append.assoc)
  have "suffix (held (held t @ x)) (held t @ x)" using held_spec(1) [of "held t @ x"] by (metis suffixI)
  then have "suffix (take j ''<tool_calls'') (t @ x)" unfolding j(2) [symmetric] by (metis whole suffix_append suffix_appendI)
  then have 1: "j \<le> k" using held_spec(3) [OF j(1), of "t @ x"] k(3) by simp
  have s: "suffix (held (t @ x)) (t @ x)" using held_spec(1) [of "t @ x"] by (metis suffixI)
  have x: "suffix x (t @ x)" by (rule suffixI) simp
  have "suffix (held (t @ x)) (held t @ x)"
  proof (cases "length (held (t @ x)) \<le> length x")
    case True
    then have "suffix (held (t @ x)) x" using s x by (rule suffix_length_suffix [rotated 2])
    then show ?thesis by (rule suffix_appendI)
  next
    case False
    then have "length x \<le> length (held (t @ x))" by simp
    then have "suffix x (held (t @ x))" using x s by (rule suffix_length_suffix [rotated 2])
    then obtain h where h: "held (t @ x) = h @ x" by (auto simp: suffix_def)
    then have "suffix h t" using s by (auto simp: suffix_def)
    moreover have hp: "h = take (length h) ''<tool_calls''" using h k(2,3) by (metis append_eq_conv_conj take_take min.absorb1 le_add1 length_append)
    moreover have lh: "length h \<le> 10" using h k by simp
    ultimately have "length h \<le> length (held t)" using held_spec(3) [OF lh, of t] by simp
    moreover have "suffix (held t) t" using held_spec(1) [of t] by (metis suffixI)
    ultimately have "suffix h (held t)" using \<open>suffix h t\<close> suffix_length_suffix by blast
    then show ?thesis unfolding h by simp
  qed
  then have "k \<le> j" using held_spec(3) [OF k(1), of "held t @ x"] j(3) unfolding k(2) by simp
  then show ?thesis using 1 j(2) k(2) by simp
qed

interpretation tag: holdback passed held
  by unfold_locales (simp_all only: passed_def held_spec(1) held_again)

section \<open>Feeding a stream\<close>

lemma passed_held: "splitAtBoundary t ''<tool_calls'' = (passed t, held t)"
  by (simp add: passed_def held_def)

lemma scan_step:
  assumes "\<not> ts_done s" "\<not> ts_capturing s" "ts_buf s = held t" "splitOpen (t @ x) = None"
  shows "FeedSieve parse x s = ((passed (held t @ x), None), s\<lparr>ts_buf := held (t @ x)\<rparr>)"
proof -
  have "splitOpen (drop (length (passed t)) (t @ x)) = None" using assms(4) by (rule splitOpen_drop_None)
  then have none: "splitOpen (held t @ x) = None" by (simp only: tag.hold_drop)
  show ?thesis
  proof (cases "x = []")
    case True
    have "passed (held t) = []" using tag.pass_more [of t "[]"] by simp
    then show ?thesis using True assms by (simp add: FeedSieve_def)
  next
    case False
    have "held (held t @ x) = held (t @ x)" by (rule held_again)
    then show ?thesis using False assms(1-3) none by (simp add: FeedSieve_def feedScanning_def passed_held)
  qed
qed

lemma feed_plain:
  assumes "\<not> ts_done s" "\<not> ts_capturing s" "ts_buf s = held t" "splitOpen (t @ concat xs) = None"
  shows "\<exists>y. passed t @ y = passed (t @ concat xs) \<and> feedAll parse xs s = ((y, []), s\<lparr>ts_buf := held (t @ concat xs)\<rparr>)"
  using assms
proof (induction xs arbitrary: t s)
  case Nil
  then show ?case by (intro exI [of _ "[]"]) simp
next
  case (Cons x xs)
  have none: "splitOpen ((t @ x) @ concat xs) = None" using Cons.prems(4) by simp
  let ?s = "s\<lparr>ts_buf := held (t @ x)\<rparr>"
  have step: "FeedSieve parse x s = ((passed (held t @ x), None), ?s)"
    using Cons.prems(1-3) splitOpen_prefix_None [OF none] by (rule scan_step)
  obtain y where y: "passed (t @ x) @ y = passed ((t @ x) @ concat xs)"
    "feedAll parse xs ?s = ((y, []), ?s\<lparr>ts_buf := held ((t @ x) @ concat xs)\<rparr>)"
    using Cons.IH [of ?s "t @ x"] Cons.prems(1,2) none by auto
  show ?case
  proof (intro exI conjI)
    show "passed t @ (passed (held t @ x) @ y) = passed (t @ concat (x # xs))"
      using y(1) tag.pass_more [of t x] by (metis append.assoc concat.simps(2))
    show "feedAll parse (x # xs) s = ((passed (held t @ x) @ y, []), s\<lparr>ts_buf := held (t @ concat (x # xs))\<rparr>)"
      using step y(2) by simp
  qed
qed

text \<open>The calls a block gives.\<close>

definition blockCalls :: "toolParser \<Rightarrow> string \<Rightarrow> string list \<Rightarrow> ParsedToolCall list list" where
  "blockCalls parse block names = (case parse block names of (saw, calls) \<Rightarrow> if saw then [calls] else [])"

definition captured :: "toolParser \<Rightarrow> string \<Rightarrow> ToolSieve \<Rightarrow> (string \<times> ParsedToolCall list list) \<times> ToolSieve \<Rightarrow> bool" where
  "captured parse rest s r \<longleftrightarrow>
    (case takeClose rest of
       None \<Rightarrow> r = (([], []), s\<lparr>ts_buf := rest, ts_capturing := True\<rparr>)
     | Some block \<Rightarrow> \<exists>tail. suffix tail (drop (length block) rest) \<and>
         r = ((tail, blockCalls parse block (ts_names s)), s\<lparr>ts_buf := [], ts_capturing := False, ts_done := True\<rparr>))"

lemma captured_frame [simp]:
  "captured parse rest (s\<lparr>ts_buf := b\<rparr>) = captured parse rest s"
  "captured parse rest (s\<lparr>ts_buf := b, ts_capturing := c\<rparr>) = captured parse rest s"
  by (simp_all add: captured_def fun_eq_iff cong: option.case_cong)

lemma feed_silent:
  "FeedSieve parse x s = ((y, None), s1) \<Longrightarrow>
    feedAll parse (x # xs) s = ((y @ fst (fst (feedAll parse xs s1)), snd (fst (feedAll parse xs s1))), snd (feedAll parse xs s1))"
  by (simp split: prod.split)

lemma feed_done: "ts_done s \<Longrightarrow> \<not> ts_capturing s \<Longrightarrow> feedAll parse xs s = ((concat xs, []), s)"
  by (induction xs) (simp_all add: FeedSieve_def)

lemma captured_done:
  assumes "takeClose b = Some block"
  shows "captured parse (b @ u) s ((u, blockCalls parse block (ts_names s)), s\<lparr>ts_buf := [], ts_capturing := False, ts_done := True\<rparr>)"
proof -
  have "takeClose (b @ u) = Some block" using assms by (rule takeClose_more)
  moreover have "suffix u (drop (length block) (b @ u))"
    using prefix_length_le [OF takeClose_prefix [OF assms]] by (simp add: suffix_appendI)
  ultimately show ?thesis unfolding captured_def by auto
qed

lemma feedCapturing_cases:
  assumes "length (ts_buf s @ x) \<le> maxToolSieveBufferBytes"
  shows "feedCapturing parse x s =
    (case takeClose (ts_buf s @ x) of
       None \<Rightarrow> (([], None), s\<lparr>ts_buf := ts_buf s @ x\<rparr>)
     | Some block \<Rightarrow> (([], case parse block (ts_names s) of (saw, calls) \<Rightarrow> if saw then Some calls else None),
         s\<lparr>ts_buf := [], ts_capturing := False, ts_done := True\<rparr>))"
  using assms by (auto simp: feedCapturing_def Let_def split: option.split prod.split)

lemma callsList: "(case (case p of (saw, calls) \<Rightarrow> if saw then Some calls else None) of None \<Rightarrow> [] | Some cs \<Rightarrow> [cs]) =
    (case p of (saw, calls) \<Rightarrow> if saw then [calls] else [])"
  by (auto split: prod.split)

lemma feed_captured:
  assumes "ts_capturing s" "\<not> ts_done s" "takeClose (ts_buf s) = None"
    and "length (ts_buf s @ concat xs) \<le> maxToolSieveBufferBytes"
  shows "captured parse (ts_buf s @ concat xs) s (feedAll parse xs s)"
  using assms
proof (induction xs arbitrary: s)
  case Nil
  then have "s\<lparr>ts_buf := ts_buf s, ts_capturing := True\<rparr> = s" by (cases s) simp
  then show ?case using Nil by (simp add: captured_def)
next
  case (Cons x xs)
  show ?case
  proof (cases "x = []")
    case True
    then have "feedAll parse (x # xs) s = feedAll parse xs s"
      using Cons.prems(1) by (simp add: FeedSieve_def split: prod.split)
    then show ?thesis using Cons.IH [of s] Cons.prems True by simp
  next
    case False
    have len: "length (ts_buf s @ x) \<le> maxToolSieveBufferBytes" using Cons.prems(4) by simp
    have f: "FeedSieve parse x s = feedCapturing parse x s" using False Cons.prems(1,2) by (simp add: FeedSieve_def)
    show ?thesis
    proof (cases "takeClose (ts_buf s @ x)")
      case None
      let ?s = "s\<lparr>ts_buf := ts_buf s @ x\<rparr>"
      have "captured parse (ts_buf ?s @ concat xs) ?s (feedAll parse xs ?s)"
        using Cons.prems None by (intro Cons.IH) simp_all
      then have "captured parse (ts_buf s @ concat (x # xs)) s (feedAll parse xs ?s)" by (simp add: captured_frame)
      moreover have "feedAll parse (x # xs) s = feedAll parse xs ?s"
        using f feedCapturing_cases [OF len, of parse] None by (simp split: prod.split)
      ultimately show ?thesis by simp
    next
      case (Some block)
      let ?s = "s\<lparr>ts_buf := [], ts_capturing := False, ts_done := True\<rparr>"
      have "feedAll parse xs ?s = ((concat xs, []), ?s)" by (rule feed_done) simp_all
      then have "feedAll parse (x # xs) s = ((concat xs, blockCalls parse block (ts_names s)), ?s)"
        using f feedCapturing_cases [OF len, of parse] Some by (simp add: callsList blockCalls_def)
      then show ?thesis using captured_done [OF Some, of parse "concat xs" s] by simp
    qed
  qed
qed

lemma passed_le:
  assumes "splitOpen (t @ u) = Some (pre, rest)" "take 11 rest = ''<tool_calls''" "splitOpen t = None"
  shows "length (passed t) \<le> length pre"
proof (cases "length t \<le> length pre")
  case True
  have "length (passed t) \<le> length t" by (metis tag.split length_append le_add1)
  then show ?thesis using True by simp
next
  case False
  define q where "q = drop (length pre) t"
  have tu: "t @ u = pre @ rest" using assms(1) by (rule splitOpen_SomeD)
  then have t: "t = pre @ q" "q @ u = rest" using False unfolding q_def
    by (metis append_eq_append_conv_if linear append_take_drop_id)+
  have "length q \<le> 10"
  proof (rule ccontr)
    assume "\<not> length q \<le> 10"
    then have "take 11 q = ''<tool_calls''" using assms(2) unfolding t(2) [symmetric] by simp
    then have "q = ''<tool_calls'' @ drop 11 q" by (metis append_take_drop_id)
    then have "openRest q \<noteq> None" using lower_tag by metis
    then show False using assms(3) unfolding splitOpen_None q_def by simp
  qed
  moreover have "q = take (length q) ''<tool_calls''"
    using calculation unfolding assms(2) [symmetric] t(2) [symmetric] by simp
  moreover have "suffix q t" unfolding t(1) by (rule suffixI) simp
  ultimately have "length q \<le> length (held t)" using held_spec(3) [of "length q" t] by simp
  moreover have "length (passed t) + length (held t) = length pre + length q" using tag.split [of t] t(1) by (metis length_append)
  ultimately show ?thesis by simp
qed

lemma feed_block:
  assumes "\<not> ts_done s" "\<not> ts_capturing s" "ts_buf s = held t" "splitOpen t = None"
    and "splitOpen (t @ concat xs) = Some (pre, rest)" "take 11 rest = ''<tool_calls''" "length rest \<le> maxToolSieveBufferBytes"
  shows "\<exists>y r. passed t @ y = pre \<and> captured parse rest s r \<and> feedAll parse xs s = ((y @ fst (fst r), snd (fst r)), snd r)"
  using assms
proof (induction xs arbitrary: t s)
  case Nil
  then show ?case by simp
next
  case (Cons x xs)
  have whole: "splitOpen ((t @ x) @ concat xs) = Some (pre, rest)" using Cons.prems(5) by simp
  show ?case
  proof (cases "splitOpen (t @ x)")
    case None
    let ?s = "s\<lparr>ts_buf := held (t @ x)\<rparr>"
    have step: "FeedSieve parse x s = ((passed (held t @ x), None), ?s)"
      using Cons.prems(1-3) None by (rule scan_step)
    obtain y r where y: "passed (t @ x) @ y = pre" "captured parse rest ?s r"
      "feedAll parse xs ?s = ((y @ fst (fst r), snd (fst r)), snd r)"
      using Cons.IH [of ?s "t @ x"] Cons.prems(1,2,6,7) None whole by auto
    show ?thesis
    proof (intro exI conjI)
      show "passed t @ (passed (held t @ x) @ y) = pre" using y(1) tag.pass_more [of t x] by (metis append.assoc)
      show "captured parse rest s r" using y(2) by simp
      show "feedAll parse (x # xs) s = (((passed (held t @ x) @ y) @ fst (fst r), snd (fst r)), snd r)"
        using step y(3) by simp
    qed
  next
    case (Some ab)
    then obtain b where b: "splitOpen (t @ x) = Some (pre, b)" "rest = b @ concat xs"
      using splitOpen_prefix_Some [OF whole Cons.prems(6)] by (cases ab) auto
    have le: "length (passed t) \<le> length pre" using passed_le [OF Cons.prems(5,6,4)] .
    let ?y = "drop (length (passed t)) pre"
    have combined: "splitOpen (held t @ x) = Some (?y, b)" unfolding tag.hold_drop by (rule splitOpen_drop_Some [OF b(1) le])
    have pre: "passed t @ ?y = pre"
    proof -
      have "passed t @ held t @ x = pre @ b" using splitOpen_SomeD(1) [OF b(1)] tag.split [of t] by (metis append.assoc)
      then have "passed t = take (length (passed t)) pre" using le by (metis append_eq_append_conv_if)
      then show ?thesis by (metis append_take_drop_id)
    qed
    have x: "x \<noteq> []" using b(1) Cons.prems(4) by auto
    let ?s = "s\<lparr>ts_buf := b, ts_capturing := True\<rparr>"
    have len: "length (ts_buf ?s @ []) \<le> maxToolSieveBufferBytes" using Cons.prems(7) b(2) by simp
    have f: "FeedSieve parse x s = (case feedCapturing parse [] ?s of ((capSafe, calls), s1) \<Rightarrow> ((?y @ capSafe, calls), s1))"
      using x Cons.prems(1-3) combined by (simp add: FeedSieve_def feedScanning_def split: prod.split)
    show ?thesis
    proof (cases "takeClose b")
      case None
      have "captured parse (ts_buf ?s @ concat xs) ?s (feedAll parse xs ?s)"
        using None Cons.prems(1,7) b(2) by (intro feed_captured) simp_all
      then have "captured parse rest s (feedAll parse xs ?s)" using b(2) by simp
      moreover have "FeedSieve parse x s = ((?y, None), ?s)"
        using f feedCapturing_cases [OF len, of parse] None by simp
      then have "feedAll parse (x # xs) s = ((?y @ fst (fst (feedAll parse xs ?s)), snd (fst (feedAll parse xs ?s))), snd (feedAll parse xs ?s))"
        by (rule feed_silent)
      ultimately show ?thesis using pre by blast
    next
      case (Some block)
      let ?d = "s\<lparr>ts_buf := [], ts_capturing := False, ts_done := True\<rparr>"
      have "feedAll parse xs ?d = ((concat xs, []), ?d)" by (rule feed_done) simp_all
      then have "feedAll parse (x # xs) s = ((?y @ concat xs, blockCalls parse block (ts_names s)), ?d)"
        using f feedCapturing_cases [OF len, of parse] Some by (simp add: callsList blockCalls_def)
      moreover have "captured parse rest s ((concat xs, blockCalls parse block (ts_names s)), ?d)"
        unfolding b(2) using Some by (rule captured_done)
      ultimately show ?thesis using pre by (intro exI conjI) auto
    qed
  qed
qed

text \<open>The buffer stays within its limit.\<close>

lemma feed_bounded:
  assumes "length (ts_buf s) \<le> maxToolSieveBufferBytes"
  shows "length (ts_buf (snd (FeedSieve parse x s))) \<le> maxToolSieveBufferBytes"
proof -
  have cap: "length (ts_buf (snd (feedCapturing parse y s'))) \<le> maxToolSieveBufferBytes" for y s'
    by (auto simp: feedCapturing_def Let_def split: option.split prod.split)
  have ten: "length (held t) \<le> maxToolSieveBufferBytes" for t
    using held_spec(2) [of t] by (auto simp: maxToolSieveBufferBytes_def)
  have "length (ts_buf (snd (feedScanning parse x s))) \<le> maxToolSieveBufferBytes"
    using cap ten by (auto simp: feedScanning_def Let_def passed_held split: option.split prod.split) (metis snd_conv)
  then show ?thesis using assms cap by (auto simp: FeedSieve_def)
qed

lemma feedAll_bounded:
  "length (ts_buf s) \<le> maxToolSieveBufferBytes \<Longrightarrow> length (ts_buf (snd (feedAll parse xs s))) \<le> maxToolSieveBufferBytes"
proof (induction xs arbitrary: s)
  case (Cons x xs)
  obtain safe calls s1 where f: "FeedSieve parse x s = ((safe, calls), s1)" by (metis prod.exhaust)
  then have "length (ts_buf s1) \<le> maxToolSieveBufferBytes" using feed_bounded [OF Cons.prems, of parse x] by simp
  then show ?case using Cons.IH [of s1] f by (auto split: prod.split)
qed simp

definition sampleParser :: toolParser where
  "sampleParser block names = (True, [\<lparr>tc_id = ''c1'', tc_name = ''search'', tc_arguments = block\<rparr>])"

lemmas tag_eval = openRest_def closeRest_def stripS_def lowerChar_def byteOf_def isBlank_def
lemmas boundary_eval = splitAtBoundary_def suffix_to_prefix
lemmas sieve_eval = FeedSieve_def feedScanning_def feedCapturing_def NewToolSieve_def maxToolSieveBufferBytes_def

lemma sample_tags:
  "splitOpen ''a <tool_calls></tool_calls> b'' = Some (''a '', ''<tool_calls></tool_calls> b'')"
  "splitOpen ''a <tool_calls></tool_calls>'' = Some (''a '', ''<tool_calls></tool_calls>'')"
  "takeClose ''<tool_calls></tool_calls> b'' = Some (''<tool_calls></tool_calls>'')"
  "takeClose ''<tool_calls></tool_calls>'' = Some (''<tool_calls></tool_calls>'')"
  "splitOpen ''1 <'' = None"
  by (simp_all add: tag_eval)

lemma capital_tags:
  "splitOpen ''a <TOOL_CALLS>'' = Some (''a '', ''<TOOL_CALLS>'')"
  "takeClose ''<TOOL_CALLS>'' = None"
  "splitOpen ''a <TOOL'' = None" "splitOpen ''_CALLS>'' = None"
  by code_simp+

lemma sample_boundaries:
  "splitAtBoundary ''1 <'' ''<tool_calls'' = (''1 '', ''<'')"
  "splitAtBoundary ''a <TOOL'' ''<tool_calls'' = (''a <TOOL'', [])"
  "splitAtBoundary ''_CALLS>'' ''<tool_calls'' = (''_CALLS>'', [])"
  by (simp_all add: boundary_eval)

text \<open>C27. Text without a tool block comes out of the sieve the same however it is cut into chunks: what is
  cleared is the text up to the longest end that may start a tag, and that end stays in the buffer.\<close>

theorem sieve_plain:
  assumes "splitOpen (concat chunks) = None"
  shows "feedAll parse chunks (NewToolSieve names) =
    (case splitAtBoundary (concat chunks) ''<tool_calls'' of
       (safe, kept) \<Rightarrow> ((safe, []), (NewToolSieve names)\<lparr>ts_buf := kept\<rparr>))"
  using feed_plain [of "NewToolSieve names" "[]" chunks parse] assms
  by (simp add: NewToolSieve_def passed_held)

theorem sieve_plain_witness:
  "feedAll sampleParser [''1 '', ''<''] (NewToolSieve []) = ((''1 '', []), (NewToolSieve [])\<lparr>ts_buf := ''<''\<rparr>)"
proof -
  have "concat [''1 '', ''<''] = ''1 <''" by simp
  then show ?thesis using sieve_plain [of "[''1 '', ''<'']" sampleParser "[]"] sample_tags(5) sample_boundaries(1)
    by (simp del: splitOpen.simps feedAll.simps)
qed

text \<open>C28. A tool block that opens with the lower-case tag and fits the buffer is found whole however the stream is
  cut: the text before it is cleared and nothing of the block is, and either the block is still open and kept for the
  end of the stream, or exactly the text up to its closing tag is parsed, and of what follows only an end is cleared.\<close>

theorem sieve_block:
  assumes "splitOpen (concat chunks) = Some (pre, rest)" "prefix ''<tool_calls'' rest"
    and "length rest \<le> maxToolSieveBufferBytes"
  shows "\<exists>tail. feedAll parse chunks (NewToolSieve names) =
      (case takeClose rest of
         None \<Rightarrow> ((pre, []), (NewToolSieve names)\<lparr>ts_buf := rest, ts_capturing := True\<rparr>)
       | Some block \<Rightarrow> ((pre @ tail, blockCalls parse block names), (NewToolSieve names)\<lparr>ts_done := True\<rparr>)) \<and>
    suffix tail (case takeClose rest of None \<Rightarrow> [] | Some block \<Rightarrow> drop (length block) rest)"
proof -
  let ?s = "NewToolSieve names"
  have s: "\<not> ts_done ?s" "\<not> ts_capturing ?s" "ts_buf ?s = held []"
    "?s\<lparr>ts_buf := [], ts_capturing := False, ts_done := True\<rparr> = ?s\<lparr>ts_done := True\<rparr>"
    "ts_names ?s = names" by (simp_all add: NewToolSieve_def)
  have "take 11 rest = ''<tool_calls''" using assms(2) by (auto simp: prefix_def)
  then obtain y r where y: "passed [] @ y = pre" "captured parse rest ?s r"
    "feedAll parse chunks ?s = ((y @ fst (fst r), snd (fst r)), snd r)"
    using feed_block [OF s(1-3) _ _ _ assms(3), of chunks pre parse] assms(1) by auto
  show ?thesis
  proof (cases "takeClose rest")
    case None
    then show ?thesis using y by (auto simp: captured_def)
  next
    case (Some block)
    then show ?thesis using y s(4,5) by (auto simp: captured_def)
  qed
qed

theorem sieve_block_witness:
  "snd (fst (feedAll sampleParser [''a <tool_c'', ''alls></tool'', ''_calls> b''] (NewToolSieve []))) =
     blockCalls sampleParser ''<tool_calls></tool_calls>'' []"
proof -
  have c: "concat [''a <tool_c'', ''alls></tool'', ''_calls> b''] = ''a <tool_calls></tool_calls> b''" by simp
  have "prefix ''<tool_calls'' ''<tool_calls></tool_calls> b''" by simp
  moreover have "length ''<tool_calls></tool_calls> b'' \<le> maxToolSieveBufferBytes" by (simp add: maxToolSieveBufferBytes_def)
  ultimately show ?thesis
    using sieve_block [of "[''a <tool_c'', ''alls></tool'', ''_calls> b'']", unfolded c, OF sample_tags(1), of sampleParser "[]"] sample_tags(3)
    by (auto simp del: splitOpen.simps feedAll.simps takeClose.simps)
qed

text \<open>What the sieve loses: text after the closing tag, when it is in the same chunk (the first two streams);
  the end of a plain answer, when it may start a tag (the third); and it lets a tag in capitals out when the tag is cut
  (the last two).\<close>

theorem sieve_losses:
  "map (\<lambda>chunks. fst (fst (feedAll sampleParser chunks (NewToolSieve []))))
     [[''a <tool_calls></tool_calls> b''], [''a <tool_calls></tool_calls>'', '' b''], [''1 <''],
      [''a <TOOL_CALLS>''], [''a <TOOL'', ''_CALLS>'']] =
   [''a '', ''a  b'', ''1 '', ''a '', ''a <TOOL_CALLS>'']"
  by (simp add: sieve_eval sample_tags capital_tags sample_boundaries sampleParser_def del: splitOpen.simps takeClose.simps)

end
