(* ===== verification/TextRunProps.thy ===== *)
theory TextRunProps
  imports TextRun ChatAdapterProps ToolSieveProps
begin

text \<open>
  What a run over a chat stream gives: the text of its events is the text of the adapter as the sieve lets it through;
  the frames of a streaming client are those of the events, end once, and are the same whether they are written one by
  one or collected; and when the streamed text is the text of the answer that is not streamed.
\<close>

section \<open>Events of a run\<close>

definition runText :: "textRunEvent list \<Rightarrow> string" where
  "runText evs = concat (List.map_filter (\<lambda>ev. case ev of RvText t \<Rightarrow> Some t | _ \<Rightarrow> None) evs)"

definition runCalls :: "textRunEvent list \<Rightarrow> ParsedToolCall list list" where
  "runCalls = List.map_filter (\<lambda>ev. case ev of RvTools cs \<Rightarrow> Some cs | _ \<Rightarrow> None)"

lemma runEvents_append [simp]: "runText (xs @ ys) = runText xs @ runText ys" "runCalls (xs @ ys) = runCalls xs @ runCalls ys"
  by (simp_all add: runText_def runCalls_def map_filter_append)

lemma run_simps [simp]:
  "runText [] = []" "runCalls [] = []"
  "runText (RvText t # evs) = t @ runText evs" "runCalls (RvText t # evs) = runCalls evs"
  "runText (RvThinking t # evs) = runText evs" "runCalls (RvThinking t # evs) = runCalls evs"
  "runText (RvAnnotation a # evs) = runText evs" "runCalls (RvAnnotation a # evs) = runCalls evs"
  "runText (RvTools cs # evs) = runText evs" "runCalls (RvTools cs # evs) = cs # runCalls evs"
  by (simp_all add: runText_def runCalls_def List.map_filter_def)

lemma emitText_out [simp]:
  "tr_options (emitText t c) = tr_options c" "tr_adapter (emitText t c) = tr_adapter c" "tr_sieve (emitText t c) = tr_sieve c"
  "tr_called (emitText t c) = tr_called c" "tr_done (emitText t c) = tr_done c"
  "runText (tr_out (emitText t c)) = runText (tr_out c) @ t" "runCalls (tr_out (emitText t c)) = runCalls (tr_out c)"
  by (simp_all add: emitText_def emitRun_def)

lemma emitRun_out [simp]:
  "tr_options (emitRun ev c) = tr_options c" "tr_adapter (emitRun ev c) = tr_adapter c" "tr_sieve (emitRun ev c) = tr_sieve c"
  "tr_called (emitRun ev c) = tr_called c" "tr_done (emitRun ev c) = tr_done c" "tr_out (emitRun ev c) = tr_out c @ [ev]"
  by (simp_all add: emitRun_def)

section \<open>The sieve over the chunks of a run\<close>

lemma feedAll_snoc:
  "feedAll parse (xs @ [x]) s =
    (let ((y, cs), s1) = feedAll parse xs s; ((safe, calls), s2) = FeedSieve parse x s1
     in ((y @ safe, cs @ (case calls of None \<Rightarrow> [] | Some c \<Rightarrow> [c])), s2))"
  by (induction xs arbitrary: s) (simp_all split: prod.split option.split)

text \<open>The state of the sieve and the text and calls let through, for the chunks \<open>xs\<close>.\<close>

definition sieved :: "'g TextEnv \<Rightarrow> string list \<Rightarrow> 'g textRun \<Rightarrow> bool" where
  "sieved env xs c \<longleftrightarrow>
    (case tr_sieve c of
       None \<Rightarrow> runText (tr_out c) = concat xs \<and> runCalls (tr_out c) = []
     | Some s \<Rightarrow> (\<exists>cs. feedAll (te_parse env) xs (NewToolSieve (tr_toolNames (tr_options c))) = ((runText (tr_out c), cs), s) \<and>
         runCalls (tr_out c) = (if tr_disableTools (tr_options c) then [] else cs)))"

lemma sieved_new: "sieved env [] (newTextRun env opts)"
  by (simp add: sieved_def newTextRun_def)

lemma sieved_text: "sieved env xs c \<Longrightarrow> sieved env (xs @ [t]) (consumeTextEvent env t c)"
proof (cases "tr_sieve c")
  case (Some s)
  assume "sieved env xs c"
  then obtain cs where f: "feedAll (te_parse env) xs (NewToolSieve (tr_toolNames (tr_options c))) = ((runText (tr_out c), cs), s)"
    and r: "runCalls (tr_out c) = (if tr_disableTools (tr_options c) then [] else cs)"
    using Some by (auto simp: sieved_def)
  obtain safe calls s2 where g: "FeedSieve (te_parse env) t s = ((safe, calls), s2)" by (metis prod.exhaust_sel)
  have "feedAll (te_parse env) (xs @ [t]) (NewToolSieve (tr_toolNames (tr_options c))) =
      ((runText (tr_out c) @ safe, cs @ (case calls of None \<Rightarrow> [] | Some c \<Rightarrow> [c])), s2)"
    by (simp add: feedAll_snoc f g)
  then show ?thesis using r by (auto simp: sieved_def consumeTextEvent_def Some g Let_def split: option.split)
qed (simp add: sieved_def consumeTextEvent_def)

lemma consumeText_frame [simp]:
  "tr_options (consumeTextEvent env t c) = tr_options c" "tr_adapter (consumeTextEvent env t c) = tr_adapter c"
  "tr_done (consumeTextEvent env t c) = tr_done c" "tr_sieve (consumeTextEvent env t c) = None \<longleftrightarrow> tr_sieve c = None"
  by (simp_all add: consumeTextEvent_def Let_def split: option.split prod.split)

lemma consumeEvent_frame [simp]:
  "tr_options (consumeEvent env ev c) = tr_options c" "tr_adapter (consumeEvent env ev c) = tr_adapter c"
  "tr_done (consumeEvent env ev c) = tr_done c" "tr_sieve (consumeEvent env ev c) = None \<longleftrightarrow> tr_sieve c = None"
  by (simp_all add: consumeEvent_def split: FrameEvent.split)

lemma sieved_quiet: "runText [ev] = [] \<Longrightarrow> runCalls [ev] = [] \<Longrightarrow> sieved env xs (emitRun ev c) = sieved env xs c"
  by (simp add: sieved_def split: option.split)

lemma sieved_event: "sieved env xs c \<Longrightarrow> sieved env (xs @ textsOf [ev]) (consumeEvent env ev c)"
  by (cases ev) (simp_all add: consumeEvent_def sieved_text sieved_quiet)

lemma consumeEvents_going:
  "\<not> tr_stopAfterCall (tr_options c) \<Longrightarrow> sieved env xs c \<Longrightarrow>
    sieved env (xs @ textsOf evs) (consumeEvents env evs c) \<and> tr_options (consumeEvents env evs c) = tr_options c \<and>
    tr_adapter (consumeEvents env evs c) = tr_adapter c \<and> (tr_sieve (consumeEvents env evs c) = None \<longleftrightarrow> tr_sieve c = None)"
proof (induction evs arbitrary: c xs)
  case (Cons ev evs)
  have e: "consumeEvents env (ev # evs) c = consumeEvents env evs (consumeEvent env ev c)"
    using Cons.prems(1) by (simp add: stopsNow_def Let_def)
  have "sieved env ((xs @ textsOf [ev]) @ textsOf evs) (consumeEvents env evs (consumeEvent env ev c)) \<and>
    tr_options (consumeEvents env evs (consumeEvent env ev c)) = tr_options (consumeEvent env ev c) \<and>
    tr_adapter (consumeEvents env evs (consumeEvent env ev c)) = tr_adapter (consumeEvent env ev c) \<and>
    (tr_sieve (consumeEvents env evs (consumeEvent env ev c)) = None \<longleftrightarrow> tr_sieve (consumeEvent env ev c) = None)"
    using Cons.prems sieved_event [OF Cons.prems(2), of ev] by (intro Cons.IH) (simp_all del: events_Cons)
  then show ?case unfolding e by (simp flip: events_append(1))
qed simp

text \<open>The invariant of a run that goes on after tool calls.\<close>

definition sieving :: "textRunOptions \<Rightarrow> bool" where
  "sieving opts \<longleftrightarrow> tr_enableSieve opts \<and> (tr_toolNames opts \<noteq> [] \<or> tr_disableTools opts)"

definition run_inv :: "'g TextEnv \<Rightarrow> textRunOptions \<Rightarrow> 'g textRun \<Rightarrow> bool" where
  "run_inv env opts c \<longleftrightarrow> tr_options c = opts \<and> (\<exists>evs. adapter_inv (tr_thinkingSummary opts) evs (tr_adapter c)) \<and>
    sieved env (sa_textBuf (tr_adapter c)) c \<and> (tr_sieve c = None \<longleftrightarrow> \<not> sieving opts)"

lemma run_inv_new: "run_inv env opts (newTextRun env opts)"
proof -
  have "adapter_inv (tr_thinkingSummary opts) [] (tr_adapter (newTextRun env opts))" by (simp add: newTextRun_def new_inv)
  moreover have "sa_textBuf (tr_adapter (newTextRun env opts)) = []" by (simp add: newTextRun_def NewStreamAdapter_def)
  moreover have "tr_options (newTextRun env opts) = opts" "tr_sieve (newTextRun env opts) = None \<longleftrightarrow> \<not> sieving opts"
    by (simp_all add: newTextRun_def sieving_def)
  ultimately show ?thesis unfolding run_inv_def using sieved_new by metis
qed

lemma sieved_frame [simp]: "sieved env xs (c\<lparr>tr_adapter := a\<rparr>) = sieved env xs c" "sieved env xs (c\<lparr>tr_done := d\<rparr>) = sieved env xs c"
  by (simp_all add: sieved_def split: option.split)

lemma run_inv_line:
  assumes "\<not> tr_stopAfterCall opts" "run_inv env opts c" "ConsumeLine env l c = (r, c2)"
  shows "run_inv env opts c2"
proof (cases "\<exists>data. \<not> tr_done c \<and> ClassifyLine l = LineData data \<and> data \<noteq> []")
  case True
  then obtain data where d: "\<not> tr_done c" "ClassifyLine l = LineData data" "data \<noteq> []" by blast
  obtain out a where f: "FeedAdapter (te_adapter env) data (tr_adapter c) = (out, a)" by fastforce
  obtain evs where i: "adapter_inv (tr_thinkingSummary opts) evs (tr_adapter c)" using assms(2) by (auto simp: run_inv_def)
  show ?thesis
  proof (cases out)
    case (Inl e)
    then have "a = tr_adapter c" using f feed_error by metis
    then show ?thesis using assms(2,3) d f Inl by (auto simp: ConsumeLine_def)
  next
    case (Inr new)
    have c2: "c2 = consumeEvents env new (c\<lparr>tr_adapter := a\<rparr>)" using assms(3) d f Inr by (simp add: ConsumeLine_def)
    have b: "adapter_inv (tr_thinkingSummary opts) (evs @ new) a" using feed_inv [OF i] f Inr by simp
    have t: "sa_textBuf a = sa_textBuf (tr_adapter c) @ textsOf new" using b i by (simp add: adapter_inv_def)
    have "sieved env (sa_textBuf (tr_adapter c) @ textsOf new) c2 \<and> tr_options c2 = opts \<and> tr_adapter c2 = a \<and>
        (tr_sieve c2 = None \<longleftrightarrow> \<not> sieving opts)"
      unfolding c2 using consumeEvents_going [of "c\<lparr>tr_adapter := a\<rparr>" env "sa_textBuf (tr_adapter c)" new] assms(1,2)
      by (simp add: run_inv_def)
    then show ?thesis using b t by (auto simp: run_inv_def)
  qed
next
  case False
  then have "c2 = c \<or> c2 = c\<lparr>tr_done := True\<rparr>" using assms(3) by (auto simp: ConsumeLine_def split: LineKind.splits if_splits)
  then show ?thesis using assms(2) by (auto simp: run_inv_def)
qed

lemma run_inv_lines: "\<not> tr_stopAfterCall opts \<Longrightarrow> run_inv env opts c \<Longrightarrow> consumeRun env ls c = Inr c2 \<Longrightarrow> run_inv env opts c2"
proof (induction ls arbitrary: c)
  case (Cons l ls)
  obtain r c1 where l: "ConsumeLine env l c = (r, c1)" by fastforce
  show ?case using Cons.prems(3) l run_inv_line [OF Cons.prems(1,2) l] Cons.IH [OF Cons.prems(1), of c1]
    by (auto split: option.splits if_splits)
qed simp

text \<open>The end of a run adds only calls.\<close>

lemma flush_out:
  "runText (tr_out (flushRun env c)) = runText (tr_out c) \<and> tr_adapter (flushRun env c) = tr_adapter c \<and> tr_options (flushRun env c) = tr_options c"
  by (auto simp: flushRun_def Let_def split: option.split prod.split)

lemma run_text:
  assumes "consumeTextRunLines env ls opts = Inr (st, evs)" "\<not> tr_stopAfterCall opts" "\<not> tr_disableTools opts" "tr_toolNames opts = []"
  shows "runText evs = ru_text st"
proof -
  obtain c where c: "consumeRun env ls (newTextRun env opts) = Inr c" "st = runState env (flushRun env c)" "evs = tr_out (flushRun env c)"
    using assms(1) by (auto simp: consumeTextRunLines_def FinishRun_def Let_def split: sum.splits)
  have i: "run_inv env opts c" using run_inv_lines [OF assms(2) run_inv_new c(1)] .
  have "tr_sieve c = None" using i assms(3,4) by (simp add: run_inv_def sieving_def)
  then show ?thesis using i flush_out [of env c] assms(3) by (simp add: c run_inv_def sieved_def runState_def Let_def)
qed

section \<open>Chat frames are the frames of the events\<close>

lemma frames_append:
  "framesForEvents opts (xs @ ys) called =
    (case framesForEvents opts xs called of (fs, called) \<Rightarrow> case framesForEvents opts ys called of (gs, called) \<Rightarrow> (fs @ gs, called))"
proof (induction xs arbitrary: called)
  case (Cons x xs)
  show ?case
  proof (cases "cc_isStream opts")
    case False
    then have "framesForEvents opts zs b = ([], b)" for zs b by (cases zs) simp_all
    then show ?thesis by simp
  next
    case True
    then show ?thesis by (cases called; cases x) (simp_all add: Cons.IH split: prod.split)
  qed
qed (simp split: prod.split)

lemma events_out: "\<exists>new. tr_out (consumeEvents env evs c) = tr_out c @ new"
proof (induction evs arbitrary: c)
  case (Cons ev evs)
  have out: "\<exists>new. tr_out (consumeTextEvent env t d) = tr_out d @ new" for t and d :: "'a textRun"
    by (simp add: consumeTextEvent_def emitText_def emitRun_def Let_def split: option.split prod.split)
  have "\<exists>new. tr_out (consumeEvent env ev d) = tr_out d @ new" for d :: "'a textRun"
    by (simp add: consumeEvent_def out split: FrameEvent.split)
  then obtain new where n: "tr_out (consumeEvent env ev c) = tr_out c @ new" by blast
  obtain rest where "tr_out (consumeEvents env evs (consumeEvent env ev c)) = tr_out (consumeEvent env ev c) @ rest" using Cons.IH by blast
  then show ?case using n Cons.IH [of c] by (simp add: Let_def)
qed simp

lemma line_out: "ConsumeLine env l c = (r, c2) \<Longrightarrow> \<exists>new. tr_out c2 = tr_out c @ new"
  using events_out [of env _ "c\<lparr>tr_adapter := _\<rparr>"]
  by (auto simp: ConsumeLine_def split: LineKind.splits if_splits sum.splits prod.splits)

lemma lines_out: "consumeRun env ls c = Inr c2 \<Longrightarrow> \<exists>new. tr_out c2 = tr_out c @ new"
proof (induction ls arbitrary: c)
  case (Cons l ls)
  obtain r c1 where l: "ConsumeLine env l c = (r, c1)" by fastforce
  then obtain new where n: "tr_out c1 = tr_out c @ new" using line_out by blast
  show ?case using Cons.prems l n Cons.IH [of c1] by (fastforce split: option.splits if_splits)
qed simp

text \<open>The chat run \<open>c\<close> after the run \<open>r\<close> has gone on.\<close>

definition advanced :: "'g chatConsumer \<Rightarrow> 'g textRun \<Rightarrow> chatFrame list \<times> 'g chatConsumer" where
  "advanced c r =
    (let evs = drop (length (tr_out (ch_run c))) (tr_out r); (frames, called) = framesForEvents (ch_options c) evs (ch_called c)
     in (frames, c\<lparr>ch_run := r, ch_done := tr_done r, ch_called := called, ch_cursor := ch_cursor c + length evs\<rparr>))"

lemma chat_line:
  "ConsumeChat env l c =
    (case ConsumeLine env l (ch_run c) of
       (Some e, r) \<Rightarrow> (Inl e, c\<lparr>ch_run := r\<rparr>)
     | (None, r) \<Rightarrow> (Inr (fst (advanced c r)), snd (advanced c r)))"
  by (simp add: ConsumeChat_def advanced_def Let_def split: prod.split option.split)

lemma advanced_again:
  assumes "tr_out r = tr_out (ch_run c) @ xs" "tr_out r2 = tr_out r @ ys"
  shows "advanced c r2 = (fst (advanced c r) @ fst (advanced (snd (advanced c r)) r2), snd (advanced (snd (advanced c r)) r2))"
  using assms by (simp add: advanced_def Let_def frames_append split: prod.split)

lemma advanced_run [simp]: "ch_run (snd (advanced c r)) = r" "ch_done (snd (advanced c r)) = tr_done r"
  by (simp_all add: advanced_def Let_def split: prod.split)

lemma chat_lines:
  "ch_done c = tr_done (ch_run c) \<Longrightarrow>
    consumeChat env ls c = (case consumeRun env ls (ch_run c) of Inl e \<Rightarrow> Inl e | Inr r \<Rightarrow> Inr (advanced c r))"
proof (induction ls arbitrary: c)
  case Nil
  then show ?case by (cases c) (simp add: advanced_def)
next
  case (Cons l ls)
  obtain e r where l: "ConsumeLine env l (ch_run c) = (e, r)" by fastforce
  obtain xs where x: "tr_out r = tr_out (ch_run c) @ xs" using line_out [OF l] by blast
  show ?case
  proof (cases e)
    case None
    have ih: "consumeChat env ls (snd (advanced c r)) =
        (case consumeRun env ls r of Inl x \<Rightarrow> Inl x | Inr r2 \<Rightarrow> Inr (advanced (snd (advanced c r)) r2))"
      using Cons.IH [of "snd (advanced c r)"] by simp
    have again: "consumeRun env ls r = Inr r2 \<Longrightarrow> advanced c r2 =
        (fst (advanced c r) @ fst (advanced (snd (advanced c r)) r2), snd (advanced (snd (advanced c r)) r2))" for r2
      using lines_out [of env ls r r2] advanced_again [OF x] by blast
    show ?thesis
    proof (cases "tr_done r")
      case True
      then show ?thesis using l None by (simp add: chat_line)
    next
      case False
      show ?thesis
      proof (cases "consumeRun env ls r")
        case (Inl f)
        then show ?thesis using l None False by (simp add: chat_line ih)
      next
        case (Inr r2)
        then show ?thesis using l None False again [OF Inr] by (simp add: chat_line ih case_prod_beta)
      qed
    qed
  qed (simp add: chat_line l)
qed

definition finalFrames :: "consumeChatOptions \<Rightarrow> textRunState \<Rightarrow> bool \<Rightarrow> chatFrame list" where
  "finalFrames opts st called = (if cc_isStream opts \<and> \<not> called then [CfFinal (ru_annotations st) (ru_sources st), CfDone] else [])"

lemma flush_more: "\<exists>new. tr_out (flushRun env c) = tr_out c @ new"
  by (simp add: flushRun_def Let_def split: option.split prod.split)

lemma finish_frames:
  assumes "ch_cursor c = length (tr_out (ch_run c))"
  shows "FinishChat env c =
    (let (st, r) = FinishRun env (ch_run c); (fs, called) = framesForEvents (ch_options c) (drop (ch_cursor c) (tr_out r)) (ch_called c)
     in (st, fs @ finalFrames (ch_options c) st called))"
  by (simp add: FinishChat_def finalFrames_def Let_def split: prod.split)

text \<open>Collecting frames line by line gives the frames of all the events of the run.\<close>

lemma chat_refines_run:
  "consumeChatLines env ls opts =
    (case consumeTextRunLines env ls (chatTextOptions opts) of
       Inl e \<Rightarrow> Inl e
     | Inr (st, evs) \<Rightarrow> (case framesForEvents opts evs False of (fs, called) \<Rightarrow> Inr (st, fs @ finalFrames opts st called)))"
proof (cases "consumeRun env ls (newTextRun env (chatTextOptions opts))")
  case (Inl e)
  then show ?thesis using chat_lines [of "newChatConsumer env opts" env ls]
    by (simp add: consumeChatLines_def consumeTextRunLines_def newChatConsumer_def newTextRun_def)
next
  case (Inr r)
  let ?c = "newChatConsumer env opts"
  obtain fs called where f: "framesForEvents opts (tr_out r) False = (fs, called)" by fastforce
  obtain new where n: "tr_out (flushRun env r) = tr_out r @ new" using flush_more by blast
  let ?d = "?c\<lparr>ch_run := r, ch_done := tr_done r, ch_called := called, ch_cursor := length (tr_out r)\<rparr>"
  have c: "ch_run ?c = newTextRun env (chatTextOptions opts)" "ch_options ?c = opts" "\<not> ch_called ?c" "ch_cursor ?c = 0"
      "ch_done ?c = tr_done (ch_run ?c)" "tr_out (newTextRun env (chatTextOptions opts)) = []"
    by (simp_all add: newChatConsumer_def newTextRun_def)
  have a: "advanced ?c r = (fs, ?d)" using f c by (simp add: advanced_def)
  have l: "consumeChat env ls ?c = Inr (fs, ?d)" using chat_lines [OF c(5), of env ls] Inr c(1) a by simp
  have e: "FinishChat env ?d = (runState env (flushRun env r),
      (case framesForEvents opts new called of (gs, called) \<Rightarrow> gs @ finalFrames opts (runState env (flushRun env r)) called))"
    using n c(2) by (simp add: finish_frames FinishRun_def Let_def case_prod_beta)
  show ?thesis unfolding consumeChatLines_def consumeTextRunLines_def l Inr
    using f n by (simp add: e FinishRun_def Let_def frames_append case_prod_beta)
qed

section \<open>The sieve option does not matter without tools\<close>

definition sieveOption :: "bool \<Rightarrow> 'g textRun \<Rightarrow> 'g textRun" where
  "sieveOption b c = c\<lparr>tr_options := (tr_options c)\<lparr>tr_enableSieve := b\<rparr>\<rparr>"

lemma option_text: "consumeTextEvent env t (sieveOption b c) = sieveOption b (consumeTextEvent env t c)"
  by (simp add: consumeTextEvent_def emitText_def emitRun_def sieveOption_def Let_def split: option.split prod.split)

lemma option_event: "consumeEvent env ev (sieveOption b c) = sieveOption b (consumeEvent env ev c)"
  by (cases ev) (simp_all add: consumeEvent_def option_text, simp_all add: emitRun_def sieveOption_def)

lemma option_stops: "stopsNow (sieveOption b c) = stopsNow c"
  by (simp add: stopsNow_def sieveOption_def)

lemma option_done [simp]:
  "tr_done (sieveOption b c) = tr_done c" "tr_out (sieveOption b c) = tr_out c" "tr_adapter (sieveOption b c) = tr_adapter c"
  "sieveOption b c\<lparr>tr_done := d\<rparr> = sieveOption b (c\<lparr>tr_done := d\<rparr>)"
  "sieveOption b c\<lparr>tr_adapter := a\<rparr> = sieveOption b (c\<lparr>tr_adapter := a\<rparr>)"
  by (cases c, simp add: sieveOption_def)+

lemma option_events: "consumeEvents env evs (sieveOption b c) = sieveOption b (consumeEvents env evs c)"
  by (induction evs arbitrary: c) (simp_all add: option_event option_stops option_done Let_def)

lemma option_line: "ConsumeLine env l (sieveOption b c) = (let (r, d) = ConsumeLine env l c in (r, sieveOption b d))"
  by (simp add: ConsumeLine_def option_events split: LineKind.split prod.split sum.split)

lemma option_lines: "consumeRun env ls (sieveOption b c) = map_sum id (sieveOption b) (consumeRun env ls c)"
proof (induction ls arbitrary: c)
  case (Cons l ls)
  obtain r d where "ConsumeLine env l c = (r, d)" by fastforce
  then show ?case by (cases r) (simp_all add: option_line Cons.IH)
qed simp

lemma option_new: "tr_toolNames opts = [] \<Longrightarrow> \<not> tr_disableTools opts \<Longrightarrow>
    newTextRun env (opts\<lparr>tr_enableSieve := b\<rparr>) = sieveOption b (newTextRun env opts)"
  by (simp add: newTextRun_def sieveOption_def)

lemma option_finish: "FinishRun env (sieveOption b c) = (let (st, d) = FinishRun env c in (st, sieveOption b d))"
proof -
  have "flushRun env (sieveOption b c) = sieveOption b (flushRun env c)"
    by (simp add: flushRun_def emitRun_def sieveOption_def Let_def split: option.split prod.split)
  moreover have "runState env (sieveOption b d) = runState env d" for d :: "'a textRun"
    by (simp add: runState_def sieveOption_def Let_def)
  ultimately show ?thesis by (simp add: FinishRun_def Let_def)
qed

lemma option_run:
  assumes "tr_toolNames opts = []" "\<not> tr_disableTools opts"
  shows "consumeTextRunLines env ls (opts\<lparr>tr_enableSieve := b\<rparr>) = consumeTextRunLines env ls opts"
  unfolding consumeTextRunLines_def option_new [OF assms] option_lines
  by (cases "consumeRun env ls (newTextRun env opts)") (simp_all add: option_finish case_prod_beta Let_def)

section \<open>Shape of a stream\<close>

definition streamedText :: "chatFrame list \<Rightarrow> string" where
  "streamedText fs = concat (List.map_filter (\<lambda>f. case f of CfText t \<Rightarrow> Some t | _ \<Rightarrow> None) fs)"

primrec bodyFrame :: "chatFrame \<Rightarrow> bool" where
  "bodyFrame (CfText t) = True"
| "bodyFrame (CfThinking t) = True"
| "bodyFrame (CfTool i call) = True"
| "bodyFrame CfToolDone = False"
| "bodyFrame (CfFinal anns sources) = False"
| "bodyFrame CfDone = False"

lemma streamed_simps [simp]:
  "streamedText [] = []" "streamedText (CfText t # fs) = t @ streamedText fs" "streamedText (CfThinking t # fs) = streamedText fs"
  "streamedText (CfFinal anns sources # fs) = streamedText fs" "streamedText (CfDone # fs) = streamedText fs"
  "streamedText (fs @ gs) = streamedText fs @ streamedText gs"
  by (simp_all add: streamedText_def List.map_filter_def)

lemma frames_called: "framesForEvents opts evs True = ([], True)"
  by (induction evs) simp_all

lemma frames_text:
  "cc_isStream opts \<Longrightarrow> runCalls evs = [] \<Longrightarrow> framesForEvents opts evs False = (fs, called) \<Longrightarrow> streamedText fs = runText evs \<and> \<not> called"
proof (induction evs arbitrary: fs)
  case (Cons ev evs)
  obtain gs c where g: "framesForEvents opts evs False = (gs, c)" by fastforce
  then show ?case using Cons by (cases ev) auto
qed simp

lemma frames_shape:
  "framesForEvents opts evs False = (fs, called) \<Longrightarrow>
    (\<exists>body. fs = body @ (if called then [CfToolDone, CfDone] else []) \<and> list_all bodyFrame body)"
proof (induction evs arbitrary: fs called)
  case (Cons ev evs)
  show ?case
  proof (cases ev)
    case (RvTools cs)
    have "list_all bodyFrame (map (\<lambda>(i, call). CfTool i call) (enumerate 0 cs))" by (auto simp: list_all_iff)
    then show ?thesis using Cons.prems RvTools
      by (auto simp: frames_called appendToolCallFrames_def split: if_splits intro!: exI [of _ "map (\<lambda>(i, call). CfTool i call) (enumerate 0 cs)"])
  next
    case (RvThinking t)
    then obtain gs where g: "framesForEvents opts evs False = (gs, called) \<or> gs = [] \<and> \<not> called"
        "fs = (if cc_isStream opts \<and> cc_emitThink opts \<and> t \<noteq> [] then [CfThinking t] else []) @ gs"
      using Cons.prems by (fastforce split: if_splits prod.splits)
    then obtain body where "gs = body @ (if called then [CfToolDone, CfDone] else [])" "list_all bodyFrame body" using Cons.IH by force
    then show ?thesis using g(2)
      by (intro exI [of _ "(if cc_isStream opts \<and> cc_emitThink opts \<and> t \<noteq> [] then [CfThinking t] else []) @ body"]) simp
  next
    case (RvText t)
    then obtain gs where g: "framesForEvents opts evs False = (gs, called) \<or> gs = [] \<and> \<not> called"
        "fs = (if cc_isStream opts \<and> t \<noteq> [] then [CfText t] else []) @ gs"
      using Cons.prems by (fastforce split: if_splits prod.splits)
    then obtain body where "gs = body @ (if called then [CfToolDone, CfDone] else [])" "list_all bodyFrame body" using Cons.IH by force
    then show ?thesis using g(2) by (intro exI [of _ "(if cc_isStream opts \<and> t \<noteq> [] then [CfText t] else []) @ body"]) simp
  next
    case (RvAnnotation a)
    then show ?thesis using Cons by (fastforce split: if_splits prod.splits)
  qed
qed simp

lemma appendImages_longer:
  "appendImageTexts t is = t \<longleftrightarrow> list_all (\<lambda>i. i = []) is" "length t \<le> length (appendImageTexts t is)"
proof -
  have "length t \<le> length (appendImageTexts t is) \<and> (appendImageTexts t is = t \<longleftrightarrow> list_all (\<lambda>i. i = []) is) \<and>
      (\<not> list_all (\<lambda>i. i = []) is \<longrightarrow> length t < length (appendImageTexts t is))"
  proof (induction "is" arbitrary: t)
    case (Cons i "is")
    show ?case
    proof (cases "i = []")
      case False
      let ?u = "(if t \<noteq> [] then t @ [CHR 0x0A, CHR 0x0A] else t) @ i"
      have l: "length t < length ?u" using False by simp
      have "length ?u \<le> length (appendImageTexts ?u is)" using Cons.IH by blast
      then have "length t < length (appendImageTexts t (i # is))" using l False by simp
      then show ?thesis using False by auto
    qed (simp add: Cons.IH)
  qed simp
  then show "appendImageTexts t is = t \<longleftrightarrow> list_all (\<lambda>i. i = []) is" "length t \<le> length (appendImageTexts t is)" by simp_all
qed

lemma append_same: "length t \<le> length u \<Longrightarrow> t = u @ r \<longleftrightarrow> u = t \<and> r = []"
  by auto

lemma resolved_texts: "list_all (\<lambda>i. i = []) (resolvedImages env token is) \<longleftrightarrow> resolvedImages env token is = []"
proof -
  have "[] \<notin> set (resolvedImages env token is)" by (auto simp: resolvedImages_def List.map_filter_def split: sum.splits if_splits)
  then show ?thesis by (cases "resolvedImages env token is") auto
qed

section \<open>Writing frames one by one\<close>

lemma advanced_still: "ch_done c = tr_done (ch_run c) \<Longrightarrow> advanced c (ch_run c) = ([], c)"
  by (cases c) (simp add: advanced_def)

lemma incremental_done: "tr_done (ch_run c) \<Longrightarrow> ch_done c \<Longrightarrow> consumeIncremental env ls c = ([], Inr c)"
  by (induction ls) (simp_all add: chat_line ConsumeLine_def advanced_still)

lemma incremental_collected:
  "ch_done c = tr_done (ch_run c) \<Longrightarrow>
    (case consumeChat env ls c of
       Inl e \<Rightarrow> snd (consumeIncremental env ls c) = Inl e
     | Inr (fs, d) \<Rightarrow> consumeIncremental env ls c = (fs, Inr d))"
proof (induction ls arbitrary: c)
  case (Cons l ls)
  obtain e r where l: "ConsumeLine env l (ch_run c) = (e, r)" by fastforce
  show ?case
  proof (cases e)
    case None
    let ?d = "snd (advanced c r)"
    show ?thesis
    proof (cases "tr_done r")
      case True
      then show ?thesis using l None by (simp add: chat_line incremental_done case_prod_beta)
    next
      case False
      then show ?thesis using l None Cons.IH [of ?d] by (simp add: chat_line case_prod_beta split: sum.splits)
    qed
  qed (simp add: l chat_line)
qed simp

section \<open>Properties\<close>

text \<open>An upstream without reasoning aggregator whose JSON parser knows a few documents.\<close>

definition sampleUnmarshal :: "string \<Rightarrow> json option" where
  "sampleUnmarshal s =
    (if s = ''a'' then Some (JObj [(''result'', JObj [(''response'', JObj [(''token'', JStr ''Hi''), (''messageTag'', JStr ''final'')])])])
     else if s = ''b'' then Some (JObj [(''error'', JObj [(''message'', JStr ''rate limit'')])])
     else None)"

definition sampleTextEnv :: "unit TextEnv" where
  "sampleTextEnv =
    \<lparr>te_adapter = \<lparr>ae_json = \<lparr>jo_unmarshal = sampleUnmarshal, jo_marshal = (\<lambda>v. []), jo_sprint = (\<lambda>v. [])\<rparr>, ae_assets = [], ae_iter = (\<lambda>m. m),
       ae_fresh = (), ae_onThinking = (\<lambda>raw tag rollout step g. ([], g)), ae_onToolUsage = (\<lambda>name args rollout step g. ([], g)),
       ae_finalize = (\<lambda>g. ([], g)), ae_normalizeKey = (\<lambda>k. k)\<rparr>,
     te_parse = (\<lambda>block names. (False, [])), te_resolve = (\<lambda>token url uuid. Inr []), te_tokens = (\<lambda>t. int (length t)),
     te_callTokens = (\<lambda>cs. int (length cs))\<rparr>"

definition sampleChatOptions :: consumeChatOptions where
  "sampleChatOptions = \<lparr>cc_token = ''t'', cc_emitThink = False, cc_isStream = False, cc_toolNames = [], cc_disableTools = False\<rparr>"

text \<open>C13. Without tools, the text a streaming client receives is the text of the answer that is not streamed exactly when the
  upstream sent no image that could be loaded and no source to list: these are in the answer and in no frame.\<close>

theorem stream_is_answer:
  assumes "consumeChatLines env ls (opts\<lparr>cc_isStream := True\<rparr>) = Inr (st, frames)"
    and "cc_toolNames opts = []" and "\<not> cc_disableTools opts"
  shows "case consumeChatLines env ls (opts\<lparr>cc_isStream := False\<rparr>) of
      Inl e \<Rightarrow> False
    | Inr (st, none) \<Rightarrow> streamedText frames = fullText st \<longleftrightarrow> ru_imageTexts st = [] \<and> ru_references st = []"
proof -
  let ?o = "opts\<lparr>cc_isStream := True\<rparr>" and ?n = "opts\<lparr>cc_isStream := False\<rparr>"
  have o: "chatTextOptions ?n = (chatTextOptions ?o)\<lparr>tr_enableSieve := False\<rparr>" by (simp add: chatTextOptions_def)
  obtain evs fs called where r: "consumeTextRunLines env ls (chatTextOptions ?o) = Inr (st, evs)"
    and f: "framesForEvents ?o evs False = (fs, called)" and frames: "frames = fs @ finalFrames ?o st called"
    using assms(1) unfolding chat_refines_run by (auto split: sum.splits prod.splits)
  have same: "consumeTextRunLines env ls (chatTextOptions ?n) = Inr (st, evs)"
    unfolding o using option_run [of "chatTextOptions ?o" env ls False] r assms(2,3) by (simp add: chatTextOptions_def)
  obtain st1 c where n: "consumeRun env ls (newTextRun env (chatTextOptions ?o)) = Inr c" "st = runState env (flushRun env c)"
      "evs = tr_out (flushRun env c)"
    using r by (auto simp: consumeTextRunLines_def FinishRun_def Let_def split: sum.splits)
  have i: "run_inv env (chatTextOptions ?o) c" using run_inv_lines [OF _ run_inv_new n(1)] by (simp add: chatTextOptions_def)
  have s: "tr_sieve c = None" using i assms(2,3) by (simp add: run_inv_def sieving_def chatTextOptions_def)
  have "runCalls evs = []" "runText evs = concat (sa_textBuf (tr_adapter c))"
    using i s by (simp_all add: n flushRun_def run_inv_def sieved_def)
  moreover have "ru_text st = concat (sa_textBuf (tr_adapter c))"
    using i s assms(3) by (simp add: n flushRun_def runState_def run_inv_def chatTextOptions_def Let_def)
  ultimately have t: "streamedText frames = ru_text st"
    using frames_text [of ?o evs fs called] f by (simp add: frames finalFrames_def)
  have images: "list_all (\<lambda>i. i = []) (ru_imageTexts st) \<longleftrightarrow> ru_imageTexts st = []"
    by (simp add: n(2) runState_def resolved_texts Let_def)
  have "ru_text st = fullText st \<longleftrightarrow> ru_imageTexts st = [] \<and> ru_references st = []"
    unfolding fullText_def images [symmetric] append_same [OF appendImages_longer(2)] appendImages_longer(1) ..
  then show ?thesis unfolding chat_refines_run same using t by (simp split: prod.split)
qed

lemma sample_lines:
  "ClassifyLine ''data: a'' = LineData ''a''" "ClassifyLine ''data: b'' = LineData ''b''" "ClassifyLine ''data: [DONE]'' = LineDone"
  by (simp_all add: ClassifyLine_def trimSpace_def segs_ascii asciiString_def byteOf_def isSpaceRune_def hasPrefix_def Let_def)

lemma sample_cleanToken: "cleanToken env ''Hi'' a = ((''Hi'', []), a)"
proof -
  have "\<not> containsStr ''Hi'' ''<grok:render''" by code_simp
  then show ?thesis by (simp add: cleanToken_def)
qed

lemma sample_feed:
  "FeedAdapter (te_adapter sampleTextEnv) ''a'' a =
    (Inr [EvText ''Hi''], a\<lparr>sa_contentStarted := True, sa_textBuf := sa_textBuf a @ [''Hi''], sa_textOffset := sa_textOffset a + 2\<rparr>)"
  by (simp add: FeedAdapter_def sampleTextEnv_def sampleUnmarshal_def StreamErrorFromPayload_def asObj_def jget_def feedImages_def
    ExtractStreamingImageEditResponse_def ExtractModelResponseImageEditURLs_def collectSearchResults_def feedToken_def boolFromAny_def
    stringFromAny_def sprintJson_def feedFinal_def sample_cleanToken)

lemma sample_run:
  "consumeChatLines sampleTextEnv [''data: a'', ''data: [DONE]''] (sampleChatOptions\<lparr>cc_isStream := b\<rparr>) =
    Inr (\<lparr>ru_text = ''Hi'', ru_thinking = [], ru_imageTexts = [], ru_references = [], ru_annotations = [], ru_sources = [], ru_calls = [],
      ru_suppressed = False\<rparr>, if b then [CfText ''Hi'', CfFinal [] [], CfDone] else [])"
  by (simp add: chat_refines_run consumeTextRunLines_def ConsumeLine_def sample_lines sample_feed newTextRun_def chatTextOptions_def
    sampleChatOptions_def consumeEvent_def consumeTextEvent_def emitText_def emitRun_def stopsNow_def FinishRun_def flushRun_def
    runState_def NewStreamAdapter_def resolvedImages_def ReferencesSuffix_def SearchSourcesList_def finalFrames_def Let_def)

text \<open>C18. Collecting the frames of a stream and writing them as they come give the same frames and the same error.\<close>

theorem incremental_equiv:
  "case consumeChatLines env ls opts of
     Inl e \<Rightarrow> snd (chatIncremental env ls opts) = Some e
   | Inr (st, frames) \<Rightarrow> chatIncremental env ls opts = (frames, None)"
proof -
  have "ch_done (newChatConsumer env opts) = tr_done (ch_run (newChatConsumer env opts))" by (simp add: newChatConsumer_def newTextRun_def)
  from incremental_collected [OF this, of env ls] show ?thesis
    by (simp add: consumeChatLines_def chatIncremental_def case_prod_beta split: sum.splits prod.splits)
qed

text \<open>A stream that ends without an error ends once: its last two frames are the reason it finished for and the end mark,
  and no frame before them is either.\<close>

theorem stream_ends_once:
  assumes "consumeChatLines env ls opts = Inr (st, frames)" and "cc_isStream opts"
  shows "\<exists>body x. frames = body @ [x, CfDone] \<and> x \<in> {CfToolDone, CfFinal (ru_annotations st) (ru_sources st)} \<and> list_all bodyFrame body"
proof -
  obtain evs fs called where f: "framesForEvents opts evs False = (fs, called)" and frames: "frames = fs @ finalFrames opts st called"
    using assms(1) unfolding chat_refines_run by (auto split: sum.splits prod.splits)
  from frames_shape [OF f] obtain body where "fs = body @ (if called then [CfToolDone, CfDone] else [])" "list_all bodyFrame body" by blast
  then have "frames = body @ [if called then CfToolDone else CfFinal (ru_annotations st) (ru_sources st), CfDone]"
    using assms(2) by (simp add: frames finalFrames_def)
  with \<open>list_all bodyFrame body\<close> show ?thesis by (metis insertCI)
qed

theorem stream_is_answer_witness:
  "case consumeChatLines sampleTextEnv [''data: a'', ''data: [DONE]''] (sampleChatOptions\<lparr>cc_isStream := False\<rparr>) of
      Inl e \<Rightarrow> False
    | Inr (st, none) \<Rightarrow> streamedText [CfText ''Hi'', CfFinal [] [], CfDone] = fullText st \<longleftrightarrow> ru_imageTexts st = [] \<and> ru_references st = []"
  by (rule stream_is_answer [OF sample_run [of True, simplified]]) (simp_all add: sampleChatOptions_def)

theorem stream_ends_once_witness:
  "\<exists>body x. [CfText ''Hi'', CfFinal [] [], CfDone] = body @ [x, CfDone] \<and> x \<in> {CfToolDone, CfFinal [] []} \<and> list_all bodyFrame body"
  using stream_ends_once [OF sample_run [of True, simplified]] by simp

lemma sample_error:
  "FeedAdapter (te_adapter sampleTextEnv) ''b'' a =
    (Inl (NewUpstreamError ''Upstream stream error: rate limit'' 429 ''{\"error\":{\"message\":}}''), a)"
proof -
  have "goLower ''rate limit'' = ''rate limit''" by code_simp
  moreover have "containsStr ''rate limit'' ''rate limit''" by code_simp
  ultimately have "StreamErrorFromPayload (ae_json (te_adapter sampleTextEnv)) [(''error'', JObj [(''message'', JStr ''rate limit'')])] =
      Some (NewUpstreamError ''Upstream stream error: rate limit'' 429 ''{\"error\":{\"message\":}}'')"
    by (simp add: StreamErrorFromPayload_def asObj_def jget_def sprintJson_def defaultString_def sampleTextEnv_def marshalStreamErrorBody_def Let_def)
  then show ?thesis by (simp add: FeedAdapter_def) (simp add: sampleTextEnv_def sampleUnmarshal_def)
qed

text \<open>An error after the first frames: the frames are written, and the error is one the dispatch answers with a new attempt, which
  writes its frames after them.\<close>

lemma frames_before_error:
  "chatIncremental sampleTextEnv [''data: a'', ''data: b''] (sampleChatOptions\<lparr>cc_isStream := True\<rparr>) =
    ([CfText ''Hi''], Some (NewUpstreamError ''Upstream stream error: rate limit'' 429 ''{\"error\":{\"message\":}}''))"
  by (simp add: chatIncremental_def ConsumeChat_def ConsumeLine_def sample_lines sample_feed sample_error newChatConsumer_def newTextRun_def
    chatTextOptions_def sampleChatOptions_def consumeEvent_def consumeTextEvent_def emitText_def emitRun_def stopsNow_def Let_def)

end
