(* ===== verification/ChatService.thy ===== *)
theory ChatService
  imports DispatchProps TextRunProps
begin

text \<open>
  A chat request from the pool of accounts to the client (\<open>runChatCompletionAttempt\<close> of \<open>products/openai/chat.go\<close>,
  \<open>streamChat\<close> and \<open>streamChatIncremental\<close> of \<open>chat_stream.go\<close>): the attempt with one account reads the lines of the upstream and
  writes or collects frames, and the dispatch repeats it with other accounts. Sending the request is an argument, which
  gives the lines that came and the error that ended them, if any; writing to the client does not fail.
\<close>

section \<open>An attempt\<close>

datatype chatResult = CrWritten | CrFrames "chatFrame list" | CrAnswer chatAnswer

record ('g, 'v) chatPlan =
  pl_text :: "'g TextEnv"
  pl_post :: "chatAccount \<Rightarrow> 'v \<Rightarrow> (string list \<times> goerr option) \<times> 'v"
  pl_options :: consumeChatOptions
  pl_incremental :: bool
  pl_message :: string

definition streamChat :: "('g, 'v) chatPlan \<Rightarrow> chatAccount \<Rightarrow> 'v \<Rightarrow> (goerr + string list) \<times> 'v" where
  "streamChat plan account v =
    (case pl_post plan account v of
       ((ls, Some e), v) \<Rightarrow> (Inl e, v)
     | ((ls, None), v) \<Rightarrow> (Inr ls, v))"

text \<open>The frames that were written, and the run or the error.\<close>

definition streamChatIncremental ::
    "('g, 'v) chatPlan \<Rightarrow> chatAccount \<Rightarrow> 'g chatConsumer \<Rightarrow> 'v \<Rightarrow> (chatFrame list \<times> (goerr + 'g chatConsumer)) \<times> 'v" where
  "streamChatIncremental plan account c v =
    (case pl_post plan account v of
       ((ls, err), v) \<Rightarrow>
         (case consumeIncremental (pl_text plan) ls c of
            (frames, Inl e) \<Rightarrow> ((frames, Inl e), v)
          | (frames, Inr c) \<Rightarrow> ((frames, case err of Some e \<Rightarrow> Inl e | None \<Rightarrow> Inr c), v)))"

definition accountOptions :: "('g, 'v) chatPlan \<Rightarrow> chatAccount \<Rightarrow> consumeChatOptions" where
  "accountOptions plan account = (pl_options plan)\<lparr>cc_token := ca_token account\<rparr>"

text \<open>The frames written to the client, the result, and the upstream afterwards.\<close>

definition runChatCompletionAttempt ::
    "('g, 'v) chatPlan \<Rightarrow> chatAccount \<Rightarrow> 'v \<Rightarrow> (chatFrame list \<times> (goerr + chatResult)) \<times> 'v" where
  "runChatCompletionAttempt plan account v =
    (let env = pl_text plan; opts = accountOptions plan account
     in if cc_isStream opts \<and> pl_incremental plan then
          (case streamChatIncremental plan account (newChatConsumer env opts) v of
             ((frames, Inl e), v) \<Rightarrow> ((frames, Inl e), v)
           | ((frames, Inr c), v) \<Rightarrow> ((frames @ snd (FinishChat env c), Inr CrWritten), v))
        else
          (case streamChat plan account v of
             (Inl e, v) \<Rightarrow> (([], Inl e), v)
           | (Inr ls, v) \<Rightarrow>
               (case consumeChatLines env ls opts of
                  Inl e \<Rightarrow> (([], Inl e), v)
                | Inr (st, frames) \<Rightarrow>
                    (([], Inr (if cc_isStream opts then CrFrames frames
                       else CrAnswer (buildNonStreamChatResponse env st (pl_message plan) (cc_emitThink opts) (cc_toolNames opts)))), v))))"

section \<open>The service\<close>

text \<open>The upstream with a log of the attempts: account, error and frames written.\<close>

type_synonym attemptLog = "(string \<times> goerr option \<times> chatFrame list) list"

definition loggedAttempt :: "('g, 'v) chatPlan \<Rightarrow> chatAccount \<Rightarrow> 'v \<times> attemptLog \<Rightarrow> (goerr + chatResult) \<times> ('v \<times> attemptLog)" where
  "loggedAttempt plan account u =
    (case runChatCompletionAttempt plan account (fst u) of
       ((frames, r), v) \<Rightarrow> (r, (v, snd u @ [(ca_token account, errOf r, frames)])))"

definition serve ::
    "('v \<times> attemptLog, chatResult) ChatEnv \<Rightarrow> ('g, 'v) chatPlan \<Rightarrow> ModelSpec \<Rightarrow> ('v \<times> attemptLog) ChatWorld \<Rightarrow>
     (goerr + chatResult) \<times> ('v \<times> attemptLog) ChatWorld" where
  "serve env plan spec w = chatCompletions (env\<lparr>ce_attempt := loggedAttempt plan\<rparr>) spec w"

definition writtenFrames :: "attemptLog \<Rightarrow> chatFrame list" where
  "writtenFrames lg = concat (map (snd \<circ> snd) lg)"

section \<open>What one attempt writes\<close>

text \<open>A consumer without a sieve before any call.\<close>

definition toolless :: "'g chatConsumer \<Rightarrow> bool" where
  "toolless c \<longleftrightarrow> tr_sieve (ch_run c) = None \<and> runCalls (tr_out (ch_run c)) = [] \<and> \<not> ch_called c"

lemma toolless_new: "cc_toolNames opts = [] \<Longrightarrow> \<not> cc_disableTools opts \<Longrightarrow> toolless (newChatConsumer env opts)"
  by (simp add: toolless_def newChatConsumer_def newTextRun_def chatTextOptions_def)

lemma frames_body: "runCalls evs = [] \<Longrightarrow> framesForEvents opts evs False = (fs, called) \<Longrightarrow> list_all bodyFrame fs \<and> \<not> called"
proof (induction evs arbitrary: fs called)
  case (Cons ev evs)
  obtain gs b where g: "framesForEvents opts evs False = (gs, b)" by fastforce
  show ?case using Cons g by (cases ev) (auto split: if_splits)
qed simp

lemma event_calls: "tr_sieve c = None \<Longrightarrow> tr_sieve (consumeEvent env ev c) = None \<and> runCalls (tr_out (consumeEvent env ev c)) = runCalls (tr_out c)"
  by (cases ev) (simp_all add: consumeEvent_def consumeTextEvent_def)

lemma events_calls: "tr_sieve c = None \<Longrightarrow> tr_sieve (consumeEvents env evs c) = None \<and> runCalls (tr_out (consumeEvents env evs c)) = runCalls (tr_out c)"
  by (induction evs arbitrary: c) (simp_all add: event_calls Let_def)

lemma line_calls: "tr_sieve c = None \<Longrightarrow> ConsumeLine env l c = (r, c2) \<Longrightarrow> tr_sieve c2 = None \<and> runCalls (tr_out c2) = runCalls (tr_out c)"
  by (auto simp: ConsumeLine_def events_calls split: LineKind.splits if_splits sum.splits prod.splits)

lemma run_drop: "runCalls evs = [] \<Longrightarrow> runCalls (drop n evs) = []"
  using runEvents_append(2) [of "take n evs" "drop n evs"] by simp

lemma chat_body:
  assumes "toolless c" "ConsumeChat env l c = (r, c2)"
  shows "toolless c2 \<and> (\<forall>fs. r = Inr fs \<longrightarrow> list_all bodyFrame fs)"
proof -
  obtain e run where l: "ConsumeLine env l (ch_run c) = (e, run)" by fastforce
  have n: "tr_sieve run = None" "runCalls (tr_out run) = []" using line_calls [OF _ l] assms(1) by (simp_all add: toolless_def)
  obtain fs called where f: "framesForEvents (ch_options c) (drop (length (tr_out (ch_run c))) (tr_out run)) (ch_called c) = (fs, called)" by fastforce
  moreover have "\<not> ch_called c" using assms(1) by (simp add: toolless_def)
  ultimately have "framesForEvents (ch_options c) (drop (length (tr_out (ch_run c))) (tr_out run)) False = (fs, called)" by simp
  from frames_body [OF run_drop [OF n(2)] this] have "list_all bodyFrame fs \<and> \<not> called" .
  then show ?thesis using assms l f n by (cases e) (auto simp: ConsumeChat_def toolless_def Let_def)
qed

lemma incremental_body:
  "toolless c \<Longrightarrow> consumeIncremental env ls c = (fs, r) \<Longrightarrow> list_all bodyFrame fs \<and> (\<forall>d. r = Inr d \<longrightarrow> toolless d \<and> ch_options d = ch_options c)"
proof (induction ls arbitrary: c fs r)
  case (Cons l ls)
  obtain x d where x: "ConsumeChat env l c = (x, d)" by fastforce
  have o: "ch_options d = ch_options c" using x by (auto simp: ConsumeChat_def Let_def split: prod.splits option.splits)
  show ?case
  proof (cases x)
    case (Inr gs)
    obtain hs s where h: "consumeIncremental env ls d = (hs, s)" by fastforce
    have t: "toolless d" "list_all bodyFrame gs" using chat_body [OF Cons.prems(1) x] Inr by simp_all
    have r: "fs = gs @ hs" "r = s" using Cons.prems(2) x Inr h by simp_all
    have "list_all bodyFrame fs" using Cons.IH [OF t(1) h] t(2) by (simp add: r(1))
    moreover have "\<forall>e. s = Inr e \<longrightarrow> toolless e \<and> ch_options e = ch_options c" using Cons.IH [OF t(1) h] unfolding o by blast
    ultimately show ?thesis unfolding r(2) by blast
  next
    case (Inl e)
    then have "fs = []" "r = Inl e" using Cons.prems(2) x by simp_all
    then show ?thesis by simp
  qed
qed simp

lemma finish_body:
  assumes "toolless c" "cc_isStream (ch_options c)"
  shows "\<exists>body anns sources. snd (FinishChat env c) = body @ [CfFinal anns sources, CfDone] \<and> list_all bodyFrame body"
proof -
  have f: "flushRun env (ch_run c) = ch_run c" using assms(1) by (simp add: toolless_def flushRun_def)
  obtain fs called where g: "framesForEvents (ch_options c) (drop (ch_cursor c) (tr_out (ch_run c))) False = (fs, called)" by fastforce
  have "list_all bodyFrame fs \<and> \<not> called" using frames_body [OF run_drop g] assms(1) by (simp add: toolless_def)
  then show ?thesis using assms g f
    by (cases "ch_cursor c < length (tr_out (ch_run c))") (auto simp: FinishChat_def FinishRun_def toolless_def Let_def)
qed

text \<open>The frames an attempt writes: no end without success, and one end, the last frame, with success.\<close>

definition attemptOk :: "string \<times> goerr option \<times> chatFrame list \<Rightarrow> bool" where
  "attemptOk entry \<longleftrightarrow>
    (case entry of
       (token, Some e, fs) \<Rightarrow> list_all bodyFrame fs
     | (token, None, fs) \<Rightarrow> \<exists>body anns sources. fs = body @ [CfFinal anns sources, CfDone] \<and> list_all bodyFrame body)"

lemma attempt_ok:
  assumes "cc_isStream (pl_options plan)" "pl_incremental plan" "cc_toolNames (pl_options plan) = []" "\<not> cc_disableTools (pl_options plan)"
    and "runChatCompletionAttempt plan account v = ((fs, r), v2)"
  shows "attemptOk (token, errOf r, fs)"
proof -
  let ?o = "accountOptions plan account" and ?env = "pl_text plan"
  have n: "toolless (newChatConsumer ?env ?o)" by (rule toolless_new) (use assms in \<open>simp_all add: accountOptions_def\<close>)
  have o: "ch_options (newChatConsumer ?env ?o) = ?o" by (simp add: newChatConsumer_def)
  obtain ls err v1 where p: "pl_post plan account v = ((ls, err), v1)" by (metis prod.exhaust_sel)
  obtain gs s where i: "consumeIncremental ?env ls (newChatConsumer ?env ?o) = (gs, s)" by fastforce
  note b = incremental_body [OF n i]
  show ?thesis
  proof (cases "\<exists>c. s = Inr c \<and> err = None")
    case True
    then obtain c where c: "s = Inr c" "err = None" by blast
    then have t: "toolless c" "cc_isStream (ch_options c)" using b assms(1) o by (simp_all add: accountOptions_def)
    have "fs = gs @ snd (FinishChat ?env c)" "errOf r = None"
      using assms c p i by (auto simp: runChatCompletionAttempt_def streamChatIncremental_def accountOptions_def errOf_def Let_def)
    moreover obtain body anns sources where "snd (FinishChat ?env c) = body @ [CfFinal anns sources, CfDone]" "list_all bodyFrame body"
      using finish_body [OF t, of ?env] by blast
    moreover have "list_all bodyFrame gs" using b by blast
    ultimately have "fs = (gs @ body) @ [CfFinal anns sources, CfDone]" "list_all bodyFrame (gs @ body)" by simp_all
    then show ?thesis using \<open>errOf r = None\<close> unfolding attemptOk_def by auto
  next
    case False
    then have "fs = gs" "\<exists>e. errOf r = Some e"
      using assms p i by (auto simp: runChatCompletionAttempt_def streamChatIncremental_def accountOptions_def errOf_def Let_def
        split: sum.splits option.splits)
    then show ?thesis using b by (auto simp: attemptOk_def)
  qed
qed

section \<open>Properties\<close>

text \<open>The dispatch keeps what every attempt keeps of the upstream.\<close>

definition kept_inv :: "('u, 'r) ChatEnv \<Rightarrow> ('u \<Rightarrow> (string \<times> goerr option) list) \<Rightarrow> ('u \<Rightarrow> bool) \<Rightarrow> 'u ChatWorld \<Rightarrow> bool" where
  "kept_inv env seen P w \<longleftrightarrow> chat_inv env seen w \<and> (\<forall>a u r u'. ce_attempt env a u = (r, u') \<longrightarrow> P u \<longrightarrow> P u') \<and> P (cw_upstream w)"

lemma release_upstream: "cw_upstream (chatRelease l w) = cw_upstream w"
  by (simp add: chatRelease_def split: option.split)

lemma chat_run_keeps:
  assumes "\<forall>a u r u'. ce_attempt env a u = (r, u') \<longrightarrow> P u \<longrightarrow> P u'" "P (cw_upstream w)" "chatRun env l w = (r, w2)"
  shows "P (cw_upstream w2)"
  using assms by (auto simp: chatRun_def split: option.splits prod.splits sum.splits)

interpretation kept: dispatch_directory "chatOptions env spec" "chatRun env" "kept_inv env seen P"
    "\<lambda>w. DispatchProps.held (cw_dir w)" "\<lambda>w. seen (cw_upstream w)"
  for env :: "('u, 'r) ChatEnv" and spec seen P
proof
  fix w ex x w1 l r w2 token kind mode
  assume k: "kept_inv env seen P w"
  then have inv: "chat_inv env seen w" and keeps: "\<forall>a u r u'. ce_attempt env a u = (r, u') \<longrightarrow> P u \<longrightarrow> P u'" and p: "P (cw_upstream w)"
    by (simp_all add: kept_inv_def)
  show "kept_inv env seen P w1 \<and> DispatchProps.held (cw_dir w1) = DispatchProps.held (cw_dir w) \<and> seen (cw_upstream w1) = seen (cw_upstream w)"
    if a: "do_reserve (chatOptions env spec) (do_spec (chatOptions env spec)) ex w = (x, w1)" "\<forall>l. x \<noteq> Inr (Some l)"
  proof -
    have "cw_upstream w1 = cw_upstream w" using chatReserve_cases [OF inv, of spec ex x w1] a(1) by simp
    then show ?thesis using chat.refuse [OF inv a] keeps p by (simp add: kept_inv_def)
  qed
  show "dl_token l \<notin> set ex" if "do_reserve (chatOptions env spec) (do_spec (chatOptions env spec)) ex w = (Inr (Some l), w1)"
    by (rule chat.fresh [OF inv that])
  show "kept_inv env seen P (do_release (chatOptions env spec) l w2) \<and>
      DispatchProps.held (cw_dir (do_release (chatOptions env spec) l w2)) = DispatchProps.held (cw_dir w) \<and>
      seen (cw_upstream (do_release (chatOptions env spec) l w2)) = seen (cw_upstream w) @ [(dl_token l, errOf r)]"
    if a: "do_reserve (chatOptions env spec) (do_spec (chatOptions env spec)) ex w = (Inr (Some l), w1)" "chatRun env l w1 = (r, w2)"
  proof -
    have "cw_upstream w1 = cw_upstream w" using chatReserve_cases [OF inv, of spec ex _ w1] a(1) by simp
    then have "P (cw_upstream w2)" using chat_run_keeps [OF keeps _ a(2)] p by simp
    then show ?thesis using chat.turn [OF inv a] keeps by (simp add: kept_inv_def release_upstream)
  qed
  show "kept_inv env seen P (do_feedback (chatOptions env spec) token kind mode w) \<and>
      DispatchProps.held (cw_dir (do_feedback (chatOptions env spec) token kind mode w)) = DispatchProps.held (cw_dir w) \<and>
      seen (cw_upstream (do_feedback (chatOptions env spec) token kind mode w)) = seen (cw_upstream w)"
    using chat.told [OF inv, of spec token kind mode] keeps p by (simp add: kept_inv_def chatFeedback_def)
qed

definition callsOf :: "'v \<times> attemptLog \<Rightarrow> (string \<times> goerr option) list" where
  "callsOf u = map (\<lambda>(token, err, fs). (token, err)) (snd u)"

definition clockForward :: "('v \<times> attemptLog, chatResult) ChatEnv \<Rightarrow> ('g, 'v) chatPlan \<Rightarrow> bool" where
  "clockForward env plan \<longleftrightarrow> (\<forall>account u. ce_nowS env u \<le> ce_nowS env (snd (loggedAttempt plan account u)))"

lemma logged_records: "clockForward env plan \<Longrightarrow> records (env\<lparr>ce_attempt := loggedAttempt plan\<rparr>) callsOf"
  unfolding records_def clockForward_def
  by (auto simp: loggedAttempt_def callsOf_def split: prod.splits)

lemma failed_frames: "list_all attemptOk lg \<Longrightarrow> \<forall>c \<in> set (map (\<lambda>(token, err, fs). (token, err)) lg). \<exists>e. snd c = Some e \<Longrightarrow>
    list_all bodyFrame (writtenFrames lg)"
  by (induction lg) (auto simp: writtenFrames_def attemptOk_def split: option.splits)

lemma all_butlast: "xs \<noteq> [] \<Longrightarrow> \<forall>x \<in> set (butlast xs). Q x \<Longrightarrow> Q (last xs) \<Longrightarrow> \<forall>x \<in> set xs. Q x"
  by (induction xs) (auto split: if_splits)

lemma outcome_failed: "outcome o1 ok1 ex calls n (Inl e) \<Longrightarrow> \<forall>c \<in> set calls. \<exists>e. snd c = Some e"
proof -
  assume o: "outcome o1 ok1 ex calls n (Inl e)"
  show ?thesis
  proof (cases "failed_over o1 calls")
    case False
    then have "calls \<noteq> []" "failed_over o1 (butlast calls)" "snd (last calls) = Some e" using o by (auto simp: outcome_def)
    then show ?thesis using all_butlast [of calls "\<lambda>c. \<exists>e. snd c = Some e"] by (auto simp: failed_over_def)
  qed (auto simp: failed_over_def)
qed

text \<open>C3. A streaming client without tools, whatever accounts the request goes through: when the request succeeds, the last two of
  all the frames written are the end of the answer and the end mark, and no frame before is either; when it fails, no
  frame written is.\<close>

theorem stream_served_once:
  assumes "cc_isStream (pl_options plan)" "pl_incremental plan" "cc_toolNames (pl_options plan) = []" "\<not> cc_disableTools (pl_options plan)"
    and "env_ok env" "clockForward env plan" "dir_ok (ce_nowS env (cw_upstream w)) (cw_dir w)" "snd (cw_upstream w) = []"
    and "serve env plan spec w = (res, w')"
  shows "case res of
      Inr x \<Rightarrow> \<exists>body anns sources. writtenFrames (snd (cw_upstream w')) = body @ [CfFinal anns sources, CfDone] \<and> list_all bodyFrame body
    | Inl e \<Rightarrow> list_all bodyFrame (writtenFrames (snd (cw_upstream w')))"
proof -
  let ?env = "env\<lparr>ce_attempt := loggedAttempt plan\<rparr>" and ?P = "\<lambda>u. list_all attemptOk (snd u)" and ?lg = "snd (cw_upstream w')"
  have keeps: "?P u'" if "ce_attempt ?env a u = (r, u')" "?P u" for a u r u'
    using that attempt_ok [OF assms(1-4)] by (auto simp: loggedAttempt_def split: prod.splits)
  have "kept_inv ?env callsOf ?P (w\<lparr>cw_accounts := Map.empty\<rparr>)"
    unfolding kept_inv_def using logged_records [OF assms(6)] assms(5,7,8) keeps by (simp add: chat_inv_def env_ok_def)
  from kept.dispatch_run [OF this, of spec res w'] assms(9) obtain calls where
    c: "callsOf (cw_upstream w') = callsOf (cw_upstream w) @ calls" "kept_inv ?env callsOf ?P w'"
      "outcome (chatOptions ?env spec) (kept_inv ?env callsOf ?P) [] calls 0 res"
    by (auto simp: serve_def chatCompletions_def)
  have calls: "calls = map (\<lambda>(token, err, fs). (token, err)) ?lg" using c(1) assms(8) by (simp add: callsOf_def)
  have ok: "list_all attemptOk ?lg" using c(2) by (simp add: kept_inv_def)
  show ?thesis
  proof (cases res)
    case (Inl e)
    then have "\<forall>c \<in> set calls. \<exists>e. snd c = Some e" using c(3) outcome_failed by blast
    then show ?thesis using failed_frames [OF ok] Inl by (simp add: calls)
  next
    case (Inr x)
    then have o: "calls \<noteq> []" "\<forall>c \<in> set (butlast calls). \<exists>e. snd c = Some e" "snd (last calls) = None"
      using c(3) by (auto simp: outcome_def failed_over_def)
    then obtain lg entry where lg: "?lg = lg @ [entry]" unfolding calls by (metis map_is_Nil_conv rev_exhaust)
    obtain token err fs where entry: "entry = (token, err, fs)" by (cases entry)
    have "err = None" "attemptOk (token, None, fs)" "list_all bodyFrame (writtenFrames lg)"
      using o ok failed_frames [of lg] by (simp_all add: calls lg entry map_butlast [symmetric])
    moreover then obtain body anns sources where "fs = body @ [CfFinal anns sources, CfDone]" "list_all bodyFrame body"
      by (auto simp: attemptOk_def)
    ultimately have "writtenFrames ?lg = (writtenFrames lg @ body) @ [CfFinal anns sources, CfDone]" "list_all bodyFrame (writtenFrames lg @ body)"
      by (simp_all add: lg entry writtenFrames_def)
    then show ?thesis unfolding Inr by auto
  qed
qed

definition servePlan :: "(unit, nat) chatPlan" where
  "servePlan =
    \<lparr>pl_text = sampleTextEnv, pl_post = (\<lambda>account v. (if v = 0 then ([''data: a'', ''data: b''], None) else ([''data: a'', ''data: [DONE]''], None), v + 1)),
     pl_options = sampleChatOptions\<lparr>cc_isStream := True\<rparr>, pl_incremental = True, pl_message = ''Q''\<rparr>"

definition serveEnv :: "(nat \<times> attemptLog, chatResult) ChatEnv" where
  "serveEnv =
    \<lparr>ce_reserve = sampleEnv, ce_refresh = \<lparr>rf_fetch = missingUsageFetcher, rf_maxFailures = 2, rf_text = (\<lambda>e. ''error'')\<rparr>,
     ce_service = False, ce_minInterval = 0, ce_fallback = True, ce_getInt = (\<lambda>key def1. def1), ce_retryCodes = {429, 503},
     ce_nowS = (\<lambda>u. 0), ce_nowMS = (\<lambda>u. 0), ce_attempt = loggedAttempt servePlan\<rparr>"

definition serveWorld :: "(nat \<times> attemptLog) ChatWorld" where
  "serveWorld =
    \<lparr>cw_dir = Some sampleTable, cw_onDemand = \<lparr>od_running = False, od_last = None\<rparr>, cw_db = emptyDB, cw_jobs = [],
     cw_drops = 0, cw_nextID = 1, cw_accounts = Map.empty, cw_upstream = (0, [])\<rparr>"

theorem stream_served_once_witness:
  "\<exists>res w'. serve serveEnv servePlan sampleModel serveWorld = (res, w') \<and>
    (case res of
      Inr x \<Rightarrow> \<exists>body anns sources. writtenFrames (snd (cw_upstream w')) = body @ [CfFinal anns sources, CfDone] \<and> list_all bodyFrame body
    | Inl e \<Rightarrow> list_all bodyFrame (writtenFrames (snd (cw_upstream w'))))"
proof -
  obtain res w' where run: "serve serveEnv servePlan sampleModel serveWorld = (res, w')" by fastforce
  have env: "env_ok serveEnv" "clockForward serveEnv servePlan"
    using sample_env_ok by (simp_all add: env_ok_def sampleChat_def serveEnv_def clockForward_def)
  have dir: "dir_ok (ce_nowS serveEnv (cw_upstream serveWorld)) (cw_dir serveWorld)"
    using sampleTable_ok sampleTable_clock by (simp add: dir_ok_def serveWorld_def serveEnv_def)
  from stream_served_once [OF _ _ _ _ env dir _ run] run show ?thesis
    by (simp add: servePlan_def sampleChatOptions_def serveWorld_def)
qed

text \<open>The attempts of that request: after the failed one the client has the beginning of the answer twice.\<close>

lemma answer_repeated:
  "writtenFrames (snd (snd (loggedAttempt servePlan b (snd (loggedAttempt servePlan a (0, [])))))) =
    [CfText ''Hi'', CfText ''Hi'', CfFinal [] [], CfDone]"
proof -
  have first: "runChatCompletionAttempt servePlan a 0 =
      (([CfText ''Hi''], Inl (NewUpstreamError ''Upstream stream error: rate limit'' 429 ''{\"error\":{\"message\":}}'')), 1)" for a
    by (simp add: runChatCompletionAttempt_def streamChatIncremental_def servePlan_def accountOptions_def ConsumeChat_def ConsumeLine_def
      sample_lines sample_feed sample_error newChatConsumer_def newTextRun_def chatTextOptions_def sampleChatOptions_def consumeEvent_def
      consumeTextEvent_def emitText_def emitRun_def stopsNow_def Let_def)
  have second: "runChatCompletionAttempt servePlan b 1 = (([CfText ''Hi'', CfFinal [] [], CfDone], Inr CrWritten), 2)" for b
    by (simp add: runChatCompletionAttempt_def streamChatIncremental_def servePlan_def accountOptions_def ConsumeChat_def ConsumeLine_def
      sample_lines sample_feed newChatConsumer_def newTextRun_def chatTextOptions_def sampleChatOptions_def consumeEvent_def
      consumeTextEvent_def emitText_def emitRun_def stopsNow_def FinishChat_def FinishRun_def flushRun_def runState_def NewStreamAdapter_def
      SearchSourcesList_def Let_def)
  show ?thesis by (simp add: loggedAttempt_def first second [unfolded One_nat_def] writtenFrames_def)
qed

end
