(* ===== verification/AnthropicStream.thy ===== *)
theory AnthropicStream
  imports TextRun
begin

text \<open>
  The Anthropic form of a chat stream (\<open>products/anthropic\<close>: \<open>messages_stream_format.go\<close>, \<open>messages_response.go\<close>, usage of
  \<open>messages_convert.go\<close>): the state of a stream with its content blocks, and the answer of a client that does not stream.
  Arguments are those of a text run; a frame stands for its JSON document.
\<close>

section \<open>Frames\<close>

record anthropicUsage =
  au_input :: int
  au_output :: int
  au_cacheCreation :: int
  au_cacheRead :: int

definition anthropicUsageFromTotals :: "int \<Rightarrow> int \<Rightarrow> int \<Rightarrow> anthropicUsage" where
  "anthropicUsageFromTotals totalInput output cacheRead =
    (let totalInput = max 0 totalInput; output = max 0 output; cacheRead = min (max 0 cacheRead) totalInput
     in \<lparr>au_input = totalInput - cacheRead, au_output = output, au_cacheCreation = 0, au_cacheRead = cacheRead\<rparr>)"

datatype blockKind = BkThinking | BkText | BkTool string string

datatype blockDelta = DeltaThinking string | DeltaText string | DeltaInput string

datatype stopReason = EndTurn | ToolUse

record messageDelta =
  md_reason :: stopReason
  md_sources :: "(json \<times> string \<times> string) list"
  md_annotations :: "UrlCitation list"

datatype anthropicFrame =
    AfMessageStart string anthropicUsage
  | AfPing
  | AfBlockStart nat blockKind
  | AfBlockDelta nat blockDelta
  | AfBlockStop nat
  | AfMessageDelta messageDelta anthropicUsage
  | AfMessageStop
  | AfDone

section \<open>State\<close>

record messagesPlan =
  mp_id :: string
  mp_message :: string
  mp_toolNames :: "string list"
  mp_emitThink :: bool
  mp_token :: string

record 'g messagesStream =
  ms_frames :: "anthropicFrame list"
  ms_adapter :: "'g StreamAdapter"
  ms_sieve :: "ToolSieve option"
  ms_textParts :: "string list"
  ms_thinkParts :: "string list"
  ms_annotations :: "UrlCitation list"
  ms_block :: nat
  ms_thinkStarted :: bool
  ms_thinkClosed :: bool
  ms_textStarted :: bool
  ms_called :: bool
  ms_toolTokens :: int

definition newMessagesStream :: "'g TextEnv \<Rightarrow> messagesPlan \<Rightarrow> 'g messagesStream" where
  "newMessagesStream env plan =
    \<lparr>ms_frames = [AfMessageStart (mp_id plan) (anthropicUsageFromTotals (EstimatePromptTokens env (mp_message plan)) 0 0), AfPing],
     ms_adapter = NewStreamAdapter (te_adapter env) False True,
     ms_sieve = (if mp_toolNames plan \<noteq> [] then Some (NewToolSieve (mp_toolNames plan)) else None),
     ms_textParts = [], ms_thinkParts = [], ms_annotations = [], ms_block = 0, ms_thinkStarted = False, ms_thinkClosed = False,
     ms_textStarted = False, ms_called = False, ms_toolTokens = 0\<rparr>"

definition addFrames :: "anthropicFrame list \<Rightarrow> 'g messagesStream \<Rightarrow> 'g messagesStream" where
  "addFrames fs s = s\<lparr>ms_frames := ms_frames s @ fs\<rparr>"

definition handleThinking :: "bool \<Rightarrow> string \<Rightarrow> 'g messagesStream \<Rightarrow> 'g messagesStream" where
  "handleThinking emitThink content s =
    (if \<not> emitThink \<or> ms_thinkClosed s \<or> content = '''' then s
     else (let s = (if ms_thinkStarted s then s else addFrames [AfBlockStart (ms_block s) BkThinking] (s\<lparr>ms_thinkStarted := True\<rparr>))
           in addFrames [AfBlockDelta (ms_block s) (DeltaThinking content)] (s\<lparr>ms_thinkParts := ms_thinkParts s @ [content]\<rparr>)))"

definition emitTextDelta :: "string \<Rightarrow> 'g messagesStream \<Rightarrow> 'g messagesStream" where
  "emitTextDelta content s =
    (if content = '''' then s
     else (let s = (if ms_textStarted s then s else addFrames [AfBlockStart (ms_block s) BkText] (s\<lparr>ms_textStarted := True\<rparr>))
           in addFrames [AfBlockDelta (ms_block s) (DeltaText content)] (s\<lparr>ms_textParts := ms_textParts s @ [content]\<rparr>)))"

definition thinkOpen :: "'g messagesStream \<Rightarrow> bool" where
  "thinkOpen s \<longleftrightarrow> ms_thinkStarted s \<and> \<not> ms_thinkClosed s"

definition closeThinkingBlock :: "'g messagesStream \<Rightarrow> 'g messagesStream" where
  "closeThinkingBlock s =
    (if \<not> ms_thinkStarted s \<or> ms_thinkClosed s then s
     else addFrames [AfBlockStop (ms_block s)] (s\<lparr>ms_thinkClosed := True, ms_block := ms_block s + 1\<rparr>))"

definition closeTextBlock :: "'g messagesStream \<Rightarrow> 'g messagesStream" where
  "closeTextBlock s =
    (if \<not> ms_textStarted s then s
     else addFrames [AfBlockStop (ms_block s)] (s\<lparr>ms_textStarted := False, ms_block := ms_block s + 1\<rparr>))"

fun emitCalls :: "ParsedToolCall list \<Rightarrow> 'g messagesStream \<Rightarrow> 'g messagesStream" where
  "emitCalls [] s = s"
| "emitCalls (call # calls) s =
    emitCalls calls
      (addFrames [AfBlockStart (ms_block s) (BkTool (tc_id call) (tc_name call)), AfBlockDelta (ms_block s) (DeltaInput (tc_arguments call)),
        AfBlockStop (ms_block s)] (s\<lparr>ms_block := ms_block s + 1\<rparr>))"

definition emitToolCalls :: "'g TextEnv \<Rightarrow> ParsedToolCall list \<Rightarrow> 'g messagesStream \<Rightarrow> 'g messagesStream" where
  "emitToolCalls env calls s = (emitCalls calls s)\<lparr>ms_toolTokens := te_callTokens env calls, ms_called := True\<rparr>"

text \<open>Whether the stream is over, with the state.\<close>

definition handleText :: "'g TextEnv \<Rightarrow> string \<Rightarrow> 'g messagesStream \<Rightarrow> bool \<times> 'g messagesStream" where
  "handleText env content s =
    (let s = closeThinkingBlock s
     in case ms_sieve s of
          None \<Rightarrow> (False, emitTextDelta content s)
        | Some sv \<Rightarrow>
            (let ((safe, calls), sv) = FeedSieve (te_parse env) content sv; s = s\<lparr>ms_sieve := Some sv\<rparr>
             in case calls of Some cs \<Rightarrow> (True, emitToolCalls env cs s) | None \<Rightarrow> (False, emitTextDelta safe s)))"

fun handleEvents :: "'g TextEnv \<Rightarrow> bool \<Rightarrow> FrameEvent list \<Rightarrow> 'g messagesStream \<Rightarrow> bool \<times> 'g messagesStream" where
  "handleEvents env emitThink [] s = (False, s)"
| "handleEvents env emitThink (ev # evs) s =
    (case ev of
       EvThinking t rollout tag step \<Rightarrow> handleEvents env emitThink evs (handleThinking emitThink t s)
     | EvText t \<Rightarrow> (case handleText env t s of (True, s) \<Rightarrow> (True, s) | (False, s) \<Rightarrow> handleEvents env emitThink evs s)
     | EvAnnotation a \<Rightarrow> handleEvents env emitThink evs (s\<lparr>ms_annotations := ms_annotations s @ [a]\<rparr>)
     | EvSoftStop \<Rightarrow> (True, s)
     | _ \<Rightarrow> handleEvents env emitThink evs s)"

definition flushMessagesSieve :: "'g TextEnv \<Rightarrow> 'g messagesStream \<Rightarrow> 'g messagesStream" where
  "flushMessagesSieve env s =
    (case ms_sieve s of
       None \<Rightarrow> s
     | Some sv \<Rightarrow>
         if ms_called s then s
         else (let (calls, sv) = FlushSieve (te_parse env) sv; s = s\<lparr>ms_sieve := Some sv\<rparr>
               in case calls of None \<Rightarrow> s | Some cs \<Rightarrow> if cs = [] then s else emitToolCalls env cs (closeTextBlock s)))"

fun consumeMessages :: "'g TextEnv \<Rightarrow> messagesPlan \<Rightarrow> string list \<Rightarrow> 'g messagesStream \<Rightarrow> goerr + 'g messagesStream" where
  "consumeMessages env plan [] s = Inr (flushMessagesSieve env s)"
| "consumeMessages env plan (line # ls) s =
    (case ClassifyLine line of
       LineDone \<Rightarrow> Inr (flushMessagesSieve env s)
     | LineSkip \<Rightarrow> consumeMessages env plan ls s
     | LineData data \<Rightarrow>
         if data = '''' then consumeMessages env plan ls s
         else (case FeedAdapter (te_adapter env) data (ms_adapter s) of
                 (Inl e, a) \<Rightarrow> Inl e
               | (Inr evs, a) \<Rightarrow>
                   (case handleEvents env (mp_emitThink plan) evs (s\<lparr>ms_adapter := a\<rparr>) of
                      (True, s) \<Rightarrow> Inr (flushMessagesSieve env s)
                    | (False, s) \<Rightarrow> consumeMessages env plan ls s)))"

section \<open>The end of a stream\<close>

text \<open>The text that comes after the stream of the upstream: images and the list of sources.\<close>

definition lateTexts :: "'g TextEnv \<Rightarrow> messagesPlan \<Rightarrow> 'g messagesStream \<Rightarrow> string list" where
  "lateTexts env plan s =
    map (\<lambda>t. t @ [CHR 0x0A]) (resolvedImages env (mp_token plan) (sa_imageURLs (ms_adapter s))) @
    (if ReferencesSuffix (te_adapter env) (ms_adapter s) \<noteq> '''' then [ReferencesSuffix (te_adapter env) (ms_adapter s)] else [])"

definition appendImagesAndReferences :: "'g TextEnv \<Rightarrow> messagesPlan \<Rightarrow> 'g messagesStream \<Rightarrow> 'g messagesStream" where
  "appendImagesAndReferences env plan s = fold emitTextDelta (lateTexts env plan s) s"

definition finishToolStream :: "'g TextEnv \<Rightarrow> messagesPlan \<Rightarrow> 'g messagesStream \<Rightarrow> 'g messagesStream" where
  "finishToolStream env plan s =
    addFrames
      [AfMessageDelta \<lparr>md_reason = ToolUse, md_sources = SearchSourcesList (te_adapter env) (ms_adapter s), md_annotations = []\<rparr>
         (anthropicUsageFromTotals (EstimatePromptTokens env (mp_message plan)) (ms_toolTokens s) 0),
       AfMessageStop, AfDone] s"

definition finishMessages :: "'g TextEnv \<Rightarrow> messagesPlan \<Rightarrow> 'g messagesStream \<Rightarrow> 'g messagesStream" where
  "finishMessages env plan s =
    (if ms_called s then finishToolStream env plan s
     else (let s = closeThinkingBlock (appendImagesAndReferences env plan s);
               s = (if ms_textStarted s then addFrames [AfBlockStop (ms_block s)] s else s)
           in addFrames
                [AfMessageDelta \<lparr>md_reason = EndTurn, md_sources = SearchSourcesList (te_adapter env) (ms_adapter s), md_annotations = ms_annotations s\<rparr>
                   (anthropicUsageFromTotals (EstimatePromptTokens env (mp_message plan))
                     (te_tokens env (concat (ms_textParts s)) + te_tokens env (concat (ms_thinkParts s))) 0),
                 AfMessageStop, AfDone] s))"

definition messagesStreamResult :: "'g TextEnv \<Rightarrow> messagesPlan \<Rightarrow> string list \<Rightarrow> goerr + anthropicFrame list" where
  "messagesStreamResult env plan ls =
    (case consumeMessages env plan ls (newMessagesStream env plan) of
       Inl e \<Rightarrow> Inl e
     | Inr s \<Rightarrow> Inr (ms_frames (finishMessages env plan s)))"

section \<open>The answer of a client that does not stream\<close>

definition messagesSawSoftStop :: "FrameEvent list \<Rightarrow> bool" where
  "messagesSawSoftStop evs \<longleftrightarrow> EvSoftStop \<in> set evs"

fun feedMessagesAdapter :: "'g TextEnv \<Rightarrow> string list \<Rightarrow> 'g StreamAdapter \<Rightarrow> goerr + 'g StreamAdapter" where
  "feedMessagesAdapter env [] a = Inr a"
| "feedMessagesAdapter env (line # ls) a =
    (case ClassifyLine line of
       LineDone \<Rightarrow> Inr a
     | LineSkip \<Rightarrow> feedMessagesAdapter env ls a
     | LineData data \<Rightarrow>
         if data = '''' then feedMessagesAdapter env ls a
         else (case FeedAdapter (te_adapter env) data a of
                 (Inl e, b) \<Rightarrow> Inl e
               | (Inr evs, b) \<Rightarrow> if messagesSawSoftStop evs then Inr b else feedMessagesAdapter env ls b))"

datatype messagesContent = McText string "UrlCitation list" | McTools "ParsedToolCall list"

record messagesAnswer =
  ma_content :: messagesContent
  ma_reason :: stopReason
  ma_usage :: anthropicUsage
  ma_sources :: "(json \<times> string \<times> string) list"

fun appendResolved :: "string \<Rightarrow> string list \<Rightarrow> string" where
  "appendResolved text1 [] = text1"
| "appendResolved text1 (i # is) = appendResolved ((if text1 \<noteq> '''' then text1 @ [CHR 0x0A, CHR 0x0A] else text1) @ i) is"

definition messagesFullText :: "'g TextEnv \<Rightarrow> string \<Rightarrow> 'g StreamAdapter \<Rightarrow> string" where
  "messagesFullText env token a =
    appendResolved (concat (sa_textBuf a)) (resolvedImages env token (sa_imageURLs a)) @ ReferencesSuffix (te_adapter env) a"

definition messagesNonStreamResult :: "'g TextEnv \<Rightarrow> messagesPlan \<Rightarrow> string list \<Rightarrow> goerr + messagesAnswer" where
  "messagesNonStreamResult env plan ls =
    (case feedMessagesAdapter env ls (NewStreamAdapter (te_adapter env) False True) of
       Inl e \<Rightarrow> Inl e
     | Inr a \<Rightarrow>
         (let text1 = messagesFullText env (mp_token plan) a; input = EstimatePromptTokens env (mp_message plan);
              thinking = (if mp_emitThink plan then concat (sa_thinkingBuf a) else '''');
              calls = snd (te_parse env text1 (mp_toolNames plan)); sources = SearchSourcesList (te_adapter env) a
          in Inr (if mp_toolNames plan \<noteq> [] \<and> calls \<noteq> []
                  then \<lparr>ma_content = McTools calls, ma_reason = ToolUse, ma_usage = anthropicUsageFromTotals input (te_callTokens env calls) 0,
                        ma_sources = sources\<rparr>
                  else \<lparr>ma_content = McText text1 (sa_annotations a), ma_reason = EndTurn,
                        ma_usage = anthropicUsageFromTotals input (te_tokens env text1 + te_tokens env thinking) 0, ma_sources = sources\<rparr>)))"

end
