(* ===== verification/AnthropicProps.thy ===== *)
theory AnthropicProps
  imports AnthropicStream TextRunProps
begin

text \<open>
  When the content blocks of an Anthropic stream are well formed: blocks are opened one at a time with consecutive
  indexes, and the text of a block comes while the block is open.
\<close>

section \<open>Well-formed blocks\<close>

primrec deltaFits :: "blockKind \<Rightarrow> blockDelta \<Rightarrow> bool" where
  "deltaFits k (DeltaThinking t) \<longleftrightarrow> k = BkThinking"
| "deltaFits k (DeltaText t) \<longleftrightarrow> k = BkText"
| "deltaFits k (DeltaInput t) \<longleftrightarrow> k \<noteq> BkThinking \<and> k \<noteq> BkText"

text \<open>The next index and the open block after the frames.\<close>

fun scanBlocks :: "anthropicFrame list \<Rightarrow> nat \<times> blockKind option \<Rightarrow> (nat \<times> blockKind option) option" where
  "scanBlocks [] st = Some st"
| "scanBlocks (AfBlockStart i k # fs) (n, b) = (if i = n \<and> b = None then scanBlocks fs (n, Some k) else None)"
| "scanBlocks (AfBlockDelta i d # fs) (n, b) =
    (case b of None \<Rightarrow> None | Some k \<Rightarrow> if i = n \<and> deltaFits k d then scanBlocks fs (n, b) else None)"
| "scanBlocks (AfBlockStop i # fs) (n, b) = (if i = n \<and> b \<noteq> None then scanBlocks fs (n + 1, None) else None)"
| "scanBlocks (AfMessageStart i u # fs) st = scanBlocks fs st"
| "scanBlocks (AfPing # fs) st = scanBlocks fs st"
| "scanBlocks (f # fs) (n, b) = (if b = None then scanBlocks fs (n, b) else None)"

definition blocksOk :: "anthropicFrame list \<Rightarrow> bool" where
  "blocksOk fs \<longleftrightarrow> scanBlocks fs (0, None) \<noteq> None"

lemma scan_append: "scanBlocks (xs @ ys) st = (case scanBlocks xs st of None \<Rightarrow> None | Some st \<Rightarrow> scanBlocks ys st)"
  by (induction xs st rule: scanBlocks.induct) (auto split: option.split)

abbreviation scanned :: "'g messagesStream \<Rightarrow> (nat \<times> blockKind option) option" where
  "scanned s \<equiv> scanBlocks (ms_frames s) (0, None)"

definition openBlock :: "'g messagesStream \<Rightarrow> blockKind option" where
  "openBlock s = (if thinkOpen s then Some BkThinking else if ms_textStarted s then Some BkText else None)"

section \<open>The steps of a stream\<close>

lemma addFrames_simps [simp]:
  "ms_frames (addFrames fs s) = ms_frames s @ fs" "ms_adapter (addFrames fs s) = ms_adapter s" "ms_sieve (addFrames fs s) = ms_sieve s"
  "ms_block (addFrames fs s) = ms_block s" "ms_thinkStarted (addFrames fs s) = ms_thinkStarted s"
  "ms_thinkClosed (addFrames fs s) = ms_thinkClosed s" "ms_textStarted (addFrames fs s) = ms_textStarted s"
  "ms_called (addFrames fs s) = ms_called s"
  by (simp_all add: addFrames_def)

text \<open>The stream after the events \<open>evs\<close> of the adapter, before any tool call.\<close>

definition stream_inv :: "FrameEvent list \<Rightarrow> 'g messagesStream \<Rightarrow> bool" where
  "stream_inv evs s \<longleftrightarrow> scanned s = Some (ms_block s, openBlock s) \<and> \<not> ms_called s \<and> (thinkOpen s \<longrightarrow> textsOf evs = []) \<and>
    (ms_textStarted s \<longrightarrow> textsOf evs \<noteq> []) \<and> (textsOf evs = [] \<longrightarrow> (\<forall>sv. ms_sieve s = Some sv \<longrightarrow> ts_buf sv = []))"

lemma stream_inv_new: "stream_inv [] (newMessagesStream env plan)"
  by (simp add: stream_inv_def newMessagesStream_def openBlock_def thinkOpen_def NewToolSieve_def)

lemma thinking_inv:
  assumes "stream_inv evs s" "textsOf evs = []"
  shows "stream_inv (evs @ [EvThinking t rollout tag step]) (handleThinking emitThink t s)"
  using assms by (auto simp: stream_inv_def handleThinking_def openBlock_def thinkOpen_def scan_append Let_def)

lemma close_inv:
  assumes "stream_inv evs s"
  shows "scanned (closeThinkingBlock s) = Some (ms_block (closeThinkingBlock s), openBlock (closeThinkingBlock s)) \<and>
    \<not> thinkOpen (closeThinkingBlock s) \<and> \<not> ms_called (closeThinkingBlock s)"
  using assms by (auto simp: stream_inv_def closeThinkingBlock_def openBlock_def thinkOpen_def scan_append Let_def)

lemma emit_inv:
  assumes "scanned s = Some (ms_block s, openBlock s)" "\<not> thinkOpen s"
  shows "scanned (emitTextDelta t s) = Some (ms_block (emitTextDelta t s), openBlock (emitTextDelta t s)) \<and> \<not> thinkOpen (emitTextDelta t s)"
  using assms by (auto simp: emitTextDelta_def openBlock_def thinkOpen_def scan_append Let_def)

lemma emit_called [simp]: "ms_called (emitTextDelta t s) = ms_called s" "ms_sieve (emitTextDelta t s) = ms_sieve s"
    "ms_adapter (emitTextDelta t s) = ms_adapter s"
  by (simp_all add: emitTextDelta_def Let_def)

lemma close_simps [simp]: "ms_adapter (closeThinkingBlock s) = ms_adapter s" "ms_sieve (closeThinkingBlock s) = ms_sieve s"
    "ms_textStarted (closeThinkingBlock s) = ms_textStarted s"
  by (simp_all add: closeThinkingBlock_def)

lemma emitCalls_simps [simp]: "ms_textStarted (emitCalls cs s) = ms_textStarted s" "ms_adapter (emitCalls cs s) = ms_adapter s"
  by (induction cs arbitrary: s) simp_all

text \<open>After tool calls: the stream is well formed when no block of text was open.\<close>

definition called_inv :: "'g messagesStream \<Rightarrow> bool" where
  "called_inv s \<longleftrightarrow> ms_called s \<and>
    (if ms_textStarted s then scanned s = None \<or> (\<exists>n k. scanned s = Some (n, Some k)) else scanned s = Some (ms_block s, None))"

lemma scan_calls:
  "scanned s = Some (ms_block s, None) \<Longrightarrow> scanned (emitCalls cs s) = Some (ms_block (emitCalls cs s), None)"
  by (induction cs arbitrary: s) (simp_all add: scan_append)

lemma scan_bad: "scanned s = None \<Longrightarrow> scanned (emitCalls cs s) = None"
  by (induction cs arbitrary: s) (simp_all add: scan_append)

lemma calls_inv:
  assumes "scanned s = Some (ms_block s, if ms_textStarted s then Some BkText else None)"
  shows "called_inv (emitToolCalls env cs s)"
proof (cases "ms_textStarted s")
  case True
  have "scanned (emitCalls cs s) = None \<or> cs = []"
  proof (cases cs)
    case (Cons c cs')
    then show ?thesis using assms True by (simp add: scan_bad scan_append)
  qed simp
  then show ?thesis using assms True by (auto simp: called_inv_def emitToolCalls_def)
next
  case False
  then show ?thesis using assms scan_calls [of s cs] by (simp add: called_inv_def emitToolCalls_def)
qed

lemma text_inv:
  assumes "stream_inv evs s" "handleText env t s = (stop, s2)"
  shows "if stop then called_inv s2 else stream_inv (evs @ [EvText t]) s2"
proof -
  let ?c = "closeThinkingBlock s"
  have c: "scanned ?c = Some (ms_block ?c, openBlock ?c)" "\<not> thinkOpen ?c" "\<not> ms_called ?c" using close_inv [OF assms(1)] by simp_all
  show ?thesis
  proof (cases "ms_sieve ?c")
    case None
    then have "s2 = emitTextDelta t ?c" "\<not> stop" using assms(2) by (simp_all add: handleText_def Let_def)
    then show ?thesis using emit_inv [OF c(1,2), of t] c(3) by (simp add: stream_inv_def)
  next
    case (Some sv)
    obtain safe calls sv2 where f: "FeedSieve (te_parse env) t sv = ((safe, calls), sv2)" by (metis prod.exhaust_sel)
    let ?d = "?c\<lparr>ms_sieve := Some sv2\<rparr>"
    have d: "scanned ?d = Some (ms_block ?d, openBlock ?d)" "\<not> thinkOpen ?d" "\<not> ms_called ?d"
      using c by (simp_all add: openBlock_def thinkOpen_def)
    show ?thesis
    proof (cases calls)
      case None
      then have "s2 = emitTextDelta safe ?d" "\<not> stop" using assms(2) f Some by (simp_all add: handleText_def Let_def)
      then show ?thesis using emit_inv [OF d(1,2), of safe] d(3) by (simp add: stream_inv_def)
    next
      case (Some cs)
      then have "s2 = emitToolCalls env cs ?d" "stop" using assms(2) f \<open>ms_sieve ?c = Some sv\<close> by (simp_all add: handleText_def Let_def)
      then show ?thesis using calls_inv [of ?d env cs] d by (simp add: openBlock_def)
    qed
  qed
qed

lemma other_inv: "stream_inv evs s \<Longrightarrow> textsOf [ev] = [] \<Longrightarrow> stream_inv (evs @ [ev]) s"
  by (simp add: stream_inv_def del: events_Cons)

lemma annotation_inv [simp]: "stream_inv evs (s\<lparr>ms_annotations := as\<rparr>) = stream_inv evs s" "stream_inv evs (s\<lparr>ms_adapter := a\<rparr>) = stream_inv evs s"
  by (simp_all add: stream_inv_def openBlock_def thinkOpen_def)

text \<open>What a line leaves: a stream before any call, for some events, or one after tool calls.\<close>

lemma events_inv:
  "stream_inv evs s \<Longrightarrow> thinkingFirst (evs @ new) \<Longrightarrow> handleEvents env emitThink new s = (stop, s2) \<Longrightarrow>
    called_inv s2 \<and> stop \<or> (\<exists>done. stream_inv done s2 \<and> (\<not> stop \<longrightarrow> done = evs @ new))"
proof (induction new arbitrary: evs s)
  case (Cons ev new)
  have next1: "stream_inv (evs @ [ev]) s1 \<Longrightarrow> handleEvents env emitThink new s1 = (stop, s2) \<Longrightarrow>
      called_inv s2 \<and> stop \<or> (\<exists>done. stream_inv done s2 \<and> (\<not> stop \<longrightarrow> done = evs @ ev # new))" for s1
    using Cons.IH [of "evs @ [ev]" s1] Cons.prems(2) by simp
  show ?case
  proof (cases ev)
    case (EvThinking t rollout tag step)
    then have "textsOf evs = []" using thinkingFirst_tail [OF Cons.prems(2)] by auto
    then have "stream_inv (evs @ [ev]) (handleThinking emitThink t s)" using thinking_inv [OF Cons.prems(1)] EvThinking by simp
    then show ?thesis using next1 Cons.prems(3) EvThinking by simp
  next
    case (EvText t)
    obtain now s1 where h: "handleText env t s = (now, s1)" by fastforce
    show ?thesis
    proof (cases now)
      case True
      then show ?thesis using text_inv [OF Cons.prems(1) h] Cons.prems(3) EvText h by simp
    next
      case False
      then show ?thesis using text_inv [OF Cons.prems(1) h] next1 Cons.prems(3) EvText h by simp
    qed
  next
    case (EvAnnotation a)
    have "stream_inv (evs @ [ev]) (s\<lparr>ms_annotations := ms_annotations s @ [a]\<rparr>)"
      using other_inv [OF Cons.prems(1), of ev] EvAnnotation by simp
    then show ?thesis using next1 [of "s\<lparr>ms_annotations := ms_annotations s @ [a]\<rparr>"] Cons.prems(3) EvAnnotation by simp
  next
    case EvSoftStop
    then show ?thesis using Cons.prems by auto
  next
    case (EvImage u i)
    then show ?thesis using next1 [OF other_inv [OF Cons.prems(1)]] Cons.prems(3) by simp
  next
    case (EvProgress p i)
    then show ?thesis using next1 [OF other_inv [OF Cons.prems(1)]] Cons.prems(3) by simp
  qed
qed auto

lemma events_adapter: "handleEvents env emitThink evs s = (stop, s2) \<Longrightarrow> ms_adapter s2 = ms_adapter s"
proof (induction evs arbitrary: s)
  case (Cons ev evs)
  have th: "ms_adapter (handleThinking emitThink t s) = ms_adapter s" for t by (simp add: handleThinking_def Let_def)
  have tx: "handleText env t s = (b, s1) \<Longrightarrow> ms_adapter s1 = ms_adapter s" for t b s1
    by (auto simp: handleText_def emitToolCalls_def Let_def split: option.splits prod.splits)
  show ?case
  proof (cases ev)
    case (EvText t)
    then show ?thesis using Cons.prems Cons.IH tx by (cases "handleText env t s") (fastforce split: bool.splits)
  next
    case (EvThinking t rollout tag step)
    then show ?thesis using Cons.prems Cons.IH [of "handleThinking emitThink t s"] th by simp
  next
    case (EvAnnotation a)
    then show ?thesis using Cons.prems Cons.IH [of "s\<lparr>ms_annotations := ms_annotations s @ [a]\<rparr>"] by simp
  qed (use Cons.prems Cons.IH [of s] in simp_all)
qed simp

text \<open>A stream as the consumption leaves it.\<close>

definition consumed :: "'g messagesStream \<Rightarrow> bool" where
  "consumed s \<longleftrightarrow> called_inv s \<or> (\<exists>evs. stream_inv evs s)"

lemma stream_block: "stream_inv evs s \<Longrightarrow> \<not> thinkOpen s \<Longrightarrow> scanned s = Some (ms_block s, if ms_textStarted s then Some BkText else None)"
  by (simp add: stream_inv_def openBlock_def)

lemma sieve_inv: "stream_inv evs s \<Longrightarrow> textsOf evs \<noteq> [] \<or> ts_buf sv = [] \<Longrightarrow> stream_inv evs (s\<lparr>ms_sieve := Some sv\<rparr>)"
  by (auto simp: stream_inv_def openBlock_def thinkOpen_def)

lemma flush_inv:
  assumes "consumed s"
  shows "consumed (flushMessagesSieve env s)"
proof (cases "ms_sieve s = None \<or> ms_called s")
  case True
  then show ?thesis using assms by (auto simp: flushMessagesSieve_def split: option.split)
next
  case False
  then obtain sv where sv: "ms_sieve s = Some sv" by auto
  obtain evs where i: "stream_inv evs s" using assms False by (auto simp: consumed_def called_inv_def)
  obtain calls sv2 where f: "FlushSieve (te_parse env) sv = (calls, sv2)" by fastforce
  have fresh: "ts_buf sv = [] \<Longrightarrow> calls = None \<and> sv2 = sv" using f by (simp add: FlushSieve_def)
  have keeps: "stream_inv evs (s\<lparr>ms_sieve := Some sv2\<rparr>)"
    by (rule sieve_inv [OF i]) (use fresh i sv in \<open>auto simp: stream_inv_def\<close>)
  show ?thesis
  proof (cases "\<exists>c cs. calls = Some (c # cs)")
    case False
    then have "flushMessagesSieve env s = s\<lparr>ms_sieve := Some sv2\<rparr>"
      using sv f \<open>\<not> (ms_sieve s = None \<or> ms_called s)\<close> by (auto simp: flushMessagesSieve_def neq_Nil_conv Let_def split: option.split)
    then show ?thesis using keeps by (auto simp: consumed_def)
  next
    case True
    then obtain c cs where c: "calls = Some (c # cs)" by blast
    let ?d = "s\<lparr>ms_sieve := Some sv2\<rparr>"
    have "ts_buf sv \<noteq> []" using fresh c by auto
    then have "\<not> thinkOpen ?d" using i sv by (auto simp: stream_inv_def thinkOpen_def)
    from stream_block [OF keeps this] have "scanned (closeTextBlock ?d) =
        Some (ms_block (closeTextBlock ?d), if ms_textStarted (closeTextBlock ?d) then Some BkText else None)"
      by (auto simp: closeTextBlock_def scan_append)
    from calls_inv [OF this] show ?thesis
      using sv f c \<open>\<not> (ms_sieve s = None \<or> ms_called s)\<close> by (simp add: flushMessagesSieve_def consumed_def)
  qed
qed

lemma consume_inv:
  "stream_inv evs s \<Longrightarrow> adapter_inv False evs (ms_adapter s) \<Longrightarrow> consumeMessages env plan ls s = Inr s2 \<Longrightarrow> consumed s2"
proof (induction ls arbitrary: evs s)
  case Nil
  then show ?case using flush_inv [of s env] by (auto simp: consumed_def)
next
  case (Cons l ls)
  have flush: "consumed (flushMessagesSieve env s)" using Cons.prems(1) flush_inv [of s env] by (auto simp: consumed_def)
  show ?case
  proof (cases "ClassifyLine l")
    case (LineData data)
    show ?thesis
    proof (cases "data = []")
      case False
      obtain r a where f: "FeedAdapter (te_adapter env) data (ms_adapter s) = (r, a)" by fastforce
      then obtain new where r: "r = Inr new" using Cons.prems(3) LineData False by (cases r) simp_all
      have b: "adapter_inv False (evs @ new) a" using feed_inv [OF Cons.prems(2)] f r by simp
      obtain stop s1 where h: "handleEvents env (mp_emitThink plan) new (s\<lparr>ms_adapter := a\<rparr>) = (stop, s1)" by fastforce
      have o: "called_inv s1 \<and> stop \<or> (\<exists>done. stream_inv done s1 \<and> (\<not> stop \<longrightarrow> done = evs @ new))"
        by (rule events_inv [OF _ _ h]) (use Cons.prems(1) b in \<open>simp_all add: adapter_inv_def\<close>)
      have a: "ms_adapter s1 = a" using events_adapter [OF h] by simp
      show ?thesis
      proof (cases stop)
        case True
        then have "s2 = flushMessagesSieve env s1" using Cons.prems(3) LineData False f r h by simp
        then show ?thesis using o flush_inv [of s1 env] by (auto simp: consumed_def)
      next
        case False
        then show ?thesis using o Cons.IH [of "evs @ new" s1] Cons.prems(3) LineData \<open>data \<noteq> []\<close> f r h a b by simp
      qed
    qed (use Cons LineData in simp)
  qed (use Cons flush in simp_all)
qed

section \<open>The end\<close>

lemma late_nonempty: "t \<in> set (lateTexts env plan s) \<Longrightarrow> t \<noteq> []"
  by (auto simp: lateTexts_def split: if_splits)

lemma fold_emit:
  "scanned s = Some (ms_block s, openBlock s) \<Longrightarrow> \<not> thinkOpen s \<Longrightarrow>
    scanned (fold emitTextDelta ts s) = Some (ms_block (fold emitTextDelta ts s), openBlock (fold emitTextDelta ts s)) \<and>
    \<not> thinkOpen (fold emitTextDelta ts s)"
  by (induction ts arbitrary: s) (simp_all add: emit_inv)

lemma fold_bad: "scanned s = None \<Longrightarrow> scanned (fold emitTextDelta ts s) = None"
  by (induction ts arbitrary: s) (simp_all add: emitTextDelta_def scan_append Let_def)

lemma finish_called: "called_inv s \<Longrightarrow> blocksOk (ms_frames (finishMessages env plan s)) \<longleftrightarrow> \<not> ms_textStarted s"
  by (auto simp: called_inv_def finishMessages_def finishToolStream_def blocksOk_def scan_append split: if_splits)

lemma finish_open:
  assumes "stream_inv evs s" "thinkOpen s"
  shows "blocksOk (ms_frames (finishMessages env plan s)) \<longleftrightarrow> lateTexts env plan s = []"
proof (cases "lateTexts env plan s")
  case Nil
  have "closeThinkingBlock s = addFrames [AfBlockStop (ms_block s)] (s\<lparr>ms_thinkClosed := True, ms_block := ms_block s + 1\<rparr>)"
    using assms(2) by (simp add: closeThinkingBlock_def thinkOpen_def)
  then show ?thesis using assms Nil
    by (auto simp: finishMessages_def appendImagesAndReferences_def stream_inv_def openBlock_def blocksOk_def scan_append Let_def)
next
  case (Cons t ts)
  have "t \<noteq> []" using late_nonempty [of t env plan s] Cons by simp
  moreover have "\<not> ms_textStarted s" "scanned s = Some (ms_block s, Some BkThinking)" "\<not> ms_called s"
    using assms by (auto simp: stream_inv_def openBlock_def)
  ultimately have "scanned (emitTextDelta t s) = None" by (simp add: emitTextDelta_def scan_append Let_def)
  then have "scanned (appendImagesAndReferences env plan s) = None" by (simp add: appendImagesAndReferences_def Cons fold_bad)
  then show ?thesis using Cons \<open>\<not> ms_called s\<close>
    by (simp add: finishMessages_def closeThinkingBlock_def blocksOk_def scan_append Let_def)
qed

lemma finish_closed:
  assumes "stream_inv evs s" "\<not> thinkOpen s"
  shows "blocksOk (ms_frames (finishMessages env plan s))"
proof -
  let ?a = "appendImagesAndReferences env plan s"
  have a: "scanned ?a = Some (ms_block ?a, openBlock ?a)" "\<not> thinkOpen ?a"
    using fold_emit [of s "lateTexts env plan s"] assms by (simp_all add: appendImagesAndReferences_def stream_inv_def)
  then have "closeThinkingBlock ?a = ?a" by (auto simp: closeThinkingBlock_def thinkOpen_def)
  then show ?thesis using assms a
    by (auto simp: finishMessages_def stream_inv_def openBlock_def blocksOk_def scan_append Let_def)
qed

section \<open>Properties\<close>

text \<open>C14. The blocks of an Anthropic stream are well formed exactly when no tool call came while a block of text was open and no
  image or source had to be added while the reasoning was still open.\<close>

theorem messages_blocks:
  assumes "consumeMessages env plan ls (newMessagesStream env plan) = Inr s"
  shows "blocksOk (ms_frames (finishMessages env plan s)) \<longleftrightarrow>
    \<not> (if ms_called s then ms_textStarted s else thinkOpen s \<and> lateTexts env plan s \<noteq> [])"
proof -
  have "adapter_inv False [] (ms_adapter (newMessagesStream env plan))" by (simp add: newMessagesStream_def new_inv)
  from consume_inv [OF stream_inv_new this assms] consider "called_inv s" | evs where "stream_inv evs s" by (auto simp: consumed_def)
  then show ?thesis
  proof cases
    case 1
    then show ?thesis using finish_called [of s env plan] by (simp add: called_inv_def)
  next
    case (2 evs)
    then have "\<not> ms_called s" by (simp add: stream_inv_def)
    then show ?thesis using finish_open [OF 2, of env plan] finish_closed [OF 2, of env plan] by auto
  qed
qed

definition samplePlan :: messagesPlan where
  "samplePlan = \<lparr>mp_id = ''m'', mp_message = ''Q'', mp_toolNames = [], mp_emitThink = True, mp_token = ''t''\<rparr>"

lemma sample_messages:
  "consumeMessages sampleTextEnv samplePlan [''data: a'', ''data: [DONE]''] (newMessagesStream sampleTextEnv samplePlan) =
    Inr ((newMessagesStream sampleTextEnv samplePlan)
      \<lparr>ms_frames := ms_frames (newMessagesStream sampleTextEnv samplePlan) @ [AfBlockStart 0 BkText, AfBlockDelta 0 (DeltaText ''Hi'')],
       ms_adapter := (ms_adapter (newMessagesStream sampleTextEnv samplePlan))\<lparr>sa_contentStarted := True, sa_textBuf := [''Hi''], sa_textOffset := 2\<rparr>,
       ms_textParts := [''Hi''], ms_textStarted := True\<rparr>)"
  by (simp add: sample_lines sample_feed handleText_def closeThinkingBlock_def emitTextDelta_def addFrames_def flushMessagesSieve_def
    newMessagesStream_def samplePlan_def NewStreamAdapter_def Let_def)

theorem messages_blocks_witness: "blocksOk (ms_frames (finishMessages sampleTextEnv samplePlan ((newMessagesStream sampleTextEnv samplePlan)
      \<lparr>ms_frames := ms_frames (newMessagesStream sampleTextEnv samplePlan) @ [AfBlockStart 0 BkText, AfBlockDelta 0 (DeltaText ''Hi'')],
       ms_adapter := (ms_adapter (newMessagesStream sampleTextEnv samplePlan))\<lparr>sa_contentStarted := True, sa_textBuf := [''Hi''], sa_textOffset := 2\<rparr>,
       ms_textParts := [''Hi''], ms_textStarted := True\<rparr>)))"
  using messages_blocks [OF sample_messages] by (simp add: newMessagesStream_def thinkOpen_def)

text \<open>Reasoning with a source, and no text: the list of sources opens a block with the index of the open block of the reasoning.\<close>

definition thinkingEnv :: "unit TextEnv" where
  "thinkingEnv = sampleTextEnv\<lparr>te_adapter := (te_adapter sampleTextEnv)\<lparr>ae_json := (ae_json (te_adapter sampleTextEnv))
    \<lparr>jo_unmarshal := (\<lambda>s. Some (JObj [(''result'', JObj [(''response'', JObj [(''token'', JStr ''Hm''), (''isThinking'', JBool True),
      (''webSearchResults'', JObj [(''results'', JArr [JObj [(''url'', JStr ''u'')]])])])])]))\<rparr>\<rparr>\<rparr>"

lemma thinking_feed:
  "FeedAdapter (te_adapter thinkingEnv) ''a'' (NewStreamAdapter (te_adapter thinkingEnv) False True) =
    (Inr [EvThinking [CHR ''H'', CHR ''m'', CHR 0x0A] [] [] None],
     (NewStreamAdapter (te_adapter thinkingEnv) False True)\<lparr>sa_urlsSeen := {''u''},
       sa_results := [[(''type'', JStr ''web''), (''url'', JStr ''u'')]], sa_emitted := {'':Hm''}, sa_thinkingBuf := [[CHR ''H'', CHR ''m'', CHR 0x0A]]\<rparr>)"
  by (simp add: FeedAdapter_def thinkingEnv_def sampleTextEnv_def StreamErrorFromPayload_def asObj_def jget_def feedImages_def
    ExtractStreamingImageEditResponse_def ExtractModelResponseImageEditURLs_def collectSearchResults_def feedToken_def boolFromAny_def
    stringFromAny_def sprintJson_def feedThinking_def appendReasoning_def hasSuffixOf_def hasPrefix_def NewStreamAdapter_def
    nonEmptyStringItems_def anySlice_def webResult_def addResult_def jset_def jsonInt_def Let_def List.map_filter_def)

lemma late_sources:
  "case messagesStreamResult thinkingEnv samplePlan [''data: a''] of Inl e \<Rightarrow> False | Inr frames \<Rightarrow> \<not> blocksOk frames"
proof -
  let ?n = "newMessagesStream thinkingEnv samplePlan"
  let ?a = "snd (FeedAdapter (te_adapter thinkingEnv) ''a'' (ms_adapter ?n))"
  let ?s = "handleThinking True [CHR ''H'', CHR ''m'', CHR 0x0A] (?n\<lparr>ms_adapter := ?a\<rparr>)"
  have new: "ms_adapter ?n = NewStreamAdapter (te_adapter thinkingEnv) False True" "ms_sieve ?n = None"
    by (simp_all add: newMessagesStream_def samplePlan_def)
  have run: "consumeMessages thinkingEnv samplePlan [''data: a''] ?n = Inr ?s"
  proof -
    have "mp_emitThink samplePlan" by (simp add: samplePlan_def)
    moreover have "ms_sieve ?s = None" by (simp add: handleThinking_def new(2) Let_def)
    ultimately show ?thesis by (simp add: sample_lines new(1) thinking_feed flushMessagesSieve_def)
  qed
  have i: "stream_inv [EvThinking [CHR ''H'', CHR ''m'', CHR 0x0A] [] [] None] ?s"
    using thinking_inv [of "[]" "?n\<lparr>ms_adapter := ?a\<rparr>"] stream_inv_new [of thinkingEnv samplePlan] by simp
  have o: "thinkOpen ?s" by (simp add: thinkOpen_def handleThinking_def newMessagesStream_def Let_def)
  have "ms_adapter ?s = ?a" by (simp add: handleThinking_def Let_def)
  then have "ReferencesSuffix (te_adapter thinkingEnv) (ms_adapter ?s) \<noteq> []"
    unfolding new thinking_feed by (simp add: ReferencesSuffix_def NewStreamAdapter_def)
  then have "lateTexts thinkingEnv samplePlan ?s \<noteq> []" by (simp add: lateTexts_def)
  then show ?thesis using finish_open [OF i o] run by (simp add: messagesStreamResult_def)
qed

end
