(* ===== verification/MessagesService.thy ===== *)
theory MessagesService
  imports ChatService AnthropicProps
begin

text \<open>
  An Anthropic request over the pool of accounts (\<open>products/anthropic\<close>: \<open>messages_flow.go\<close>, the directory and the refresh calls of
  \<open>messages_types.go\<close>, \<open>messagesFromStream\<close> of \<open>messages_response.go\<close>). The directory is the one of chat requests and so is the way
  an account is reserved, released and told of the outcome; what may be retried and what is refreshed afterwards differ.
\<close>

section \<open>The service\<close>

definition shouldRetryMessages :: "int set \<Rightarrow> goerr \<Rightarrow> bool" where
  "shouldRetryMessages codes e = (case asUpstream e of None \<Rightarrow> False | Some (status, _, _) \<Rightarrow> status \<in> codes)"

definition messagesDispatchFeedback :: "goerr option \<Rightarrow> FeedbackKind option" where
  "messagesDispatchFeedback err = Some (case err of None \<Rightarrow> FbSuccess | Some e \<Rightarrow> FeedbackKindForError err)"

definition messagesQuotaSync :: "('u, 'r) ChatEnv \<Rightarrow> string \<Rightarrow> int \<Rightarrow> 'u ChatWorld \<Rightarrow> 'u ChatWorld" where
  "messagesQuotaSync env token mode w =
    (if re_strategy (ce_reserve env) \<noteq> ''quota'' then w
     else if \<not> ce_service env then w
     else w\<lparr>cw_db := snd (RefreshCallAsync (ce_refresh env) (ce_nowMS env (cw_upstream w)) token mode (cw_db w))\<rparr>)"

definition messagesFailSync :: "('u, 'r) ChatEnv \<Rightarrow> string \<Rightarrow> int \<Rightarrow> goerr \<Rightarrow> 'u ChatWorld \<Rightarrow> 'u ChatWorld" where
  "messagesFailSync env token mode e w =
    (if \<not> ce_service env then w
     else w\<lparr>cw_db := RecordFailureAsync (ce_refresh env) (ce_nowMS env (cw_upstream w)) token mode (Some e) (cw_db w)\<rparr>)"

definition runMessagesAttempt :: "('u, 'r) ChatEnv \<Rightarrow> chatAccount \<Rightarrow> 'u ChatWorld \<Rightarrow> (goerr + 'r) \<times> 'u ChatWorld" where
  "runMessagesAttempt env account w =
    (case ce_attempt env account (cw_upstream w) of
       (Inl e, u) \<Rightarrow> (Inl e, messagesFailSync env (ca_token account) (ca_mode account) e (w\<lparr>cw_upstream := u\<rparr>))
     | (Inr x, u) \<Rightarrow> (Inr x, messagesQuotaSync env (ca_token account) (ca_mode account) (w\<lparr>cw_upstream := u\<rparr>)))"

definition messagesRun :: "('u, 'r) ChatEnv \<Rightarrow> AccountDispatchLease \<Rightarrow> 'u ChatWorld \<Rightarrow> (goerr + 'r) \<times> 'u ChatWorld" where
  "messagesRun env lease w =
    (case cw_accounts w lease of
       None \<Rightarrow> (Inl (ErrRateLimit ''No available accounts for this model tier'' ), w)
     | Some account \<Rightarrow> runMessagesAttempt env account w)"

definition messagesOptions :: "('u, 'r) ChatEnv \<Rightarrow> ModelSpec \<Rightarrow> (ModelSpec, 'u ChatWorld) DispatchOptions" where
  "messagesOptions env spec =
    (chatOptions env spec)\<lparr>do_retryable := Some (shouldRetryMessages (ce_retryCodes env)), do_kindOf := Some messagesDispatchFeedback\<rparr>"

definition runMessagesWithRetries :: "('u, 'r) ChatEnv \<Rightarrow> ModelSpec \<Rightarrow> 'u ChatWorld \<Rightarrow> (goerr + 'r) \<times> 'u ChatWorld" where
  "runMessagesWithRetries env spec w = RunAccountDispatch (messagesOptions env spec) (messagesRun env) (w\<lparr>cw_accounts := Map.empty\<rparr>)"

section \<open>An attempt\<close>

datatype messagesResult = MrFrames "anthropicFrame list" | MrAnswer messagesAnswer

text \<open>\<open>post\<close> sends the request and gives the lines of the upstream.\<close>

definition messagesFromStream ::
    "'g TextEnv \<Rightarrow> messagesPlan \<Rightarrow> bool \<Rightarrow> (chatAccount \<Rightarrow> 'v \<Rightarrow> (goerr + string list) \<times> 'v) \<Rightarrow> chatAccount \<Rightarrow> 'v \<Rightarrow>
     (goerr + messagesResult) \<times> 'v" where
  "messagesFromStream env plan isStream post account v =
    (case post account v of
       (Inl e, v) \<Rightarrow> (Inl e, v)
     | (Inr ls, v) \<Rightarrow>
         (let plan = plan\<lparr>mp_token := ca_token account\<rparr>
          in (if isStream then map_sum id MrFrames (messagesStreamResult env plan ls)
              else map_sum id MrAnswer (messagesNonStreamResult env plan ls), v)))"

section \<open>The contract of the dispatch\<close>

lemma sync_world [simp]:
  "cw_upstream (messagesQuotaSync env token mode w) = cw_upstream w" "cw_dir (messagesQuotaSync env token mode w) = cw_dir w"
  "cw_accounts (messagesQuotaSync env token mode w) = cw_accounts w"
  "cw_upstream (messagesFailSync env token mode e w) = cw_upstream w" "cw_dir (messagesFailSync env token mode e w) = cw_dir w"
  "cw_accounts (messagesFailSync env token mode e w) = cw_accounts w"
  by (simp_all add: messagesQuotaSync_def messagesFailSync_def)

lemma messages_options [simp]:
  "do_reserve (messagesOptions env spec) = chatReserve env" "do_release (messagesOptions env spec) = chatRelease"
  "do_feedback (messagesOptions env spec) = chatFeedback env" "do_spec (messagesOptions env spec) = spec"
  "dispatchMaxAttempts (messagesOptions env spec) = chatAttempts env"
  "dispatchRetryable (messagesOptions env spec) e = shouldRetryMessages (ce_retryCodes env) e"
  using chat_attempts [of env spec]
  by (simp_all add: messagesOptions_def chatOptions_def dispatchMaxAttempts_def dispatchRetryable_def chatAttempts_def Let_def)

lemma messages_turn:
  assumes "chat_inv env seen w" "chatReserve env spec ex w = (Inr (Some lease), w1)" "messagesRun env lease w1 = (r, w2)"
  shows "chat_inv env seen (chatRelease lease w2) \<and> DispatchProps.held (cw_dir (chatRelease lease w2)) = DispatchProps.held (cw_dir w) \<and>
    seen (cw_upstream (chatRelease lease w2)) = seen (cw_upstream w) @ [(dl_token lease, errOf r)]"
  by (rule granted_turn [OF assms(1,2)])
    (use assms(3) in \<open>auto simp: messagesRun_def runMessagesAttempt_def split: sum.splits prod.splits\<close>)

interpretation messages: dispatch_directory "messagesOptions env spec" "messagesRun env" "chat_inv env seen"
    "\<lambda>w. DispatchProps.held (cw_dir w)" "\<lambda>w. seen (cw_upstream w)"
  for env :: "('u, 'r) ChatEnv" and spec seen
proof
  fix w ex x w1 l r w2 token kind mode
  assume inv: "chat_inv env seen w"
  show "chat_inv env seen w1 \<and> DispatchProps.held (cw_dir w1) = DispatchProps.held (cw_dir w) \<and> seen (cw_upstream w1) = seen (cw_upstream w)"
    if "do_reserve (messagesOptions env spec) (do_spec (messagesOptions env spec)) ex w = (x, w1)" "\<forall>l. x \<noteq> Inr (Some l)"
    using chat.refuse [OF inv, of spec ex x w1] that by simp
  show "dl_token l \<notin> set ex"
    if "do_reserve (messagesOptions env spec) (do_spec (messagesOptions env spec)) ex w = (Inr (Some l), w1)"
    using chat.fresh [OF inv, of spec ex l w1] that by simp
  show "chat_inv env seen (do_release (messagesOptions env spec) l w2) \<and>
      DispatchProps.held (cw_dir (do_release (messagesOptions env spec) l w2)) = DispatchProps.held (cw_dir w) \<and>
      seen (cw_upstream (do_release (messagesOptions env spec) l w2)) = seen (cw_upstream w) @ [(dl_token l, errOf r)]"
    if "do_reserve (messagesOptions env spec) (do_spec (messagesOptions env spec)) ex w = (Inr (Some l), w1)"
      "messagesRun env l w1 = (r, w2)"
    using messages_turn [OF inv] that by simp
  show "chat_inv env seen (do_feedback (messagesOptions env spec) token kind mode w) \<and>
      DispatchProps.held (cw_dir (do_feedback (messagesOptions env spec) token kind mode w)) = DispatchProps.held (cw_dir w) \<and>
      seen (cw_upstream (do_feedback (messagesOptions env spec) token kind mode w)) = seen (cw_upstream w)"
    using chat.told [OF inv, of spec token kind mode] by simp
qed

section \<open>Properties\<close>

text \<open>C15. An Anthropic request calls the upstream for pairwise different accounts, at most as often as the retry limit allows, and
  again only after an error that may be retried; when it ends, every account it had reserved is released, and it answers with
  the result of its last call, with its error, or with the refusal of the directory.\<close>

theorem messages_dispatch:
  assumes "env_ok env" "records env seen" "dir_ok (ce_nowS env (cw_upstream w)) (cw_dir w)"
    and "runMessagesWithRetries env spec w = (res, w')"
  shows "\<exists>calls. seen (cw_upstream w') = seen (cw_upstream w) @ calls \<and> distinct (map fst calls) \<and>
    int (length calls) \<le> chatAttempts env \<and> DispatchProps.held (cw_dir w') = DispatchProps.held (cw_dir w) \<and>
    (\<forall>c \<in> set (butlast calls). \<exists>e. snd c = Some e \<and> shouldRetryMessages (ce_retryCodes env) e) \<and>
    (case res of
       Inr x \<Rightarrow> calls \<noteq> [] \<and> snd (last calls) = None
     | Inl e \<Rightarrow> calls \<noteq> [] \<and> snd (last calls) = Some e \<or> (\<exists>w1. chat_inv env seen w1 \<and> fst (chatReserve env spec (map fst calls) w1) = Inl e))"
proof -
  from messages.dispatch_run [OF chat_fresh_inv [OF assms(1-3)], of spec res w'] assms(4) obtain calls where c:
    "seen (cw_upstream w') = seen (cw_upstream w) @ calls" "DispatchProps.held (cw_dir w') = DispatchProps.held (cw_dir w)"
    "distinct (map fst calls)" "int (length calls) \<le> chatAttempts env" "outcome (messagesOptions env spec) (chat_inv env seen) [] calls 0 res"
    by (auto simp: runMessagesWithRetries_def)
  have refused: "\<exists>w1. chat_inv env seen w1 \<and> fst (chatReserve env spec ex w1) = Inl e"
    if "refused (messagesOptions env spec) (chat_inv env seen) ex e" for ex e
    using that chatReserve_cases by (fastforce simp: refused_def)
  have "\<forall>c \<in> set (butlast calls). \<exists>e. snd c = Some e \<and> shouldRetryMessages (ce_retryCodes env) e"
    using c(5) by (auto simp: outcome_def failed_over_def split: sum.splits dest: in_set_butlastD)
  moreover have "case res of Inr x \<Rightarrow> calls \<noteq> [] \<and> snd (last calls) = None
     | Inl e \<Rightarrow> calls \<noteq> [] \<and> snd (last calls) = Some e \<or> (\<exists>w1. chat_inv env seen w1 \<and> fst (chatReserve env spec (map fst calls) w1) = Inl e)"
    using c(5) refused by (auto simp: outcome_def split: sum.splits)
  ultimately show ?thesis using c(1-4) by auto
qed

theorem messages_dispatch_witness:
  "\<exists>res w' calls. runMessagesWithRetries sampleChat sampleModel sampleWorld = (res, w') \<and> cw_upstream w' = calls \<and>
     distinct (map fst calls) \<and> DispatchProps.held (cw_dir w') = Some [0, 0]"
proof -
  obtain res w' where run: "runMessagesWithRetries sampleChat sampleModel sampleWorld = (res, w')" by (metis prod.exhaust)
  have dir: "dir_ok (ce_nowS sampleChat (cw_upstream sampleWorld)) (cw_dir sampleWorld)"
    using sampleTable_ok sampleTable_clock by (simp add: dir_ok_def sample_world)
  from messages_dispatch [OF sample_env_ok sample_records dir run] run show ?thesis
    by (auto simp: sample_world sampleTable_simps)
qed

end
