(* ===== verification/ResponseStream.thy ===== *)
theory ResponseStream
  imports TextRun
begin

text \<open>
  The Responses form of a chat stream (\<open>products/openai\<close>: \<open>responses_stream.go\<close>, \<open>responses_format.go\<close>,
  \<open>runResponseAttempt\<close> of \<open>responses.go\<close>): the events of a text run turned into the events of output items, and the
  output of the response. A frame stands for its JSON document; item ids are left out, an item being known by its index.
\<close>

section \<open>Items and frames\<close>

datatype responseItem =
    RiReasoning string
  | RiMessage string "UrlCitation list" "(json \<times> string \<times> string) list"
  | RiCall ParsedToolCall

datatype itemKind = IkReasoning | IkMessage | IkCall

record respUsage =
  rs_input :: int
  rs_output :: int
  rs_all :: int
  rs_reasoning :: int

datatype responseFrame =
    RfCreated
  | RfItemAdded nat itemKind
  | RfSummaryPartAdded nat
  | RfSummaryDelta nat string
  | RfSummaryTextDone nat string
  | RfSummaryPartDone nat string
  | RfPartAdded nat
  | RfTextDelta nat string
  | RfAnnotationAdded nat nat UrlCitation
  | RfTextDone nat string
  | RfPartDone nat string "UrlCitation list"
  | RfArgumentsDelta nat string
  | RfArgumentsDone nat string
  | RfItemDone nat responseItem
  | RfCompleted "responseItem list" respUsage
  | RfDone

definition BuildRespUsage :: "int \<Rightarrow> int \<Rightarrow> int \<Rightarrow> respUsage" where
  "BuildRespUsage input output reasoning =
    \<lparr>rs_input = max 0 input, rs_output = max 0 output, rs_all = max 0 (input + output), rs_reasoning = max 0 reasoning\<rparr>"

fun functionCallEvents :: "nat \<Rightarrow> ParsedToolCall list \<Rightarrow> responseFrame list" where
  "functionCallEvents i [] = []"
| "functionCallEvents i (call # calls) =
    [RfItemAdded i IkCall, RfArgumentsDelta i (tc_arguments call), RfArgumentsDone i (tc_arguments call), RfItemDone i (RiCall call)] @
    functionCallEvents (i + 1) calls"

definition responseReasoningStartFrames :: "responseFrame list" where
  "responseReasoningStartFrames = [RfItemAdded 0 IkReasoning, RfSummaryPartAdded 0]"

definition responseReasoningDoneFrames :: "string \<Rightarrow> responseFrame list" where
  "responseReasoningDoneFrames text1 = [RfSummaryTextDone 0 text1, RfSummaryPartDone 0 text1, RfItemDone 0 (RiReasoning text1)]"

definition responseMessageStartFrames :: "nat \<Rightarrow> responseFrame list" where
  "responseMessageStartFrames i = [RfItemAdded i IkMessage, RfPartAdded i]"

definition responseMessageItem :: "textRunState \<Rightarrow> responseItem" where
  "responseMessageItem st = RiMessage (ru_text st) (ru_annotations st) (ru_sources st)"

definition responseMessageDoneFrames :: "nat \<Rightarrow> textRunState \<Rightarrow> responseFrame list" where
  "responseMessageDoneFrames i st =
    [RfTextDone i (ru_text st), RfPartDone i (ru_text st) (ru_annotations st), RfItemDone i (responseMessageItem st)]"

definition responseMessageIndex :: "bool \<Rightarrow> nat" where
  "responseMessageIndex reasoningStarted = (if reasoningStarted then 1 else 0)"

section \<open>The loop over the events\<close>

record responseOptions =
  ro_token :: string
  ro_message :: string
  ro_stream :: bool
  ro_emitThink :: bool
  ro_toolNames :: "string list"
  ro_toolsDisabled :: bool

record responseStream =
  rm_frames :: "responseFrame list"
  rm_items :: "ParsedToolCall list"
  rm_messageStarted :: bool
  rm_reasoningStarted :: bool
  rm_reasoningClosed :: bool
  rm_called :: bool
  rm_reasoningText :: string
  rm_annotationIndex :: nat

definition responseInitial :: "responseOptions \<Rightarrow> responseStream" where
  "responseInitial o1 =
    \<lparr>rm_frames = (if ro_stream o1 then [RfCreated] else []), rm_items = [], rm_messageStarted = False, rm_reasoningStarted = False,
     rm_reasoningClosed = False, rm_called = False, rm_reasoningText = '''', rm_annotationIndex = 0\<rparr>"

definition addResp :: "responseFrame list \<Rightarrow> responseStream \<Rightarrow> responseStream" where
  "addResp fs s = s\<lparr>rm_frames := rm_frames s @ fs\<rparr>"

definition responseThinking :: "responseOptions \<Rightarrow> string \<Rightarrow> responseStream \<Rightarrow> responseStream" where
  "responseThinking o1 t s =
    (if ro_emitThink o1 \<and> t \<noteq> '''' then
       (let s = (if \<not> rm_reasoningStarted s \<and> ro_stream o1 then addResp responseReasoningStartFrames (s\<lparr>rm_reasoningStarted := True\<rparr>) else s);
            s = s\<lparr>rm_reasoningText := rm_reasoningText s @ t\<rparr>
        in if ro_stream o1 then addResp [RfSummaryDelta 0 t] s else s)
     else s)"

definition closeReasoning :: "responseOptions \<Rightarrow> responseStream \<Rightarrow> responseStream" where
  "closeReasoning o1 s =
    (if rm_reasoningStarted s \<and> \<not> rm_reasoningClosed s \<and> ro_stream o1
     then addResp (responseReasoningDoneFrames (rm_reasoningText s)) (s\<lparr>rm_reasoningClosed := True\<rparr>) else s)"

definition responseText :: "responseOptions \<Rightarrow> string \<Rightarrow> responseStream \<Rightarrow> responseStream" where
  "responseText o1 t s =
    (let s = closeReasoning o1 s
     in if t = '''' then s
        else (let s = (if \<not> rm_messageStarted s \<and> ro_stream o1
                       then addResp (responseMessageStartFrames (responseMessageIndex (rm_reasoningStarted s))) (s\<lparr>rm_messageStarted := True\<rparr>)
                       else s)
              in if ro_stream o1 then addResp [RfTextDelta (responseMessageIndex (rm_reasoningStarted s)) t] s else s))"

definition responseAnnotation :: "responseOptions \<Rightarrow> UrlCitation \<Rightarrow> responseStream \<Rightarrow> responseStream" where
  "responseAnnotation o1 a s =
    (if ro_stream o1 \<and> rm_messageStarted s
     then addResp [RfAnnotationAdded (responseMessageIndex (rm_reasoningStarted s)) (rm_annotationIndex s) a] s
     else s)\<lparr>rm_annotationIndex := rm_annotationIndex s + 1\<rparr>"

definition responseTools :: "responseOptions \<Rightarrow> ParsedToolCall list \<Rightarrow> responseStream \<Rightarrow> responseStream" where
  "responseTools o1 calls s =
    (if ro_toolsDisabled o1 then s
     else (addResp (functionCallEvents (responseMessageIndex (rm_reasoningStarted s)) calls) s)\<lparr>rm_items := calls, rm_called := True\<rparr>)"

definition responseEvent :: "responseOptions \<Rightarrow> textRunEvent \<Rightarrow> responseStream \<Rightarrow> responseStream" where
  "responseEvent o1 ev s =
    (case ev of
       RvThinking t \<Rightarrow> responseThinking o1 t s
     | RvText t \<Rightarrow> responseText o1 t s
     | RvAnnotation a \<Rightarrow> responseAnnotation o1 a s
     | RvTools calls \<Rightarrow> responseTools o1 calls s)"

fun responseEvents :: "responseOptions \<Rightarrow> textRunEvent list \<Rightarrow> responseStream \<Rightarrow> responseStream" where
  "responseEvents o1 [] s = s"
| "responseEvents o1 (ev # evs) s = (let s = responseEvent o1 ev s in if rm_called s then s else responseEvents o1 evs s)"

fun appendResponseImages :: "responseOptions \<Rightarrow> string list \<Rightarrow> textRunState \<Rightarrow> responseStream \<Rightarrow> textRunState \<times> responseStream" where
  "appendResponseImages o1 [] st s = (st, s)"
| "appendResponseImages o1 (i # is) st s =
    appendResponseImages o1 is
      (st\<lparr>ru_text := (if ru_text st \<noteq> '''' then ru_text st @ [CHR 0x0A, CHR 0x0A] else ru_text st) @ i\<rparr>)
      (if ro_stream o1 \<and> rm_messageStarted s \<and> \<not> rm_called s
       then addResp [RfTextDelta (responseMessageIndex (rm_reasoningStarted s)) (i @ [CHR 0x0A])] s else s)"

text \<open>The part of \<open>collectResponseStream\<close> after the loop.\<close>

definition finishResponse :: "responseOptions \<Rightarrow> textRunState \<Rightarrow> responseStream \<Rightarrow> textRunState \<times> responseStream" where
  "finishResponse o1 st s =
    (let (st, s) = appendResponseImages o1 (ru_imageTexts st) st s; st = st\<lparr>ru_text := ru_text st @ ru_references st\<rparr>
     in (st, if ro_stream o1 \<and> \<not> rm_called s
             then (let i = responseMessageIndex (rm_reasoningStarted s);
                       s = (if rm_messageStarted s then s else addResp (responseMessageStartFrames i) s)
                   in addResp (responseMessageDoneFrames i st) s)
             else s))"

definition responseTextOptions :: "responseOptions \<Rightarrow> textRunOptions" where
  "responseTextOptions o1 =
    \<lparr>tr_token = ro_token o1, tr_emitThinking = ro_emitThink o1, tr_thinkingSummary = False, tr_showSources = False,
     tr_toolNames = ro_toolNames o1, tr_disableTools = ro_toolsDisabled o1, tr_enableSieve = ro_toolNames o1 \<noteq> [] \<or> ro_toolsDisabled o1,
     tr_stopAfterCall = True\<rparr>"

definition collectResponseStream :: "'g TextEnv \<Rightarrow> string list \<Rightarrow> responseOptions \<Rightarrow> goerr + textRunState \<times> responseStream" where
  "collectResponseStream env ls o1 =
    (case consumeTextRunLines env ls (responseTextOptions o1) of
       Inl e \<Rightarrow> Inl e
     | Inr (st, evs) \<Rightarrow> Inr (finishResponse o1 st (responseEvents o1 evs (responseInitial o1))))"

section \<open>The response\<close>

definition responseOutputItems :: "'g TextEnv \<Rightarrow> textRunState \<Rightarrow> string list \<Rightarrow> ParsedToolCall list \<Rightarrow> responseItem list" where
  "responseOutputItems env st toolNames items =
    (if ru_thinking st \<noteq> '''' then [RiReasoning (ru_thinking st)] else []) @
    (if items \<noteq> [] then map RiCall items
     else (let calls = snd (te_parse env (ru_text st) toolNames)
           in if toolNames \<noteq> [] \<and> calls \<noteq> [] then map RiCall calls else [responseMessageItem st]))"

definition estimateToolCallTokens :: "'g TextEnv \<Rightarrow> responseItem list \<Rightarrow> int" where
  "estimateToolCallTokens env items =
    sum_list (map (\<lambda>item. case item of RiCall call \<Rightarrow> te_tokens env (tc_name call) + te_tokens env (tc_arguments call) | _ \<Rightarrow> 0) items)"

definition estimateResponseOutputTokens :: "'g TextEnv \<Rightarrow> responseItem list \<Rightarrow> textRunState \<Rightarrow> int" where
  "estimateResponseOutputTokens env items st =
    (let estimate = estimateToolCallTokens env items in if estimate > 0 then estimate else te_tokens env (ru_text st))"

definition responseResult :: "'g TextEnv \<Rightarrow> string list \<Rightarrow> responseOptions \<Rightarrow> goerr + responseItem list \<times> respUsage \<times> responseFrame list" where
  "responseResult env ls o1 =
    (case collectResponseStream env ls o1 of
       Inl e \<Rightarrow> Inl e
     | Inr (st, s) \<Rightarrow>
         (let output = responseOutputItems env st (ro_toolNames o1) (rm_items s); thinking = te_tokens env (ru_thinking st);
              usage = BuildRespUsage (EstimatePromptTokens env (ro_message o1)) (estimateResponseOutputTokens env output st + thinking) thinking
          in Inr (output, usage, if ro_stream o1 then rm_frames s @ [RfCompleted output usage, RfDone] else [])))"

end
