(* ===== verification/ResponseProps.thy ===== *)
theory ResponseProps
  imports ResponseStream TextRunProps
begin

text \<open>
  When the output items of a Responses stream are well formed: items are opened one at a time with consecutive indexes,
  and every part of an item comes while the item is open.
\<close>

section \<open>Reasoning comes first in a run\<close>

primrec isRunText :: "textRunEvent \<Rightarrow> bool" where
  "isRunText (RvText t) = True"
| "isRunText (RvThinking t) = False"
| "isRunText (RvAnnotation a) = False"
| "isRunText (RvTools cs) = False"

text \<open>No reasoning after a text, and no empty text.\<close>

fun runOrdered :: "textRunEvent list \<Rightarrow> bool" where
  "runOrdered [] = True"
| "runOrdered (RvText t # evs) = (t \<noteq> [] \<and> list_all (\<lambda>ev. \<forall>t. ev \<noteq> RvThinking t) evs \<and> runOrdered evs)"
| "runOrdered (ev # evs) = runOrdered evs"

lemma ordered_snoc:
  "runOrdered (evs @ [ev]) \<longleftrightarrow> runOrdered evs \<and> (\<forall>t. ev = RvText t \<longrightarrow> t \<noteq> []) \<and>
    ((\<exists>t. ev = RvThinking t) \<longrightarrow> list_all (\<lambda>e. \<not> isRunText e) evs)"
proof (induction evs)
  case Nil
  then show ?case by (cases ev) simp_all
next
  case (Cons e evs)
  then show ?case by (cases e; cases ev) auto
qed

lemma ordered_two: "runOrdered (evs @ [RvText t, RvTools cs]) \<longleftrightarrow> runOrdered evs \<and> t \<noteq> []"
  using ordered_snoc [of "evs @ [RvText t]" "RvTools cs"] by (simp add: ordered_snoc)

definition ordered_inv :: "FrameEvent list \<Rightarrow> 'g textRun \<Rightarrow> bool" where
  "ordered_inv evs c \<longleftrightarrow> runOrdered (tr_out c) \<and> (textsOf evs = [] \<longrightarrow> list_all (\<lambda>e. \<not> isRunText e) (tr_out c))"

lemma ordered_more: "ordered_inv evs c \<Longrightarrow> ordered_inv (evs @ new) c"
  by (simp add: ordered_inv_def)

lemma ordered_text: "ordered_inv evs c \<Longrightarrow> ordered_inv (evs @ [EvText t]) (consumeTextEvent env t c)"
  by (simp add: ordered_inv_def consumeTextEvent_def emitText_def emitRun_def ordered_snoc ordered_two Let_def split: option.split prod.split)

lemma ordered_event:
  assumes "ordered_inv evs c" "thinkingFirst (evs @ [ev])"
  shows "ordered_inv (evs @ [ev]) (consumeEvent env ev c)"
proof (cases ev)
  case (EvThinking t rollout tag step)
  then have "textsOf evs = []" using thinkingFirst_tail [OF assms(2)] by auto
  then show ?thesis using assms(1) EvThinking by (simp add: ordered_inv_def consumeEvent_def emitRun_def ordered_snoc)
next
  case (EvText t)
  then show ?thesis using ordered_text [OF assms(1)] by (simp add: consumeEvent_def)
next
  case (EvAnnotation a)
  then show ?thesis using assms(1) by (simp add: ordered_inv_def consumeEvent_def emitRun_def ordered_snoc)
qed (use assms(1) in \<open>simp_all add: consumeEvent_def ordered_inv_def\<close>)

lemma ordered_events:
  "ordered_inv evs c \<Longrightarrow> thinkingFirst (evs @ new) \<Longrightarrow> ordered_inv (evs @ new) (consumeEvents env new c)"
proof (induction new arbitrary: evs c)
  case (Cons ev new)
  have e: "ordered_inv (evs @ [ev]) (consumeEvent env ev c)"
    using Cons.prems thinkingFirst_front [of "evs @ [ev]" new] by (intro ordered_event) simp_all
  have rest: "ordered_inv (evs @ [ev]) d \<Longrightarrow> ordered_inv ((evs @ [ev]) @ new) (consumeEvents env new d)" for d
    using Cons.prems(2) by (intro Cons.IH) simp_all
  have stop: "ordered_inv (evs @ ev # new) (consumeEvent env ev c\<lparr>tr_done := True\<rparr>)"
    using ordered_more [OF e, of new] by (simp add: ordered_inv_def)
  show ?case using rest [OF e] rest [OF ordered_more [OF Cons.prems(1), of "[ev]"]] stop by (simp add: Let_def)
qed simp

lemma events_adapter_run: "tr_adapter (consumeEvents env evs c) = tr_adapter c"
  by (induction evs arbitrary: c) (simp_all add: Let_def)

lemma ordered_line:
  assumes "ordered_inv evs c" "adapter_inv False evs (tr_adapter c)" "ConsumeLine env l c = (None, c2)"
  shows "\<exists>evs2. ordered_inv evs2 c2 \<and> adapter_inv False evs2 (tr_adapter c2)"
proof (cases "\<exists>data. \<not> tr_done c \<and> ClassifyLine l = LineData data \<and> data \<noteq> []")
  case True
  then obtain data where d: "\<not> tr_done c" "ClassifyLine l = LineData data" "data \<noteq> []" by blast
  obtain r a where f: "FeedAdapter (te_adapter env) data (tr_adapter c) = (r, a)" by fastforce
  then obtain new where r: "r = Inr new" using assms(3) d by (cases r) (simp_all add: ConsumeLine_def)
  have b: "adapter_inv False (evs @ new) a" using feed_inv [OF assms(2)] f r by simp
  have c2: "c2 = consumeEvents env new (c\<lparr>tr_adapter := a\<rparr>)" using assms(3) d f r by (simp add: ConsumeLine_def)
  have "ordered_inv (evs @ new) c2" unfolding c2
    by (rule ordered_events) (use assms(1) b in \<open>simp_all add: ordered_inv_def adapter_inv_def\<close>)
  then show ?thesis using b c2 by (auto simp: events_adapter_run)
next
  case False
  then have "c2 = c \<or> c2 = c\<lparr>tr_done := True\<rparr>" using assms(3) by (auto simp: ConsumeLine_def split: LineKind.splits if_splits)
  then show ?thesis using assms(1,2) by (auto simp: ordered_inv_def)
qed

lemma ordered_lines:
  "ordered_inv evs c \<Longrightarrow> adapter_inv False evs (tr_adapter c) \<Longrightarrow> consumeRun env ls c = Inr c2 \<Longrightarrow> runOrdered (tr_out c2)"
proof (induction ls arbitrary: evs c)
  case (Cons l ls)
  obtain r c1 where l: "ConsumeLine env l c = (r, c1)" by fastforce
  then have r: "r = None" using Cons.prems(3) by (cases r) simp_all
  obtain evs2 where e: "ordered_inv evs2 c1" "adapter_inv False evs2 (tr_adapter c1)"
    using ordered_line [OF Cons.prems(1,2)] l r by blast
  show ?case
  proof (cases "tr_done c1")
    case True
    then show ?thesis using Cons.prems(3) l r e(1) by (simp add: ordered_inv_def)
  next
    case False
    then show ?thesis using Cons.IH [OF e] Cons.prems(3) l r by simp
  qed
qed (simp add: ordered_inv_def)

lemma flush_ordered: "runOrdered (tr_out c) \<Longrightarrow> runOrdered (tr_out (flushRun env c))"
  by (simp add: flushRun_def emitRun_def ordered_snoc Let_def split: option.split prod.split)

lemma run_ordered:
  assumes "consumeTextRunLines env ls opts = Inr (st, evs)" "\<not> tr_thinkingSummary opts"
  shows "runOrdered evs"
proof -
  obtain c where c: "consumeRun env ls (newTextRun env opts) = Inr c" "evs = tr_out (flushRun env c)"
    using assms(1) by (auto simp: consumeTextRunLines_def FinishRun_def Let_def split: sum.splits)
  have "adapter_inv False [] (tr_adapter (newTextRun env opts))" using assms(2) by (simp add: newTextRun_def new_inv)
  from ordered_lines [OF _ this c(1)] have "runOrdered (tr_out c)" by (simp add: ordered_inv_def newTextRun_def)
  then show ?thesis unfolding c(2) by (rule flush_ordered)
qed

section \<open>Well-formed items\<close>

text \<open>The next index and the open item after the frames.\<close>

fun scanItems :: "responseFrame list \<Rightarrow> nat \<times> itemKind option \<Rightarrow> (nat \<times> itemKind option) option" where
  "scanItems [] st = Some st"
| "scanItems (RfItemAdded i k # fs) (n, b) = (if i = n \<and> b = None then scanItems fs (n, Some k) else None)"
| "scanItems (RfItemDone i item # fs) (n, b) = (if i = n \<and> b \<noteq> None then scanItems fs (n + 1, None) else None)"
| "scanItems (RfSummaryPartAdded i # fs) (n, b) = (if i = n \<and> b = Some IkReasoning then scanItems fs (n, b) else None)"
| "scanItems (RfSummaryDelta i t # fs) (n, b) = (if i = n \<and> b = Some IkReasoning then scanItems fs (n, b) else None)"
| "scanItems (RfSummaryTextDone i t # fs) (n, b) = (if i = n \<and> b = Some IkReasoning then scanItems fs (n, b) else None)"
| "scanItems (RfSummaryPartDone i t # fs) (n, b) = (if i = n \<and> b = Some IkReasoning then scanItems fs (n, b) else None)"
| "scanItems (RfPartAdded i # fs) (n, b) = (if i = n \<and> b = Some IkMessage then scanItems fs (n, b) else None)"
| "scanItems (RfTextDelta i t # fs) (n, b) = (if i = n \<and> b = Some IkMessage then scanItems fs (n, b) else None)"
| "scanItems (RfAnnotationAdded i j a # fs) (n, b) = (if i = n \<and> b = Some IkMessage then scanItems fs (n, b) else None)"
| "scanItems (RfTextDone i t # fs) (n, b) = (if i = n \<and> b = Some IkMessage then scanItems fs (n, b) else None)"
| "scanItems (RfPartDone i t as # fs) (n, b) = (if i = n \<and> b = Some IkMessage then scanItems fs (n, b) else None)"
| "scanItems (RfArgumentsDelta i t # fs) (n, b) = (if i = n \<and> b = Some IkCall then scanItems fs (n, b) else None)"
| "scanItems (RfArgumentsDone i t # fs) (n, b) = (if i = n \<and> b = Some IkCall then scanItems fs (n, b) else None)"
| "scanItems (RfCreated # fs) st = scanItems fs st"
| "scanItems (RfCompleted output u # fs) (n, b) = (if b = None then scanItems fs (n, b) else None)"
| "scanItems (RfDone # fs) st = scanItems fs st"

definition itemsOk :: "responseFrame list \<Rightarrow> bool" where
  "itemsOk fs \<longleftrightarrow> scanItems fs (0, None) \<noteq> None"

lemma scanItems_append: "scanItems (xs @ ys) st = (case scanItems xs st of None \<Rightarrow> None | Some st \<Rightarrow> scanItems ys st)"
  by (induction xs st rule: scanItems.induct) auto

section \<open>The steps\<close>

abbreviation itemScan :: "responseStream \<Rightarrow> (nat \<times> itemKind option) option" where
  "itemScan s \<equiv> scanItems (rm_frames s) (0, None)"

lemma addResp_simps [simp]:
  "rm_frames (addResp fs s) = rm_frames s @ fs" "rm_items (addResp fs s) = rm_items s" "rm_messageStarted (addResp fs s) = rm_messageStarted s"
  "rm_reasoningStarted (addResp fs s) = rm_reasoningStarted s" "rm_reasoningClosed (addResp fs s) = rm_reasoningClosed s"
  "rm_called (addResp fs s) = rm_called s" "rm_reasoningText (addResp fs s) = rm_reasoningText s"
  by (simp_all add: addResp_def)

definition reasoningOpen :: "responseStream \<Rightarrow> bool" where
  "reasoningOpen s \<longleftrightarrow> rm_reasoningStarted s \<and> \<not> rm_reasoningClosed s"

text \<open>A stream before any tool call.\<close>

definition resp_inv :: "responseStream \<Rightarrow> bool" where
  "resp_inv s \<longleftrightarrow> \<not> rm_called s \<and> (rm_reasoningClosed s \<longrightarrow> rm_reasoningStarted s \<and> rm_messageStarted s) \<and>
    (rm_messageStarted s \<longrightarrow> \<not> reasoningOpen s) \<and>
    itemScan s = Some (if reasoningOpen s then (0, Some IkReasoning)
      else if rm_messageStarted s then (responseMessageIndex (rm_reasoningStarted s), Some IkMessage) else (0, None))"

text \<open>A stream after tool calls.\<close>

definition resp_called :: "responseStream \<Rightarrow> bool" where
  "resp_called s \<longleftrightarrow> rm_called s \<and>
    (if reasoningOpen s \<or> rm_messageStarted s then itemScan s = None \<or> (\<exists>n k. itemScan s = Some (n, Some k)) else (\<exists>n. itemScan s = Some (n, None)))"

lemma scan_frames [simp]:
  "scanItems responseReasoningStartFrames (0, None) = Some (0, Some IkReasoning)"
  "scanItems (responseReasoningDoneFrames t) (0, Some IkReasoning) = Some (1, None)"
  "scanItems (responseMessageStartFrames i) (n, b) = (if i = n \<and> b = None then Some (n, Some IkMessage) else None)"
  "scanItems (responseMessageDoneFrames i st) (i, Some IkMessage) = Some (i + 1, None)"
  by (simp_all add: responseReasoningStartFrames_def responseReasoningDoneFrames_def responseMessageStartFrames_def responseMessageDoneFrames_def)

lemma resp_thinking: "resp_inv s \<Longrightarrow> \<not> rm_messageStarted s \<Longrightarrow> ro_stream o1 \<Longrightarrow> resp_inv (responseThinking o1 t s)"
  by (cases "rm_reasoningStarted s"; cases "rm_reasoningClosed s")
    (simp_all add: resp_inv_def responseThinking_def reasoningOpen_def scanItems_append Let_def)

lemma message_thinking: "rm_messageStarted (responseThinking o1 t s) = rm_messageStarted s"
  by (simp add: responseThinking_def Let_def)

lemma resp_text: "resp_inv s \<Longrightarrow> t \<noteq> [] \<Longrightarrow> ro_stream o1 \<Longrightarrow> resp_inv (responseText o1 t s)"
  by (cases "rm_reasoningStarted s"; cases "rm_reasoningClosed s"; cases "rm_messageStarted s")
    (simp_all add: resp_inv_def responseText_def closeReasoning_def reasoningOpen_def responseMessageIndex_def scanItems_append Let_def)

lemma resp_annotation: "resp_inv s \<Longrightarrow> ro_stream o1 \<Longrightarrow> resp_inv (responseAnnotation o1 a s)"
  by (cases "rm_reasoningStarted s"; cases "rm_reasoningClosed s"; cases "rm_messageStarted s")
    (simp_all add: resp_inv_def responseAnnotation_def reasoningOpen_def scanItems_append)

lemma message_annotation: "rm_messageStarted (responseAnnotation o1 a s) = rm_messageStarted s"
  by (simp add: responseAnnotation_def)

lemma scan_functionCalls:
  "scanItems (functionCallEvents i calls) (i, None) = Some (i + length calls, None)"
  "scanItems (functionCallEvents i calls) (n, Some k) = (if calls = [] then Some (n, Some k) else None)"
  by (induction i calls rule: functionCallEvents.induct) simp_all

lemma resp_tools: "resp_inv s \<Longrightarrow> if ro_toolsDisabled o1 then resp_inv (responseTools o1 calls s) else resp_called (responseTools o1 calls s)"
  by (cases "rm_reasoningStarted s"; cases "rm_reasoningClosed s"; cases "rm_messageStarted s")
    (simp_all add: resp_inv_def resp_called_def responseTools_def reasoningOpen_def scanItems_append scan_functionCalls responseMessageIndex_def)

lemma resp_events:
  "resp_inv s \<Longrightarrow> runOrdered evs \<Longrightarrow> (rm_messageStarted s \<Longrightarrow> list_all (\<lambda>ev. \<forall>t. ev \<noteq> RvThinking t) evs) \<Longrightarrow> ro_stream o1 \<Longrightarrow>
    resp_inv (responseEvents o1 evs s) \<or> resp_called (responseEvents o1 evs s)"
proof (induction evs arbitrary: s)
  case (Cons ev evs)
  have going: "responseEvents o1 (ev # evs) s = responseEvents o1 evs (responseEvent o1 ev s)" if "resp_inv (responseEvent o1 ev s)"
    using that by (simp add: resp_inv_def Let_def)
  show ?case
  proof (cases ev)
    case (RvThinking t)
    then have "\<not> rm_messageStarted s" using Cons.prems(3) by auto
    then have i: "resp_inv (responseEvent o1 ev s)" using resp_thinking Cons.prems(1,4) RvThinking by (simp add: responseEvent_def)
    show ?thesis unfolding going [OF i]
      using Cons.IH [OF i] Cons.prems(2-4) \<open>\<not> rm_messageStarted s\<close> RvThinking by (simp add: responseEvent_def message_thinking)
  next
    case (RvText t)
    then have i: "resp_inv (responseEvent o1 ev s)" using resp_text Cons.prems(1,2,4) by (simp add: responseEvent_def)
    show ?thesis unfolding going [OF i] using Cons.IH [OF i] Cons.prems(2,4) RvText by simp
  next
    case (RvAnnotation a)
    then have i: "resp_inv (responseEvent o1 ev s)" using resp_annotation Cons.prems(1,4) by (simp add: responseEvent_def)
    show ?thesis unfolding going [OF i] using Cons.IH [OF i] Cons.prems(2-4) RvAnnotation by (simp add: responseEvent_def message_annotation)
  next
    case (RvTools calls)
    show ?thesis
    proof (cases "ro_toolsDisabled o1")
      case True
      then have "responseEvent o1 ev s = s" using RvTools by (simp add: responseEvent_def responseTools_def)
      then show ?thesis using Cons.IH [OF Cons.prems(1)] Cons.prems RvTools by (simp add: resp_inv_def)
    next
      case False
      then have c: "resp_called (responseEvent o1 ev s)" using resp_tools [OF Cons.prems(1), of o1 calls] RvTools by (simp add: responseEvent_def)
      then show ?thesis by (simp add: resp_called_def Let_def)
    qed
  qed
qed simp

section \<open>The end\<close>

lemma images_called: "rm_called s \<Longrightarrow> snd (appendResponseImages o1 is st s) = s"
  by (induction "is" arbitrary: st) simp_all

lemma images_inv: "resp_inv s \<Longrightarrow> ro_stream o1 \<Longrightarrow> appendResponseImages o1 is st s = (st2, s2) \<Longrightarrow>
    resp_inv s2 \<and> rm_messageStarted s2 = rm_messageStarted s \<and> reasoningOpen s2 = reasoningOpen s"
proof (induction "is" arbitrary: st s)
  case (Cons i "is")
  let ?s = "if ro_stream o1 \<and> rm_messageStarted s \<and> \<not> rm_called s
       then addResp [RfTextDelta (responseMessageIndex (rm_reasoningStarted s)) (i @ [CHR 0x0A])] s else s"
  have "resp_inv ?s" using Cons.prems(1)
    by (cases "rm_reasoningStarted s"; cases "rm_reasoningClosed s"; cases "rm_messageStarted s")
      (simp_all add: resp_inv_def reasoningOpen_def scanItems_append)
  moreover have "rm_messageStarted ?s = rm_messageStarted s" "reasoningOpen ?s = reasoningOpen s" by (simp_all add: reasoningOpen_def)
  ultimately show ?case using Cons.IH [OF _ Cons.prems(2)] Cons.prems(3) by auto
qed simp

lemma finish_resp_called:
  assumes "resp_called s" "finishResponse o1 st s = (st2, s2)"
  shows "s2 = s"
  using assms images_called [of s o1] by (auto simp: finishResponse_def resp_called_def Let_def split: prod.splits) (metis snd_conv)+

lemma finish_resp_open:
  assumes "resp_inv s" "ro_stream o1" "finishResponse o1 st s = (st2, s2)"
  shows "itemScan s2 = (if reasoningOpen s then None else Some (responseMessageIndex (rm_reasoningStarted s2) + 1, None)) \<and>
    reasoningOpen s2 = reasoningOpen s \<and> \<not> rm_called s2"
proof -
  obtain st1 s1 where i: "appendResponseImages o1 (ru_imageTexts st) st s = (st1, s1)" by fastforce
  have r: "resp_inv s1" "rm_messageStarted s1 = rm_messageStarted s" "reasoningOpen s1 = reasoningOpen s" using images_inv [OF assms(1,2) i] by simp_all
  then show ?thesis using assms(2,3) i
    by (cases "rm_reasoningStarted s1"; cases "rm_reasoningClosed s1"; cases "rm_messageStarted s1")
      (auto simp: finishResponse_def resp_inv_def reasoningOpen_def responseMessageIndex_def scanItems_append Let_def)
qed

section \<open>Properties\<close>

text \<open>C16. The items of a Responses stream are well formed exactly when the reasoning has been closed, which only a text does, and no
  tool call came after a text.\<close>

theorem response_items:
  assumes "collectResponseStream env ls o1 = Inr (st, s)" and "ro_stream o1"
  shows "itemsOk (rm_frames s @ [RfCompleted output u, RfDone]) \<longleftrightarrow> \<not> reasoningOpen s \<and> \<not> (rm_called s \<and> rm_messageStarted s)"
proof -
  obtain st0 evs where r: "consumeTextRunLines env ls (responseTextOptions o1) = Inr (st0, evs)"
    and f: "finishResponse o1 st0 (responseEvents o1 evs (responseInitial o1)) = (st, s)"
    using assms(1) by (auto simp: collectResponseStream_def split: sum.splits prod.splits)
  have o: "runOrdered evs" using run_ordered [OF r] by (simp add: responseTextOptions_def)
  have "resp_inv (responseInitial o1)" by (simp add: resp_inv_def responseInitial_def reasoningOpen_def)
  from resp_events [OF this o] assms(2) consider "resp_inv (responseEvents o1 evs (responseInitial o1))"
    | "resp_called (responseEvents o1 evs (responseInitial o1))" by (auto simp: responseInitial_def)
  then show ?thesis
  proof cases
    case 1
    then show ?thesis using finish_resp_open [OF 1 assms(2) f] by (auto simp: itemsOk_def scanItems_append)
  next
    case 2
    then show ?thesis using finish_resp_called [OF 2 f] by (auto simp: itemsOk_def scanItems_append resp_called_def split: if_splits)
  qed
qed

definition sampleResponseOptions :: responseOptions where
  "sampleResponseOptions = \<lparr>ro_token = ''t'', ro_message = ''Q'', ro_stream = True, ro_emitThink = False, ro_toolNames = [], ro_toolsDisabled = False\<rparr>"

lemma sample_response:
  "collectResponseStream sampleTextEnv [''data: a'', ''data: [DONE]''] sampleResponseOptions =
    Inr (\<lparr>ru_text = ''Hi'', ru_thinking = [], ru_imageTexts = [], ru_references = [], ru_annotations = [], ru_sources = [], ru_calls = [],
        ru_suppressed = False\<rparr>,
      \<lparr>rm_frames = [RfCreated, RfItemAdded 0 IkMessage, RfPartAdded 0, RfTextDelta 0 ''Hi'', RfTextDone 0 ''Hi'', RfPartDone 0 ''Hi'' [],
         RfItemDone 0 (RiMessage ''Hi'' [] [])],
       rm_items = [], rm_messageStarted = True, rm_reasoningStarted = False, rm_reasoningClosed = False, rm_called = False,
       rm_reasoningText = [], rm_annotationIndex = 0\<rparr>)"
  by (simp add: collectResponseStream_def consumeTextRunLines_def ConsumeLine_def sample_lines sample_feed newTextRun_def responseTextOptions_def
    sampleResponseOptions_def consumeEvent_def consumeTextEvent_def emitText_def emitRun_def stopsNow_def FinishRun_def flushRun_def
    runState_def NewStreamAdapter_def resolvedImages_def ReferencesSuffix_def SearchSourcesList_def Let_def)
    (simp add: finishResponse_def responseInitial_def responseEvent_def responseText_def closeReasoning_def addResp_def responseMessageIndex_def
    responseMessageStartFrames_def responseMessageDoneFrames_def responseMessageItem_def Let_def)

theorem response_items_witness:
  "itemsOk ([RfCreated, RfItemAdded 0 IkMessage, RfPartAdded 0, RfTextDelta 0 ''Hi'', RfTextDone 0 ''Hi'', RfPartDone 0 ''Hi'' [],
         RfItemDone 0 (RiMessage ''Hi'' [] [])] @ [RfCompleted [] \<lparr>rs_input = 0, rs_output = 0, rs_all = 0, rs_reasoning = 0\<rparr>, RfDone])"
  using response_items [OF sample_response] by (simp add: sampleResponseOptions_def reasoningOpen_def)

text \<open>Reasoning followed by tool calls: the item of the reasoning is never done, and the call is announced inside it.\<close>

lemma reasoning_left_open:
  "\<not> itemsOk (rm_frames (responseEvents (sampleResponseOptions\<lparr>ro_emitThink := True\<rparr>) [RvThinking ''Hm'', RvTools [\<lparr>tc_id = ''c'', tc_name = ''f'', tc_arguments = []\<rparr>]]
      (responseInitial sampleResponseOptions)))"
  by (simp add: itemsOk_def responseEvent_def responseThinking_def responseTools_def responseInitial_def sampleResponseOptions_def addResp_def
    responseReasoningStartFrames_def responseMessageIndex_def)

end
