(* ===== verification/MediaCache.thy ===== *)
theory MediaCache
  imports GoStrings "HOL-Library.Product_Lexorder" "HOL-Library.List_Lexorder" "HOL-Library.Char_ord"
begin

text \<open>
  The local store of generated media (\<open>platform/storage/media_cache.go\<close>, \<open>media_cache_index.go\<close>,
  \<open>media_cache_trim.go\<close>, \<open>media_cache_status.go\<close>): the files of a directory per media type, the SQLite
  table that indexes them, and the counters. A directory maps names to files, the table is a list of rows in any
  order; an operation on a media type holds the lock of that type, so operations are atomic. The directories hold
  files only, names hold no separator, and no operation on a file or on the database fails. The clock and the order in
  which Go runs through a map are arguments.
\<close>

datatype MediaType = MediaTypeImage | MediaTypeVideo

primrec mediaName :: "MediaType \<Rightarrow> string" where
  "mediaName MediaTypeImage = ''image''"
| "mediaName MediaTypeVideo = ''video''"

instantiation MediaType :: linorder
begin

definition less_eq_MediaType :: "MediaType \<Rightarrow> MediaType \<Rightarrow> bool" where
  "less_eq_MediaType a b \<longleftrightarrow> mediaName a \<le> mediaName b"

definition less_MediaType :: "MediaType \<Rightarrow> MediaType \<Rightarrow> bool" where
  "less_MediaType a b \<longleftrightarrow> mediaName a < mediaName b"

instance
proof
  fix a b c :: MediaType
  show "a < b \<longleftrightarrow> a \<le> b \<and> \<not> b \<le> a" by (auto simp: less_eq_MediaType_def less_MediaType_def)
  show "a \<le> a" by (simp add: less_eq_MediaType_def)
  show "a \<le> b \<Longrightarrow> b \<le> c \<Longrightarrow> a \<le> c" by (auto simp: less_eq_MediaType_def)
  show "a \<le> b \<or> b \<le> a" by (auto simp: less_eq_MediaType_def)
  assume "a \<le> b" "b \<le> a"
  then have "mediaName a = mediaName b" by (simp add: less_eq_MediaType_def)
  then show "a = b" by (cases a; cases b) simp_all
qed

end

section \<open>Names\<close>

definition imageExts :: "string list" where
  "imageExts = [''.jpg'', ''.jpeg'', ''.png'', ''.gif'', ''.webp'', ''.bmp'']"

definition videoExts :: "string list" where
  "videoExts = [''.mp4'', ''.mov'', ''.m4v'', ''.webm'', ''.avi'', ''.mkv'']"

definition allowedExt :: "MediaType \<Rightarrow> string \<Rightarrow> bool" where
  "allowedExt t ext = (goLower ext \<in> set (case t of MediaTypeImage \<Rightarrow> imageExts | MediaTypeVideo \<Rightarrow> videoExts))"

text \<open>\<open>filepath.Ext\<close> and \<open>filepath.Base\<close>.\<close>

definition fileExt :: "string \<Rightarrow> string" where
  "fileExt name =
    (let w = takeWhile (\<lambda>c. c \<noteq> CHR ''.'' \<and> c \<noteq> CHR ''/'') (rev name)
     in case drop (length w) (rev name) of CHR ''.'' # _ \<Rightarrow> CHR ''.'' # rev w | _ \<Rightarrow> '''')"

definition pathBase :: "string \<Rightarrow> string" where
  "pathBase s =
    (if s = '''' then ''.''
     else (let t = rev (takeWhile (\<lambda>c. c \<noteq> CHR ''/'') (dropWhile (\<lambda>c. c = CHR ''/'') (rev s)))
           in if t = '''' then ''/'' else t))"

definition mediaAllowed :: "MediaType \<Rightarrow> string \<Rightarrow> bool" where
  "mediaAllowed t name = allowedExt t (fileExt name)"

definition validateName :: "MediaType \<Rightarrow> string \<Rightarrow> goerr + string" where
  "validateName t name =
    (let value = trimSpace name
     in if value = '''' then Inl (ErrOther ''missing file name'')
        else if pathBase value \<noteq> value then Inl (ErrOther ''invalid file name'')
        else if \<not> mediaAllowed t value then Inl (ErrOther ''unsupported file type'')
        else Inr value)"

section \<open>State\<close>

record MediaFile =
  mf_raw :: string
  mf_mtime :: int

record MediaRow =
  mr_type :: MediaType
  mr_name :: string
  mr_size :: int
  mr_created :: int
  mr_updated :: int

record MediaReport =
  rp_orphanRows :: int
  rp_orphanFiles :: int
  rp_tempFiles :: int
  rp_removedBytes :: int
  rp_removedNames :: "string list"

record MediaStats =
  ms_saves :: int
  ms_reconciles :: int
  ms_evicts :: int
  ms_lastAt :: int
  ms_lastReport :: "MediaReport option"

record MediaCache =
  mc_files :: "MediaType \<Rightarrow> (string, MediaFile) fmap"
  mc_rows :: "MediaRow list"
  mc_hasIndex :: bool
  mc_stats :: "MediaType \<Rightarrow> MediaStats"

type_synonym MediaConfig = "string \<Rightarrow> int \<Rightarrow> int"

definition limitBytes :: "MediaConfig \<Rightarrow> MediaType \<Rightarrow> int" where
  "limitBytes cfg t = max 0 (cfg (''cache.local.'' @ mediaName t @ ''_max_mb'') 0) * 1024 * 1024"

definition fileSize :: "MediaFile \<Rightarrow> int" where
  "fileSize f = int (length (mf_raw f))"

definition setFile :: "MediaType \<Rightarrow> string \<Rightarrow> MediaFile \<Rightarrow> MediaCache \<Rightarrow> MediaCache" where
  "setFile t name f s = s\<lparr>mc_files := (mc_files s)(t := fmupd name f (mc_files s t))\<rparr>"

definition removeFile :: "MediaType \<Rightarrow> string \<Rightarrow> MediaCache \<Rightarrow> MediaCache" where
  "removeFile t name s = s\<lparr>mc_files := (mc_files s)(t := fmdrop name (mc_files s t))\<rparr>"

definition updateStats :: "MediaType \<Rightarrow> (MediaStats \<Rightarrow> MediaStats) \<Rightarrow> MediaCache \<Rightarrow> MediaCache" where
  "updateStats t f s = s\<lparr>mc_stats := (mc_stats s)(t := f (mc_stats s t))\<rparr>"

definition recordSave :: "MediaType \<Rightarrow> MediaCache \<Rightarrow> MediaCache" where
  "recordSave t s = updateStats t (\<lambda>i. i\<lparr>ms_saves := ms_saves i + 1\<rparr>) s"

definition recordEvict :: "MediaType \<Rightarrow> MediaCache \<Rightarrow> MediaCache" where
  "recordEvict t s = updateStats t (\<lambda>i. i\<lparr>ms_evicts := ms_evicts i + 1\<rparr>) s"

definition recordReconcile :: "int \<Rightarrow> MediaType \<Rightarrow> MediaReport \<Rightarrow> MediaCache \<Rightarrow> MediaCache" where
  "recordReconcile now t report s =
    updateStats t (\<lambda>i. i\<lparr>ms_reconciles := ms_reconciles i + 1, ms_lastAt := now div 1000000, ms_lastReport := Some report\<rparr>) s"

section \<open>The index\<close>

definition connectIndex :: "MediaCache \<Rightarrow> MediaCache" where
  "connectIndex s = s\<lparr>mc_hasIndex := True\<rparr>"

definition typeRows :: "MediaType \<Rightarrow> MediaCache \<Rightarrow> MediaRow list" where
  "typeRows t s = filter (\<lambda>r. mr_type r = t) (mc_rows s)"

definition isRow :: "MediaType \<Rightarrow> string \<Rightarrow> MediaRow \<Rightarrow> bool" where
  "isRow t name r \<longleftrightarrow> mr_type r = t \<and> mr_name r = name"

text \<open>\<open>INSERT ... ON CONFLICT(media_type, name) DO UPDATE\<close>.\<close>

definition putMediaRow :: "MediaRow \<Rightarrow> (MediaRow \<Rightarrow> MediaRow) \<Rightarrow> MediaCache \<Rightarrow> MediaCache" where
  "putMediaRow row conflict s =
    (let hit = isRow (mr_type row) (mr_name row)
     in s\<lparr>mc_rows := (if \<exists>r \<in> set (mc_rows s). hit r then map (\<lambda>r. if hit r then conflict r else r) (mc_rows s)
                      else mc_rows s @ [row])\<rparr>)"

definition lookupCreatedAt :: "MediaType \<Rightarrow> string \<Rightarrow> int \<Rightarrow> MediaCache \<Rightarrow> int" where
  "lookupCreatedAt t name fallback s =
    (case filter (isRow t name) (mc_rows s) of [] \<Rightarrow> fallback | r # _ \<Rightarrow> mr_created r)"

definition upsertExistingRow :: "int \<Rightarrow> MediaType \<Rightarrow> string \<Rightarrow> MediaFile \<Rightarrow> MediaCache \<Rightarrow> MediaCache" where
  "upsertExistingRow now t name f s =
    putMediaRow \<lparr>mr_type = t, mr_name = name, mr_size = fileSize f, mr_created = lookupCreatedAt t name (mf_mtime f) s, mr_updated = now\<rparr>
      (\<lambda>r. r\<lparr>mr_size := fileSize f, mr_updated := now\<rparr>) s"

definition upsertNewRow :: "int \<Rightarrow> MediaType \<Rightarrow> string \<Rightarrow> MediaFile \<Rightarrow> MediaCache \<Rightarrow> MediaCache" where
  "upsertNewRow now t name f s =
    putMediaRow \<lparr>mr_type = t, mr_name = name, mr_size = fileSize f, mr_created = now, mr_updated = now\<rparr>
      (\<lambda>r. r\<lparr>mr_size := fileSize f, mr_created := now, mr_updated := now\<rparr>) s"

definition deleteMediaRows :: "(MediaRow \<Rightarrow> bool) \<Rightarrow> MediaCache \<Rightarrow> MediaCache" where
  "deleteMediaRows P s = s\<lparr>mc_rows := filter (\<lambda>r. \<not> P r) (mc_rows s)\<rparr>"

definition usageBytes :: "MediaType \<Rightarrow> MediaCache \<Rightarrow> int" where
  "usageBytes t s = sum_list (map mr_size (typeRows t s))"

text \<open>\<open>ORDER BY updated_at_ns ASC, name ASC\<close>; the newest name is the last one.\<close>

definition trimKey :: "MediaRow \<Rightarrow> int \<times> string" where
  "trimKey r = (mr_updated r, mr_name r)"

definition mediaTrimCandidates :: "MediaType \<Rightarrow> MediaCache \<Rightarrow> MediaRow list" where
  "mediaTrimCandidates t s = sort_key trimKey (typeRows t s)"

definition newestName :: "MediaType \<Rightarrow> MediaCache \<Rightarrow> string" where
  "newestName t s = (case rev (mediaTrimCandidates t s) of [] \<Rightarrow> '''' | r # _ \<Rightarrow> mr_name r)"

section \<open>Eviction\<close>

definition evictFile :: "MediaType \<Rightarrow> string \<Rightarrow> MediaCache \<Rightarrow> MediaCache" where
  "evictFile t name s = recordEvict t (deleteMediaRows (isRow t name) (removeFile t name s))"

fun trimLoop :: "MediaType \<Rightarrow> string list \<Rightarrow> int \<Rightarrow> MediaRow list \<Rightarrow> int \<Rightarrow> MediaCache \<Rightarrow> MediaCache" where
  "trimLoop t protected target [] usage s = s"
| "trimLoop t protected target (item # items) usage s =
    (if usage \<le> target then s
     else if mr_name item \<in> set protected then trimLoop t protected target items usage s
     else trimLoop t protected target items (max 0 (usage - mr_size item)) (evictFile t (mr_name item) s))"

text \<open>\<open>int64(float64(maxBytes) * 0.60)\<close>.\<close>

definition lowWatermark :: "int \<Rightarrow> int" where
  "lowWatermark maxBytes = truncRat (fl (fl (of_int maxBytes) * fl (6 / 10)))"

definition enforceLimitLocked :: "MediaConfig \<Rightarrow> MediaType \<Rightarrow> string list \<Rightarrow> MediaCache \<Rightarrow> MediaCache" where
  "enforceLimitLocked cfg t protected s =
    (let maxBytes = limitBytes cfg t; usage = usageBytes t s
     in if maxBytes \<le> 0 \<or> usage \<le> maxBytes then s
        else (let newest = newestName t s; protected = (if newest \<noteq> '''' then newest # protected else protected)
              in trimLoop t protected (lowWatermark maxBytes) (mediaTrimCandidates t s) usage s))"

section \<open>Saving\<close>

definition writeIfMissing :: "int \<Rightarrow> MediaType \<Rightarrow> string \<Rightarrow> string \<Rightarrow> MediaCache \<Rightarrow> MediaCache" where
  "writeIfMissing now t name raw s =
    (case fmlookup (mc_files s t) name of
       Some _ \<Rightarrow> s
     | None \<Rightarrow> setFile t name \<lparr>mf_raw = raw, mf_mtime = now\<rparr> s)"

definition saveIndexed :: "MediaConfig \<Rightarrow> int \<Rightarrow> MediaType \<Rightarrow> string \<Rightarrow> string \<Rightarrow> MediaCache \<Rightarrow> MediaCache" where
  "saveIndexed cfg now t name raw s =
    (let s = connectIndex s;
         s = (case fmlookup (mc_files s t) name of
                Some f \<Rightarrow> upsertExistingRow now t name f s
              | None \<Rightarrow> upsertNewRow now t name \<lparr>mf_raw = raw, mf_mtime = now\<rparr> (writeIfMissing now t name raw s))
     in enforceLimitLocked cfg t [name] s)"

definition saveMedia :: "MediaConfig \<Rightarrow> int \<Rightarrow> MediaType \<Rightarrow> string \<Rightarrow> string \<Rightarrow> string \<Rightarrow> MediaCache \<Rightarrow> MediaCache" where
  "saveMedia cfg now t fileID raw suffix s =
    (let name = fileID @ suffix
     in recordSave t (if limitBytes cfg t \<le> 0 then writeIfMissing now t name raw s else saveIndexed cfg now t name raw s))"

definition imageSuffix :: "string \<Rightarrow> string" where
  "imageSuffix mime = (if containsStr (goLower mime) ''png'' then ''.png'' else ''.jpg'')"

definition SaveImage :: "MediaConfig \<Rightarrow> int \<Rightarrow> string \<Rightarrow> string \<Rightarrow> string \<Rightarrow> MediaCache \<Rightarrow> MediaCache" where
  "SaveImage cfg now raw mime fileID s = saveMedia cfg now MediaTypeImage fileID raw (imageSuffix mime) s"

definition SaveVideo :: "MediaConfig \<Rightarrow> int \<Rightarrow> string \<Rightarrow> string \<Rightarrow> MediaCache \<Rightarrow> MediaCache" where
  "SaveVideo cfg now raw fileID s = saveMedia cfg now MediaTypeVideo fileID raw ''.mp4'' s"

section \<open>Deleting\<close>

definition deleteIndexRowsIfPresent :: "(MediaRow \<Rightarrow> bool) \<Rightarrow> MediaCache \<Rightarrow> MediaCache" where
  "deleteIndexRowsIfPresent P s = (if mc_hasIndex s then deleteMediaRows P s else s)"

definition DeleteMedia :: "MediaType \<Rightarrow> string \<Rightarrow> MediaCache \<Rightarrow> (goerr + bool) \<times> MediaCache" where
  "DeleteMedia t name s =
    (case validateName t name of
       Inl e \<Rightarrow> (Inl e, s)
     | Inr safeName \<Rightarrow>
         let existed = safeName |\<in>| fmdom (mc_files s t)
         in (Inr existed, deleteIndexRowsIfPresent (isRow t safeName) (if existed then removeFile t safeName s else s)))"

text \<open>\<open>os.ReadDir\<close> lists the names in order.\<close>

definition dirNames :: "MediaType \<Rightarrow> MediaCache \<Rightarrow> string list" where
  "dirNames t s = sorted_list_of_fset (fmdom (mc_files s t))"

definition ClearMedia :: "MediaType \<Rightarrow> MediaCache \<Rightarrow> int \<times> MediaCache" where
  "ClearMedia t s =
    (let names = filter (mediaAllowed t) (dirNames t s)
     in (int (length names), deleteIndexRowsIfPresent (\<lambda>r. mr_type r = t) (fold (removeFile t) names s)))"

section \<open>Reconciling\<close>

definition emptyReport :: MediaReport where
  "emptyReport = \<lparr>rp_orphanRows = 0, rp_orphanFiles = 0, rp_tempFiles = 0, rp_removedBytes = 0, rp_removedNames = []\<rparr>"

definition appendLimitedName :: "string list \<Rightarrow> string \<Rightarrow> string list" where
  "appendLimitedName names name = (if length names \<ge> 20 then names else names @ [name])"

definition hasSuffix :: "string \<Rightarrow> string \<Rightarrow> bool" where
  "hasSuffix s p \<longleftrightarrow> length p \<le> length s \<and> drop (length s - length p) s = p"

definition dropListed :: "MediaType \<Rightarrow> string \<Rightarrow> int \<Rightarrow> MediaReport \<times> MediaCache \<Rightarrow> MediaReport \<times> MediaCache" where
  "dropListed t name n x =
    ((fst x)\<lparr>rp_removedBytes := rp_removedBytes (fst x) + n,
       rp_removedNames := appendLimitedName (rp_removedNames (fst x)) name\<rparr>, removeFile t name (snd x))"

definition reconcileEntry :: "MediaType \<Rightarrow> string \<Rightarrow> MediaReport \<times> MediaCache \<Rightarrow> MediaReport \<times> MediaCache" where
  "reconcileEntry t name x =
    (case fmlookup (mc_files (snd x) t) name of
       None \<Rightarrow> x
     | Some f \<Rightarrow>
         if hasSuffix name ''.part'' then
           dropListed t name (fileSize f) ((fst x)\<lparr>rp_tempFiles := rp_tempFiles (fst x) + 1\<rparr>, snd x)
         else if \<not> mediaAllowed t name then
           dropListed t name (fileSize f) ((fst x)\<lparr>rp_orphanFiles := rp_orphanFiles (fst x) + 1\<rparr>, snd x)
         else (fst x, (snd x)\<lparr>mc_rows := mc_rows (snd x) @
                 [\<lparr>mr_type = t, mr_name = name, mr_size = fileSize f, mr_created = mf_mtime f, mr_updated = mf_mtime f\<rparr>]\<rparr>))"

definition orphanRow :: "string \<Rightarrow> MediaReport \<Rightarrow> MediaReport" where
  "orphanRow name report = report\<lparr>rp_orphanRows := rp_orphanRows report + 1, rp_removedNames := appendLimitedName (rp_removedNames report) name\<rparr>"

text \<open>\<open>order\<close> is the order in which Go runs through the map of the indexed names.\<close>

definition reconcileIndexed :: "MediaConfig \<Rightarrow> (string list \<Rightarrow> string list) \<Rightarrow> MediaType \<Rightarrow> MediaCache \<Rightarrow> MediaReport \<times> MediaCache" where
  "reconcileIndexed cfg order t s =
    (let s = connectIndex s; indexed = map mr_name (typeRows t s); names = dirNames t s;
         (report, s) = fold (reconcileEntry t) names (emptyReport, deleteMediaRows (\<lambda>r. mr_type r = t) s);
         orphans = filter (\<lambda>name. \<not> (name \<in> set names \<and> \<not> hasSuffix name ''.part'' \<and> mediaAllowed t name)) (order indexed)
     in (fold orphanRow orphans report, enforceLimitLocked cfg t [] s))"

definition ReconcileMedia :: "MediaConfig \<Rightarrow> (string list \<Rightarrow> string list) \<Rightarrow> int \<Rightarrow> MediaType \<Rightarrow> MediaCache \<Rightarrow> MediaCache" where
  "ReconcileMedia cfg order now t s =
    (if limitBytes cfg t \<le> 0 then s
     else (let (report, s) = reconcileIndexed cfg order t s in recordReconcile now t report s))"

definition ReconcileLocalMediaCache :: "MediaConfig \<Rightarrow> (string list \<Rightarrow> string list) \<Rightarrow> int \<Rightarrow> MediaType list \<Rightarrow> MediaCache \<Rightarrow> MediaCache" where
  "ReconcileLocalMediaCache cfg order now types s =
    fold (ReconcileMedia cfg order now) (if types = [] then [MediaTypeImage, MediaTypeVideo] else types) s"

section \<open>Status\<close>

record MediaStatus =
  sm_count :: int
  sm_bytes :: int
  sm_limit :: int
  sm_policy :: string
  sm_stats :: MediaStats

definition mediaStatus :: "MediaConfig \<Rightarrow> MediaType \<Rightarrow> MediaCache \<Rightarrow> MediaStatus" where
  "mediaStatus cfg t s =
    \<lparr>sm_count = int (length (typeRows t s)), sm_bytes = usageBytes t s, sm_limit = limitBytes cfg t,
      sm_policy = (if limitBytes cfg t > 0 then ''lru_updated_at_low_watermark_60'' else ''none_limit_zero''),
      sm_stats = mc_stats s t\<rparr>"

definition StatusMedia :: "MediaConfig \<Rightarrow> MediaCache \<Rightarrow> (MediaType \<Rightarrow> MediaStatus) \<times> MediaCache" where
  "StatusMedia cfg s = ((\<lambda>t. mediaStatus cfg t s), connectIndex s)"

end
