(* ===== verification/MediaCacheProps.thy ===== *)
theory MediaCacheProps
  imports MediaCache
begin

text \<open>
  What the media store keeps: with a limit configured the index shows the files on disk after every operation, and a
  reconciliation restores that from any state; the files stay within the limit; the oldest files go first; a saved
  file is there afterwards, with its first content.
\<close>

section \<open>Index and disk\<close>

definition rowKey :: "MediaRow \<Rightarrow> MediaType \<times> string" where
  "rowKey r = (mr_type r, mr_name r)"

definition media_keys :: "MediaCache \<Rightarrow> bool" where
  "media_keys s \<longleftrightarrow> distinct (map rowKey (mc_rows s)) \<and> (\<not> mc_hasIndex s \<longrightarrow> mc_rows s = [])"

definition indexed :: "MediaType \<Rightarrow> MediaCache \<Rightarrow> (string \<times> int) set" where
  "indexed t s = (\<lambda>r. (mr_name r, mr_size r)) ` set (typeRows t s)"

definition onDisk :: "MediaType \<Rightarrow> MediaCache \<Rightarrow> (string \<times> int) set" where
  "onDisk t s = {(n, fileSize f) | n f. fmlookup (mc_files s t) n = Some f \<and> mediaAllowed t n}"

definition media_inv :: "MediaType set \<Rightarrow> MediaCache \<Rightarrow> bool" where
  "media_inv T s \<longleftrightarrow> media_keys s \<and> (\<forall>t \<in> T. indexed t s = onDisk t s)"

named_theorems media_defs "definitions of the small operations on the store"

lemmas [media_defs] = setFile_def removeFile_def updateStats_def recordSave_def recordEvict_def recordReconcile_def
  connectIndex_def deleteMediaRows_def

lemma connect_frame [simp]: "mc_files (connectIndex s) = mc_files s" "mc_rows (connectIndex s) = mc_rows s"
  "mc_hasIndex (connectIndex s)" "typeRows t (connectIndex s) = typeRows t s" "usageBytes t (connectIndex s) = usageBytes t s"
  by (simp_all add: media_defs typeRows_def usageBytes_def)

lemma stats_frame [simp]: "mc_files (updateStats t f s) = mc_files s" "mc_rows (updateStats t f s) = mc_rows s"
  "mc_hasIndex (updateStats t f s) = mc_hasIndex s"
  by (simp_all add: media_defs)

lemma inv_stats [simp]: "media_inv T (updateStats t f s) = media_inv T s" "usageBytes u (updateStats t f s) = usageBytes u s"
  by (simp_all add: media_inv_def media_keys_def indexed_def onDisk_def typeRows_def usageBytes_def)

lemma inv_connect: "media_inv T s \<Longrightarrow> media_inv T (connectIndex s)"
  by (simp add: media_inv_def media_keys_def indexed_def onDisk_def)

lemma evict_rows: "mc_rows (evictFile t n s) = filter (\<lambda>r. \<not> isRow t n r) (mc_rows s)"
  by (simp add: evictFile_def media_defs)

lemma evict_files: "mc_files (evictFile t n s) = (mc_files s)(t := fmdrop n (mc_files s t))"
  by (simp add: evictFile_def media_defs)

lemma evict_index [simp]: "mc_hasIndex (evictFile t n s) = mc_hasIndex s"
  by (simp add: evictFile_def media_defs)

lemma typeRow: "r \<in> set (typeRows t s) \<Longrightarrow> mr_type r = t"
  by (simp add: typeRows_def)

lemma evict_typeRows: "typeRows u (evictFile t n s) = filter (\<lambda>r. \<not> isRow t n r) (typeRows u s)"
  by (simp add: typeRows_def evict_rows conj_commute)

lemma drop_both:
  assumes "indexed u s = onDisk u s" "typeRows u s' = filter (\<lambda>r. \<not> isRow t n r) (typeRows u s)"
    and "mc_files s' = (mc_files s)(t := fmdrop n (mc_files s t))"
  shows "indexed u s' = onDisk u s'"
proof -
  have "typeRows u s' = filter (\<lambda>r. \<not> (u = t \<and> mr_name r = n)) (typeRows u s)"
    unfolding assms(2) by (rule filter_cong) (auto simp: isRow_def typeRows_def)
  then have "set (typeRows u s') = {r \<in> set (typeRows u s). \<not> (u = t \<and> mr_name r = n)}" by (simp only: set_filter)
  then have "indexed u s' = {x \<in> indexed u s. \<not> (u = t \<and> fst x = n)}"
    unfolding indexed_def by (simp only:) force
  moreover have "onDisk u s' = {x \<in> onDisk u s. \<not> (u = t \<and> fst x = n)}"
    by (auto simp: onDisk_def assms(3))
  ultimately show ?thesis using assms(1) by simp
qed

lemma keys_filter: "media_keys s \<Longrightarrow> mc_rows s' = filter P (mc_rows s) \<Longrightarrow> mc_hasIndex s' = mc_hasIndex s \<Longrightarrow> media_keys s'"
  by (auto simp: media_keys_def distinct_map_filter)

lemma evict_inv: "media_inv T s \<Longrightarrow> media_inv T (evictFile t n s)"
  unfolding media_inv_def using keys_filter [OF _ evict_rows evict_index] drop_both [OF _ evict_typeRows evict_files] by blast

section \<open>The eviction loop\<close>

definition evictAll :: "MediaType \<Rightarrow> MediaRow list \<Rightarrow> MediaCache \<Rightarrow> MediaCache" where
  "evictAll t rs s = fold (\<lambda>r. evictFile t (mr_name r)) rs s"

lemma evictAll_inv: "media_inv T s \<Longrightarrow> media_inv T (evictAll t rs s)"
  unfolding evictAll_def by (induction rs arbitrary: s) (simp_all add: evict_inv)

lemma evictAll_rows: "typeRows t (evictAll t rs s) = filter (\<lambda>r. mr_name r \<notin> mr_name ` set rs) (typeRows t s)"
proof (induction rs arbitrary: s)
  case Nil
  then show ?case by (simp add: evictAll_def)
next
  case (Cons r rs)
  have "typeRows t (evictAll t (r # rs) s) = typeRows t (evictAll t rs (evictFile t (mr_name r) s))" by (simp add: evictAll_def)
  also have "\<dots> = filter (\<lambda>q. mr_name q \<notin> mr_name ` set (r # rs)) (typeRows t s)"
    unfolding Cons.IH evict_typeRows filter_filter by (rule filter_cong) (auto simp: isRow_def typeRows_def)
  finally show ?case .
qed

lemma evictAll_files: "fmlookup (mc_files (evictAll t rs s) u) n =
    (if u = t \<and> n \<in> mr_name ` set rs then None else fmlookup (mc_files s u) n)"
proof (induction rs arbitrary: s)
  case (Cons r rs)
  have "fmlookup (mc_files (evictAll t (r # rs) s) u) n = fmlookup (mc_files (evictAll t rs (evictFile t (mr_name r) s)) u) n"
    by (simp add: evictAll_def)
  then show ?case by (auto simp: Cons.IH evict_files)
qed (simp add: evictAll_def)

text \<open>The loop evicts the unprotected rows among the first ones, in order.\<close>

lemma trim_all: "\<exists>k. trimLoop t protected target items usage s = evictAll t (filter (\<lambda>r. mr_name r \<notin> set protected) (take k items)) s"
proof (induction items arbitrary: usage s)
  case Nil
  then show ?case by (simp add: evictAll_def)
next
  case (Cons r rs)
  have stop: ?case if "usage \<le> target" using that by (intro exI [of _ 0]) (simp add: evictAll_def)
  have skip: ?case if p: "mr_name r \<in> set protected" "\<not> usage \<le> target"
  proof -
    obtain k where "trimLoop t protected target rs usage s = evictAll t (filter (\<lambda>r. mr_name r \<notin> set protected) (take k rs)) s"
      using Cons.IH by blast
    then show ?thesis using p by (intro exI [of _ "Suc k"]) simp
  qed
  have "?case" if p: "mr_name r \<notin> set protected" "\<not> usage \<le> target"
  proof -
    obtain k where "trimLoop t protected target rs (max 0 (usage - mr_size r)) (evictFile t (mr_name r) s) =
        evictAll t (filter (\<lambda>r. mr_name r \<notin> set protected) (take k rs)) (evictFile t (mr_name r) s)" using Cons.IH by blast
    then show ?thesis using p by (intro exI [of _ "Suc k"]) (simp add: evictAll_def)
  qed
  then show ?case using stop skip by blast
qed

lemma sum_remove:
  assumes "distinct (map mr_name rs)" "r \<in> set rs"
  shows "sum_list (map mr_size (filter (\<lambda>q. mr_name q \<noteq> mr_name r) rs)) = sum_list (map mr_size rs) - mr_size r"
  using assms
proof (induction rs)
  case (Cons q rs)
  show ?case
  proof (cases "q = r")
    case True
    then have "filter (\<lambda>q. mr_name q \<noteq> mr_name r) rs = rs" using Cons.prems(1) by (auto simp: filter_id_conv image_iff)
    then show ?thesis using True by simp
  next
    case False
    then have "r \<in> set rs" using Cons.prems(2) by simp
    then have "mr_name q \<noteq> mr_name r" using Cons.prems(1) by auto
    then show ?thesis using Cons.IH Cons.prems(1) \<open>r \<in> set rs\<close> by simp
  qed
qed simp

lemma names_distinct: "media_keys s \<Longrightarrow> distinct (map mr_name (typeRows t s))"
proof -
  assume "media_keys s"
  then have "distinct (map rowKey (typeRows t s))" by (simp add: media_keys_def typeRows_def distinct_map_filter)
  moreover have "inj_on mr_name (set (typeRows t s))" if "inj_on rowKey (set (typeRows t s))"
    using that unfolding inj_on_def typeRows_def rowKey_def by auto
  ultimately show ?thesis by (simp add: distinct_map)
qed

lemma evict_usage:
  assumes "media_keys s" "r \<in> set (typeRows t s)"
  shows "usageBytes t (evictFile t (mr_name r) s) = usageBytes t s - mr_size r"
proof -
  have "typeRows t (evictFile t (mr_name r) s) = filter (\<lambda>q. mr_name q \<noteq> mr_name r) (typeRows t s)"
    unfolding evict_typeRows by (rule filter_cong) (auto simp: isRow_def typeRows_def)
  then show ?thesis using sum_remove [OF names_distinct [OF assms(1)] assms(2)] by (simp add: usageBytes_def)
qed

text \<open>After the loop the usage is at the low watermark, or only protected rows are left.\<close>

lemma trim_bound:
  assumes "media_keys s" "set items \<subseteq> set (typeRows t s)" "distinct (map mr_name items)"
    and "\<forall>r \<in> set (typeRows t s) - set items. mr_name r \<in> set protected" "\<forall>r \<in> set (typeRows t s). 0 \<le> mr_size r"
    and "usage = usageBytes t s"
  shows "usageBytes t (trimLoop t protected target items usage s) \<le> target \<or>
    (\<forall>r \<in> set (typeRows t (trimLoop t protected target items usage s)). mr_name r \<in> set protected)"
  using assms
proof (induction items arbitrary: usage s)
  case (Cons r rs)
  show ?case
  proof (cases "usage \<le> target")
    case False
    show ?thesis
    proof (cases "mr_name r \<in> set protected")
      case True
      then show ?thesis using Cons.IH [of s usage] Cons.prems False by auto
    next
      case unprotected: False
      let ?s = "evictFile t (mr_name r) s"
      have r: "r \<in> set (typeRows t s)" using Cons.prems(2) by simp
      have rows: "set (typeRows t ?s) = {q \<in> set (typeRows t s). mr_name q \<noteq> mr_name r}"
        unfolding evict_typeRows set_filter by (rule Collect_cong) (auto simp: isRow_def typeRows_def)
      have "0 \<le> usageBytes t ?s" unfolding usageBytes_def using Cons.prems(5) rows by (intro sum_list_nonneg) auto
      then have u: "max 0 (usage - mr_size r) = usageBytes t ?s" using evict_usage [OF Cons.prems(1) r] Cons.prems(6) by simp
      have one: "media_keys ?s" using keys_filter [OF Cons.prems(1) evict_rows evict_index] .
      have two: "set rs \<subseteq> set (typeRows t ?s)" using Cons.prems(2,3) rows by (auto simp: image_iff)
      have three: "\<forall>q \<in> set (typeRows t ?s) - set rs. mr_name q \<in> set protected" using Cons.prems(4) rows by auto
      have four: "\<forall>q \<in> set (typeRows t ?s). 0 \<le> mr_size q" using Cons.prems(5) rows by simp
      show ?thesis using Cons.IH [OF one two _ three four u] Cons.prems(3) False unprotected by simp
    qed
  qed (use Cons.prems in simp)
qed auto

lemma trim_inv: "media_inv T s \<Longrightarrow> media_inv T (trimLoop t protected target items usage s)"
  using trim_all [of t protected target items usage s] evictAll_inv [of T s] by fastforce

lemma enforce_inv: "media_inv T s \<Longrightarrow> media_inv T (enforceLimitLocked cfg t protected s)"
  by (simp add: enforceLimitLocked_def Let_def trim_inv)

section \<open>Saving\<close>

lemma put_indexed:
  assumes c: "\<And>r. rowKey (conflict r) = rowKey r \<and> mr_size (conflict r) = mr_size row"
  shows "indexed u (putMediaRow row conflict s) =
    (if u = mr_type row then {x \<in> indexed u s. fst x \<noteq> mr_name row} \<union> {(mr_name row, mr_size row)} else indexed u s)"
proof -
  let ?hit = "isRow (mr_type row) (mr_name row)"
  let ?s = "putMediaRow row conflict s"
  have k: "mr_type (conflict r) = mr_type r" "mr_name (conflict r) = mr_name r" "mr_size (conflict r) = mr_size row" for r
    using c [of r] by (simp_all add: rowKey_def)
  have idx: "indexed u s = {(mr_name r, mr_size r) | r. r \<in> set (mc_rows s) \<and> mr_type r = u}" for u s
    by (auto simp: indexed_def typeRows_def)
  show ?thesis
  proof (cases "\<exists>r \<in> set (mc_rows s). ?hit r")
    case True
    then have rows: "set (mc_rows ?s) = (\<lambda>r. if ?hit r then conflict r else r) ` set (mc_rows s)"
      by (simp add: putMediaRow_def del: if_image_distrib)
    obtain q where q: "q \<in> set (mc_rows s)" "?hit q" using True by blast
    have "x \<in> indexed u ?s \<longleftrightarrow> x \<in> (if u = mr_type row then {x \<in> indexed u s. fst x \<noteq> mr_name row} \<union> {(mr_name row, mr_size row)} else indexed u s)" for x
    proof
      assume "x \<in> indexed u ?s"
      then obtain r where r: "r \<in> set (mc_rows s)" "x = (mr_name r, mr_size (if ?hit r then conflict r else r))" "mr_type r = u"
        unfolding idx rows using k by (auto split: if_splits)
      then show "x \<in> (if u = mr_type row then {x \<in> indexed u s. fst x \<noteq> mr_name row} \<union> {(mr_name row, mr_size row)} else indexed u s)"
        unfolding idx using k by (cases "?hit r") (auto simp: isRow_def)
    next
      assume x: "x \<in> (if u = mr_type row then {x \<in> indexed u s. fst x \<noteq> mr_name row} \<union> {(mr_name row, mr_size row)} else indexed u s)"
      then consider "u = mr_type row" "x = (mr_name row, mr_size row)" | r where "r \<in> set (mc_rows s)" "mr_type r = u" "x = (mr_name r, mr_size r)" "\<not> ?hit r"
        unfolding idx by (auto simp: isRow_def split: if_splits)
      then show "x \<in> indexed u ?s"
      proof cases
        case 1
        have "(if ?hit q then conflict q else q) \<in> set (mc_rows ?s)" unfolding rows by (rule imageI [OF q(1)])
        then have "conflict q \<in> set (mc_rows ?s)" using q(2) by simp
        moreover have "mr_type q = u" "mr_name q = mr_name row" using q(2) 1 by (auto simp: isRow_def)
        ultimately show ?thesis unfolding idx using 1(2) k by (intro CollectI exI [of _ "conflict q"]) simp
      next
        case 2
        have "(if ?hit r then conflict r else r) \<in> set (mc_rows ?s)" unfolding rows by (rule imageI [OF 2(1)])
        then have "r \<in> set (mc_rows ?s)" using 2(4) by simp
        then show ?thesis unfolding idx using 2(2,3) by blast
      qed
    qed
    then show ?thesis by blast
  next
    case False
    then have "mc_rows ?s = mc_rows s @ [row]" by (simp add: putMediaRow_def)
    then show ?thesis unfolding idx using False by (auto simp: isRow_def)
  qed
qed

lemma put_keys:
  assumes c: "\<And>r. rowKey (conflict r) = rowKey r" and "media_keys s" "mc_hasIndex s"
  shows "media_keys (putMediaRow row conflict s)"
proof -
  let ?hit = "isRow (mr_type row) (mr_name row)"
  have "rowKey \<circ> (\<lambda>r. if ?hit r then conflict r else r) = rowKey" using c by (auto simp: fun_eq_iff)
  then have "map rowKey (map (\<lambda>r. if ?hit r then conflict r else r) (mc_rows s)) = map rowKey (mc_rows s)" by simp
  moreover have "rowKey row \<notin> rowKey ` set (mc_rows s)" if "\<forall>r \<in> set (mc_rows s). \<not> ?hit r"
    using that by (auto simp: rowKey_def isRow_def)
  ultimately show ?thesis using assms(2,3) unfolding media_keys_def putMediaRow_def Let_def
    by (simp del: map_map split: if_split)
qed

lemma put_frame [simp]: "mc_files (putMediaRow row conflict s) = mc_files s" "mc_hasIndex (putMediaRow row conflict s) = mc_hasIndex s"
  by (simp_all add: putMediaRow_def Let_def)

text \<open>A file that is written and indexed in one step.\<close>

lemma put_inv:
  assumes inv: "\<forall>u \<in> T. indexed u s = onDisk u s" and keys: "media_keys s" "mc_hasIndex s'"
    and c: "\<And>r. rowKey (conflict r) = rowKey r \<and> mr_size (conflict r) = fileSize f"
    and row: "mr_type row = t" "mr_name row = name" "mr_size row = fileSize f"
    and s': "mc_files s' = (mc_files s)(t := fmupd name f (mc_files s t))" "mc_rows s' = mc_rows s" "mc_hasIndex s' = mc_hasIndex s"
    and a: "mediaAllowed t name"
  shows "media_inv T (putMediaRow row conflict s')"
proof -
  have keys': "media_keys s'" using keys s' by (simp add: media_keys_def)
  have idx: "indexed u s' = indexed u s" for u by (simp add: indexed_def typeRows_def s')
  have disk: "onDisk u s' = (if u = t then {x \<in> onDisk u s. fst x \<noteq> name} \<union> {(name, fileSize f)} else onDisk u s)" for u
  proof (cases "u = t")
    case True
    have "x \<in> onDisk t s' \<longleftrightarrow> x \<in> {x \<in> onDisk t s. fst x \<noteq> name} \<union> {(name, fileSize f)}" for x
      using a by (cases x; cases "fst x = name") (simp_all add: onDisk_def s'(1))
    then have "onDisk t s' = {x \<in> onDisk t s. fst x \<noteq> name} \<union> {(name, fileSize f)}" by (rule set_eqI)
    then show ?thesis using True by simp
  qed (simp add: onDisk_def s'(1))
  have "indexed u (putMediaRow row conflict s') = onDisk u s'" if "u \<in> T" for u
    using put_indexed [of conflict row u s'] c row bspec [OF inv that] by (simp add: idx disk split: if_splits)
  moreover have "onDisk u (putMediaRow row conflict s') = onDisk u s'" for u by (simp add: onDisk_def)
  ultimately show ?thesis using put_keys [OF _ keys' keys(2)] c by (simp add: media_inv_def)
qed

lemma fmupd_same: "fmlookup m k = Some v \<Longrightarrow> fmupd k v m = m"
  by (rule fmap_ext) auto

lemma save_inv:
  assumes "media_inv T s" "mediaAllowed t name"
  shows "media_inv T (saveIndexed cfg now t name raw s)"
proof -
  have i: "media_inv T (connectIndex s)" using inv_connect [OF assms(1)] .
  let ?s = "connectIndex s"
  have v: "\<forall>u \<in> T. indexed u ?s = onDisk u ?s" "media_keys ?s" using i by (simp_all add: media_inv_def)
  show ?thesis
  proof (cases "fmlookup (mc_files s t) name")
    case None
    let ?f = "\<lparr>mf_raw = raw, mf_mtime = now\<rparr>"
    have "media_inv T (upsertNewRow now t name ?f (writeIfMissing now t name raw ?s))"
      unfolding upsertNewRow_def using None assms(2)
      by (intro put_inv [OF v, where t = t and name = name and f = ?f]) (simp_all add: rowKey_def writeIfMissing_def setFile_def)
    then show ?thesis using None by (simp add: saveIndexed_def Let_def enforce_inv)
  next
    case (Some f)
    have same: "mc_files ?s = (mc_files ?s)(t := fmupd name f (mc_files ?s t))"
      using fmupd_same [OF Some] by simp
    have "media_inv T (upsertExistingRow now t name f ?s)"
      unfolding upsertExistingRow_def using assms(2)
      by (intro put_inv [OF v, where t = t and name = name and f = f]) (use same in \<open>simp_all add: rowKey_def\<close>)
    then show ?thesis using Some by (simp add: saveIndexed_def Let_def enforce_inv)
  qed
qed

section \<open>Names\<close>

lemma fileExt_dot: "\<forall>c \<in> set e. c \<noteq> CHR ''.'' \<and> c \<noteq> CHR ''/'' \<Longrightarrow> fileExt (x @ CHR ''.'' # e) = CHR ''.'' # e"
proof -
  assume e: "\<forall>c \<in> set e. c \<noteq> CHR ''.'' \<and> c \<noteq> CHR ''/''"
  let ?P = "\<lambda>c. c \<noteq> CHR ''.'' \<and> c \<noteq> CHR ''/''"
  have "takeWhile ?P (rev e @ CHR ''.'' # rev x) = rev e" using e by (subst takeWhile_append2) auto
  then show ?thesis by (simp add: fileExt_def)
qed

lemma lower_exts: "goLower ''.jpg'' = ''.jpg''" "goLower ''.png'' = ''.png''" "goLower ''.mp4'' = ''.mp4''" "goLower ''.part'' = ''.part''"
  by (simp_all add: goLower_def segs_ascii asciiString_def byteOf_def lowerSeg_def lowerChar_def)

lemma saved_allowed: "mediaAllowed MediaTypeImage (i @ ''.jpg'')" "mediaAllowed MediaTypeImage (i @ ''.png'')"
  "mediaAllowed MediaTypeVideo (i @ ''.mp4'')"
  by (simp_all add: mediaAllowed_def fileExt_dot allowedExt_def lower_exts imageExts_def videoExts_def)

lemma part_not_allowed: "hasSuffix n ''.part'' \<Longrightarrow> \<not> mediaAllowed t n"
proof -
  assume "hasSuffix n ''.part''"
  then have "drop (length n - 5) n = ''.part''" by (simp add: hasSuffix_def eval_nat_numeral)
  then have "n = take (length n - 5) n @ CHR ''.'' # ''part''" by (metis append_take_drop_id)
  then have "fileExt n = ''.part''" using fileExt_dot [of "''part''" "take (length n - 5) n"] by simp
  then show ?thesis by (cases t) (simp_all add: mediaAllowed_def allowedExt_def lower_exts imageExts_def videoExts_def)
qed

section \<open>Deleting\<close>

lemma delete_inv:
  assumes "media_inv T s"
  shows "media_inv T (snd (DeleteMedia t name s))"
proof (cases "validateName t name")
  case (Inr n)
  let ?s = "snd (DeleteMedia t name s)"
  have keys: "media_keys s" and idx: "\<forall>u \<in> T. indexed u s = onDisk u s" using assms by (simp_all add: media_inv_def)
  have rows: "mc_rows ?s = filter (\<lambda>r. \<not> isRow t n r) (mc_rows s)" "mc_hasIndex ?s = mc_hasIndex s"
    using Inr keys by (auto simp: DeleteMedia_def Let_def deleteIndexRowsIfPresent_def deleteMediaRows_def removeFile_def media_keys_def)
  have "fmdrop n m = m" if "n |\<notin>| fmdom m" for m :: "(string, MediaFile) fmap" using that by (intro fmap_ext) auto
  then have files: "mc_files ?s = (mc_files s)(t := fmdrop n (mc_files s t))"
    using Inr by (simp add: DeleteMedia_def Let_def deleteIndexRowsIfPresent_def deleteMediaRows_def removeFile_def)
  have "typeRows u ?s = filter (\<lambda>r. \<not> isRow t n r) (typeRows u s)" for u by (simp add: typeRows_def rows conj_commute)
  then have "indexed u ?s = onDisk u ?s" if "u \<in> T" for u using that drop_both [OF _ _ files] idx by blast
  then show ?thesis using keys_filter [OF keys rows] by (simp add: media_inv_def)
qed (use assms in \<open>simp add: DeleteMedia_def\<close>)

lemma removes: "fmlookup (mc_files (fold (removeFile t) names s) u) n = (if u = t \<and> n \<in> set names then None else fmlookup (mc_files s u) n)"
  by (induction names arbitrary: s) (auto simp: removeFile_def)

lemma removes_frame [simp]: "mc_rows (fold (removeFile t) names s) = mc_rows s" "mc_hasIndex (fold (removeFile t) names s) = mc_hasIndex s"
  by (induction names arbitrary: s) (auto simp: removeFile_def)

lemma dirNames_set [simp]: "set (dirNames t s) = fset (fmdom (mc_files s t))"
  by (simp add: dirNames_def)

lemma dirNames_distinct [simp]: "distinct (dirNames t s)"
  by (simp add: dirNames_def sorted_list_of_fset.rep_eq)

lemma clear_inv:
  assumes "media_inv T s"
  shows "media_inv T (snd (ClearMedia t s))"
proof -
  let ?s = "snd (ClearMedia t s)"
  have keys: "media_keys s" and idx: "\<forall>u \<in> T. indexed u s = onDisk u s" using assms by (simp_all add: media_inv_def)
  have rows: "mc_rows ?s = filter (\<lambda>r. mr_type r \<noteq> t) (mc_rows s)" "mc_hasIndex ?s = mc_hasIndex s"
    using keys by (auto simp: ClearMedia_def Let_def deleteIndexRowsIfPresent_def deleteMediaRows_def media_keys_def)
  have files: "fmlookup (mc_files ?s u) n = (if u = t \<and> mediaAllowed t n then None else fmlookup (mc_files s u) n)" for u n
    by (auto simp: ClearMedia_def Let_def deleteIndexRowsIfPresent_def deleteMediaRows_def removes fmdom_notD split: if_splits)
  have "indexed u ?s = onDisk u ?s" if "u \<in> T" for u
  proof (cases "u = t")
    case True
    then have "onDisk u ?s = {}" "typeRows u ?s = []" by (auto simp: onDisk_def files typeRows_def rows filter_empty_conv)
    then show ?thesis by (simp add: indexed_def)
  next
    case False
    then have "onDisk u ?s = onDisk u s" "typeRows u ?s = typeRows u s"
      by (auto simp: onDisk_def files typeRows_def rows intro: filter_cong)
    then show ?thesis using idx that by (simp add: indexed_def)
  qed
  then show ?thesis using keys_filter [OF keys rows] by (simp add: media_inv_def)
qed

section \<open>Reconciling\<close>

definition indexable :: "MediaType \<Rightarrow> string \<Rightarrow> bool" where
  "indexable t n \<longleftrightarrow> \<not> hasSuffix n ''.part'' \<and> mediaAllowed t n"

lemma indexable_allowed: "indexable t n = mediaAllowed t n"
  using part_not_allowed by (auto simp: indexable_def)

definition freshRow :: "MediaType \<Rightarrow> MediaCache \<Rightarrow> string \<Rightarrow> MediaRow" where
  "freshRow t s n = (let f = the (fmlookup (mc_files s t) n)
     in \<lparr>mr_type = t, mr_name = n, mr_size = fileSize f, mr_created = mf_mtime f, mr_updated = mf_mtime f\<rparr>)"

lemma reconcile_entry:
  assumes "fmlookup (mc_files s t) n = Some f"
  shows "\<exists>rep'. reconcileEntry t n (rep, s) =
    (rep', if indexable t n then s\<lparr>mc_rows := mc_rows s @ [freshRow t s n]\<rparr> else removeFile t n s)"
  using assms by (auto simp: reconcileEntry_def indexable_def dropListed_def freshRow_def Let_def)

lemma reconcile_fold:
  assumes "distinct names" "\<forall>n \<in> set names. fmlookup (mc_files s t) n \<noteq> None"
  shows "mc_rows (snd (fold (reconcileEntry t) names (rep, s))) = mc_rows s @ map (freshRow t s) (filter (indexable t) names) \<and>
    mc_hasIndex (snd (fold (reconcileEntry t) names (rep, s))) = mc_hasIndex s \<and>
    (\<forall>u n. fmlookup (mc_files (snd (fold (reconcileEntry t) names (rep, s))) u) n =
      (if u = t \<and> n \<in> set names \<and> \<not> indexable t n then None else fmlookup (mc_files s u) n))"
  using assms
proof (induction names arbitrary: rep s)
  case (Cons n names)
  obtain f where f: "fmlookup (mc_files s t) n = Some f" using Cons.prems(2) by auto
  let ?s = "if indexable t n then s\<lparr>mc_rows := mc_rows s @ [freshRow t s n]\<rparr> else removeFile t n s"
  obtain rep' where step: "reconcileEntry t n (rep, s) = (rep', ?s)" using reconcile_entry [OF f] by blast
  have later: "fmlookup (mc_files ?s t) m = fmlookup (mc_files s t) m" if "m \<in> set names" for m
    using that Cons.prems(1) by (auto simp: removeFile_def)
  then have row: "freshRow t ?s m = freshRow t s m" if "m \<in> set names" for m using that by (simp add: freshRow_def)
  have IH: "mc_rows (snd (fold (reconcileEntry t) names (rep', ?s))) = mc_rows ?s @ map (freshRow t ?s) (filter (indexable t) names) \<and>
    mc_hasIndex (snd (fold (reconcileEntry t) names (rep', ?s))) = mc_hasIndex ?s \<and>
    (\<forall>u n. fmlookup (mc_files (snd (fold (reconcileEntry t) names (rep', ?s))) u) n =
      (if u = t \<and> n \<in> set names \<and> \<not> indexable t n then None else fmlookup (mc_files ?s u) n))"
    using Cons.IH [of ?s rep'] Cons.prems later by auto
  have fold1: "fold (reconcileEntry t) (n # names) (rep, s) = fold (reconcileEntry t) names (rep', ?s)" using step by simp
  have rows: "map (freshRow t ?s) (filter (indexable t) names) = map (freshRow t s) (filter (indexable t) names)"
    using row by simp
  have keep: "mc_rows ?s = mc_rows s @ (if indexable t n then [freshRow t s n] else [])" "mc_hasIndex ?s = mc_hasIndex s"
    by (simp_all add: removeFile_def)
  have files: "fmlookup (mc_files ?s u) m = (if u = t \<and> m = n \<and> \<not> indexable t n then None else fmlookup (mc_files s u) m)" for u m
    by (simp add: removeFile_def)
  show ?case unfolding fold1 using IH unfolding rows keep files by auto
qed simp

lemma sorted_names: "\<forall>n \<in> set (dirNames t s). fmlookup (mc_files s t) n \<noteq> None"
  by (auto simp: fmlookup_dom_iff)

text \<open>A reconciliation repairs the index of its type and keeps that of the others.\<close>

lemma reconcile_repairs:
  assumes "media_inv T s" "0 < limitBytes cfg t"
  shows "media_inv (insert t T) (ReconcileMedia cfg order now t s)"
proof -
  let ?s0 = "deleteMediaRows (\<lambda>r. mr_type r = t) (connectIndex s)"
  let ?s1 = "snd (fold (reconcileEntry t) (dirNames t s) (emptyReport, ?s0))"
  have frame: "mc_files ?s0 = mc_files s" "mc_hasIndex ?s0" "mc_rows ?s0 = filter (\<lambda>r. mr_type r \<noteq> t) (mc_rows s)"
    by (simp_all add: deleteMediaRows_def)
  have f: "mc_rows ?s1 = mc_rows ?s0 @ map (freshRow t ?s0) (filter (indexable t) (dirNames t s))" "mc_hasIndex ?s1"
    "fmlookup (mc_files ?s1 u) n = (if u = t \<and> n \<in> set (dirNames t s) \<and> \<not> indexable t n then None else fmlookup (mc_files s u) n)" for u n
    using reconcile_fold [of "dirNames t s" ?s0 t emptyReport] sorted_names [of t s] frame by simp_all
  have ft: "mr_type (freshRow t ?s0 n) = t" "mr_name (freshRow t ?s0 n) = n"
    "mr_size (freshRow t ?s0 n) = fileSize (the (fmlookup (mc_files s t) n))" for n
    by (simp_all add: freshRow_def Let_def frame)
  have keys: "media_keys ?s1"
  proof -
    have "distinct (map rowKey (filter (\<lambda>r. mr_type r \<noteq> t) (mc_rows s)))" using assms(1) by (simp add: media_inv_def media_keys_def distinct_map_filter)
    moreover have "distinct (map rowKey (map (freshRow t ?s0) (filter (indexable t) (dirNames t s))))"
      by (simp add: distinct_map inj_on_def rowKey_def ft comp_def)
    ultimately show ?thesis using f(2) by (auto simp: media_keys_def f(1) frame(3) rowKey_def ft)
  qed
  have idx: "indexed u ?s1 = onDisk u ?s1" if "u \<in> insert t T" for u
  proof (cases "u = t")
    case True
    have "typeRows t ?s1 = map (freshRow t ?s0) (filter (indexable t) (dirNames t s))"
      by (simp add: typeRows_def f(1) frame(3) ft filter_empty_conv)
    then have "indexed t ?s1 = (\<lambda>n. (n, fileSize (the (fmlookup (mc_files s t) n)))) ` {n. n |\<in>| fmdom (mc_files s t) \<and> mediaAllowed t n}"
      by (simp add: indexed_def image_image ft indexable_allowed)
    also have "\<dots> = onDisk t ?s1"
      by (auto simp: onDisk_def f(3) indexable_allowed fmlookup_dom_iff image_iff)
    finally show ?thesis using True by simp
  next
    case False
    have "filter (\<lambda>r. mr_type r = u) (map (freshRow t ?s0) ns) = []" for ns using False by (auto simp: filter_empty_conv ft)
    moreover have "filter (\<lambda>r. mr_type r = u) (filter (\<lambda>r. mr_type r \<noteq> t) rs) = filter (\<lambda>r. mr_type r = u) rs" for rs
      using False by (auto simp: filter_filter intro: filter_cong)
    ultimately have "typeRows u ?s1 = typeRows u s" by (simp add: typeRows_def f(1) frame(3) del: filter_filter)
    moreover have "onDisk u ?s1 = onDisk u s" using False by (simp add: onDisk_def f(3))
    ultimately show ?thesis using assms(1) False that by (simp add: indexed_def media_inv_def)
  qed
  have "media_inv (insert t T) ?s1" using keys idx by (simp add: media_inv_def)
  then have "media_inv (insert t T) (enforceLimitLocked cfg t [] ?s1)" by (rule enforce_inv)
  moreover have "dirNames t (connectIndex s) = dirNames t s" by (simp add: dirNames_def)
  ultimately show ?thesis using assms(2)
    by (simp add: ReconcileMedia_def reconcileIndexed_def Let_def recordReconcile_def case_prod_beta)
qed

section \<open>Histories\<close>

datatype MediaOp =
    OpImage int string string string
  | OpVideo int string string
  | OpDelete MediaType string
  | OpClear MediaType
  | OpReconcile "string list \<Rightarrow> string list" int MediaType

primrec mediaStep :: "MediaConfig \<Rightarrow> MediaCache \<Rightarrow> MediaOp \<Rightarrow> MediaCache" where
  "mediaStep cfg s (OpImage now raw mime fileID) = SaveImage cfg now raw mime fileID s"
| "mediaStep cfg s (OpVideo now raw fileID) = SaveVideo cfg now raw fileID s"
| "mediaStep cfg s (OpDelete t name) = snd (DeleteMedia t name s)"
| "mediaStep cfg s (OpClear t) = snd (ClearMedia t s)"
| "mediaStep cfg s (OpReconcile order now t) = ReconcileMedia cfg order now t s"

lemma media_step:
  assumes "\<forall>t. 0 < limitBytes cfg t" "media_inv UNIV s"
  shows "media_inv UNIV (mediaStep cfg s op)"
proof -
  have save: "media_inv UNIV (saveMedia cfg now t i raw suffix s)" if "mediaAllowed t (i @ suffix)" for now t i raw suffix
    using assms(1) [rule_format, of t] save_inv [OF assms(2) that]
    by (simp add: saveMedia_def Let_def recordSave_def)
  show ?thesis
  proof (cases op)
    case (OpImage now raw mime fileID)
    then show ?thesis using save [of MediaTypeImage fileID "imageSuffix mime"]
      by (simp add: SaveImage_def imageSuffix_def saved_allowed)
  next
    case (OpReconcile order now t)
    then show ?thesis using reconcile_repairs [OF assms(2), of cfg t] assms(1) by simp
  qed (use assms(2) save [of MediaTypeVideo] in \<open>simp_all add: SaveVideo_def saved_allowed delete_inv clear_inv\<close>)
qed

text \<open>C34. With limits configured the index shows exactly the files on disk, with their sizes, after any series of saves,
  deletions, clearings and reconciliations.\<close>

theorem media_invariant:
  assumes "\<forall>t. 0 < limitBytes cfg t" "media_inv UNIV s"
  shows "media_inv UNIV (foldl (mediaStep cfg) s ops)"
  using assms(2) by (induction ops arbitrary: s) (simp_all add: media_step [OF assms(1)])

definition sampleMedia :: MediaCache where
  "sampleMedia = \<lparr>mc_files = (\<lambda>_. fmempty), mc_rows = [], mc_hasIndex = False,
     mc_stats = (\<lambda>_. \<lparr>ms_saves = 0, ms_reconciles = 0, ms_evicts = 0, ms_lastAt = 0, ms_lastReport = None\<rparr>)\<rparr>"

lemma sampleMedia_inv: "media_inv T sampleMedia"
  by (simp add: media_inv_def media_keys_def sampleMedia_def indexed_def onDisk_def typeRows_def)

theorem media_invariant_witness:
  "media_inv UNIV (foldl (mediaStep (\<lambda>_ _. 1)) sampleMedia
     [OpImage 5 ''abc'' ''image/png'' ''x'', OpDelete MediaTypeImage ''x.png'', OpVideo 6 ''abcd'' ''y'', OpReconcile id 7 MediaTypeVideo])"
  by (rule media_invariant [OF _ sampleMedia_inv]) (simp add: limitBytes_def)

text \<open>A reconciliation of both types repairs the index: whatever it held before, it shows the files on disk.\<close>

theorem media_reconciled:
  assumes "media_keys s" "\<forall>t. 0 < limitBytes cfg t"
  shows "media_inv UNIV (ReconcileLocalMediaCache cfg order now [] s)"
proof -
  have "media_inv {} s" using assms(1) by (simp add: media_inv_def)
  then have "media_inv {MediaTypeImage} (ReconcileMedia cfg order now MediaTypeImage s)"
    using reconcile_repairs assms(2) by blast
  then have "media_inv {MediaTypeVideo, MediaTypeImage} (ReconcileMedia cfg order now MediaTypeVideo (ReconcileMedia cfg order now MediaTypeImage s))"
    using reconcile_repairs assms(2) by blast
  moreover have "{MediaTypeVideo, MediaTypeImage} = UNIV" using MediaType.exhaust by blast
  ultimately show ?thesis by (simp add: ReconcileLocalMediaCache_def)
qed

theorem media_reconciled_witness:
  "media_inv UNIV (ReconcileLocalMediaCache (\<lambda>_ _. 1) id 9 []
    (sampleMedia\<lparr>mc_files := (\<lambda>_. fmupd ''a.png'' \<lparr>mf_raw = ''abc'', mf_mtime = 4\<rparr> fmempty)\<rparr>))"
  by (rule media_reconciled) (simp_all add: media_keys_def sampleMedia_def limitBytes_def)

section \<open>The limit\<close>

lemma lowWatermark_le: "0 < m \<Longrightarrow> m < 2 ^ 53 \<Longrightarrow> lowWatermark m \<le> m"
proof -
  assume m: "0 < m" "m < 2 ^ 53"
  let ?r = "fl (6 / 10) :: rat"
  have r: "0 \<le> ?r" "?r \<le> 1" using fl_ge_int [of 0 "6 / 10"] fl_le_int [of "6 / 10" 1] by simp_all
  have x: "0 \<le> of_int m * ?r" "of_int m * ?r \<le> of_int m"
    using r m by (simp_all add: mult_le_cancel_left1)
  have "fl (of_int m) = (of_int m :: rat)" using m by (intro fl_of_int) simp
  moreover have "0 \<le> fl (of_int m * ?r)" "fl (of_int m * ?r) \<le> of_int m"
    using fl_ge_int [of 0 "of_int m * ?r"] fl_le_int [of "of_int m * ?r" m] x m by simp_all
  ultimately show ?thesis unfolding lowWatermark_def by (simp add: truncRat_le_int)
qed

lemma sort_last:
  fixes k :: "'a \<Rightarrow> 'b :: linorder"
  assumes "r \<in> set xs" "\<And>q. q \<in> set xs \<Longrightarrow> q \<noteq> r \<Longrightarrow> k q < k r"
  shows "last (sort_key k xs) = r"
proof -
  let ?ys = "sort_key k xs"
  have ne: "?ys \<noteq> []" "last ?ys \<in> set xs" using assms(1) last_in_set [of ?ys] by (metis empty_iff empty_set set_sort)+
  obtain i where i: "i < length ?ys" "?ys ! i = r" using assms(1) by (metis in_set_conv_nth set_sort)
  have "map k ?ys ! i \<le> map k ?ys ! (length ?ys - 1)"
    using i(1) by (intro sorted_nth_mono [OF sorted_sort_key]) simp_all
  then have "k r \<le> k (last ?ys)" using i ne(1) by (simp add: last_conv_nth)
  then show ?thesis using assms(2) ne(2) by force
qed

text \<open>The state right after a file was written and indexed.\<close>

definition afterUpsert :: "int \<Rightarrow> MediaType \<Rightarrow> string \<Rightarrow> string \<Rightarrow> MediaCache \<Rightarrow> MediaCache" where
  "afterUpsert now t name raw s =
    (case fmlookup (mc_files s t) name of
       Some f \<Rightarrow> upsertExistingRow now t name f (connectIndex s)
     | None \<Rightarrow> upsertNewRow now t name \<lparr>mf_raw = raw, mf_mtime = now\<rparr> (writeIfMissing now t name raw (connectIndex s)))"

definition savedFile :: "int \<Rightarrow> MediaType \<Rightarrow> string \<Rightarrow> string \<Rightarrow> MediaCache \<Rightarrow> MediaFile" where
  "savedFile now t name raw s = (case fmlookup (mc_files s t) name of Some f \<Rightarrow> f | None \<Rightarrow> \<lparr>mf_raw = raw, mf_mtime = now\<rparr>)"

lemma saveIndexed_eq: "saveIndexed cfg now t name raw s = enforceLimitLocked cfg t [name] (afterUpsert now t name raw s)"
  by (simp add: saveIndexed_def afterUpsert_def Let_def split: option.split)

lemma after_file: "fmlookup (mc_files (afterUpsert now t name raw s) t) name = Some (savedFile now t name raw s)"
  by (simp add: afterUpsert_def savedFile_def upsertExistingRow_def upsertNewRow_def writeIfMissing_def setFile_def split: option.split)

lemma after_put: "\<exists>row conflict s'. afterUpsert now t name raw s = putMediaRow row conflict s' \<and> mc_rows s' = mc_rows s \<and> mc_hasIndex s' \<and>
   mr_type row = t \<and> mr_name row = name \<and> mr_size row = fileSize (savedFile now t name raw s) \<and> mr_updated row = now \<and>
   (\<forall>r. rowKey (conflict r) = rowKey r \<and> mr_size (conflict r) = mr_size row \<and> mr_updated (conflict r) = now)"
proof (cases "fmlookup (mc_files s t) name")
  case None
  show ?thesis unfolding afterUpsert_def upsertNewRow_def savedFile_def None option.case
    by (intro exI conjI, rule refl) (simp_all add: rowKey_def writeIfMissing_def setFile_def connectIndex_def None)
next
  case (Some f)
  show ?thesis unfolding afterUpsert_def upsertExistingRow_def savedFile_def Some option.case
    by (intro exI conjI, rule refl) (simp_all add: rowKey_def connectIndex_def)
qed

lemma after_rows:
  assumes "media_keys s"
  shows "media_keys (afterUpsert now t name raw s) \<and>
    (\<forall>r \<in> set (typeRows t (afterUpsert now t name raw s)).
       mr_name r = name \<and> mr_size r = fileSize (savedFile now t name raw s) \<and> mr_updated r = now \<or> mr_name r \<noteq> name \<and> r \<in> set (typeRows t s)) \<and>
    (\<exists>r \<in> set (typeRows t (afterUpsert now t name raw s)). mr_name r = name)"
proof -
  obtain row conflict s' where a: "afterUpsert now t name raw s = putMediaRow row conflict s'" "mc_rows s' = mc_rows s" "mc_hasIndex s'"
    "mr_type row = t" "mr_name row = name" "mr_size row = fileSize (savedFile now t name raw s)" "mr_updated row = now"
    "\<forall>r. rowKey (conflict r) = rowKey r \<and> mr_size (conflict r) = mr_size row \<and> mr_updated (conflict r) = now"
    using after_put [of now t name raw s] by blast
  have k: "media_keys s'" using assms a(2,3) by (simp add: media_keys_def)
  have key: "mr_type (conflict r) = mr_type r" "mr_name (conflict r) = mr_name r" for r using a(8) by (simp_all add: rowKey_def)
  let ?g = "\<lambda>r. if isRow t name r then conflict r else r"
  have rows: "mc_rows (putMediaRow row conflict s') = (if \<exists>r \<in> set (mc_rows s). isRow t name r then map ?g (mc_rows s) else mc_rows s @ [row])"
    using a(2,4,5) by (simp add: putMediaRow_def Let_def)
  have "mr_name r = name \<and> mr_size r = fileSize (savedFile now t name raw s) \<and> mr_updated r = now \<or> mr_name r \<noteq> name \<and> r \<in> set (typeRows t s)"
    if r: "r \<in> set (typeRows t (putMediaRow row conflict s'))" for r
  proof -
    have m: "r \<in> set (mc_rows (putMediaRow row conflict s'))" "mr_type r = t" using r by (simp_all add: typeRows_def)
    then consider q where "q \<in> set (mc_rows s)" "r = ?g q" | "r = row" | "r \<in> set (mc_rows s)" "\<forall>q \<in> set (mc_rows s). \<not> isRow t name q"
      unfolding rows by (auto split: if_splits)
    then show ?thesis
    proof cases
      case 1
      then show ?thesis using m(2) a(6,8) key by (cases "isRow t name q") (auto simp: isRow_def typeRows_def)
    qed (use m(2) a in \<open>auto simp: isRow_def typeRows_def\<close>)
  qed
  moreover have "\<exists>r \<in> set (typeRows t (putMediaRow row conflict s')). mr_name r = name"
  proof (cases "\<exists>r \<in> set (mc_rows s). isRow t name r")
    case True
    then obtain q where q: "q \<in> set (mc_rows s)" "isRow t name q" by blast
    have "?g q \<in> ?g ` set (mc_rows s)" by (rule imageI [OF q(1)])
    then have "conflict q \<in> set (mc_rows (putMediaRow row conflict s'))" using q(2) True unfolding rows by simp
    then show ?thesis using q(2) key by (intro bexI [of _ "conflict q"]) (auto simp: typeRows_def isRow_def)
  next
    case False
    then show ?thesis using a(4,5) by (intro bexI [of _ row]) (simp_all add: typeRows_def rows)
  qed
  moreover have "media_keys (putMediaRow row conflict s')" using a(8) by (intro put_keys [OF _ k a(3)]) blast
  ultimately show ?thesis unfolding a(1) by blast
qed

lemma enforce_rows: "r \<in> set (typeRows t (enforceLimitLocked cfg t protected s)) \<Longrightarrow> r \<in> set (typeRows t s)"
  using trim_all [of t _ "lowWatermark (limitBytes cfg t)" "mediaTrimCandidates t s" "usageBytes t s" s]
  by (auto simp: enforceLimitLocked_def Let_def evictAll_rows split: if_splits) (metis evictAll_rows filter_is_subset subsetD)+

lemma enforce_kept:
  assumes "name \<in> set protected"
  shows "fmlookup (mc_files (enforceLimitLocked cfg t protected s) t) name = fmlookup (mc_files s t) name"
proof -
  have "fmlookup (mc_files (trimLoop t p target items usage s) t) name = fmlookup (mc_files s t) name"
    if p: "name \<in> set p" for p target items usage
  proof -
    obtain k where k: "trimLoop t p target items usage s = evictAll t (filter (\<lambda>r. mr_name r \<notin> set p) (take k items)) s"
      using trim_all by blast
    have "name \<notin> mr_name ` set (filter (\<lambda>r. mr_name r \<notin> set p) (take k items))" using p by auto
    then show ?thesis unfolding k evictAll_files by simp
  qed
  then show ?thesis using assms by (simp add: enforceLimitLocked_def Let_def)
qed

text \<open>A file is there after it was saved: with the content of the first save under its name, whatever the eviction
  removed to make room.\<close>

theorem media_saved:
  "fmlookup (mc_files (saveMedia cfg now t fileID raw suffix s) t) (fileID @ suffix) = Some (savedFile now t (fileID @ suffix) raw s)"
proof (cases "limitBytes cfg t \<le> 0")
  case True
  then show ?thesis
    by (simp add: saveMedia_def Let_def recordSave_def writeIfMissing_def setFile_def savedFile_def split: option.split)
next
  case False
  then show ?thesis
    by (simp add: saveMedia_def Let_def recordSave_def saveIndexed_eq enforce_kept after_file)
qed

text \<open>C35. The files of a type stay within its limit, unless the file just saved is larger by itself: after a save the
  indexed bytes are at most the larger of the two. The clock has moved since the last update.\<close>

theorem media_bound:
  assumes "media_keys s" "\<forall>r \<in> set (typeRows t s). 0 \<le> mr_size r \<and> mr_updated r < now"
    and "0 < limitBytes cfg t" "limitBytes cfg t < 2 ^ 53"
  shows "usageBytes t (saveMedia cfg now t fileID raw suffix s) \<le>
    max (limitBytes cfg t) (fileSize (savedFile now t (fileID @ suffix) raw s))"
proof -
  let ?name = "fileID @ suffix"
  let ?s = "afterUpsert now t ?name raw s" and ?f = "savedFile now t ?name raw s" and ?m = "limitBytes cfg t"
  let ?e = "enforceLimitLocked cfg t [?name] ?s"
  have keys: "media_keys ?s" and rows: "\<forall>r \<in> set (typeRows t ?s). mr_name r = ?name \<and> mr_size r = fileSize ?f \<and> mr_updated r = now
      \<or> mr_name r \<noteq> ?name \<and> r \<in> set (typeRows t s)" and hit: "\<exists>r \<in> set (typeRows t ?s). mr_name r = ?name"
    using after_rows [OF assms(1), of now t ?name raw] by blast+
  have f0: "0 \<le> fileSize ?f" by (simp add: fileSize_def)
  have nonneg: "\<forall>r \<in> set (typeRows t ?s). 0 \<le> mr_size r" using rows assms(2) f0 by metis
  obtain r where r: "r \<in> set (typeRows t ?s)" "mr_name r = ?name" using hit by blast
  have "mr_updated r = now" using rows r by blast
  have "trimKey q < trimKey r" if q: "q \<in> set (typeRows t ?s)" "q \<noteq> r" for q
  proof -
    have "mr_name q \<noteq> mr_name r" using q r(1) names_distinct [OF keys] by (auto simp: distinct_map inj_on_def)
    then have "mr_updated q < now" using rows q(1) r(2) assms(2) by metis
    then show ?thesis using \<open>mr_updated r = now\<close> by (simp add: trimKey_def)
  qed
  then have last: "last (mediaTrimCandidates t ?s) = r" unfolding mediaTrimCandidates_def by (rule sort_last [OF r(1)])
  have ne: "mediaTrimCandidates t ?s \<noteq> []" using r(1) unfolding mediaTrimCandidates_def by (metis empty_iff empty_set set_sort)
  then have new: "newestName t ?s = ?name"
    using last r(2) by (cases "mediaTrimCandidates t ?s" rule: rev_cases) (simp_all add: newestName_def)
  have "usageBytes t ?e \<le> max ?m (fileSize ?f)"
  proof (cases "usageBytes t ?s \<le> ?m")
    case True
    then show ?thesis by (simp add: enforceLimitLocked_def Let_def)
  next
    case False
    let ?p = "if ?name \<noteq> '''' then [?name, ?name] else [?name]"
    let ?t = "trimLoop t ?p (lowWatermark ?m) (mediaTrimCandidates t ?s) (usageBytes t ?s) ?s"
    have e: "?e = ?t" using False assms(3) new by (simp add: enforceLimitLocked_def Let_def)
    have cands: "set (mediaTrimCandidates t ?s) = set (typeRows t ?s)" "distinct (map mr_name (mediaTrimCandidates t ?s))"
      using names_distinct [OF keys] by (simp_all add: mediaTrimCandidates_def distinct_map)
    have "usageBytes t ?t \<le> lowWatermark ?m \<or> (\<forall>r \<in> set (typeRows t ?t). mr_name r \<in> set ?p)"
      by (rule trim_bound [OF keys _ cands(2) _ nonneg refl]) (simp_all add: cands(1))
    moreover have "set ?p = {?name}" by simp
    ultimately consider "usageBytes t ?e \<le> lowWatermark ?m" | "\<forall>r \<in> set (typeRows t ?e). mr_name r = ?name"
      unfolding e by (metis singletonD)
    then show ?thesis
    proof cases
      case 1
      then show ?thesis using lowWatermark_le [OF assms(3,4)] by linarith
    next
      case 2
      have "distinct (map mr_name (typeRows t ?e))" unfolding e using trim_all [of t ?p] names_distinct [OF keys]
        by (metis (no_types, lifting) distinct_map_filter evictAll_rows)
      then have "length (typeRows t ?e) \<le> 1"
        using 2 by (cases "typeRows t ?e"; cases "tl (typeRows t ?e)") auto
      moreover have "\<forall>r \<in> set (typeRows t ?e). mr_size r = fileSize ?f" using 2 enforce_rows rows by blast
      ultimately show ?thesis unfolding usageBytes_def using f0 by (cases "typeRows t ?e") auto
    qed
  qed
  moreover have "saveMedia cfg now t fileID raw suffix s = recordSave t ?e"
    using assms(3) by (simp add: saveMedia_def Let_def saveIndexed_eq)
  ultimately show ?thesis by (simp add: recordSave_def)
qed

theorem media_bound_witness:
  "usageBytes MediaTypeImage (saveMedia (\<lambda>_ _. 1) 9 MediaTypeImage ''x'' ''abc'' ''.png'' sampleMedia) \<le> max (1024 * 1024) 3"
  using media_bound [of sampleMedia MediaTypeImage 9 "\<lambda>_ _. 1" "''x''" "''abc''" "''.png''"] sampleMedia_inv [of UNIV]
  by (simp add: media_inv_def limitBytes_def savedFile_def fileSize_def) (simp add: sampleMedia_def typeRows_def)

text \<open>The oldest files go first: a file that an eviction removes was not updated later than any file that it leaves,
  apart from the protected ones (the file just saved and the newest one).\<close>

theorem media_oldest_first:
  assumes "media_keys s" "r \<in> set (typeRows t s)" "r \<notin> set (typeRows t (enforceLimitLocked cfg t protected s))"
    and "q \<in> set (typeRows t (enforceLimitLocked cfg t protected s))" "mr_name q \<notin> set protected" "mr_name q \<noteq> newestName t s"
  shows "trimKey r \<le> trimKey q"
proof -
  let ?c = "mediaTrimCandidates t s"
  let ?p = "if newestName t s \<noteq> '''' then newestName t s # protected else protected"
  let ?e = "enforceLimitLocked cfg t protected s"
  have "?e \<noteq> s" using assms(2,3) by auto
  then have e: "?e = trimLoop t ?p (lowWatermark (limitBytes cfg t)) ?c (usageBytes t s) s"
    by (auto simp: enforceLimitLocked_def Let_def split: if_splits)
  obtain k where k: "?e = evictAll t (filter (\<lambda>r. mr_name r \<notin> set ?p) (take k ?c)) s" unfolding e using trim_all by blast
  let ?ev = "filter (\<lambda>r. mr_name r \<notin> set ?p) (take k ?c)"
  have q: "q \<in> set (typeRows t s)" "mr_name q \<notin> mr_name ` set ?ev" using assms(4) unfolding k evictAll_rows by simp_all
  have "mr_name q \<notin> set ?p" using assms(5,6) by simp
  then have "q \<notin> set (take k ?c)" using q(2) by auto
  moreover have "q \<in> set ?c" using q(1) by (simp add: mediaTrimCandidates_def)
  ultimately have later: "q \<in> set (drop k ?c)" by (metis Un_iff append_take_drop_id set_append)
  have sorted: "sorted (map trimKey (take k ?c) @ map trimKey (drop k ?c))"
    using sorted_sort_key [of trimKey "typeRows t s"] unfolding mediaTrimCandidates_def map_append [symmetric] append_take_drop_id .
  have "mr_name r \<in> mr_name ` set ?ev" using assms(2,3) unfolding k evictAll_rows by simp
  then obtain x where x: "x \<in> set (take k ?c)" "mr_name x = mr_name r" by auto
  have "trimKey x \<le> trimKey q" using sorted x(1) later by (auto simp: sorted_append)
  moreover have "x \<in> set (typeRows t s)" using x(1) in_set_takeD by (fastforce simp: mediaTrimCandidates_def)
  then have "x = r" using x(2) assms(2) names_distinct [OF assms(1)] by (auto simp: distinct_map inj_on_def)
  ultimately show ?thesis by simp
qed

theorem media_oldest_first_witness:
  "trimKey \<lparr>mr_type = MediaTypeImage, mr_name = ''a'', mr_size = 900000, mr_created = 1, mr_updated = 1\<rparr> \<le>
   trimKey \<lparr>mr_type = MediaTypeImage, mr_name = ''b'', mr_size = 100000, mr_created = 2, mr_updated = 2\<rparr>"
proof -
  let ?a = "\<lparr>mr_type = MediaTypeImage, mr_name = ''a'', mr_size = 900000, mr_created = 1, mr_updated = 1\<rparr>"
  let ?b = "\<lparr>mr_type = MediaTypeImage, mr_name = ''b'', mr_size = 100000, mr_created = 2, mr_updated = 2\<rparr>"
  let ?c = "\<lparr>mr_type = MediaTypeImage, mr_name = ''c'', mr_size = 100000, mr_created = 3, mr_updated = 3\<rparr>"
  let ?s = "sampleMedia\<lparr>mc_rows := [?a, ?b, ?c], mc_hasIndex := True\<rparr>"
  have rows: "typeRows MediaTypeImage ?s = [?a, ?b, ?c]" by (simp add: typeRows_def)
  have cands: "mediaTrimCandidates MediaTypeImage ?s = [?a, ?b, ?c]"
    unfolding mediaTrimCandidates_def rows by (simp add: trimKey_def)
  have wm: "lowWatermark 1048576 = 629145" by code_simp
  have e: "typeRows MediaTypeImage (enforceLimitLocked (\<lambda>_ _. 1) MediaTypeImage [] ?s) = [?b, ?c]"
    unfolding enforceLimitLocked_def Let_def newestName_def cands
    by (simp add: limitBytes_def usageBytes_def rows wm evict_typeRows isRow_def)
  show ?thesis
    using media_oldest_first [of ?s ?a MediaTypeImage "\<lambda>_ _. 1" "[]" ?b] unfolding e rows
    by (simp add: media_keys_def rowKey_def newestName_def cands)
qed

end
