(* ===== verification/Access.thy ===== *)
theory Access
  imports GoStrings
begin

text \<open>
  Who may call: the keys of the API, of the administration and of the web interface
  (\<open>platform/auth/middleware.go\<close>, \<open>api_key_audit.go\<close>), the limiter of failed attempts
  (\<open>products/web/ratelimit/limiter.go\<close>) and the guards that combine them (\<open>products/web/admin/router.go\<close>,
  \<open>products/web/webui/router.go\<close>). A configured value is text, a list, a truth value, or a number with the text it is printed as.
  SHA-256 is an argument. A guarded request is one step: concurrent requests of one client between \<open>Allow\<close> and \<open>Fail\<close>
  are not modelled.
\<close>

section \<open>Keys\<close>

datatype AuthValue = AuthNil | AuthText string | AuthList "string list" | AuthBool bool | AuthNumber rat string

record AuthSettings =
  as_apiKey :: AuthValue
  as_adminKey :: AuthValue
  as_webuiKey :: AuthValue
  as_webuiEnabled :: AuthValue

text \<open>\<open>fmt.Sprint\<close>; a list is printed in brackets.\<close>

primrec sprintAuth :: "AuthValue \<Rightarrow> string" where
  "sprintAuth AuthNil = ''<nil>''"
| "sprintAuth (AuthText s) = s"
| "sprintAuth (AuthList xs) = ''['' @ concat (List.map2 (@) ('''' # replicate (length xs - 1) '' '') xs) @ '']''"
| "sprintAuth (AuthBool b) = (if b then ''true'' else ''false'')"
| "sprintAuth (AuthNumber r s) = s"

definition compactAuthStrings :: "string list \<Rightarrow> string list" where
  "compactAuthStrings values = filter (\<lambda>item. item \<noteq> '''') (map trimSpace values)"

definition isEmptyAuthValue :: "AuthValue \<Rightarrow> bool" where
  "isEmptyAuthValue v \<longleftrightarrow> v = AuthNil \<or> v = AuthText ''''"

definition GetAPIKeys :: "AuthSettings \<Rightarrow> string list" where
  "GetAPIKeys settings =
    (if isEmptyAuthValue (as_apiKey settings) then []
     else (case as_apiKey settings of
             AuthList typed \<Rightarrow> compactAuthStrings typed
           | raw \<Rightarrow> compactAuthStrings (splitOn (CHR '','') (sprintAuth raw))))"

definition GetAdminKey :: "AuthSettings \<Rightarrow> string" where
  "GetAdminKey settings = (if as_adminKey settings = AuthNil then '''' else sprintAuth (as_adminKey settings))"

definition GetWebUIKey :: "AuthSettings \<Rightarrow> string" where
  "GetWebUIKey settings = (if as_webuiKey settings = AuthNil then '''' else sprintAuth (as_webuiKey settings))"

definition IsWebUIEnabled :: "AuthSettings \<Rightarrow> bool" where
  "IsWebUIEnabled settings =
    (case as_webuiEnabled settings of
       AuthBool b \<Rightarrow> b
     | AuthText s \<Rightarrow> goLower (trimSpace s) \<in> {''1'', ''true'', ''yes'', ''on''}
     | AuthNil \<Rightarrow> False
     | AuthList _ \<Rightarrow> False
     | AuthNumber r _ \<Rightarrow> r \<noteq> 0)"

text \<open>\<open>strings.Cut\<close> at the first space.\<close>

definition ExtractBearer :: "string \<Rightarrow> string option" where
  "ExtractBearer authorization =
    (let scheme = takeWhile (\<lambda>c. c \<noteq> CHR '' '') authorization
     in case drop (length scheme) authorization of
          [] \<Rightarrow> None
        | _ # token \<Rightarrow> if goLower scheme \<noteq> ''bearer'' \<or> token = '''' then None else Some token)"

section \<open>Verification\<close>

definition authHTTPError :: goerr where
  "authHTTPError = ErrOther ''Authentication failed.''"

definition fingerprint :: "(string \<Rightarrow> string) \<Rightarrow> string \<Rightarrow> string" where
  "fingerprint sha256 key = take 12 (sha256 key)"

text \<open>The uses of every key, by its fingerprint.\<close>

type_synonym KeyUse = "(string, int) fmap"

definition incAPIKeyUse :: "string \<Rightarrow> KeyUse \<Rightarrow> KeyUse" where
  "incAPIKeyUse fp uses = fmupd fp ((case fmlookup uses fp of None \<Rightarrow> 0 | Some n \<Rightarrow> n) + 1) uses"

definition MatchAPIKey :: "(string \<Rightarrow> string) \<Rightarrow> string \<Rightarrow> string list \<Rightarrow> KeyUse \<Rightarrow> (string \<times> int) option \<times> KeyUse" where
  "MatchAPIKey sha256 token allowed uses =
    (case filter (\<lambda>(i, key). token = key) (List.enumerate 0 allowed) of
       [] \<Rightarrow> (None, uses)
     | (i, key) # _ \<Rightarrow> (Some (fingerprint sha256 key, int i), incAPIKeyUse (fingerprint sha256 key) uses))"

definition VerifyAPIKey :: "(string \<Rightarrow> string) \<Rightarrow> string \<Rightarrow> string \<Rightarrow> AuthSettings \<Rightarrow> KeyUse \<Rightarrow> goerr option \<times> KeyUse" where
  "VerifyAPIKey sha256 authorization xAPIKey settings uses =
    (let allowed = GetAPIKeys settings
     in if allowed = [] then (None, uses)
        else (let token = (case ExtractBearer authorization of Some t \<Rightarrow> t | None \<Rightarrow> xAPIKey)
              in if token = '''' then (Some authHTTPError, uses)
                 else (case MatchAPIKey sha256 token allowed uses of
                         (Some _, uses) \<Rightarrow> (None, uses)
                       | (None, uses) \<Rightarrow> (Some authHTTPError, uses))))"

definition VerifyAdminKey :: "string \<Rightarrow> string \<Rightarrow> AuthSettings \<Rightarrow> goerr option" where
  "VerifyAdminKey authorization appKey settings =
    (let key = GetAdminKey settings; token = (case ExtractBearer authorization of Some t \<Rightarrow> t | None \<Rightarrow> appKey)
     in if key = '''' then Some authHTTPError
        else if token = '''' then Some authHTTPError
        else if token \<noteq> key then Some authHTTPError
        else None)"

definition VerifyWebUIKey :: "string \<Rightarrow> AuthSettings \<Rightarrow> goerr option" where
  "VerifyWebUIKey authorization settings =
    (let key = GetWebUIKey settings
     in if key = '''' then (if IsWebUIEnabled settings then None else Some authHTTPError)
        else (case ExtractBearer authorization of
                None \<Rightarrow> Some authHTTPError
              | Some token \<Rightarrow> if token = '''' \<or> token \<noteq> key then Some authHTTPError else None))"

section \<open>The limiter\<close>

record AuthFailure =
  af_count :: int
  af_until :: "int option"

record Limiter =
  li_failures :: "(string, AuthFailure) fmap"
  li_threshold :: int
  li_cooldown :: int

definition NewLimiter :: "int \<Rightarrow> int \<Rightarrow> Limiter" where
  "NewLimiter threshold cooldown =
    \<lparr>li_failures = fmempty, li_threshold = (if threshold \<le> 0 then 5 else threshold),
     li_cooldown = (if cooldown \<le> 0 then 60000000000 else cooldown)\<rparr>"

definition failureAt :: "string \<Rightarrow> Limiter \<Rightarrow> AuthFailure" where
  "failureAt key l = (case fmlookup (li_failures l) key of None \<Rightarrow> \<lparr>af_count = 0, af_until = None\<rparr> | Some f \<Rightarrow> f)"

definition AllowKey :: "int \<Rightarrow> string \<Rightarrow> Limiter \<Rightarrow> bool \<times> Limiter" where
  "AllowKey now key l =
    (case af_until (failureAt key l) of
       None \<Rightarrow> (True, l)
     | Some until \<Rightarrow>
         if \<not> now < until then (True, l\<lparr>li_failures := fmdrop key (li_failures l)\<rparr>) else (False, l))"

definition FailKey :: "int \<Rightarrow> string \<Rightarrow> Limiter \<Rightarrow> Limiter" where
  "FailKey now key l =
    (let item = failureAt key l; item = item\<lparr>af_count := af_count item + 1\<rparr>;
         item = (if af_count item \<ge> li_threshold l then item\<lparr>af_until := Some (now + li_cooldown l)\<rparr> else item)
     in l\<lparr>li_failures := fmupd key item (li_failures l)\<rparr>)"

definition SuccessKey :: "string \<Rightarrow> Limiter \<Rightarrow> Limiter" where
  "SuccessKey key l = l\<lparr>li_failures := fmdrop key (li_failures l)\<rparr>"

section \<open>The guards\<close>

text \<open>\<open>net.SplitHostPort\<close>, the host or nothing on an error.\<close>

definition lastColon :: "string \<Rightarrow> nat option" where
  "lastColon s = (let w = takeWhile (\<lambda>c. c \<noteq> CHR '':'') (rev s) in if length w < length s then Some (length s - 1 - length w) else None)"

definition splitHost :: "string \<Rightarrow> string option" where
  "splitHost hp =
    (case lastColon hp of
       None \<Rightarrow> None
     | Some i \<Rightarrow>
         if hp ! 0 = CHR ''['' then
           (let e = length (takeWhile (\<lambda>c. c \<noteq> CHR '']'') hp)
            in if e = length hp \<or> e + 1 \<noteq> i then None
               else if CHR ''['' \<in> set (drop 1 hp) \<or> CHR '']'' \<in> set (drop (e + 1) hp) then None
               else Some (drop 1 (take e hp)))
         else if CHR '':'' \<in> set (take i hp) \<or> CHR ''['' \<in> set hp \<or> CHR '']'' \<in> set hp then None
         else Some (take i hp))"

definition authRateLimitKey :: "string \<Rightarrow> string" where
  "authRateLimitKey remoteAddr =
    (case splitHost remoteAddr of Some host \<Rightarrow> if host \<noteq> '''' then host else remoteAddr | None \<Rightarrow> remoteAddr)"

record GuardRequest =
  gq_method :: string
  gq_path :: string
  gq_authorization :: string
  gq_appKey :: string
  gq_remoteAddr :: string

datatype GuardOutcome = GuardServed | GuardUnauthorized | GuardTooMany | GuardMethod

definition hasSuffixStr :: "string \<Rightarrow> string \<Rightarrow> bool" where
  "hasSuffixStr s p \<longleftrightarrow> length p \<le> length s \<and> drop (length s - length p) s = p"

definition adminBatchStreamQueryAuth :: "GuardRequest \<Rightarrow> bool" where
  "adminBatchStreamQueryAuth r \<longleftrightarrow>
    gq_method r = ''GET'' \<and> hasPrefix (gq_path r) ''/admin/api/batch/'' \<and> hasSuffixStr (gq_path r) ''/stream''"

text \<open>\<open>methods\<close> are those the route has handlers for; \<open>GuardServed\<close> stands for the call of the handler.\<close>

definition adminProtectedAny :: "AuthSettings \<Rightarrow> string list \<Rightarrow> int \<Rightarrow> GuardRequest \<Rightarrow> Limiter \<Rightarrow> GuardOutcome \<times> Limiter" where
  "adminProtectedAny settings methods now r l =
    (if gq_method r \<notin> set methods then (GuardMethod, l)
     else let queryAppKey = trimSpace (gq_appKey r); key = authRateLimitKey (gq_remoteAddr r)
          in if queryAppKey \<noteq> '''' \<and> adminBatchStreamQueryAuth r then (GuardUnauthorized, l)
             else (case AllowKey now key l of
                     (False, l) \<Rightarrow> (GuardTooMany, l)
                   | (True, l) \<Rightarrow>
                       (case VerifyAdminKey (gq_authorization r) queryAppKey settings of
                          Some _ \<Rightarrow> (GuardUnauthorized, FailKey now key l)
                        | None \<Rightarrow> (GuardServed, SuccessKey key l))))"

definition webUIProtectedWithAuth :: "AuthSettings \<Rightarrow> string \<Rightarrow> int \<Rightarrow> GuardRequest \<Rightarrow> Limiter \<Rightarrow> GuardOutcome \<times> Limiter" where
  "webUIProtectedWithAuth settings verb now r l =
    (if gq_method r \<noteq> verb then (GuardMethod, l)
     else let key = authRateLimitKey (gq_remoteAddr r)
          in case AllowKey now key l of
               (False, l) \<Rightarrow> (GuardTooMany, l)
             | (True, l) \<Rightarrow>
                 (case VerifyWebUIKey (gq_authorization r) settings of
                    Some _ \<Rightarrow> (GuardUnauthorized, FailKey now key l)
                  | None \<Rightarrow> (GuardServed, SuccessKey key l)))"

end
