(* ===== verification/AccessProps.thy ===== *)
theory AccessProps
  imports Access
begin

text \<open>
  What the guards promise: a handler runs only for a request with the configured key whose client is not blocked, and a
  client without the key gets at most \<open>threshold\<close> attempts in any stretch of time shorter than the cooldown. The
  contract that both guards share is the locale \<open>login_guard\<close>.
\<close>

definition clientKey :: "GuardRequest \<Rightarrow> string" where
  "clientKey r = authRateLimitKey (gq_remoteAddr r)"

text \<open>The times at which the credential of client \<open>k\<close> is looked at.\<close>

fun loginGuesses :: "(int \<Rightarrow> GuardRequest \<Rightarrow> Limiter \<Rightarrow> GuardOutcome \<times> Limiter) \<Rightarrow> (GuardRequest \<Rightarrow> bool) \<Rightarrow> string \<Rightarrow>
    (int \<times> GuardRequest) list \<Rightarrow> Limiter \<Rightarrow> int list" where
  "loginGuesses handle skips k [] l = []"
| "loginGuesses handle skips k ((now, r) # rs) l =
    (let (outcome, l') = handle now r l
     in (if clientKey r = k \<and> \<not> skips r \<and> outcome \<noteq> GuardTooMany then [now] else []) @ loginGuesses handle skips k rs l')"

section \<open>The limiter\<close>

lemma allow_frame: "k \<noteq> key \<Longrightarrow> fmlookup (li_failures (snd (AllowKey now key l))) k = fmlookup (li_failures l) k"
  by (simp add: AllowKey_def split: option.split)

lemma fail_frame: "k \<noteq> key \<Longrightarrow> fmlookup (li_failures (FailKey now key l)) k = fmlookup (li_failures l) k"
  by (simp add: FailKey_def Let_def)

lemma login_frame: "k \<noteq> key \<Longrightarrow> fmlookup (li_failures (SuccessKey key l)) k = fmlookup (li_failures l) k"
  by (simp add: SuccessKey_def)

lemma limiter_config [simp]:
  "li_threshold (snd (AllowKey now key l)) = li_threshold l" "li_cooldown (snd (AllowKey now key l)) = li_cooldown l"
  "li_threshold (FailKey now key l) = li_threshold l" "li_cooldown (FailKey now key l) = li_cooldown l"
  "li_threshold (SuccessKey key l) = li_threshold l" "li_cooldown (SuccessKey key l) = li_cooldown l"
  by (simp_all add: AllowKey_def FailKey_def SuccessKey_def Let_def split: option.split)

text \<open>The attempts made so far and what the limiter knows of them: bursts of \<open>n\<close> attempts, a cooldown between two.\<close>

definition spaced :: "int \<Rightarrow> nat \<Rightarrow> int list \<Rightarrow> bool" where
  "spaced cooldown n gs \<longleftrightarrow> (\<forall>b. 0 < b \<longrightarrow> b < length gs \<longrightarrow> n dvd b \<longrightarrow> gs ! (b - 1) + cooldown \<le> gs ! b)"

definition burst_state :: "int \<Rightarrow> nat \<Rightarrow> int list \<Rightarrow> AuthFailure option \<Rightarrow> bool" where
  "burst_state cooldown n gs entry =
    (case entry of
       None \<Rightarrow> gs = []
     | Some f \<Rightarrow>
         (case af_until f of
            None \<Rightarrow> 0 < af_count f \<and> af_count f = int (length gs mod n)
          | Some u \<Rightarrow> gs \<noteq> [] \<and> n dvd length gs \<and> u = last gs + cooldown))"

lemma spaced_snoc: "spaced c n gs \<Longrightarrow> (gs \<noteq> [] \<Longrightarrow> n dvd length gs \<Longrightarrow> last gs + c \<le> t) \<Longrightarrow> spaced c n (gs @ [t])"
  by (auto simp: spaced_def nth_append last_conv_nth less_Suc_eq)

lemma mod_suc: "0 < n \<Longrightarrow> Suc m mod n = (if Suc (m mod n) = n then 0 else Suc (m mod n))" for n :: nat
  by (simp add: mod_Suc)

text \<open>One failed attempt.\<close>

lemma burst_step:
  assumes thr: "li_threshold l = int n" "0 < n" "li_cooldown l = c"
    and st: "burst_state c n gs (fmlookup (li_failures l) key)" "spaced c n gs" and ok: "fst (AllowKey now key l)"
  shows "burst_state c n (gs @ [now]) (fmlookup (li_failures (FailKey now key (snd (AllowKey now key l)))) key) \<and> spaced c n (gs @ [now])"
proof -
  let ?l = "snd (AllowKey now key l)"
  have first: "burst_state c n (gs @ [now]) (fmlookup (li_failures (FailKey now key ?l)) key)"
    if "fmlookup (li_failures ?l) key = None" "n dvd length gs"
  proof (cases "n = 1")
    case True
    then show ?thesis using that thr by (simp add: FailKey_def failureAt_def Let_def burst_state_def)
  next
    case False
    then have "Suc (length gs) mod n = 1" using that(2) thr(2) by (simp add: mod_Suc dvd_eq_mod_eq_0)
    then show ?thesis using that thr False by (simp add: FailKey_def failureAt_def Let_def burst_state_def)
  qed
  show ?thesis
  proof (cases "fmlookup (li_failures l) key")
    case None
    then have "gs = []" "fmlookup (li_failures ?l) key = None" using st(1) by (simp_all add: burst_state_def AllowKey_def failureAt_def)
    then show ?thesis using first by (simp add: spaced_def)
  next
    case (Some f)
    show ?thesis
    proof (cases "af_until f")
      case None
      then have f: "0 < af_count f" "af_count f = int (length gs mod n)" and l: "?l = l"
        using st(1) Some by (simp_all add: burst_state_def AllowKey_def failureAt_def)
      then have nd: "\<not> n dvd length gs" by (simp add: dvd_eq_mod_eq_0)
      have lt: "length gs mod n < n" using thr(2) by simp
      have "burst_state c n (gs @ [now]) (fmlookup (li_failures (FailKey now key l)) key)"
      proof (cases "Suc (length gs mod n) = n")
        case True
        then have "n dvd Suc (length gs)" using mod_suc [OF thr(2), of "length gs"] by (simp add: dvd_eq_mod_eq_0)
        then show ?thesis using f thr Some None True by (simp add: FailKey_def failureAt_def Let_def burst_state_def)
      next
        case False
        then have "Suc (length gs) mod n = Suc (length gs mod n)" using mod_suc [OF thr(2), of "length gs"] by simp
        then show ?thesis using f thr Some None False lt by (simp add: FailKey_def failureAt_def Let_def burst_state_def)
      qed
      moreover have "spaced c n (gs @ [now])" using spaced_snoc [OF st(2), of now] nd by blast
      ultimately show ?thesis using l by simp
    next
      case u: (Some u)
      then have g: "gs \<noteq> []" "n dvd length gs" "u = last gs + c" using st(1) Some by (simp_all add: burst_state_def)
      have "\<not> now < u" "?l = l\<lparr>li_failures := fmdrop key (li_failures l)\<rparr>"
        using ok Some u by (auto simp: AllowKey_def failureAt_def split: if_splits)
      moreover have "spaced c n (gs @ [now])" using spaced_snoc [OF st(2), of now] g \<open>\<not> now < u\<close> by simp
      ultimately show ?thesis using g first by simp
    qed
  qed
qed

text \<open>In a list of attempts with a cooldown between two bursts, the one that follows \<open>n\<close> later is a cooldown later.\<close>

lemma spaced_window:
  assumes "spaced c n gs" "sorted gs" "0 < n" "i + n < length gs"
  shows "gs ! i + c \<le> gs ! (i + n)"
proof -
  define b where "b = (i div n + 1) * n"
  have b: "i < b" "b \<le> i + n" "n dvd b" using assms(3) by (simp_all add: b_def dividend_less_div_times)
  have "gs ! (b - 1) + c \<le> gs ! b" using assms(1,4) b unfolding spaced_def by auto
  moreover have "gs ! i \<le> gs ! (b - 1)" using b assms(2,4) by (intro sorted_nth_mono) auto
  moreover have "gs ! b \<le> gs ! (i + n)" using b assms(2,4) by (intro sorted_nth_mono) auto
  ultimately show ?thesis by linarith
qed

section \<open>The contract of a guard\<close>

locale login_guard =
  fixes handle :: "int \<Rightarrow> GuardRequest \<Rightarrow> Limiter \<Rightarrow> GuardOutcome \<times> Limiter"
    and skips :: "GuardRequest \<Rightarrow> bool" and accepts :: "GuardRequest \<Rightarrow> bool"
  assumes skipped: "skips r \<Longrightarrow> snd (handle now r l) = l \<and> fst (handle now r l) \<noteq> GuardServed"
    and checked: "\<not> skips r \<Longrightarrow> handle now r l =
      (if \<not> fst (AllowKey now (clientKey r) l) then (GuardTooMany, l)
       else if accepts r then (GuardServed, SuccessKey (clientKey r) (snd (AllowKey now (clientKey r) l)))
       else (GuardUnauthorized, FailKey now (clientKey r) (snd (AllowKey now (clientKey r) l))))"
begin

lemma served: "fst (handle now r l) = GuardServed \<longleftrightarrow> \<not> skips r \<and> fst (AllowKey now (clientKey r) l) \<and> accepts r"
  using skipped [of r now l] checked [of r now l] by (cases "skips r") simp_all

lemma config: "li_threshold (snd (handle now r l)) = li_threshold l \<and> li_cooldown (snd (handle now r l)) = li_cooldown l"
  using skipped [of r now l] checked [of r now l] by (cases "skips r") simp_all

lemma other_client: "clientKey r \<noteq> k \<Longrightarrow> fmlookup (li_failures (snd (handle now r l))) k = fmlookup (li_failures l) k"
  using skipped [of r now l] checked [of r now l] by (cases "skips r") (simp_all add: allow_frame fail_frame login_frame)

lemma guesses_spaced:
  assumes "li_threshold l = int n" "0 < n" "li_cooldown l = c"
    and "\<forall>(t, r) \<in> set rs. clientKey r = k \<longrightarrow> \<not> accepts r"
    and "burst_state c n gs (fmlookup (li_failures l) k)" "spaced c n gs"
    and "sorted (gs @ map fst rs)"
  shows "spaced c n (gs @ loginGuesses handle skips k rs l) \<and> sorted (gs @ loginGuesses handle skips k rs l)"
  using assms
proof (induction rs arbitrary: gs l)
  case (Cons p rs)
  obtain t r where p: "p = (t, r)" by (cases p)
  obtain oc l1 where h: "handle t r l = (oc, l1)" by (cases "handle t r l")
  have conf: "li_threshold l1 = int n" "li_cooldown l1 = c" using config [of t r l] h Cons.prems(1,3) by simp_all
  have wrong: "\<forall>(t, r) \<in> set rs. clientKey r = k \<longrightarrow> \<not> accepts r" using Cons.prems(4) by auto
  have sort: "sorted (gs @ map fst rs)" "sorted ((gs @ [t]) @ map fst rs)" using Cons.prems(7) p by (auto simp: sorted_append)
  have quiet: ?case if "fmlookup (li_failures l1) k = fmlookup (li_failures l) k"
      "\<not> (clientKey r = k \<and> \<not> skips r \<and> oc \<noteq> GuardTooMany)"
  proof -
    have "loginGuesses handle skips k (p # rs) l = loginGuesses handle skips k rs l1" using h p that(2) by auto
    then show ?thesis using Cons.IH [of l1 gs] conf wrong sort(1) Cons.prems(2,5,6) that(1) by simp
  qed
  show ?case
  proof (cases "clientKey r = k \<and> \<not> skips r \<and> oc \<noteq> GuardTooMany")
    case True
    then have a: "fst (AllowKey t k l)" "l1 = FailKey t k (snd (AllowKey t k l))"
      using checked [of r t l] h Cons.prems(4) p by (auto split: if_splits)
    have "burst_state c n (gs @ [t]) (fmlookup (li_failures l1) k)" "spaced c n (gs @ [t])"
      using burst_step [OF Cons.prems(1,2,3,5,6) a(1)] a(2) by simp_all
    then have "spaced c n ((gs @ [t]) @ loginGuesses handle skips k rs l1) \<and> sorted ((gs @ [t]) @ loginGuesses handle skips k rs l1)"
      using Cons.IH [of l1 "gs @ [t]"] conf wrong sort(2) Cons.prems(2) by simp
    then show ?thesis using h p True by simp
  next
    case False
    show ?thesis
    proof (rule quiet [OF _ False])
      show "fmlookup (li_failures l1) k = fmlookup (li_failures l) k"
      proof (cases "clientKey r = k")
        case True
        then have "skips r \<or> oc = GuardTooMany" using False by blast
        then have "l1 = l" using skipped [of r t l] checked [of r t l] h by (cases "skips r") (auto split: if_splits)
        then show ?thesis by simp
      next
        case other: False
        then show ?thesis using other_client [of r k t l] h by simp
      qed
    qed
  qed
qed (simp add: sorted_append)

lemma guess_rate:
  assumes "li_threshold l = int n" "0 < n" "fmlookup (li_failures l) k = None"
    and "\<forall>(t, r) \<in> set rs. clientKey r = k \<longrightarrow> \<not> accepts r" "sorted (map fst rs)"
    and "i + n < length (loginGuesses handle skips k rs l)"
  shows "loginGuesses handle skips k rs l ! i + li_cooldown l \<le> loginGuesses handle skips k rs l ! (i + n)"
proof -
  have "spaced (li_cooldown l) n ([] @ loginGuesses handle skips k rs l) \<and> sorted ([] @ loginGuesses handle skips k rs l)"
    by (rule guesses_spaced [OF assms(1,2) refl assms(4)]) (use assms(3,5) in \<open>simp_all add: burst_state_def spaced_def\<close>)
  then show ?thesis using spaced_window [OF _ _ assms(2,6)] by simp
qed

end

section \<open>The two guards\<close>

definition presentedKey :: "GuardRequest \<Rightarrow> string" where
  "presentedKey r = (case ExtractBearer (gq_authorization r) of Some t \<Rightarrow> t | None \<Rightarrow> trimSpace (gq_appKey r))"

definition adminSkips :: "string list \<Rightarrow> GuardRequest \<Rightarrow> bool" where
  "adminSkips methods r \<longleftrightarrow> gq_method r \<notin> set methods \<or> trimSpace (gq_appKey r) \<noteq> '''' \<and> adminBatchStreamQueryAuth r"

definition adminAccepts :: "AuthSettings \<Rightarrow> GuardRequest \<Rightarrow> bool" where
  "adminAccepts settings r \<longleftrightarrow> GetAdminKey settings \<noteq> '''' \<and> presentedKey r = GetAdminKey settings"

definition webuiAccepts :: "AuthSettings \<Rightarrow> GuardRequest \<Rightarrow> bool" where
  "webuiAccepts settings r \<longleftrightarrow>
    (if GetWebUIKey settings = '''' then IsWebUIEnabled settings else ExtractBearer (gq_authorization r) = Some (GetWebUIKey settings))"

lemma verify_admin: "VerifyAdminKey (gq_authorization r) (trimSpace (gq_appKey r)) settings = None \<longleftrightarrow> adminAccepts settings r"
  by (auto simp: VerifyAdminKey_def adminAccepts_def presentedKey_def Let_def)

lemma verify_webui: "VerifyWebUIKey (gq_authorization r) settings = None \<longleftrightarrow> webuiAccepts settings r"
  by (auto simp: VerifyWebUIKey_def webuiAccepts_def Let_def split: option.split)

interpretation admin: login_guard "adminProtectedAny settings methods" "adminSkips methods" "adminAccepts settings"
  for settings methods
proof
  fix r now l
  show "adminSkips methods r \<Longrightarrow> snd (adminProtectedAny settings methods now r l) = l \<and> fst (adminProtectedAny settings methods now r l) \<noteq> GuardServed"
    by (auto simp: adminSkips_def adminProtectedAny_def Let_def)
  assume "\<not> adminSkips methods r"
  then show "adminProtectedAny settings methods now r l =
      (if \<not> fst (AllowKey now (clientKey r) l) then (GuardTooMany, l)
       else if adminAccepts settings r then (GuardServed, SuccessKey (clientKey r) (snd (AllowKey now (clientKey r) l)))
       else (GuardUnauthorized, FailKey now (clientKey r) (snd (AllowKey now (clientKey r) l))))"
    using verify_admin [of r settings]
    by (auto simp: adminSkips_def adminProtectedAny_def Let_def clientKey_def AllowKey_def split: option.split)
qed

interpretation webui: login_guard "webUIProtectedWithAuth settings verb" "\<lambda>r. gq_method r \<noteq> verb" "webuiAccepts settings"
  for settings verb
proof
  fix r now l
  show "gq_method r \<noteq> verb \<Longrightarrow> snd (webUIProtectedWithAuth settings verb now r l) = l \<and> fst (webUIProtectedWithAuth settings verb now r l) \<noteq> GuardServed"
    by (simp add: webUIProtectedWithAuth_def)
  assume "\<not> gq_method r \<noteq> verb"
  then show "webUIProtectedWithAuth settings verb now r l =
      (if \<not> fst (AllowKey now (clientKey r) l) then (GuardTooMany, l)
       else if webuiAccepts settings r then (GuardServed, SuccessKey (clientKey r) (snd (AllowKey now (clientKey r) l)))
       else (GuardUnauthorized, FailKey now (clientKey r) (snd (AllowKey now (clientKey r) l))))"
    using verify_webui [of r settings]
    by (auto simp: webUIProtectedWithAuth_def Let_def clientKey_def AllowKey_def split: option.split)
qed

text \<open>An administration handler runs exactly when the route has the method, the key does not come in the query of a
  batch stream, the client is not blocked, and the presented key is the configured one, which is not empty.\<close>

theorem admin_guard:
  "fst (adminProtectedAny settings methods now r l) = GuardServed \<longleftrightarrow>
    gq_method r \<in> set methods \<and> \<not> (trimSpace (gq_appKey r) \<noteq> '''' \<and> adminBatchStreamQueryAuth r) \<and>
    fst (AllowKey now (clientKey r) l) \<and> GetAdminKey settings \<noteq> '''' \<and> presentedKey r = GetAdminKey settings"
  unfolding admin.served by (auto simp: adminSkips_def adminAccepts_def)


definition sampleSettings :: AuthSettings where
  "sampleSettings = \<lparr>as_apiKey = AuthText '','', as_adminKey = AuthText ''secret'', as_webuiKey = AuthNil, as_webuiEnabled = AuthBool True\<rparr>"

definition sampleGuess :: GuardRequest where
  "sampleGuess = \<lparr>gq_method = ''GET'', gq_path = ''/'', gq_authorization = '''', gq_appKey = '''', gq_remoteAddr = ''h''\<rparr>"

lemma sampleGuess_eval: "clientKey sampleGuess = ''h''" "presentedKey sampleGuess = ''''" "adminSkips [''GET''] sampleGuess = False"
  by (simp_all add: clientKey_def sampleGuess_def authRateLimitKey_def splitHost_def lastColon_def presentedKey_def ExtractBearer_def
      adminSkips_def Let_def)

lemma sampleGuess_step: "adminProtectedAny sampleSettings [''GET''] now sampleGuess l =
  (if fst (AllowKey now ''h'' l) then (GuardUnauthorized, FailKey now ''h'' (snd (AllowKey now ''h'' l))) else (GuardTooMany, l))"
  using admin.checked [of "[''GET'']" sampleGuess sampleSettings now l]
  by (simp add: sampleGuess_eval adminAccepts_def) (simp add: sampleSettings_def GetAdminKey_def)


text \<open>The API takes a request exactly when no key is configured or the presented token is one of the keys.\<close>

theorem api_key_verified:
  "fst (VerifyAPIKey sha256 authorization xAPIKey settings uses) = None \<longleftrightarrow>
    GetAPIKeys settings = [] \<or> (case ExtractBearer authorization of Some t \<Rightarrow> t | None \<Rightarrow> xAPIKey) \<in> set (GetAPIKeys settings)"
proof -
  let ?t = "case ExtractBearer authorization of Some t \<Rightarrow> t | None \<Rightarrow> xAPIKey"
  have ne: "'''' \<notin> set (GetAPIKeys settings)"
    by (auto simp: GetAPIKeys_def compactAuthStrings_def split: AuthValue.splits)
  have "fst (MatchAPIKey sha256 t ks u) = None \<longleftrightarrow> t \<notin> set ks" for t ks u
  proof -
    have s: "set ks = snd ` set (List.enumerate 0 ks)" by (metis list.set_map map_snd_enumerate)
    have "filter (\<lambda>(i, key). t = key) (List.enumerate 0 ks) = [] \<longleftrightarrow> t \<notin> set ks"
      unfolding s by (force simp: filter_empty_conv)
    then show ?thesis by (cases "filter (\<lambda>(i, key). t = key) (List.enumerate 0 ks)") (auto simp: MatchAPIKey_def split: prod.split)
  qed
  then have m: "fst (MatchAPIKey sha256 ?t (GetAPIKeys settings) uses) = None \<longleftrightarrow> ?t \<notin> set (GetAPIKeys settings)" by blast
  obtain hit uses' where h: "MatchAPIKey sha256 ?t (GetAPIKeys settings) uses = (hit, uses')" by (metis prod.exhaust)
  have "fst (VerifyAPIKey sha256 authorization xAPIKey settings uses) = None \<longleftrightarrow>
      GetAPIKeys settings = [] \<or> ?t \<noteq> '''' \<and> hit \<noteq> None"
    unfolding VerifyAPIKey_def Let_def h by (cases hit) simp_all
  then show ?thesis using m h ne by auto
qed

text \<open>A configured text without a key between its commas leaves the API open.\<close>

theorem blank_keys_open: "fst (VerifyAPIKey sha256 '''' '''' sampleSettings uses) = None"
  by (simp add: VerifyAPIKey_def GetAPIKeys_def sampleSettings_def isEmptyAuthValue_def compactAuthStrings_def)

end
