(* ===== verification/ReplayStore.thy ===== *)
theory ReplayStore
  imports GoStrings "HOL-Library.List_Lexorder" "HOL-Library.Char_ord"
begin

text \<open>
  The store of replayable reasoning items (\<open>dataplane/build/reasoningreplay/store.go\<close>): a map of bounded size whose
  entries expire, with a sliding time to live, and which evicts the entries stored longest ago. An entry is keyed by
  model and session. Go runs through a map in any order and \<open>sort.Slice\<close> is not stable: \<open>order\<close> is the
  order of the candidates before a stable sort. Clocks are arguments.
\<close>

record ReplayEntry =
  re_items :: "string list"
  re_expiresAt :: int
  re_storedAt :: int

record MemoryStore =
  me_maxSize :: int
  me_evictBatch :: int
  me_values :: "(string, ReplayEntry) fmap"
  me_ttlSlide :: bool

definition NewMemoryStore :: "int \<Rightarrow> MemoryStore" where
  "NewMemoryStore maxSize =
    (let maxSize = (if maxSize < 1 then 10240 else maxSize); batch = truncDiv maxSize 80;
         batch = (if batch < 1 then 1 else batch); batch = (if batch > 128 then 128 else batch)
     in \<lparr>me_maxSize = maxSize, me_evictBatch = batch, me_values = fmempty, me_ttlSlide = True\<rparr>)"

definition reasoningReplayMapKey :: "string \<Rightarrow> string \<Rightarrow> string" where
  "reasoningReplayMapKey model sessionKey = model @ CHR 0x00 # sessionKey"

definition replayHour :: int where
  "replayHour = 3600000000000"

definition replayGet :: "string \<Rightarrow> string \<Rightarrow> int \<Rightarrow> int \<Rightarrow> MemoryStore \<Rightarrow> string list option \<times> MemoryStore" where
  "replayGet model sessionKey now ttl s =
    (if model = '''' \<or> sessionKey = '''' then (None, s)
     else let key = reasoningReplayMapKey model sessionKey
          in case fmlookup (me_values s) key of
               None \<Rightarrow> (None, s)
             | Some entry \<Rightarrow>
                 if \<not> now < re_expiresAt entry then (None, s\<lparr>me_values := fmdrop key (me_values s)\<rparr>)
                 else (Some (re_items entry),
                   if me_ttlSlide s then
                     (let ttl = (if ttl \<le> 0 then (let d = re_expiresAt entry - re_storedAt entry in if d \<le> 0 then replayHour else d) else ttl)
                      in s\<lparr>me_values := fmupd key (entry\<lparr>re_expiresAt := now + ttl, re_storedAt := now\<rparr>) (me_values s)\<rparr>)
                   else s))"

definition entryCount :: "(string, ReplayEntry) fmap \<Rightarrow> int" where
  "entryCount values = int (card (fmdom' values))"

text \<open>The candidates for eviction, oldest first.\<close>

definition evictCandidates :: "(string list \<Rightarrow> string list) \<Rightarrow> (string, ReplayEntry) fmap \<Rightarrow> string list" where
  "evictCandidates order values =
    sort_key (\<lambda>key. case fmlookup values key of None \<Rightarrow> 0 | Some e \<Rightarrow> re_storedAt e) (order (sorted_list_of_fset (fmdom values)))"

definition evictLocked :: "(string list \<Rightarrow> string list) \<Rightarrow> int \<Rightarrow> MemoryStore \<Rightarrow> MemoryStore" where
  "evictLocked order now s =
    (let live = fmfilter (\<lambda>key. case fmlookup (me_values s) key of None \<Rightarrow> False | Some e \<Rightarrow> now < re_expiresAt e) (me_values s);
         s = s\<lparr>me_values := live\<rparr>
     in if entryCount live < me_maxSize s then s
        else (let candidates = evictCandidates order live; count = min (me_evictBatch s) (int (length candidates))
              in s\<lparr>me_values := fmdrop_set (set (take (nat count) candidates)) live\<rparr>))"

text \<open>\<open>expiresAt\<close> is \<open>None\<close> for the zero time.\<close>

definition replaySet :: "(string list \<Rightarrow> string list) \<Rightarrow> int \<Rightarrow> string \<Rightarrow> string \<Rightarrow> string list \<Rightarrow> int option \<Rightarrow> MemoryStore \<Rightarrow> MemoryStore" where
  "replaySet order now model sessionKey items expiresAt s =
    (case expiresAt of
       None \<Rightarrow> s
     | Some e \<Rightarrow>
         if model = '''' \<or> sessionKey = '''' \<or> items = [] then s
         else let key = reasoningReplayMapKey model sessionKey;
                  s = (if fmlookup (me_values s) key = None then evictLocked order now s else s)
              in s\<lparr>me_values := fmupd key \<lparr>re_items = items, re_expiresAt = e, re_storedAt = now\<rparr> (me_values s)\<rparr>)"

definition replayDelete :: "string \<Rightarrow> string \<Rightarrow> MemoryStore \<Rightarrow> MemoryStore" where
  "replayDelete model sessionKey s =
    (if model = '''' \<or> sessionKey = '''' then s
     else s\<lparr>me_values := fmdrop (reasoningReplayMapKey model sessionKey) (me_values s)\<rparr>)"

section \<open>Properties\<close>

text \<open>What the store relies on: running through a map visits every key once.\<close>

definition visits_all :: "(string list \<Rightarrow> string list) \<Rightarrow> bool" where
  "visits_all order \<longleftrightarrow> (\<forall>ks. set (order ks) = set ks \<and> (distinct ks \<longrightarrow> distinct (order ks)))"

definition replay_bounded :: "MemoryStore \<Rightarrow> bool" where
  "replay_bounded s \<longleftrightarrow> 0 < me_maxSize s \<and> 0 < me_evictBatch s \<and> entryCount (me_values s) \<le> me_maxSize s"

lemma new_bounded: "replay_bounded (NewMemoryStore n)"
  by (auto simp: replay_bounded_def NewMemoryStore_def Let_def entryCount_def)

lemma evictCandidates_set: "visits_all order \<Longrightarrow> set (evictCandidates order m) = fmdom' m \<and> distinct (evictCandidates order m)"
  by (simp add: visits_all_def evictCandidates_def sorted_list_of_fset.rep_eq fmdom'_alt_def)

lemma evictCandidates_length: "visits_all order \<Longrightarrow> length (evictCandidates order m) = card (fmdom' m)"
  using evictCandidates_set [of order m] by (metis distinct_card)

lemma evictLocked_frame [simp]: "me_maxSize (evictLocked order now s) = me_maxSize s"
  "me_evictBatch (evictLocked order now s) = me_evictBatch s" "me_ttlSlide (evictLocked order now s) = me_ttlSlide s"
  by (simp_all add: evictLocked_def Let_def)

lemma evict_room:
  assumes "visits_all order" "replay_bounded s"
  shows "entryCount (me_values (evictLocked order now s)) < me_maxSize s"
proof -
  define live where "live = fmfilter (\<lambda>key. case fmlookup (me_values s) key of None \<Rightarrow> False | Some e \<Rightarrow> now < re_expiresAt e) (me_values s)"
  have "fmdom' live \<subseteq> fmdom' (me_values s)" by (auto simp: live_def)
  then have le: "card (fmdom' live) \<le> card (fmdom' (me_values s))" by (intro card_mono) simp_all
  show ?thesis
  proof (cases "entryCount live < me_maxSize s")
    case True
    then show ?thesis by (simp add: evictLocked_def Let_def live_def)
  next
    case False
    define n where "n = nat (min (me_evictBatch s) (int (length (evictCandidates order live))))"
    let ?gone = "set (take n (evictCandidates order live))"
    have c: "set (evictCandidates order live) = fmdom' live" "distinct (evictCandidates order live)"
      "length (evictCandidates order live) = card (fmdom' live)"
      using evictCandidates_set [OF assms(1)] evictCandidates_length [OF assms(1)] by blast+
    have pos: "0 < n" "n \<le> card (fmdom' live)"
      using False assms(2) c(3) by (auto simp: n_def replay_bounded_def entryCount_def)
    have sub: "?gone \<subseteq> fmdom' live" using c(1) set_take_subset by metis
    have "card ?gone = n" using c pos by (simp add: distinct_card)
    then have "card (fmdom' (fmdrop_set ?gone live)) = card (fmdom' live) - n"
      using sub by (simp add: card_Diff_subset finite_subset)
    moreover have "me_values (evictLocked order now s) = fmdrop_set ?gone live"
      using False by (simp add: evictLocked_def Let_def live_def n_def)
    ultimately show ?thesis using le pos assms(2) by (simp add: entryCount_def replay_bounded_def)
  qed
qed

text \<open>Operations, each with the order in which Go runs through the map.\<close>

datatype ReplayOp =
    RGet string string int int
  | RSet "string list \<Rightarrow> string list" int string string "string list" "int option"
  | RDelete string string

primrec replayStep :: "MemoryStore \<Rightarrow> ReplayOp \<Rightarrow> MemoryStore" where
  "replayStep s (RGet model session now ttl) = snd (replayGet model session now ttl s)"
| "replayStep s (RSet order now model session items expiresAt) = replaySet order now model session items expiresAt s"
| "replayStep s (RDelete model session) = replayDelete model session s"

primrec opVisits :: "ReplayOp \<Rightarrow> bool" where
  "opVisits (RGet model session now ttl) = True"
| "opVisits (RSet order now model session items expiresAt) = visits_all order"
| "opVisits (RDelete model session) = True"

lemma count_upd: "entryCount (fmupd k v m) = (if fmlookup m k = None then entryCount m + 1 else entryCount m)"
  by (auto simp: entryCount_def insert_absorb fmdom'_notI fmdom'I card_insert_if)

lemma count_drop: "entryCount (fmdrop k m) \<le> entryCount m"
  by (simp add: entryCount_def card_mono)

lemma replay_step: "replay_bounded s \<Longrightarrow> opVisits op \<Longrightarrow> replay_bounded (replayStep s op)"
proof (cases op)
  case (RSet order now model session items expiresAt)
  assume b: "replay_bounded s" "opVisits op"
  let ?key = "reasoningReplayMapKey model session"
  have room: "entryCount (me_values (evictLocked order now s)) < me_maxSize s" using evict_room b RSet by simp
  have "replay_bounded (if fmlookup (me_values s) ?key = None then evictLocked order now s else s)" using b room by (simp add: replay_bounded_def)
  then show ?thesis using b room RSet
    by (auto simp: replaySet_def Let_def replay_bounded_def count_upd split: option.split)
next
  case (RGet model session now ttl)
  assume b: "replay_bounded s" "opVisits op"
  then show ?thesis using RGet count_drop [of _ "me_values s"]
    by (auto simp: replayGet_def Let_def replay_bounded_def count_upd split: option.split intro: order_trans)
next
  case (RDelete model session)
  assume b: "replay_bounded s" "opVisits op"
  then show ?thesis using RDelete count_drop [of _ "me_values s"]
    by (auto simp: replayDelete_def replay_bounded_def intro: order_trans)
qed

text \<open>C37. The store never holds more entries than its limit, whatever is read, stored and deleted.\<close>

theorem replay_limit:
  assumes "list_all opVisits ops"
  shows "replay_bounded (foldl replayStep (NewMemoryStore n) ops)"
proof -
  have "replay_bounded s \<Longrightarrow> replay_bounded (foldl replayStep s ops)" for s
    using assms by (induction ops arbitrary: s) (simp_all add: replay_step)
  then show ?thesis using new_bounded by blast
qed

lemma visits_id: "visits_all id" "visits_all rev"
  by (simp_all add: visits_all_def)

theorem replay_limit_witness:
  "replay_bounded (foldl replayStep (NewMemoryStore 1)
     [RSet rev 5 ''m'' ''a'' [''x''] (Some 9), RSet id 6 ''m'' ''b'' [''y''] (Some 9), RGet ''m'' ''b'' 7 3])"
  by (rule replay_limit) (simp add: visits_id)

text \<open>What was stored is there until it expires, and reading it keeps it for another time to live.\<close>

theorem replay_kept:
  assumes "model \<noteq> ''''" "session \<noteq> ''''" "items \<noteq> []" "now < e" "me_ttlSlide s" "0 < ttl" "t < now + ttl"
  shows "fst (replayGet model session t ttl' (snd (replayGet model session now ttl (replaySet order stored model session items (Some e) s)))) =
    Some items"
  using assms by (simp add: replaySet_def replayGet_def Let_def)

theorem replay_kept_witness:
  "fst (replayGet ''m'' ''a'' 14 0 (snd (replayGet ''m'' ''a'' 7 8 (replaySet id 5 ''m'' ''a'' [''x''] (Some 9) (NewMemoryStore 1))))) = Some [''x'']"
  by (rule replay_kept) (simp_all add: NewMemoryStore_def Let_def)

text \<open>Two sessions whose model and key agree when joined share an entry; a model name holds no zero byte.\<close>

lemma replay_keys: "CHR 0x00 \<notin> set m \<Longrightarrow> CHR 0x00 \<notin> set m' \<Longrightarrow> reasoningReplayMapKey m k = reasoningReplayMapKey m' k' \<Longrightarrow> m = m' \<and> k = k'"
proof (induction m arbitrary: m')
  case Nil
  then show ?case by (cases m') (auto simp: reasoningReplayMapKey_def)
next
  case (Cons c m)
  then show ?case by (cases m') (auto simp: reasoningReplayMapKey_def)
qed

end
