(* ===== verification/Pacer.thy ===== *)
theory Pacer
  imports GoStrings
begin

text \<open>
  The pacing of requests to the console models (\<open>products/openai/console_rate_limit.go\<close>) and the tables of those
  models (\<open>dataplane/reverse/protocol/xai_console_models.go\<close>). Each model has a lock and the time from which the
  next request may start. A call is one step under the lock of its model: what it gets from the lock, the clock
  before and under the lock, and the clock after its sleep (or nothing when its context ends) are arguments. Times and
  durations are nanoseconds.
\<close>

section \<open>Models\<close>

definition ConsoleModels :: "(string \<times> string) list" where
  "ConsoleModels =
    [(''grok-4.3-console'', ''grok-4.3''), (''grok-4.3-low'', ''grok-4.3''), (''grok-4.3-medium'', ''grok-4.3''),
     (''grok-4.3-high'', ''grok-4.3''), (''grok-4.20-0309-reasoning-console'', ''grok-4.20-0309-reasoning''),
     (''grok-4.20-0309-console'', ''grok-4.20-0309''),
     (''grok-4.20-0309-non-reasoning-console'', ''grok-4.20-0309-non-reasoning''),
     (''grok-4.20-multi-agent-console'', ''grok-4.20-multi-agent-0309''),
     (''grok-4.20-multi-agent-low'', ''grok-4.20-multi-agent-0309''),
     (''grok-4.20-multi-agent-medium'', ''grok-4.20-multi-agent-0309''),
     (''grok-4.20-multi-agent-high'', ''grok-4.20-multi-agent-0309''),
     (''grok-4.20-multi-agent-xhigh'', ''grok-4.20-multi-agent-0309''), (''grok-build-console'', ''grok-build-0.1'')]"

definition ResolveConsoleModel :: "string \<Rightarrow> string" where
  "ResolveConsoleModel model = (case map_of ConsoleModels model of None \<Rightarrow> model | Some m \<Rightarrow> m)"

definition consoleMultiAgentModel :: string where
  "consoleMultiAgentModel = ''grok-4.20-multi-agent-0309''"

definition ConsoleClientFunctionToolsEnabled :: "string \<Rightarrow> bool" where
  "ConsoleClientFunctionToolsEnabled model \<longleftrightarrow> ResolveConsoleModel model \<noteq> ''grok-4.20-multi-agent-0309''"

section \<open>The queue\<close>

type_synonym PacerQueue = "(string, int option) fmap"

datatype PacerError = PacerBusy | PacerCancelled

datatype PacerLock = LockGranted | LockTimeout | LockCancelled

record PacerCall =
  pc_lock :: PacerLock
  pc_start :: int
  pc_now :: int
  pc_woken :: "int option"

definition pacerNext :: "string \<Rightarrow> PacerQueue \<Rightarrow> int option" where
  "pacerNext model q = (case fmlookup q model of None \<Rightarrow> None | Some t \<Rightarrow> t)"

text \<open>\<open>state.next.Sub(now)\<close>; a model that was never used has the zero time.\<close>

definition pacerDelay :: "int option \<Rightarrow> int \<Rightarrow> int" where
  "pacerDelay next now = (case next of None \<Rightarrow> 0 | Some t \<Rightarrow> t - now)"

definition pacerState :: "string \<Rightarrow> PacerQueue \<Rightarrow> PacerQueue" where
  "pacerState model q = (if fmlookup q model = None then fmupd model None q else q)"

text \<open>The result of a granted call is the time at which it may start.\<close>

definition paceWait :: "string \<Rightarrow> int \<Rightarrow> int \<Rightarrow> PacerCall \<Rightarrow> PacerQueue \<Rightarrow> (PacerError + int option) \<times> PacerQueue" where
  "paceWait model interval maxWait c q =
    (if interval \<le> 0 then (Inr None, q)
     else let q = pacerState model q
          in case pc_lock c of
               LockTimeout \<Rightarrow> (Inl PacerBusy, q)
             | LockCancelled \<Rightarrow> (Inl PacerCancelled, q)
             | LockGranted \<Rightarrow>
                 let delay = pacerDelay (pacerNext model q) (pc_now c)
                 in if delay > 0 then
                      (if maxWait > 0 \<and> delay > maxWait - (pc_now c - pc_start c) then (Inl PacerBusy, q)
                       else (case pc_woken c of
                               None \<Rightarrow> (Inl PacerCancelled, q)
                             | Some t \<Rightarrow> (Inr (Some t), fmupd model (Some (t + interval)) q)))
                    else (Inr (Some (pc_now c)), fmupd model (Some (pc_now c + interval)) q))"

definition paceDelay :: "string \<Rightarrow> int \<Rightarrow> PacerCall \<Rightarrow> PacerQueue \<Rightarrow> (PacerError + unit) \<times> PacerQueue" where
  "paceDelay model delay c q =
    (if delay \<le> 0 then (Inr (), q)
     else let q = pacerState model q
          in case pc_lock c of
               LockTimeout \<Rightarrow> (Inl PacerBusy, q)
             | LockCancelled \<Rightarrow> (Inl PacerCancelled, q)
             | LockGranted \<Rightarrow>
                 let next = pc_now c + delay
                 in (Inr (), case pacerNext model q of
                               None \<Rightarrow> fmupd model (Some next) q
                             | Some t \<Rightarrow> if next > t then fmupd model (Some next) q else q))"

section \<open>Configured intervals\<close>

type_synonym PacerConfig = "string \<Rightarrow> rat \<Rightarrow> rat"

text \<open>\<open>time.Duration(ms * float64(time.Millisecond))\<close>.\<close>

definition msDuration :: "rat \<Rightarrow> int" where
  "msDuration ms = (if ms \<le> 0 then 0 else truncRat (fl (ms * 1000000)))"

definition consoleModelThrottleInterval :: "PacerConfig \<Rightarrow> string \<Rightarrow> int" where
  "consoleModelThrottleInterval cfg model =
    msDuration (if model = consoleMultiAgentModel then cfg ''chat.console_multi_agent_min_interval_ms'' 3000
                else cfg ''chat.console_min_interval_ms'' 0)"

definition consoleModelCooldownInterval :: "PacerConfig \<Rightarrow> string \<Rightarrow> int" where
  "consoleModelCooldownInterval cfg model =
    msDuration (if model = consoleMultiAgentModel then cfg ''chat.console_multi_agent_cooldown_ms'' 60000
                else cfg ''chat.console_cooldown_ms'' 0)"

definition consoleModelMaxQueueWait :: "PacerConfig \<Rightarrow> string \<Rightarrow> int" where
  "consoleModelMaxQueueWait cfg model =
    msDuration (if model = consoleMultiAgentModel then cfg ''chat.console_multi_agent_max_queue_wait_ms'' 15000
                else cfg ''chat.console_max_queue_wait_ms'' 15000)"

definition pacerError :: "PacerError \<Rightarrow> string" where
  "pacerError e = (case e of
     PacerBusy \<Rightarrow> ''Console model local rate limit queue is busy''
   | PacerCancelled \<Rightarrow> ''Console model local rate limit queue canceled'')"

definition waitConsoleModelRateLimit :: "PacerConfig \<Rightarrow> string \<Rightarrow> PacerCall \<Rightarrow> PacerQueue \<Rightarrow> (string + int option) \<times> PacerQueue" where
  "waitConsoleModelRateLimit cfg model c q =
    (let resolved = ResolveConsoleModel model; interval = consoleModelThrottleInterval cfg resolved
     in if interval \<le> 0 then (Inr None, q)
        else (case paceWait resolved interval (consoleModelMaxQueueWait cfg resolved) c q of
                (Inl e, q) \<Rightarrow> (Inl (pacerError e), q)
              | (Inr t, q) \<Rightarrow> (Inr t, q)))"

text \<open>\<open>status\<close> is the status of the error the upstream gave.\<close>

definition cooldownConsoleModelRateLimit :: "PacerConfig \<Rightarrow> string \<Rightarrow> int \<Rightarrow> PacerCall \<Rightarrow> PacerQueue \<Rightarrow> PacerQueue" where
  "cooldownConsoleModelRateLimit cfg model status c q =
    (if status \<noteq> 429 then q
     else let resolved = ResolveConsoleModel model; interval = consoleModelCooldownInterval cfg resolved
          in if interval \<le> 0 then q else snd (paceDelay resolved interval c q))"

section \<open>Spacing\<close>

datatype PacerOp = PWait string PacerCall | PCool string int PacerCall

text \<open>The times at which calls for the upstream model \<open>m\<close> are let through.\<close>

fun pacerStarts :: "PacerConfig \<Rightarrow> string \<Rightarrow> PacerOp list \<Rightarrow> PacerQueue \<Rightarrow> int list" where
  "pacerStarts cfg m [] q = []"
| "pacerStarts cfg m (PWait model c # ops) q =
    (let (r, q') = waitConsoleModelRateLimit cfg model c q
     in (case r of Inr (Some t) \<Rightarrow> if ResolveConsoleModel model = m then [t] else [] | _ \<Rightarrow> []) @ pacerStarts cfg m ops q')"
| "pacerStarts cfg m (PCool model status c # ops) q =
    pacerStarts cfg m ops (cooldownConsoleModelRateLimit cfg model status c q)"

text \<open>A sleep lasts at least as long as it was told to: the clock under the lock plus the delay. \<open>honest\<close> says so of the
  calls of a list, which depends on the state each starts in.\<close>

fun honest :: "PacerConfig \<Rightarrow> PacerOp list \<Rightarrow> PacerQueue \<Rightarrow> bool" where
  "honest cfg [] q = True"
| "honest cfg (PWait model c # ops) q =
    ((case pc_woken c of None \<Rightarrow> True
      | Some t \<Rightarrow> pc_now c + pacerDelay (pacerNext (ResolveConsoleModel model) q) (pc_now c) \<le> t) \<and>
     honest cfg ops (snd (waitConsoleModelRateLimit cfg model c q)))"
| "honest cfg (PCool model status c # ops) q = honest cfg ops (cooldownConsoleModelRateLimit cfg model status c q)"

definition notBefore :: "int option \<Rightarrow> int \<Rightarrow> bool" where
  "notBefore next t \<longleftrightarrow> (case next of None \<Rightarrow> True | Some n \<Rightarrow> n \<le> t)"

lemma next_state [simp]: "pacerNext m (pacerState model q) = pacerNext m q"
  by (simp add: pacerNext_def pacerState_def)

lemma next_upd: "pacerNext m (fmupd model t q) = (if m = model then t else pacerNext m q)"
  by (simp add: pacerNext_def)

text \<open>One call: it lets through no earlier than the model allows, and the model allows the next one an interval later.\<close>

lemma wait_step:
  assumes w: "waitConsoleModelRateLimit cfg model c q = (r, q')" and m: "m = ResolveConsoleModel model"
    and h: "case pc_woken c of None \<Rightarrow> True | Some t \<Rightarrow> pc_now c + pacerDelay (pacerNext m q) (pc_now c) \<le> t"
  shows "case r of Inr (Some t) \<Rightarrow> notBefore (pacerNext m q) t \<and> pacerNext m q' = Some (t + consoleModelThrottleInterval cfg m)
         | _ \<Rightarrow> pacerNext m q' = pacerNext m q"
proof (cases "consoleModelThrottleInterval cfg m \<le> 0")
  case True
  then show ?thesis using w m by (auto simp: waitConsoleModelRateLimit_def Let_def)
next
  case False
  let ?i = "consoleModelThrottleInterval cfg m" and ?d = "pacerDelay (pacerNext m q) (pc_now c)"
  obtain r1 q1 where p: "paceWait m ?i (consoleModelMaxQueueWait cfg m) c q = (r1, q1)" by (metis prod.exhaust)
  have "r = (case r1 of Inl e \<Rightarrow> Inl (pacerError e) | Inr t \<Rightarrow> Inr t)" "q' = q1"
    using w m False p by (auto simp: waitConsoleModelRateLimit_def Let_def split: sum.splits)
  moreover have "case r1 of Inr (Some t) \<Rightarrow> notBefore (pacerNext m q) t \<and> pacerNext m q1 = Some (t + ?i) | _ \<Rightarrow> pacerNext m q1 = pacerNext m q"
  proof (cases "pc_lock c = LockGranted")
    case True
    show ?thesis
    proof (cases "?d > 0")
      case late: True
      then show ?thesis using p False True h
        by (auto simp: paceWait_def Let_def next_upd notBefore_def pacerDelay_def split: if_splits option.splits)
    next
      case early: False
      then show ?thesis using p False True
        by (auto simp: paceWait_def Let_def next_upd notBefore_def pacerDelay_def split: option.splits)
    qed
  next
    case locked: False
    then show ?thesis using p False by (cases "pc_lock c") (auto simp: paceWait_def Let_def)
  qed
  ultimately show ?thesis by (auto split: sum.splits option.splits)
qed

lemma wait_other: "m \<noteq> ResolveConsoleModel model \<Longrightarrow> pacerNext m (snd (waitConsoleModelRateLimit cfg model c q)) = pacerNext m q"
  by (auto simp: waitConsoleModelRateLimit_def paceWait_def Let_def next_upd split: option.splits PacerLock.splits if_splits)

lemma cool_later: "notBefore (pacerNext m (cooldownConsoleModelRateLimit cfg model status c q)) t \<Longrightarrow> notBefore (pacerNext m q) t"
  by (auto simp: cooldownConsoleModelRateLimit_def paceDelay_def Let_def next_upd notBefore_def split: option.splits PacerLock.splits if_splits)

lemma starts_spaced:
  assumes "honest cfg ops q"
  shows "(\<forall>t. pacerStarts cfg m ops q \<noteq> [] \<longrightarrow> t = hd (pacerStarts cfg m ops q) \<longrightarrow> notBefore (pacerNext m q) t) \<and>
    successively (\<lambda>a b. a + consoleModelThrottleInterval cfg m \<le> b) (pacerStarts cfg m ops q)"
  using assms
proof (induction cfg m ops q rule: pacerStarts.induct)
  case (2 cfg m model c ops q)
  obtain r q' where w: "waitConsoleModelRateLimit cfg model c q = (r, q')" by (metis prod.exhaust)
  have IH: "(\<forall>t. pacerStarts cfg m ops q' \<noteq> [] \<longrightarrow> t = hd (pacerStarts cfg m ops q') \<longrightarrow> notBefore (pacerNext m q') t) \<and>
      successively (\<lambda>a b. a + consoleModelThrottleInterval cfg m \<le> b) (pacerStarts cfg m ops q')"
    using "2.IH" [OF w [symmetric] refl] "2.prems" w by simp
  show ?case
  proof (cases "ResolveConsoleModel model = m")
    case True
    have s: "case r of Inr (Some t) \<Rightarrow> notBefore (pacerNext m q) t \<and> pacerNext m q' = Some (t + consoleModelThrottleInterval cfg m)
         | _ \<Rightarrow> pacerNext m q' = pacerNext m q"
    proof (rule wait_step [OF w True [symmetric]])
      show "case pc_woken c of None \<Rightarrow> True | Some t \<Rightarrow> pc_now c + pacerDelay (pacerNext m q) (pc_now c) \<le> t"
        using "2.prems" unfolding honest.simps True by (rule conjunct1)
    qed
    show ?thesis
    proof (cases "\<exists>t. r = Inr (Some t)")
      case granted: True
      then obtain t where t: "r = Inr (Some t)" by blast
      then have "pacerStarts cfg m (PWait model c # ops) q = t # pacerStarts cfg m ops q'" using w True by simp
      then show ?thesis using s t IH by (cases "pacerStarts cfg m ops q'") (auto simp: notBefore_def)
    next
      case False
      then have "pacerStarts cfg m (PWait model c # ops) q = pacerStarts cfg m ops q'" using w by (auto split: sum.splits option.splits)
      moreover have "pacerNext m q' = pacerNext m q" using s False by (auto split: sum.splits option.splits)
      ultimately show ?thesis using IH by simp
    qed
  next
    case False
    then have "pacerStarts cfg m (PWait model c # ops) q = pacerStarts cfg m ops q'" using w by (auto split: sum.splits option.splits)
    moreover have "pacerNext m q' = pacerNext m q" using wait_other [of m model cfg c q] False w by simp
    ultimately show ?thesis using IH by simp
  qed
next
  case (3 cfg m model status c ops q)
  then show ?case using cool_later by simp blast
qed simp

text \<open>C38. The calls let through to an upstream model start at least its interval apart, whatever mixture of waits and
  cooldowns, of this model under any of its names and of others, comes in.\<close>

theorem pacer_spacing:
  assumes "honest cfg ops q"
  shows "successively (\<lambda>a b. a + consoleModelThrottleInterval cfg m \<le> b) (pacerStarts cfg m ops q)"
  using starts_spaced [OF assms] by blast

definition sampleCall :: "int \<Rightarrow> int \<Rightarrow> PacerCall" where
  "sampleCall now woken = \<lparr>pc_lock = LockGranted, pc_start = now, pc_now = now, pc_woken = Some woken\<rparr>"

definition samplePacer :: "PacerOp list" where
  "samplePacer = [PWait ''a'' (sampleCall 10 10), PCool ''a'' 429 (sampleCall 20 20), PWait ''a'' (sampleCall 30 4000030)]"

theorem pacer_spacing_witness:
  "successively (\<lambda>a b. a + 1000000 \<le> b) (pacerStarts (\<lambda>_ _. 1) ''a'' samplePacer fmempty)"
proof -
  have fl1: "fl 1000000 = 1000000" using fl_of_int [of 1000000] by simp
  have i: "consoleModelThrottleInterval (\<lambda>_ _. 1) m = 1000000" "consoleModelCooldownInterval (\<lambda>_ _. 1) m = 1000000"
    "consoleModelMaxQueueWait (\<lambda>_ _. 1) m = 1000000" for m
    by (simp_all add: consoleModelThrottleInterval_def consoleModelCooldownInterval_def consoleModelMaxQueueWait_def msDuration_def
        fl1 truncRat_def)
  have a: "ResolveConsoleModel ''a'' = ''a''" by (simp add: ResolveConsoleModel_def ConsoleModels_def)
  have "honest (\<lambda>_ _. 1) samplePacer fmempty"
    by (simp add: samplePacer_def sampleCall_def a i waitConsoleModelRateLimit_def cooldownConsoleModelRateLimit_def paceWait_def
        paceDelay_def pacerState_def pacerNext_def pacerDelay_def Let_def)
  then show ?thesis using pacer_spacing [of "\<lambda>_ _. 1" samplePacer fmempty "''a''"] by (simp add: i)
qed

end
