(* ===== verification/AsyncTask.thy ===== *)
theory AsyncTask
  imports GoStrings
begin

text \<open>
  Background tasks and their event streams (\<open>platform/runtime/task.go\<close>, \<open>products/web/admin/batch_stream.go\<close>).
  Workers update a task under its lock and publish an event after they released it; a subscriber attaches a channel
  of 200 events, gets a snapshot, and then what is sent to the channel until a final event; a send to a full channel
  drops the event. The system is a labelled step relation: any number of workers (\<open>ty_pubs\<close>) and streams
  (\<open>ty_streams\<close>), each at a point of its code, take turns; what holds the lock is one step. Items, details and
  results are values of a type \<open>'a\<close>. Copies of the task in an external store are not modelled.
\<close>

datatype TaskKind = KindSnapshot | KindProgress | KindDone | KindError | KindCancelled

datatype TaskStatus = TaskRunning | TaskDone | TaskFailed | TaskCancelled

record 'a TaskEvent =
  te_type :: TaskKind
  te_total :: int
  te_processed :: int
  te_ok :: int
  te_fail :: int
  te_item :: "'a option"
  te_detail :: "'a option"
  te_error :: string
  te_warning :: "string option"
  te_result :: "'a option"
  te_status :: "TaskStatus option"

record 'a AsyncTask =
  at_total :: int
  at_processed :: int
  at_ok :: int
  at_fail :: int
  at_status :: TaskStatus
  at_warning :: "string option"
  at_result :: "'a option"
  at_error :: string
  at_cancelled :: bool
  at_queues :: "nat list"
  at_final :: "'a TaskEvent option"

definition NewAsyncTask :: "int \<Rightarrow> 'a AsyncTask" where
  "NewAsyncTask n =
    \<lparr>at_total = n, at_processed = 0, at_ok = 0, at_fail = 0, at_status = TaskRunning, at_warning = None, at_result = None,
     at_error = '''', at_cancelled = False, at_queues = [], at_final = None\<rparr>"

definition baseEvent :: "TaskKind \<Rightarrow> 'a AsyncTask \<Rightarrow> 'a TaskEvent" where
  "baseEvent kind t =
    \<lparr>te_type = kind, te_total = at_total t, te_processed = at_processed t, te_ok = at_ok t, te_fail = at_fail t, te_item = None,
     te_detail = None, te_error = '''', te_warning = None, te_result = None, te_status = None\<rparr>"

section \<open>Operations\<close>

record 'a TaskRecordOptions =
  to_item :: "'a option"
  to_detail :: "'a option"
  to_error :: string
  to_count :: int

text \<open>Each gives the event it publishes and the task it leaves.\<close>

definition recordTask :: "bool \<Rightarrow> 'a TaskRecordOptions \<Rightarrow> 'a AsyncTask \<Rightarrow> 'a TaskEvent \<times> 'a AsyncTask" where
  "recordTask success options t =
    (let delta = max 1 (to_count options); t = t\<lparr>at_processed := at_processed t + delta\<rparr>;
         t = (if success then t\<lparr>at_ok := at_ok t + delta\<rparr> else t\<lparr>at_fail := at_fail t + delta\<rparr>)
     in ((baseEvent KindProgress t)\<lparr>te_item := to_item options, te_detail := to_detail options, te_error := to_error options\<rparr>, t))"

definition finishTask :: "'a option \<Rightarrow> string option \<Rightarrow> 'a AsyncTask \<Rightarrow> 'a TaskEvent \<times> 'a AsyncTask" where
  "finishTask result warning t =
    (let t = t\<lparr>at_status := TaskDone, at_result := result, at_warning := warning\<rparr>;
         event = (baseEvent KindDone t)\<lparr>te_warning := warning, te_result := result\<rparr>
     in (event, t\<lparr>at_final := Some event\<rparr>))"

definition failTask :: "string \<Rightarrow> 'a AsyncTask \<Rightarrow> 'a TaskEvent \<times> 'a AsyncTask" where
  "failTask message t =
    (let t = t\<lparr>at_status := TaskFailed, at_error := message\<rparr>; event = (baseEvent KindError t)\<lparr>te_error := message\<rparr>
     in (event, t\<lparr>at_final := Some event\<rparr>))"

definition finishCancelled :: "'a AsyncTask \<Rightarrow> 'a TaskEvent \<times> 'a AsyncTask" where
  "finishCancelled t =
    (let t = t\<lparr>at_status := TaskCancelled\<rparr>; event = baseEvent KindCancelled t
     in (event, t\<lparr>at_final := Some event\<rparr>))"

definition cancelTask :: "'a AsyncTask \<Rightarrow> 'a AsyncTask" where
  "cancelTask t = t\<lparr>at_cancelled := True\<rparr>"

definition snapshotTask :: "'a AsyncTask \<Rightarrow> 'a TaskEvent" where
  "snapshotTask t = (baseEvent KindSnapshot t)\<lparr>te_warning := at_warning t, te_status := Some (at_status t)\<rparr>"

definition attachQueue :: "nat \<Rightarrow> 'a AsyncTask \<Rightarrow> 'a AsyncTask" where
  "attachQueue q t = t\<lparr>at_queues := at_queues t @ [q]\<rparr>"

definition detachQueue :: "nat \<Rightarrow> 'a AsyncTask \<Rightarrow> 'a AsyncTask" where
  "detachQueue q t = t\<lparr>at_queues := remove1 q (at_queues t)\<rparr>"

definition adminBatchFinalType :: "TaskKind \<Rightarrow> bool" where
  "adminBatchFinalType k \<longleftrightarrow> k = KindDone \<or> k = KindError \<or> k = KindCancelled"

definition taskQueueCapacity :: nat where
  "taskQueueCapacity = 200"

section \<open>Workers and streams\<close>

text \<open>A worker between two operations, before it copies the list of channels, and while it sends.\<close>

datatype 'a Publisher = PubIdle | PubPublish "'a TaskEvent" | PubSend "'a TaskEvent" "nat list"

text \<open>A stream (\<open>streamAdminBatchTask\<close>): not begun, attached, past its snapshot, in its loop, leaving, gone.\<close>

datatype TaskStream = StreamNew | StreamAttached nat | StreamSnapshot nat | StreamLoop nat | StreamLeaving nat | StreamGone

record 'a TaskSystem =
  ty_task :: "'a AsyncTask"
  ty_chans :: "nat \<Rightarrow> 'a TaskEvent list"
  ty_next :: nat
  ty_pubs :: "nat \<Rightarrow> 'a Publisher"
  ty_streams :: "nat \<Rightarrow> TaskStream"
  ty_out :: "nat \<Rightarrow> 'a TaskEvent list"

definition startTasks :: "int \<Rightarrow> 'a TaskSystem" where
  "startTasks n =
    \<lparr>ty_task = NewAsyncTask n, ty_chans = (\<lambda>_. []), ty_next = 0, ty_pubs = (\<lambda>_. PubIdle), ty_streams = (\<lambda>_. StreamNew),
     ty_out = (\<lambda>_. [])\<rparr>"

datatype TaskLabel = LabelWork | LabelStream nat | LabelDrop nat

text \<open>What a worker may do under the lock.\<close>

definition isTaskOp :: "('a AsyncTask \<Rightarrow> 'a TaskEvent \<times> 'a AsyncTask) \<Rightarrow> bool" where
  "isTaskOp f \<longleftrightarrow> (\<exists>success options. f = recordTask success options) \<or> (\<exists>result warning. f = finishTask result warning) \<or>
    (\<exists>message. f = failTask message) \<or> f = finishCancelled"

inductive task_step :: "'a TaskSystem \<Rightarrow> TaskLabel \<Rightarrow> 'a TaskSystem \<Rightarrow> bool" where
  step_op: "ty_pubs s p = PubIdle \<Longrightarrow> isTaskOp f \<Longrightarrow> f (ty_task s) = (ev, t) \<Longrightarrow>
    task_step s LabelWork (s\<lparr>ty_task := t, ty_pubs := (ty_pubs s)(p := PubPublish ev)\<rparr>)"
| step_cancel: "task_step s LabelWork (s\<lparr>ty_task := cancelTask (ty_task s)\<rparr>)"
| step_copy: "ty_pubs s p = PubPublish ev \<Longrightarrow>
    task_step s LabelWork (s\<lparr>ty_pubs := (ty_pubs s)(p := PubSend ev (at_queues (ty_task s)))\<rparr>)"
| step_send: "ty_pubs s p = PubSend ev (q # qs) \<Longrightarrow> length (ty_chans s q) < taskQueueCapacity \<Longrightarrow>
    task_step s LabelWork (s\<lparr>ty_pubs := (ty_pubs s)(p := PubSend ev qs), ty_chans := (ty_chans s)(q := ty_chans s q @ [ev])\<rparr>)"
| step_drop: "ty_pubs s p = PubSend ev (q # qs) \<Longrightarrow> \<not> length (ty_chans s q) < taskQueueCapacity \<Longrightarrow>
    task_step s (LabelDrop q) (s\<lparr>ty_pubs := (ty_pubs s)(p := PubSend ev qs)\<rparr>)"
| step_sent: "ty_pubs s p = PubSend ev [] \<Longrightarrow> task_step s LabelWork (s\<lparr>ty_pubs := (ty_pubs s)(p := PubIdle)\<rparr>)"
| step_attach: "ty_streams s i = StreamNew \<Longrightarrow>
    task_step s (LabelStream i) (s\<lparr>ty_task := attachQueue (ty_next s) (ty_task s), ty_next := ty_next s + 1,
      ty_streams := (ty_streams s)(i := StreamAttached (ty_next s))\<rparr>)"
| step_snapshot: "ty_streams s i = StreamAttached q \<Longrightarrow>
    task_step s (LabelStream i) (s\<lparr>ty_out := (ty_out s)(i := ty_out s i @ [snapshotTask (ty_task s)]),
      ty_streams := (ty_streams s)(i := StreamSnapshot q)\<rparr>)"
| step_final: "ty_streams s i = StreamSnapshot q \<Longrightarrow> at_final (ty_task s) = Some ev \<Longrightarrow>
    task_step s (LabelStream i) (s\<lparr>ty_out := (ty_out s)(i := ty_out s i @ [ev]), ty_streams := (ty_streams s)(i := StreamLeaving q)\<rparr>)"
| step_loop: "ty_streams s i = StreamSnapshot q \<Longrightarrow> at_final (ty_task s) = None \<Longrightarrow>
    task_step s (LabelStream i) (s\<lparr>ty_streams := (ty_streams s)(i := StreamLoop q)\<rparr>)"
| step_recv: "ty_streams s i = StreamLoop q \<Longrightarrow> ty_chans s q = ev # evs \<Longrightarrow>
    task_step s (LabelStream i) (s\<lparr>ty_chans := (ty_chans s)(q := evs), ty_out := (ty_out s)(i := ty_out s i @ [ev]),
      ty_streams := (ty_streams s)(i := if adminBatchFinalType (te_type ev) then StreamLeaving q else StreamLoop q)\<rparr>)"
| step_gone: "ty_streams s i = StreamLoop q \<Longrightarrow>
    task_step s (LabelStream i) (s\<lparr>ty_streams := (ty_streams s)(i := StreamLeaving q)\<rparr>)"
| step_detach: "ty_streams s i = StreamLeaving q \<Longrightarrow>
    task_step s (LabelStream i) (s\<lparr>ty_task := detachQueue q (ty_task s), ty_streams := (ty_streams s)(i := StreamGone)\<rparr>)"

inductive_cases task_stepE: "task_step s l s'"

inductive task_run :: "'a TaskSystem \<Rightarrow> TaskLabel list \<Rightarrow> 'a TaskSystem \<Rightarrow> bool" where
  run_nil: "task_run s [] s"
| run_step: "task_run s ls s' \<Longrightarrow> task_step s' l s'' \<Longrightarrow> task_run s (ls @ [l]) s''"

section \<open>Counting\<close>

definition counts_ok :: "'a TaskSystem \<Rightarrow> bool" where
  "counts_ok s \<longleftrightarrow> at_processed (ty_task s) = at_ok (ty_task s) + at_fail (ty_task s)"

lemma op_counts: "isTaskOp f \<Longrightarrow> f t = (ev, t') \<Longrightarrow> at_processed t = at_ok t + at_fail t \<Longrightarrow> at_processed t' = at_ok t' + at_fail t'"
  unfolding isTaskOp_def by (auto simp: recordTask_def finishTask_def failTask_def finishCancelled_def Let_def)

lemma op_queues: "isTaskOp f \<Longrightarrow> f t = (ev, t') \<Longrightarrow> at_queues t' = at_queues t"
  unfolding isTaskOp_def by (auto simp: recordTask_def finishTask_def failTask_def finishCancelled_def Let_def)

text \<open>An operation that sets the final event publishes it; the others keep it.\<close>

lemma op_final: "isTaskOp f \<Longrightarrow> f t = (ev, t') \<Longrightarrow>
    at_final t' = at_final t \<or> at_final t' = Some ev \<and> adminBatchFinalType (te_type ev)"
  unfolding isTaskOp_def
  by (auto simp: recordTask_def finishTask_def failTask_def finishCancelled_def Let_def adminBatchFinalType_def baseEvent_def
    split: if_splits)

lemma step_counts: "task_step s l s' \<Longrightarrow> counts_ok s \<Longrightarrow> counts_ok s'"
  by (erule task_stepE) (auto simp: counts_ok_def cancelTask_def attachQueue_def detachQueue_def dest: op_counts)

lemma run_counts: "task_run s ls s' \<Longrightarrow> counts_ok s \<Longrightarrow> counts_ok s'"
  by (induction rule: task_run.induct) (auto dest: step_counts)

section \<open>The end of a stream\<close>

text \<open>Channels belong to one stream each, and stay attached until it leaves.\<close>

primrec channelOf :: "TaskStream \<Rightarrow> nat option" where
  "channelOf StreamNew = None"
| "channelOf (StreamAttached q) = Some q"
| "channelOf (StreamSnapshot q) = Some q"
| "channelOf (StreamLoop q) = Some q"
| "channelOf (StreamLeaving q) = Some q"
| "channelOf StreamGone = None"

definition owned :: "'a TaskSystem \<Rightarrow> bool" where
  "owned s \<longleftrightarrow> (\<forall>i q. channelOf (ty_streams s i) = Some q \<longrightarrow> q < ty_next s \<and> q \<in> set (at_queues (ty_task s)) \<and>
     (\<forall>j. channelOf (ty_streams s j) = Some q \<longrightarrow> j = i)) \<and> distinct (at_queues (ty_task s)) \<and>
     (\<forall>q \<in> set (at_queues (ty_task s)). q < ty_next s)"

text \<open>A final event is on its way to channel \<open>q\<close>.\<close>

primrec pub_final :: "'a Publisher \<Rightarrow> nat \<Rightarrow> bool" where
  "pub_final PubIdle q \<longleftrightarrow> False"
| "pub_final (PubPublish ev) q \<longleftrightarrow> adminBatchFinalType (te_type ev)"
| "pub_final (PubSend ev qs) q \<longleftrightarrow> adminBatchFinalType (te_type ev) \<and> q \<in> set qs"

definition coming :: "'a TaskSystem \<Rightarrow> nat \<Rightarrow> bool" where
  "coming s q \<longleftrightarrow> (\<exists>ev \<in> set (ty_chans s q). adminBatchFinalType (te_type ev)) \<or> (\<exists>p. pub_final (ty_pubs s p) q)"

lemma owned_start: "owned (startTasks n)"
  by (simp add: owned_def startTasks_def NewAsyncTask_def)

lemma owned_in: "owned s \<Longrightarrow> ty_streams s i = StreamLoop q \<Longrightarrow> q \<in> set (at_queues (ty_task s))"
  unfolding owned_def by (metis channelOf.simps(4))

lemma owned_inj: "owned s \<Longrightarrow> channelOf (ty_streams s i) = Some q \<Longrightarrow> channelOf (ty_streams s j) = Some q \<Longrightarrow> j = i"
  unfolding owned_def by blast

lemma owned_cong:
  assumes "owned s" and "at_queues (ty_task s') = at_queues (ty_task s)" and "ty_next s' = ty_next s"
    and "\<And>i. channelOf (ty_streams s' i) = channelOf (ty_streams s i)"
  shows "owned s'"
  using assms unfolding owned_def by simp

lemma owned_attach:
  assumes "owned s" and "ty_streams s i = StreamNew"
  shows "owned (s\<lparr>ty_task := attachQueue (ty_next s) (ty_task s), ty_next := ty_next s + 1,
      ty_streams := (ty_streams s)(i := StreamAttached (ty_next s))\<rparr>)"
proof -
  have old: "q < ty_next s" "q \<in> set (at_queues (ty_task s))" if "channelOf (ty_streams s j) = Some q" for j q
    using assms(1) that unfolding owned_def by blast+
  have uniq: "j = k" if "channelOf (ty_streams s j) = Some q" "channelOf (ty_streams s k) = Some q" for j k q
    using assms(1) that unfolding owned_def by blast
  have qs: "distinct (at_queues (ty_task s))" "\<And>q. q \<in> set (at_queues (ty_task s)) \<Longrightarrow> q < ty_next s"
    using assms(1) unfolding owned_def by blast+
  show ?thesis
    unfolding owned_def
    using qs by (auto simp: attachQueue_def less_SucI split: if_splits dest: old uniq intro: less_SucI)
qed

lemma owned_detach:
  assumes "owned s" and "ty_streams s i = StreamLeaving q"
  shows "owned (s\<lparr>ty_task := detachQueue q (ty_task s), ty_streams := (ty_streams s)(i := StreamGone)\<rparr>)"
proof -
  have old: "r < ty_next s" "r \<in> set (at_queues (ty_task s))" if "channelOf (ty_streams s j) = Some r" for j r
    using assms(1) that unfolding owned_def by blast+
  have uniq: "j = k" if "channelOf (ty_streams s j) = Some r" "channelOf (ty_streams s k) = Some r" for j k r
    using assms(1) that unfolding owned_def by blast
  have other: "r \<noteq> q" if "channelOf (ty_streams s j) = Some r" "j \<noteq> i" for j r
    using uniq [of j r i] that assms(2) by auto
  have qs: "distinct (at_queues (ty_task s))" "\<And>q. q \<in> set (at_queues (ty_task s)) \<Longrightarrow> q < ty_next s"
    using assms(1) unfolding owned_def by blast+
  show ?thesis
    unfolding owned_def
    using qs by (auto simp: detachQueue_def split: if_splits dest: old uniq other)
qed

lemma step_owned:
  assumes "task_step s l s'" and "owned s"
  shows "owned s'"
  using assms(1)
proof cases
  case (step_op p f ev t)
  then show ?thesis by (intro owned_cong [OF assms(2)]) (simp_all add: op_queues)
next
  case (step_attach i)
  then show ?thesis using owned_attach [OF assms(2)] by simp
next
  case (step_detach i q)
  then show ?thesis using owned_detach [OF assms(2)] by simp
qed (auto intro!: owned_cong [OF assms(2)] simp: cancelTask_def)

text \<open>A stream in its loop keeps the final event in sight.\<close>

definition in_sight :: "'a TaskSystem \<Rightarrow> nat \<Rightarrow> bool" where
  "in_sight s q \<longleftrightarrow> at_final (ty_task s) = None \<or> coming s q"

lemma coming_moved:
  assumes "coming s q" and "ty_pubs s' = (ty_pubs s)(p := x)"
    and "\<And>ev. ev \<in> set (ty_chans s q) \<Longrightarrow> adminBatchFinalType (te_type ev) \<Longrightarrow> ev \<in> set (ty_chans s' q)"
    and "pub_final (ty_pubs s p) q \<Longrightarrow> coming s' q"
  shows "coming s' q"
proof (cases "\<exists>ev \<in> set (ty_chans s q). adminBatchFinalType (te_type ev)")
  case True
  then show ?thesis using assms(3) by (auto simp: coming_def)
next
  case False
  then obtain p' where p': "pub_final (ty_pubs s p') q" using assms(1) by (auto simp: coming_def)
  show ?thesis
  proof (cases "p' = p")
    case True
    then show ?thesis using assms(4) p' by simp
  next
    case False
    then have "pub_final (ty_pubs s' p') q" using p' assms(2) by simp
    then show ?thesis by (auto simp: coming_def)
  qed
qed

lemma coming_pub: "pub_final (ty_pubs s p) q \<Longrightarrow> coming s q"
  by (auto simp: coming_def)

lemma coming_chan: "ev \<in> set (ty_chans s q) \<Longrightarrow> adminBatchFinalType (te_type ev) \<Longrightarrow> coming s q"
  by (auto simp: coming_def)

lemma step_sight:
  assumes "task_step s l s'" and "owned s" and "in_sight s q" and "ty_streams s i = StreamLoop q"
    and "ty_streams s' i = StreamLoop q" and "l \<noteq> LabelDrop q"
  shows "in_sight s' q"
  using assms(1)
proof cases
  case (step_op p f ev t)
  show ?thesis
  proof (cases "at_final t = at_final (ty_task s)")
    case True
    have "coming s' q" if "coming s q"
      using coming_moved [OF that, of s' p "PubPublish ev"] step_op by simp
    then show ?thesis using assms(3) True step_op by (auto simp: in_sight_def)
  next
    case False
    then have "adminBatchFinalType (te_type ev)" using op_final step_op by metis
    then show ?thesis using coming_pub [of s' p q] step_op by (simp add: in_sight_def)
  qed
next
  case (step_copy p ev)
  have "coming s' q" if "coming s q"
    using coming_moved [OF that, of s' p "PubSend ev (at_queues (ty_task s))"] coming_pub [of s' p q] owned_in [OF assms(2,4)]
      step_copy by simp
  then show ?thesis using assms(3) step_copy by (auto simp: in_sight_def)
next
  case (step_send p ev q' qs)
  have "coming s' q" if "coming s q"
  proof (rule coming_moved [OF that, of s' p "PubSend ev qs"])
    show "pub_final (ty_pubs s p) q \<Longrightarrow> coming s' q"
      using coming_pub [of s' p q] coming_chan [of ev s' q] step_send by (cases "q = q'") simp_all
  qed (use step_send in auto)
  then show ?thesis using assms(3) step_send by (auto simp: in_sight_def)
next
  case (step_drop p ev q' qs)
  have "coming s' q" if "coming s q"
  proof (rule coming_moved [OF that, of s' p "PubSend ev qs"])
    show "pub_final (ty_pubs s p) q \<Longrightarrow> coming s' q"
      using coming_pub [of s' p q] assms(6) step_drop by simp
  qed (use step_drop in auto)
  then show ?thesis using assms(3) step_drop by (auto simp: in_sight_def)
next
  case (step_sent p ev)
  have "coming s' q" if "coming s q"
    using coming_moved [OF that, of s' p PubIdle] step_sent by simp
  then show ?thesis using assms(3) step_sent by (auto simp: in_sight_def)
next
  case (step_recv j q' ev evs)
  have "j = i" if "q' = q" using owned_inj [OF assms(2), of i q j] assms(4) step_recv that by simp
  then have "coming s' q" if "coming s q"
    using that assms(5) step_recv by (auto simp: coming_def split: if_splits)
  then show ?thesis using assms(3) step_recv by (auto simp: in_sight_def)
qed (use assms in \<open>auto simp: in_sight_def coming_def cancelTask_def attachQueue_def detachQueue_def split: if_splits\<close>)

lemma step_enters:
  assumes "task_step s l s'" and "ty_streams s i \<noteq> StreamLoop q" and "ty_streams s' i = StreamLoop q"
  shows "at_final (ty_task s') = None"
  using assms(1) by cases (use assms in \<open>auto split: if_splits\<close>)

lemma run_sight:
  assumes "task_run (startTasks n) ls s" 
  shows "owned s \<and> (\<forall>i q. ty_streams s i = StreamLoop q \<longrightarrow> LabelDrop q \<notin> set ls \<longrightarrow> in_sight s q)"
  using assms
proof (induction "startTasks n :: 'a TaskSystem" ls s rule: task_run.induct)
  case run_nil
  show ?case using owned_start by (auto simp: startTasks_def)
next
  case (run_step ls s' l s'')
  then have own: "owned s'" and old: "\<And>i q. ty_streams s' i = StreamLoop q \<Longrightarrow> LabelDrop q \<notin> set ls \<Longrightarrow> in_sight s' q"
    by auto
  have "in_sight s'' q" if "ty_streams s'' i = StreamLoop q" "LabelDrop q \<notin> set (ls @ [l])" for i q
  proof (cases "ty_streams s' i = StreamLoop q")
    case True
    then show ?thesis using step_sight [OF run_step(3) own old] that by auto
  next
    case False
    then show ?thesis using step_enters [OF run_step(3) False that(1)] by (simp add: in_sight_def)
  qed
  then show ?case using step_owned [OF run_step(3) own] by blast
qed

section \<open>Continuations\<close>

lemma run_one: "task_step s l s' \<Longrightarrow> task_run s [l] s'"
  using run_step [OF run_nil, of s l s'] by simp

lemma run_append: "task_run s' ls' s'' \<Longrightarrow> task_run s ls s' \<Longrightarrow> task_run s (ls @ ls') s''"
  by (induction rule: task_run.induct) (auto simp del: append_assoc simp: append_assoc [symmetric] intro: run_step)

lemma run_cons: "task_step s l s' \<Longrightarrow> task_run s' ls s'' \<Longrightarrow> task_run s (l # ls) s''"
  using run_append [OF _ run_one] by fastforce

text \<open>A looping stream may read its channel: it ends at a final event, or has emptied the channel.\<close>

lemma read_channel:
  assumes "ty_streams s i = StreamLoop q"
  shows "\<exists>ls s'. task_run s ls s' \<and> set ls \<subseteq> {LabelStream i} \<and> ty_pubs s' = ty_pubs s \<and> ty_task s' = ty_task s \<and>
    (if \<exists>ev \<in> set (ty_chans s q). adminBatchFinalType (te_type ev)
     then ty_streams s' i = StreamLeaving q \<and> ty_out s' i \<noteq> [] \<and> adminBatchFinalType (te_type (last (ty_out s' i)))
     else ty_streams s' i = StreamLoop q \<and> ty_chans s' q = [])"
  using assms
proof (induction "ty_chans s q" arbitrary: s)
  case Nil
  then show ?case by (intro exI [of _ "[]"] exI [of _ s]) (auto intro: run_nil)
next
  case (Cons ev evs)
  define s' where "s' = s\<lparr>ty_chans := (ty_chans s)(q := evs), ty_out := (ty_out s)(i := ty_out s i @ [ev]),
      ty_streams := (ty_streams s)(i := if adminBatchFinalType (te_type ev) then StreamLeaving q else StreamLoop q)\<rparr>"
  have step: "task_step s (LabelStream i) s'"
    unfolding s'_def using step_recv Cons by metis
  show ?case
  proof (cases "adminBatchFinalType (te_type ev)")
    case True
    have "ev \<in> set (ty_chans s q)" using Cons(2) by (metis list.set_intros(1))
    then show ?thesis
      using run_one [OF step] True by (intro exI [of _ "[LabelStream i]"] exI [of _ s']) (auto simp: s'_def)
  next
    case False
    have fin: "(\<exists>ev \<in> set (ty_chans s q). adminBatchFinalType (te_type ev)) \<longleftrightarrow> (\<exists>ev \<in> set (ty_chans s' q). adminBatchFinalType (te_type ev))"
      using Cons(2) False by (auto simp: s'_def simp flip: Cons(2))
    have chans: "evs = ty_chans s' q" and loop: "ty_streams s' i = StreamLoop q" and pubs: "ty_pubs s' = ty_pubs s" "ty_task s' = ty_task s"
      using False by (simp_all add: s'_def)
    obtain ls s'' where "task_run s' ls s'' \<and> set ls \<subseteq> {LabelStream i} \<and> ty_pubs s'' = ty_pubs s' \<and> ty_task s'' = ty_task s' \<and>
      (if \<exists>ev \<in> set (ty_chans s' q). adminBatchFinalType (te_type ev)
       then ty_streams s'' i = StreamLeaving q \<and> ty_out s'' i \<noteq> [] \<and> adminBatchFinalType (te_type (last (ty_out s'' i)))
       else ty_streams s'' i = StreamLoop q \<and> ty_chans s'' q = [])"
      using Cons(1) [OF chans loop] by blast
    then show ?thesis
      using run_cons [OF step] unfolding fin pubs by (intro exI [of _ "LabelStream i # ls"] exI [of _ s'']) auto
  qed
qed

text \<open>A worker may send its event to an empty channel of its list.\<close>

lemma send_event:
  assumes "ty_pubs s p = PubSend ev qs" and "q \<in> set qs" and "ty_chans s q = []"
  shows "\<exists>ls s'. task_run s ls s' \<and> LabelDrop q \<notin> set ls \<and> ev \<in> set (ty_chans s' q) \<and> ty_streams s' = ty_streams s"
  using assms
proof (induction qs arbitrary: s)
  case Nil
  then show ?case by simp
next
  case (Cons r qs)
  show ?case
  proof (cases "length (ty_chans s r) < taskQueueCapacity")
    case True
    define s' where "s' = s\<lparr>ty_pubs := (ty_pubs s)(p := PubSend ev qs), ty_chans := (ty_chans s)(r := ty_chans s r @ [ev])\<rparr>"
    have step: "task_step s LabelWork s'" unfolding s'_def using step_send [OF Cons(2) True] .
    show ?thesis
    proof (cases "r = q")
      case True
      then show ?thesis using run_one [OF step] by (intro exI [of _ "[LabelWork]"] exI [of _ s']) (simp add: s'_def)
    next
      case False
      then have "ty_pubs s' p = PubSend ev qs" "q \<in> set qs" "ty_chans s' q = []" "ty_streams s' = ty_streams s"
        using Cons by (simp_all add: s'_def)
      then obtain ls s'' where "task_run s' ls s'' \<and> LabelDrop q \<notin> set ls \<and> ev \<in> set (ty_chans s'' q) \<and> ty_streams s'' = ty_streams s"
        using Cons(1) by metis
      then show ?thesis using run_cons [OF step] by (intro exI [of _ "LabelWork # ls"] exI [of _ s'']) simp
    qed
  next
    case False
    then have rq: "r \<noteq> q" using Cons(4) by (auto simp: taskQueueCapacity_def)
    define s' where "s' = s\<lparr>ty_pubs := (ty_pubs s)(p := PubSend ev qs)\<rparr>"
    have step: "task_step s (LabelDrop r) s'" unfolding s'_def using step_drop [OF Cons(2) False] .
    have "ty_pubs s' p = PubSend ev qs" "q \<in> set qs" "ty_chans s' q = []" "ty_streams s' = ty_streams s"
      using Cons rq by (simp_all add: s'_def)
    then obtain ls s'' where "task_run s' ls s'' \<and> LabelDrop q \<notin> set ls \<and> ev \<in> set (ty_chans s'' q) \<and> ty_streams s'' = ty_streams s"
      using Cons(1) by metis
    then show ?thesis using run_cons [OF step] rq by (intro exI [of _ "LabelDrop r # ls"] exI [of _ s'']) simp
  qed
qed


lemma run_owned: "task_run s ls s' \<Longrightarrow> owned s \<Longrightarrow> owned s'"
  by (induction rule: task_run.induct) (auto dest: step_owned)

lemma worker_sends:
  assumes "pub_final (ty_pubs s p) q" and "ty_chans s q = []" and "owned s" and "ty_streams s i = StreamLoop q"
  shows "\<exists>ls s'. task_run s ls s' \<and> LabelDrop q \<notin> set ls \<and> (\<exists>ev \<in> set (ty_chans s' q). adminBatchFinalType (te_type ev)) \<and>
    ty_streams s' = ty_streams s"
proof (cases "ty_pubs s p")
  case (PubPublish ev)
  define s' where "s' = s\<lparr>ty_pubs := (ty_pubs s)(p := PubSend ev (at_queues (ty_task s)))\<rparr>"
  have step: "task_step s LabelWork s'" unfolding s'_def using step_copy [OF PubPublish] .
  obtain ls s'' where "task_run s' ls s''" "LabelDrop q \<notin> set ls" "ev \<in> set (ty_chans s'' q)" "ty_streams s'' = ty_streams s'"
    using send_event [of s' p ev "at_queues (ty_task s)" q] owned_in [OF assms(3,4)] assms(2) by (auto simp: s'_def)
  then show ?thesis
    using run_cons [OF step] assms(1) PubPublish by (intro exI [of _ "LabelWork # ls"] exI [of _ s'']) (auto simp: s'_def)
next
  case (PubSend ev qs)
  then obtain ls s' where "task_run s ls s'" "LabelDrop q \<notin> set ls" "ev \<in> set (ty_chans s' q)" "ty_streams s' = ty_streams s"
    using send_event [of s p ev qs q] assms by auto
  then show ?thesis using assms(1) PubSend by (intro exI [of _ ls] exI [of _ s']) auto
qed (use assms in simp)

lemma channel_ends:
  assumes "\<exists>ev \<in> set (ty_chans s q). adminBatchFinalType (te_type ev)" and "ty_streams s i = StreamLoop q"
  shows "\<exists>ls s'. task_run s ls s' \<and> LabelDrop q \<notin> set ls \<and> ty_streams s' i = StreamLeaving q \<and>
    adminBatchFinalType (te_type (last (ty_out s' i)))"
proof -
  obtain ls s' where "task_run s ls s'" "set ls \<subseteq> {LabelStream i}" "ty_streams s' i = StreamLeaving q"
    "adminBatchFinalType (te_type (last (ty_out s' i)))"
    using read_channel [OF assms(2)] assms(1) by auto
  then show ?thesis by (intro exI [of _ ls] exI [of _ s']) auto
qed

lemma coming_ends:
  assumes "coming s q" and "ty_streams s i = StreamLoop q" and "owned s"
  shows "\<exists>ls s'. task_run s ls s' \<and> LabelDrop q \<notin> set ls \<and> ty_streams s' i = StreamLeaving q \<and>
    adminBatchFinalType (te_type (last (ty_out s' i)))"
proof (cases "\<exists>ev \<in> set (ty_chans s q). adminBatchFinalType (te_type ev)")
  case True
  then show ?thesis using channel_ends assms(2) by metis
next
  case False
  then obtain p where p: "pub_final (ty_pubs s p) q" using assms(1) by (auto simp: coming_def)
  obtain ls1 s1 where r1: "task_run s ls1 s1" "set ls1 \<subseteq> {LabelStream i}" and s1: "ty_pubs s1 = ty_pubs s" "ty_streams s1 i = StreamLoop q"
    "ty_chans s1 q = []"
    using read_channel [OF assms(2)] False by auto
  obtain ls2 s2 where r2: "task_run s1 ls2 s2" "LabelDrop q \<notin> set ls2" and s2: "\<exists>ev \<in> set (ty_chans s2 q). adminBatchFinalType (te_type ev)"
    "ty_streams s2 = ty_streams s1"
    using worker_sends [of s1 p q i] p s1 run_owned [OF r1(1) assms(3)] by auto
  obtain ls3 s3 where r3: "task_run s2 ls3 s3" "LabelDrop q \<notin> set ls3" "ty_streams s3 i = StreamLeaving q"
    "adminBatchFinalType (te_type (last (ty_out s3 i)))"
    using channel_ends [OF s2(1)] s2(2) s1(2) by metis
  have "task_run s ((ls1 @ ls2) @ ls3) s3" using run_append [OF r3(1) run_append [OF r2(1) r1(1)]] .
  then show ?thesis using r1(2) r2(2) r3(2-4) by (intro exI [of _ "(ls1 @ ls2) @ ls3"] exI [of _ s3]) auto
qed

section \<open>A full channel\<close>

text \<open>A finished task and a stream whose channel is empty, with no worker at work: only its client can end it.\<close>

definition stalled :: "'a TaskSystem \<Rightarrow> nat \<Rightarrow> nat \<Rightarrow> bool" where
  "stalled s i q \<longleftrightarrow> ty_streams s i = StreamLoop q \<and> at_final (ty_task s) \<noteq> None \<and> ty_chans s q = [] \<and> (\<forall>p. ty_pubs s p = PubIdle)"

text \<open>A stream that has read nothing while \<open>k\<close> progress events were sent.\<close>

definition waiting :: "nat \<Rightarrow> 'a TaskSystem \<Rightarrow> bool" where
  "waiting k s \<longleftrightarrow> ty_streams s 0 = StreamLoop 0 \<and> at_queues (ty_task s) = [0] \<and> (\<forall>p. ty_pubs s p = PubIdle) \<and>
    length (ty_chans s 0) = k \<and> (\<forall>ev \<in> set (ty_chans s 0). \<not> adminBatchFinalType (te_type ev))"

lemma waits_first: "\<exists>ls (s :: 'a TaskSystem). task_run (startTasks n) ls s \<and> waiting 0 s"
proof -
  let ?s0 = "startTasks n :: 'a TaskSystem"
  let ?s1 = "?s0\<lparr>ty_task := attachQueue (ty_next ?s0) (ty_task ?s0), ty_next := ty_next ?s0 + 1,
      ty_streams := (ty_streams ?s0)(0 := StreamAttached (ty_next ?s0))\<rparr>"
  let ?s2 = "?s1\<lparr>ty_out := (ty_out ?s1)(0 := ty_out ?s1 0 @ [snapshotTask (ty_task ?s1)]), ty_streams := (ty_streams ?s1)(0 := StreamSnapshot 0)\<rparr>"
  let ?s3 = "?s2\<lparr>ty_streams := (ty_streams ?s2)(0 := StreamLoop 0)\<rparr>"
  have "task_step ?s0 (LabelStream 0) ?s1" by (rule step_attach) (simp add: startTasks_def)
  moreover have "task_step ?s1 (LabelStream 0) ?s2" by (rule step_snapshot) (simp add: startTasks_def)
  moreover have "task_step ?s2 (LabelStream 0) ?s3"
    by (rule step_loop) (simp_all add: startTasks_def attachQueue_def NewAsyncTask_def)
  ultimately have "task_run ?s0 [LabelStream 0, LabelStream 0, LabelStream 0] ?s3" by (meson run_cons run_nil)
  moreover have "waiting 0 ?s3" by (simp add: waiting_def startTasks_def attachQueue_def NewAsyncTask_def)
  ultimately show ?thesis by blast
qed

lemma waits_more:
  assumes "waiting k s" and "k < taskQueueCapacity"
  shows "\<exists>ls s'. task_run s ls s' \<and> waiting (Suc k) s'"
proof -
  let ?o = "\<lparr>to_item = None, to_detail = None, to_error = [], to_count = 1\<rparr>"
  obtain ev t where op: "recordTask True ?o (ty_task s) = (ev, t)" by fastforce
  have ev: "\<not> adminBatchFinalType (te_type ev)" and t: "at_queues t = at_queues (ty_task s)"
    using op by (auto simp: recordTask_def Let_def adminBatchFinalType_def baseEvent_def)
  let ?s1 = "s\<lparr>ty_task := t, ty_pubs := (ty_pubs s)(0 := PubPublish ev)\<rparr>"
  let ?s2 = "?s1\<lparr>ty_pubs := (ty_pubs ?s1)(0 := PubSend ev (at_queues (ty_task ?s1)))\<rparr>"
  let ?s3 = "?s2\<lparr>ty_pubs := (ty_pubs ?s2)(0 := PubSend ev []), ty_chans := (ty_chans ?s2)(0 := ty_chans ?s2 0 @ [ev])\<rparr>"
  let ?s4 = "?s3\<lparr>ty_pubs := (ty_pubs ?s3)(0 := PubIdle)\<rparr>"
  have "task_step s LabelWork ?s1"
    by (rule step_op [where f = "recordTask True ?o"]) (use assms op in \<open>auto simp: waiting_def isTaskOp_def\<close>)
  moreover have "task_step ?s1 LabelWork ?s2" by (rule step_copy) simp
  moreover have "task_step ?s2 LabelWork ?s3" by (rule step_send) (use assms t in \<open>auto simp: waiting_def\<close>)
  moreover have "task_step ?s3 LabelWork ?s4" by (rule step_sent) simp
  ultimately have "task_run s [LabelWork, LabelWork, LabelWork, LabelWork] ?s4" by (meson run_cons run_nil)
  moreover have "waiting (Suc k) ?s4" using assms(1) ev t by (auto simp: waiting_def)
  ultimately show ?thesis by blast
qed

lemma waits: "k \<le> taskQueueCapacity \<Longrightarrow> \<exists>ls (s :: 'a TaskSystem). task_run (startTasks n) ls s \<and> waiting k s"
proof (induction k)
  case 0
  then show ?case using waits_first by blast
next
  case (Suc k)
  then obtain ls and s :: "'a TaskSystem" where "task_run (startTasks n) ls s" "waiting k s" by auto
  then show ?case using waits_more [of k s] Suc(2) run_append by fastforce
qed

lemma full_stalls:
  assumes "waiting taskQueueCapacity s"
  shows "\<exists>ls s'. task_run s ls s' \<and> stalled s' 0 0"
proof -
  obtain ev t where op: "finishTask None None (ty_task s) = (ev, t)" by fastforce
  have t: "at_queues t = at_queues (ty_task s)" "at_final t = Some ev" using op by (auto simp: finishTask_def Let_def)
  let ?s1 = "s\<lparr>ty_task := t, ty_pubs := (ty_pubs s)(0 := PubPublish ev)\<rparr>"
  let ?s2 = "?s1\<lparr>ty_pubs := (ty_pubs ?s1)(0 := PubSend ev (at_queues (ty_task ?s1)))\<rparr>"
  let ?s3 = "?s2\<lparr>ty_pubs := (ty_pubs ?s2)(0 := PubSend ev [])\<rparr>"
  let ?s4 = "?s3\<lparr>ty_pubs := (ty_pubs ?s3)(0 := PubIdle)\<rparr>"
  have "task_step s LabelWork ?s1"
    by (rule step_op [where f = "finishTask None None"]) (use assms op in \<open>auto simp: waiting_def isTaskOp_def\<close>)
  moreover have "task_step ?s1 LabelWork ?s2" by (rule step_copy) simp
  moreover have "task_step ?s2 (LabelDrop 0) ?s3" by (rule step_drop) (use assms t in \<open>auto simp: waiting_def\<close>)
  moreover have "task_step ?s3 LabelWork ?s4" by (rule step_sent) simp
  ultimately have run: "task_run s [LabelWork, LabelWork, LabelDrop 0, LabelWork] ?s4" by (meson run_cons run_nil)
  have w: "ty_streams ?s4 0 = StreamLoop 0" "\<not> (\<exists>ev \<in> set (ty_chans ?s4 0). adminBatchFinalType (te_type ev))" "\<forall>p. ty_pubs ?s4 p = PubIdle"
    using assms by (auto simp: waiting_def)
  have fin: "at_final (ty_task ?s4) \<noteq> None" using t by simp
  obtain ls s' where "task_run ?s4 ls s'" "ty_pubs s' = ty_pubs ?s4" "ty_streams s' 0 = StreamLoop 0" "ty_chans s' 0 = []"
      "ty_task s' = ty_task ?s4"
    using read_channel [OF w(1)] unfolding if_not_P [OF w(2)] by blast
  then show ?thesis using run_append [OF _ run] w(3) fin unfolding stalled_def by metis
qed


section \<open>Properties\<close>

text \<open>C39. A stream in its loop whose channel has never been full can be ended by the program alone: once the task has a
  final event, some sequence of turns of the workers and the streams brings that event to the stream, which writes it last
  and leaves its loop.\<close>

theorem stream_ends:
  assumes "task_run (startTasks n) ls s" and "LabelDrop q \<notin> set ls" and "ty_streams s i = StreamLoop q"
    and "at_final (ty_task s) \<noteq> None"
  shows "\<exists>ls' s'. task_run s ls' s' \<and> LabelDrop q \<notin> set ls' \<and> ty_streams s' i = StreamLeaving q \<and>
    adminBatchFinalType (te_type (last (ty_out s' i)))"
proof -
  have "owned s" and "coming s q" using run_sight [OF assms(1)] assms(2-4) unfolding in_sight_def by auto
  then show ?thesis using coming_ends assms(3) by metis
qed

text \<open>A task without items: one stream is in its loop when a worker finishes the task.\<close>

definition finishedTask :: "nat TaskSystem" where
  "finishedTask =
    (let s = startTasks 0;
         s = s\<lparr>ty_task := attachQueue (ty_next s) (ty_task s), ty_next := ty_next s + 1,
               ty_streams := (ty_streams s)(0 := StreamAttached (ty_next s))\<rparr>;
         s = s\<lparr>ty_out := (ty_out s)(0 := ty_out s 0 @ [snapshotTask (ty_task s)]), ty_streams := (ty_streams s)(0 := StreamSnapshot 0)\<rparr>;
         s = s\<lparr>ty_streams := (ty_streams s)(0 := StreamLoop 0)\<rparr>
     in s\<lparr>ty_task := snd (finishTask None None (ty_task s)),
          ty_pubs := (ty_pubs s)(0 := PubPublish (fst (finishTask None None (ty_task s))))\<rparr>)"

lemma finishedTask_run: "task_run (startTasks 0) [LabelStream 0, LabelStream 0, LabelStream 0, LabelWork] finishedTask"
proof -
  let ?s0 = "startTasks 0 :: nat TaskSystem"
  let ?s1 = "?s0\<lparr>ty_task := attachQueue (ty_next ?s0) (ty_task ?s0), ty_next := ty_next ?s0 + 1,
      ty_streams := (ty_streams ?s0)(0 := StreamAttached (ty_next ?s0))\<rparr>"
  let ?s2 = "?s1\<lparr>ty_out := (ty_out ?s1)(0 := ty_out ?s1 0 @ [snapshotTask (ty_task ?s1)]), ty_streams := (ty_streams ?s1)(0 := StreamSnapshot 0)\<rparr>"
  let ?s3 = "?s2\<lparr>ty_streams := (ty_streams ?s2)(0 := StreamLoop 0)\<rparr>"
  have "task_step ?s0 (LabelStream 0) ?s1" by (rule step_attach) (simp add: startTasks_def)
  moreover have "task_step ?s1 (LabelStream 0) ?s2" by (rule step_snapshot) (simp add: startTasks_def)
  moreover have "task_step ?s2 (LabelStream 0) ?s3"
    by (rule step_loop) (simp_all add: startTasks_def attachQueue_def NewAsyncTask_def)
  moreover have "task_step ?s3 LabelWork finishedTask"
    unfolding finishedTask_def Let_def
    by (rule step_op [where f = "finishTask None None"]) (auto simp: startTasks_def isTaskOp_def)
  ultimately show ?thesis by (meson run_cons run_nil)
qed

theorem stream_ends_witness:
  "\<exists>ls' s'. task_run finishedTask ls' s' \<and> LabelDrop 0 \<notin> set ls' \<and> ty_streams s' 0 = StreamLeaving 0 \<and>
    adminBatchFinalType (te_type (last (ty_out s' 0)))"
proof -
  have "ty_streams finishedTask 0 = StreamLoop 0" and "at_final (ty_task finishedTask) \<noteq> None"
    by (simp_all add: finishedTask_def Let_def finishTask_def)
  then show ?thesis using stream_ends [OF finishedTask_run, of 0 0] by simp
qed

text \<open>C40. A stream can be left waiting for ever. When its client has not read while the channel of 200 events filled up,
  the final event is dropped like any other: the client then reads the 200 events, the task is finished, no worker is at
  work, and nothing will reach the channel again.\<close>

theorem stream_stalls: "\<exists>ls (s :: 'a TaskSystem). task_run (startTasks n) ls s \<and> stalled s 0 0"
proof -
  obtain ls and s :: "'a TaskSystem" where "task_run (startTasks n) ls s" "waiting taskQueueCapacity s"
    using waits by blast
  then show ?thesis using full_stalls run_append by blast
qed

text \<open>In every reachable state the task has processed as many items as it counts successes and failures.\<close>

theorem task_counts:
  assumes "task_run (startTasks n) ls s"
  shows "at_processed (ty_task s) = at_ok (ty_task s) + at_fail (ty_task s)"
proof -
  have "counts_ok (startTasks n)" by (simp add: counts_ok_def startTasks_def NewAsyncTask_def)
  from run_counts [OF assms this] show ?thesis by (simp add: counts_ok_def)
qed

theorem task_counts_witness:
  "at_processed (ty_task finishedTask) = at_ok (ty_task finishedTask) + at_fail (ty_task finishedTask)"
  by (rule task_counts [OF finishedTask_run])

end
