(* ===== verification/Base64.thy ===== *)
theory Base64
  imports GoStrings "HOL-Library.Word"
begin

text \<open>
  Bytes and the two encodings of \<open>encoding/base64\<close> the code uses: \<open>StdEncoding\<close> (padded) and \<open>RawStdEncoding\<close>.
  A \<open>[]byte\<close> is a list of \<open>8 word\<close>. Decoding is as Go does it: carriage returns and line feeds are skipped anywhere,
  the unused bits of the last group are not checked, and text after the padding is an error.
\<close>

type_synonym bytes = "8 word list"

definition stringOf :: "bytes \<Rightarrow> string" where
  "stringOf = map (\<lambda>b. char_of (unat b))"

definition bytesOf :: "string \<Rightarrow> bytes" where
  "bytesOf = map (\<lambda>c. word_of_nat (byteOf c))"

lemma byteOf_less: "byteOf c < 256"
  by (simp add: byteOf_def)

lemma stringOf_bytesOf [simp]: "stringOf (bytesOf s) = s"
proof (induction s)
  case (Cons c s)
  have "unat (word_of_nat (byteOf c) :: 8 word) = byteOf c"
    using byteOf_less [of c] by (simp add: unat_of_nat take_bit_nat_def)
  then show ?case using Cons by (simp add: stringOf_def bytesOf_def byteOf_def)
qed (simp add: stringOf_def bytesOf_def)

lemma bytesOf_stringOf [simp]: "bytesOf (stringOf bs) = bs"
proof (induction bs)
  case (Cons b bs)
  have "unat b < 2 ^ LENGTH(8)" by (rule unsigned_less)
  then have "unat b < 256" by simp
  then have "byteOf (char_of (unat b)) = unat b" by (simp add: byteOf_def)
  then show ?case using Cons by (simp add: stringOf_def bytesOf_def)
qed (simp add: stringOf_def bytesOf_def)

lemma stringOf_Nil_iff [simp]: "stringOf bs = [] \<longleftrightarrow> bs = []" "bytesOf s = [] \<longleftrightarrow> s = []"
  by (simp_all add: stringOf_def bytesOf_def)

lemma bytesOf_append [simp]: "bytesOf (s @ t) = bytesOf s @ bytesOf t"
  by (simp add: bytesOf_def)

section \<open>The alphabet\<close>

definition b64char :: "nat \<Rightarrow> char" where
  "b64char n =
    (if n < 26 then char_of (65 + n) else if n < 52 then char_of (71 + n)
     else if n < 62 then char_of (n - 4) else if n = 62 then CHR ''+'' else CHR ''/'')"

definition b64val :: "char \<Rightarrow> nat option" where
  "b64val c =
    (let b = byteOf c
     in if 65 \<le> b \<and> b \<le> 90 then Some (b - 65) else if 97 \<le> b \<and> b \<le> 122 then Some (b - 71)
        else if 48 \<le> b \<and> b \<le> 57 then Some (b + 4) else if b = 43 then Some 62 else if b = 47 then Some 63 else None)"

lemma b64_alphabet: "n < 64 \<Longrightarrow> b64val (b64char n) = Some n \<and> b64char n \<noteq> CHR ''='' \<and> byteOf (b64char n) \<notin> {9, 10, 13, 32}"
proof -
  assume n: "n < 64"
  have b: "byteOf (b64char n) =
      (if n < 26 then 65 + n else if n < 52 then 71 + n else if n < 62 then n - 4 else if n = 62 then 43 else 47)"
    using n by (simp add: b64char_def byteOf_def)
  have "byteOf (CHR ''='') = 61" by (simp add: byteOf_def)
  moreover have "byteOf (b64char n) \<noteq> 61" "byteOf (b64char n) \<notin> {9, 10, 13, 32}" unfolding b by auto
  moreover have "b64val (b64char n) = Some n" unfolding b64val_def b Let_def using n by auto
  ultimately show ?thesis by metis
qed

section \<open>Encoding and decoding\<close>

definition quad :: "nat \<Rightarrow> string" where
  "quad v = [b64char (v div 262144), b64char (v div 4096 mod 64), b64char (v div 64 mod 64), b64char (v mod 64)]"

fun b64encode :: "bool \<Rightarrow> bytes \<Rightarrow> string" where
  "b64encode pad [] = []"
| "b64encode pad [x] = take 2 (quad (unat x * 65536)) @ (if pad then ''=='' else [])"
| "b64encode pad [x, y] = take 3 (quad (unat x * 65536 + unat y * 256)) @ (if pad then ''='' else [])"
| "b64encode pad (x # y # z # rest) = quad (unat x * 65536 + unat y * 256 + unat z) @ b64encode pad rest"

text \<open>The three bytes of a group of four sextets.\<close>

definition unquad :: "nat \<Rightarrow> nat \<Rightarrow> nat \<Rightarrow> nat \<Rightarrow> bytes" where
  "unquad a b c d =
    (let v = a * 262144 + b * 4096 + c * 64 + d
     in [word_of_nat (v div 65536), word_of_nat (v div 256 mod 256), word_of_nat (v mod 256)])"

fun b64groups :: "bool \<Rightarrow> string \<Rightarrow> bytes option" where
  "b64groups pad [] = Some []"
| "b64groups pad [_] = None"
| "b64groups pad [a, b] =
    (if pad then None
     else (case (b64val a, b64val b) of (Some a, Some b) \<Rightarrow> Some (take 1 (unquad a b 0 0)) | _ \<Rightarrow> None))"
| "b64groups pad [a, b, c] =
    (if pad then None
     else (case (b64val a, b64val b, b64val c) of
             (Some a, Some b, Some c) \<Rightarrow> Some (take 2 (unquad a b c 0)) | _ \<Rightarrow> None))"
| "b64groups pad (a # b # c # d # rest) =
    (if pad \<and> c = CHR ''='' then
       (if d = CHR ''='' \<and> rest = []
        then (case (b64val a, b64val b) of (Some a, Some b) \<Rightarrow> Some (take 1 (unquad a b 0 0)) | _ \<Rightarrow> None)
        else None)
     else if pad \<and> d = CHR ''='' then
       (if rest = []
        then (case (b64val a, b64val b, b64val c) of
                (Some a, Some b, Some c) \<Rightarrow> Some (take 2 (unquad a b c 0)) | _ \<Rightarrow> None)
        else None)
     else (case (b64val a, b64val b, b64val c, b64val d) of
             (Some a, Some b, Some c, Some d) \<Rightarrow> map_option ((@) (unquad a b c d)) (b64groups pad rest)
           | _ \<Rightarrow> None))"

definition notNewline :: "char \<Rightarrow> bool" where
  "notNewline c \<longleftrightarrow> byteOf c \<noteq> 10 \<and> byteOf c \<noteq> 13"

definition b64decode :: "bool \<Rightarrow> string \<Rightarrow> bytes option" where
  "b64decode pad s = b64groups pad (filter notNewline s)"

lemma unat8: "unat (x :: 8 word) < 256"
proof -
  have "unat x < 2 ^ LENGTH(8)" by (rule unsigned_less)
  then show ?thesis by simp
qed

lemma div_part: "w < k \<Longrightarrow> (x * k + w) div k = (x :: nat)"
  by simp

lemma mod_part: "w < k \<Longrightarrow> (x * k + w) mod k = (w :: nat)"
  by simp

lemma unquad_sextets:
  assumes "v < 16777216"
  shows "unquad (v div 262144) (v div 4096 mod 64) (v div 64 mod 64) (v mod 64) =
    [word_of_nat (v div 65536), word_of_nat (v div 256 mod 256), word_of_nat (v mod 256)]"
proof -
  have d: "v div 4096 = v div 64 div 64" "v div 262144 = v div 64 div 64 div 64" by (simp_all flip: div_mult2_eq)
  have 1: "v div 64 * 64 + v mod 64 = v" "v div 64 div 64 * 64 + v div 64 mod 64 = v div 64"
    "v div 64 div 64 div 64 * 64 + v div 64 div 64 mod 64 = v div 64 div 64" by (rule div_mult_mod_eq)+
  have "v div 262144 * 262144 + v div 4096 mod 64 * 4096 + v div 64 mod 64 * 64 + v mod 64 = v"
    using 1 unfolding d by linarith
  then show ?thesis unfolding unquad_def Let_def by (simp only:)
qed

lemma sextets:
  fixes v :: nat
  shows "v < 16777216 \<Longrightarrow> v div 262144 < 64 \<and> v div 4096 mod 64 < 64 \<and> v div 64 mod 64 < 64 \<and> v mod 64 < 64"
  by simp

lemma group_bytes:
  fixes x y z :: nat
  assumes "x < 256" "y < 256" "z < 256"
  shows "x * 65536 + y * 256 + z < 16777216" "(x * 65536 + y * 256 + z) div 65536 = x"
    "(x * 65536 + y * 256 + z) div 256 mod 256 = y" "(x * 65536 + y * 256 + z) mod 256 = z"
proof -
  have low: "y * 256 + z < 65536" using assms(2,3) by simp
  have split: "x * 65536 + y * 256 + z = x * 65536 + (y * 256 + z)" "x * 65536 + y * 256 + z = (x * 256 + y) * 256 + z" by simp_all
  show "x * 65536 + y * 256 + z < 16777216" using assms by simp
  show "(x * 65536 + y * 256 + z) div 65536 = x" unfolding split(1) using low by (rule div_part)
  have "(x * 65536 + y * 256 + z) div 256 = x * 256 + y" unfolding split(2) using assms(3) by (rule div_part)
  then show "(x * 65536 + y * 256 + z) div 256 mod 256 = y" using mod_part [OF assms(2)] by simp
  show "(x * 65536 + y * 256 + z) mod 256 = z" unfolding split(2) using assms(3) by (rule mod_part)
qed

text \<open>The spare bits of a short group are zero.\<close>

lemma short_group:
  fixes x y :: nat
  shows "x * 65536 div 64 mod 64 = 0" "x * 65536 mod 64 = 0" "(x * 65536 + y * 256) mod 64 = 0"
proof -
  have e: "x * 65536 = x * 1024 * 64" "x * 65536 + y * 256 = (x * 1024 + y * 4) * 64" "x * 1024 = x * 16 * 64" by simp_all
  show "x * 65536 mod 64 = 0" unfolding e(1) by simp
  show "(x * 65536 + y * 256) mod 64 = 0" unfolding e(2) by simp
  have "x * 65536 div 64 = x * 1024" unfolding e(1) by simp
  then show "x * 65536 div 64 mod 64 = 0" unfolding e(3) by simp
qed

lemma b64_roundtrip_groups: "b64groups pad (b64encode pad bs) = Some bs"
proof (induction pad bs rule: b64encode.induct)
  case (2 pad x)
  define v where "v = unat x * 65536"
  have v: "v < 16777216" "v div 65536 = unat x" "v div 64 mod 64 = 0" "v mod 64 = 0"
    using group_bytes [of "unat x" 0 0] short_group(1,2) [of "unat x"] unat8 [of x] by (simp_all add: v_def)
  have u: "take 1 (unquad (v div 262144) (v div 4096 mod 64) 0 0) = [x]"
    using unquad_sextets [OF v(1)] v by simp
  note s = sextets [OF v(1)]
  show ?case
    using u b64_alphabet [of "v div 262144"] b64_alphabet [of "v div 4096 mod 64"] s
    by (cases pad) (simp_all add: quad_def flip: v_def)
next
  case (3 pad x y)
  define v where "v = unat x * 65536 + unat y * 256"
  have v: "v < 16777216" "v div 65536 = unat x" "v div 256 mod 256 = unat y" "v mod 64 = 0"
    using group_bytes [of "unat x" "unat y" 0] short_group(3) [of "unat x" "unat y"] unat8 [of x] unat8 [of y]
    by (simp_all add: v_def)
  have u: "take 2 (unquad (v div 262144) (v div 4096 mod 64) (v div 64 mod 64) 0) = [x, y]"
    using unquad_sextets [OF v(1)] v by simp
  note s = sextets [OF v(1)]
  show ?case
    using u b64_alphabet [of "v div 262144"] b64_alphabet [of "v div 4096 mod 64"] b64_alphabet [of "v div 64 mod 64"] s
    by (cases pad) (simp_all add: quad_def flip: v_def)
next
  case (4 pad x y z rest)
  define v where "v = unat x * 65536 + unat y * 256 + unat z"
  have v: "v < 16777216" "v div 65536 = unat x" "v div 256 mod 256 = unat y" "v mod 256 = unat z"
    using group_bytes [of "unat x" "unat y" "unat z"] unat8 [of x] unat8 [of y] unat8 [of z] by (simp_all add: v_def)
  have u: "unquad (v div 262144) (v div 4096 mod 64) (v div 64 mod 64) (v mod 64) = [x, y, z]"
    using unquad_sextets [OF v(1)] v by simp
  note s = sextets [OF v(1)]
  show ?case
    using u 4 b64_alphabet [of "v div 262144"] b64_alphabet [of "v div 4096 mod 64"] b64_alphabet [of "v div 64 mod 64"]
      b64_alphabet [of "v mod 64"] s
    by (simp add: quad_def flip: v_def)
qed simp

text \<open>Encoded text has no blanks, so a decoder that drops them reads it unchanged.\<close>

definition notBlank :: "char \<Rightarrow> bool" where
  "notBlank c \<longleftrightarrow> byteOf c \<notin> {9, 10, 13, 32}"

lemma b64encode_blank: "list_all notBlank (b64encode pad bs)"
proof (induction pad bs rule: b64encode.induct)
  case (2 pad x)
  then show ?case
    using b64_alphabet group_bytes(1) [of "unat x" 0 0] unat8 [of x]
    by (auto simp: quad_def notBlank_def byteOf_def [of "CHR ''=''"])
next
  case (3 pad x y)
  then show ?case
    using b64_alphabet group_bytes(1) [of "unat x" "unat y" 0] unat8 [of x] unat8 [of y]
    by (auto simp: quad_def notBlank_def byteOf_def [of "CHR ''=''"])
next
  case (4 pad x y z rest)
  have "unat x * 65536 + unat y * 256 + unat z < 16777216"
    by (rule group_bytes(1) [OF unat8 unat8 unat8])
  then show ?case using 4 b64_alphabet by (auto simp: quad_def notBlank_def)
qed simp

lemma b64_roundtrip: "b64decode pad (b64encode pad bs) = Some bs"
proof -
  have "filter notNewline (b64encode pad bs) = b64encode pad bs"
    using b64encode_blank [of pad bs] by (auto simp: filter_id_conv list_all_iff notBlank_def notNewline_def)
  then show ?thesis by (simp add: b64decode_def b64_roundtrip_groups)
qed

end
