(* ===== verification/GrpcWeb.thy ===== *)
theory GrpcWeb
  imports Base64 "HOL-Library.Sublist"
begin

unbundle bit_operations_syntax

text \<open>
  The gRPC-web codec of \<open>app/platform/net/grpc.go\<close>: frames of a flag byte, a big-endian length and a payload, base64
  bodies, trailers, and the HTTP status a gRPC status stands for. A Go map that is iterated (the headers) is a list of
  pairs in the order of the iteration.
\<close>

section \<open>Status\<close>

record GRPCStatus =
  gs_code :: int
  gs_message :: string

definition statusOK :: "GRPCStatus \<Rightarrow> bool" where
  "statusOK s \<longleftrightarrow> gs_code s = 0"

definition HTTPEquivalent :: "GRPCStatus \<Rightarrow> int" where
  "HTTPEquivalent s =
    (if gs_code s = 0 then 200 else if gs_code s = 4 then 504 else if gs_code s = 7 then 403
     else if gs_code s = 8 then 429 else if gs_code s = 14 then 503 else if gs_code s = 16 then 401 else 502)"

definition trailerValue :: "(string, string) fmap \<Rightarrow> string \<Rightarrow> string" where
  "trailerValue m k = (case fmlookup m k of None \<Rightarrow> '''' | Some v \<Rightarrow> v)"

definition GRPCStatusFromTrailers :: "(string, string) fmap \<Rightarrow> GRPCStatus" where
  "GRPCStatusFromTrailers trailers =
    \<lparr>gs_code = (case atoi (trimSpace (trailerValue trailers ''grpc-status'')) of Inl _ \<Rightarrow> -1 | Inr code \<Rightarrow> code),
     gs_message = trimSpace (trailerValue trailers ''grpc-message'')\<rparr>"

section \<open>Frames\<close>

definition putUint32 :: "32 word \<Rightarrow> bytes" where
  "putUint32 n = [ucast (drop_bit 24 n), ucast (drop_bit 16 n), ucast (drop_bit 8 n), ucast n]"

fun getUint32 :: "bytes \<Rightarrow> 32 word" where
  "getUint32 (a # b # c # d # _) =
    push_bit 24 (ucast a) OR push_bit 16 (ucast b) OR push_bit 8 (ucast c) OR ucast d"
| "getUint32 _ = 0"

definition EncodePayload :: "bytes \<Rightarrow> bytes" where
  "EncodePayload data = 0 # putUint32 (word_of_nat (length data)) @ data"

section \<open>Base64 bodies\<close>

definition compactWhitespace :: "bytes \<Rightarrow> bytes" where
  "compactWhitespace data = filter (\<lambda>ch. ch \<notin> {32, 9, 13, 10}) data"

definition base64HeadByte :: "8 word \<Rightarrow> bool" where
  "base64HeadByte ch \<longleftrightarrow>
    (let b = unat ch
     in 65 \<le> b \<and> b \<le> 90 \<or> 97 \<le> b \<and> b \<le> 122 \<or> 48 \<le> b \<and> b \<le> 57 \<or> b \<in> {43, 47, 61, 13, 10})"

definition isBase64Head :: "bytes \<Rightarrow> bool" where
  "isBase64Head data \<longleftrightarrow> list_all base64HeadByte data"

definition textContent :: "string \<Rightarrow> bool" where
  "textContent contentType \<longleftrightarrow> containsStr (goLower contentType) ''grpc-web-text''"

definition maybeDecodeBase64 :: "bytes \<Rightarrow> string \<Rightarrow> goerr + bytes" where
  "maybeDecodeBase64 body contentType =
    (if textContent contentType
     then (case b64decode True (stringOf (compactWhitespace body)) of
             None \<Rightarrow> Inl (ErrOther ''illegal base64 data'') | Some decoded \<Rightarrow> Inr decoded)
     else let head = take 2048 body
       in if head \<noteq> [] \<and> isBase64Head head
          then (case b64decode True (stringOf (compactWhitespace body)) of None \<Rightarrow> Inr body | Some decoded \<Rightarrow> Inr decoded)
          else Inr body)"

section \<open>Trailers\<close>

definition hexVal :: "char \<Rightarrow> nat option" where
  "hexVal c =
    (let b = byteOf c
     in if 48 \<le> b \<and> b \<le> 57 then Some (b - 48) else if 97 \<le> b \<and> b \<le> 102 then Some (b - 87)
        else if 65 \<le> b \<and> b \<le> 70 then Some (b - 55) else None)"

text \<open>\<open>url.PathUnescape\<close>.\<close>

fun pathUnescape :: "string \<Rightarrow> string option" where
  "pathUnescape [] = Some []"
| "pathUnescape (c # cs) =
    (if c = CHR ''%'' then
       (case cs of
          a # b # rest \<Rightarrow>
            (case (hexVal a, hexVal b) of
               (Some x, Some y) \<Rightarrow> map_option ((#) (char_of (16 * x + y))) (pathUnescape rest)
             | _ \<Rightarrow> None)
        | _ \<Rightarrow> None)
     else map_option ((#) c) (pathUnescape cs))"

definition unquoteGRPCMessage :: "string \<Rightarrow> string" where
  "unquoteGRPCMessage value = (case pathUnescape value of None \<Rightarrow> value | Some decoded \<Rightarrow> decoded)"

text \<open>\<open>strings.ReplaceAll(text, "\r\n", "\n")\<close>.\<close>

fun dropCR :: "string \<Rightarrow> string" where
  "dropCR (a # b # cs) = (if a = char_of (13 :: nat) \<and> b = char_of (10 :: nat) then b # dropCR cs else a # dropCR (b # cs))"
| "dropCR cs = cs"

text \<open>\<open>strings.Cut(line, ":")\<close>.\<close>

fun cutColon :: "string \<Rightarrow> (string \<times> string) option" where
  "cutColon [] = None"
| "cutColon (c # cs) = (if c = CHR '':'' then Some ([], cs) else map_option (\<lambda>(k, v). (c # k, v)) (cutColon cs))"

definition trailerLine :: "string \<Rightarrow> (string, string) fmap \<Rightarrow> (string, string) fmap" where
  "trailerLine line result =
    (case cutColon line of
       None \<Rightarrow> result
     | Some (key, value) \<Rightarrow>
         let key = goLower (trimSpace key); value = trimSpace value
         in fmupd key (if key = ''grpc-message'' then unquoteGRPCMessage value else value) result)"

definition parseGRPCTrailers :: "bytes \<Rightarrow> (string, string) fmap" where
  "parseGRPCTrailers payload = fold trailerLine (splitOn (char_of (10 :: nat)) (dropCR (stringOf payload))) fmempty"

definition mergeHeader :: "string \<times> string \<Rightarrow> (string, string) fmap \<Rightarrow> (string, string) fmap" where
  "mergeHeader h trailers =
    (let key = goLower (fst h)
     in if key \<noteq> ''grpc-status'' \<and> key \<noteq> ''grpc-message'' then trailers
        else if fmlookup trailers key \<noteq> None then trailers
        else let value = trimSpace (snd h)
          in fmupd key (if key = ''grpc-message'' then unquoteGRPCMessage value else value) trailers)"

definition mergeHeaderTrailers :: "(string \<times> string) list \<Rightarrow> (string, string) fmap \<Rightarrow> (string, string) fmap" where
  "mergeHeaderTrailers headers trailers = fold mergeHeader headers trailers"

section \<open>Responses\<close>

record GRPCResponse =
  gr_messages :: "bytes list"
  gr_trailers :: "(string, string) fmap"

definition emptyResponse :: GRPCResponse where
  "emptyResponse = \<lparr>gr_messages = [], gr_trailers = fmempty\<rparr>"

text \<open>The loop over the frames: the response so far, and the error that ends it.\<close>

function parseFrames :: "bytes \<Rightarrow> GRPCResponse \<Rightarrow> GRPCResponse \<times> goerr option" where
  "parseFrames decoded response =
    (if length decoded < 5 then (response, None)
     else let flag = decoded ! 0; len = unat (getUint32 (drop 1 decoded)); rest = drop 5 decoded
       in if length rest < len then (response, None)
          else let payload = take len rest; rest = drop len rest
            in if flag AND 128 \<noteq> 0
               then parseFrames rest (response\<lparr>gr_trailers := gr_trailers response ++\<^sub>f parseGRPCTrailers payload\<rparr>)
               else if flag AND 1 \<noteq> 0 then (response, Some (ErrOther ''grpc-web compressed frame is not supported''))
               else parseFrames rest (response\<lparr>gr_messages := gr_messages response @ [payload]\<rparr>))"
  by auto
termination
  by (relation "measure (\<lambda>(decoded, _). length decoded)") auto

declare parseFrames.simps [simp del]

definition ParseResponse :: "bytes \<Rightarrow> string \<Rightarrow> (string \<times> string) list \<Rightarrow> GRPCResponse \<times> goerr option" where
  "ParseResponse body contentType headers =
    (case maybeDecodeBase64 body contentType of
       Inl e \<Rightarrow> (emptyResponse, Some e)
     | Inr decoded \<Rightarrow>
         (case parseFrames decoded emptyResponse of
            (response, Some e) \<Rightarrow> (response, Some e)
          | (response, None) \<Rightarrow>
              (response\<lparr>gr_trailers := mergeHeaderTrailers headers (gr_trailers response)\<rparr>, None)))"

section \<open>What a server sends comes back\<close>

definition wireFrame :: "8 word \<Rightarrow> bytes \<Rightarrow> bytes" where
  "wireFrame flag data = flag # putUint32 (word_of_nat (length data)) @ data"

text \<open>An answer on the wire: the messages, then a frame of trailers.\<close>

definition wire :: "bytes list \<Rightarrow> bytes \<Rightarrow> bytes" where
  "wire msgs trailers = concat (map EncodePayload msgs) @ wireFrame 128 trailers"

definition small :: "bytes \<Rightarrow> bool" where
  "small data \<longleftrightarrow> length data < 2 ^ 32"

lemma EncodePayload_frame: "EncodePayload = wireFrame 0"
  by (simp add: EncodePayload_def wireFrame_def fun_eq_iff)

lemma putUint32_length [simp]: "length (putUint32 n) = 4"
  by (simp add: putUint32_def)

lemma get_put:
  fixes n :: "32 word"
  shows "getUint32 (putUint32 n @ rest) = n"
proof -
  have "push_bit 24 (ucast (ucast (drop_bit 24 n) :: 8 word)) OR push_bit 16 (ucast (ucast (drop_bit 16 n) :: 8 word)) OR
    push_bit 8 (ucast (ucast (drop_bit 8 n) :: 8 word)) OR ucast (ucast n :: 8 word) = n"
  proof (rule bit_word_eqI)
    fix i assume "i < LENGTH(32)"
    then have "i < 32" by simp
    then consider "24 \<le> i" "i < 32" | "16 \<le> i" "i < 24" | "8 \<le> i" "i < 16" | "i < 8" by linarith
    then show "bit (push_bit 24 (ucast (ucast (drop_bit 24 n) :: 8 word)) OR push_bit 16 (ucast (ucast (drop_bit 16 n) :: 8 word)) OR
      push_bit 8 (ucast (ucast (drop_bit 8 n) :: 8 word)) OR ucast (ucast n :: 8 word) :: 32 word) i = bit n i"
      by cases (auto simp: bit_simps)
  qed
  then show ?thesis by (simp add: putUint32_def)
qed

lemma frame_length: "small data \<Longrightarrow> unat (word_of_nat (length data) :: 32 word) = length data"
  by (simp add: small_def unat_of_nat take_bit_nat_def)

lemma parse_head:
  assumes "length h = 4"
  shows "parseFrames (flag # h @ rest) response =
    (let len = unat (getUint32 (h @ rest))
     in if length rest < len then (response, None)
        else if flag AND 128 \<noteq> 0
        then parseFrames (drop len rest) (response\<lparr>gr_trailers := gr_trailers response ++\<^sub>f parseGRPCTrailers (take len rest)\<rparr>)
        else if flag AND 1 \<noteq> 0 then (response, Some (ErrOther ''grpc-web compressed frame is not supported''))
        else parseFrames (drop len rest) (response\<lparr>gr_messages := gr_messages response @ [take len rest]\<rparr>))"
proof -
  have "drop 5 (flag # h @ rest) = rest" "drop 1 (flag # h @ rest) = h @ rest" "\<not> length (flag # h @ rest) < 5"
    using assms by simp_all
  then show ?thesis by (subst parseFrames.simps) (simp only: Let_def nth_Cons_0 if_False)
qed

lemma parse_frame:
  assumes "small data"
  shows "parseFrames (wireFrame flag data @ rest) response =
    (if flag AND 128 \<noteq> 0
     then parseFrames rest (response\<lparr>gr_trailers := gr_trailers response ++\<^sub>f parseGRPCTrailers data\<rparr>)
     else if flag AND 1 \<noteq> 0 then (response, Some (ErrOther ''grpc-web compressed frame is not supported''))
     else parseFrames rest (response\<lparr>gr_messages := gr_messages response @ [data]\<rparr>))"
proof -
  have "unat (getUint32 (putUint32 (word_of_nat (length data)) @ data @ rest)) = length data"
    by (simp only: get_put frame_length [OF assms])
  then show ?thesis
    using parse_head [of "putUint32 (word_of_nat (length data))" flag "data @ rest" response] by (simp add: wireFrame_def)
qed

text \<open>A frame that is cut ends the loop without an error.\<close>

lemma parse_cut:
  assumes "small data" "strict_prefix p (wireFrame flag data)"
  shows "parseFrames p response = (response, None)"
proof (cases "length p < 5")
  case True
  then show ?thesis by (subst parseFrames.simps) simp
next
  case False
  obtain q where q: "wireFrame flag data = p @ q" "q \<noteq> []" using assms(2) by (auto simp: strict_prefix_def prefix_def)
  have p: "p = take (length p) (wireFrame flag data)" using q(1) by simp
  define k where "k = length p - 5"
  have k: "length p = Suc (Suc (Suc (Suc (Suc k))))" using False by (simp add: k_def)
  have "take (length p) (wireFrame flag data) = flag # putUint32 (word_of_nat (length data)) @ take k data"
    unfolding k by (simp add: wireFrame_def putUint32_def)
  then have pk: "p = flag # putUint32 (word_of_nat (length data)) @ take k data" using p by simp
  have "length p < length (wireFrame flag data)" using q by simp
  then have "k < length data" unfolding k by (simp add: wireFrame_def)
  moreover have "unat (getUint32 (putUint32 (word_of_nat (length data)) @ take k data)) = length data"
    by (simp only: get_put frame_length [OF assms(1)])
  ultimately show ?thesis
    unfolding pk using parse_head [of "putUint32 (word_of_nat (length data))" flag "take k data" response] by (simp add: Let_def)
qed

lemma parse_messages:
  "list_all small msgs \<Longrightarrow> parseFrames (concat (map EncodePayload msgs) @ rest) response =
    parseFrames rest (response\<lparr>gr_messages := gr_messages response @ msgs\<rparr>)"
proof (induction msgs arbitrary: response)
  case (Cons m msgs)
  then show ?case using parse_frame [of m 0 "concat (map (wireFrame 0) msgs) @ rest" response]
    by (simp add: EncodePayload_frame)
qed simp

lemma parse_wire:
  assumes "list_all small msgs" "small trailers"
  shows "parseFrames (wire msgs trailers) emptyResponse = (\<lparr>gr_messages = msgs, gr_trailers = parseGRPCTrailers trailers\<rparr>, None)"
proof -
  have "parseFrames [] response = (response, None)" for response by (subst parseFrames.simps) simp
  then show ?thesis
    using parse_messages [OF assms(1)] parse_frame [OF assms(2), of 128 "[]"]
    by (simp add: wire_def emptyResponse_def)
qed

section \<open>Decoding of the body\<close>

lemma wire_head: "\<exists>b rest. wire msgs trailers = b # rest \<and> \<not> base64HeadByte b"
proof -
  have "\<not> base64HeadByte 0" "\<not> base64HeadByte 128" by (simp_all add: base64HeadByte_def)
  then show ?thesis by (cases msgs) (auto simp: wire_def EncodePayload_def wireFrame_def)
qed

lemma decode_binary:
  assumes "\<not> textContent contentType" "prefix body (wire msgs trailers)"
  shows "maybeDecodeBase64 body contentType = Inr body"
proof -
  obtain b rest where b: "wire msgs trailers = b # rest" "\<not> base64HeadByte b" using wire_head by metis
  have "body = [] \<or> (\<exists>r. body = b # r)" using assms(2) unfolding b(1) by (cases body) auto
  then show ?thesis using assms(1) b(2) by (auto simp: maybeDecodeBase64_def isBase64Head_def)
qed

lemma blank_byte: "(word_of_nat (byteOf c) :: 8 word) \<in> {32, 9, 13, 10} \<longleftrightarrow> \<not> notBlank c"
proof -
  have "(word_of_nat (byteOf c) :: 8 word) = word_of_nat k \<longleftrightarrow> byteOf c = k" if "k < 256" for k
    using byteOf_less [of c] that by (simp add: word_unat_eq_iff unat_of_nat take_bit_nat_def)
  from this [of 32] this [of 9] this [of 13] this [of 10] show ?thesis by (auto simp: notBlank_def)
qed

lemma compact_encoded: "stringOf (compactWhitespace (bytesOf (b64encode pad bs))) = b64encode pad bs"
proof -
  have "compactWhitespace (bytesOf s) = bytesOf s" if "list_all notBlank s" for s
    using that blank_byte by (induction s) (auto simp: compactWhitespace_def bytesOf_def)
  then show ?thesis using b64encode_blank by simp
qed

lemma b64_head_byte: "n < 64 \<Longrightarrow> base64HeadByte (word_of_nat (byteOf (b64char n)))"
proof -
  assume n: "n < 64"
  have b: "byteOf (b64char n) =
      (if n < 26 then 65 + n else if n < 52 then 71 + n else if n < 62 then n - 4 else if n = 62 then 43 else 47)"
    using n by (simp add: b64char_def byteOf_def)
  have u: "unat (word_of_nat k :: 8 word) = k" if "k < 256" for k using that by (simp add: unat_of_nat take_bit_nat_def)
  show ?thesis
    unfolding b base64HeadByte_def Let_def using n by (auto simp: u simp del: of_nat_add of_nat_diff)
qed

lemma pad_head_byte: "base64HeadByte (word_of_nat (byteOf (CHR ''='')))"
  by (simp add: base64HeadByte_def byteOf_def)

lemma encoded_head: "list_all base64HeadByte (bytesOf (b64encode pad bs))"
proof (induction pad bs rule: b64encode.induct)
  case (2 pad x)
  have "unat x * 65536 < 16777216" using group_bytes(1) [of "unat x" 0 0] unat8 [of x] by simp
  then show ?case using b64_head_byte pad_head_byte by (auto simp: quad_def bytesOf_def)
next
  case (3 pad x y)
  have "unat x * 65536 + unat y * 256 < 16777216" using group_bytes(1) [of "unat x" "unat y" 0] unat8 [of x] unat8 [of y] by simp
  then show ?case using b64_head_byte pad_head_byte by (auto simp: quad_def bytesOf_def)
next
  case (4 pad x y z rest)
  have "unat x * 65536 + unat y * 256 + unat z < 16777216" by (rule group_bytes(1) [OF unat8 unat8 unat8])
  then show ?case using 4 b64_head_byte by (auto simp: quad_def bytesOf_def)
qed (simp add: bytesOf_def)

lemma decode_text: "maybeDecodeBase64 (bytesOf (b64encode True bs)) contentType = Inr bs"
proof -
  have "isBase64Head (take n (bytesOf (b64encode True bs)))" for n
    using encoded_head [of True bs] by (auto simp: isBase64Head_def list_all_iff dest: in_set_takeD)
  moreover have "bytesOf (b64encode True bs) = [] \<Longrightarrow> bs = []"
    using b64_roundtrip [of True bs] by (simp add: b64decode_def)
  ultimately show ?thesis by (auto simp: maybeDecodeBase64_def compact_encoded b64_roundtrip)
qed

text \<open>C33. The messages and trailers a server sends come back, as binary frames or in base64, whatever the content
  type says of a base64 body; without a status in the trailers the headers give it.\<close>

theorem grpc_roundtrip:
  assumes "list_all small msgs" "small trailers"
    and "body = bytesOf (b64encode True (wire msgs trailers)) \<or> body = wire msgs trailers \<and> \<not> textContent contentType"
  shows "ParseResponse body contentType headers =
    (\<lparr>gr_messages = msgs, gr_trailers = mergeHeaderTrailers headers (parseGRPCTrailers trailers)\<rparr>, None)"
proof -
  have "maybeDecodeBase64 body contentType = Inr (wire msgs trailers)"
    using assms(3) decode_text decode_binary by blast
  then show ?thesis by (simp add: ParseResponse_def parse_wire [OF assms(1,2)])
qed

text \<open>A binary answer that is cut anywhere is read without an error as a front part of its messages, and never
  as a success: its status is missing.\<close>

theorem grpc_truncated:
  assumes "list_all small msgs" "small trailers" "strict_prefix body (wire msgs trailers)" "\<not> textContent contentType"
  shows "\<exists>k. ParseResponse body contentType [] = (\<lparr>gr_messages = take k msgs, gr_trailers = fmempty\<rparr>, None) \<and>
    HTTPEquivalent (GRPCStatusFromTrailers (gr_trailers (fst (ParseResponse body contentType [])))) = 502"
proof -
  have cut: "\<exists>k. parseFrames body emptyResponse = (\<lparr>gr_messages = take k msgs, gr_trailers = fmempty\<rparr>, None)"
    using assms(1,3)
  proof -
    have "\<exists>k. parseFrames body r = (r\<lparr>gr_messages := gr_messages r @ take k msgs\<rparr>, None)"
      if "list_all small msgs" "strict_prefix body (concat (map EncodePayload msgs) @ wireFrame 128 trailers)" for r msgs body
      using that
    proof (induction msgs arbitrary: body r)
      case Nil
      then show ?case using parse_cut [OF assms(2)] by simp
    next
      case (Cons m msgs)
      let ?rest = "concat (map EncodePayload msgs) @ wireFrame 128 trailers"
      show ?case
      proof (cases "strict_prefix body (wireFrame 0 m)")
        case True
        then show ?thesis using parse_cut [of m body 0 r] Cons.prems(1) by (intro exI [of _ 0]) simp
      next
        case False
        have "prefix body (wireFrame 0 m @ ?rest)" using Cons.prems(2) by (simp add: EncodePayload_frame)
        then have "prefix body (wireFrame 0 m) \<or> (\<exists>p. body = wireFrame 0 m @ p \<and> prefix p ?rest)" by (rule prefix_append [THEN iffD1])
        then obtain p where p: "body = wireFrame 0 m @ p" "prefix p ?rest"
          using False by (metis append.right_neutral strict_prefixI Nil_prefix)
        then have "strict_prefix p ?rest" using Cons.prems(2) by (auto simp: EncodePayload_frame strict_prefix_def)
        then obtain k where k: "parseFrames p (r\<lparr>gr_messages := gr_messages r @ [m]\<rparr>) =
            (r\<lparr>gr_messages := (gr_messages r @ [m]) @ take k msgs\<rparr>, None)"
          using Cons.IH [of p "r\<lparr>gr_messages := gr_messages r @ [m]\<rparr>"] Cons.prems(1) by auto
        then show ?thesis using parse_frame [of m 0 p r] Cons.prems(1) p(1) by (intro exI [of _ "Suc k"]) simp
      qed
    qed
    from this [OF assms(1), of body emptyResponse] assms(3) show ?thesis by (simp add: wire_def emptyResponse_def)
  qed
  have "maybeDecodeBase64 body contentType = Inr body"
    using assms(3) by (intro decode_binary [OF assms(4), of body msgs trailers]) (simp add: strict_prefix_def)
  moreover have "HTTPEquivalent (GRPCStatusFromTrailers fmempty) = 502"
    by (simp add: HTTPEquivalent_def GRPCStatusFromTrailers_def trailerValue_def trimSpace_Nil atoi_def hasPrefix_def)
  ultimately show ?thesis using cut by (auto simp: ParseResponse_def mergeHeaderTrailers_def)
qed

definition sampleMsgs :: "bytes list" where
  "sampleMsgs = [[1, 2], []]"

definition sampleTrailers :: bytes where
  "sampleTrailers = bytesOf ''grpc-status:0''"

lemma sample_small: "list_all small sampleMsgs" "small sampleTrailers"
  by (simp_all add: sampleMsgs_def sampleTrailers_def small_def bytesOf_def)

theorem grpc_roundtrip_witness:
  "gr_messages (fst (ParseResponse (bytesOf (b64encode True (wire sampleMsgs sampleTrailers))) ''application/grpc-web'' [])) =
    [[1, 2], []]"
proof -
  have "bytesOf (b64encode True (wire sampleMsgs sampleTrailers)) = bytesOf (b64encode True (wire sampleMsgs sampleTrailers)) \<or>
      bytesOf (b64encode True (wire sampleMsgs sampleTrailers)) = wire sampleMsgs sampleTrailers \<and> \<not> textContent ''application/grpc-web''"
    by (rule disjI1) (rule refl)
  from grpc_roundtrip [OF sample_small this, of "[]"] show ?thesis by (simp add: sampleMsgs_def)
qed

theorem grpc_truncated_witness:
  "HTTPEquivalent (GRPCStatusFromTrailers (gr_trailers (fst (ParseResponse [0, 0, 0] '''' [])))) = 502"
proof -
  have "strict_prefix [0, 0, 0] (wire sampleMsgs sampleTrailers)"
    by (simp add: wire_def sampleMsgs_def EncodePayload_def putUint32_def strict_prefix_def)
  moreover have "\<not> textContent ''''" by (simp add: textContent_def goLower_def)
  ultimately show ?thesis using grpc_truncated [OF sample_small] by metis
qed

end
