(* ===== verification/CredentialCipher.thy ===== *)
theory CredentialCipher
  imports Base64
begin

text \<open>
  Credentials at rest (\<open>app/platform/security/cipher.go\<close>): a prefix, and the nonce and the sealed text in unpadded
  base64. AES-GCM is an argument, a record of its nonce size and of what \<open>Seal\<close> and \<open>Open\<close> answer; no cipher
  stands for a nil pointer, which turns encryption off.
\<close>

record AEAD =
  ae_nonceSize :: nat
  ae_seal :: "bytes \<Rightarrow> bytes \<Rightarrow> bytes"
  ae_open :: "bytes \<Rightarrow> bytes \<Rightarrow> bytes option"

definition encryptedPrefix :: string where
  "encryptedPrefix = ''gorkenc:v1:''"

text \<open>The key material of \<open>NewCipher\<close>; \<open>newGCM\<close> is the cipher a key of 32 bytes gives.\<close>

definition NewCipher :: "(bytes \<Rightarrow> AEAD) \<Rightarrow> string \<Rightarrow> goerr + AEAD" where
  "NewCipher newGCM encodedKey =
    (case b64decode True (trimSpace encodedKey) of
       None \<Rightarrow> Inl (ErrField ''parse credential encryption key'' (ErrOther ''illegal base64 data''))
     | Some key \<Rightarrow>
         if length key \<noteq> 32 then Inl (ErrOther ''credential encryption key must be base64-encoded 32 bytes'')
         else Inr (newGCM key))"

definition OpenCipher :: "(bytes \<Rightarrow> AEAD) \<Rightarrow> string \<Rightarrow> goerr + AEAD option" where
  "OpenCipher newGCM encodedKey =
    (if trimSpace encodedKey = '''' then Inr None else bindE (NewCipher newGCM encodedKey) (\<lambda>c. Inr (Some c)))"

definition Encrypt :: "AEAD option \<Rightarrow> bytes \<Rightarrow> string \<Rightarrow> string" where
  "Encrypt c nonce plaintext =
    (case c of
       None \<Rightarrow> plaintext
     | Some a \<Rightarrow>
         if plaintext = '''' then ''''
         else encryptedPrefix @ b64encode False (nonce @ ae_seal a nonce (bytesOf plaintext)))"

definition IsEncrypted :: "string \<Rightarrow> bool" where
  "IsEncrypted value = hasPrefix value encryptedPrefix"

definition noKey :: goerr where
  "noKey = ErrOther ''encrypted credential present but encryption key is not configured''"

definition Decrypt :: "AEAD option \<Rightarrow> string \<Rightarrow> goerr + string" where
  "Decrypt c encoded =
    (if encoded = '''' then Inr ''''
     else if \<not> hasPrefix encoded encryptedPrefix then Inr encoded
     else (case c of
       None \<Rightarrow> Inl noKey
     | Some a \<Rightarrow>
         (case b64decode False (drop (length encryptedPrefix) encoded) of
            None \<Rightarrow> Inl (ErrField ''parse encrypted credential'' (ErrOther ''illegal base64 data''))
          | Some data \<Rightarrow>
              if length data < ae_nonceSize a then Inl (ErrOther ''encrypted credential length invalid'')
              else (case ae_open a (take (ae_nonceSize a) data) (drop (ae_nonceSize a) data) of
                      None \<Rightarrow> Inl (ErrField ''decrypt credential'' (ErrOther ''message authentication failed''))
                    | Some plain \<Rightarrow> Inr (stringOf plain)))))"

definition SealOptional :: "AEAD option \<Rightarrow> bytes \<Rightarrow> string \<Rightarrow> string" where
  "SealOptional c nonce plaintext = (if c = None then plaintext else Encrypt c nonce plaintext)"

definition OpenOptional :: "AEAD option \<Rightarrow> string \<Rightarrow> goerr + string" where
  "OpenOptional c value =
    (if c = None then if IsEncrypted value then Inl noKey else Inr value else Decrypt c value)"

text \<open>What the code relies on: a sealed text opens again with the same nonce.\<close>

definition authentic :: "AEAD \<Rightarrow> bool" where
  "authentic a \<longleftrightarrow> (\<forall>nonce plain. ae_open a nonce (ae_seal a nonce plain) = Some plain)"

definition usable :: "AEAD option \<Rightarrow> bytes \<Rightarrow> string \<Rightarrow> bool" where
  "usable c nonce plaintext \<longleftrightarrow>
    (case c of None \<Rightarrow> \<not> IsEncrypted plaintext | Some a \<Rightarrow> authentic a \<and> length nonce = ae_nonceSize a)"

lemma open_seal: "usable c nonce p \<Longrightarrow> OpenOptional c (SealOptional c nonce p) = Inr p"
proof (cases c)
  case (Some a)
  assume u: "usable c nonce p"
  then have n: "length nonce = ae_nonceSize a" and o1: "ae_open a nonce (ae_seal a nonce (bytesOf p)) = Some (bytesOf p)"
    using Some by (auto simp: usable_def authentic_def)
  show ?thesis
  proof (cases "p = ''''")
    case False
    have "hasPrefix (encryptedPrefix @ w) encryptedPrefix" for w by (simp add: hasPrefix_def)
    moreover have "encryptedPrefix \<noteq> ''''" by (simp add: encryptedPrefix_def)
    ultimately show ?thesis
      using Some n o1 False by (simp add: SealOptional_def OpenOptional_def Encrypt_def Decrypt_def b64_roundtrip)
  qed (use Some in \<open>simp add: SealOptional_def OpenOptional_def Encrypt_def Decrypt_def\<close>)
qed (simp add: usable_def SealOptional_def OpenOptional_def)

text \<open>A credential comes back as it was stored, with encryption on or off; with encryption off only a text that
  looks encrypted is refused.\<close>

theorem cipher_roundtrip:
  assumes "c = None \<or> (\<exists>a. c = Some a \<and> authentic a \<and> length nonce = ae_nonceSize a)"
  shows "OpenOptional c (SealOptional c nonce plaintext) =
    (if c = None \<and> IsEncrypted plaintext then Inl noKey else Inr plaintext)"
  using assms open_seal [of c nonce plaintext]
  by (auto simp: usable_def OpenOptional_def SealOptional_def split: option.splits)

definition sampleAEAD :: AEAD where
  "sampleAEAD = \<lparr>ae_nonceSize = 2, ae_seal = (\<lambda>nonce plain. plain @ nonce),
     ae_open = (\<lambda>nonce data. if drop (length data - length nonce) data = nonce then Some (take (length data - length nonce) data) else None)\<rparr>"

theorem cipher_roundtrip_witness: "OpenOptional (Some sampleAEAD) (SealOptional (Some sampleAEAD) [1, 2] ''token'') = Inr ''token''"
proof -
  have "authentic sampleAEAD" "length [1 :: 8 word, 2] = ae_nonceSize sampleAEAD"
    by (simp_all add: authentic_def sampleAEAD_def)
  then show ?thesis using cipher_roundtrip [of "Some sampleAEAD" "[1, 2]" "''token''"] by simp
qed

end
