(* ===== verification/BuildPool.thy ===== *)
theory BuildPool
  imports CredentialCipher
begin

text \<open>
  The account pool of the Build upstream: billing snapshots (\<open>dataplane/build/billing.go\<close>,
  \<open>billing_quota.go\<close>), credentials (\<open>credentials.go\<close>, \<open>types.go\<close>) and the store of accounts
  (\<open>control/buildaccount/sqlite.go\<close>, \<open>types.go\<close>), whose table is a list of rows in the order of their ids. A
  \<open>time.Time\<close> is an optional number of nanoseconds (\<open>None\<close> is the zero time); the table keeps seconds. Arguments
  of the model: \<open>strconv.ParseFloat\<close>, the decoded claims of a JWT, time parsing and formatting, AES-GCM with its
  nonces. Opening the database and driver errors are not modelled.
\<close>

type_synonym gotime = "int option"

definition secondNS :: int where
  "secondNS = 1000000000"

text \<open>\<open>a.After(b)\<close>; the zero time is before every other.\<close>

definition afterTime :: "gotime \<Rightarrow> gotime \<Rightarrow> bool" where
  "afterTime a b = (case (a, b) of (None, _) \<Rightarrow> False | (Some _, None) \<Rightarrow> True | (Some x, Some y) \<Rightarrow> x > y)"

section \<open>Billing\<close>

record Billing =
  bi_planCode :: string
  bi_planName :: string
  bi_monthlyLimit :: rat
  bi_used :: rat
  bi_onDemandCap :: rat
  bi_onDemandUsed :: rat
  bi_prepaidBalance :: rat
  bi_creditUsagePercent :: rat
  bi_unified :: bool
  bi_topUpMethod :: string
  bi_periodStart :: string
  bi_periodEnd :: string
  bi_usageType :: string
  bi_usageStart :: string
  bi_usageEnd :: string
  bi_syncedAt :: gotime

definition emptyBilling :: Billing where
  "emptyBilling = \<lparr>bi_planCode = '''', bi_planName = '''', bi_monthlyLimit = 0, bi_used = 0, bi_onDemandCap = 0,
     bi_onDemandUsed = 0, bi_prepaidBalance = 0, bi_creditUsagePercent = 0, bi_unified = False, bi_topUpMethod = '''',
     bi_periodStart = '''', bi_periodEnd = '''', bi_usageType = '''', bi_usageStart = '''', bi_usageEnd = '''',
     bi_syncedAt = None\<rparr>"

definition firstValue :: "gomap \<Rightarrow> string list \<Rightarrow> goval" where
  "firstValue values keys = (case filter (\<lambda>k. k |\<in>| fmdom values) keys of [] \<Rightarrow> GNil | k # _ \<Rightarrow> mapGet values k)"

text \<open>Numbers come as numbers, as text, or wrapped in an object under \<open>val\<close>.\<close>

primrec numberValue :: "(string \<Rightarrow> rat) \<Rightarrow> goval \<Rightarrow> rat" where
  "numberValue parseFloat GNil = 0"
| "numberValue parseFloat (GBool b) = 0"
| "numberValue parseFloat (GInt n) = fl (of_int n)"
| "numberValue parseFloat (GInt64 n) = fl (of_int n)"
| "numberValue parseFloat (GFloat r) = r"
| "numberValue parseFloat (GStr s) = parseFloat (trimSpace s)"
| "numberValue parseFloat (GMap m) = (case fmlookup (fmmap (numberValue parseFloat) m) ''val'' of None \<Rightarrow> 0 | Some r \<Rightarrow> r)"
| "numberValue parseFloat (GMapMap m) = 0"
| "numberValue parseFloat GOther = 0"

definition boolValue :: "goval \<Rightarrow> bool" where
  "boolValue v = (case v of GBool b \<Rightarrow> b | _ \<Rightarrow> False)"

definition stringValue :: "goval \<Rightarrow> string" where
  "stringValue v = (case v of GStr s \<Rightarrow> s | _ \<Rightarrow> '''')"

definition planKey :: "gomap \<Rightarrow> string \<Rightarrow> string \<times> string \<Rightarrow> string \<times> string" where
  "planKey values key cn =
    (case fmlookup values key of
       Some (GStr typed) \<Rightarrow> (fst cn, if snd cn = '''' then typed else snd cn)
     | Some (GMap typed) \<Rightarrow>
         (if fst cn = '''' then stringValue (firstValue typed [''code'', ''id'', ''tier'', ''slug'']) else fst cn,
          if snd cn = '''' then stringValue (firstValue typed [''name'', ''displayName'', ''display_name'', ''label'']) else snd cn)
     | _ \<Rightarrow> cn)"

definition planValues :: "gomap \<Rightarrow> string \<times> string" where
  "planValues values =
    fold (planKey values) [''plan'', ''subscription'', ''membership'']
      (stringValue (firstValue values [''planCode'', ''plan_code'', ''subscriptionTier'', ''subscription_tier'', ''tier'']),
       stringValue (firstValue values [''planName'', ''plan_name'', ''subscriptionName'', ''subscription_name'']))"

definition currentPeriod :: "gomap \<Rightarrow> Billing \<Rightarrow> Billing" where
  "currentPeriod values b =
    (case fmlookup values ''currentPeriod'' of
       Some (GMap period) \<Rightarrow>
         b\<lparr>bi_usageType := stringValue (mapGet period ''type''), bi_usageStart := stringValue (mapGet period ''start''),
           bi_usageEnd := stringValue (mapGet period ''end'')\<rparr>
     | _ \<Rightarrow> b)"

text \<open>The fields of \<open>root\<close>, then those that may stand beside \<open>config\<close>, then the derived percentage.\<close>

definition billingFields :: "(string \<Rightarrow> rat) \<Rightarrow> gomap \<Rightarrow> string \<times> string \<Rightarrow> Billing" where
  "billingFields parseFloat obj plan =
    (let num = (\<lambda>keys. numberValue parseFloat (firstValue obj keys)); str = (\<lambda>keys. stringValue (firstValue obj keys))
     in \<lparr>bi_planCode = fst plan, bi_planName = snd plan,
       bi_monthlyLimit = num [''monthlyLimit'', ''monthly_limit''],
       bi_used = num [''used'', ''totalUsed'', ''includedUsed''],
       bi_onDemandCap = num [''onDemandCap'', ''on_demand_cap'', ''maxAmountPerMonth''],
       bi_onDemandUsed = num [''onDemandUsed'', ''on_demand_used''],
       bi_prepaidBalance = num [''prepaidBalance'', ''prepaid_balance''],
       bi_creditUsagePercent = num [''creditUsagePercent'', ''credit_usage_percent''],
       bi_unified = boolValue (firstValue obj [''isUnifiedBillingUser'', ''is_unified_billing_user'']),
       bi_topUpMethod = str [''topUpMethod'', ''top_up_method''],
       bi_periodStart = str [''billingPeriodStart'', ''billing_period_start''],
       bi_periodEnd = str [''billingPeriodEnd'', ''billing_period_end''],
       bi_usageType = '''', bi_usageStart = '''', bi_usageEnd = '''', bi_syncedAt = None\<rparr>)"

definition billingOuter :: "gomap \<Rightarrow> Billing \<Rightarrow> Billing" where
  "billingOuter original b =
    (let orStr = (\<lambda>v keys. if v = '''' then stringValue (firstValue original keys) else v)
     in b\<lparr>bi_unified := bi_unified b \<or> boolValue (firstValue original [''isUnifiedBillingUser'', ''is_unified_billing_user'']),
       bi_topUpMethod := orStr (bi_topUpMethod b) [''topUpMethod'', ''top_up_method''],
       bi_periodStart := orStr (bi_periodStart b) [''billingPeriodStart'', ''billing_period_start''],
       bi_periodEnd := orStr (bi_periodEnd b) [''billingPeriodEnd'', ''billing_period_end'']\<rparr>)"

definition usagePercent :: "Billing \<Rightarrow> Billing" where
  "usagePercent b =
    (if bi_creditUsagePercent b \<noteq> 0 then b
     else if bi_onDemandCap b > 0 then b\<lparr>bi_creditUsagePercent := fl (fl (bi_onDemandUsed b / bi_onDemandCap b) * 100)\<rparr>
     else if bi_monthlyLimit b > 0 then b\<lparr>bi_creditUsagePercent := fl (fl (bi_used b / bi_monthlyLimit b) * 100)\<rparr>
     else b)"

text \<open>\<open>ParseBilling\<close>, from the object the JSON text stands for.\<close>

definition ParseBilling :: "(string \<Rightarrow> rat) \<Rightarrow> gomap \<Rightarrow> Billing" where
  "ParseBilling parseFloat original =
    (let obj = (case fmlookup original ''config'' of Some (GMap nested) \<Rightarrow> nested | _ \<Rightarrow> original);
         (code, name) = planValues obj;
         (outerCode, outerName) = planValues original;
         b = billingFields parseFloat obj (if code = '''' then outerCode else code, if name = '''' then outerName else name);
         b = currentPeriod obj (billingOuter original b);
         b = (if bi_usageType b = '''' then currentPeriod original b else b)
     in usagePercent b)"

definition MergeBillingSnapshots :: "Billing \<Rightarrow> Billing \<Rightarrow> Billing" where
  "MergeBillingSnapshots monthly credits =
    monthly\<lparr>bi_planCode := (if bi_planCode monthly = '''' then bi_planCode credits else bi_planCode monthly),
      bi_planName := (if bi_planName monthly = '''' then bi_planName credits else bi_planName monthly),
      bi_onDemandCap := bi_onDemandCap credits, bi_onDemandUsed := bi_onDemandUsed credits,
      bi_prepaidBalance := bi_prepaidBalance credits, bi_creditUsagePercent := bi_creditUsagePercent credits,
      bi_unified := bi_unified credits, bi_topUpMethod := bi_topUpMethod credits, bi_usageType := bi_usageType credits,
      bi_usageStart := bi_usageStart credits, bi_usageEnd := bi_usageEnd credits\<rparr>"

text \<open>\<open>GetBilling\<close>, from the answers to the two queries; the second may fail.\<close>

definition GetBilling :: "gotime \<Rightarrow> goerr + Billing \<Rightarrow> goerr + Billing \<Rightarrow> goerr + Billing" where
  "GetBilling now monthly credits =
    bindE monthly (\<lambda>m.
      Inr ((case credits of Inl _ \<Rightarrow> m | Inr c \<Rightarrow> MergeBillingSnapshots m c)\<lparr>bi_syncedAt := now\<rparr>))"

definition HasQuotaSnapshot :: "Billing \<Rightarrow> bool" where
  "HasQuotaSnapshot b \<longleftrightarrow>
    bi_syncedAt b \<noteq> None \<or> bi_monthlyLimit b > 0 \<or> bi_onDemandCap b > 0 \<or> bi_creditUsagePercent b > 0 \<or>
    bi_prepaidBalance b > 0 \<or> bi_used b > 0 \<or> bi_onDemandUsed b > 0"

definition QuotaExhausted :: "Billing \<Rightarrow> bool" where
  "QuotaExhausted b =
    (if \<not> HasQuotaSnapshot b then False
     else if bi_creditUsagePercent b \<ge> 100 then True
     else if bi_prepaidBalance b > 0 then False
     else if bi_onDemandCap b > 0 \<and> bi_onDemandUsed b < bi_onDemandCap b then False
     else if bi_monthlyLimit b > 0 \<and> bi_used b < bi_monthlyLimit b then False
     else bi_monthlyLimit b > 0 \<or> bi_onDemandCap b > 0 \<or> bi_creditUsagePercent b > 0)"

section \<open>Credentials\<close>

definition firstNonEmpty :: "string list \<Rightarrow> string" where
  "firstNonEmpty values = (case filter (\<lambda>v. v \<noteq> '''') (map trimSpace values) of [] \<Rightarrow> '''' | v # _ \<Rightarrow> v)"

definition CredentialProvider :: string where
  "CredentialProvider = ''grok_build''"

definition DefaultOAuthClientID :: string where
  "DefaultOAuthClientID = ''b1a00492-073a-47ea-816f-4c329264a828''"

record Credential =
  cr_provider :: string
  cr_name :: string
  cr_clientID :: string
  cr_access :: string
  cr_refresh :: string
  cr_idToken :: string
  cr_expiresAt :: gotime
  cr_email :: string
  cr_userID :: string
  cr_teamID :: string

record ImportedEntry =
  ie_provider :: string
  ie_name :: string
  ie_clientID :: string
  ie_access :: string
  ie_refresh :: string
  ie_idToken :: string
  ie_tokenType :: string
  ie_expiresAt :: string
  ie_expiresIn :: int
  ie_email :: string
  ie_userID :: string
  ie_principalID :: string
  ie_teamID :: string

text \<open>What the import reads besides the entry: the claims of a token (its texts and its expiry in seconds), and times.\<close>

record ImportEnv =
  im_claims :: "string \<Rightarrow> (string, string) fmap"
  im_exp :: "string \<Rightarrow> rat option"
  im_parseTime :: "string \<Rightarrow> int option"
  im_formatTime :: "int \<Rightarrow> string"
  im_now :: int

definition stringClaim :: "(string, string) fmap \<Rightarrow> string \<Rightarrow> string" where
  "stringClaim claims key = (case fmlookup claims key of None \<Rightarrow> '''' | Some v \<Rightarrow> trimSpace v)"

definition importedCredentialExpiry :: "ImportEnv \<Rightarrow> ImportedEntry \<Rightarrow> string \<Rightarrow> goerr + gotime" where
  "importedCredentialExpiry env entry token =
    (if trimSpace (ie_expiresAt entry) \<noteq> '''' then
       (case im_parseTime env (ie_expiresAt entry) of
          None \<Rightarrow> Inl (ErrField ''expires_at'' ErrSyntax) | Some t \<Rightarrow> Inr (Some t))
     else if ie_expiresIn entry > 0 then Inr (Some (im_now env + ie_expiresIn entry * secondNS))
     else (case im_exp env token of
             Some e \<Rightarrow> Inr (if e > 0 then Some (truncRat e * secondNS) else None)
           | None \<Rightarrow> Inr None))"

definition normalizeImportedCredential :: "ImportEnv \<Rightarrow> ImportedEntry \<Rightarrow> goerr + Credential" where
  "normalizeImportedCredential env entry =
    (let provider = goLower (trimSpace (ie_provider entry));
         provider = (if provider = '''' then CredentialProvider else provider);
         access = trimSpace (ie_access entry); refresh = trimSpace (ie_refresh entry)
     in if provider \<noteq> CredentialProvider then Inl (ErrOther ''unsupported provider'')
        else if access = '''' \<and> refresh = '''' then Inl (ErrOther ''no token'')
        else if ie_tokenType entry \<noteq> '''' \<and> goLower (trimSpace (ie_tokenType entry)) \<noteq> ''bearer''
        then Inl (ErrOther ''unsupported token_type'')
        else let token = firstNonEmpty [ie_idToken entry, access]; claims = im_claims env token;
                 userID = firstNonEmpty [ie_userID entry, ie_principalID entry, stringClaim claims ''sub''];
                 email = firstNonEmpty [ie_email entry, stringClaim claims ''email''];
                 teamID = firstNonEmpty [ie_teamID entry, stringClaim claims ''team_id'']
          in bindE (importedCredentialExpiry env entry token) (\<lambda>expiresAt.
               Inr \<lparr>cr_provider = provider,
                 cr_name = (if trimSpace (ie_name entry) = '''' then firstNonEmpty [email, userID, ''build-account''] else trimSpace (ie_name entry)),
                 cr_clientID = firstNonEmpty [ie_clientID entry, DefaultOAuthClientID],
                 cr_access = access, cr_refresh = refresh, cr_idToken = trimSpace (ie_idToken entry),
                 cr_expiresAt = expiresAt, cr_email = email, cr_userID = userID, cr_teamID = teamID\<rparr>))"

definition maxCredentialImportAccounts :: nat where
  "maxCredentialImportAccounts = 10000"

fun importEntries :: "ImportEnv \<Rightarrow> ImportedEntry list \<Rightarrow> goerr + Credential list" where
  "importEntries env [] = Inr []"
| "importEntries env (e # es) =
    bindE (normalizeImportedCredential env e) (\<lambda>c. bindE (importEntries env es) (\<lambda>cs. Inr (c # cs)))"

text \<open>\<open>ParseCredentials\<close>, from the entries of the JSON document.\<close>

definition ParseCredentials :: "ImportEnv \<Rightarrow> ImportedEntry list \<Rightarrow> goerr + Credential list" where
  "ParseCredentials env entries =
    (if entries = [] then Inl (ErrOther ''no accounts'')
     else if length entries > maxCredentialImportAccounts then Inl (ErrOther ''too many accounts'')
     else importEntries env entries)"

text \<open>\<open>MarshalCredentials\<close>, up to the JSON text.\<close>

definition exportEntry :: "ImportEnv \<Rightarrow> Credential \<Rightarrow> ImportedEntry" where
  "exportEntry env v =
    \<lparr>ie_provider = firstNonEmpty [cr_provider v, CredentialProvider], ie_name = cr_name v, ie_clientID = cr_clientID v,
      ie_access = cr_access v, ie_refresh = cr_refresh v, ie_idToken = '''', ie_tokenType = ''Bearer'',
      ie_expiresAt = (case cr_expiresAt v of None \<Rightarrow> '''' | Some t \<Rightarrow> im_formatTime env t), ie_expiresIn = 0,
      ie_email = cr_email v, ie_userID = cr_userID v, ie_principalID = '''', ie_teamID = cr_teamID v\<rparr>"

definition MarshalCredentials :: "ImportEnv \<Rightarrow> Credential list \<Rightarrow> ImportedEntry list" where
  "MarshalCredentials env values = map (exportEntry env) values"

end
