(* ===== verification/BuildStore.thy ===== *)
theory BuildStore
  imports BuildPool
begin

text \<open>
  The store of Build accounts (\<open>control/buildaccount/sqlite.go\<close>): the table is the list of its rows in the order of
  their ids, with the counter of AUTOINCREMENT; each operation is its SQL statement. The sealed tokens are text, the
  JSON text of a billing snapshot is the snapshot or nothing. An account the code scans is a \<open>BuildAccount\<close>, a stored
  one a \<open>BuildRow\<close>.
\<close>

definition StatusActiveB :: string where "StatusActiveB = ''active''"
definition StatusCoolingB :: string where "StatusCoolingB = ''cooling''"
definition StatusDisabledB :: string where "StatusDisabledB = ''disabled''"
definition StatusExpiredB :: string where "StatusExpiredB = ''expired''"

lemmas build_status = StatusActiveB_def StatusCoolingB_def StatusDisabledB_def StatusExpiredB_def

record BuildAccount =
  ba_id :: int
  ba_name :: string
  ba_email :: string
  ba_userID :: string
  ba_clientID :: string
  ba_access :: string
  ba_refresh :: string
  ba_expiresAt :: gotime
  ba_status :: string
  ba_coolingUntil :: gotime
  ba_priority :: int
  ba_lastUse :: gotime
  ba_failCount :: int
  ba_billing :: Billing
  ba_billingSynced :: gotime
  ba_created :: gotime
  ba_updated :: gotime

definition FromCredential :: "Credential \<Rightarrow> BuildAccount" where
  "FromCredential cred =
    \<lparr>ba_id = 0, ba_name = cr_name cred, ba_email = cr_email cred, ba_userID = cr_userID cred, ba_clientID = cr_clientID cred,
     ba_access = cr_access cred, ba_refresh = cr_refresh cred, ba_expiresAt = cr_expiresAt cred,
     ba_status = (if cr_access cred = '''' \<and> cr_refresh cred = '''' then StatusDisabledB else StatusActiveB),
     ba_coolingUntil = None, ba_priority = 0, ba_lastUse = None, ba_failCount = 0, ba_billing = emptyBilling,
     ba_billingSynced = None, ba_created = None, ba_updated = None\<rparr>"

definition ToCredential :: "BuildAccount \<Rightarrow> Credential" where
  "ToCredential a =
    \<lparr>cr_provider = CredentialProvider, cr_name = ba_name a, cr_clientID = ba_clientID a, cr_access = ba_access a,
     cr_refresh = ba_refresh a, cr_idToken = '''', cr_expiresAt = ba_expiresAt a, cr_email = ba_email a,
     cr_userID = ba_userID a, cr_teamID = ''''\<rparr>"

definition NeedsRefresh :: "BuildAccount \<Rightarrow> gotime \<Rightarrow> int \<Rightarrow> bool" where
  "NeedsRefresh a now skew =
    (if ba_access a = '''' then ba_refresh a \<noteq> ''''
     else if ba_expiresAt a = None then False
     else \<not> afterTime (ba_expiresAt a) (map_option (\<lambda>t. t + (if skew \<le> 0 then 120 * secondNS else skew)) now))"

section \<open>Rows\<close>

record BuildRow =
  br_id :: int
  br_name :: string
  br_email :: string
  br_userID :: string
  br_clientID :: string
  br_access :: string
  br_refresh :: string
  br_expiresAt :: "int option"
  br_status :: string
  br_coolingUntil :: "int option"
  br_priority :: int
  br_lastUse :: "int option"
  br_failCount :: int
  br_created :: int
  br_updated :: int
  br_reason :: "string option"
  br_deleted :: "int option"
  br_billing :: "Billing option"
  br_billingSynced :: "int option"

record BuildDB =
  bd_rows :: "BuildRow list"
  bd_seq :: int

definition unixSec :: "int \<Rightarrow> int" where
  "unixSec t = t div secondNS"

definition unixOrNull :: "gotime \<Rightarrow> int option" where
  "unixOrNull t = map_option unixSec t"

definition timeFromUnix :: "int option \<Rightarrow> gotime" where
  "timeFromUnix v = (case v of None \<Rightarrow> None | Some s \<Rightarrow> if s \<le> 0 then None else Some (s * secondNS))"

section \<open>Reading\<close>

definition scanAccount :: "AEAD option \<Rightarrow> BuildRow \<Rightarrow> goerr + BuildAccount" where
  "scanAccount c r =
    bindE (OpenOptional c (br_access r)) (\<lambda>access. bindE (OpenOptional c (br_refresh r)) (\<lambda>refresh.
      Inr \<lparr>ba_id = br_id r, ba_name = br_name r, ba_email = br_email r, ba_userID = br_userID r, ba_clientID = br_clientID r,
        ba_access = access, ba_refresh = refresh, ba_expiresAt = timeFromUnix (br_expiresAt r), ba_status = br_status r,
        ba_coolingUntil = timeFromUnix (br_coolingUntil r), ba_priority = br_priority r,
        ba_lastUse = timeFromUnix (br_lastUse r), ba_failCount = br_failCount r,
        ba_billing = (case br_billing r of None \<Rightarrow> emptyBilling | Some b \<Rightarrow> b),
        ba_billingSynced = (case timeFromUnix (br_billingSynced r) of
            Some t \<Rightarrow> Some t
          | None \<Rightarrow> (case br_billing r of None \<Rightarrow> None | Some b \<Rightarrow> bi_syncedAt b)),
        ba_created = timeFromUnix (Some (br_created r)), ba_updated = timeFromUnix (Some (br_updated r))\<rparr>))"

fun scanAccounts :: "AEAD option \<Rightarrow> BuildRow list \<Rightarrow> goerr + BuildAccount list" where
  "scanAccounts c [] = Inr []"
| "scanAccounts c (r # rs) = bindE (scanAccount c r) (\<lambda>a. bindE (scanAccounts c rs) (\<lambda>as. Inr (a # as)))"

text \<open>The rows a query sees.\<close>

definition liveRow :: "BuildRow \<Rightarrow> bool" where
  "liveRow r \<longleftrightarrow> br_deleted r = None"

definition buildNotFound :: goerr where
  "buildNotFound = ErrOther ''build account not found''"

definition scanFirst :: "AEAD option \<Rightarrow> BuildRow list \<Rightarrow> goerr + BuildAccount" where
  "scanFirst c rows = (case rows of [] \<Rightarrow> Inl buildNotFound | r # _ \<Rightarrow> scanAccount c r)"

definition GetBuild :: "AEAD option \<Rightarrow> int \<Rightarrow> BuildDB \<Rightarrow> goerr + BuildAccount" where
  "GetBuild c i db = scanFirst c (filter (\<lambda>r. br_id r = i \<and> liveRow r) (bd_rows db))"

definition GetByUserID :: "AEAD option \<Rightarrow> string \<Rightarrow> BuildDB \<Rightarrow> goerr + BuildAccount" where
  "GetByUserID c userID db = scanFirst c (filter (\<lambda>r. br_userID r = userID \<and> liveRow r) (bd_rows db))"

text \<open>\<open>ORDER BY priority DESC, id ASC\<close>.\<close>

definition byPriority :: "BuildRow list \<Rightarrow> BuildRow list" where
  "byPriority rows = sort_key (\<lambda>r. - br_priority r) rows"

definition ListBuild :: "AEAD option \<Rightarrow> BuildDB \<Rightarrow> goerr + BuildAccount list" where
  "ListBuild c db = scanAccounts c (byPriority (filter liveRow (bd_rows db)))"

definition activeRow :: "int \<Rightarrow> BuildRow \<Rightarrow> bool" where
  "activeRow now r \<longleftrightarrow> liveRow r \<and> br_status r = StatusActiveB \<and>
    (case br_coolingUntil r of None \<Rightarrow> True | Some u \<Rightarrow> u \<le> unixSec now)"

definition ListActive :: "AEAD option \<Rightarrow> int \<Rightarrow> BuildDB \<Rightarrow> goerr + BuildAccount list" where
  "ListActive c now db = scanAccounts c (byPriority (filter (activeRow now) (bd_rows db)))"

section \<open>Writing\<close>

definition firstID :: "BuildRow list \<Rightarrow> int" where
  "firstID rows = (case rows of [] \<Rightarrow> 0 | r # _ \<Rightarrow> br_id r)"

text \<open>The id of the row an upsert writes to, 0 for none.\<close>

definition existingID :: "BuildAccount \<Rightarrow> BuildDB \<Rightarrow> int" where
  "existingID a db =
    (let i = (if ba_userID a \<noteq> '''' then firstID (filter (\<lambda>r. br_userID r = ba_userID a \<and> liveRow r) (bd_rows db)) else 0);
         i = (if i = 0 \<and> ba_id a > 0 then ba_id a else i)
     in if i = 0 \<and> ba_name a \<noteq> '''' then firstID (filter (\<lambda>r. br_name r = ba_name a \<and> liveRow r) (bd_rows db)) else i)"

definition updateBuild :: "(BuildRow \<Rightarrow> bool) \<Rightarrow> (BuildRow \<Rightarrow> BuildRow) \<Rightarrow> BuildDB \<Rightarrow> BuildDB" where
  "updateBuild P f db = db\<lparr>bd_rows := map (\<lambda>r. if P r then f r else r) (bd_rows db)\<rparr>"

definition UpsertBuild :: "AEAD option \<Rightarrow> bytes \<times> bytes \<Rightarrow> int \<Rightarrow> BuildAccount \<Rightarrow> BuildDB \<Rightarrow> BuildAccount \<times> BuildDB" where
  "UpsertBuild c nonces now account db =
    (let a = (if ba_status account = '''' then account\<lparr>ba_status := StatusActiveB\<rparr> else account);
         access = SealOptional c (fst nonces) (ba_access a); refresh = SealOptional c (snd nonces) (ba_refresh a);
         i = existingID a db
     in if i > 0 then
          (a\<lparr>ba_id := i, ba_updated := Some now\<rparr>,
           updateBuild (\<lambda>r. br_id r = i)
             (\<lambda>r. r\<lparr>br_name := ba_name a, br_email := ba_email a, br_userID := ba_userID a, br_clientID := ba_clientID a,
                br_access := access, br_refresh := refresh, br_expiresAt := unixOrNull (ba_expiresAt a),
                br_status := ba_status a, br_priority := ba_priority a, br_updated := unixSec now\<rparr>) db)
        else
          (let i = bd_seq db + 1
           in (a\<lparr>ba_id := i, ba_created := Some now, ba_updated := Some now\<rparr>,
               db\<lparr>bd_rows := bd_rows db @
                 [\<lparr>br_id = i, br_name = ba_name a, br_email = ba_email a, br_userID = ba_userID a, br_clientID = ba_clientID a,
                   br_access = access, br_refresh = refresh, br_expiresAt = unixOrNull (ba_expiresAt a),
                   br_status = ba_status a, br_coolingUntil = unixOrNull (ba_coolingUntil a), br_priority = ba_priority a,
                   br_lastUse = unixOrNull (ba_lastUse a), br_failCount = ba_failCount a, br_created = unixSec now,
                   br_updated = unixSec now, br_reason = None, br_deleted = None, br_billing = None, br_billingSynced = None\<rparr>],
                 bd_seq := i\<rparr>)))"

definition UpdateTokens :: "AEAD option \<Rightarrow> bytes \<times> bytes \<Rightarrow> int \<Rightarrow> int \<Rightarrow> string \<Rightarrow> string \<Rightarrow> gotime \<Rightarrow> BuildDB \<Rightarrow> BuildDB" where
  "UpdateTokens c nonces now i access refresh expiresAt db =
    updateBuild (\<lambda>r. br_id r = i \<and> liveRow r)
      (\<lambda>r. r\<lparr>br_access := SealOptional c (fst nonces) access, br_refresh := SealOptional c (snd nonces) refresh,
         br_expiresAt := unixOrNull expiresAt, br_updated := unixSec now, br_status := StatusActiveB\<rparr>) db"

definition UpdateBilling :: "int \<Rightarrow> int \<Rightarrow> Billing \<Rightarrow> BuildDB \<Rightarrow> BuildDB" where
  "UpdateBilling now i billing db =
    (let b = (if bi_syncedAt billing = None then billing\<lparr>bi_syncedAt := Some now\<rparr> else billing)
     in updateBuild (\<lambda>r. br_id r = i \<and> liveRow r)
          (\<lambda>r. r\<lparr>br_billing := Some b, br_billingSynced := unixOrNull (bi_syncedAt b), br_updated := unixSec now\<rparr>) db)"

definition FreeQuotaRecoveryPause :: int where
  "FreeQuotaRecoveryPause = 2 * 3600 * secondNS"

definition SetStatusUntil :: "int \<Rightarrow> int \<Rightarrow> string \<Rightarrow> string \<Rightarrow> gotime \<Rightarrow> BuildDB \<Rightarrow> BuildDB" where
  "SetStatusUntil now i status reason until db =
    (let cooling = (if status = StatusCoolingB
                    then Some (unixSec (case until of None \<Rightarrow> now + FreeQuotaRecoveryPause | Some u \<Rightarrow> u)) else None)
     in updateBuild (\<lambda>r. br_id r = i \<and> liveRow r)
          (\<lambda>r. r\<lparr>br_status := status, br_reason := Some reason, br_coolingUntil := cooling, br_updated := unixSec now\<rparr>) db)"

definition SetStatus :: "int \<Rightarrow> int \<Rightarrow> string \<Rightarrow> string \<Rightarrow> BuildDB \<Rightarrow> BuildDB" where
  "SetStatus now i status reason db = SetStatusUntil now i status reason None db"

definition DeleteBuild :: "int \<Rightarrow> int \<Rightarrow> BuildDB \<Rightarrow> BuildDB" where
  "DeleteBuild now i db =
    updateBuild (\<lambda>r. br_id r = i) (\<lambda>r. r\<lparr>br_deleted := Some (unixSec now), br_updated := unixSec now\<rparr>) db"

text \<open>The view the cleaner of \<open>control/account\<close> has of the store (\<open>auto_clean_adapter.go\<close>).\<close>

definition autoCleanView :: "AEAD option \<Rightarrow> BuildDB \<Rightarrow> goerr + (int \<times> string \<times> gotime) list" where
  "autoCleanView c db = bindE (ListBuild c db) (\<lambda>as. Inr (map (\<lambda>a. (ba_id a, ba_status a, ba_updated a)) as))"

section \<open>The invariant of the table\<close>

text \<open>Ids are positive, grow with the rows and stay below the counter; the sealed tokens open.\<close>

definition build_inv :: "BuildDB \<Rightarrow> bool" where
  "build_inv db \<longleftrightarrow> sorted_wrt (<) (map br_id (bd_rows db)) \<and> (\<forall>r \<in> set (bd_rows db). 0 < br_id r \<and> br_id r \<le> bd_seq db) \<and>
    0 \<le> bd_seq db"

definition opens :: "AEAD option \<Rightarrow> BuildDB \<Rightarrow> bool" where
  "opens c db \<longleftrightarrow> (\<forall>r \<in> set (bd_rows db). \<exists>a. scanAccount c r = Inr a)"

lemma updateBuild_inv: "(\<And>r. br_id (f r) = br_id r) \<Longrightarrow> build_inv db \<Longrightarrow> build_inv (updateBuild P f db)"
proof -
  assume f: "\<And>r. br_id (f r) = br_id r" and i: "build_inv db"
  have "br_id \<circ> (\<lambda>r. if P r then f r else r) = br_id" using f by (auto simp: fun_eq_iff)
  then show ?thesis using i f by (auto simp: build_inv_def updateBuild_def)
qed

lemma store_inv:
  assumes "build_inv db"
  shows "build_inv (snd (UpsertBuild c nonces now a db))" "build_inv (UpdateTokens c nonces now i access refresh e db)"
    "build_inv (UpdateBilling now i b db)" "build_inv (SetStatusUntil now i st reason u db)" "build_inv (DeleteBuild now i db)"
proof -
  have "build_inv (db\<lparr>bd_rows := bd_rows db @ [r], bd_seq := bd_seq db + 1\<rparr>)" if "br_id r = bd_seq db + 1" for r
    using assms that by (force simp: build_inv_def sorted_wrt_append)
  then show "build_inv (snd (UpsertBuild c nonces now a db))"
    using assms by (auto simp: UpsertBuild_def Let_def intro!: updateBuild_inv)
qed (use assms in \<open>auto simp: UpdateTokens_def UpdateBilling_def SetStatusUntil_def DeleteBuild_def Let_def intro!: updateBuild_inv\<close>)

lemma scanAccounts_iff:
  "scanAccounts c rs = Inr as \<longleftrightarrow> list_all2 (\<lambda>r a. scanAccount c r = Inr a) rs as"
  by (induction rs arbitrary: as) (auto simp: bindE_Inr_iff list_all2_Cons1)

lemma scanAccount_id: "scanAccount c r = Inr a \<Longrightarrow> ba_id a = br_id r \<and> ba_status a = br_status r \<and>
    ba_userID a = br_userID r \<and> ba_priority a = br_priority r"
  by (auto simp: scanAccount_def)

lemma scanAccounts_ids: "scanAccounts c rs = Inr as \<Longrightarrow> map ba_id as = map br_id rs"
  unfolding scanAccounts_iff by (induction rule: list_all2_induct) (auto dest: scanAccount_id)

lemma ids_distinct: "build_inv db \<Longrightarrow> distinct (map br_id (bd_rows db))"
  by (auto simp: build_inv_def strict_sorted_iff)

end
