(* ===== verification/BuildDispatch.thy ===== *)
theory BuildDispatch
  imports BuildStore ModelRegistry UpstreamErrors
begin

text \<open>
  Requests over the Build accounts (\<open>products/openai/build_chat.go\<close>, \<open>build_chat_stream.go\<close>,
  \<open>build_responses.go\<close>, \<open>build_errors.go\<close>, \<open>build_models.go\<close>) and the OAuth client
  (\<open>dataplane/build/oauth.go\<close>, \<open>errors.go\<close>, \<open>upstream_error.go\<close>). The upstream and the OAuth server are
  arguments that may keep a state \<open>'w\<close> of their own; so are the reader of an answer, the preparation of the request
  body, time parsing and \<open>http.StatusText\<close>. The clock stands still during a request.
\<close>

section \<open>OAuth\<close>

datatype BuildErr =
    AuthorizationPending
  | SlowDown
  | AuthorizationDenied
  | RefreshError int string bool int "BuildErr option"
  | BuildFailed goerr

fun IsPermanentRefresh :: "BuildErr \<Rightarrow> bool" where
  "IsPermanentRefresh (RefreshError status code permanent retryAfter cause) = permanent"
| "IsPermanentRefresh e = (e = AuthorizationDenied)"

record TokenPayload =
  tp_access :: string
  tp_refresh :: string
  tp_expiresAt :: gotime
  tp_idToken :: string

text \<open>An answer of the token endpoint, its JSON body decoded.\<close>

record OAuthAnswer =
  oa_status :: int
  oa_access :: string
  oa_refresh :: string
  oa_expiresIn :: int
  oa_idToken :: string
  oa_error :: string
  oa_retryAfter :: string

definition parseRetryAfter :: "(string \<Rightarrow> int option) \<Rightarrow> int \<Rightarrow> string \<Rightarrow> int" where
  "parseRetryAfter parseHTTPTime now value =
    (let value = trimSpace value
     in case atoi value of
          Inr seconds \<Rightarrow> if seconds > 0 then seconds * secondNS
                         else (case parseHTTPTime value of Some t \<Rightarrow> if t > now then t - now else 0 | None \<Rightarrow> 0)
        | Inl _ \<Rightarrow> (case parseHTTPTime value of Some t \<Rightarrow> if t > now then t - now else 0 | None \<Rightarrow> 0))"

definition exchange :: "(string \<Rightarrow> int option) \<Rightarrow> int \<Rightarrow> goerr + OAuthAnswer \<Rightarrow> string \<Rightarrow> BuildErr + TokenPayload" where
  "exchange parseHTTPTime now answer fallbackRefresh =
    (case answer of
       Inl e \<Rightarrow> Inl (BuildFailed e)
     | Inr v \<Rightarrow>
         if oa_status v < 200 \<or> oa_status v \<ge> 300 then
           (if oa_error v = ''authorization_pending'' then Inl AuthorizationPending
            else if oa_error v = ''slow_down'' then Inl SlowDown
            else if oa_error v = ''access_denied'' \<or> oa_error v = ''expired_token'' then Inl AuthorizationDenied
            else Inl (RefreshError (oa_status v) (firstNonEmpty [oa_error v, ''oauth_http_'' @ itoa (oa_status v)])
                   (oa_status v = 400 \<or> oa_status v = 401) (parseRetryAfter parseHTTPTime now (oa_retryAfter v)) None))
         else if oa_access v = '''' then Inl (RefreshError (oa_status v) ''missing_access_token'' True 0 None)
         else Inr \<lparr>tp_access = oa_access v, tp_refresh = firstNonEmpty [oa_refresh v, fallbackRefresh],
                tp_expiresAt = Some (now + (if oa_expiresIn v \<le> 0 then 3600 else oa_expiresIn v) * secondNS),
                tp_idToken = oa_idToken v\<rparr>)"

definition RefreshToken :: "(string \<Rightarrow> int option) \<Rightarrow> int \<Rightarrow> goerr + OAuthAnswer \<Rightarrow> string \<Rightarrow> BuildErr + TokenPayload" where
  "RefreshToken parseHTTPTime now answer refreshToken =
    (case exchange parseHTTPTime now answer refreshToken of
       Inl AuthorizationDenied \<Rightarrow> Inl (RefreshError 0 ''refresh_denied'' True 0 (Some AuthorizationDenied))
     | r \<Rightarrow> r)"

section \<open>The environment of a request\<close>

record BuildResponse =
  rs_status :: int
  rs_body :: string

record RequestMeta =
  rm_accessToken :: string
  rm_userID :: string

record ('w, 'r) BuildEnv =
  be_enabled :: bool
  be_mounted :: bool
  be_cipher :: "AEAD option"
  be_nonces :: "'w \<Rightarrow> bytes \<times> bytes"
  be_now :: int
  be_oauth :: "string \<Rightarrow> 'w \<Rightarrow> (goerr + OAuthAnswer) \<times> 'w"
  be_client :: "RequestMeta \<Rightarrow> 'w \<Rightarrow> (goerr + BuildResponse) \<times> 'w"
  be_read :: "BuildResponse \<Rightarrow> goerr + 'r"
  be_prepare :: "string \<Rightarrow> goerr option"
  be_parseTime :: "string \<Rightarrow> int option"
  be_parseHTTPTime :: "string \<Rightarrow> int option"
  be_statusText :: "int \<Rightarrow> string"

record 'w BuildWorld =
  bw_db :: BuildDB
  bw_out :: 'w

definition oauthRefresh :: "('w, 'r) BuildEnv \<Rightarrow> string \<Rightarrow> 'w BuildWorld \<Rightarrow> (BuildErr + TokenPayload) \<times> 'w BuildWorld" where
  "oauthRefresh env token s =
    (let (answer, w) = be_oauth env token (bw_out s)
     in (RefreshToken (be_parseHTTPTime env) (be_now env) answer token, s\<lparr>bw_out := w\<rparr>))"

definition dirUpdateTokens :: "('w, 'r) BuildEnv \<Rightarrow> int \<Rightarrow> string \<Rightarrow> string \<Rightarrow> gotime \<Rightarrow> 'w BuildWorld \<Rightarrow> 'w BuildWorld" where
  "dirUpdateTokens env i access refresh expiresAt s =
    s\<lparr>bw_db := UpdateTokens (be_cipher env) (be_nonces env (bw_out s)) (be_now env) i access refresh expiresAt (bw_db s)\<rparr>"

definition dirSetStatus :: "('w, 'r) BuildEnv \<Rightarrow> int \<Rightarrow> string \<Rightarrow> string \<Rightarrow> gotime \<Rightarrow> 'w BuildWorld \<Rightarrow> 'w BuildWorld" where
  "dirSetStatus env i status reason until s = s\<lparr>bw_db := SetStatusUntil (be_now env) i status reason until (bw_db s)\<rparr>"

section \<open>Failures of the upstream\<close>

definition IsSpendingLimitBody :: "string \<Rightarrow> bool" where
  "IsSpendingLimitBody body =
    containsAny (goLower body) [''spending-limit'', ''run out of credits'', ''out of credits'', ''add credits'', ''supergrok'']"

definition PaymentRequiredRecoveryPause :: int where
  "PaymentRequiredRecoveryPause = 20 * 3600 * secondNS"

fun billingPeriodEnd :: "(string \<Rightarrow> int option) \<Rightarrow> string list \<Rightarrow> int option" where
  "billingPeriodEnd parseTime [] = None"
| "billingPeriodEnd parseTime (raw # raws) =
    (if trimSpace raw = '''' then billingPeriodEnd parseTime raws
     else (case parseTime (trimSpace raw) of Some t \<Rightarrow> Some t | None \<Rightarrow> billingPeriodEnd parseTime raws))"

definition PaymentCoolingUntil :: "(string \<Rightarrow> int option) \<Rightarrow> Billing \<Rightarrow> int \<Rightarrow> int" where
  "PaymentCoolingUntil parseTime billing now =
    (case billingPeriodEnd parseTime [bi_periodEnd billing, bi_usageEnd billing] of
       Some t \<Rightarrow> if t > now then t else now + PaymentRequiredRecoveryPause
     | None \<Rightarrow> now + PaymentRequiredRecoveryPause)"

definition sanitizeBuildBody :: "string \<Rightarrow> string" where
  "sanitizeBuildBody body =
    (if containsAny (goLower body) [''credit'', ''supergrok'', ''spending'', ''upgrade''] then '''' else take 512 body)"

definition paymentFailure :: "int \<Rightarrow> string \<Rightarrow> bool" where
  "paymentFailure status body \<longleftrightarrow> status = 402 \<or> status = 403 \<and> IsSpendingLimitBody body"

definition handleBuildUpstreamFailure :: "('w, 'r) BuildEnv \<Rightarrow> BuildAccount \<Rightarrow> int \<Rightarrow> string \<Rightarrow> 'w BuildWorld \<Rightarrow> goerr \<times> 'w BuildWorld" where
  "handleBuildUpstreamFailure env acc status body s =
    (if paymentFailure status body then
       (NewUpstreamError ''No available Build accounts for this request'' 503 '''',
        dirSetStatus env (ba_id acc) StatusCoolingB ''payment required / spending-limit''
          (Some (PaymentCoolingUntil (be_parseTime env) (ba_billing acc) (be_now env))) s)
     else if status = 429 then
       (ErrRateLimit ''Build account rate limited'', dirSetStatus env (ba_id acc) StatusCoolingB ''upstream 429'' None s)
     else
       (NewUpstreamError
          (if status > 0 \<and> be_statusText env status \<noteq> '''' then ''Build upstream returned '' @ be_statusText env status
           else ''Build upstream request failed'')
          status (sanitizeBuildBody body), s))"

section \<open>One account\<close>

definition firstNonEmptyStr :: "string list \<Rightarrow> string" where
  "firstNonEmptyStr values = (case filter (\<lambda>v. trimSpace v \<noteq> '''') values of [] \<Rightarrow> '''' | v # _ \<Rightarrow> v)"

definition expireOnPermanent :: "('w, 'r) BuildEnv \<Rightarrow> BuildAccount \<Rightarrow> BuildErr \<Rightarrow> 'w BuildWorld \<Rightarrow> 'w BuildWorld" where
  "expireOnPermanent env acc e s =
    (if IsPermanentRefresh e then dirSetStatus env (ba_id acc) StatusExpiredB ''refresh permanent failure'' None s else s)"

definition storeTokens :: "('w, 'r) BuildEnv \<Rightarrow> BuildAccount \<Rightarrow> TokenPayload \<Rightarrow> 'w BuildWorld \<Rightarrow> 'w BuildWorld" where
  "storeTokens env acc tok s =
    dirUpdateTokens env (ba_id acc) (tp_access tok) (firstNonEmptyStr [tp_refresh tok, ba_refresh acc]) (tp_expiresAt tok) s"

definition ensureBuildAccessToken :: "('w, 'r) BuildEnv \<Rightarrow> BuildAccount \<Rightarrow> 'w BuildWorld \<Rightarrow> (BuildErr + string) \<times> 'w BuildWorld" where
  "ensureBuildAccessToken env acc s =
    (if ba_access acc \<noteq> '''' \<and> \<not> NeedsRefresh acc (Some (be_now env)) (120 * secondNS) then (Inr (ba_access acc), s)
     else if ba_refresh acc = '''' then
       (if ba_access acc \<noteq> '''' then Inr (ba_access acc) else Inl (BuildFailed (ErrOther ''build account has no tokens'')), s)
     else (case oauthRefresh env (ba_refresh acc) s of
             (Inl e, s) \<Rightarrow> (Inl e, expireOnPermanent env acc e s)
           | (Inr tok, s) \<Rightarrow> (Inr (tp_access tok), storeTokens env acc tok s)))"

definition createBuildResponse :: "('w, 'r) BuildEnv \<Rightarrow> RequestMeta \<Rightarrow> 'w BuildWorld \<Rightarrow> (goerr + BuildResponse) \<times> 'w BuildWorld" where
  "createBuildResponse env meta s = (let (r, w) = be_client env meta (bw_out s) in (r, s\<lparr>bw_out := w\<rparr>))"

definition readBuildResponse :: "('w, 'r) BuildEnv \<Rightarrow> BuildResponse \<Rightarrow> BuildErr + 'r" where
  "readBuildResponse env resp = (case be_read env resp of Inl e \<Rightarrow> Inl (BuildFailed e) | Inr r \<Rightarrow> Inr r)"

definition bodyLimit :: nat where
  "bodyLimit = 8 * 1024 * 1024"

definition answerBuild :: "('w, 'r) BuildEnv \<Rightarrow> BuildAccount \<Rightarrow> BuildResponse \<Rightarrow> 'w BuildWorld \<Rightarrow> (BuildErr + 'r) \<times> 'w BuildWorld" where
  "answerBuild env acc resp s =
    (if rs_status resp < 200 \<or> rs_status resp \<ge> 300 then
       (let (e, s) = handleBuildUpstreamFailure env acc (rs_status resp) (take bodyLimit (rs_body resp)) s
        in (Inl (BuildFailed e), s))
     else (readBuildResponse env resp, s))"

definition invokeBuildOnce :: "('w, 'r) BuildEnv \<Rightarrow> BuildAccount \<Rightarrow> string \<Rightarrow> 'w BuildWorld \<Rightarrow> (BuildErr + 'r) \<times> 'w BuildWorld" where
  "invokeBuildOnce env acc access s =
    (case createBuildResponse env \<lparr>rm_accessToken = access, rm_userID = ba_userID acc\<rparr> s of
       (Inl e, s) \<Rightarrow> (Inl (BuildFailed e), s)
     | (Inr resp, s) \<Rightarrow>
         if rs_status resp = 401 \<and> ba_refresh acc \<noteq> '''' then
           (case oauthRefresh env (ba_refresh acc) s of
              (Inr tok, s) \<Rightarrow>
                (case createBuildResponse env \<lparr>rm_accessToken = tp_access tok, rm_userID = ba_userID acc\<rparr> (storeTokens env acc tok s) of
                   (Inl e, s) \<Rightarrow> (Inl (BuildFailed e), s)
                 | (Inr resp2, s) \<Rightarrow> (readBuildResponse env resp2, s))
            | (Inl e, s) \<Rightarrow> answerBuild env acc resp (expireOnPermanent env acc e s))
         else answerBuild env acc resp s)"

section \<open>A request\<close>

text \<open>The loop over the accounts, with the error of the last one.\<close>

fun runBuildAccounts :: "('w, 'r) BuildEnv \<Rightarrow> BuildAccount list \<Rightarrow> BuildErr option \<Rightarrow> 'w BuildWorld \<Rightarrow> (BuildErr + 'r) \<times> 'w BuildWorld" where
  "runBuildAccounts env [] lastErr s =
    (Inl (case lastErr of Some e \<Rightarrow> e | None \<Rightarrow> BuildFailed (ErrRateLimit ''No available Build accounts'')), s)"
| "runBuildAccounts env (acc # accs) lastErr s =
    (case ensureBuildAccessToken env acc s of
       (Inl e, s) \<Rightarrow> runBuildAccounts env accs (Some e) s
     | (Inr access, s) \<Rightarrow>
         (case invokeBuildOnce env acc access s of
            (Inr r, s) \<Rightarrow> (Inr r, s)
          | (Inl e, s) \<Rightarrow> runBuildAccounts env accs (Some e) s))"

definition runBuildCompletion :: "('w, 'r) BuildEnv \<Rightarrow> string \<Rightarrow> BuildAccount list \<Rightarrow> 'w BuildWorld \<Rightarrow> (BuildErr + 'r) \<times> 'w BuildWorld" where
  "runBuildCompletion env upstream accounts s =
    (case be_prepare env upstream of
       Some e \<Rightarrow> (Inl (BuildFailed e), s)
     | None \<Rightarrow> runBuildAccounts env accounts None s)"

definition filterBuildAccountsByBilling :: "('w, 'r) BuildEnv \<Rightarrow> BuildAccount list \<Rightarrow> 'w BuildWorld \<Rightarrow> BuildAccount list \<times> 'w BuildWorld" where
  "filterBuildAccountsByBilling env accounts s =
    (filter (\<lambda>a. \<not> QuotaExhausted (ba_billing a)) accounts,
     fold (\<lambda>a s. if QuotaExhausted (ba_billing a)
                 then dirSetStatus env (ba_id a) StatusCoolingB ''billing quota exhausted'' None s else s) accounts s)"

text \<open>\<open>BuildCompletions\<close> and \<open>BuildResponses\<close>, which differ in how they prepare the body and read the answer.\<close>

definition BuildCompletions :: "('w, 'r) BuildEnv \<Rightarrow> string \<Rightarrow> 'w BuildWorld \<Rightarrow> (BuildErr + 'r) \<times> 'w BuildWorld" where
  "BuildCompletions env modelName s =
    (let upstream = UpstreamIDFromBuildModel modelName
     in if \<not> be_enabled env \<or> upstream = '''' then (Inl (BuildFailed (ErrUnknownModel modelName)), s)
        else if \<not> be_mounted env then (Inl (BuildFailed (ErrRateLimit ''Build account directory not initialised'')), s)
        else (case ListActive (be_cipher env) (be_now env) (bw_db s) of
                Inl e \<Rightarrow> (Inl (BuildFailed e), s)
              | Inr accounts \<Rightarrow>
                  let (accounts, s) = filterBuildAccountsByBilling env accounts s
                  in if accounts = [] then (Inl (BuildFailed (ErrRateLimit ''No available Build accounts'')), s)
                     else runBuildCompletion env upstream accounts s))"

section \<open>The models of the upstream\<close>

record BuildModelsCache =
  mc_ids :: "string list"
  mc_expiresAt :: gotime
  mc_ttl :: int

definition cacheFresh :: "int \<Rightarrow> BuildModelsCache \<Rightarrow> bool" where
  "cacheFresh now c \<longleftrightarrow> (case mc_expiresAt c of None \<Rightarrow> False | Some e \<Rightarrow> now < e) \<and> mc_ids c \<noteq> []"

definition snapshotValid :: "int \<Rightarrow> BuildModelsCache \<Rightarrow> string list" where
  "snapshotValid now c = (if cacheFresh now c then mc_ids c else [])"

text \<open>\<open>lister\<close> is the answer of the upstream to the list of models, \<open>sortIDs\<close> is \<open>sort.Strings\<close>.\<close>

definition loadOrFetch :: "(string list \<Rightarrow> string list) \<Rightarrow> int \<Rightarrow> string \<Rightarrow> goerr + string list \<Rightarrow> BuildModelsCache \<Rightarrow> string list \<times> BuildModelsCache" where
  "loadOrFetch sortIDs now access lister c =
    (if cacheFresh now c \<or> trimSpace access = '''' then (mc_ids c, c)
     else (case lister of
             Inl _ \<Rightarrow> (mc_ids c, c\<lparr>mc_expiresAt := Some (now + 30 * secondNS)\<rparr>)
           | Inr ids \<Rightarrow>
               if ids = [] then (mc_ids c, c\<lparr>mc_expiresAt := Some (now + 30 * secondNS)\<rparr>)
               else (let ids = sortIDs ids
                     in (ids, c\<lparr>mc_ids := ids, mc_expiresAt := Some (now + (if mc_ttl c \<le> 0 then 600 * secondNS else mc_ttl c))\<rparr>))))"

definition specsFromBuildIDs :: "string list \<Rightarrow> ModelSpec list" where
  "specsFromBuildIDs ids = List.map_filter (\<lambda>i. BuildSpecFromName (BuildModelPrefix @ i)) ids"

fun listBuildFrom :: "('w, 'r) BuildEnv \<Rightarrow> (string list \<Rightarrow> string list) \<Rightarrow> (string \<Rightarrow> 'w \<Rightarrow> (goerr + string list) \<times> 'w) \<Rightarrow>
    BuildAccount list \<Rightarrow> BuildModelsCache \<Rightarrow> 'w BuildWorld \<Rightarrow> ModelSpec list \<times> BuildModelsCache \<times> 'w BuildWorld" where
  "listBuildFrom env sortIDs lister [] c s = ([], c, s)"
| "listBuildFrom env sortIDs lister (acc # accs) c s =
    (case ensureBuildAccessToken env acc s of
       (Inl e, s) \<Rightarrow> listBuildFrom env sortIDs lister accs c s
     | (Inr access, s) \<Rightarrow>
         if trimSpace access = '''' then listBuildFrom env sortIDs lister accs c s
         else if cacheFresh (be_now env) c then (specsFromBuildIDs (mc_ids c), c, s)
         else (let (answer, w) = lister access (bw_out s); s = s\<lparr>bw_out := w\<rparr>;
                   (ids, c) = loadOrFetch sortIDs (be_now env) access answer c
               in if ids \<noteq> [] then (specsFromBuildIDs ids, c, s) else listBuildFrom env sortIDs lister accs c s))"

definition listBuildModelSpecs :: "('w, 'r) BuildEnv \<Rightarrow> (string list \<Rightarrow> string list) \<Rightarrow> (string \<Rightarrow> 'w \<Rightarrow> (goerr + string list) \<times> 'w) \<Rightarrow>
    BuildModelsCache \<Rightarrow> 'w BuildWorld \<Rightarrow> ModelSpec list \<times> BuildModelsCache \<times> 'w BuildWorld" where
  "listBuildModelSpecs env sortIDs lister c s =
    (if \<not> be_enabled env \<or> \<not> be_mounted env then ([], c, s)
     else if snapshotValid (be_now env) c \<noteq> [] then (specsFromBuildIDs (snapshotValid (be_now env) c), c, s)
     else (case ListActive (be_cipher env) (be_now env) (bw_db s) of
             Inl _ \<Rightarrow> ([], c, s)
           | Inr accounts \<Rightarrow> listBuildFrom env sortIDs lister accounts c s))"

end
