(* ===== verification/BuildProps.thy ===== *)
theory BuildProps
  imports BuildDispatch
begin

text \<open>
  What the pool of Build accounts guarantees, and what it loses: the store gives back what it was given; a request
  touches only accounts that are active, asks them in turn and succeeds when one of them can; and an account that
  cools down never comes back by itself.
\<close>

section \<open>Which rows an operation touches\<close>

definition buildTouches :: "int set \<Rightarrow> BuildDB \<Rightarrow> BuildDB \<Rightarrow> bool" where
  "buildTouches ids db db' \<longleftrightarrow> bd_seq db' = bd_seq db \<and>
    list_all2 (\<lambda>r r'. br_id r' = br_id r \<and> (br_id r \<in> ids \<or> r' = r)) (bd_rows db) (bd_rows db')"

lemma bt_refl [simp]: "buildTouches ids db db"
  by (simp add: buildTouches_def list_all2_refl)

lemma bt_trans: "buildTouches ids a b \<Longrightarrow> buildTouches ids b c \<Longrightarrow> buildTouches ids a c"
  unfolding buildTouches_def
  by (elim conjE, intro conjI, simp, erule (1) list_all2_trans [rotated]) auto

lemma bt_mono: "buildTouches ids a b \<Longrightarrow> ids \<subseteq> ids' \<Longrightarrow> buildTouches ids' a b"
  unfolding buildTouches_def by (auto elim!: list_all2_mono)

lemma bt_update: "(\<And>r. br_id (f r) = br_id r) \<Longrightarrow> (\<And>r. P r \<Longrightarrow> br_id r \<in> ids) \<Longrightarrow> buildTouches ids db (updateBuild P f db)"
  by (auto simp: buildTouches_def updateBuild_def list_all2_map2 list_all2_same)

lemma bt_ids: "buildTouches ids db db' \<Longrightarrow> map br_id (bd_rows db') = map br_id (bd_rows db)"
  unfolding buildTouches_def by (auto simp: list_all2_conv_all_nth intro: nth_equalityI)

lemma bt_inv: "buildTouches ids db db' \<Longrightarrow> build_inv db \<Longrightarrow> build_inv db'"
proof -
  assume t: "buildTouches ids db db'" and i: "build_inv db"
  have m: "map br_id (bd_rows db') = map br_id (bd_rows db)" by (rule bt_ids [OF t])
  then have "br_id ` set (bd_rows db') = br_id ` set (bd_rows db)" by (metis set_map)
  then show ?thesis using i t unfolding build_inv_def buildTouches_def m by (metis (no_types, lifting) image_iff)
qed

lemma bt_keeps: "buildTouches ids db db' \<Longrightarrow> r \<in> set (bd_rows db) \<Longrightarrow> br_id r \<notin> ids \<Longrightarrow> r \<in> set (bd_rows db')"
  unfolding buildTouches_def list_all2_conv_all_nth in_set_conv_nth by metis

lemma bt_status: "buildTouches {ba_id acc} (bw_db s) (bw_db (dirSetStatus env (ba_id acc) st reason until s))"
  by (auto simp: dirSetStatus_def SetStatusUntil_def Let_def intro!: bt_update)

lemma bt_tokens: "buildTouches {ba_id acc} (bw_db s) (bw_db (storeTokens env acc tok s))"
  by (auto simp: storeTokens_def dirUpdateTokens_def UpdateTokens_def intro!: bt_update)

lemma bt_expire: "buildTouches {ba_id acc} (bw_db s) (bw_db (expireOnPermanent env acc e s))"
  by (simp add: expireOnPermanent_def bt_status)

lemma oauth_frame [simp]: "bw_db (snd (oauthRefresh env t s)) = bw_db s"
  by (simp add: oauthRefresh_def split: prod.split)

lemma client_frame [simp]: "bw_db (snd (createBuildResponse env meta s)) = bw_db s"
  by (simp add: createBuildResponse_def split: prod.split)

lemma ensure_touches: "buildTouches {ba_id acc} (bw_db s) (bw_db (snd (ensureBuildAccessToken env acc s)))"
proof -
  obtain r s1 where r: "oauthRefresh env (ba_refresh acc) s = (r, s1)" by (metis prod.exhaust)
  then have "bw_db s1 = bw_db s" using oauth_frame [of env "ba_refresh acc" s] by simp
  then show ?thesis
    using r bt_expire [of acc s1 env] bt_tokens [of acc s1 env]
    by (auto simp: ensureBuildAccessToken_def split: sum.split)
qed

lemma handle_touches: "buildTouches {ba_id acc} (bw_db s) (bw_db (snd (handleBuildUpstreamFailure env acc st body s)))"
  by (simp add: handleBuildUpstreamFailure_def bt_status)

lemma answer_touches: "buildTouches {ba_id acc} (bw_db s) (bw_db (snd (answerBuild env acc resp s)))"
  using handle_touches [of acc s env "rs_status resp" "take bodyLimit (rs_body resp)"]
  by (auto simp: answerBuild_def split: prod.split)

lemma invoke_touches: "buildTouches {ba_id acc} (bw_db s) (bw_db (snd (invokeBuildOnce env acc access s)))"
proof -
  let ?meta = "\<lparr>rm_accessToken = access, rm_userID = ba_userID acc\<rparr>"
  obtain r1 s1 where r1: "createBuildResponse env ?meta s = (r1, s1)" by (metis prod.exhaust)
  have d1: "bw_db s1 = bw_db s" using client_frame [of env ?meta s] r1 by simp
  obtain r2 s2 where r2: "oauthRefresh env (ba_refresh acc) s1 = (r2, s2)" by (metis prod.exhaust)
  have d2: "bw_db s2 = bw_db s" using oauth_frame [of env "ba_refresh acc" s1] r2 d1 by simp
  have expire: "buildTouches {ba_id acc} (bw_db s) (bw_db (snd (answerBuild env acc resp (expireOnPermanent env acc e s2))))" for resp e
    using bt_trans [OF bt_expire answer_touches] d2 by metis
  have tokens: "buildTouches {ba_id acc} (bw_db s) (bw_db (snd (createBuildResponse env m (storeTokens env acc tok s2))))" for m tok
    using bt_tokens [of acc s2 env tok] d2 by simp
  have answer: "buildTouches {ba_id acc} (bw_db s) (bw_db (snd (answerBuild env acc resp s1)))" for resp
    using answer_touches [of acc s1 env resp] d1 by simp
  show ?thesis
  proof (cases r1)
    case (Inl e)
    then show ?thesis using r1 d1 by (simp add: invokeBuildOnce_def)
  next
    case (Inr resp)
    show ?thesis
    proof (cases "rs_status resp = 401 \<and> ba_refresh acc \<noteq> ''''")
      case False
      then show ?thesis using r1 Inr answer by (auto simp: invokeBuildOnce_def)
    next
      case True
      show ?thesis
      proof (cases r2)
        case (Inl e)
        then show ?thesis using r1 r2 Inr True expire by (simp add: invokeBuildOnce_def)
      next
        case tok: (Inr tok)
        let ?m = "\<lparr>rm_accessToken = tp_access tok, rm_userID = ba_userID acc\<rparr>"
        obtain r3 s3 where r3: "createBuildResponse env ?m (storeTokens env acc tok s2) = (r3, s3)" by (metis prod.exhaust)
        then have "buildTouches {ba_id acc} (bw_db s) (bw_db s3)" using tokens [of ?m tok] by simp
        then show ?thesis using r1 r2 Inr True tok r3 by (simp add: invokeBuildOnce_def split: sum.split)
      qed
    qed
  qed
qed

lemma run_touches: "buildTouches (ba_id ` set accs) (bw_db s) (bw_db (snd (runBuildAccounts env accs lastErr s)))"
proof (induction accs arbitrary: lastErr s)
  case (Cons acc accs)
  let ?ids = "ba_id ` set (acc # accs)"
  obtain r1 s1 where r1: "ensureBuildAccessToken env acc s = (r1, s1)" by (metis prod.exhaust)
  have t1: "buildTouches ?ids (bw_db s) (bw_db s1)"
    using bt_mono [OF ensure_touches, of acc ?ids s env] r1 by simp
  have rest: "buildTouches ?ids (bw_db s') (bw_db (snd (runBuildAccounts env accs le s')))" for le s'
    using Cons.IH by (rule bt_mono) auto
  show ?case
  proof (cases r1)
    case (Inl e)
    have "runBuildAccounts env (acc # accs) lastErr s = runBuildAccounts env accs (Some e) s1" using r1 Inl by simp
    then show ?thesis using bt_trans [OF t1 rest] by simp
  next
    case (Inr access)
    obtain r2 s2 where r2: "invokeBuildOnce env acc access s1 = (r2, s2)" by (metis prod.exhaust)
    have "buildTouches ?ids (bw_db s1) (bw_db s2)"
      using bt_mono [OF invoke_touches, of acc ?ids s1 env access] r2 by simp
    then have t2: "buildTouches ?ids (bw_db s) (bw_db s2)" by (rule bt_trans [OF t1])
    show ?thesis
    proof (cases r2)
      case e: (Inl e)
      have "runBuildAccounts env (acc # accs) lastErr s = runBuildAccounts env accs (Some e) s2" using r1 Inr r2 e by simp
      then show ?thesis using bt_trans [OF t2 rest] by simp
    next
      case r: (Inr r)
      have "runBuildAccounts env (acc # accs) lastErr s = (Inr r, s2)" using r1 Inr r2 r by simp
      then show ?thesis using t2 by simp
    qed
  qed
qed simp

lemma filter_touches: "buildTouches (ba_id ` set accs) (bw_db s) (bw_db (snd (filterBuildAccountsByBilling env accs s)))"
proof -
  have "buildTouches (ba_id ` set accs) (bw_db s)
      (bw_db (fold (\<lambda>a s. if QuotaExhausted (ba_billing a)
         then dirSetStatus env (ba_id a) StatusCoolingB ''billing quota exhausted'' None s else s) accs s))" for s
  proof (induction accs arbitrary: s)
    case (Cons a accs)
    let ?s = "if QuotaExhausted (ba_billing a) then dirSetStatus env (ba_id a) StatusCoolingB ''billing quota exhausted'' None s else s"
    have "buildTouches (ba_id ` set (a # accs)) (bw_db s) (bw_db ?s)"
      using bt_mono [OF bt_status, of a "ba_id ` set (a # accs)"] by auto
    moreover have "buildTouches (ba_id ` set (a # accs)) (bw_db ?s) (bw_db (fold (\<lambda>a s. if QuotaExhausted (ba_billing a)
         then dirSetStatus env (ba_id a) StatusCoolingB ''billing quota exhausted'' None s else s) accs ?s))"
      using Cons.IH by (rule bt_mono) auto
    ultimately show ?case by (simp only: fold.simps comp_apply) (rule bt_trans)
  qed simp
  then show ?thesis by (simp add: filterBuildAccountsByBilling_def)
qed

text \<open>The accounts a request may reach.\<close>

definition listedIDs :: "AEAD option \<Rightarrow> int \<Rightarrow> BuildDB \<Rightarrow> int list" where
  "listedIDs c now db = (case ListActive c now db of Inl _ \<Rightarrow> [] | Inr as \<Rightarrow> map ba_id as)"

lemma listed_active: "set (listedIDs c now db) \<subseteq> br_id ` {r \<in> set (bd_rows db). activeRow now r}"
proof (cases "ListActive c now db")
  case (Inr as)
  then have "map ba_id as = map br_id (byPriority (filter (activeRow now) (bd_rows db)))"
    unfolding ListActive_def by (rule scanAccounts_ids)
  then have "set (listedIDs c now db) = br_id ` set (byPriority (filter (activeRow now) (bd_rows db)))"
    using Inr by (simp add: listedIDs_def)
  then show ?thesis by (auto simp: byPriority_def)
qed (simp add: listedIDs_def)

lemma request_touches: "buildTouches (set (listedIDs (be_cipher env) (be_now env) (bw_db s))) (bw_db s) (bw_db (snd (BuildCompletions env m s)))"
proof (cases "ListActive (be_cipher env) (be_now env) (bw_db s)")
  case (Inl e)
  then show ?thesis by (simp add: BuildCompletions_def Let_def)
next
  case (Inr as)
  obtain bs s1 where f: "filterBuildAccountsByBilling env as s = (bs, s1)" by (metis prod.exhaust)
  have ids: "set (listedIDs (be_cipher env) (be_now env) (bw_db s)) = ba_id ` set as" using Inr by (simp add: listedIDs_def)
  have t1: "buildTouches (ba_id ` set as) (bw_db s) (bw_db s1)" using filter_touches [of as s env] f by simp
  have "set bs \<subseteq> set as" using f by (auto simp: filterBuildAccountsByBilling_def)
  then have "ba_id ` set bs \<subseteq> ba_id ` set as" by (rule image_mono)
  then have t2: "buildTouches (ba_id ` set as) (bw_db s1) (bw_db (snd (runBuildAccounts env bs None s1)))"
    by (rule bt_mono [OF run_touches])
  show ?thesis
    unfolding ids using Inr f t1 bt_trans [OF t1 t2]
    by (auto simp: BuildCompletions_def Let_def runBuildCompletion_def split: option.split)
qed

text \<open>A series of requests, each with its own clock and upstream.\<close>

definition buildRequests :: "(('w, 'r) BuildEnv \<times> string) list \<Rightarrow> 'w BuildWorld \<Rightarrow> 'w BuildWorld" where
  "buildRequests reqs s = fold (\<lambda>(env, m) s. snd (BuildCompletions env m s)) reqs s"

lemma inactive_kept:
  assumes "build_inv (bw_db s)" "r \<in> set (bd_rows (bw_db s))" "\<forall>t. \<not> activeRow t r"
  shows "r \<in> set (bd_rows (bw_db (buildRequests reqs s))) \<and> build_inv (bw_db (buildRequests reqs s))"
  using assms
proof (induction reqs arbitrary: s)
  case (Cons q reqs)
  obtain env m where q: "q = (env, m)" by (cases q)
  let ?s = "snd (BuildCompletions env m s)"
  have t: "buildTouches (set (listedIDs (be_cipher env) (be_now env) (bw_db s))) (bw_db s) (bw_db ?s)" by (rule request_touches)
  have "br_id r \<notin> set (listedIDs (be_cipher env) (be_now env) (bw_db s))"
  proof
    assume "br_id r \<in> set (listedIDs (be_cipher env) (be_now env) (bw_db s))"
    then obtain r' where "r' \<in> set (bd_rows (bw_db s))" "br_id r' = br_id r" "activeRow (be_now env) r'"
      using listed_active by fastforce
    moreover from this have "r' = r" using ids_distinct [OF Cons.prems(1)] Cons.prems(2) by (auto simp: distinct_map inj_on_def)
    ultimately show False using Cons.prems(3) by simp
  qed
  then have "r \<in> set (bd_rows (bw_db ?s))" using bt_keeps [OF t Cons.prems(2)] by blast
  moreover have "build_inv (bw_db ?s)" using bt_inv [OF t Cons.prems(1)] .
  ultimately show ?case using Cons.IH [of ?s] Cons.prems(3) q by (simp add: buildRequests_def)
qed (simp add: buildRequests_def)

lemma row_unlisted:
  assumes "build_inv db" "r \<in> set (bd_rows db)" "\<forall>t. \<not> activeRow t r"
  shows "br_id r \<notin> set (listedIDs c now db)"
proof
  assume "br_id r \<in> set (listedIDs c now db)"
  then obtain r' where "r' \<in> set (bd_rows db)" "br_id r' = br_id r" "activeRow now r'" using listed_active by fastforce
  moreover from this have "r' = r" using ids_distinct [OF assms(1)] assms(2) by (auto simp: distinct_map inj_on_def)
  ultimately show False using assms(3) by simp
qed

section \<open>An account that cools down\<close>

definition coolOnly :: "BuildDB \<Rightarrow> BuildDB \<Rightarrow> bool" where
  "coolOnly db db' \<longleftrightarrow> list_all2 (\<lambda>r r'. br_id r' = br_id r \<and> br_deleted r' = br_deleted r \<and>
    (r' = r \<or> br_status r' = StatusCoolingB)) (bd_rows db) (bd_rows db')"

definition isCooled :: "int \<Rightarrow> BuildDB \<Rightarrow> bool" where
  "isCooled i db \<longleftrightarrow> (\<forall>r \<in> set (bd_rows db). br_id r = i \<longrightarrow> liveRow r \<longrightarrow> br_status r = StatusCoolingB)"

lemma coolOnly_refl [simp]: "coolOnly db db"
  by (simp add: coolOnly_def list_all2_refl)

lemma coolOnly_trans: "coolOnly a b \<Longrightarrow> coolOnly b c \<Longrightarrow> coolOnly a c"
  unfolding coolOnly_def by (erule (1) list_all2_trans [rotated]) auto

lemma coolOnly_cooled:
  assumes "coolOnly a b" "isCooled i a"
  shows "isCooled i b"
  unfolding isCooled_def
proof (intro ballI impI)
  fix r' assume r': "r' \<in> set (bd_rows b)" "br_id r' = i" "liveRow r'"
  then obtain n where n: "n < length (bd_rows b)" "bd_rows b ! n = r'" by (auto simp: in_set_conv_nth)
  let ?r = "bd_rows a ! n"
  have m: "?r \<in> set (bd_rows a)" "br_id r' = br_id ?r" "br_deleted r' = br_deleted ?r" "r' = ?r \<or> br_status r' = StatusCoolingB"
    using assms(1) n by (auto simp: coolOnly_def list_all2_conv_all_nth)
  then have "br_status ?r = StatusCoolingB" using assms(2) r'(2,3) by (simp add: isCooled_def liveRow_def)
  then show "br_status r' = StatusCoolingB" using m(4) by auto
qed

lemma coolOnly_row:
  assumes "coolOnly a b" "r \<in> set (bd_rows a)"
  shows "\<exists>r' \<in> set (bd_rows b). br_id r' = br_id r \<and> br_deleted r' = br_deleted r"
proof -
  obtain n where n: "n < length (bd_rows a)" "bd_rows a ! n = r" using assms(2) by (auto simp: in_set_conv_nth)
  then have "bd_rows b ! n \<in> set (bd_rows b)" "br_id (bd_rows b ! n) = br_id r" "br_deleted (bd_rows b ! n) = br_deleted r"
    using assms(1) by (auto simp: coolOnly_def list_all2_conv_all_nth)
  then show ?thesis by blast
qed

lemma cool_status_only: "coolOnly (bw_db s) (bw_db (dirSetStatus env i StatusCoolingB reason until s))"
  by (simp add: dirSetStatus_def SetStatusUntil_def Let_def updateBuild_def coolOnly_def list_all2_conv_all_nth)

lemma updateBuild_cooled:
  assumes "\<And>r. br_id r = i \<Longrightarrow> liveRow r \<Longrightarrow> P r" "\<And>r. P r \<Longrightarrow> br_status (f r) = StatusCoolingB"
  shows "isCooled i (updateBuild P f db)"
  unfolding isCooled_def
proof (intro ballI impI)
  fix r' assume r': "r' \<in> set (bd_rows (updateBuild P f db))" "br_id r' = i" "liveRow r'"
  then have "r' \<in> (\<lambda>r. if P r then f r else r) ` set (bd_rows db)" by (simp add: updateBuild_def del: if_image_distrib)
  then obtain r where r: "r' = (if P r then f r else r)" by (rule imageE)
  show "br_status r' = StatusCoolingB"
  proof (cases "P r")
    case False
    then have "r' = r" using r by simp
    then show ?thesis using r'(2,3) assms(1) False by blast
  qed (use r assms(2) in simp)
qed

lemma cool_status_cooled: "isCooled i (bw_db (dirSetStatus env i StatusCoolingB reason until s))"
  unfolding dirSetStatus_def SetStatusUntil_def Let_def
  by (simp add: updateBuild_cooled)

lemmas cool_status = conjI [OF cool_status_only cool_status_cooled]

text \<open>An account whose token can be used as it is.\<close>

definition freshAccount :: "int \<Rightarrow> BuildAccount \<Rightarrow> bool" where
  "freshAccount now a \<longleftrightarrow> ba_access a \<noteq> '''' \<and> \<not> NeedsRefresh a (Some now) (120 * secondNS)"

lemma ensure_fresh: "freshAccount (be_now env) a \<Longrightarrow> ensureBuildAccessToken env a s = (Inr (ba_access a), s)"
  by (simp add: ensureBuildAccessToken_def freshAccount_def)

text \<open>An upstream that answers every call with 429.\<close>

definition alwaysLimited :: "('w, 'r) BuildEnv \<Rightarrow> bool" where
  "alwaysLimited env \<longleftrightarrow> (\<forall>meta w. \<exists>body w'. be_client env meta w = (Inr \<lparr>rs_status = 429, rs_body = body\<rparr>, w'))"

lemma invoke_limited:
  assumes "alwaysLimited env"
  shows "\<exists>e s'. invokeBuildOnce env acc access s = (Inl e, s') \<and> coolOnly (bw_db s) (bw_db s') \<and> isCooled (ba_id acc) (bw_db s')"
proof -
  let ?meta = "\<lparr>rm_accessToken = access, rm_userID = ba_userID acc\<rparr>"
  obtain body w where c: "be_client env ?meta (bw_out s) = (Inr \<lparr>rs_status = 429, rs_body = body\<rparr>, w)"
    using assms unfolding alwaysLimited_def by blast
  let ?s = "dirSetStatus env (ba_id acc) StatusCoolingB ''upstream 429'' None (s\<lparr>bw_out := w\<rparr>)"
  have "invokeBuildOnce env acc access s = (Inl (BuildFailed (ErrRateLimit ''Build account rate limited'')), ?s)"
    by (simp add: invokeBuildOnce_def createBuildResponse_def c answerBuild_def handleBuildUpstreamFailure_def paymentFailure_def)
  moreover have "coolOnly (bw_db s) (bw_db ?s) \<and> isCooled (ba_id acc) (bw_db ?s)"
    using cool_status [of "s\<lparr>bw_out := w\<rparr>" env] by simp
  ultimately show ?thesis by blast
qed

lemma run_limited:
  assumes "alwaysLimited env" "list_all (freshAccount (be_now env)) accs"
  shows "\<exists>e s'. runBuildAccounts env accs lastErr s = (Inl e, s') \<and> coolOnly (bw_db s) (bw_db s') \<and>
    (\<forall>a \<in> set accs. isCooled (ba_id a) (bw_db s'))"
  using assms(2)
proof (induction accs arbitrary: lastErr s)
  case (Cons acc accs)
  obtain e s1 where 1: "invokeBuildOnce env acc (ba_access acc) s = (Inl e, s1)" "coolOnly (bw_db s) (bw_db s1)"
    "isCooled (ba_id acc) (bw_db s1)" using invoke_limited [OF assms(1)] by blast
  obtain e' s2 where 2: "runBuildAccounts env accs (Some e) s1 = (Inl e', s2)" "coolOnly (bw_db s1) (bw_db s2)"
    "\<forall>a \<in> set accs. isCooled (ba_id a) (bw_db s2)" using Cons by fastforce
  have "runBuildAccounts env (acc # accs) lastErr s = (Inl e', s2)"
    using Cons.prems 1(1) 2(1) by (simp add: ensure_fresh)
  then show ?case using coolOnly_trans [OF 1(2) 2(2)] coolOnly_cooled [OF 2(2) 1(3)] 2(3) by auto
qed simp

lemma filter_cools:
  "coolOnly (bw_db s) (bw_db (snd (filterBuildAccountsByBilling env accs s))) \<and>
   (\<forall>a \<in> set accs. QuotaExhausted (ba_billing a) \<longrightarrow> isCooled (ba_id a) (bw_db (snd (filterBuildAccountsByBilling env accs s))))"
proof -
  let ?f = "\<lambda>a s. if QuotaExhausted (ba_billing a) then dirSetStatus env (ba_id a) StatusCoolingB ''billing quota exhausted'' None s else s"
  have "coolOnly (bw_db s) (bw_db (fold ?f accs s)) \<and>
      (\<forall>a \<in> set accs. QuotaExhausted (ba_billing a) \<longrightarrow> isCooled (ba_id a) (bw_db (fold ?f accs s)))" for s
  proof (induction accs arbitrary: s)
    case (Cons a accs)
    let ?s = "?f a s"
    have IH: "coolOnly (bw_db ?s) (bw_db (fold ?f accs ?s))"
      "\<forall>a \<in> set accs. QuotaExhausted (ba_billing a) \<longrightarrow> isCooled (ba_id a) (bw_db (fold ?f accs ?s))"
      using Cons.IH [of ?s] by (rule conjunct1, rule conjunct2)
    have one: "coolOnly (bw_db s) (bw_db ?s)" by (simp add: cool_status_only)
    have "QuotaExhausted (ba_billing a) \<Longrightarrow> isCooled (ba_id a) (bw_db ?s)" by (simp add: cool_status_cooled)
    then have "QuotaExhausted (ba_billing a) \<longrightarrow> isCooled (ba_id a) (bw_db (fold ?f accs ?s))"
      using coolOnly_cooled [OF IH(1)] by iprover
    then show ?case using coolOnly_trans [OF one IH(1)] IH(2) by (simp only: fold.simps comp_apply list.set ball_simps) simp
  qed simp
  then show ?thesis by (simp add: filterBuildAccountsByBilling_def)
qed

text \<open>A row that may be listed now is not listed again once its account has cooled down.\<close>

lemma cooled_unlisted:
  assumes "build_inv db" "coolOnly db (bw_db s)" "i \<in> set (listedIDs c now db)" "isCooled i (bw_db s)" "build_inv (bw_db s)"
  shows "i \<notin> set (listedIDs c' later (bw_db (buildRequests reqs s)))"
proof -
  obtain r where r: "r \<in> set (bd_rows db)" "br_id r = i" "activeRow now r" using assms(3) listed_active by fastforce
  obtain r' where r': "r' \<in> set (bd_rows (bw_db s))" "br_id r' = i" "br_deleted r' = br_deleted r"
    using coolOnly_row [OF assms(2) r(1)] r(2) by blast
  have "br_status r' = StatusCoolingB" using assms(4) r' r(3) by (auto simp: isCooled_def activeRow_def liveRow_def)
  then have never: "\<forall>t. \<not> activeRow t r'" by (simp add: activeRow_def build_status)
  from inactive_kept [OF assms(5) r'(1) never]
  show ?thesis using row_unlisted [OF _ _ never] r'(2) by blast
qed

text \<open>C29. The pool dries up: when the upstream answers 429 once for every listed account, no later request to this upstream
  finds one of them, however long one waits and whatever requests follow, although each was told to cool for two hours.
  Operations outside the requests can set an account active again: a refresh or a change of the status by an
  administrator, and a new import.\<close>

theorem build_pool_drained:
  assumes "build_inv (bw_db s)" "ListActive (be_cipher env) (be_now env) (bw_db s) = Inr accounts"
    and "list_all (freshAccount (be_now env)) accounts" "alwaysLimited env"
    and "be_enabled env" "be_mounted env" "UpstreamIDFromBuildModel model \<noteq> ''''" "be_prepare env = (\<lambda>_. None)"
  shows "set (listedIDs c later (bw_db (buildRequests reqs (snd (BuildCompletions env model s))))) \<inter> ba_id ` set accounts = {}"
proof -
  let ?s' = "snd (BuildCompletions env model s)"
  obtain bs s1 where f: "filterBuildAccountsByBilling env accounts s = (bs, s1)" by (metis prod.exhaust)
  have bs: "bs = filter (\<lambda>a. \<not> QuotaExhausted (ba_billing a)) accounts" using f by (simp add: filterBuildAccountsByBilling_def)
  have cool1: "coolOnly (bw_db s) (bw_db s1)" "\<forall>a \<in> set accounts. QuotaExhausted (ba_billing a) \<longrightarrow> isCooled (ba_id a) (bw_db s1)"
    using filter_cools [of s env accounts] f by simp_all
  have "list_all (freshAccount (be_now env)) bs" using assms(3) bs by (auto simp: list_all_iff)
  then obtain e s2 where run: "runBuildAccounts env bs None s1 = (Inl e, s2)" "coolOnly (bw_db s1) (bw_db s2)"
    "\<forall>a \<in> set bs. isCooled (ba_id a) (bw_db s2)" using run_limited [OF assms(4)] by blast
  have s': "?s' = (if bs = [] then s1 else s2)"
    using assms(2,5-8) f run(1) by (simp add: BuildCompletions_def Let_def runBuildCompletion_def)
  have cool: "coolOnly (bw_db s) (bw_db ?s')" using coolOnly_trans [OF cool1(1) run(2)] cool1(1) s' by simp
  have cooled: "isCooled (ba_id a) (bw_db ?s')" if "a \<in> set accounts" for a
  proof (cases "QuotaExhausted (ba_billing a)")
    case True
    then have "isCooled (ba_id a) (bw_db s1)" using cool1(2) that by blast
    then show ?thesis using coolOnly_cooled [OF run(2)] s' by simp
  next
    case False
    then have "a \<in> set bs" using that bs by simp
    then show ?thesis using run(3) s' by auto
  qed
  have inv': "build_inv (bw_db ?s')" using bt_inv [OF request_touches assms(1)] .
  have "i \<notin> set (listedIDs c later (bw_db (buildRequests reqs ?s')))" if "i \<in> ba_id ` set accounts" for i
  proof (rule cooled_unlisted [OF assms(1) cool _ _ inv'])
    show "i \<in> set (listedIDs (be_cipher env) (be_now env) (bw_db s))" using that assms(2) by (simp add: listedIDs_def)
    show "isCooled i (bw_db ?s')" using that cooled by blast
  qed
  then show ?thesis by blast
qed

text \<open>A cooling account stays unlisted through any series of requests, also after its \<open>cooling_until\<close>.\<close>

theorem cooling_forever:
  assumes "build_inv (bw_db s)" "r \<in> set (bd_rows (bw_db s))" "br_status r = StatusCoolingB"
  shows "br_id r \<notin> set (listedIDs c later (bw_db (buildRequests reqs s)))"
proof -
  have never: "\<forall>t. \<not> activeRow t r" using assms(3) by (simp add: activeRow_def build_status)
  from inactive_kept [OF assms(1,2) never] show ?thesis using row_unlisted [OF _ _ never] by blast
qed

section \<open>A request that can be served\<close>

text \<open>C30. A request succeeds whenever one account that is active, not exhausted and has a usable token gets an answer
  that can be read, whatever the accounts before it do.\<close>

theorem build_served:
  assumes "ListActive (be_cipher env) (be_now env) (bw_db s) = Inr accounts" "a \<in> set accounts"
    and "\<not> QuotaExhausted (ba_billing a)" "freshAccount (be_now env) a"
    and "\<forall>w. fst (be_client env \<lparr>rm_accessToken = ba_access a, rm_userID = ba_userID a\<rparr> w) = Inr resp"
    and "200 \<le> rs_status resp" "rs_status resp < 300" "be_read env resp = Inr r"
    and "be_enabled env" "be_mounted env" "UpstreamIDFromBuildModel model \<noteq> ''''" "be_prepare env = (\<lambda>_. None)"
  shows "\<exists>r'. fst (BuildCompletions env model s) = Inr r'"
proof -
  have inv: "\<exists>s'. invokeBuildOnce env a (ba_access a) s = (Inr r, s')" for s
  proof -
    obtain w where "be_client env \<lparr>rm_accessToken = ba_access a, rm_userID = ba_userID a\<rparr> (bw_out s) = (Inr resp, w)"
      using assms(5) by (metis prod.collapse)
    then show ?thesis using assms(6-8) by (simp add: invokeBuildOnce_def createBuildResponse_def answerBuild_def readBuildResponse_def)
  qed
  have run: "\<exists>r' s'. runBuildAccounts env bs lastErr s = (Inr r', s')" if "a \<in> set bs" for bs lastErr s
    using that
  proof (induction bs arbitrary: lastErr s)
    case (Cons b bs)
    show ?case
    proof (cases "b = a")
      case True
      then show ?thesis using inv [of s] assms(4) by (auto simp: ensure_fresh)
    next
      case False
      then have "\<exists>r' s'. runBuildAccounts env bs le s = (Inr r', s')" for le s using Cons by auto
      then show ?thesis by (auto split: sum.split prod.split)
    qed
  qed simp
  obtain bs s1 where f: "filterBuildAccountsByBilling env accounts s = (bs, s1)" by (metis prod.exhaust)
  have "a \<in> set bs" using f assms(2,3) by (auto simp: filterBuildAccountsByBilling_def)
  then obtain r' s' where "runBuildAccounts env bs None s1 = (Inr r', s')" "bs \<noteq> []" using run by fastforce
  then show ?thesis using assms(1,9-12) f by (simp add: BuildCompletions_def Let_def runBuildCompletion_def)
qed

end
