(* ===== verification/BuildTokens.thy ===== *)
theory BuildTokens
  imports BuildProps
begin

text \<open>
  The store of the Build pool as a keyed table (what an upsert gives back, one live row per user) and the two places
  where a refresh goes wrong: the second refresh of a request presents the token the first one replaced, and the
  answer to a repeated request is read whatever its status is.
\<close>

section \<open>The store\<close>

definition seconds :: "gotime \<Rightarrow> gotime" where
  "seconds t = timeFromUnix (unixOrNull t)"

text \<open>What a new account reads like: the times are cut to seconds, and nothing is known of its billing.\<close>

definition asStored :: "int \<Rightarrow> int \<Rightarrow> BuildAccount \<Rightarrow> BuildAccount" where
  "asStored now i a = a\<lparr>ba_id := i, ba_status := (if ba_status a = '''' then StatusActiveB else ba_status a),
     ba_expiresAt := seconds (ba_expiresAt a), ba_coolingUntil := seconds (ba_coolingUntil a), ba_lastUse := seconds (ba_lastUse a),
     ba_billing := emptyBilling, ba_billingSynced := None, ba_created := seconds (Some now), ba_updated := seconds (Some now)\<rparr>"

lemma filter_fresh: "build_inv db \<Longrightarrow> filter (\<lambda>r. br_id r = bd_seq db + 1 \<and> liveRow r) (bd_rows db) = []"
  unfolding build_inv_def filter_empty_conv by force

lemma existingID_status [simp]: "existingID (a\<lparr>ba_status := st\<rparr>) db = existingID a db"
  by (simp add: existingID_def Let_def)

text \<open>An account that is new to the table (no live row has its user id or its name) reads back as it was given,
  under the next id, with its times cut to seconds.\<close>

theorem build_upsert_get:
  assumes "build_inv db" "existingID a db = 0" "usable c n1 (ba_access a)" "usable c n2 (ba_refresh a)"
  shows "GetBuild c (bd_seq db + 1) (snd (UpsertBuild c (n1, n2) now a db)) = Inr (asStored now (bd_seq db + 1) a)"
proof -
  let ?r = "\<lparr>br_id = bd_seq db + 1, br_name = ba_name a, br_email = ba_email a, br_userID = ba_userID a, br_clientID = ba_clientID a,
      br_access = SealOptional c n1 (ba_access a), br_refresh = SealOptional c n2 (ba_refresh a),
      br_expiresAt = unixOrNull (ba_expiresAt a), br_status = (if ba_status a = '''' then StatusActiveB else ba_status a),
      br_coolingUntil = unixOrNull (ba_coolingUntil a), br_priority = ba_priority a,
      br_lastUse = unixOrNull (ba_lastUse a), br_failCount = ba_failCount a, br_created = unixSec now,
      br_updated = unixSec now, br_reason = None, br_deleted = None, br_billing = None, br_billingSynced = None\<rparr>"
  have "bd_rows (snd (UpsertBuild c (n1, n2) now a db)) = bd_rows db @ [?r]"
    using assms(2) by (simp add: UpsertBuild_def Let_def)
  then have "GetBuild c (bd_seq db + 1) (snd (UpsertBuild c (n1, n2) now a db)) = scanAccount c ?r"
    using filter_fresh [OF assms(1)] by (simp add: GetBuild_def scanFirst_def liveRow_def)
  also have "scanAccount c ?r = Inr (asStored now (bd_seq db + 1) a)"
    using assms(3,4) by (cases a) (simp add: scanAccount_def open_seal asStored_def seconds_def unixOrNull_def timeFromUnix_def)
  finally show ?thesis .
qed

definition sampleAccount :: BuildAccount where
  "sampleAccount = (FromCredential \<lparr>cr_provider = CredentialProvider, cr_name = ''ann'', cr_clientID = '''', cr_access = ''A'',
     cr_refresh = ''R'', cr_idToken = '''', cr_expiresAt = Some 7000000001, cr_email = '''', cr_userID = ''u'', cr_teamID = ''''\<rparr>)"

theorem build_upsert_get_witness:
  "GetBuild None 1 (snd (UpsertBuild None ([], []) 5000000000 sampleAccount \<lparr>bd_rows = [], bd_seq = 0\<rparr>)) =
    Inr (asStored 5000000000 1 sampleAccount)"
proof -
  have "build_inv \<lparr>bd_rows = [], bd_seq = 0\<rparr>" by (simp add: build_inv_def)
  moreover have "existingID sampleAccount \<lparr>bd_rows = [], bd_seq = 0\<rparr> = 0"
    by (simp add: existingID_def sampleAccount_def FromCredential_def firstID_def)
  moreover have "usable None [] (ba_access sampleAccount)" "usable None [] (ba_refresh sampleAccount)"
    by (simp_all add: usable_def sampleAccount_def FromCredential_def IsEncrypted_def hasPrefix_def encryptedPrefix_def)
  ultimately show ?thesis using build_upsert_get [of "\<lparr>bd_rows = [], bd_seq = 0\<rparr>" sampleAccount None "[]" "[]" 5000000000] by simp
qed

text \<open>Operations of the store, in any order.\<close>

datatype StoreOp =
    SUpsert "bytes \<times> bytes" int BuildAccount
  | STokens "bytes \<times> bytes" int int string string gotime
  | SBilling int int Billing
  | SStatus int int string string gotime
  | SDelete int int

primrec storeStep :: "AEAD option \<Rightarrow> BuildDB \<Rightarrow> StoreOp \<Rightarrow> BuildDB" where
  "storeStep c db (SUpsert nonces now a) = snd (UpsertBuild c nonces now a db)"
| "storeStep c db (STokens nonces now i access refresh e) = UpdateTokens c nonces now i access refresh e db"
| "storeStep c db (SBilling now i b) = UpdateBilling now i b db"
| "storeStep c db (SStatus now i st reason u) = SetStatusUntil now i st reason u db"
| "storeStep c db (SDelete now i) = DeleteBuild now i db"

definition users_unique :: "BuildDB \<Rightarrow> bool" where
  "users_unique db \<longleftrightarrow> (\<forall>r \<in> set (bd_rows db). \<forall>r' \<in> set (bd_rows db).
    liveRow r \<longrightarrow> liveRow r' \<longrightarrow> br_userID r \<noteq> '''' \<longrightarrow> br_userID r = br_userID r' \<longrightarrow> r = r')"

lemma unique_update:
  assumes u: "users_unique db"
    and k: "\<And>r. P r \<Longrightarrow> r \<in> set (bd_rows db) \<Longrightarrow> br_userID (f r) = br_userID r \<and> (liveRow (f r) \<longrightarrow> liveRow r)"
  shows "users_unique (updateBuild P f db)"
  unfolding users_unique_def
proof (intro ballI impI)
  let ?g = "\<lambda>r. if P r then f r else r"
  fix q q' assume q: "q \<in> set (bd_rows (updateBuild P f db))" "q' \<in> set (bd_rows (updateBuild P f db))"
    "liveRow q" "liveRow q'" "br_userID q \<noteq> ''''" "br_userID q = br_userID q'"
  have img: "set (bd_rows (updateBuild P f db)) = ?g ` set (bd_rows db)" by (simp add: updateBuild_def del: if_image_distrib)
  obtain r r' where r: "r \<in> set (bd_rows db)" "q = ?g r" and r': "r' \<in> set (bd_rows db)" "q' = ?g r'" using q(1,2) img by auto
  have g: "br_userID (?g x) = br_userID x" "liveRow (?g x) \<Longrightarrow> liveRow x" if "x \<in> set (bd_rows db)" for x
    using k [of x] that by (auto split: if_splits)
  have "liveRow r" "liveRow r'" "br_userID r \<noteq> ''''" "br_userID r = br_userID r'"
    using q r r' g by simp_all
  then have "r = r'" using u r(1) r'(1) by (simp add: users_unique_def)
  then show "q = q'" using r r' by simp
qed

lemma firstID_spec: "firstID (filter P rs) = 0 \<Longrightarrow> \<forall>r \<in> set rs. 0 < br_id r \<Longrightarrow> \<forall>r \<in> set rs. \<not> P r"
  by (induction rs) (auto simp: firstID_def split: if_splits)

lemma firstID_hit: "firstID (filter P rs) = i \<Longrightarrow> i \<noteq> 0 \<Longrightarrow> \<exists>r \<in> set rs. P r \<and> br_id r = i"
  by (induction rs) (auto simp: firstID_def split: if_splits)

text \<open>A row of the user id an upsert brings is the row it writes to.\<close>

lemma existing_user:
  assumes "build_inv db" "users_unique db" "r \<in> set (bd_rows db)" "liveRow r" "br_userID r = ba_userID a" "ba_userID a \<noteq> ''''"
  shows "existingID a db = br_id r"
proof -
  let ?rs = "filter (\<lambda>r. br_userID r = ba_userID a \<and> liveRow r) (bd_rows db)"
  have pos: "\<forall>r \<in> set (bd_rows db). 0 < br_id r" using assms(1) by (simp add: build_inv_def)
  have "firstID ?rs \<noteq> 0" using firstID_spec [OF _ pos] assms(3-5) by blast
  then obtain q where q: "q \<in> set (bd_rows db)" "br_userID q = ba_userID a" "liveRow q" "br_id q = firstID ?rs"
    using firstID_hit [of "\<lambda>r. br_userID r = ba_userID a \<and> liveRow r" "bd_rows db"] by blast
  then have "q = r" using assms(2-6) by (simp add: users_unique_def)
  moreover have "0 < br_id r" using pos assms(3) by blast
  ultimately show ?thesis using q(4) assms(6) by (simp add: existingID_def Let_def)
qed

lemma unique_append:
  assumes "users_unique db" "\<forall>q \<in> set (bd_rows db). liveRow q \<longrightarrow> br_userID q \<noteq> '''' \<longrightarrow> br_userID q \<noteq> br_userID r"
  shows "users_unique (db\<lparr>bd_rows := bd_rows db @ [r], bd_seq := n\<rparr>)"
  unfolding users_unique_def
proof (intro ballI impI)
  fix q q' assume q: "q \<in> set (bd_rows (db\<lparr>bd_rows := bd_rows db @ [r], bd_seq := n\<rparr>))"
    "q' \<in> set (bd_rows (db\<lparr>bd_rows := bd_rows db @ [r], bd_seq := n\<rparr>))" "liveRow q" "liveRow q'"
    "br_userID q \<noteq> ''''" "br_userID q = br_userID q'"
  then consider "q \<in> set (bd_rows db)" "q' \<in> set (bd_rows db)" | "q = r" "q' = r"
    | "q = r" "q' \<in> set (bd_rows db)" | "q' = r" "q \<in> set (bd_rows db)" by auto
  then show "q = q'"
  proof cases
    case 1
    then show ?thesis using assms(1) q(3-6) by (simp add: users_unique_def)
  next
    case 3
    then show ?thesis using assms(2) q(3-6) by metis
  next
    case 4
    then show ?thesis using assms(2) q(3-6) by metis
  qed simp
qed

lemma unique_upsert:
  assumes i: "build_inv db" and u: "users_unique db"
  shows "users_unique (snd (UpsertBuild c nonces now a db))"
proof (cases "existingID a db > 0")
  case True
  let ?i = "existingID a db"
  let ?f = "\<lambda>r. r\<lparr>br_name := ba_name a, br_email := ba_email a, br_userID := ba_userID a, br_clientID := ba_clientID a,
      br_access := SealOptional c (fst nonces) (ba_access a), br_refresh := SealOptional c (snd nonces) (ba_refresh a),
      br_expiresAt := unixOrNull (ba_expiresAt a), br_status := (if ba_status a = '''' then StatusActiveB else ba_status a),
      br_priority := ba_priority a, br_updated := unixSec now\<rparr>"
  let ?g = "\<lambda>r. if br_id r = ?i then ?f r else r"
  have res: "snd (UpsertBuild c nonces now a db) = updateBuild (\<lambda>r. br_id r = ?i) ?f db"
    using True by (simp add: UpsertBuild_def Let_def)
  have same: "x = y" if "x \<in> set (bd_rows db)" "y \<in> set (bd_rows db)" "br_id x = br_id y" for x y
    using ids_distinct [OF i] that by (auto simp: distinct_map inj_on_def)
  have other: "br_id x = ?i" if "x \<in> set (bd_rows db)" "liveRow x" "br_userID x = ba_userID a" "ba_userID a \<noteq> ''''" for x
    using existing_user [OF i u that] by simp
  have one: "q = q'" if q: "q = ?g r" "q' = ?g r'" "r \<in> set (bd_rows db)" "r' \<in> set (bd_rows db)"
    "liveRow q" "liveRow q'" "br_userID q \<noteq> ''''" "br_userID q = br_userID q'" for q q' r r'
  proof -
    have live: "liveRow r" "liveRow r'" using q by (auto simp: liveRow_def split: if_splits)
    consider "br_id r = ?i" "br_id r' = ?i" | "br_id r = ?i" "br_id r' \<noteq> ?i" | "br_id r \<noteq> ?i" "br_id r' = ?i"
      | "br_id r \<noteq> ?i" "br_id r' \<noteq> ?i" by blast
    then show ?thesis
    proof cases
      case 1
      then show ?thesis using same [OF q(3,4)] q(1,2) by simp
    next
      case 2
      then show ?thesis using other [OF q(4) live(2)] q(1,2,7,8) by simp
    next
      case 3
      then show ?thesis using other [OF q(3) live(1)] q(1,2,7,8) by simp
    next
      case 4
      then show ?thesis using u q live by (simp add: users_unique_def)
    qed
  qed
  have img: "set (bd_rows (updateBuild (\<lambda>r. br_id r = ?i) ?f db)) = ?g ` set (bd_rows db)"
    by (simp add: updateBuild_def del: if_image_distrib)
  show ?thesis unfolding res users_unique_def
  proof (intro ballI impI)
    fix q q' assume m: "q \<in> set (bd_rows (updateBuild (\<lambda>r. br_id r = ?i) ?f db))" "q' \<in> set (bd_rows (updateBuild (\<lambda>r. br_id r = ?i) ?f db))"
      and q: "liveRow q" "liveRow q'" "br_userID q \<noteq> ''''" "br_userID q = br_userID q'"
    obtain r where r: "q = ?g r" "r \<in> set (bd_rows db)" using m(1) unfolding img by (rule imageE)
    obtain r' where r': "q' = ?g r'" "r' \<in> set (bd_rows db)" using m(2) unfolding img by (rule imageE)
    show "q = q'" using one [OF r(1) r'(1) r(2) r'(2) q] .
  qed
next
  case False
  have "\<forall>q \<in> set (bd_rows db). liveRow q \<longrightarrow> br_userID q \<noteq> '''' \<longrightarrow> br_userID q \<noteq> ba_userID a"
  proof (intro ballI impI notI)
    fix q assume "q \<in> set (bd_rows db)" "liveRow q" "br_userID q \<noteq> ''''" "br_userID q = ba_userID a"
    then have "existingID a db = br_id q" "0 < br_id q" using existing_user [OF i u] i by (auto simp: build_inv_def)
    then show False using False by simp
  qed
  then show ?thesis using False u by (simp add: UpsertBuild_def Let_def unique_append)
qed

lemma step_inv: "build_inv db \<Longrightarrow> build_inv (storeStep c db op)"
  by (cases op) (simp_all add: store_inv)

lemma step_unique: "build_inv db \<Longrightarrow> users_unique db \<Longrightarrow> users_unique (storeStep c db op)"
  by (cases op) (auto simp: unique_upsert UpdateTokens_def UpdateBilling_def SetStatusUntil_def DeleteBuild_def Let_def liveRow_def
      intro!: unique_update)

lemma steps_unique: "build_inv db \<Longrightarrow> users_unique db \<Longrightarrow> build_inv (foldl (storeStep c) db ops) \<and> users_unique (foldl (storeStep c) db ops)"
  by (induction ops arbitrary: db) (simp_all add: step_inv step_unique)

text \<open>C32. Users stay unique: if no two live rows have the same user id before a series of operations, none have after it.\<close>

theorem build_users_unique:
  assumes "build_inv db" "users_unique db"
  shows "users_unique (foldl (storeStep c) db ops)"
  using steps_unique [OF assms] by (rule conjunct2)

theorem build_users_unique_witness:
  "users_unique (foldl (storeStep None) \<lparr>bd_rows = [], bd_seq = 0\<rparr>
     [SUpsert ([], []) 5000000000 sampleAccount, SDelete 6000000000 1, SUpsert ([], []) 7000000000 sampleAccount])"
  by (rule build_users_unique) (simp_all add: build_inv_def users_unique_def)

section \<open>A refresh token that was rotated\<close>

lemma storeTokens_row:
  assumes "r \<in> set (bd_rows (bw_db s))" "br_id r = ba_id acc" "liveRow r" "trimSpace (tp_refresh tok) \<noteq> ''''"
  shows "\<exists>r' \<in> set (bd_rows (bw_db (storeTokens env acc tok s))). br_id r' = ba_id acc \<and> liveRow r' \<and>
    br_refresh r' = SealOptional (be_cipher env) (snd (be_nonces env (bw_out s))) (tp_refresh tok)"
proof -
  let ?r = "r\<lparr>br_access := SealOptional (be_cipher env) (fst (be_nonces env (bw_out s))) (tp_access tok),
      br_refresh := SealOptional (be_cipher env) (snd (be_nonces env (bw_out s))) (tp_refresh tok),
      br_expiresAt := unixOrNull (tp_expiresAt tok), br_updated := unixSec (be_now env), br_status := StatusActiveB\<rparr>"
  have f: "firstNonEmptyStr [tp_refresh tok, ba_refresh acc] = tp_refresh tok" using assms(4) by (simp add: firstNonEmptyStr_def)
  have "?r \<in> set (bd_rows (bw_db (storeTokens env acc tok s)))"
    using assms(1-3) by (auto simp: storeTokens_def dirUpdateTokens_def UpdateTokens_def updateBuild_def f intro!: image_eqI [of _ _ r])
  then show ?thesis using assms(2,3) by (intro bexI [of _ ?r]) (simp_all add: liveRow_def)
qed

lemma update_row: "r \<in> set (bd_rows db) \<Longrightarrow> P r \<Longrightarrow> f r \<in> set (bd_rows (updateBuild P f db))"
  unfolding updateBuild_def by (auto intro!: image_eqI [of _ _ r])

lemma setStatus_row:
  assumes "r \<in> set (bd_rows (bw_db s))" "br_id r = i" "liveRow r"
  shows "\<exists>r' \<in> set (bd_rows (bw_db (dirSetStatus env i st reason until s))). br_id r' = i \<and> br_status r' = st \<and>
    br_refresh r' = br_refresh r"
proof -
  let ?u = "if st = StatusCoolingB
    then Some (unixSec (case until of None \<Rightarrow> be_now env + FreeQuotaRecoveryPause | Some u \<Rightarrow> u)) else None"
  let ?f = "\<lambda>r. r\<lparr>br_status := st, br_reason := Some reason, br_coolingUntil := ?u, br_updated := unixSec (be_now env)\<rparr>"
  have db: "bw_db (dirSetStatus env i st reason until s) = updateBuild (\<lambda>r. br_id r = i \<and> liveRow r) ?f (bw_db s)"
    by (simp add: dirSetStatus_def SetStatusUntil_def Let_def)
  have "?f r \<in> set (bd_rows (updateBuild (\<lambda>r. br_id r = i \<and> liveRow r) ?f (bw_db s)))"
    using assms by (intro update_row) simp_all
  then show ?thesis unfolding db by (rule rev_bexI) (simp add: assms(2))
qed

lemma invalid_grant:
  assumes "be_oauth env t (bw_out s) = (Inr ans, w)" "oa_status ans = 400" "oa_error ans = ''invalid_grant''"
  shows "\<exists>e. oauthRefresh env t s = (Inl e, s\<lparr>bw_out := w\<rparr>) \<and> IsPermanentRefresh e"
  using assms by (simp add: oauthRefresh_def RefreshToken_def exchange_def)

text \<open>C31. A request that refreshes before its call refreshes once more when the call answers 401, and presents the
  refresh token it has just replaced: a server that rotates its tokens refuses it, and the account is marked as
  expired while the table holds a refresh token that is still good.\<close>

theorem stale_refresh_expires:
  assumes "ba_refresh acc \<noteq> ''''" "ba_access acc = ''''"
    and "oauthRefresh env (ba_refresh acc) s = (Inr tok, s1)" "trimSpace (tp_refresh tok) \<noteq> ''''"
    and "be_client env \<lparr>rm_accessToken = tp_access tok, rm_userID = ba_userID acc\<rparr> (bw_out s1) = (Inr resp, w)" "rs_status resp = 401"
    and "be_oauth env (ba_refresh acc) w = (Inr ans, w')" "oa_status ans = 400" "oa_error ans = ''invalid_grant''"
    and "r \<in> set (bd_rows (bw_db s))" "br_id r = ba_id acc" "liveRow r"
  shows "\<exists>r' \<in> set (bd_rows (bw_db (snd (runBuildAccounts env [acc] None s)))). br_id r' = ba_id acc \<and>
    br_status r' = StatusExpiredB \<and>
    br_refresh r' = SealOptional (be_cipher env) (snd (be_nonces env (bw_out s1))) (tp_refresh tok)"
proof -
  have "bw_db s1 = bw_db s" using oauth_frame [of env "ba_refresh acc" s] assms(3) by simp
  then have r1: "r \<in> set (bd_rows (bw_db s1))" using assms(10) by simp
  let ?s2 = "storeTokens env acc tok s1"
  obtain q where q: "q \<in> set (bd_rows (bw_db ?s2))" "br_id q = ba_id acc" "liveRow q"
    "br_refresh q = SealOptional (be_cipher env) (snd (be_nonces env (bw_out s1))) (tp_refresh tok)"
    using storeTokens_row [OF r1 assms(11,12,4)] by blast
  let ?s3 = "?s2\<lparr>bw_out := w\<rparr>"
  have ens: "ensureBuildAccessToken env acc s = (Inr (tp_access tok), ?s2)"
    using assms(1-3) by (simp add: ensureBuildAccessToken_def)
  have "bw_out ?s2 = bw_out s1" by (simp add: storeTokens_def dirUpdateTokens_def)
  then have call: "createBuildResponse env \<lparr>rm_accessToken = tp_access tok, rm_userID = ba_userID acc\<rparr> ?s2 = (Inr resp, ?s3)"
    using assms(5) by (simp add: createBuildResponse_def)
  have "be_oauth env (ba_refresh acc) (bw_out ?s3) = (Inr ans, w')" using assms(7) by simp
  from invalid_grant [OF this assms(8,9)] obtain e where e: "oauthRefresh env (ba_refresh acc) ?s3 = (Inl e, ?s3\<lparr>bw_out := w'\<rparr>)"
    "IsPermanentRefresh e" by blast
  let ?s4 = "dirSetStatus env (ba_id acc) StatusExpiredB ''refresh permanent failure'' None (?s3\<lparr>bw_out := w'\<rparr>)"
  have "answerBuild env acc resp ?s4 = (fst (answerBuild env acc resp ?s4), ?s4)"
    using assms(6) by (simp add: answerBuild_def handleBuildUpstreamFailure_def paymentFailure_def)
  then obtain e' where "invokeBuildOnce env acc (tp_access tok) ?s2 = (Inl e', ?s4)"
    using call e assms(1,6) by (simp add: invokeBuildOnce_def expireOnPermanent_def answerBuild_def split: prod.splits)
  then have "snd (runBuildAccounts env [acc] None s) = ?s4" using ens by simp
  then show ?thesis using setStatus_row [of q "?s3\<lparr>bw_out := w'\<rparr>" "ba_id acc" env StatusExpiredB "''refresh permanent failure''" None] q by simp
qed

text \<open>An OAuth server that rotates: it takes each token once, \<open>R\<close> and then \<open>RR\<close>, with the number of calls as its state;
  an upstream that refuses every access token.\<close>

definition rotatingOAuth :: "string \<Rightarrow> nat \<Rightarrow> (goerr + OAuthAnswer) \<times> nat" where
  "rotatingOAuth token n =
    (if token = replicate (n + 1) (CHR ''R'')
     then (Inr \<lparr>oa_status = 200, oa_access = ''A1'', oa_refresh = replicate (n + 2) (CHR ''R''), oa_expiresIn = 3600,
             oa_idToken = '''', oa_error = '''', oa_retryAfter = ''''\<rparr>, n + 1)
     else (Inr \<lparr>oa_status = 400, oa_access = '''', oa_refresh = '''', oa_expiresIn = 0, oa_idToken = '''',
             oa_error = ''invalid_grant'', oa_retryAfter = ''''\<rparr>, n))"

definition sampleBuildEnv :: "int \<Rightarrow> (nat, string) BuildEnv" where
  "sampleBuildEnv status =
    \<lparr>be_enabled = True, be_mounted = True, be_cipher = None, be_nonces = (\<lambda>_. ([], [])), be_now = 5000000000,
     be_oauth = rotatingOAuth, be_client = (\<lambda>meta n. (Inr \<lparr>rs_status = status, rs_body = ''{}''\<rparr>, n)),
     be_read = (\<lambda>r. Inr (rs_body r)), be_prepare = (\<lambda>_. None), be_parseTime = (\<lambda>_. None), be_parseHTTPTime = (\<lambda>_. None),
     be_statusText = (\<lambda>_. '''')\<rparr>"

definition buildRow :: BuildRow where
  "buildRow = \<lparr>br_id = 1, br_name = ''ann'', br_email = '''', br_userID = ''u'', br_clientID = '''', br_access = '''',
     br_refresh = ''R'', br_expiresAt = None, br_status = StatusActiveB, br_coolingUntil = None, br_priority = 0,
     br_lastUse = None, br_failCount = 0, br_created = 1, br_updated = 1, br_reason = None, br_deleted = None,
     br_billing = None, br_billingSynced = None\<rparr>"

definition sampleWorld :: "BuildRow \<Rightarrow> nat BuildWorld" where
  "sampleWorld r = \<lparr>bw_db = \<lparr>bd_rows = [r], bd_seq = 1\<rparr>, bw_out = 0\<rparr>"

definition idleAccount :: BuildAccount where
  "idleAccount = sampleAccount\<lparr>ba_id := 1, ba_access := ''''\<rparr>"

lemma trim_RR: "trimSpace ''RR'' = ''RR''"
  by (simp add: trimSpace_def segs_ascii asciiString_def byteOf_def isSpaceRune_def)

theorem stale_refresh_expires_witness:
  "\<exists>r' \<in> set (bd_rows (bw_db (snd (runBuildAccounts (sampleBuildEnv 401) [idleAccount] None (sampleWorld buildRow))))).
    br_id r' = 1 \<and> br_status r' = StatusExpiredB \<and> br_refresh r' = ''RR''"
proof -
  let ?env = "sampleBuildEnv 401"
  let ?tok = "\<lparr>tp_access = ''A1'', tp_refresh = ''RR'', tp_expiresAt = Some (5000000000 + 3600 * secondNS), tp_idToken = ''''\<rparr>"
  have acc: "ba_refresh idleAccount = ''R''" "ba_access idleAccount = ''''" "ba_id idleAccount = 1" "ba_userID idleAccount = ''u''"
    by (simp_all add: idleAccount_def sampleAccount_def FromCredential_def)
  have sim: "be_cipher ?env = None" "be_client ?env m n = (Inr \<lparr>rs_status = 401, rs_body = ''{}''\<rparr>, n)" "be_oauth ?env = rotatingOAuth"
    for m n by (simp_all add: sampleBuildEnv_def)
  have tok: "firstNonEmpty [''RR'', x] = ''RR''" for x by (simp add: firstNonEmpty_def trim_RR)
  have o1: "oauthRefresh ?env ''R'' (sampleWorld buildRow) = (Inr ?tok, sampleWorld buildRow\<lparr>bw_out := 1\<rparr>)"
    by (simp add: oauthRefresh_def sampleBuildEnv_def rotatingOAuth_def sampleWorld_def RefreshToken_def exchange_def tok)
  have row: "buildRow \<in> set (bd_rows (bw_db (sampleWorld buildRow)))" "br_id buildRow = 1" "liveRow buildRow"
    by (simp_all add: sampleWorld_def buildRow_def liveRow_def)
  show ?thesis
    using stale_refresh_expires [of idleAccount ?env "sampleWorld buildRow" ?tok "sampleWorld buildRow\<lparr>bw_out := 1\<rparr>"
        "\<lparr>rs_status = 401, rs_body = ''{}''\<rparr>" 1 "\<lparr>oa_status = 400, oa_access = '''', oa_refresh = '''', oa_expiresIn = 0, oa_idToken = '''',
             oa_error = ''invalid_grant'', oa_retryAfter = ''''\<rparr>" 1 buildRow]
    unfolding acc using o1 row
    by (simp add: sim rotatingOAuth_def SealOptional_def trim_RR)
qed

section \<open>The answer to a repeated request\<close>

text \<open>After a 401 and a refresh the second answer is read without a look at its status: a 429 counts as an answer, and
  the account is not told to cool down.\<close>

theorem limited_retry_served:
  assumes "ensureBuildAccessToken env acc s = (Inr access, s0)" "ba_refresh acc \<noteq> ''''"
    and "createBuildResponse env \<lparr>rm_accessToken = access, rm_userID = ba_userID acc\<rparr> s0 = (Inr resp, s1)" "rs_status resp = 401"
    and "oauthRefresh env (ba_refresh acc) s1 = (Inr tok, s2)"
    and "createBuildResponse env \<lparr>rm_accessToken = tp_access tok, rm_userID = ba_userID acc\<rparr> (storeTokens env acc tok s2) = (Inr limited, s3)"
    and "rs_status limited = 429" "be_read env limited = Inr r"
  shows "runBuildAccounts env (acc # accs) lastErr s = (Inr r, s3)"
  using assms by (simp add: invokeBuildOnce_def readBuildResponse_def)

theorem limited_retry_served_witness:
  "fst (runBuildAccounts ((sampleBuildEnv 0)\<lparr>be_client := (\<lambda>meta n. (Inr \<lparr>rs_status = (if rm_accessToken meta = ''A'' then 401 else 429), rs_body = ''limited''\<rparr>, n))\<rparr>)
     [sampleAccount\<lparr>ba_id := 1, ba_expiresAt := None\<rparr>] None (sampleWorld buildRow)) = Inr ''limited''"
proof -
  let ?env = "(sampleBuildEnv 0)\<lparr>be_client := (\<lambda>meta n. (Inr \<lparr>rs_status = (if rm_accessToken meta = ''A'' then 401 else 429), rs_body = ''limited''\<rparr>, n))\<rparr>"
  let ?tok = "\<lparr>tp_access = ''A1'', tp_refresh = ''RR'', tp_expiresAt = Some (5000000000 + 3600 * secondNS), tp_idToken = ''''\<rparr>"
  let ?acc = "sampleAccount\<lparr>ba_id := 1, ba_expiresAt := None\<rparr>" and ?s = "sampleWorld buildRow"
  have acc: "ba_refresh ?acc = ''R''" "ba_access ?acc = ''A''" "ba_userID ?acc = ''u''" "ba_expiresAt ?acc = None"
    by (simp_all add: sampleAccount_def FromCredential_def)
  have tok: "firstNonEmpty [''RR'', x] = ''RR''" for x by (simp add: firstNonEmpty_def trim_RR)
  have "ensureBuildAccessToken ?env ?acc ?s = (Inr ''A'', ?s)" by (simp add: ensureBuildAccessToken_def NeedsRefresh_def acc)
  moreover have "createBuildResponse ?env \<lparr>rm_accessToken = ''A'', rm_userID = ''u''\<rparr> ?s = (Inr \<lparr>rs_status = 401, rs_body = ''limited''\<rparr>, ?s)"
    by (simp add: createBuildResponse_def)
  moreover have "oauthRefresh ?env ''R'' ?s = (Inr ?tok, ?s\<lparr>bw_out := 1\<rparr>)"
    by (simp add: oauthRefresh_def sampleBuildEnv_def rotatingOAuth_def sampleWorld_def RefreshToken_def exchange_def tok)
  moreover have "createBuildResponse ?env \<lparr>rm_accessToken = ''A1'', rm_userID = ''u''\<rparr> w = (Inr \<lparr>rs_status = 429, rs_body = ''limited''\<rparr>, w)" for w
    by (simp add: createBuildResponse_def)
  moreover have "be_read ?env \<lparr>rs_status = 429, rs_body = ''limited''\<rparr> = Inr ''limited''" by (simp add: sampleBuildEnv_def)
  ultimately show ?thesis
    using limited_retry_served [of ?env ?acc ?s "''A''" ?s "\<lparr>rs_status = 401, rs_body = ''limited''\<rparr>" ?s ?tok "?s\<lparr>bw_out := 1\<rparr>"
        "\<lparr>rs_status = 429, rs_body = ''limited''\<rparr>" _ "''limited''"] by (simp only: acc) simp
qed

section \<open>Examples for the pool\<close>

lemma build_model_eval: "UpstreamIDFromBuildModel ''build/g'' = ''g''"
  by (simp add: UpstreamIDFromBuildModel_def BuildModelPrefix_def hasPrefix_def Let_def trimSpace_def segs_ascii
      asciiString_def byteOf_def isSpaceRune_def)

definition tokenRow :: BuildRow where
  "tokenRow = buildRow\<lparr>br_access := ''A'', br_refresh := ''''\<rparr>"

definition tokenAccount :: BuildAccount where
  "tokenAccount = (case scanAccount None tokenRow of Inr a \<Rightarrow> a | Inl _ \<Rightarrow> sampleAccount)"

lemma token_scan: "scanAccount None tokenRow = Inr tokenAccount"
  by (simp add: tokenAccount_def scanAccount_def tokenRow_def buildRow_def OpenOptional_def IsEncrypted_def hasPrefix_def encryptedPrefix_def)

lemma token_list: "ListActive None now (bw_db (sampleWorld tokenRow)) = Inr [tokenAccount]"
proof -
  have "activeRow now tokenRow" by (simp add: activeRow_def liveRow_def tokenRow_def buildRow_def)
  then show ?thesis by (simp add: ListActive_def sampleWorld_def byPriority_def token_scan)
qed

lemma token_account: "ba_access tokenAccount = ''A''" "ba_expiresAt tokenAccount = None" "ba_billing tokenAccount = emptyBilling"
  "ba_userID tokenAccount = ''u''" "ba_id tokenAccount = 1"
  by (simp_all add: tokenAccount_def scanAccount_def tokenRow_def buildRow_def OpenOptional_def IsEncrypted_def hasPrefix_def
      encryptedPrefix_def timeFromUnix_def)

lemma token_usable: "\<not> QuotaExhausted (ba_billing tokenAccount)" "freshAccount now tokenAccount"
  by (simp_all add: token_account QuotaExhausted_def HasQuotaSnapshot_def emptyBilling_def freshAccount_def NeedsRefresh_def)

lemma sample_inv: "br_id r = 1 \<Longrightarrow> build_inv (bw_db (sampleWorld r))"
  by (simp add: sampleWorld_def build_inv_def)

lemma sampleEnv_sel: "be_cipher (sampleBuildEnv st) = None" "be_enabled (sampleBuildEnv st)" "be_mounted (sampleBuildEnv st)"
  "be_prepare (sampleBuildEnv st) = (\<lambda>_. None)" "be_read (sampleBuildEnv st) resp = Inr (rs_body resp)"
  "be_client (sampleBuildEnv st) meta n = (Inr \<lparr>rs_status = st, rs_body = ''{}''\<rparr>, n)"
  by (simp_all add: sampleBuildEnv_def)

theorem build_served_witness: "\<exists>r'. fst (BuildCompletions (sampleBuildEnv 200) ''build/g'' (sampleWorld tokenRow)) = Inr r'"
  using build_served [of "sampleBuildEnv 200" "sampleWorld tokenRow" "[tokenAccount]" tokenAccount "\<lparr>rs_status = 200, rs_body = ''{}''\<rparr>" "''{}''" "''build/g''"]
  by (simp add: sampleEnv_sel token_list token_usable build_model_eval)

theorem build_pool_drained_witness:
  "set (listedIDs None 1000000000000000000 (bw_db (buildRequests [(sampleBuildEnv 200, ''build/g'')] (snd (BuildCompletions (sampleBuildEnv 429) ''build/g'' (sampleWorld tokenRow)))))) \<inter> {1} = {}"
proof -
  have "alwaysLimited (sampleBuildEnv 429)" by (simp add: alwaysLimited_def sampleEnv_sel)
  moreover have "build_inv (bw_db (sampleWorld tokenRow))" by (rule sample_inv) (simp add: tokenRow_def buildRow_def)
  ultimately show ?thesis
    using build_pool_drained [of "sampleWorld tokenRow" "sampleBuildEnv 429" "[tokenAccount]" "''build/g''" None "1000000000000000000" "[(sampleBuildEnv 200, ''build/g'')]"]
    by (simp add: sampleEnv_sel token_list token_usable token_account build_model_eval)
qed

theorem cooling_forever_witness:
  "1 \<notin> set (listedIDs None 1000000000000000000 (bw_db (buildRequests [(sampleBuildEnv 200, ''build/g'')] (sampleWorld (buildRow\<lparr>br_status := StatusCoolingB, br_coolingUntil := Some 6\<rparr>)))))"
proof -
  let ?r = "buildRow\<lparr>br_status := StatusCoolingB, br_coolingUntil := Some 6\<rparr>"
  have i: "br_id ?r = 1" by (simp add: buildRow_def)
  show ?thesis
    using cooling_forever [OF sample_inv [OF i], of ?r None "1000000000000000000" "[(sampleBuildEnv 200, ''build/g'')]"] by (simp add: sampleWorld_def i)
qed

text \<open>A prepaid balance does not help an account whose on-demand budget is used up.\<close>

theorem prepaid_ignored:
  "QuotaExhausted (usagePercent (emptyBilling\<lparr>bi_onDemandCap := 8, bi_onDemandUsed := 8, bi_prepaidBalance := 500\<rparr>))"
proof -
  have "fl (fl 1 * 100) = 100" by code_simp
  then show ?thesis by (simp add: QuotaExhausted_def usagePercent_def HasQuotaSnapshot_def emptyBilling_def)
qed

end
