(* ===== verification/RefreshProps.thy ===== *)
theory RefreshProps
  imports RefreshService
begin

text \<open>
  What the refresh service guarantees: one refresh touches one account and is accounted for once,
  a batch adds up, a lookup in chunks is a lookup, dead credentials delete an account exactly at the
  limit, and what a scheduled refresh writes into the console window.
\<close>

section \<open>Operations on one account\<close>

definition touches :: "string \<Rightarrow> LocalDB \<Rightarrow> LocalDB \<Rightarrow> bool" where
  "touches t db db' \<longleftrightarrow> (db_ok db \<longrightarrow> db_ok db') \<and> db_revision db \<le> db_revision db' \<and>
     (\<forall>u. u \<noteq> t \<longrightarrow> rowOf u db' = rowOf u db)"

lemma touches_refl [simp]: "touches t db db"
  by (simp add: touches_def)

lemma touches_trans: "touches t db db1 \<Longrightarrow> touches t db1 db2 \<Longrightarrow> touches t db db2"
  by (simp add: touches_def)

definition pool_valid :: "AccountPatch \<Rightarrow> bool" where
  "pool_valid p \<longleftrightarrow> (\<forall>v. pt_pool p = Some v \<longrightarrow> v \<in> {''basic'', ''super'', ''heavy''})"

lemma patchOne_touches:
  assumes "pool_valid p"
  shows "touches (pt_token p) db (snd (patchOne now p db))"
proof (cases "patchLocalAccounts now (db_revision db + 1) [p] (db_rows db)")
  case (Inl e)
  then show ?thesis by (simp add: patchOne_def PatchAccounts_def bumpRevision_def Let_def)
next
  case (Inr cr)
  obtain c rows where cr: "cr = (c, rows)" by (cases cr)
  have db': "snd (patchOne now p db) = \<lparr>db_rows = rows, db_revision = db_revision db + 1\<rparr>"
    using Inr cr by (simp add: patchOne_def PatchAccounts_def bumpRevision_def Let_def)
  have rows: "patchLocalAccount now (db_revision db + 1) p (db_rows db) = Inr (c, rows)"
    using Inr cr by (auto simp: bindE_Inr_iff)
  have other: "findRow u rows = findRow u (db_rows db)" if "u \<noteq> pt_token p" for u
  proof -
    have "findRow u (updateWhere (\<lambda>r. lr_token r = pt_token p) (applySets sets) (db_rows db)) = findRow u (db_rows db)" for sets
      using that by (cases "findRow u (db_rows db)") (auto simp: findRow_updateWhere dest: findRow_Some)
    then show ?thesis using rows by (auto simp: patchLocalAccount_def bindE_Inr_iff Let_def split: option.splits)
  qed
  have "\<forall>r \<in> set rows. row_readable r" if "\<forall>r \<in> set (db_rows db). row_readable r"
  proof -
    have "\<exists>q. normalizeRecordPool v = Inr q" if "pt_pool p = Some v" for v
      using assms that by (auto simp: pool_valid_def normalizeRecordPool_def pool_fixed)
    then have "\<forall>r \<in> set (updateWhere P (applySets (buildLocalPatchSets x p ts n)) (db_rows db)). row_readable r" for P x ts n
      by (intro updateWhere_readable [OF that] patch_readable)
    then show ?thesis using rows that by (auto simp: patchLocalAccount_def bindE_Inr_iff Let_def split: option.splits)
  qed
  moreover have "db_inv db \<Longrightarrow> db_inv (snd (patchOne now p db))"
    using repo_step_inv [OF repo_step.patch, of db now "[p]"] by (auto simp: patchOne_def split: prod.splits sum.splits)
  ultimately show ?thesis using other by (simp add: touches_def db_ok_def db' rowOf_def)
qed

lemma patchOne_succeeds:
  assumes "db_ok db"
  shows "fst (patchOne now p db) = None"
proof -
  have "\<exists>c rows. patchLocalAccount now n p (db_rows db) = Inr (c, rows)" for n
  proof (cases "findRow (pt_token p) (db_rows db)")
    case (Some row)
    then have "row_readable row" using assms by (auto simp: db_ok_def dest: findRow_Some)
    then obtain r where "toRecord now row = Inr r" by (rule toRecord_readable)
    then show ?thesis using Some by (simp add: patchLocalAccount_def Let_def)
  qed (simp add: patchLocalAccount_def)
  then obtain c rows where "patchLocalAccount now (db_revision db + 1) p (db_rows db) = Inr (c, rows)" by blast
  then show ?thesis by (simp add: patchOne_def PatchAccounts_def bumpRevision_def Let_def)
qed

lemma delete_touches: "touches t db (snd (DeleteAccounts now [t] db))"
proof -
  have "rowOf u (snd (DeleteAccounts now [t] db)) = rowOf u db" if "u \<noteq> t" for u
    using that findRow_deletes [of u now "db_revision db + 1" "[t]" "db_rows db"]
    by (auto simp: rowOf_def DeleteAccounts_def bumpRevision_def case_prod_unfold Let_def split: option.splits)
  then show ?thesis
    using db_ok_delete [of db now "[t]"]
    by (auto simp: touches_def DeleteAccounts_def bumpRevision_def case_prod_unfold Let_def)
qed

lemma GetAccounts_succeeds:
  "db_ok db \<Longrightarrow> \<exists>records. GetAccounts now tokens db = Inr records"
  using scanRows_total [of "filter (\<lambda>r. lr_token r \<in> set tokens) (db_rows db)" now]
  by (auto simp: GetAccounts_def db_ok_def)

lemma mark_touches:
  "touches token db (snd (MarkAccountInvalidCredentials other configured now token err source db))"
proof (cases "IsInvalidCredentialsError err")
  case True
  show ?thesis
  proof (cases "GetAccounts now [token] db")
    case (Inr records)
    let ?p = "invalidCredentialsPatch other configured now records token err source"
    have p: "pool_valid ?p" "pt_token ?p = token"
      by (simp_all add: invalidCredentialsPatch_def pool_valid_def emptyPatch_def Let_def)
    obtain e db1 where one: "patchOne now ?p db = (e, db1)" by (cases "patchOne now ?p db")
    have t1: "touches token db db1" using patchOne_touches [OF p(1), of db now] p(2) one by simp
    then show ?thesis
      using True Inr one touches_trans [OF t1 delete_touches]
      by (auto simp: MarkAccountInvalidCredentials_def Let_def split: option.split)
  qed (use True in \<open>simp add: MarkAccountInvalidCredentials_def\<close>)
qed (simp add: MarkAccountInvalidCredentials_def)

lemma mark_succeeds:
  assumes "db_ok db"
  shows "fst (MarkAccountInvalidCredentials other configured now token err source db) =
    Inr (IsInvalidCredentialsError err)"
proof -
  obtain records where "GetAccounts now [token] db = Inr records" using GetAccounts_succeeds [OF assms] by blast
  moreover have "\<exists>db1. patchOne now p db = (None, db1)" for p
    using patchOne_succeeds [OF assms, of now p] by (metis prod.collapse)
  then obtain db1 where "patchOne now (invalidCredentialsPatch other configured now records token err source) db = (None, db1)"
    by blast
  ultimately show ?thesis by (simp add: MarkAccountInvalidCredentials_def Let_def)
qed

lemma expire_touches:
  "touches (ar_token r) db (snd (expireInvalidCredentials other configured now r err source db))"
  using mark_touches [of "ar_token r" db other configured now err source]
  by (auto simp: expireInvalidCredentials_def split: prod.splits sum.splits bool.splits)

lemma expire_succeeds:
  assumes "db_ok db" "IsInvalidCredentialsError err"
  shows "\<exists>res db'. expireInvalidCredentials other configured now r err source db = (Inr (res, True), db') \<and>
    rr_checked res = 1 \<and> rr_refreshed res = 0 \<and> rr_failed res + rr_expired res = 1 \<and>
    (rr_expired res = 1 \<longleftrightarrow> failureCountIn (ar_ext r) ''invalid_credentials'' + 1 \<ge> invalidCredentialsFailureThreshold configured)"
  using mark_succeeds [OF assms(1), of other configured now "ar_token r" err source] assms(2)
  by (auto simp: expireInvalidCredentials_def zeroResult_def invalidCredentialsFailureCount_def
      split: prod.splits sum.splits bool.splits)

section \<open>The fetch\<close>

lemma fetchMode_error:
  "FetchModeUsageQuota fetch now token m = Inl e \<Longrightarrow> IsInvalidCredentialsError e"
  by (auto simp: FetchModeUsageQuota_def split: sum.splits option.splits if_splits)

lemma fetchModes_error: "fetchModes fetch now token ms w = Inl e \<Longrightarrow> IsInvalidCredentialsError e"
  by (induction ms arbitrary: w) (auto split: sum.splits option.splits if_splits)

lemma fetchAll_error: "FetchAllUsageQuotas fetch now token ms = Inl e \<Longrightarrow> IsInvalidCredentialsError e"
  unfolding FetchAllUsageQuotas_def bindE_def
  by (auto simp del: fetchModes.simps split: sum.splits if_splits dest: fetchModes_error)

lemma invalid_upstream: "IsInvalidCredentialsError e \<Longrightarrow> asUpstream e \<noteq> None"
  by (auto simp: IsInvalidCredentialsError_def split: option.splits)

lemma fetchAllQuotas_cases:
  obtains (dead) e where "fetchAllQuotas fetch now token pool bootstrap = Inl e" "IsInvalidCredentialsError e"
  | (ok) w where "fetchAllQuotas fetch now token pool bootstrap = Inr (Some w)"
  using fetchAll_error invalid_upstream
  by (cases "FetchAllUsageQuotas fetch now token (if bootstrap then [] else SupportedModeIDs pool)")
    (fastforce simp: fetchAllQuotas_def split: option.splits)+

text \<open>What each mode of a fetch without credential failures yields.\<close>

definition fetchedWindow :: "fetcher \<Rightarrow> int \<Rightarrow> string \<Rightarrow> int \<Rightarrow> QuotaWindow option" where
  "fetchedWindow fetch now token m =
    (case fetch token (usageModeName m) of
       Inl _ \<Rightarrow> None
     | Inr body \<Rightarrow> map_option (\<lambda>q. usageWindow q now) (ParseRateLimits body (usageDefaultWindow m)))"

lemma fetchModes_windows:
  assumes "\<forall>m \<in> set ms. \<forall>e. fetch token (usageModeName m) = Inl e \<longrightarrow> \<not> IsInvalidCredentialsError e"
  shows "fetchModes fetch now token ms w =
    Inr (\<lambda>m. if m \<in> set ms \<and> fetchedWindow fetch now token m \<noteq> None then fetchedWindow fetch now token m else w m)"
  using assms
proof (induction ms arbitrary: w)
  case (Cons m ms)
  have step: "FetchModeUsageQuota fetch now token m = Inr (fetchedWindow fetch now token m)"
    using Cons.prems by (auto simp: FetchModeUsageQuota_def fetchedWindow_def split: sum.splits option.splits)
  show ?case
    using Cons.IH Cons.prems step by (auto simp: fun_eq_iff split: option.splits)
qed simp

section \<open>One refresh\<close>

lemma setQuotaPatch_frame [simp]:
  "pt_token (setQuotaPatch m v p) = pt_token p" "pt_pool (setQuotaPatch m v p) = pt_pool p"
  "pt_status (setQuotaPatch m v p) = pt_status p" "pt_clearFailures (setQuotaPatch m v p) = pt_clearFailures p"
  by (simp_all add: setQuotaPatch_def)

lemma setQuotaPatch_has: "m \<in> {0..5} \<Longrightarrow> hasQuotaPatch (setQuotaPatch m v p)"
  by (auto simp: setQuotaPatch_def hasQuotaPatch_def)

lemma hasQuotaPatch_keep: "hasQuotaPatch p \<Longrightarrow> hasQuotaPatch (setQuotaPatch m v p)"
  by (auto simp: setQuotaPatch_def hasQuotaPatch_def)

lemma applyFallbackWindowPatch_frame [simp]:
  "pt_token (applyFallbackWindowPatch q pool now m p) = pt_token p"
  "pt_pool (applyFallbackWindowPatch q pool now m p) = pt_pool p"
  by (auto simp: applyFallbackWindowPatch_def split: option.splits)

lemma applyFallbackWindowPatch_keep:
  "hasQuotaPatch p \<Longrightarrow> hasQuotaPatch (applyFallbackWindowPatch q pool now m p)"
  by (auto simp: applyFallbackWindowPatch_def hasQuotaPatch_keep split: option.splits)

lemma fold_fetched:
  assumes "set ms \<subseteq> {0..5}" "snd s \<longrightarrow> hasQuotaPatch (fst s)"
  shows "pt_token (fst (fold (fetchedStep q ep now w fb) ms s)) = pt_token (fst s) \<and>
    pt_pool (fst (fold (fetchedStep q ep now w fb) ms s)) = pt_pool (fst s) \<and>
    (snd (fold (fetchedStep q ep now w fb) ms s) \<longrightarrow> hasQuotaPatch (fst (fold (fetchedStep q ep now w fb) ms s)))"
  using assms
proof (induction ms arbitrary: s)
  case (Cons m ms)
  let ?s1 = "fetchedStep q ep now w fb m s"
  have "snd ?s1 \<longrightarrow> hasQuotaPatch (fst ?s1)" "pt_token (fst ?s1) = pt_token (fst s)" "pt_pool (fst ?s1) = pt_pool (fst s)"
    using Cons.prems
    by (auto simp: fetchedStep_def setQuotaPatch_has applyFallbackWindowPatch_keep split: option.splits)
  then show ?case using Cons.IH [of ?s1] Cons.prems(1) by simp
qed simp

lemma fold_fallback_frame:
  "pt_token (fold (applyFallbackWindowPatch q pool now) ms p) = pt_token p \<and>
   pt_pool (fold (applyFallbackWindowPatch q pool now) ms p) = pt_pool p"
  by (induction ms arbitrary: p) simp_all

lemma inferred_pool: "InferPoolFromLiveWindows w = Some pool \<Longrightarrow> pool \<in> {''basic'', ''super'', ''heavy''}"
proof -
  have "inferFromModes w ms = Some pool \<Longrightarrow> pool \<in> {''basic'', ''super'', ''heavy''}" for ms
    by (induction ms) (auto split: option.splits if_splits)
  moreover have "InferPool w \<in> {''basic'', ''super'', ''heavy''}"
    by (auto simp: InferPool_def autoTotalToPool_def split: option.splits if_splits)
  moreover assume "InferPoolFromLiveWindows w = Some pool"
  ultimately show ?thesis
    by (auto simp: InferPoolFromLiveWindows_def Let_def split: option.splits if_splits)
qed

lemma emptyPatch_simps [simp]:
  "pt_token (emptyPatch t) = t" "pt_pool (emptyPatch t) = None" "\<not> hasQuotaPatch (emptyPatch t)"
  "pt_status (emptyPatch t) = None" "pt_clearFailures (emptyPatch t) = False" "pt_extMerge (emptyPatch t) = fmempty"
  by (simp_all add: emptyPatch_def hasQuotaPatch_def)

definition accounted :: "RefreshResult \<Rightarrow> int \<Rightarrow> bool" where
  "accounted res n \<longleftrightarrow> rr_checked res = n \<and> rr_refreshed res + rr_failed res + rr_expired res = n \<and>
     0 \<le> rr_refreshed res \<and> 0 \<le> rr_failed res \<and> 0 \<le> rr_expired res \<and> 0 \<le> rr_recovered res \<and>
     rr_recovered res \<le> rr_refreshed res"

lemma patchFetched_effect:
  assumes "pt_pool p = None" "refreshed \<longrightarrow> hasQuotaPatch p"
  shows "touches (pt_token p) db (snd (patchFetchedResult now r p w refreshed db)) \<and>
    (db_ok db \<longrightarrow> (\<exists>res. fst (patchFetchedResult now r p w refreshed db) = Inr res \<and> accounted res 1))"
proof (cases "hasQuotaPatch p")
  case False
  then show ?thesis using assms by (simp add: patchFetchedResult_def accounted_def zeroResult_def)
next
  case True
  define p' where "p' = (let p = (case InferPoolFromLiveWindows w of
                  None \<Rightarrow> p | Some pool \<Rightarrow> if pool \<noteq> ar_pool r then p\<lparr>pt_pool := Some pool\<rparr> else p)
       in if refreshed then p\<lparr>pt_lastSyncAt := Some now, pt_syncDelta := Some 1\<rparr> else p)"
  have p': "pool_valid p'" "pt_token p' = pt_token p"
    using assms(1) inferred_pool [of w] by (auto simp: p'_def pool_valid_def Let_def split: option.splits)
  have res: "patchFetchedResult now r p w refreshed db =
      (case patchOne now p' db of (Some e, db1) \<Rightarrow> (Inl e, db1)
       | (None, db1) \<Rightarrow> (Inr (zeroResult\<lparr>rr_checked := 1, rr_refreshed := (if refreshed then 1 else 0),
                  rr_failed := (if refreshed then 0 else 1),
                  rr_recovered := (if ar_status r = StCooling \<and> refreshed then 1 else 0)\<rparr>), db1))"
    using True by (simp add: patchFetchedResult_def p'_def Let_def)
  show ?thesis
    using patchOne_touches [OF p'(1), of db now] patchOne_succeeds [of db now p']
    unfolding res p'(2) by (cases "patchOne now p' db") (auto simp: accounted_def zeroResult_def split: option.split)
qed

lemma applyFetched_effect:
  "touches (ar_token r) db (snd (applyFetchedWindows now r w fb db)) \<and>
   (db_ok db \<and> QuotaSet r = Inr q \<longrightarrow> (\<exists>res. fst (applyFetchedWindows now r w fb db) = Inr res \<and> accounted res 1))"
proof (cases "QuotaSet r")
  case (Inr q1)
  let ?ep = "case InferPoolFromLiveWindows w of None \<Rightarrow> ar_pool r | Some pool \<Rightarrow> pool"
  obtain p refreshed where p: "fold (fetchedStep q1 ?ep now w fb) allRefreshModeIDs (emptyPatch (ar_token r), False) = (p, refreshed)"
    by (metis prod.exhaust)
  have "set allRefreshModeIDs \<subseteq> {0..5}" by (simp add: allRefreshModeIDs_def)
  from fold_fetched [OF this, of "(emptyPatch (ar_token r), False)" q1 ?ep now w fb] p
  have "pt_token p = ar_token r" "pt_pool p = None" "refreshed \<longrightarrow> hasQuotaPatch p" by simp_all
  moreover have "applyFetchedWindows now r w fb db = patchFetchedResult now r p w refreshed db"
    using Inr p by (simp add: applyFetchedWindows_def Let_def)
  ultimately show ?thesis using patchFetched_effect [of p refreshed db now r w] by simp
qed (simp add: applyFetchedWindows_def)

lemma refreshOne_effect:
  "touches (ar_token r) db (snd (refreshOne env now r fb bs db)) \<and>
   (db_ok db \<and> QuotaSet r = Inr q \<and> \<not> IsDeleted r \<longrightarrow>
     (\<exists>res. fst (refreshOne env now r fb bs db) = Inr res \<and> accounted res 1))"
proof (cases "IsDeleted r")
  case False
  show ?thesis
  proof (cases rule: fetchAllQuotas_cases [of "rf_fetch env" now "ar_token r" "ar_pool r" bs])
    case (dead e)
    have t: "touches (ar_token r) db (snd (refreshOne env now r fb bs db))"
      using expire_touches [of r db "rf_text env" "rf_maxFailures env" now e "''refresh''"] False dead(1)
      by (auto simp: refreshOne_def split: prod.splits sum.splits)
    moreover have "\<exists>res. fst (refreshOne env now r fb bs db) = Inr res \<and> accounted res 1" if "db_ok db"
      using mark_succeeds [OF that, of "rf_text env" "rf_maxFailures env" now "ar_token r" e "''refresh''"] False dead
      by (auto simp: refreshOne_def expireInvalidCredentials_def accounted_def zeroResult_def
          split: prod.splits sum.splits bool.splits)
    ultimately show ?thesis by blast
  next
    case (ok w)
    then show ?thesis using applyFetched_effect [of r db now w fb] False by (simp add: refreshOne_def)
  qed
qed (simp add: refreshOne_def)

text \<open>Refreshing an account ends without an error when its stored quota can be read; it is counted
  once, as refreshed, failed or expired, the database stays well formed, its revision does not go
  back, and no other account changes.\<close>

theorem refresh_one:
  assumes "db_ok db" "QuotaSet r = Inr q" "\<not> IsDeleted r"
  shows "\<exists>res db'. refreshOne env now r fb bs db = (Inr res, db') \<and> db_ok db' \<and>
    db_revision db \<le> db_revision db' \<and> (\<forall>t. t \<noteq> ar_token r \<longrightarrow> rowOf t db' = rowOf t db) \<and>
    rr_checked res = 1 \<and> rr_refreshed res + rr_failed res + rr_expired res = 1 \<and> rr_recovered res \<le> rr_refreshed res"
proof -
  obtain o1 db' where r: "refreshOne env now r fb bs db = (o1, db')" by (metis prod.exhaust)
  with refreshOne_effect [of r db env now fb bs q] assms show ?thesis
    by (auto simp: touches_def accounted_def)
qed

section \<open>The sample account\<close>

lemma sample_record:
  obtains r where "toRecord now sampleRow = Inr r" "ar_token r = ''tok''" "ar_pool r = ''basic''"
    "ar_status r = StActive" "\<not> IsDeleted r" "QuotaSet r = Inr (DefaultQuotaSet ''basic'')"
proof -
  obtain r where r: "toRecord now sampleRow = Inr r" "ar_token r = lr_token sampleRow" "ar_deletedAt r = lr_deletedAt sampleRow"
    "ar_quota r = quotaMap sampleRow" "normalizeRecordPool (lr_pool sampleRow) = Inr (ar_pool r)"
    "normalizeRecordStatus (lr_status sampleRow) = Inr (ar_status r)"
    using toRecord_readable [OF sampleRow_readable, of now] by metis
  have "QuotaSet r = Inr (DefaultQuotaSet ''basic'')"
    by (simp add: QuotaSet_def r(4) sampleRow_def quotaMap_inserted quota_set_json [OF default_json_safe])
  moreover have "ar_pool r = ''basic''"
    using r(5) by (simp add: sampleRow_def normalizeRecordPool_def pool_fixed)
  moreover have "ar_status r = StActive"
    using r(6) by (simp add: sampleRow_def normalizeRecordStatus_def ParseAccountStatus_def)
  ultimately show ?thesis using r(1-3) by (intro that) (simp_all add: sampleRow_def IsDeleted_def)
qed

lemma sample_rowOf: "rowOf ''tok'' sampleDB = Some sampleRow"
  by (simp add: rowOf_def sampleDB_rows sampleRow_def)

definition sampleRefresh :: RefreshEnv where
  "sampleRefresh = \<lparr>rf_fetch = missingUsageFetcher, rf_maxFailures = 2, rf_text = (\<lambda>e. ''error'')\<rparr>"

theorem refresh_one_witness:
  "\<exists>r res db'. toRecord 9 sampleRow = Inr r \<and> refreshOne sampleRefresh 9 r True False sampleDB = (Inr res, db') \<and>
     rr_checked res = 1 \<and> rr_refreshed res + rr_failed res + rr_expired res = 1"
proof -
  obtain r where r: "toRecord 9 sampleRow = Inr r" "\<not> IsDeleted r" "QuotaSet r = Inr (DefaultQuotaSet ''basic'')"
    by (rule sample_record)
  from refresh_one [OF sampleDB_ok r(3,2), of sampleRefresh 9 True False] r(1) show ?thesis by blast
qed

section \<open>Batches\<close>

lemma accounted_merge: "accounted a n \<Longrightarrow> accounted b k \<Longrightarrow> accounted (mergeResult a b) (n + k)"
  by (simp add: accounted_def mergeResult_def)

lemma accounted_zero [simp]: "accounted zeroResult 0"
  by (simp add: accounted_def zeroResult_def)

lemma refreshAll_effect:
  assumes "db_ok db" "\<forall>r \<in> set rs. \<not> IsDeleted r \<and> (\<exists>q. QuotaSet r = Inr q)"
  shows "\<exists>results db'. refreshAll env now fb bs rs db = ([], results, db') \<and> db_ok db' \<and>
    db_revision db \<le> db_revision db' \<and> length results = length rs \<and> (\<forall>x \<in> set results. accounted x 1) \<and>
    (\<forall>t. t \<notin> ar_token ` set rs \<longrightarrow> rowOf t db' = rowOf t db)"
  using assms
proof (induction rs arbitrary: db)
  case (Cons r rs)
  then obtain q where q: "QuotaSet r = Inr q" "\<not> IsDeleted r" by auto
  obtain o1 db1 where one: "refreshOne env now r fb bs db = (o1, db1)" by (metis prod.exhaust)
  from refreshOne_effect [of r db env now fb bs q] Cons.prems(1) q one obtain x where x:
    "o1 = Inr x" "accounted x 1" "db_ok db1" "db_revision db \<le> db_revision db1"
    "\<And>t. t \<noteq> ar_token r \<Longrightarrow> rowOf t db1 = rowOf t db"
    by (auto simp: touches_def)
  from Cons.IH [OF x(3)] Cons.prems(2) obtain results db' where rest:
    "refreshAll env now fb bs rs db1 = ([], results, db')" "db_ok db'" "db_revision db1 \<le> db_revision db'"
    "length results = length rs" "\<forall>x \<in> set results. accounted x 1"
    "\<And>t. t \<notin> ar_token ` set rs \<Longrightarrow> rowOf t db' = rowOf t db1" by auto
  have "refreshAll env now fb bs (r # rs) db = ([], x # results, db')" using one x(1) rest(1) by simp
  then show ?case using rest x by auto
qed simp

lemma merge_accounted:
  "\<forall>x \<in> set results. accounted x 1 \<Longrightarrow> accounted agg n \<Longrightarrow>
     accounted (mergeRefreshResults results agg) (n + int (length results))"
proof (induction results arbitrary: agg n)
  case (Cons x results)
  have "accounted (mergeResult x agg) (1 + n)" using Cons.prems by (intro accounted_merge) auto
  from Cons.IH [OF _ this] Cons.prems(1) show ?case by (simp add: mergeRefreshResults_def algebra_simps)
qed (simp add: mergeRefreshResults_def)

lemma batch_effect:
  assumes "db_ok db" "\<forall>r \<in> set rs. \<not> IsDeleted r \<and> (\<exists>q. QuotaSet r = Inr q)" "accounted agg n"
  shows "\<exists>results db'. runRefreshBatch env now rs fb bs db = (Inr results, db') \<and> db_ok db' \<and>
    accounted (mergeRefreshResults results agg) (n + int (length rs)) \<and>
    (\<forall>t. t \<notin> ar_token ` set rs \<longrightarrow> rowOf t db' = rowOf t db)"
  using refreshAll_effect [OF assms(1,2), of env now fb bs] merge_accounted [OF _ assms(3)]
  by (fastforce simp: runRefreshBatch_def)

lemma derive_same: "deriveRefreshStatus r now = DeriveStatus r now"
  by (auto simp: deriveRefreshStatus_def DeriveStatus_def split: goval.splits sum.splits)

lemma refresh_manageable: "isRefreshManageable r now = IsManageable r now"
  by (auto simp: isRefreshManageable_def IsManageable_def derive_same)

text \<open>C22. A scheduled refresh of a database whose quotas can be read ends without an error; its result
  counts every live account of the pool that is active or cooling (in the state machine's sense)
  exactly once, as refreshed, failed or expired, and no other account changes.\<close>

theorem scheduled_accounting:
  assumes "db_ok db" "repoSnapshot now db = Inr sn" "\<forall>r \<in> set (sn_items sn). \<exists>q. QuotaSet r = Inr q"
  shows "\<exists>res db'. RefreshScheduled env now pool db = (Inr res, db') \<and> db_ok db' \<and>
    (let due = filter (\<lambda>r. IsManageable r now \<and> (pool = None \<or> pool = Some (ar_pool r))) (sn_items sn)
     in rr_checked res = int (length due) \<and> rr_refreshed res + rr_failed res + rr_expired res = int (length due) \<and>
        rr_recovered res \<le> rr_refreshed res \<and>
        (\<forall>t. t \<notin> ar_token ` set due \<longrightarrow> rowOf t db' = rowOf t db))"
proof -
  let ?due = "filter (\<lambda>r. IsManageable r now \<and> (pool = None \<or> pool = Some (ar_pool r))) (sn_items sn)"
  have due: "(case pool of None \<Rightarrow> filterRefreshManageable now (sn_items sn)
      | Some p \<Rightarrow> filterRefreshPool p (filterRefreshManageable now (sn_items sn))) = ?due"
    by (auto simp: filterRefreshManageable_def filterRefreshPool_def refresh_manageable conj_commute
        intro!: filter_cong split: option.split)
  have "\<forall>r \<in> set ?due. \<not> IsDeleted r \<and> (\<exists>q. QuotaSet r = Inr q)"
    using assms(3) by (auto simp: IsManageable_def split: if_splits)
  from batch_effect [OF assms(1) this accounted_zero, of env now True False] obtain results db' where
    "runRefreshBatch env now ?due True False db = (Inr results, db')" "db_ok db'"
    "accounted (mergeRefreshResults results zeroResult) (int (length ?due))"
    "\<forall>t. t \<notin> ar_token ` set ?due \<longrightarrow> rowOf t db' = rowOf t db" by auto
  then show ?thesis
    using assms(2) by (simp add: RefreshScheduled_def due accounted_def Let_def)
qed

theorem scheduled_accounting_witness:
  "\<exists>res db'. RefreshScheduled sampleRefresh 9 None sampleDB = (Inr res, db') \<and> rr_checked res = 1"
proof -
  obtain r where r: "toRecord 9 sampleRow = Inr r" "ar_status r = StActive" "\<not> IsDeleted r"
    "QuotaSet r = Inr (DefaultQuotaSet ''basic'')"
    by (rule sample_record)
  have "lr_deletedAt sampleRow = None" by (simp add: sampleRow_def)
  with r(1) have "\<exists>sn. repoSnapshot 9 sampleDB = Inr sn \<and> sn_items sn = [r]"
    by (simp add: repoSnapshot_def sampleDB_rows)
  then obtain sn where sn: "repoSnapshot 9 sampleDB = Inr sn" "sn_items sn = [r]" by blast
  have "\<forall>r \<in> set (sn_items sn). \<exists>q. QuotaSet r = Inr q" using sn(2) r(4) by simp
  moreover have "IsManageable r 9" using r(2,3) by (simp add: IsManageable_def DeriveStatus_def)
  ultimately show ?thesis
    using scheduled_accounting [OF sampleDB_ok sn(1), of sampleRefresh None] sn(2) by (auto simp: Let_def)
qed

section \<open>Lookups in chunks\<close>

lemma chunk_concat: "0 < n \<Longrightarrow> concat (chunk n xs) = xs"
proof (induction n xs rule: chunk.induct)
  case (1 n xs)
  show ?case
  proof (cases "xs = []")
    case False
    then have "chunk n xs = take n xs # chunk n (drop n xs)" using "1.prems" by (simp add: chunk.simps [of n xs])
    then show ?thesis using 1 False by simp
  qed (simp add: chunk.simps)
qed


lemma scanRows_map:
  "\<forall>row \<in> set rows. row_readable row \<Longrightarrow> scanRows now rows = Inr (map (\<lambda>row. projr (toRecord now row)) rows)"
proof (induction rows)
  case (Cons row rows)
  obtain r where "toRecord now row = Inr r" using Cons.prems toRecord_readable by (metis list.set_intros(1))
  with Cons show ?case by simp
qed simp

lemma GetAccounts_map:
  "db_ok db \<Longrightarrow> GetAccounts now tokens db =
     Inr (map (\<lambda>row. projr (toRecord now row)) (filter (\<lambda>r. lr_token r \<in> set tokens) (db_rows db)))"
  by (auto simp: GetAccounts_def db_ok_def scanRows_map)

lemma getChunks_map:
  "db_ok db \<Longrightarrow> getChunks now cs db = Inr (concat (map (\<lambda>c. map (\<lambda>row. projr (toRecord now row))
     (filter (\<lambda>r. lr_token r \<in> set c) (db_rows db))) cs))"
  by (induction cs) (simp_all add: GetAccounts_map)

lemma mset_filter_disjoint:
  "A \<inter> B = {} \<Longrightarrow> mset (filter (\<lambda>r. f r \<in> A \<union> B) rows) = mset (filter (\<lambda>r. f r \<in> A) rows) + mset (filter (\<lambda>r. f r \<in> B) rows)"
  by (induction rows) auto

lemma chunks_mset:
  "distinct (concat cs) \<Longrightarrow> mset (concat (map (\<lambda>c. map g (filter (\<lambda>r. f r \<in> set c) rows)) cs)) =
     mset (map g (filter (\<lambda>r. f r \<in> set (concat cs)) rows))"
proof (induction cs)
  case (Cons c cs)
  then have "set c \<inter> set (concat cs) = {}" by auto
  from mset_filter_disjoint [OF this, of f rows] Cons show ?case by (simp del: set_concat)
qed simp

text \<open>Looking accounts up in chunks, of any configured size, reads the accounts one lookup would read,
  each as often when the tokens are distinct.\<close>

theorem batched_lookup:
  assumes "db_ok db"
  shows "\<exists>rs rs'. getAccountsBatched size1 now tokens db = Inr rs \<and> GetAccounts now tokens db = Inr rs' \<and>
    set rs = set rs' \<and> (distinct tokens \<longrightarrow> mset rs = mset rs')"
proof -
  let ?n = "nat (if size1 \<le> 0 then 500 else size1)"
  let ?rec = "\<lambda>row. projr (toRecord now row)"
  let ?rs = "concat (map (\<lambda>c. map ?rec (filter (\<lambda>r. lr_token r \<in> set c) (db_rows db))) (chunk ?n tokens))"
  let ?rs' = "map ?rec (filter (\<lambda>r. lr_token r \<in> set tokens) (db_rows db))"
  have c: "concat (chunk ?n tokens) = tokens" by (rule chunk_concat) simp
  have "set ?rs = ?rec ` {r \<in> set (db_rows db). lr_token r \<in> set (concat (chunk ?n tokens))}" by auto
  then have "set ?rs = set ?rs'" unfolding c by simp
  moreover have "mset ?rs = mset ?rs'" if "distinct tokens"
    using chunks_mset [of "chunk ?n tokens" ?rec lr_token "db_rows db"] that unfolding c by simp
  ultimately show ?thesis
    using getChunks_map [OF assms, of now "chunk ?n tokens"] GetAccounts_map [OF assms, of now tokens]
    by (auto simp: getAccountsBatched_def Let_def)
qed

theorem batched_lookup_witness:
  "\<exists>rs. getAccountsBatched 1 9 [''x'', ''tok'', ''y''] sampleDB = Inr rs \<and> length rs = 1"
proof -
  from batched_lookup [OF sampleDB_ok, of 1 9 "[''x'', ''tok'', ''y'']"] obtain rs rs' where
    rs: "getAccountsBatched 1 9 [''x'', ''tok'', ''y''] sampleDB = Inr rs"
    "GetAccounts 9 [''x'', ''tok'', ''y''] sampleDB = Inr rs'" "mset rs = mset rs'" by auto
  have "lr_token sampleRow = ''tok''" by (simp add: sampleRow_def)
  then have "length rs' = 1"
    using rs(2) GetAccounts_map [OF sampleDB_ok, of 9 "[''x'', ''tok'', ''y'']"] by (auto simp: sampleDB_rows)
  with rs(1,3) show ?thesis by (metis size_mset)
qed

section \<open>The console window of a scheduled refresh\<close>

lemma optSet_console:
  "lr_quotaConsole (applySets (optSet (SetQuotaConsole \<circ> jsonStore) a) row) =
     (case a of None \<Rightarrow> lr_quotaConsole row | Some v \<Rightarrow> jsonStore v)"
  by (cases a) (simp_all add: optSet_def)

lemma basic_modes: "SupportedModeIDs ''basic'' = [1, 5]"
  by (simp add: SupportedModeIDs_def supportedModesForPool_def supportedModeIDsByPool_def)

text \<open>A scheduled refresh of a basic account asks the upstream for the usage of mode 5 under the name
  of the auto mode, and stores the auto limits it gets as the account's console window, although the
  console quota is counted locally everywhere else.\<close>

theorem console_overwritten:
  assumes "db_ok db" "rowOf token db = Some row" "toRecord now row = Inr r" "ar_pool r = ''basic''" "\<not> IsDeleted r"
    and "QuotaSet r = Inr q" "fetch token ''auto'' = Inr body" "ParseRateLimits body 72000 = Some limits"
    and "\<forall>e. fetch token ''fast'' = Inl e \<longrightarrow> \<not> IsInvalidCredentialsError e"
    and "rf_fetch env = fetch"
  shows "\<exists>res db' row'. refreshOne env now r True False db = (Inr res, db') \<and> rr_refreshed res = 1 \<and>
    rowOf token db' = Some row' \<and> lr_quotaConsole row' = jsonStore (windowToDict (usageWindow limits now))"
proof -
  have tok: "ar_token r = token" "lr_token row = token"
    using assms(1-3) toRecord_token [OF assms(3)] findRow_Some [of token "db_rows db" row]
    by (auto simp: rowOf_def db_ok_def)
  have mode5: "fetchedWindow fetch now token 5 = Some (usageWindow limits now)"
    using assms(7,8) by (simp add: fetchedWindow_def usageModeName_def usageDefaultWindow_def)
  have "fetchModes fetch now token [1, 5] Map.empty =
      Inr (\<lambda>m. if m \<in> set [1, 5] \<and> fetchedWindow fetch now token m \<noteq> None then fetchedWindow fetch now token m else None)"
    using assms(7,9) by (intro fetchModes_windows) (simp add: usageModeName_def)
  moreover define w where "w = (\<lambda>m. if m \<in> set [1, 5 :: int] \<and> fetchedWindow fetch now token m \<noteq> None
      then fetchedWindow fetch now token m else None)"
  ultimately have "fetchModes fetch now token [1, 5] Map.empty = Inr w" by simp
  moreover have w5: "w 5 = Some (usageWindow limits now)" and w0: "w 0 = None" "w 2 = None" "w 3 = None" "w 4 = None"
    using mode5 by (simp_all add: w_def)
  moreover from w5 have "w \<noteq> Map.empty" by auto
  ultimately have all: "fetchAllQuotas fetch now token ''basic'' False = Inr (Some w)"
    by (simp add: fetchAllQuotas_def FetchAllUsageQuotas_def basic_modes del: fetchModes.simps)
  have pool: "InferPoolFromLiveWindows w = None" using w0 by (simp add: InferPoolFromLiveWindows_def)
  have five: "NormalizeQuotaWindow ''basic'' 5 (Some x) = Some x" for x
    by (simp add: NormalizeQuotaWindow_def SupportsMode_def supportedModesForPool_def supportedModeIDsByPool_def)
  define s4 where "s4 = fold (fetchedStep q ''basic'' now w True) [0, 1, 2, 3, 4] (emptyPatch token, False)"
  have fold: "fold (fetchedStep q ''basic'' now w True) allRefreshModeIDs (emptyPatch token, False) =
      (setQuotaPatch 5 (windowToDict (usageWindow limits now)) (fst s4), True)"
    by (simp add: allRefreshModeIDs_def s4_def [simplified] fetchedStep_def [of q "''basic''" now w True 5] w5 five)
  let ?p = "(setQuotaPatch 5 (windowToDict (usageWindow limits now)) (fst s4))\<lparr>pt_lastSyncAt := Some now, pt_syncDelta := Some 1\<rparr>"
  have "set [0, 1, 2, 3, 4] \<subseteq> {0..5 :: int}" by simp
  from fold_fetched [OF this, of "(emptyPatch token, False)" q "''basic''" now w True]
  have p: "pt_token ?p = token" "pt_pool ?p = None" by (simp_all add: s4_def)
  have "rowOf (pt_token ?p) db = Some row" using assms(2) p(1) by simp
  from PatchAccounts_one [OF assms(1) this assms(3)] obtain db' where db':
    "PatchAccounts now [?p] db = (Inr (noMutation\<lparr>mr_patched := 1, mr_revision := db_revision db + 1\<rparr>), db')"
    "rowOf token db' = Some (applySets (buildLocalPatchSets r ?p now (db_revision db + 1)) row)"
    using p(1) by auto
  have "pt_quotaConsole ?p = Some (windowToDict (usageWindow limits now))" by (simp add: setQuotaPatch_def)
  then have console: "lr_quotaConsole (applySets (buildLocalPatchSets r ?p now (db_revision db + 1)) row) =
      jsonStore (windowToDict (usageWindow limits now))"
    by (simp add: patch_columns optSet_console)
  have "hasQuotaPatch (setQuotaPatch 5 (windowToDict (usageWindow limits now)) (fst s4))"
    by (rule setQuotaPatch_has) simp
  then have "refreshOne env now r True False db =
      (Inr (zeroResult\<lparr>rr_checked := 1, rr_refreshed := 1, rr_failed := 0,
         rr_recovered := (if ar_status r = StCooling then 1 else 0)\<rparr>), db')"
    using all pool fold db'(1) assms(4,5,6,10) tok
    by (simp add: refreshOne_def applyFetchedWindows_def patchFetchedResult_def patchOne_def Let_def)
  then show ?thesis using db'(2) console by (simp add: zeroResult_def)
qed

theorem console_overwritten_witness:
  "\<exists>r res db' row'. toRecord 9 sampleRow = Inr r \<and>
     refreshOne (sampleRefresh\<lparr>rf_fetch := (\<lambda>token mode. Inr (fmupd ''remainingQueries'' (GInt 7) fmempty))\<rparr>) 9 r True False sampleDB =
       (Inr res, db') \<and> rowOf ''tok'' db' = Some row' \<and> lr_quotaConsole row' =
       jsonStore (windowToDict \<lparr>qw_remaining = 7, qw_total = 7, qw_windowSeconds = 72000, qw_resetAt = Some 72000009,
         qw_syncedAt = Some 9, qw_source = SrcReal\<rparr>)"
proof -
  let ?body = "fmupd ''remainingQueries'' (GInt 7) fmempty :: gomap"
  let ?fetch = "(\<lambda>token mode. Inr ?body) :: fetcher"
  have limits: "ParseRateLimits ?body 72000 = Some \<lparr>rq_remaining = 7, rq_total = 7, rq_windowSeconds = 72000\<rparr>"
    by (simp add: ParseRateLimits_def usageNumberAsInt_def usageWindowSeconds_def numberAsInt_def)
  obtain r where r: "toRecord 9 sampleRow = Inr r" "ar_pool r = ''basic''" "\<not> IsDeleted r"
    "QuotaSet r = Inr (DefaultQuotaSet ''basic'')"
    by (rule sample_record)
  have "?fetch ''tok'' ''auto'' = Inr ?body" "\<forall>e. ?fetch ''tok'' ''fast'' = Inl e \<longrightarrow> \<not> IsInvalidCredentialsError e"
    "rf_fetch (sampleRefresh\<lparr>rf_fetch := ?fetch\<rparr>) = ?fetch" by simp_all
  from console_overwritten [OF sampleDB_ok sample_rowOf r(1,2,3,4) this(1) limits this(2,3)] show ?thesis
    using r(1) by (auto simp: usageWindow_def)
qed

section \<open>Counting dead credentials\<close>

definition invalidStrikes :: "LocalRow \<Rightarrow> int" where
  "invalidStrikes row = failureCountIn (lr_ext row) ''invalid_credentials''"

lemma invalidStrikes_nonneg: "0 \<le> invalidStrikes row"
  by (auto simp: invalidStrikes_def failureCountIn_def split: option.split goval.split sum.split)

lemma invalidPatch_simps [simp]:
  "pt_token (invalidCredentialsPatch other configured now records token err source) = token"
  "\<not> pt_clearFailures (invalidCredentialsPatch other configured now records token err source)"
  "pt_pool (invalidCredentialsPatch other configured now records token err source) = None"
  "pt_status (invalidCredentialsPatch other configured now records token err source) =
     (if invalidCredentialsFailureThreshold configured \<le> invalidCredentialsFailureCount records + 1
      then Some StExpired else None)"
  "fmlookup (pt_extMerge (invalidCredentialsPatch other configured now records token err source)) ''invalid_credentials'' =
     Some (GMap (fmupd ''failure_count'' (GInt (invalidCredentialsFailureCount records + 1)) (fmupd ''last_fail_at'' (GInt64 now)
        (fmupd ''last_fail_reason'' (GStr ''invalid_credentials'') (fmupd ''last_fail_source'' (GStr source)
        (fmupd ''last_fail_error'' (GStr (errText other err)) fmempty))))))"
  by (simp_all add: invalidCredentialsPatch_def invalidCredentialsExt_def Let_def emptyPatch_def)

lemma fmadd_right: "fmlookup b k = Some v \<Longrightarrow> fmlookup (a ++\<^sub>f b) k = Some v"
  by (auto simp: fmdomI)

lemma patched_counter:
  assumes "fmlookup (pt_extMerge p) key = Some (GMap data)" "mapGet data ''failure_count'' = GInt c"
    and "json_int c" "0 \<le> c" "\<not> pt_clearFailures p"
  shows "failureCountIn (lr_ext (applySets (buildLocalPatchSets r p ts n) row)) key = c"
  unfolding patch_ext
  using assms fmadd_right [OF assms(1), of "ar_ext r"]
  by (simp add: jsonStore_def failureCountIn_def mapGet_fmmap del: fmlookup_add fmmap_add jsonNorm.simps(3))

lemma patched_strikes:
  assumes "json_int (invalidCredentialsFailureCount records + 1)" "0 \<le> invalidCredentialsFailureCount records"
  shows "invalidStrikes (applySets (buildLocalPatchSets r
      (invalidCredentialsPatch other configured now records token err source) ts n) row) =
    invalidCredentialsFailureCount records + 1"
  unfolding invalidStrikes_def using assms by (intro patched_counter [OF invalidPatch_simps(5)]) simp_all

lemma mark_effect:
  assumes "db_ok db" "rowOf token db = Some row" "IsInvalidCredentialsError err" "json_int (invalidStrikes row + 1)"
  shows "\<exists>db' row'. MarkAccountInvalidCredentials other configured now token err source db = (Inr True, db') \<and>
    db_ok db' \<and> rowOf token db' = Some row' \<and> invalidStrikes row' = invalidStrikes row + 1 \<and>
    (lr_deletedAt row' \<noteq> None \<longleftrightarrow> lr_deletedAt row \<noteq> None \<or>
       invalidCredentialsFailureThreshold configured \<le> invalidStrikes row + 1)"
proof -
  have inv: "db_inv db" and "row_readable row"
    using assms(1,2) by (auto simp: db_ok_def rowOf_def dest: findRow_Some)
  then obtain r where r: "toRecord now row = Inr r" "ar_ext r = lr_ext row" by (metis toRecord_readable)
  let ?p = "invalidCredentialsPatch other configured now [r] token err source"
  have count: "invalidCredentialsFailureCount [r] = invalidStrikes row"
    by (simp add: invalidCredentialsFailureCount_def invalidStrikes_def r(2))
  have get: "GetAccounts now [token] db = Inr [r]" using assms(2) r(1) by (simp add: GetAccounts_one [OF inv])
  obtain db1 where db1: "PatchAccounts now [?p] db = (Inr (noMutation\<lparr>mr_patched := 1, mr_revision := db_revision db + 1\<rparr>), db1)"
    "rowOf token db1 = Some (applySets (buildLocalPatchSets r ?p now (db_revision db + 1)) row)"
    using PatchAccounts_one [of db ?p row now r] assms(1,2) r(1) by auto
  let ?row = "applySets (buildLocalPatchSets r ?p now (db_revision db + 1)) row"
  have s: "invalidStrikes ?row = invalidStrikes row + 1"
    using patched_strikes [of "[r]"] assms(4) invalidStrikes_nonneg [of row] by (simp add: count)
  have del: "lr_deletedAt ?row = lr_deletedAt row" by (simp add: patch_deletedAt)
  have one: "patchOne now ?p db = (None, db1)" using db1(1) by (simp add: patchOne_def)
  have ok: "db_ok (snd (MarkAccountInvalidCredentials other configured now token err source db))"
    using mark_touches [of token db] assms(1) by (auto simp: touches_def)
  show ?thesis
  proof (cases "invalidCredentialsFailureThreshold configured \<le> invalidStrikes row + 1")
    case True
    let ?db2 = "snd (DeleteAccounts now [token] db1)"
    have m: "MarkAccountInvalidCredentials other configured now token err source db = (Inr True, ?db2)"
      using assms(3) get one True by (simp add: MarkAccountInvalidCredentials_def count)
    have "rowOf token ?db2 = Some (if lr_deletedAt ?row = None then deleteRow now (db_revision db1 + 1) ?row else ?row)"
      using db1(2) findRow_deletes [of token now "db_revision db1 + 1" "[token]" "db_rows db1"]
      by (simp add: rowOf_def DeleteAccounts_def bumpRevision_def case_prod_unfold Let_def)
    moreover have "invalidStrikes (deleteRow ts n x) = invalidStrikes x" for ts n x
      by (simp add: invalidStrikes_def deleteRow_def)
    ultimately show ?thesis using m ok True s del by auto
  next
    case False
    then have "MarkAccountInvalidCredentials other configured now token err source db = (Inr True, db1)"
      using assms(3) get one by (simp add: MarkAccountInvalidCredentials_def count)
    then show ?thesis using ok False s del db1(2) by auto
  qed
qed

fun recordFailures :: "RefreshEnv \<Rightarrow> int \<Rightarrow> string \<Rightarrow> int \<Rightarrow> goerr list \<Rightarrow> LocalDB \<Rightarrow> LocalDB" where
  "recordFailures env now token modeID [] db = db"
| "recordFailures env now token modeID (e # es) db =
     recordFailures env now token modeID es (RecordFailureAsync env now token modeID (Some e) db)"

lemma record_effect:
  assumes "db_ok db" "rowOf token db = Some row" "IsInvalidCredentialsError e" "json_int (invalidStrikes row + 1)"
  shows "\<exists>db' row'. RecordFailureAsync env now token modeID (Some e) db = db' \<and> db_ok db' \<and> rowOf token db' = Some row' \<and>
    invalidStrikes row' = invalidStrikes row + 1 \<and> (lr_deletedAt row' \<noteq> None \<longleftrightarrow> lr_deletedAt row \<noteq> None \<or>
      invalidCredentialsFailureThreshold (rf_maxFailures env) \<le> invalidStrikes row + 1)"
proof -
  have inv: "db_inv db" and row: "row_readable row" "lr_token row = token"
    using assms(1,2) by (auto simp: db_ok_def rowOf_def dest: findRow_Some)
  then obtain r where r: "toRecord now row = Inr r" "ar_token r = token" by (metis toRecord_readable)
  have get: "GetAccounts now [token] db = Inr [r]" using assms(2) r(1) by (simp add: GetAccounts_one [OF inv])
  from mark_effect [OF assms, of "rf_text env" "rf_maxFailures env" now "''runtime''"] obtain db' row' where
    m: "MarkAccountInvalidCredentials (rf_text env) (rf_maxFailures env) now token e ''runtime'' db = (Inr True, db')"
    and rest: "db_ok db'" "rowOf token db' = Some row'" "invalidStrikes row' = invalidStrikes row + 1"
      "lr_deletedAt row' \<noteq> None \<longleftrightarrow> lr_deletedAt row \<noteq> None \<or>
        invalidCredentialsFailureThreshold (rf_maxFailures env) \<le> invalidStrikes row + 1" by blast
  have "RecordFailureAsync env now token modeID (Some e) db = db'"
    using get m assms(3) r(2)
    by (simp add: RecordFailureAsync_def recordSpecificFailure_def expireInvalidCredentials_def)
  with rest show ?thesis by blast
qed

lemma record_run:
  assumes "db_ok db" "rowOf token db = Some row" "\<forall>e \<in> set es. IsInvalidCredentialsError e"
    and "json_int (invalidStrikes row + int (length es))"
  shows "\<exists>row'. rowOf token (recordFailures env now token modeID es db) = Some row' \<and>
    invalidStrikes row' = invalidStrikes row + int (length es) \<and>
    (lr_deletedAt row' \<noteq> None \<longleftrightarrow> lr_deletedAt row \<noteq> None \<or>
       es \<noteq> [] \<and> invalidCredentialsFailureThreshold (rf_maxFailures env) \<le> invalidStrikes row + int (length es))"
  using assms
proof (induction es arbitrary: db row)
  case (Cons e es)
  have "json_int (invalidStrikes row + 1)"
    using Cons.prems(4) invalidStrikes_nonneg [of row] by (simp add: json_int_def)
  with record_effect [of db token row e env now modeID] Cons.prems obtain db' row' where
    1: "RecordFailureAsync env now token modeID (Some e) db = db'" "db_ok db'" "rowOf token db' = Some row'"
    "invalidStrikes row' = invalidStrikes row + 1" "lr_deletedAt row' \<noteq> None \<longleftrightarrow> lr_deletedAt row \<noteq> None \<or>
      invalidCredentialsFailureThreshold (rf_maxFailures env) \<le> invalidStrikes row + 1" by auto
  from Cons.IH [OF 1(2,3)] Cons.prems(3,4) 1(4) obtain row2 where
    2: "rowOf token (recordFailures env now token modeID es db') = Some row2"
    "invalidStrikes row2 = invalidStrikes row' + int (length es)"
    "lr_deletedAt row2 \<noteq> None \<longleftrightarrow> lr_deletedAt row' \<noteq> None \<or>
       es \<noteq> [] \<and> invalidCredentialsFailureThreshold (rf_maxFailures env) \<le> invalidStrikes row' + int (length es)"
    by (auto simp: algebra_simps)
  then show ?case using 1 by (cases es) (auto simp: algebra_simps)
qed simp

text \<open>C23. Failures with dead credentials are counted in the account's \<open>ext\<close>, one at a time and through
  the JSON the counter is stored in: after a run of them the counter has grown by their number, and the
  account is deleted exactly when the counter has reached the threshold.\<close>

theorem dead_credentials:
  assumes "db_ok db" "rowOf token db = Some row" "lr_deletedAt row = None" "\<forall>e \<in> set es. IsInvalidCredentialsError e"
    and "json_int (invalidStrikes row + int (length es))"
  shows "\<exists>row'. rowOf token (recordFailures env now token modeID es db) = Some row' \<and>
    invalidStrikes row' = invalidStrikes row + int (length es) \<and>
    (lr_deletedAt row' \<noteq> None \<longleftrightarrow>
       es \<noteq> [] \<and> invalidCredentialsFailureThreshold (rf_maxFailures env) \<le> invalidStrikes row + int (length es))"
  using record_run [OF assms(1,2,4,5), of env now modeID] assms(3) by simp

theorem dead_credentials_witness:
  "\<exists>row'. rowOf ''tok'' (recordFailures sampleRefresh 9 ''tok'' 1
       [ErrUpstream 401 ''auth'' ''Session Not Found'', ErrUpstream 403 ''auth'' ''token revoked''] sampleDB) = Some row' \<and>
     lr_deletedAt row' \<noteq> None"
proof -
  let ?es = "[ErrUpstream 401 ''auth'' ''Session Not Found'', ErrUpstream 403 ''auth'' ''token revoked'']"
  have dead: "\<forall>e \<in> set ?es. IsInvalidCredentialsError e"
    by (simp add: IsInvalidCredentialsError_def asUpstream_def IsInvalidCredentialsBody_def containsAny_def
        credentialMarks_def string_eval)
  have count: "invalidStrikes sampleRow = 0"
    by (simp add: invalidStrikes_def failureCountIn_def sampleRow_def insertedRow_def sampleUpsert_def
        upsertNormalize_def jsonStore_def Let_def)
  have "lr_deletedAt sampleRow = None" "json_int (invalidStrikes sampleRow + int (length ?es))"
    by (simp add: sampleRow_def, simp add: count json_int_def)
  from dead_credentials [OF sampleDB_ok sample_rowOf this(1) dead this(2), of sampleRefresh 9 1] show ?thesis
    by (auto simp: count sampleRefresh_def invalidCredentialsFailureThreshold_def)
qed

end
