(* ===== verification/AccountUpkeep.thy ===== *)
theory AccountUpkeep
  imports RefreshProps
begin

text \<open>
  Upkeep of the accounts: the periodic validation of sessions (\<open>app/control/account/sso_validation.go\<close>) and
  the removal of dead accounts (\<open>auto_clean.go\<close>), over the local repository and the Build store. The
  probes, the JWT decoding, the configured limits and the clock are arguments; one clock value serves an
  operation. The workers of a batch validate the accounts of a page one after the other, in any case each
  its own account. Durations are in nanoseconds, timestamps of records in milliseconds.
\<close>

section \<open>Validating one session\<close>

record ValidationEnv =
  sv_claims :: "string \<Rightarrow> int option"
  sv_nowS :: int
  sv_session :: "(string \<Rightarrow> goerr option) option"
  sv_models :: "(string \<Rightarrow> goerr option) option"
  sv_serviceMax :: int
  sv_configMax :: int
  sv_text :: "goerr \<Rightarrow> string"

definition validationMaxFailures :: "ValidationEnv \<Rightarrow> int" where
  "validationMaxFailures env =
    (if sv_serviceMax env > 0 then sv_serviceMax env
     else if sv_configMax env \<le> 0 then 3 else sv_configMax env)"

definition probeSSOSession :: "ValidationEnv \<Rightarrow> string \<Rightarrow> goerr option" where
  "probeSSOSession env token =
    (case sv_session env of
       Some probe \<Rightarrow> probe token
     | None \<Rightarrow> (case sv_models env of
         None \<Rightarrow> Some (ErrOther ''sso session prober is not configured'')
       | Some verify \<Rightarrow> verify token))"

definition probeSSOListModelsFallback :: "ValidationEnv \<Rightarrow> string \<Rightarrow> goerr option" where
  "probeSSOListModelsFallback env token =
    (case sv_models env of
       None \<Rightarrow> Some (ErrOther ''sso list_models fallback is not configured'')
     | Some verify \<Rightarrow> verify token)"

definition ssoFailureStage :: "(goerr \<Rightarrow> string) \<Rightarrow> goerr \<Rightarrow> string" where
  "ssoFailureStage other e =
    (case rootErr e of
       ErrSessionInvalid reason stage \<Rightarrow> if stage \<noteq> '''' then stage else ''session''
     | _ \<Rightarrow>
         let msg = goLower (errText other e)
         in if containsStr msg ''cloudflare'' then ''cloudflare''
            else if containsStr msg ''rate limited'' then ''rate_limited''
            else if containsStr msg ''http block'' then ''http_block''
            else ''session'')"

definition ssoValidationFailureCount :: "AccountRecord \<Rightarrow> int" where
  "ssoValidationFailureCount r = failureCountIn (ar_ext r) ''sso_validation''"

definition validationFailurePatch :: "ValidationEnv \<Rightarrow> int \<Rightarrow> AccountRecord \<Rightarrow> string \<Rightarrow> goerr \<Rightarrow> AccountPatch" where
  "validationFailurePatch env now r stage cause =
    (emptyPatch (ar_token r))\<lparr>pt_lastFailAt := Some now, pt_lastFailReason := Some (''sso_validation_'' @ stage),
      pt_stateReason := Some (''sso_validation_'' @ stage),
      pt_extMerge := fmupd ''sso_validation''
        (GMap (fmupd ''failure_count'' (GInt (ssoValidationFailureCount r + 1)) (fmupd ''last_fail_at'' (GInt64 now)
          (fmupd ''last_fail_stage'' (GStr stage) (fmupd ''last_fail_reason'' (GStr (errText (sv_text env) cause)) fmempty))))) fmempty\<rparr>"

definition recordSSOValidationFailure ::
    "ValidationEnv \<Rightarrow> int \<Rightarrow> AccountRecord \<Rightarrow> string \<Rightarrow> goerr \<Rightarrow> LocalDB \<Rightarrow> (goerr + RefreshResult) \<times> LocalDB" where
  "recordSSOValidationFailure env now r stage cause db =
    (case patchOne now (validationFailurePatch env now r stage cause) db of
       (Some e, db1) \<Rightarrow> (Inl e, db1)
     | (None, db1) \<Rightarrow>
         if \<not> IsTerminalSSOFailure cause \<or> ssoValidationFailureCount r + 1 < validationMaxFailures env
         then (Inr (zeroResult\<lparr>rr_checked := 1, rr_failed := 1\<rparr>), db1)
         else (Inr (zeroResult\<lparr>rr_checked := 1, rr_expired := 1\<rparr>), snd (DeleteAccounts now [ar_token r] db1)))"

definition validationSuccessPatch :: "int \<Rightarrow> AccountRecord \<Rightarrow> AccountPatch" where
  "validationSuccessPatch now r =
    (let p = (emptyPatch (ar_token r))\<lparr>pt_extMerge := fmupd ''sso_validation''
               (GMap (fmupd ''failure_count'' (GInt 0) (fmupd ''last_ok_at'' (GInt64 now) fmempty))) fmempty\<rparr>
     in if (case ar_lastFailReason r of None \<Rightarrow> False | Some s \<Rightarrow> hasPrefix s ''sso_validation_'')
        then p\<lparr>pt_lastFailReason := Some '''', pt_stateReason := Some ''''\<rparr> else p)"

definition recordSSOValidationSuccess :: "int \<Rightarrow> AccountRecord \<Rightarrow> LocalDB \<Rightarrow> goerr option \<times> LocalDB" where
  "recordSSOValidationSuccess now r db = patchOne now (validationSuccessPatch now r) db"

definition validationPassed :: "int \<Rightarrow> AccountRecord \<Rightarrow> LocalDB \<Rightarrow> (goerr + RefreshResult) \<times> LocalDB" where
  "validationPassed now r db =
    (case recordSSOValidationSuccess now r db of
       (Some e, db1) \<Rightarrow> (Inl e, db1)
     | (None, db1) \<Rightarrow> (Inr (zeroResult\<lparr>rr_checked := 1, rr_refreshed := 1\<rparr>), db1))"

definition validateSSOAccount ::
    "ValidationEnv \<Rightarrow> int \<Rightarrow> AccountRecord \<Rightarrow> LocalDB \<Rightarrow> (goerr + RefreshResult) \<times> LocalDB" where
  "validateSSOAccount env now r db =
    (if IsDeleted r then (Inr zeroResult, db)
     else let reason = SSOLocalInvalidReason (sv_claims env) (ar_token r) (sv_nowS env)
          in if reason \<noteq> ''''
             then recordSSOValidationFailure env now r ''local'' (NewSessionInvalidError reason ''local'') db
             else (case probeSSOSession env (ar_token r) of
                     None \<Rightarrow> validationPassed now r db
                   | Some e \<Rightarrow>
                       if IsTerminalSSOFailure e
                       then recordSSOValidationFailure env now r (ssoFailureStage (sv_text env) e) e db
                       else (case probeSSOListModelsFallback env (ar_token r) of
                               Some e' \<Rightarrow> recordSSOValidationFailure env now r ''list_models'' e' db
                             | None \<Rightarrow> validationPassed now r db)))"

section \<open>Validating a page\<close>

record SSOValidationResult =
  vr_checked :: int
  vr_refreshed :: int
  vr_failed :: int
  vr_expired :: int
  vr_nextPage :: int

definition mergeRefreshResult :: "RefreshResult \<Rightarrow> SSOValidationResult \<Rightarrow> SSOValidationResult" where
  "mergeRefreshResult other r =
    r\<lparr>vr_checked := vr_checked r + rr_checked other, vr_refreshed := vr_refreshed r + rr_refreshed other,
      vr_failed := vr_failed r + rr_failed other, vr_expired := vr_expired r + rr_expired other\<rparr>"

text \<open>Every record of the page is validated, also after an error; the first error is the result.\<close>

fun runSSOValidationRecords ::
    "ValidationEnv \<Rightarrow> int \<Rightarrow> AccountRecord list \<Rightarrow> LocalDB \<Rightarrow> (goerr + RefreshResult list) \<times> LocalDB" where
  "runSSOValidationRecords env now [] db = (Inr [], db)"
| "runSSOValidationRecords env now (r # rs) db =
    (case validateSSOAccount env now r db of
       (x, db1) \<Rightarrow> (case runSSOValidationRecords env now rs db1 of
         (y, db2) \<Rightarrow> (bindE x (\<lambda>res. bindE y (\<lambda>rest. Inr (res # rest))), db2)))"

definition validationQuery :: "int \<Rightarrow> int \<Rightarrow> int \<Rightarrow> ListAccountsQuery" where
  "validationQuery batchSize page pageSize =
    queryNormalize (emptyListQuery\<lparr>lq_page := (if page < 1 then 1 else page),
      lq_pageSize := (if pageSize \<le> 0 then batchSize else pageSize), lq_includeDeleted := False,
      lq_sortBy := ''token'', lq_sortDesc := False\<rparr>)"

definition ValidateSSOBatch ::
    "(string \<Rightarrow> string list \<Rightarrow> bool) \<Rightarrow> (string \<Rightarrow> bool \<Rightarrow> LocalRow list \<Rightarrow> LocalRow list) \<Rightarrow> ValidationEnv \<Rightarrow>
     int \<Rightarrow> int \<Rightarrow> int \<Rightarrow> int \<Rightarrow> LocalDB \<Rightarrow> (goerr + SSOValidationResult) \<times> LocalDB" where
  "ValidateSSOBatch like ord env now batchSize page pageSize db =
    (let q = validationQuery batchSize page pageSize
     in case ListAccounts like ord now q db of
          Inl e \<Rightarrow> (Inl e, db)
        | Inr ap \<Rightarrow>
            let nextPage = (if ap_items ap = [] \<or> (ap_totalPages ap > 0 \<and> lq_page q \<ge> ap_totalPages ap)
                            then 1 else lq_page q + 1);
                result = \<lparr>vr_checked = 0, vr_refreshed = 0, vr_failed = 0, vr_expired = 0, vr_nextPage = nextPage\<rparr>;
                records = filterRefreshManageable now (ap_items ap)
            in if records = [] then (Inr result, db)
               else (case runSSOValidationRecords env now records db of
                       (Inl e, db1) \<Rightarrow> (Inl e, db1)
                     | (Inr results, db1) \<Rightarrow> (Inr (fold mergeRefreshResult results result), db1)))"

section \<open>Cleaning\<close>

definition minuteNS :: int where "minuteNS = 60 * 10 ^ 9"
definition hourNS :: int where "hourNS = 60 * minuteNS"

record AutoCleanConfig =
  ac_enabled :: bool
  ac_interval :: int
  ac_minAge :: int
  ac_includeDisabled :: bool
  ac_maxDeletes :: int

text \<open>The product of a duration wraps at 64 bits.\<close>

definition wrap64 :: "int \<Rightarrow> int" where
  "wrap64 n = (n + 2 ^ 63) mod 2 ^ 64 - 2 ^ 63"

definition clampBoth :: "int \<Rightarrow> int \<Rightarrow> int \<Rightarrow> int" where
  "clampBoth low high v = (let v = (if v < low then low else v) in if v > high then high else v)"

definition normalizeAutoCleanConfig :: "AutoCleanConfig \<Rightarrow> AutoCleanConfig" where
  "normalizeAutoCleanConfig c =
    c\<lparr>ac_interval := clampBoth minuteNS (24 * hourNS) (ac_interval c),
      ac_minAge := clampBoth minuteNS (30 * 24 * hourNS) (ac_minAge c),
      ac_maxDeletes := clampBoth 1 500 (ac_maxDeletes c)\<rparr>"

definition loadAutoCleanConfig :: "(string \<Rightarrow> int \<Rightarrow> int) \<Rightarrow> (string \<Rightarrow> bool \<Rightarrow> bool) \<Rightarrow> AutoCleanConfig" where
  "loadAutoCleanConfig getInt getBool =
    normalizeAutoCleanConfig
      \<lparr>ac_enabled = getBool ''account.auto_clean.enabled'' False,
       ac_interval = wrap64 (getInt ''account.auto_clean.interval_sec'' 3600 * 10 ^ 9),
       ac_minAge = wrap64 (getInt ''account.auto_clean.min_age_sec'' 86400 * 10 ^ 9),
       ac_includeDisabled = getBool ''account.auto_clean.include_disabled'' False,
       ac_maxDeletes = getInt ''account.auto_clean.max_deletes_per_tick'' 50\<rparr>"

record AutoCleanResult =
  cr_scanned :: int
  cr_deleted :: int
  cr_skipped :: int

definition noClean :: AutoCleanResult where
  "noClean = \<lparr>cr_scanned = 0, cr_deleted = 0, cr_skipped = 0\<rparr>"

definition expiredMarkedAtUnix :: "AccountRecord \<Rightarrow> int" where
  "expiredMarkedAtUnix r =
    (let raw = (if mapGet (ar_ext r) ''expired_at'' \<noteq> GNil then mapGet (ar_ext r) ''expired_at''
                else if ar_status r = StDisabled then mapGet (ar_ext r) ''disabled_at'' else GNil)
     in case raw of GInt64 v \<Rightarrow> v | GInt v \<Rightarrow> v | GFloat v \<Rightarrow> truncRat v | _ \<Rightarrow> 0)"

definition isAutoCleanCandidate :: "AccountRecord \<Rightarrow> int \<Rightarrow> bool" where
  "isAutoCleanCandidate r cutoff =
    (if ar_status r \<noteq> StExpired \<and> ar_status r \<noteq> StDisabled then False
     else if ar_status r = StCooling then False
     else let markedAt = expiredMarkedAtUnix r
          in if markedAt > 0 then markedAt \<le> cutoff
             else if ar_updatedAt r > 0 then ar_updatedAt r \<le> cutoff
             else (case ar_lastFailAt r of Some marked \<Rightarrow> marked \<le> cutoff | None \<Rightarrow> False))"

text \<open>The scan of a page, which stops when the deletions would reach the limit.\<close>

fun cleanScan :: "int \<Rightarrow> int \<Rightarrow> AccountRecord list \<Rightarrow> AutoCleanResult \<times> string list \<Rightarrow> AutoCleanResult \<times> string list" where
  "cleanScan cutoff limit [] s = s"
| "cleanScan cutoff limit (r # rs) (result, tokens) =
    (let result = result\<lparr>cr_scanned := cr_scanned result + 1\<rparr>
     in if \<not> isAutoCleanCandidate r cutoff
        then cleanScan cutoff limit rs (result\<lparr>cr_skipped := cr_skipped result + 1\<rparr>, tokens)
        else if cr_deleted result + int (length (tokens @ [ar_token r])) \<ge> limit then (result, tokens @ [ar_token r])
        else cleanScan cutoff limit rs (result, tokens @ [ar_token r]))"

definition autoCleanMaxPageSize :: int where "autoCleanMaxPageSize = 100"
definition autoCleanMaxPages :: nat where "autoCleanMaxPages = 20"

definition cleanQuery :: "AccountStatus \<Rightarrow> int \<Rightarrow> ListAccountsQuery" where
  "cleanQuery status page =
    queryNormalize (emptyListQuery\<lparr>lq_page := page, lq_pageSize := autoCleanMaxPageSize, lq_status := Some status,
      lq_sortBy := ''updated_at'', lq_sortDesc := False\<rparr>)"

definition cleanDelete :: "int \<Rightarrow> string list \<Rightarrow> AutoCleanResult \<Rightarrow> LocalDB \<Rightarrow> AutoCleanResult \<times> LocalDB" where
  "cleanDelete now tokens result db =
    (if tokens = [] then (result, db)
     else case DeleteAccounts now tokens db of
       (mutation, db1) \<Rightarrow>
         let deleted = (if mr_deleted mutation > 0 then mr_deleted mutation else int (length tokens))
         in (result\<lparr>cr_deleted := cr_deleted result + deleted\<rparr>, db1))"

text \<open>The pages of one status, \<open>n\<close> of them at most.\<close>

fun cleanPages ::
    "(AccountStatus \<Rightarrow> int \<Rightarrow> LocalDB \<Rightarrow> goerr + AccountPage) \<Rightarrow> int \<Rightarrow> int \<Rightarrow> int \<Rightarrow> AccountStatus \<Rightarrow> nat \<Rightarrow> int \<Rightarrow>
     AutoCleanResult \<Rightarrow> LocalDB \<Rightarrow> goerr option \<times> AutoCleanResult \<times> LocalDB" where
  "cleanPages list1 now cutoff limit status 0 page result db = (None, result, db)"
| "cleanPages list1 now cutoff limit status (Suc n) page result db =
    (if cr_deleted result \<ge> limit then (None, result, db)
     else case list1 status page db of
       Inl e \<Rightarrow> (Some e, result, db)
     | Inr ap \<Rightarrow>
         if ap_items ap = [] then (None, result, db)
         else (case cleanScan cutoff limit (ap_items ap) (result, []) of
           (result1, tokens) \<Rightarrow>
             (case cleanDelete now tokens result1 db of
                (result2, db2) \<Rightarrow>
                  if int (length (ap_items ap)) < autoCleanMaxPageSize then (None, result2, db2)
                  else cleanPages list1 now cutoff limit status n (page + 1) result2 db2)))"

fun cleanStatuses ::
    "(AccountStatus \<Rightarrow> int \<Rightarrow> LocalDB \<Rightarrow> goerr + AccountPage) \<Rightarrow> int \<Rightarrow> int \<Rightarrow> int \<Rightarrow> AccountStatus list \<Rightarrow>
     AutoCleanResult \<Rightarrow> LocalDB \<Rightarrow> goerr option \<times> AutoCleanResult \<times> LocalDB" where
  "cleanStatuses list1 now cutoff limit [] result db = (None, result, db)"
| "cleanStatuses list1 now cutoff limit (status # statuses) result db =
    (if cr_deleted result \<ge> limit then (None, result, db)
     else case cleanPages list1 now cutoff limit status autoCleanMaxPages 1 result db of
       (Some e, result1, db1) \<Rightarrow> (Some e, result1, db1)
     | (None, result1, db1) \<Rightarrow> cleanStatuses list1 now cutoff limit statuses result1 db1)"

definition cleanCutoff :: "int \<Rightarrow> AutoCleanConfig \<Rightarrow> int" where
  "cleanCutoff nowNS cfg = (nowNS - ac_minAge cfg) div 10 ^ 6"

definition cleanStatusList :: "AutoCleanConfig \<Rightarrow> AccountStatus list" where
  "cleanStatusList cfg = [StExpired] @ (if ac_includeDisabled cfg then [StDisabled] else [])"

definition RunExpiredAccountAutoClean ::
    "(string \<Rightarrow> string list \<Rightarrow> bool) \<Rightarrow> (string \<Rightarrow> bool \<Rightarrow> LocalRow list \<Rightarrow> LocalRow list) \<Rightarrow> int \<Rightarrow> AutoCleanConfig \<Rightarrow>
     LocalDB \<Rightarrow> goerr option \<times> AutoCleanResult \<times> LocalDB" where
  "RunExpiredAccountAutoClean like ord nowNS cfg0 db =
    (let cfg = normalizeAutoCleanConfig cfg0; now = nowNS div 10 ^ 6
     in if \<not> ac_enabled cfg then (None, noClean, db)
        else cleanStatuses (\<lambda>status page. ListAccounts like ord now (cleanQuery status page)) now
               (cleanCutoff nowNS cfg) (ac_maxDeletes cfg) (cleanStatusList cfg) noClean db)"

section \<open>Cleaning the Build pool\<close>

text \<open>An entry as the store lists it; no time stands for the zero \<open>time.Time\<close>. Deleting is a function on
  the state of the store.\<close>

record BuildAutoCleanAccount =
  ba_id :: int
  ba_status :: string
  ba_updatedAt :: "int option"

definition buildCleanCandidate :: "AutoCleanConfig \<Rightarrow> int \<Rightarrow> BuildAutoCleanAccount \<Rightarrow> bool" where
  "buildCleanCandidate cfg cutoff a \<longleftrightarrow>
    (ba_status a = ''expired'' \<or> (ac_includeDisabled cfg \<and> ba_status a = ''disabled'')) \<and>
    (case ba_updatedAt a of None \<Rightarrow> False | Some marked \<Rightarrow> marked \<le> cutoff)"

fun buildClean ::
    "(int \<Rightarrow> 's \<Rightarrow> goerr option \<times> 's) \<Rightarrow> AutoCleanConfig \<Rightarrow> int \<Rightarrow> BuildAutoCleanAccount list \<Rightarrow>
     AutoCleanResult \<Rightarrow> 's \<Rightarrow> goerr option \<times> AutoCleanResult \<times> 's" where
  "buildClean delete1 cfg cutoff [] result s = (None, result, s)"
| "buildClean delete1 cfg cutoff (a # rest) result s =
    (let result = result\<lparr>cr_scanned := cr_scanned result + 1\<rparr>
     in if \<not> buildCleanCandidate cfg cutoff a
        then buildClean delete1 cfg cutoff rest (result\<lparr>cr_skipped := cr_skipped result + 1\<rparr>) s
        else if cr_deleted result \<ge> ac_maxDeletes cfg then (None, result, s)
        else (case delete1 (ba_id a) s of
                (Some e, s1) \<Rightarrow> (Some e, result, s1)
              | (None, s1) \<Rightarrow> buildClean delete1 cfg cutoff rest (result\<lparr>cr_deleted := cr_deleted result + 1\<rparr>) s1))"

definition RunBuildExpiredAccountAutoClean ::
    "('s \<Rightarrow> goerr + BuildAutoCleanAccount list) \<Rightarrow> (int \<Rightarrow> 's \<Rightarrow> goerr option \<times> 's) \<Rightarrow> int \<Rightarrow> AutoCleanConfig \<Rightarrow> 's \<Rightarrow>
     goerr option \<times> AutoCleanResult \<times> 's" where
  "RunBuildExpiredAccountAutoClean list1 delete1 nowNS cfg0 s =
    (let cfg = normalizeAutoCleanConfig cfg0
     in if \<not> ac_enabled cfg then (None, noClean, s)
        else case list1 s of
          Inl e \<Rightarrow> (Some e, noClean, s)
        | Inr accounts \<Rightarrow> buildClean delete1 cfg (nowNS - ac_minAge cfg) accounts noClean s)"

end
