(* ===== verification/UpkeepProps.thy ===== *)
theory UpkeepProps
  imports AccountUpkeep
begin

text \<open>
  What the upkeep of the accounts guarantees: the cleaner deletes only accounts that are dead for long
  enough, never more than its limit, and counts them; the validation of a session deletes an account only
  for a terminal failure that has come often enough in a row.
\<close>

section \<open>Deleting live accounts\<close>

lemma updateWhere_same: "(\<And>r. r \<in> set rows \<Longrightarrow> \<not> P r) \<Longrightarrow> updateWhere P f rows = rows"
  by (auto simp: updateWhere_def intro: map_idI)

lemma delete_count:
  assumes "distinct (map lr_token rows)" "distinct tokens"
    and "\<And>t. t \<in> set tokens \<Longrightarrow> \<exists>row. findRow t rows = Some row \<and> lr_deletedAt row = None"
  shows "fst (deleteLocalAccounts ts n tokens rows) = int (length tokens)"
  using assms
proof (induction tokens arbitrary: rows)
  case (Cons t tokens)
  let ?hit = "\<lambda>r. lr_token r = t \<and> lr_deletedAt r = None"
  obtain row where row: "findRow t rows = Some row" "lr_deletedAt row = None" using Cons.prems(3) by auto
  have "filter ?hit rows = filter (\<lambda>r. lr_deletedAt r = None) (filter (\<lambda>r. lr_token r = t) rows)"
    by (simp add: conj_commute)
  also have "\<dots> = [row]" using filter_findRow [OF Cons.prems(1), of t] row by simp
  finally have hits: "length (filter ?hit rows) = 1" by simp
  have "fst (deleteLocalAccounts ts n tokens (updateWhere ?hit (deleteRow ts n) rows)) = int (length tokens)"
  proof (rule Cons.IH)
    have "map lr_token (updateWhere ?hit (deleteRow ts n) rows) = map lr_token rows"
      by (simp add: updateWhere_def deleteRow_def)
    then show "distinct (map lr_token (updateWhere ?hit (deleteRow ts n) rows))" using Cons.prems(1) by simp
    show "distinct tokens" using Cons.prems(2) by simp
    fix u assume u: "u \<in> set tokens"
    then obtain row where r: "findRow u rows = Some row" "lr_deletedAt row = None" using Cons.prems(3) by auto
    moreover have "lr_token row \<noteq> t" using u Cons.prems(2) r(1) by (auto dest: findRow_Some)
    ultimately show "\<exists>row. findRow u (updateWhere ?hit (deleteRow ts n) rows) = Some row \<and> lr_deletedAt row = None"
      by (simp add: findRow_updateWhere deleteRow_def)
  qed
  then show ?case by (simp add: Let_def case_prod_unfold hits)
qed simp

section \<open>The cleaner\<close>

text \<open>What a stretch of the cleaner did: \<open>n\<close> live accounts that fit the criteria are deleted, and nothing
  else has changed.\<close>

definition cleanable :: "int \<Rightarrow> int \<Rightarrow> AccountStatus set \<Rightarrow> string \<Rightarrow> LocalDB \<Rightarrow> bool" where
  "cleanable now limit statuses t db \<longleftrightarrow>
    (\<exists>row r. rowOf t db = Some row \<and> lr_deletedAt row = None \<and> toRecord now row = Inr r \<and>
       isAutoCleanCandidate r limit \<and> ar_status r \<in> statuses)"

definition cleaned :: "int \<Rightarrow> int \<Rightarrow> AccountStatus set \<Rightarrow> LocalDB \<Rightarrow> LocalDB \<Rightarrow> int \<Rightarrow> bool" where
  "cleaned now limit statuses db db' n \<longleftrightarrow> db_ok db' \<and> liveTokens db' \<subseteq> liveTokens db \<and>
     n = int (card (liveTokens db - liveTokens db')) \<and>
     (\<forall>t. t \<notin> liveTokens db - liveTokens db' \<longrightarrow> rowOf t db' = rowOf t db) \<and>
     (\<forall>t \<in> liveTokens db - liveTokens db'. cleanable now limit statuses t db)"

lemma cleaned_refl: "db_ok db \<Longrightarrow> cleaned now limit statuses db db 0"
  by (simp add: cleaned_def)

lemma cleaned_ok: "cleaned now limit statuses db db' n \<Longrightarrow> db_ok db'"
  by (simp add: cleaned_def)

lemma cleaned_nonneg: "cleaned now limit statuses db db' n \<Longrightarrow> 0 \<le> n"
  by (simp add: cleaned_def)

lemma cleaned_mono:
  "cleaned now limit statuses db db' n \<Longrightarrow> statuses \<subseteq> statuses' \<Longrightarrow> cleaned now limit statuses' db db' n"
  by (fastforce simp: cleaned_def cleanable_def)

lemma cleaned_trans:
  assumes "cleaned now limit statuses a b n" "cleaned now limit statuses b c k"
  shows "cleaned now limit statuses a c (n + k)"
proof -
  have sub: "liveTokens b \<subseteq> liveTokens a" "liveTokens c \<subseteq> liveTokens b"
    using assms by (simp_all add: cleaned_def)
  then have parts: "liveTokens a - liveTokens c = (liveTokens a - liveTokens b) \<union> (liveTokens b - liveTokens c)"
    by blast
  moreover have "card ((liveTokens a - liveTokens b) \<union> (liveTokens b - liveTokens c)) =
      card (liveTokens a - liveTokens b) + card (liveTokens b - liveTokens c)"
    by (rule card_Un_disjoint) auto
  moreover have "rowOf t b = rowOf t a" if "t \<in> liveTokens b" for t
    using that assms(1) by (simp add: cleaned_def)
  then have "cleanable now limit statuses t a" if "t \<in> liveTokens b - liveTokens c" for t
    using that assms(2) by (simp add: cleaned_def cleanable_def)
  ultimately show ?thesis using assms sub by (auto simp: cleaned_def)
qed

lemma cleaned_delete:
  assumes "db_ok db" "distinct tokens" "\<And>t. t \<in> set tokens \<Longrightarrow> cleanable now limit statuses t db"
  shows "cleaned now limit statuses db (snd (DeleteAccounts now tokens db)) (int (length tokens))"
proof -
  have live: "set tokens \<subseteq> liveTokens db"
    using assms(3) live_iff [OF assms(1)] by (fastforce simp: cleanable_def)
  then have diff: "liveTokens db - liveTokens (snd (DeleteAccounts now tokens db)) = set tokens"
    unfolding live_delete [OF assms(1)] by blast
  have keep: "rowOf t (snd (DeleteAccounts now tokens db)) = rowOf t db" if "t \<notin> set tokens" for t
    using that by (simp add: rowOf_delete split: option.split)
  show ?thesis
    unfolding cleaned_def diff
    using db_ok_delete [OF assms(1)] live_delete [OF assms(1), of now tokens] keep assms(3)
      distinct_card [OF assms(2)] by auto
qed

lemma delete_reports:
  assumes "db_ok db" "distinct tokens" "tokens \<noteq> []" "\<And>t. t \<in> set tokens \<Longrightarrow> cleanable now limit statuses t db"
  shows "mr_deleted (fst (DeleteAccounts now tokens db)) = int (length tokens)"
  unfolding DeleteAccounts_parts(3) [OF assms(3)]
proof (rule delete_count)
  show "distinct (map lr_token (db_rows db))" using assms(1) by (simp add: db_ok_def db_inv_def)
  show "\<exists>row. findRow t (db_rows db) = Some row \<and> lr_deletedAt row = None" if "t \<in> set tokens" for t
    using assms(4) [OF that] unfolding cleanable_def rowOf_def by blast
qed (rule assms(2))

text \<open>A page lists live rows of the status it asks for, each once.\<close>

lemma queryNormalize_frame:
  "lq_status (queryNormalize q) = lq_status q" "lq_includeDeleted (queryNormalize q) = lq_includeDeleted q"
  by (auto simp: queryNormalize_def Let_def)

lemma cleanQuery_normal:
  "lq_status (normalizeLocalListQuery (cleanQuery status page)) = Some status"
  "lq_includeDeleted (normalizeLocalListQuery (cleanQuery status page)) = False"
proof -
  have "lq_pageSize (cleanQuery status page) \<noteq> 0"
    using queryNormalize_bounds(2) [of "emptyListQuery\<lparr>lq_page := page, lq_pageSize := autoCleanMaxPageSize,
      lq_status := Some status, lq_sortBy := ''updated_at'', lq_sortDesc := False\<rparr>"]
    unfolding cleanQuery_def by linarith
  then have "normalizeLocalListQuery (cleanQuery status page) = queryNormalize (cleanQuery status page)"
    by (simp add: normalizeLocalListQuery_def isZeroLocalListQuery_def)
  then show "lq_status (normalizeLocalListQuery (cleanQuery status page)) = Some status"
    "lq_includeDeleted (normalizeLocalListQuery (cleanQuery status page)) = False"
    by (simp_all add: queryNormalize_frame cleanQuery_def emptyListQuery_def)
qed

lemma record_status:
  assumes "toRecord now row = Inr r" "lr_status row = statusString s"
  shows "ar_status r = s"
proof -
  have "normalizeRecordStatus (statusString s) = Inr s"
    by (cases s) (simp_all add: normalizeRecordStatus_def ParseAccountStatus_def)
  with assms show ?thesis by (auto simp: toRecord_def NewAccountRecord_def)
qed

lemma page_rows:
  fixes ord :: "string \<Rightarrow> bool \<Rightarrow> LocalRow list \<Rightarrow> LocalRow list"
  assumes "db_ok db" "\<And>k d rows. mset (ord k d rows) = mset rows"
  shows "\<exists>ap. ListAccounts like ord now (cleanQuery status page) db = Inr ap \<and> distinct (map ar_token (ap_items ap)) \<and>
    (\<forall>r \<in> set (ap_items ap). ar_status r = status \<and>
       (\<exists>row. rowOf (ar_token r) db = Some row \<and> lr_deletedAt row = None \<and> toRecord now row = Inr r))"
proof -
  let ?q = "normalizeLocalListQuery (cleanQuery status page)"
  let ?hits = "filter (localListWhere like ?q) (db_rows db)"
  let ?window = "take (nat (lq_pageSize ?q)) (drop (nat ((lq_page ?q - 1) * lq_pageSize ?q))
     (ord (safeLocalSort (lq_sortBy ?q)) (lq_sortDesc ?q) ?hits))"
  have hits: "set (ord k d ?hits) = set ?hits" for k d
    by (metis assms(2) set_mset_mset)
  have win: "set ?window \<subseteq> set ?hits"
    using set_take_subset set_drop_subset hits by fastforce
  have readable: "\<forall>row \<in> set ?window. row_readable row" using win assms(1) by (auto simp: db_ok_def)
  then obtain rs where rs: "scanRows now ?window = Inr rs" using scanRows_total by blast
  have toks: "map ar_token rs = map lr_token ?window"
    using rs readable unfolding scanRows_list_all2
    by (induction rule: list_all2_induct) (auto dest: toRecord_token)
  have "distinct (map lr_token ?hits)" using assms(1) by (simp add: db_ok_def db_inv_def distinct_map_filter)
  then have "distinct (map lr_token (ord k d ?hits))" for k d
    by (metis assms(2) mset_eq_imp_distinct_iff mset_map)
  then have "distinct (map ar_token rs)" by (simp add: toks take_map [symmetric] drop_map [symmetric])
  moreover have "ar_status r = status \<and>
      (\<exists>row. rowOf (ar_token r) db = Some row \<and> lr_deletedAt row = None \<and> toRecord now row = Inr r)"
    if "r \<in> set rs" for r
  proof -
    obtain row where row: "row \<in> set ?window" "toRecord now row = Inr r"
      using \<open>r \<in> set rs\<close> unfolding scanRows_set [OF rs] by blast
    then have hit: "row \<in> set ?hits" using win by blast
    moreover have "rowOf (ar_token r) db = Some row"
      using hit toRecord_token [OF row(2)] readable row(1) assms(1) rows_iff_find [of "db_rows db" row]
      by (simp add: rowOf_def db_ok_def db_inv_def)
    ultimately show ?thesis
      using row(2) record_status [OF row(2)] by (auto simp: localListWhere_def cleanQuery_normal)
  qed
  ultimately show ?thesis by (simp add: ListAccounts_def listLocalAccounts_def rs Let_def)
qed

text \<open>The scan picks the candidates of a prefix of the page and stays within the limit.\<close>

definition scan_ok :: "int \<Rightarrow> int \<Rightarrow> AccountRecord list \<Rightarrow> int \<Rightarrow> string list \<Rightarrow> AutoCleanResult \<times> string list \<Rightarrow> bool" where
  "scan_ok limit most rs d acc out \<longleftrightarrow>
    (\<exists>k. snd out = acc @ map ar_token (filter (\<lambda>r. isAutoCleanCandidate r limit) (take k rs)) \<and>
      cr_deleted (fst out) = d \<and> d + int (length (snd out)) \<le> most \<and>
      (length rs \<le> k \<or> d + int (length (snd out)) = most))"

lemma scan_ok_skip:
  "\<not> isAutoCleanCandidate r limit \<Longrightarrow> scan_ok limit most rs d acc out \<Longrightarrow> scan_ok limit most (r # rs) d acc out"
  unfolding scan_ok_def by (metis filter.simps(2) length_Cons Suc_le_mono take_Suc_Cons)

lemma scan_ok_pick:
  assumes "isAutoCleanCandidate r limit" "scan_ok limit most rs d (acc @ [ar_token r]) out"
  shows "scan_ok limit most (r # rs) d acc out"
proof -
  obtain k where "snd out = (acc @ [ar_token r]) @ map ar_token (filter (\<lambda>r. isAutoCleanCandidate r limit) (take k rs))"
    "cr_deleted (fst out) = d" "d + int (length (snd out)) \<le> most"
    "length rs \<le> k \<or> d + int (length (snd out)) = most"
    using assms(2) unfolding scan_ok_def by blast
  then show ?thesis
    using assms(1) unfolding scan_ok_def by (intro exI [of _ "Suc k"]) simp
qed

lemma scan_ok_stop:
  "isAutoCleanCandidate r limit \<Longrightarrow> cr_deleted result = d \<Longrightarrow> d + int (length (acc @ [ar_token r])) = most \<Longrightarrow>
     scan_ok limit most (r # rs) d acc (result, acc @ [ar_token r])"
  unfolding scan_ok_def by (intro exI [of _ 1]) simp

lemma cleanScan_picks:
  "cr_deleted result + int (length acc) < most \<Longrightarrow>
     scan_ok limit most rs (cr_deleted result) acc (cleanScan limit most rs (result, acc))"
proof (induction rs arbitrary: result acc)
  case Nil
  then show ?case by (simp add: scan_ok_def)
next
  case (Cons r rs)
  let ?result = "result\<lparr>cr_scanned := cr_scanned result + 1\<rparr>"
  consider "\<not> isAutoCleanCandidate r limit"
    | "isAutoCleanCandidate r limit" "cr_deleted result + int (length (acc @ [ar_token r])) \<ge> most"
    | "isAutoCleanCandidate r limit" "cr_deleted result + int (length (acc @ [ar_token r])) < most" by linarith
  then show ?case
  proof cases
    case 1
    with Cons.IH [of "?result\<lparr>cr_skipped := cr_skipped ?result + 1\<rparr>" acc] Cons.prems scan_ok_skip
    show ?thesis by (simp add: Let_def)
  next
    case 2
    with Cons.prems show ?thesis by (simp add: Let_def scan_ok_stop [simplified])
  next
    case 3
    with Cons.IH [of ?result "acc @ [ar_token r]"] scan_ok_pick show ?thesis by (simp add: Let_def)
  qed
qed

lemma cleanPage_effect:
  fixes ord :: "string \<Rightarrow> bool \<Rightarrow> LocalRow list \<Rightarrow> LocalRow list"
  assumes "db_ok db" "\<And>k d rows. mset (ord k d rows) = mset rows" "cr_deleted result < most"
    and "ListAccounts like ord now (cleanQuery status page) db = Inr ap"
    and "cleanScan limit most (ap_items ap) (result, []) = (result1, tokens)"
    and "cleanDelete now tokens result1 db = (result2, db2)"
  shows "cr_deleted result2 \<le> most \<and> cleaned now limit {status} db db2 (cr_deleted result2 - cr_deleted result) \<and>
    cr_deleted result2 = cr_deleted result + int (length tokens) \<and> liveTokens db2 = liveTokens db - set tokens"
proof -
  obtain k where k: "tokens = map ar_token (filter (\<lambda>r. isAutoCleanCandidate r limit) (take k (ap_items ap)))"
    "cr_deleted result1 = cr_deleted result" "cr_deleted result + int (length tokens) \<le> most"
    using cleanScan_picks [of result "[]" most limit "ap_items ap"] assms(3,5)
    unfolding scan_ok_def by (simp only: fst_conv snd_conv append_Nil list.size of_nat_0 add_0_right) blast
  have page: "distinct (map ar_token (ap_items ap))" "\<And>r. r \<in> set (ap_items ap) \<Longrightarrow> ar_status r = status \<and>
       (\<exists>row. rowOf (ar_token r) db = Some row \<and> lr_deletedAt row = None \<and> toRecord now row = Inr r)"
    using page_rows [where ord = ord and like = like, OF assms(1,2), of now status page] assms(4) by auto
  have fit: "cleanable now limit {status} t db" if "t \<in> set tokens" for t
  proof -
    from that k(1) obtain r where "r \<in> set (ap_items ap)" "t = ar_token r" "isAutoCleanCandidate r limit"
      by (auto dest: in_set_takeD)
    with page(2) show ?thesis unfolding cleanable_def by blast
  qed
  have "distinct tokens"
    unfolding k(1) using page(1) by (intro distinct_map_filter) (simp add: take_map [symmetric])
  note del = cleaned_delete [OF assms(1) this fit] delete_reports [OF assms(1) this _ fit]
  show ?thesis
  proof (cases "tokens = []")
    case True
    then show ?thesis using assms(3,6) k(2) cleaned_refl [OF assms(1)] by (simp add: cleanDelete_def)
  next
    case False
    then show ?thesis using assms(6) k del live_delete [OF assms(1)] by (auto simp: cleanDelete_def case_prod_unfold Let_def)
  qed
qed

lemma cleanPages_effect:
  fixes ord :: "string \<Rightarrow> bool \<Rightarrow> LocalRow list \<Rightarrow> LocalRow list"
  assumes "db_ok db" "\<And>k d rows. mset (ord k d rows) = mset rows" "cr_deleted result \<le> most"
    and "cleanPages (\<lambda>status page. ListAccounts like ord now (cleanQuery status page)) now limit most status n page result db =
      (err, result', db')"
  shows "err = None \<and> cr_deleted result' \<le> most \<and>
    cleaned now limit {status} db db' (cr_deleted result' - cr_deleted result)"
  using assms(1,3,4)
proof (induction n arbitrary: page result db)
  case (Suc n)
  show ?case
  proof (cases "cr_deleted result < most")
    case True
    obtain ap where ap: "ListAccounts like ord now (cleanQuery status page) db = Inr ap"
      using page_rows [where ord = ord, OF Suc.prems(1) assms(2)] by blast
    obtain result1 tokens where scan: "cleanScan limit most (ap_items ap) (result, []) = (result1, tokens)" by fastforce
    obtain result2 db2 where del: "cleanDelete now tokens result1 db = (result2, db2)" by fastforce
    have step: "cr_deleted result2 \<le> most" "cleaned now limit {status} db db2 (cr_deleted result2 - cr_deleted result)"
      using cleanPage_effect [where ord = ord, OF Suc.prems(1) assms(2) True ap scan del] by auto
    consider "ap_items ap = []" | "ap_items ap \<noteq> []" "int (length (ap_items ap)) < autoCleanMaxPageSize"
      | "ap_items ap \<noteq> []" "\<not> int (length (ap_items ap)) < autoCleanMaxPageSize" by blast
    then show ?thesis
    proof cases
      case 1
      then show ?thesis using Suc.prems ap True by (simp add: cleaned_refl)
    next
      case 2
      then show ?thesis using Suc.prems(3) ap scan del True step by simp
    next
      case 3
      then have "cleanPages (\<lambda>status page. ListAccounts like ord now (cleanQuery status page)) now limit most status n
          (page + 1) result2 db2 = (err, result', db')"
        using Suc.prems(3) ap scan del True by simp
      from Suc.IH [OF cleaned_ok [OF step(2)] step(1) this]
      show ?thesis using cleaned_trans [OF step(2)] by fastforce
    qed
  next
    case False
    then show ?thesis using Suc.prems by (simp add: cleaned_refl)
  qed
qed (simp add: cleaned_refl)

lemma cleanStatuses_effect:
  fixes ord :: "string \<Rightarrow> bool \<Rightarrow> LocalRow list \<Rightarrow> LocalRow list"
  assumes "db_ok db" "\<And>k d rows. mset (ord k d rows) = mset rows" "cr_deleted result \<le> most"
    and "cleanStatuses (\<lambda>status page. ListAccounts like ord now (cleanQuery status page)) now limit most statuses result db =
      (err, result', db')"
  shows "err = None \<and> cr_deleted result' \<le> most \<and>
    cleaned now limit (set statuses) db db' (cr_deleted result' - cr_deleted result)"
  using assms(1,3,4)
proof (induction statuses arbitrary: result db)
  case (Cons status statuses)
  show ?case
  proof (cases "cr_deleted result < most")
    case True
    obtain e result1 db1 where one: "cleanPages (\<lambda>status page. ListAccounts like ord now (cleanQuery status page))
        now limit most status autoCleanMaxPages 1 result db = (e, result1, db1)" by (metis prod_cases3)
    have step: "e = None" "cr_deleted result1 \<le> most" "cleaned now limit {status} db db1 (cr_deleted result1 - cr_deleted result)"
      using cleanPages_effect [where ord = ord, OF Cons.prems(1) assms(2) Cons.prems(2) one] by auto
    have "cleanStatuses (\<lambda>status page. ListAccounts like ord now (cleanQuery status page)) now limit most statuses result1 db1 =
        (err, result', db')"
      using Cons.prems(3) True one step(1) by simp
    from Cons.IH [OF cleaned_ok [OF step(3)] step(2) this] show ?thesis
      using cleaned_trans [OF cleaned_mono [OF step(3), of "set (status # statuses)"]
          cleaned_mono [of now limit "set statuses" db1 db' _ "set (status # statuses)"]] by fastforce
  next
    case False
    then show ?thesis using Cons.prems by (simp add: cleaned_refl)
  qed
qed (simp add: cleaned_refl)

lemma cleaner_effect:
  fixes ord :: "string \<Rightarrow> bool \<Rightarrow> LocalRow list \<Rightarrow> LocalRow list"
  assumes "db_ok db" "\<And>k d rows. mset (ord k d rows) = mset rows"
  shows "\<exists>res db'. RunExpiredAccountAutoClean like ord nowNS cfg db = (None, res, db') \<and>
    cr_deleted res \<le> max 1 (min 500 (ac_maxDeletes cfg)) \<and>
    cleaned (nowNS div 10 ^ 6) (cleanCutoff nowNS (normalizeAutoCleanConfig cfg))
      ({StExpired} \<union> (if ac_includeDisabled cfg then {StDisabled} else {})) db db' (cr_deleted res)"
proof (cases "ac_enabled cfg")
  case True
  let ?cfg = "normalizeAutoCleanConfig cfg"
  have cfg: "ac_maxDeletes ?cfg = max 1 (min 500 (ac_maxDeletes cfg))" "ac_enabled ?cfg"
    "set (cleanStatusList ?cfg) = {StExpired} \<union> (if ac_includeDisabled cfg then {StDisabled} else {})"
    using True by (auto simp: normalizeAutoCleanConfig_def clampBoth_def Let_def cleanStatusList_def)
  obtain err res db' where run: "cleanStatuses (\<lambda>status page. ListAccounts like ord (nowNS div 10 ^ 6) (cleanQuery status page))
      (nowNS div 10 ^ 6) (cleanCutoff nowNS ?cfg) (ac_maxDeletes ?cfg) (cleanStatusList ?cfg) noClean db = (err, res, db')"
    by (metis prod_cases3)
  have "cr_deleted noClean \<le> ac_maxDeletes ?cfg" by (simp add: noClean_def cfg(1))
  from cleanStatuses_effect [where ord = ord, OF assms this run] show ?thesis
    using run cfg by (simp add: RunExpiredAccountAutoClean_def noClean_def Let_def)
next
  case False
  then show ?thesis
    using cleaned_refl [OF assms(1)]
    by (simp add: RunExpiredAccountAutoClean_def normalizeAutoCleanConfig_def noClean_def Let_def)
qed

text \<open>Since when an account is dead, said without the code's helper: by the mark kept with it, a positive number under
  \<open>expired_at\<close> or, for a disabled account without that, under \<open>disabled_at\<close>; otherwise since its last update, and since
  its last failure if it was never updated.\<close>

definition numberIs :: "goval \<Rightarrow> int \<Rightarrow> bool" where
  "numberIs v m \<longleftrightarrow> v = GInt m \<or> v = GInt64 m \<or> (\<exists>q. v = GFloat q \<and> m = truncRat q)"

definition marked :: "AccountRecord \<Rightarrow> int \<Rightarrow> bool" where
  "marked r m \<longleftrightarrow> numberIs (mapGet (ar_ext r) ''expired_at'') m \<or>
     ar_status r = StDisabled \<and> mapGet (ar_ext r) ''expired_at'' = GNil \<and> numberIs (mapGet (ar_ext r) ''disabled_at'') m"

definition deadSince :: "AccountRecord \<Rightarrow> int \<Rightarrow> bool" where
  "deadSince r m \<longleftrightarrow> 0 < m \<and> marked r m \<or>
     (\<forall>k > 0. \<not> marked r k) \<and> (if 0 < ar_updatedAt r then m = ar_updatedAt r else ar_lastFailAt r = Some m)"

lemma number_iff:
  "0 < m \<Longrightarrow> numberIs v m \<longleftrightarrow> (case v of GInt64 v \<Rightarrow> v | GInt v \<Rightarrow> v | GFloat v \<Rightarrow> truncRat v | _ \<Rightarrow> 0) = m"
  by (cases v) (auto simp: numberIs_def)

lemma number_nil: "\<not> numberIs GNil m"
  by (simp add: numberIs_def)

lemma marked_iff: "0 < m \<Longrightarrow> marked r m \<longleftrightarrow> expiredMarkedAtUnix r = m"
  by (cases "mapGet (ar_ext r) ''expired_at'' = GNil"; cases "ar_status r = StDisabled")
    (simp_all add: marked_def expiredMarkedAtUnix_def number_nil number_iff)

lemma candidate_since:
  "isAutoCleanCandidate r cutoff \<Longrightarrow> ar_status r \<in> {StExpired, StDisabled} \<and> (\<exists>m. deadSince r m \<and> m \<le> cutoff)"
proof -
  let ?m = "expiredMarkedAtUnix r"
  assume c: "isAutoCleanCandidate r cutoff"
  then have s: "ar_status r \<in> {StExpired, StDisabled}" by (auto simp: isAutoCleanCandidate_def split: if_splits)
  have "\<exists>m. deadSince r m \<and> m \<le> cutoff"
  proof (cases "0 < ?m")
    case True
    then have "deadSince r ?m" by (simp add: deadSince_def marked_iff)
    moreover have "?m \<le> cutoff" using c True by (simp add: isAutoCleanCandidate_def Let_def split: if_splits)
    ultimately show ?thesis by blast
  next
    case False
    then have none: "\<forall>k > 0. \<not> marked r k" using marked_iff by simp
    show ?thesis
    proof (cases "0 < ar_updatedAt r")
      case True
      then have "ar_updatedAt r \<le> cutoff"
        using c False by (simp add: isAutoCleanCandidate_def Let_def split: if_splits)
      then show ?thesis using none True unfolding deadSince_def by auto
    next
      case old: False
      then obtain m where "ar_lastFailAt r = Some m" "m \<le> cutoff"
        using c False by (auto simp: isAutoCleanCandidate_def Let_def split: if_splits option.splits)
      then show ?thesis using none old unfolding deadSince_def by auto
    qed
  qed
  with s show ?thesis by blast
qed

lemma cutoff_age:
  "m \<le> cleanCutoff nowNS (normalizeAutoCleanConfig cfg) \<Longrightarrow>
     10 ^ 6 * m + max minuteNS (min (30 * 24 * hourNS) (ac_minAge cfg)) \<le> nowNS"
  by (simp add: cleanCutoff_def normalizeAutoCleanConfig_def clampBoth_def minuteNS_def hourNS_def Let_def split: if_splits)

text \<open>C24. The cleaner: on a sound repository it never fails, it deletes at most the configured number of
  accounts (between 1 and 500) and reports exactly how many; every account it deletes was live, expired (or
  disabled, where that is configured) and dead for at least the configured age, which is between a minute and thirty
  days; every other account keeps its row, and nothing at all happens while the cleaner is off.\<close>

theorem auto_clean_safe:
  fixes ord :: "string \<Rightarrow> bool \<Rightarrow> LocalRow list \<Rightarrow> LocalRow list"
  assumes "db_ok db" "\<And>k d rows. mset (ord k d rows) = mset rows"
  shows "\<exists>res db'. RunExpiredAccountAutoClean like ord nowNS cfg db = (None, res, db') \<and> db_ok db' \<and>
    (\<not> ac_enabled cfg \<longrightarrow> db' = db) \<and> liveTokens db' \<subseteq> liveTokens db \<and>
    cr_deleted res = int (card (liveTokens db - liveTokens db')) \<and>
    cr_deleted res \<le> max 1 (min 500 (ac_maxDeletes cfg)) \<and>
    (\<forall>t. t \<notin> liveTokens db - liveTokens db' \<longrightarrow> rowOf t db' = rowOf t db) \<and>
    (\<forall>t \<in> liveTokens db - liveTokens db'. \<exists>row r m. rowOf t db = Some row \<and> toRecord (nowNS div 10 ^ 6) row = Inr r \<and>
       (ar_status r = StExpired \<or> ac_includeDisabled cfg \<and> ar_status r = StDisabled) \<and> deadSince r m \<and>
       10 ^ 6 * m + max minuteNS (min (30 * 24 * hourNS) (ac_minAge cfg)) \<le> nowNS)"
proof -
  let ?limit = "cleanCutoff nowNS (normalizeAutoCleanConfig cfg)"
  obtain res db' where run: "RunExpiredAccountAutoClean like ord nowNS cfg db = (None, res, db')"
    "cr_deleted res \<le> max 1 (min 500 (ac_maxDeletes cfg))"
    "cleaned (nowNS div 10 ^ 6) ?limit ({StExpired} \<union> (if ac_includeDisabled cfg then {StDisabled} else {})) db db' (cr_deleted res)"
    using cleaner_effect [where ord = ord, OF assms] by blast
  have old: "\<exists>row r m. rowOf t db = Some row \<and> toRecord (nowNS div 10 ^ 6) row = Inr r \<and>
      (ar_status r = StExpired \<or> ac_includeDisabled cfg \<and> ar_status r = StDisabled) \<and> deadSince r m \<and>
      10 ^ 6 * m + max minuteNS (min (30 * 24 * hourNS) (ac_minAge cfg)) \<le> nowNS"
    if t: "t \<in> liveTokens db - liveTokens db'" for t
  proof -
    obtain row r where r: "rowOf t db = Some row" "toRecord (nowNS div 10 ^ 6) row = Inr r" "isAutoCleanCandidate r ?limit"
      "ar_status r \<in> {StExpired} \<union> (if ac_includeDisabled cfg then {StDisabled} else {})"
      using run(3) t unfolding cleaned_def cleanable_def by metis
    moreover obtain m where "deadSince r m" "m \<le> ?limit" using candidate_since [OF r(3)] by blast
    ultimately show ?thesis using cutoff_age [of m nowNS cfg] by (auto split: if_splits)
  qed
  have off: "db' = db" if "\<not> ac_enabled cfg"
    using run(1) that by (simp add: RunExpiredAccountAutoClean_def normalizeAutoCleanConfig_def Let_def)
  show ?thesis
    using run old off unfolding cleaned_def by blast
qed

text \<open>A repository with one account that expired long ago.\<close>

definition expiredDB :: LocalDB where
  "expiredDB = sampleDB\<lparr>db_rows := [sampleRow\<lparr>lr_status := ''expired''\<rparr>]\<rparr>"

definition sampleClean :: AutoCleanConfig where
  "sampleClean = \<lparr>ac_enabled = True, ac_interval = 0, ac_minAge = 0, ac_includeDisabled = False, ac_maxDeletes = 50\<rparr>"

lemma expiredDB_ok: "db_ok expiredDB"
proof -
  have "db_inv sampleDB" "row_readable sampleRow" using sampleDB_ok sampleRow_readable by (auto simp: db_ok_def)
  then show ?thesis
    by (auto simp: db_ok_def db_inv_def expiredDB_def sampleDB_rows row_readable_def normalizeRecordStatus_def
        ParseAccountStatus_def)
qed

theorem auto_clean_safe_witness:
  "\<exists>res db'. RunExpiredAccountAutoClean (\<lambda>_ _. True) (\<lambda>_ _ rows. rev rows) (10 ^ 12) sampleClean expiredDB = (None, res, db') \<and>
     cr_deleted res \<le> 50"
  using auto_clean_safe [OF expiredDB_ok, of "\<lambda>_ _ rows. rev rows" "\<lambda>_ _. True" "10 ^ 12" sampleClean]
  by (auto simp: sampleClean_def)

text \<open>The first page shows every live account of the status, when fewer than a page of them are live.\<close>

lemma record_status_row:
  "toRecord now row = Inr r \<Longrightarrow> ar_status r = s \<Longrightarrow> s \<noteq> StActive \<Longrightarrow> lr_status row = statusString s"
  by (auto simp: toRecord_def NewAccountRecord_def normalizeRecordStatus_def ParseAccountStatus_def
      split: if_splits option.splits)

lemma cleanQuery_first:
  "cleanQuery status 1 = \<lparr>lq_page = 1, lq_pageSize = 100, lq_pool = None, lq_status = Some status, lq_tags = Some [],
     lq_excludeTags = Some [], lq_includeDeleted = False, lq_sortBy = ''updated_at'', lq_sortDesc = False\<rparr>"
  by (simp add: cleanQuery_def queryNormalize_def emptyListQuery_def autoCleanMaxPageSize_def)

lemma cleanQuery_first_normal: "normalizeLocalListQuery (cleanQuery status 1) = cleanQuery status 1"
  by (simp add: cleanQuery_first normalizeLocalListQuery_def isZeroLocalListQuery_def queryNormalize_def)

lemma first_page:
  fixes ord :: "string \<Rightarrow> bool \<Rightarrow> LocalRow list \<Rightarrow> LocalRow list"
  assumes "db_ok db" "\<And>k d rows. mset (ord k d rows) = mset rows" "card (liveTokens db) < 100"
    and "ListAccounts like ord now (cleanQuery status 1) db = Inr ap" "status \<noteq> StActive"
  shows "int (length (ap_items ap)) < autoCleanMaxPageSize \<and>
    (\<forall>t row r. rowOf t db = Some row \<longrightarrow> lr_deletedAt row = None \<longrightarrow> toRecord now row = Inr r \<longrightarrow>
       ar_status r = status \<longrightarrow> r \<in> set (ap_items ap))"
proof -
  let ?hits = "filter (\<lambda>row. lr_deletedAt row = None \<and> lr_status row = statusString status) (db_rows db)"
  let ?rows = "ord ''updated_at'' False ?hits"
  have mset: "mset ?rows = mset ?hits" by (rule assms(2))
  have "distinct (map lr_token ?hits)" using assms(1) by (simp add: db_ok_def db_inv_def distinct_map_filter)
  then have "length ?hits = card (lr_token ` set ?hits)" using distinct_card by fastforce
  also have "\<dots> \<le> card (liveTokens db)" by (rule card_mono) (auto simp: liveTokens_def)
  finally have "length ?rows < 100" using assms(3) mset_eq_length [OF mset] by simp
  moreover have "localListWhere like (cleanQuery status 1) = (\<lambda>row. lr_deletedAt row = None \<and> lr_status row = statusString status)"
    by (rule ext) (simp add: localListWhere_def cleanQuery_first)
  ultimately have scan: "scanRows now ?rows = Inr (ap_items ap)"
    using assms(4) unfolding ListAccounts_def listLocalAccounts_def cleanQuery_first_normal
    by (auto simp: bindE_Inr_iff Let_def safeLocalSort_def cleanQuery_first)
  have "length (ap_items ap) = length ?rows" using scan by (auto simp: scanRows_list_all2 dest: list_all2_lengthD)
  moreover have "r \<in> set (ap_items ap)"
    if "rowOf t db = Some row" "lr_deletedAt row = None" "toRecord now row = Inr r" "ar_status r = status" for t row r
  proof -
    have "row \<in> set ?hits"
      using that record_status_row [OF that(3,4) assms(5)] by (auto simp: rowOf_def dest: findRow_Some)
    then have "row \<in> set ?rows" using mset_eq_setD [OF mset] by simp
    then show ?thesis unfolding scanRows_set [OF scan] using that(3) by blast
  qed
  ultimately show ?thesis using \<open>length ?rows < 100\<close> by (auto simp: autoCleanMaxPageSize_def)
qed

lemma cleanPages_complete:
  fixes ord :: "string \<Rightarrow> bool \<Rightarrow> LocalRow list \<Rightarrow> LocalRow list"
  assumes "db_ok db" "\<And>k d rows. mset (ord k d rows) = mset rows" "card (liveTokens db) < 100" "status \<noteq> StActive"
    and "cleanPages (\<lambda>status page. ListAccounts like ord now (cleanQuery status page)) now limit most status (Suc n) 1 result db =
      (err, result', db')"
    and "cr_deleted result' < most" "cr_deleted result < most" "cleanable now limit {status} t db"
  shows "t \<notin> liveTokens db'"
proof -
  obtain ap where ap: "ListAccounts like ord now (cleanQuery status 1) db = Inr ap"
    using page_rows [where ord = ord, OF assms(1,2)] by blast
  obtain row r where r: "rowOf t db = Some row" "lr_deletedAt row = None" "toRecord now row = Inr r"
    "isAutoCleanCandidate r limit" "ar_status r = status" using assms(8) by (auto simp: cleanable_def)
  have page: "int (length (ap_items ap)) < autoCleanMaxPageSize" "r \<in> set (ap_items ap)"
    using first_page [where ord = ord, OF assms(1,2,3) ap assms(4)] r by auto
  obtain result1 tokens where scan: "cleanScan limit most (ap_items ap) (result, []) = (result1, tokens)" by fastforce
  obtain result2 db2 where del: "cleanDelete now tokens result1 db = (result2, db2)" by fastforce
  have out: "result' = result2" "db' = db2"
    using assms(5,7) ap scan del page by (auto split: if_splits)
  obtain k where k: "tokens = map ar_token (filter (\<lambda>r. isAutoCleanCandidate r limit) (take k (ap_items ap)))"
    "cr_deleted result1 = cr_deleted result" "length (ap_items ap) \<le> k \<or> cr_deleted result + int (length tokens) = most"
    using cleanScan_picks [of result "[]" most limit "ap_items ap"] assms(7) scan
    unfolding scan_ok_def by (simp only: fst_conv snd_conv append_Nil list.size of_nat_0 add_0_right) blast
  have tok: "ar_token r = t"
    using toRecord_token [OF r(3)] r(1) assms(1) by (auto simp: rowOf_def db_ok_def dest: findRow_Some)
  have eff: "cr_deleted result2 = cr_deleted result + int (length tokens)" "liveTokens db2 = liveTokens db - set tokens"
    using cleanPage_effect [where ord = ord, OF assms(1,2,7) ap scan del] by auto
  then have "length (ap_items ap) \<le> k" using k(3) assms(6) out by auto
  then have "t \<in> set tokens" using k(1) page(2) r(4) tok by auto
  then show ?thesis using eff(2) out by simp
qed

lemma cleaned_keeps:
  assumes "cleaned now limit statuses db db1 n" "cleanable now limit other t db" "t \<in> liveTokens db1"
  shows "cleanable now limit other t db1"
  using assms by (simp add: cleaned_def cleanable_def)

lemma cleanStatuses_complete:
  fixes ord :: "string \<Rightarrow> bool \<Rightarrow> LocalRow list \<Rightarrow> LocalRow list"
  assumes "db_ok db" "\<And>k d rows. mset (ord k d rows) = mset rows" "card (liveTokens db) < 100" "StActive \<notin> set statuses"
    and "cleanStatuses (\<lambda>status page. ListAccounts like ord now (cleanQuery status page)) now limit most statuses result db =
      (err, result', db')"
    and "cr_deleted result' < most" "cr_deleted result \<le> most" "cleanable now limit (set statuses) t db"
  shows "t \<notin> liveTokens db'"
  using assms(1,3,4,5,7,8)
proof (induction statuses arbitrary: result db)
  case (Cons status statuses)
  let ?pages = "\<lambda>status page. ListAccounts like ord now (cleanQuery status page)"
  show ?case
  proof (cases "cr_deleted result < most")
    case True
    obtain e result1 db1 where one: "cleanPages ?pages now limit most status autoCleanMaxPages 1 result db = (e, result1, db1)"
      by (metis prod_cases3)
    have step: "e = None" "cr_deleted result1 \<le> most" "cleaned now limit {status} db db1 (cr_deleted result1 - cr_deleted result)"
      using cleanPages_effect [where ord = ord, OF Cons.prems(1) assms(2) Cons.prems(5) one] by auto
    have rest: "cleanStatuses ?pages now limit most statuses result1 db1 = (err, result', db')"
      using Cons.prems(4) True one step(1) by simp
    have later: "cleaned now limit (set statuses) db1 db' (cr_deleted result' - cr_deleted result1)"
      using cleanStatuses_effect [where ord = ord, OF cleaned_ok [OF step(3)] assms(2) step(2) rest] by simp
    have sub: "liveTokens db1 \<subseteq> liveTokens db" "liveTokens db' \<subseteq> liveTokens db1"
      using step(3) later by (simp_all add: cleaned_def)
    have few: "card (liveTokens db1) < 100" using card_mono [OF finite_live sub(1)] Cons.prems(2) by simp
    show ?thesis
    proof (cases "t \<in> liveTokens db1")
      case live: True
      have "\<not> cleanable now limit {status} t db"
      proof
        assume "cleanable now limit {status} t db"
        moreover have "status \<noteq> StActive" using Cons.prems(3) by auto
        moreover have "autoCleanMaxPages = Suc 19" by (simp add: autoCleanMaxPages_def)
        then have "cleanPages ?pages now limit most status (Suc 19) 1 result db = (e, result1, db1)" using one by metis
        moreover have "cr_deleted result1 < most" using cleaned_nonneg [OF later] assms(6) by linarith
        ultimately have "t \<notin> liveTokens db1"
          using cleanPages_complete [where ord = ord, OF Cons.prems(1) assms(2) Cons.prems(2) _ _ _ True] by blast
        with live show False by simp
      qed
      then have "cleanable now limit (set statuses) t db" using Cons.prems(6) by (auto simp: cleanable_def)
      then show ?thesis
        using Cons.IH [OF cleaned_ok [OF step(3)] few _ rest step(2)] cleaned_keeps [OF step(3) _ live] Cons.prems(3) by simp
    qed (use sub in blast)
  next
    case False
    then show ?thesis using Cons.prems(4) assms(6) by auto
  qed
qed (simp add: cleanable_def)

text \<open>The cleaner misses nothing in a small pool: with fewer than 100 live accounts, a run that stays
  below its limit leaves no live account that fits the criteria.\<close>

theorem auto_clean_complete:
  fixes ord :: "string \<Rightarrow> bool \<Rightarrow> LocalRow list \<Rightarrow> LocalRow list"
  assumes "db_ok db" "\<And>k d rows. mset (ord k d rows) = mset rows" "card (liveTokens db) < 100" "ac_enabled cfg"
    and "RunExpiredAccountAutoClean like ord nowNS cfg db = (err, res, db')"
    and "cr_deleted res < max 1 (min 500 (ac_maxDeletes cfg))"
  shows "\<not> (\<exists>t \<in> liveTokens db'. cleanable (nowNS div 10 ^ 6) (cleanCutoff nowNS (normalizeAutoCleanConfig cfg))
      ({StExpired} \<union> (if ac_includeDisabled cfg then {StDisabled} else {})) t db')"
proof -
  let ?cfg = "normalizeAutoCleanConfig cfg"
  let ?now = "nowNS div 10 ^ 6"
  have cfg: "ac_maxDeletes ?cfg = max 1 (min 500 (ac_maxDeletes cfg))" "ac_enabled ?cfg"
    "set (cleanStatusList ?cfg) = {StExpired} \<union> (if ac_includeDisabled cfg then {StDisabled} else {})"
    using assms(4) by (auto simp: normalizeAutoCleanConfig_def clampBoth_def Let_def cleanStatusList_def)
  have run: "cleanStatuses (\<lambda>status page. ListAccounts like ord ?now (cleanQuery status page)) ?now
      (cleanCutoff nowNS ?cfg) (ac_maxDeletes ?cfg) (cleanStatusList ?cfg) noClean db = (err, res, db')"
    using assms(5) cfg(2) by (simp add: RunExpiredAccountAutoClean_def Let_def)
  have start: "cr_deleted noClean \<le> ac_maxDeletes ?cfg" by (simp add: noClean_def cfg(1))
  have eff: "cleaned ?now (cleanCutoff nowNS ?cfg) (set (cleanStatusList ?cfg)) db db' (cr_deleted res)"
    using cleanStatuses_effect [where ord = ord, OF assms(1,2) start run] by (simp add: noClean_def)
  have "StActive \<notin> set (cleanStatusList ?cfg)" by (simp add: cfg(3))
  note gone = cleanStatuses_complete [where ord = ord, OF assms(1,2,3) this run _ start]
  have "cleanable ?now (cleanCutoff nowNS ?cfg) (set (cleanStatusList ?cfg)) t db"
    if "t \<in> liveTokens db'" "cleanable ?now (cleanCutoff nowNS ?cfg) (set (cleanStatusList ?cfg)) t db'" for t
    using that eff by (simp add: cleaned_def cleanable_def)
  then show ?thesis using gone assms(6) unfolding cfg by blast
qed

lemma sample_clean_run:
  "\<exists>res db'. RunExpiredAccountAutoClean (\<lambda>_ _. True) (\<lambda>_ _ rows. rows) (10 ^ 12) sampleClean expiredDB = (None, res, db') \<and>
     cr_deleted res = int (card (liveTokens expiredDB - liveTokens db'))"
  using cleaner_effect [OF expiredDB_ok, of "\<lambda>_ _ rows. rows" "\<lambda>_ _. True" "10 ^ 12" sampleClean]
  by (auto simp: cleaned_def)

theorem auto_clean_complete_witness:
  "\<exists>res db'. RunExpiredAccountAutoClean (\<lambda>_ _. True) (\<lambda>_ _ rows. rows) (10 ^ 12) sampleClean expiredDB = (None, res, db') \<and>
     cr_deleted res < 50 \<and>
     \<not> (\<exists>t \<in> liveTokens db'. cleanable (10 ^ 6) (cleanCutoff (10 ^ 12) (normalizeAutoCleanConfig sampleClean)) {StExpired} t db')"
proof -
  obtain res db' where run: "RunExpiredAccountAutoClean (\<lambda>_ _. True) (\<lambda>_ _ rows. rows) (10 ^ 12) sampleClean expiredDB = (None, res, db')"
    "cr_deleted res = int (card (liveTokens expiredDB - liveTokens db'))"
    using sample_clean_run by blast
  have live: "liveTokens expiredDB \<subseteq> {''tok''}"
    by (auto simp: liveTokens_def expiredDB_def sampleDB_rows sampleRow_def)
  have one: "card (liveTokens expiredDB) \<le> 1" using card_mono [OF _ live] by simp
  have few: "cr_deleted res < 50"
    using one card_mono [of "liveTokens expiredDB" "liveTokens expiredDB - liveTokens db'"] run(2) by fastforce
  have "\<not> (\<exists>t \<in> liveTokens db'. cleanable (10 ^ 12 div 10 ^ 6) (cleanCutoff (10 ^ 12) (normalizeAutoCleanConfig sampleClean))
      ({StExpired} \<union> (if ac_includeDisabled sampleClean then {StDisabled} else {})) t db')"
    by (rule auto_clean_complete [OF expiredDB_ok _ _ _ run(1)]) (use one few in \<open>simp_all add: sampleClean_def\<close>)
  moreover have "(10 ^ 12 div 10 ^ 6 :: int) = 10 ^ 6" "ac_includeDisabled sampleClean = False"
    by (simp_all add: sampleClean_def)
  ultimately show ?thesis using run(1) few by auto
qed

section \<open>Validation of a session\<close>

text \<open>The verdict on a token: the local check, then the session probe, then the list of models when the
  probe is inconclusive.\<close>

definition validationVerdict :: "ValidationEnv \<Rightarrow> string \<Rightarrow> goerr option" where
  "validationVerdict env token =
    (let reason = SSOLocalInvalidReason (sv_claims env) token (sv_nowS env)
     in if reason \<noteq> '''' then Some (NewSessionInvalidError reason ''local'')
        else case probeSSOSession env token of
          None \<Rightarrow> None
        | Some e \<Rightarrow> if IsTerminalSSOFailure e then Some e else probeSSOListModelsFallback env token)"

definition validationStrikes :: "LocalRow \<Rightarrow> int" where
  "validationStrikes row = failureCountIn (lr_ext row) ''sso_validation''"

lemma validationStrikes_nonneg: "0 \<le> validationStrikes row"
  by (auto simp: validationStrikes_def failureCountIn_def split: option.split goval.split sum.split)

lemma failurePatch_simps [simp]:
  "pt_token (validationFailurePatch env now r stage cause) = ar_token r"
  "\<not> pt_clearFailures (validationFailurePatch env now r stage cause)"
  "pt_pool (validationFailurePatch env now r stage cause) = None"
  by (simp_all add: validationFailurePatch_def emptyPatch_def)

lemma successPatch_simps [simp]:
  "pt_token (validationSuccessPatch now r) = ar_token r"
  "\<not> pt_clearFailures (validationSuccessPatch now r)"
  "pt_pool (validationSuccessPatch now r) = None"
  by (simp_all add: validationSuccessPatch_def emptyPatch_def Let_def)

lemma failurePatch_counter:
  assumes "json_int (ssoValidationFailureCount r + 1)" "0 \<le> ssoValidationFailureCount r"
  shows "validationStrikes (applySets (buildLocalPatchSets r0 (validationFailurePatch env now r stage cause) ts n) row) =
    ssoValidationFailureCount r + 1"
  unfolding validationStrikes_def
  by (rule patched_counter [OF _ _ assms(1)]) (use assms in \<open>auto simp: validationFailurePatch_def\<close>)

lemma successPatch_counter:
  "validationStrikes (applySets (buildLocalPatchSets r0 (validationSuccessPatch now r) ts n) row) = 0"
  unfolding validationStrikes_def
  by (rule patched_counter) (auto simp: validationSuccessPatch_def Let_def json_int_def)

lemma record_row:
  assumes "db_ok db" "rowOf t db = Some row" "toRecord now row = Inr r"
  shows "ar_token r = t" "ar_deletedAt r = lr_deletedAt row" "ssoValidationFailureCount r = validationStrikes row"
proof -
  have "row_readable row" "lr_token row = t" using assms(1,2) by (auto simp: db_ok_def rowOf_def dest: findRow_Some)
  moreover from this assms(3) have "ar_ext r = lr_ext row" by (metis toRecord_readable sum.inject(2))
  ultimately show "ar_token r = t" "ar_deletedAt r = lr_deletedAt row"
      "ssoValidationFailureCount r = validationStrikes row"
    using assms(3) by (auto simp: ssoValidationFailureCount_def validationStrikes_def dest: toRecord_token)
qed

lemma patchOne_row:
  assumes "db_ok db" "rowOf (pt_token p) db = Some row" "toRecord now row = Inr r" "pt_pool p = None"
  shows "\<exists>db1. patchOne now p db = (None, db1) \<and> touches (pt_token p) db db1 \<and>
    rowOf (pt_token p) db1 = Some (applySets (buildLocalPatchSets r p now (db_revision db + 1)) row)"
proof -
  obtain db1 where "PatchAccounts now [p] db = (Inr (noMutation\<lparr>mr_patched := 1, mr_revision := db_revision db + 1\<rparr>), db1)"
    "rowOf (pt_token p) db1 = Some (applySets (buildLocalPatchSets r p now (db_revision db + 1)) row)"
    using PatchAccounts_one [OF assms(1-3)] by blast
  then show ?thesis
    using patchOne_touches [of p db now] assms(4) by (simp add: patchOne_def pool_valid_def)
qed

text \<open>What one validation leaves of the account.\<close>

definition validated :: "ValidationEnv \<Rightarrow> goerr option \<Rightarrow> LocalRow \<Rightarrow> LocalRow \<Rightarrow> bool" where
  "validated env verdict row row' \<longleftrightarrow>
    (case verdict of
       None \<Rightarrow> validationStrikes row' = 0 \<and> lr_deletedAt row' = lr_deletedAt row
     | Some e \<Rightarrow> validationStrikes row' = validationStrikes row + 1 \<and>
         (lr_deletedAt row' \<noteq> lr_deletedAt row \<longleftrightarrow>
            IsTerminalSSOFailure e \<and> validationMaxFailures env \<le> validationStrikes row + 1))"

lemma failure_effect:
  assumes "db_ok db" "rowOf t db = Some row" "lr_deletedAt row = None" "toRecord now row = Inr r"
    and "json_int (validationStrikes row + 1)"
  shows "\<exists>res db' row'. recordSSOValidationFailure env now r stage e db = (Inr res, db') \<and> touches t db db' \<and>
    rowOf t db' = Some row' \<and> validated env (Some e) row row' \<and> accounted res 1 \<and>
    (rr_expired res = 1 \<longleftrightarrow> lr_deletedAt row' \<noteq> None)"
proof -
  note rec = record_row [OF assms(1,2,4)]
  let ?p = "validationFailurePatch env now r stage e"
  let ?row = "applySets (buildLocalPatchSets r ?p now (db_revision db + 1)) row"
  obtain db1 where db1: "patchOne now ?p db = (None, db1)" "touches t db db1" "rowOf t db1 = Some ?row"
    using patchOne_row [of db ?p row now r] assms(1,2,4) rec(1) by auto
  have count: "validationStrikes ?row = validationStrikes row + 1"
    using failurePatch_counter [of r] assms(5) validationStrikes_nonneg [of row] by (simp add: rec(3))
  have keep: "lr_deletedAt ?row = None" by (simp add: patch_deletedAt assms(3))
  show ?thesis
  proof (cases "IsTerminalSSOFailure e \<and> validationMaxFailures env \<le> validationStrikes row + 1")
    case True
    let ?db2 = "snd (DeleteAccounts now [t] db1)"
    have "recordSSOValidationFailure env now r stage e db = (Inr (zeroResult\<lparr>rr_checked := 1, rr_expired := 1\<rparr>), ?db2)"
      using True db1(1) by (simp add: recordSSOValidationFailure_def rec)
    moreover have "rowOf t ?db2 = Some (deleteRow now (db_revision db1 + 1) ?row)"
      using db1(3) keep by (simp add: rowOf_delete)
    moreover have "validationStrikes (deleteRow now n x) = validationStrikes x" for n x
      by (simp add: validationStrikes_def deleteRow_def)
    moreover have "touches t db ?db2" using touches_trans [OF db1(2) delete_touches] .
    ultimately show ?thesis
      using True count by (auto simp: validated_def assms(3) zeroResult_def deleteRow_def accounted_def)
  next
    case False
    then have "recordSSOValidationFailure env now r stage e db = (Inr (zeroResult\<lparr>rr_checked := 1, rr_failed := 1\<rparr>), db1)"
      using db1(1) by (auto simp: recordSSOValidationFailure_def rec)
    then show ?thesis using False db1 count keep by (auto simp: validated_def assms(3) zeroResult_def accounted_def)
  qed
qed

lemma success_effect:
  assumes "db_ok db" "rowOf t db = Some row" "lr_deletedAt row = None" "toRecord now row = Inr r"
  shows "\<exists>db' row'. validationPassed now r db = (Inr (zeroResult\<lparr>rr_checked := 1, rr_refreshed := 1\<rparr>), db') \<and>
    touches t db db' \<and> rowOf t db' = Some row' \<and> validated env None row row'"
proof -
  note rec = record_row [OF assms(1,2,4)]
  let ?p = "validationSuccessPatch now r"
  obtain db1 where "patchOne now ?p db = (None, db1)" "touches t db db1"
    "rowOf t db1 = Some (applySets (buildLocalPatchSets r ?p now (db_revision db + 1)) row)"
    using patchOne_row [of db ?p row now r] assms(1,2,4) rec(1) by auto
  then show ?thesis
    by (auto simp: validationPassed_def recordSSOValidationSuccess_def validated_def successPatch_counter patch_deletedAt)
qed

text \<open>C25. Validating a live account: it always succeeds and touches no other account. When the verdict is
  good the counter of failures goes back to 0; when it is not, the counter goes up by one, and the account is
  deleted exactly if this failure is terminal and the counter has reached the limit. A failure that is not terminal, such
  as a network error, never deletes by itself, but it counts towards the limit like any other. Terminal are the verdicts of
  the local check, an answer the probe takes for a lost session, and any other answer it takes for an error with status 400,
  401 or 403 whose body names dead credentials, a Cloudflare page included (theorem \<open>probe_terminal\<close>).\<close>

theorem sso_validation:
  assumes "db_ok db" "rowOf t db = Some row" "lr_deletedAt row = None" "toRecord now row = Inr r"
    and "json_int (validationStrikes row + 1)"
  shows "\<exists>res db' row'. validateSSOAccount env now r db = (Inr res, db') \<and> touches t db db' \<and> rowOf t db' = Some row' \<and>
    validated env (validationVerdict env t) row row' \<and> accounted res 1 \<and>
    (rr_expired res = 1 \<longleftrightarrow> lr_deletedAt row' \<noteq> None)"
proof -
  note rec = record_row [OF assms(1,2,4)]
  have live: "\<not> IsDeleted r" using rec(2) assms(3) by (simp add: IsDeleted_def)
  have bad: ?thesis if "validationVerdict env t = Some e"
      "validateSSOAccount env now r db = recordSSOValidationFailure env now r stage e db" for e stage
    using failure_effect [OF assms, of env stage e] that by auto
  have good: ?thesis if "validationVerdict env t = None" "validateSSOAccount env now r db = validationPassed now r db"
    using success_effect [OF assms(1-4), of env] that assms(3)
    by (auto simp: accounted_def zeroResult_def validated_def)
  show ?thesis
    using bad good live
    by (auto simp: validateSSOAccount_def validationVerdict_def rec(1) Let_def split: option.splits if_splits)
qed

definition sampleValidation :: ValidationEnv where
  "sampleValidation = \<lparr>sv_claims = (\<lambda>_. None), sv_nowS = 100, sv_session = Some (\<lambda>_. Some (NewSessionInvalidError ''signed_out'' ''session'')),
     sv_models = None, sv_serviceMax = 1, sv_configMax = 3, sv_text = (\<lambda>_. ''error'')\<rparr>"

theorem sso_validation_witness:
  "\<exists>r res db' row'. toRecord 9 sampleRow = Inr r \<and> validateSSOAccount sampleValidation 9 r sampleDB = (Inr res, db') \<and>
     rowOf ''tok'' db' = Some row' \<and> lr_deletedAt row' \<noteq> None"
proof -
  obtain r where r: "toRecord 9 sampleRow = Inr r" by (rule sample_record)
  have row: "lr_deletedAt sampleRow = None" "validationStrikes sampleRow = 0"
    by (simp_all add: sampleRow_def insertedRow_def validationStrikes_def failureCountIn_def sampleUpsert_def
        upsertNormalize_def jsonStore_def Let_def)
  have "validationVerdict sampleValidation ''tok'' = Some (NewSessionInvalidError ''signed_out'' ''session'')"
    by (simp add: validationVerdict_def sampleValidation_def SSOLocalInvalidReason_def ExtractSSOTokenValue_def
        probeSSOSession_def NewSessionInvalidError_def IsTerminalSSOFailure_def IsSessionInvalidError_def
        string_eval Let_def)
  moreover have "IsTerminalSSOFailure (NewSessionInvalidError ''signed_out'' ''session'')" "validationMaxFailures sampleValidation = 1"
    by (simp_all add: IsTerminalSSOFailure_def IsSessionInvalidError_def NewSessionInvalidError_def
        validationMaxFailures_def sampleValidation_def)
  ultimately show ?thesis
    using sso_validation [OF sampleDB_ok sample_rowOf row(1) r, of sampleValidation] r row
    by (auto simp: validated_def json_int_def)
qed

section \<open>The limits and the Build pool\<close>

text \<open>Whatever numbers the configuration holds, also when seconds overflow as nanoseconds: the interval
  is between a minute and a day, the age at least a minute and at most 30 days, the deletions between 1 and
  500, normalising again changes nothing, and an account marked less than a minute ago is never past the
  cutoff.\<close>

theorem clean_config_bounds:
  "let cfg = loadAutoCleanConfig getInt getBool in
    ac_interval cfg \<in> {minuteNS..24 * hourNS} \<and> ac_minAge cfg \<in> {minuteNS..30 * 24 * hourNS} \<and>
    ac_maxDeletes cfg \<in> {1..500} \<and> normalizeAutoCleanConfig cfg = cfg \<and>
    cleanCutoff nowNS cfg * 10 ^ 6 \<le> nowNS - minuteNS"
proof -
  define cfg where cfg_def: "cfg = loadAutoCleanConfig getInt getBool"
  have bounds: "ac_interval cfg \<in> {minuteNS..24 * hourNS}" "ac_minAge cfg \<in> {minuteNS..30 * 24 * hourNS}"
    "ac_maxDeletes cfg \<in> {1..500}"
    by (simp_all add: cfg_def loadAutoCleanConfig_def normalizeAutoCleanConfig_def clampBoth_def Let_def
        minuteNS_def hourNS_def)
  moreover have "normalizeAutoCleanConfig cfg = cfg"
    using bounds by (simp add: normalizeAutoCleanConfig_def clampBoth_def Let_def)
  moreover have "(nowNS - ac_minAge cfg) div 10 ^ 6 * 10 ^ 6 \<le> nowNS - ac_minAge cfg"
    by (simp add: minus_mod_eq_div_mult [symmetric])
  then have "cleanCutoff nowNS cfg * 10 ^ 6 \<le> nowNS - minuteNS" using bounds(2) by (simp add: cleanCutoff_def)
  ultimately show ?thesis by (simp add: cfg_def [symmetric] Let_def)
qed

text \<open>Deleting a list of entries until the first error.\<close>

fun deleteAll :: "(int \<Rightarrow> 's \<Rightarrow> goerr option \<times> 's) \<Rightarrow> int list \<Rightarrow> 's \<Rightarrow> goerr option \<times> int \<times> 's" where
  "deleteAll delete1 [] s = (None, 0, s)"
| "deleteAll delete1 (i # ids) s =
    (case delete1 i s of
       (Some e, s1) \<Rightarrow> (Some e, 0, s1)
     | (None, s1) \<Rightarrow> (case deleteAll delete1 ids s1 of (e, n, s2) \<Rightarrow> (e, n + 1, s2)))"

lemma buildClean_deletes:
  "cr_deleted result \<le> ac_maxDeletes cfg \<Longrightarrow>
   (case buildClean delete1 cfg limit accounts result s of (e, res, s') \<Rightarrow> (e, cr_deleted res - cr_deleted result, s')) =
     deleteAll delete1 (map ba_id (take (nat (ac_maxDeletes cfg - cr_deleted result))
       (filter (buildCleanCandidate cfg limit) accounts))) s"
proof (induction accounts arbitrary: result s)
  case (Cons a accounts)
  let ?result = "result\<lparr>cr_scanned := cr_scanned result + 1\<rparr>"
  consider "\<not> buildCleanCandidate cfg limit a"
    | "buildCleanCandidate cfg limit a" "cr_deleted result = ac_maxDeletes cfg"
    | "buildCleanCandidate cfg limit a" "cr_deleted result < ac_maxDeletes cfg" using Cons.prems by linarith
  then show ?case
  proof cases
    case 1
    then show ?thesis
      using Cons.IH [of "?result\<lparr>cr_skipped := cr_skipped ?result + 1\<rparr>" s] Cons.prems by (simp add: Let_def)
  next
    case 2
    then show ?thesis by (simp add: Let_def)
  next
    case 3
    then have n: "nat (ac_maxDeletes cfg - cr_deleted result) = Suc (nat (ac_maxDeletes cfg - (cr_deleted result + 1)))"
      by simp
    obtain e s1 where del: "delete1 (ba_id a) s = (e, s1)" by fastforce
    show ?thesis
    proof (cases e)
      case None
      obtain e2 res s2 where rest: "buildClean delete1 cfg limit accounts (?result\<lparr>cr_deleted := cr_deleted ?result + 1\<rparr>) s1 =
          (e2, res, s2)" by (metis prod_cases3)
      show ?thesis
        using Cons.IH [THEN sym, of "?result\<lparr>cr_deleted := cr_deleted ?result + 1\<rparr>" s1] 3 None del rest
        by (simp add: Let_def n split: prod.splits)
    qed (use 3 del in \<open>simp add: Let_def n\<close>)
  qed
qed simp

text \<open>Cleaning the Build pool deletes, in the order of the list and up to the first error, the first
  candidates within the limit, and nothing else; the count it reports is the number of these deletions.\<close>

theorem build_clean_exact:
  "(case RunBuildExpiredAccountAutoClean list1 delete1 nowNS cfg s of (e, res, s') \<Rightarrow> (e, cr_deleted res, s')) =
    (if \<not> ac_enabled cfg then (None, 0, s)
     else case list1 s of
       Inl e \<Rightarrow> (Some e, 0, s)
     | Inr accounts \<Rightarrow>
         deleteAll delete1 (map ba_id (take (nat (max 1 (min 500 (ac_maxDeletes cfg))))
           (filter (\<lambda>a. buildCleanCandidate cfg (nowNS - ac_minAge (normalizeAutoCleanConfig cfg)) a) accounts))) s)"
proof -
  let ?cfg = "normalizeAutoCleanConfig cfg"
  have cfg: "ac_maxDeletes ?cfg = max 1 (min 500 (ac_maxDeletes cfg))" "ac_enabled ?cfg = ac_enabled cfg"
    "buildCleanCandidate ?cfg = buildCleanCandidate cfg"
    by (auto simp: normalizeAutoCleanConfig_def clampBoth_def Let_def buildCleanCandidate_def intro!: ext)
  show ?thesis
    using buildClean_deletes [of noClean ?cfg delete1 "nowNS - ac_minAge ?cfg"]
    by (auto simp: RunBuildExpiredAccountAutoClean_def Let_def cfg noClean_def split: sum.split)
qed

end
