(* ===== verification/ProxyDirectory.thy ===== *)
theory ProxyDirectory
  imports GoStrings
begin

text \<open>
  The egress proxies and their clearance cookies (\<open>app/control/proxy\<close>): nodes and rotation, the cache
  of clearance bundles with its circuit breaker, and the refresh that concurrent callers share. Every section
  of the code under \<open>d.mu\<close> is one definition on the state. A bundle key is the pair of affinity and host; the channel of
  a refresh is a number, \<open>pd_next\<close> counts the channels made so far. One reading of the clock serves a locked section. The solvers,
  the host name of a URL, \<open>math.Pow\<close> and the configuration are arguments.
\<close>

section \<open>Data\<close>

datatype EgressMode = EgressModeDirect | EgressModeSingleProxy | EgressModeProxyPool
datatype ClearanceMode = ClearanceModeNone | ClearanceModeManual | ClearanceModeFlareSolverr | ClearanceModeByparr
datatype EgressNodeState = EgressNodeHealthy | EgressNodeDegraded | EgressNodeUnhealthy
datatype ClearanceBundleState = ClearanceBundleValid | ClearanceBundleStale | ClearanceBundleInvalid

datatype ProxyFeedbackKind =
    ProxyFeedbackSuccess | ProxyFeedbackChallenge | ProxyFeedbackUnauthorized | ProxyFeedbackForbidden
  | ProxyFeedbackRateLimited | ProxyFeedbackUpstream5xx | ProxyFeedbackTransportError

datatype ProxyScope = ProxyScopeApp | ProxyScopeAsset
datatype RequestKind = RequestKindHTTP | RequestKindWebSocket | RequestKindGRPC

fun egressString :: "EgressMode \<Rightarrow> string" where
  "egressString EgressModeDirect = ''direct''"
| "egressString EgressModeSingleProxy = ''single_proxy''"
| "egressString EgressModeProxyPool = ''proxy_pool''"

fun clearanceString :: "ClearanceMode \<Rightarrow> string" where
  "clearanceString ClearanceModeNone = ''none''"
| "clearanceString ClearanceModeManual = ''manual''"
| "clearanceString ClearanceModeFlareSolverr = ''flaresolverr''"
| "clearanceString ClearanceModeByparr = ''byparr''"

definition validateClearanceMode :: "string \<Rightarrow> goerr + ClearanceMode" where
  "validateClearanceMode mode =
    (if mode = ''none'' then Inr ClearanceModeNone
     else if mode = ''manual'' then Inr ClearanceModeManual
     else if mode = ''flaresolverr'' then Inr ClearanceModeFlareSolverr
     else if mode = ''byparr'' then Inr ClearanceModeByparr
     else Inl (ErrClearanceMode mode))"

definition parseClearanceModeString :: "string \<Rightarrow> goerr + ClearanceMode" where
  "parseClearanceModeString value =
    (let normalized = goLower (trimSpace value)
     in if normalized = '''' then Inr ClearanceModeNone else validateClearanceMode normalized)"

definition ParseClearanceMode :: "(goval \<Rightarrow> string) \<Rightarrow> goval \<Rightarrow> goerr + ClearanceMode" where
  "ParseClearanceMode sprint value =
    (case value of
       GNil \<Rightarrow> Inr ClearanceModeNone
     | GStr s \<Rightarrow> parseClearanceModeString s
     | _ \<Rightarrow> parseClearanceModeString (sprint value))"

definition parseEgressMode :: "string \<Rightarrow> goerr + EgressMode" where
  "parseEgressMode value =
    (let mode = goLower (trimSpace value); mode = (if mode = '''' then ''direct'' else mode)
     in if mode = ''direct'' then Inr EgressModeDirect
        else if mode = ''single_proxy'' then Inr EgressModeSingleProxy
        else if mode = ''proxy_pool'' then Inr EgressModeProxyPool
        else Inl (ErrEgressMode mode))"

record EgressNode =
  en_id :: string
  en_url :: "string option"
  en_scope :: ProxyScope
  en_state :: EgressNodeState
  en_health :: rat
  en_inflight :: int
  en_lastUsed :: "int option"

definition NewEgressNode :: "string \<Rightarrow> EgressNode" where
  "NewEgressNode nodeID = \<lparr>en_id = nodeID, en_url = None, en_scope = ProxyScopeApp, en_state = EgressNodeHealthy,
     en_health = 1, en_inflight = 0, en_lastUsed = None\<rparr>"

definition newEgressNode :: "string \<Rightarrow> string \<Rightarrow> EgressNode" where
  "newEgressNode nodeID proxyURL = (NewEgressNode nodeID)\<lparr>en_url := Some proxyURL\<rparr>"

record ClearanceBundle =
  cb_id :: string
  cb_cookies :: string
  cb_agent :: string
  cb_state :: ClearanceBundleState
  cb_affinity :: string
  cb_host :: string
  cb_lastRefresh :: "int option"
  cb_expires :: "int option"
  cb_count :: int
  cb_error :: string

definition NewClearanceBundle :: "string \<Rightarrow> ClearanceBundle" where
  "NewClearanceBundle bundleID = \<lparr>cb_id = bundleID, cb_cookies = '''', cb_agent = '''', cb_state = ClearanceBundleValid,
     cb_affinity = '''', cb_host = ''grok.com'', cb_lastRefresh = None, cb_expires = None, cb_count = 0, cb_error = ''''\<rparr>"

record ProxyLease =
  pl_id :: string
  pl_url :: "string option"
  pl_cookies :: string
  pl_agent :: string
  pl_host :: string
  pl_scope :: ProxyScope
  pl_kind :: RequestKind
  pl_acquired :: int

definition NewProxyLease :: "string \<Rightarrow> ProxyLease" where
  "NewProxyLease leaseID = \<lparr>pl_id = leaseID, pl_url = None, pl_cookies = '''', pl_agent = '''', pl_host = ''grok.com'',
     pl_scope = ProxyScopeApp, pl_kind = RequestKindHTTP, pl_acquired = 0\<rparr>"

definition nonEmptyURL :: "string option \<Rightarrow> bool" where
  "nonEmptyURL u \<longleftrightarrow> (case u of None \<Rightarrow> False | Some s \<Rightarrow> s \<noteq> '''')"

definition HasProxy :: "ProxyLease \<Rightarrow> bool" where
  "HasProxy l = nonEmptyURL (pl_url l)"

record ProxyFeedback =
  pf_kind :: ProxyFeedbackKind
  pf_status :: "int option"
  pf_reason :: string
  pf_retryAfter :: "int option"

definition ClassifyStatusCode :: "int \<Rightarrow> ProxyFeedbackKind" where
  "ClassifyStatusCode statusCode =
    (if statusCode = 200 then ProxyFeedbackSuccess
     else if statusCode = 401 then ProxyFeedbackUnauthorized
     else if statusCode = 403 then ProxyFeedbackChallenge
     else if statusCode = 429 then ProxyFeedbackRateLimited
     else if statusCode \<ge> 500 then ProxyFeedbackUpstream5xx
     else ProxyFeedbackForbidden)"

definition BuildFeedback :: "int \<Rightarrow> bool \<Rightarrow> string \<Rightarrow> int option \<Rightarrow> ProxyFeedback" where
  "BuildFeedback statusCode isCloudflare reason retryAfter =
    (let kind = ClassifyStatusCode statusCode;
         kind = (if isCloudflare \<and> statusCode = 403 then ProxyFeedbackChallenge else kind)
     in \<lparr>pf_kind = kind, pf_status = Some statusCode, pf_reason = reason, pf_retryAfter = retryAfter\<rparr>)"

section \<open>Configuration\<close>

text \<open>\<open>DirectoryConfig\<close>: strings, lists (no list stands for a nil slice) and integers; \<open>pc_float\<close> is there when
  the dynamic type of the configuration has \<open>GetFloat\<close>, that is, when it is a \<open>BackoffConfigReader\<close>.\<close>

record ProxyConfig =
  pc_str :: "string \<Rightarrow> string \<Rightarrow> string"
  pc_list :: "string \<Rightarrow> string list option \<Rightarrow> string list option"
  pc_int :: "string \<Rightarrow> int \<Rightarrow> int"
  pc_float :: "(string \<Rightarrow> rat \<Rightarrow> rat) option"

definition emptyDirectoryConfig :: ProxyConfig where
  "emptyDirectoryConfig = \<lparr>pc_str = (\<lambda>_ v. v), pc_list = (\<lambda>_ v. v), pc_int = (\<lambda>_ v. v), pc_float = None\<rparr>"

text \<open>The configuration of the running program: it wraps the global snapshot, whose values \<open>sprint\<close> prints.\<close>

definition globalGetList :: "(goval \<Rightarrow> string) \<Rightarrow> (string \<Rightarrow> goval list \<Rightarrow> goval list) \<Rightarrow> string \<Rightarrow>
    string list option \<Rightarrow> string list option" where
  "globalGetList sprint getList key dflt =
    (let values = getList key (map GStr (case dflt of None \<Rightarrow> [] | Some xs \<Rightarrow> xs))
     in if values = [] then None
        else Some (filter (\<lambda>v. v \<noteq> '''') (map (\<lambda>item. trimSpace (sprint item)) values)))"

definition globalDirectoryConfig :: "(goval \<Rightarrow> string) \<Rightarrow> (string \<Rightarrow> string \<Rightarrow> string) \<Rightarrow>
    (string \<Rightarrow> goval list \<Rightarrow> goval list) \<Rightarrow> (string \<Rightarrow> int \<Rightarrow> int) \<Rightarrow> ProxyConfig" where
  "globalDirectoryConfig sprint getStr getList getInt =
    \<lparr>pc_str = getStr, pc_list = globalGetList sprint getList, pc_int = getInt, pc_float = None\<rparr>"

record ClearanceConfig =
  cc_cookies :: string
  cc_agent :: string
  cc_clearance :: string
  cc_browser :: string

definition configString :: "(string \<Rightarrow> string \<Rightarrow> string) \<Rightarrow> string \<Rightarrow> string" where
  "configString getStr key = (let value = getStr key '''' in if trimSpace value = '''' then '''' else value)"

fun FirstConfigString :: "(string \<Rightarrow> string \<Rightarrow> string) \<Rightarrow> string list \<Rightarrow> string" where
  "FirstConfigString getStr [] = ''''"
| "FirstConfigString getStr (key # keys) =
    (let value = configString getStr key in if value \<noteq> '''' then value else FirstConfigString getStr keys)"

definition ResolveClearanceConfig :: "(string \<Rightarrow> string \<Rightarrow> string) \<Rightarrow> ClearanceConfig" where
  "ResolveClearanceConfig getStr =
    \<lparr>cc_cookies = FirstConfigString getStr [''proxy.cf_cookies'', ''proxy.clearance.cf_cookies''],
     cc_agent = FirstConfigString getStr [''proxy.user_agent'', ''proxy.clearance.user_agent''],
     cc_clearance = FirstConfigString getStr [''proxy.cf_clearance'', ''proxy.clearance.cf_clearance''],
     cc_browser = FirstConfigString getStr [''proxy.browser'', ''proxy.clearance.browser'']\<rparr>"

record ConfigSignature =
  sg_egress :: string
  sg_clearance :: string
  sg_baseURL :: string
  sg_resourceURL :: string
  sg_basePool :: "string list option"
  sg_resourcePool :: "string list option"
  sg_flareURL :: string
  sg_byparrURL :: string
  sg_cookies :: string
  sg_agent :: string
  sg_cfClearance :: string
  sg_browser :: string
  sg_timeout :: int

section \<open>The directory\<close>

record BundleKey =
  bk_affinity :: string
  bk_host :: string

record ProxyDirectory =
  pd_nodes :: "EgressNode list"
  pd_resource :: "EgressNode list"
  pd_bundles :: "(BundleKey, ClearanceBundle) fmap"
  pd_events :: "(BundleKey, nat) fmap"
  pd_until :: "(BundleKey, int) fmap"
  pd_fails :: "(BundleKey, int) fmap"
  pd_egress :: EgressMode
  pd_clearance :: ClearanceMode
  pd_sig :: "ConfigSignature option"
  pd_cursor :: int
  pd_next :: nat

definition NewProxyDirectory :: ProxyDirectory where
  "NewProxyDirectory = \<lparr>pd_nodes = [], pd_resource = [], pd_bundles = fmempty, pd_events = fmempty, pd_until = fmempty,
     pd_fails = fmempty, pd_egress = EgressModeDirect, pd_clearance = ClearanceModeNone, pd_sig = None,
     pd_cursor = 0, pd_next = 0\<rparr>"

text \<open>A solver answers with a bundle, whether it solved, and an error.\<close>

type_synonym solved = "ClearanceBundle \<times> bool \<times> goerr option"

definition zeroBundle :: ClearanceBundle where
  "zeroBundle = (NewClearanceBundle '''')\<lparr>cb_host := ''''\<rparr>"

text \<open>The fixed parts of a directory: configuration, providers (none is the default provider), identifiers,
  host names, powers, and the origin the endpoint table resolves \<open>base\<close> to.\<close>

record ProxyEnv =
  px_config :: ProxyConfig
  px_manual :: "(string \<Rightarrow> string \<Rightarrow> solved) option"
  px_flare :: "(string \<Rightarrow> string \<Rightarrow> string \<Rightarrow> solved) option"
  px_byparr :: "(string \<Rightarrow> string \<Rightarrow> string \<Rightarrow> solved) option"
  px_id :: string
  px_host :: "string \<Rightarrow> string option"
  px_base :: string
  px_pow :: "rat \<Rightarrow> int \<Rightarrow> rat"

definition buildEgressNodes :: "EgressMode \<Rightarrow> string \<Rightarrow> string \<Rightarrow> string list \<Rightarrow> string list \<Rightarrow>
    EgressNode list \<times> EgressNode list" where
  "buildEgressNodes mode baseURL resourceURL basePool resourcePool =
    (case mode of
       EgressModeDirect \<Rightarrow> ([], [])
     | EgressModeSingleProxy \<Rightarrow>
         (if baseURL \<noteq> '''' then [newEgressNode ''single'' baseURL] else [],
          if resourceURL \<noteq> '''' then [newEgressNode ''res-single'' resourceURL] else [])
     | EgressModeProxyPool \<Rightarrow>
         (map (\<lambda>(i, url). newEgressNode (''pool-'' @ itoa (int i)) url) (enumerate 0 basePool),
          map (\<lambda>(i, url). newEgressNode (''res-pool-'' @ itoa (int i)) url) (enumerate 0 resourcePool)))"

definition nodeURLs :: "EgressNode list \<Rightarrow> string list" where
  "nodeURLs nodes = filter (\<lambda>u. u \<noteq> '''') (map (\<lambda>n. case en_url n of None \<Rightarrow> '''' | Some u \<Rightarrow> u) nodes)"

definition validAffinities :: "EgressNode list \<Rightarrow> EgressNode list \<Rightarrow> string list" where
  "validAffinities nodes resource =
    (let valid = nodeURLs (nodes @ resource) in if valid = [] then [''direct''] else valid)"

definition keepAffinities :: "string list \<Rightarrow> (BundleKey, 'v) fmap \<Rightarrow> (BundleKey, 'v) fmap" where
  "keepAffinities valid m = fmfilter (\<lambda>key. bk_affinity key \<in> set valid) m"

definition invalidateBundle :: "ClearanceBundle \<Rightarrow> ClearanceBundle" where
  "invalidateBundle b = b\<lparr>cb_state := ClearanceBundleInvalid\<rparr>"

definition invalidateMatchingBundles :: "(BundleKey, ClearanceBundle) fmap \<Rightarrow> string list \<Rightarrow> (BundleKey, ClearanceBundle) fmap" where
  "invalidateMatchingBundles current valid = fmmap invalidateBundle (keepAffinities valid current)"

definition configSignature :: "ProxyConfig \<Rightarrow> EgressMode \<Rightarrow> ClearanceMode \<Rightarrow> ConfigSignature" where
  "configSignature cfg egress clearance =
    (let cc = ResolveClearanceConfig (pc_str cfg)
     in \<lparr>sg_egress = egressString egress, sg_clearance = clearanceString clearance,
         sg_baseURL = pc_str cfg ''proxy.egress.proxy_url'' '''',
         sg_resourceURL = pc_str cfg ''proxy.egress.resource_proxy_url'' '''',
         sg_basePool = pc_list cfg ''proxy.egress.proxy_pool'' None,
         sg_resourcePool = pc_list cfg ''proxy.egress.resource_proxy_pool'' None,
         sg_flareURL = pc_str cfg ''proxy.clearance.flaresolverr_url'' '''',
         sg_byparrURL = pc_str cfg ''proxy.clearance.byparr_url'' '''',
         sg_cookies = cc_cookies cc, sg_agent = cc_agent cc, sg_cfClearance = cc_clearance cc, sg_browser = cc_browser cc,
         sg_timeout = pc_int cfg ''proxy.clearance.timeout_sec'' 60\<rparr>)"

definition pool :: "string list option \<Rightarrow> string list" where
  "pool xs = (case xs of None \<Rightarrow> [] | Some ys \<Rightarrow> ys)"

definition LoadModes :: "ProxyConfig \<Rightarrow> goerr + EgressMode \<times> ClearanceMode" where
  "LoadModes cfg =
    bindE (parseEgressMode (pc_str cfg ''proxy.egress.mode'' ''direct'')) (\<lambda>egress.
    bindE (parseClearanceModeString (pc_str cfg ''proxy.clearance.mode'' ''none'')) (\<lambda>clearance.
    Inr (egress, clearance)))"

definition loadSignature :: "EgressMode \<Rightarrow> ClearanceMode \<Rightarrow> ConfigSignature \<Rightarrow> ProxyDirectory \<Rightarrow> ProxyDirectory" where
  "loadSignature egress clearance sig d =
    (let (nodes, resource) = buildEgressNodes egress (sg_baseURL sig) (sg_resourceURL sig)
           (pool (sg_basePool sig)) (pool (sg_resourcePool sig));
         valid = validAffinities nodes resource
     in if pd_sig d = Some sig then d
        else d\<lparr>pd_egress := egress, pd_clearance := clearance, pd_nodes := nodes, pd_resource := resource, pd_cursor := 0,
          pd_bundles := invalidateMatchingBundles (pd_bundles d) valid,
          pd_events := keepAffinities valid (pd_events d),
          pd_until := keepAffinities valid (pd_until d),
          pd_fails := keepAffinities valid (pd_fails d), pd_sig := Some sig\<rparr>)"

definition LoadProxies :: "ProxyConfig \<Rightarrow> ProxyDirectory \<Rightarrow> goerr option \<times> ProxyDirectory" where
  "LoadProxies cfg d =
    (case LoadModes cfg of
       Inl e \<Rightarrow> (Some e, d)
     | Inr (egress, clearance) \<Rightarrow> (None, loadSignature egress clearance (configSignature cfg egress clearance) d))"

section \<open>Leases\<close>

definition defaultClearanceOrigin :: string where
  "defaultClearanceOrigin = ''https://grok.com''"

definition clearanceHost :: "(string \<Rightarrow> string option) \<Rightarrow> string \<Rightarrow> string" where
  "clearanceHost host origin =
    (let origin = (if origin = '''' then defaultClearanceOrigin else origin)
     in case host origin of
          Some h \<Rightarrow> if h \<noteq> '''' then goLower h else ''grok.com''
        | None \<Rightarrow> ''grok.com'')"

definition leaseAffinity :: "ProxyLease \<Rightarrow> string" where
  "leaseAffinity l = (case pl_url l of None \<Rightarrow> ''direct'' | Some u \<Rightarrow> if u \<noteq> '''' then u else ''direct'')"

definition leaseClearanceHost :: "ProxyLease \<Rightarrow> string" where
  "leaseClearanceHost l = (if pl_host l \<noteq> '''' then pl_host l else ''grok.com'')"

definition rotatesPool :: "ProxyFeedbackKind \<Rightarrow> bool" where
  "rotatesPool kind \<longleftrightarrow> kind = ProxyFeedbackChallenge \<or> kind = ProxyFeedbackUnauthorized \<or>
     kind = ProxyFeedbackForbidden \<or> kind = ProxyFeedbackTransportError"

definition proxyFeedback :: "ProxyLease \<Rightarrow> ProxyFeedback \<Rightarrow> ProxyDirectory \<Rightarrow> ProxyDirectory" where
  "proxyFeedback lease result d =
    (let key = \<lparr>bk_affinity = leaseAffinity lease, bk_host = leaseClearanceHost lease\<rparr>;
         d = (if pf_kind result = ProxyFeedbackChallenge \<or> pf_kind result = ProxyFeedbackUnauthorized
              then (case fmlookup (pd_bundles d) key of
                      Some b \<Rightarrow> d\<lparr>pd_bundles := fmupd key (invalidateBundle b) (pd_bundles d)\<rparr>
                    | None \<Rightarrow> d)
              else d)
     in if pd_egress d = EgressModeProxyPool \<and> HasProxy lease \<and> rotatesPool (pf_kind result)
        then d\<lparr>pd_cursor := pd_cursor d + 1\<rparr> else d)"

text \<open>No node stands for a request without a proxy.\<close>

definition pickProxyURL :: "bool \<Rightarrow> ProxyDirectory \<Rightarrow> string option" where
  "pickProxyURL resource d =
    (let nodes = (if resource \<and> pd_resource d \<noteq> [] then pd_resource d else pd_nodes d)
     in if pd_egress d = EgressModeDirect \<or> nodes = [] then None
        else if pd_egress d = EgressModeSingleProxy then en_url (nodes ! 0)
        else en_url (nodes ! nat (truncMod (pd_cursor d) (int (length nodes)))))"

section \<open>The circuit breaker\<close>

record BackoffConfig =
  bc_base :: int
  bc_maxFails :: int
  bc_multiplier :: rat
  bc_max :: int
  bc_halfOpen :: int

definition backoffConfig :: "ProxyConfig \<Rightarrow> BackoffConfig" where
  "backoffConfig cfg =
    (case pc_float cfg of
       None \<Rightarrow> \<lparr>bc_base = 300, bc_maxFails = 5, bc_multiplier = 2, bc_max = 3600, bc_halfOpen = 30\<rparr>
     | Some getFloat \<Rightarrow>
         let baseSec = max 1 (pc_int cfg ''proxy.clearance.failure_cooldown_sec'' 300)
         in \<lparr>bc_base = baseSec,
             bc_maxFails = max 1 (pc_int cfg ''proxy.clearance.max_consecutive_failures'' 5),
             bc_multiplier = max 1 (getFloat ''proxy.clearance.backoff_multiplier'' 2),
             bc_max = max baseSec (pc_int cfg ''proxy.clearance.max_cooldown_sec'' 3600),
             bc_halfOpen = max 1 (pc_int cfg ''proxy.clearance.half_open_probe_sec'' 30)\<rparr>)"

text \<open>The cooldown after the \<open>n\<close>-th failure in a row, in milliseconds; the products are rounded to \<open>float64\<close>.\<close>

definition cooldownMS :: "(rat \<Rightarrow> int \<Rightarrow> rat) \<Rightarrow> BackoffConfig \<Rightarrow> int \<Rightarrow> int" where
  "cooldownMS pow cfg n =
    (let sec = (if n \<ge> bc_maxFails cfg then of_int (bc_halfOpen cfg)
                else min (of_int (bc_max cfg)) (fl (of_int (bc_base cfg) * pow (bc_multiplier cfg) (n - 1))))
     in truncRat (fl (sec * 1000)))"

definition failuresOf :: "BundleKey \<Rightarrow> ProxyDirectory \<Rightarrow> int" where
  "failuresOf key d = (case fmlookup (pd_fails d) key of None \<Rightarrow> 0 | Some n \<Rightarrow> n)"

definition cooldownBundleLocked ::
    "int \<Rightarrow> BundleKey \<Rightarrow> ClearanceBundle option \<Rightarrow> ProxyDirectory \<Rightarrow> ClearanceBundle option \<times> ProxyDirectory" where
  "cooldownBundleLocked now key bundle d =
    (case fmlookup (pd_until d) key of
       None \<Rightarrow> (None, d)
     | Some until1 \<Rightarrow>
         if until1 = 0 then (None, d)
         else if until1 \<le> now then (None, d\<lparr>pd_until := fmdrop key (pd_until d)\<rparr>)
         else (case bundle of
           None \<Rightarrow> (None, d)
         | Some b \<Rightarrow>
             if cb_cookies b = '''' \<or> cb_agent b = '''' then (None, d)
             else if cb_state b = ClearanceBundleInvalid
             then let demoted = b\<lparr>cb_state := ClearanceBundleStale\<rparr>
                  in (Some demoted, d\<lparr>pd_bundles := fmupd key demoted (pd_bundles d)\<rparr>)
             else (Some b, d)))"

definition recordRefreshFailureLocked ::
    "ProxyEnv \<Rightarrow> int \<Rightarrow> BundleKey \<Rightarrow> ProxyDirectory \<Rightarrow> ClearanceBundle option \<times> ProxyDirectory" where
  "recordRefreshFailureLocked env now key d =
    (let n = failuresOf key d + 1;
         d = d\<lparr>pd_fails := fmupd key n (pd_fails d)\<rparr>;
         ms = cooldownMS (px_pow env) (backoffConfig (px_config env)) n;
         d = (if ms > 0 then d\<lparr>pd_until := fmupd key (now + ms) (pd_until d)\<rparr> else d)
     in cooldownBundleLocked now key (fmlookup (pd_bundles d) key) d)"

definition recordRefreshSuccessLocked :: "BundleKey \<Rightarrow> ProxyDirectory \<Rightarrow> ProxyDirectory" where
  "recordRefreshSuccessLocked key d =
    d\<lparr>pd_fails := fmdrop key (pd_fails d), pd_until := fmdrop key (pd_until d)\<rparr>"

section \<open>Refreshing a bundle\<close>

text \<open>What a caller does next: go on without clearance, use a bundle, give up during a cooldown, wait for
  the refresh of another caller, or refresh.\<close>

datatype RefreshState = NoClearance | UseBundle ClearanceBundle | Suppressed | WaitFor nat | BuildAs nat

text \<open>The part of \<open>bundleRefreshState\<close> after the check for a valid bundle.\<close>

definition startRefresh ::
    "int \<Rightarrow> BundleKey \<Rightarrow> ClearanceBundle option \<Rightarrow> ProxyDirectory \<Rightarrow> RefreshState \<times> ProxyDirectory" where
  "startRefresh now key current d =
    (case cooldownBundleLocked now key current d of
       (Some fallback, d1) \<Rightarrow> (UseBundle fallback, d1)
     | (None, d1) \<Rightarrow>
         if (case fmlookup (pd_until d1) key of None \<Rightarrow> False | Some until1 \<Rightarrow> until1 > now) then (Suppressed, d1)
         else (case fmlookup (pd_events d1) key of
           Some ev \<Rightarrow> (WaitFor ev, d1)
         | None \<Rightarrow> (BuildAs (pd_next d1),
             d1\<lparr>pd_events := fmupd key (pd_next d1) (pd_events d1), pd_next := pd_next d1 + 1\<rparr>)))"

definition bundleRefreshState :: "int \<Rightarrow> BundleKey \<Rightarrow> ProxyDirectory \<Rightarrow> RefreshState \<times> ProxyDirectory" where
  "bundleRefreshState now key d =
    (if pd_clearance d = ClearanceModeNone then (NoClearance, d)
     else case fmlookup (pd_bundles d) key of
       Some b \<Rightarrow>
         if cb_state b = ClearanceBundleValid then (UseBundle b, d) else startRefresh now key (Some b) d
     | None \<Rightarrow> startRefresh now key None d)"

definition configManualBuild :: "ProxyConfig \<Rightarrow> string \<Rightarrow> string \<Rightarrow> solved" where
  "configManualBuild cfg affinityKey host =
    (case parseClearanceModeString (pc_str cfg ''proxy.clearance.mode'' ''none'') of
       Inl e \<Rightarrow> (zeroBundle, False, Some e)
     | Inr mode \<Rightarrow>
         if mode \<noteq> ClearanceModeManual then (zeroBundle, False, None)
         else let host = (if host \<noteq> '''' then host else ''grok.com'');
                  cc = ResolveClearanceConfig (pc_str cfg)
              in ((NewClearanceBundle (''manual:'' @ affinityKey @ ''@'' @ host))\<lparr>cb_cookies := cc_cookies cc,
                    cb_agent := cc_agent cc, cb_affinity := affinityKey, cb_host := host\<rparr>, True, None))"

definition solve :: "(string \<Rightarrow> string \<Rightarrow> string \<Rightarrow> solved) option \<Rightarrow> string \<Rightarrow> string \<Rightarrow> string \<Rightarrow> solved" where
  "solve provider affinity proxyURL origin =
    (case provider of None \<Rightarrow> (zeroBundle, False, None) | Some f \<Rightarrow> f affinity proxyURL origin)"

definition refreshBundle :: "ProxyEnv \<Rightarrow> ClearanceMode \<Rightarrow> BundleKey \<Rightarrow> string \<Rightarrow> string \<Rightarrow> solved" where
  "refreshBundle env mode key proxyURL origin =
    (let affinity = bk_affinity key; host = bk_host key;
         (b, ok, err) =
           (case mode of
              ClearanceModeManual \<Rightarrow>
                (case px_manual env of None \<Rightarrow> configManualBuild (px_config env) affinity host | Some f \<Rightarrow> f affinity host)
            | ClearanceModeByparr \<Rightarrow> solve (px_byparr env) affinity proxyURL origin
            | _ \<Rightarrow> solve (px_flare env) affinity proxyURL origin)
     in if err \<noteq> None \<or> \<not> ok then (b, ok, err)
        else let b = (if cb_affinity b = '''' then b\<lparr>cb_affinity := affinity\<rparr> else b);
                 b = (if cb_host b = '''' then b\<lparr>cb_host := host\<rparr> else b)
             in (b, True, None))"

definition recordSuccessfulBundleRefresh ::
    "int \<Rightarrow> BundleKey \<Rightarrow> ClearanceBundle \<Rightarrow> ProxyDirectory \<Rightarrow> ClearanceBundle \<times> ProxyDirectory" where
  "recordSuccessfulBundleRefresh now key b d =
    (let b = b\<lparr>cb_lastRefresh := Some now, cb_error := ''''\<rparr>;
         b = b\<lparr>cb_count := (case fmlookup (pd_bundles d) key of Some old \<Rightarrow> cb_count old | None \<Rightarrow> cb_count b) + 1\<rparr>
     in (b, recordRefreshSuccessLocked key (d\<lparr>pd_bundles := fmupd key b (pd_bundles d)\<rparr>)))"

definition noteRefreshError :: "BundleKey \<Rightarrow> ClearanceBundle \<Rightarrow> ProxyDirectory \<Rightarrow> ProxyDirectory" where
  "noteRefreshError key b d =
    (let b = (if cb_affinity b = '''' then b\<lparr>cb_affinity := bk_affinity key\<rparr> else b);
         b = (if cb_host b = '''' then b\<lparr>cb_host := bk_host key\<rparr> else b);
         b = invalidateBundle b
     in case fmlookup (pd_bundles d) key of
          Some old \<Rightarrow> d\<lparr>pd_bundles := fmupd key (old\<lparr>cb_error := cb_error b\<rparr>) (pd_bundles d)\<rparr>
        | None \<Rightarrow> d\<lparr>pd_bundles := fmupd key b (pd_bundles d)\<rparr>)"

definition recordBundleRefreshFailure ::
    "ProxyEnv \<Rightarrow> int \<Rightarrow> BundleKey \<Rightarrow> ClearanceBundle \<Rightarrow> ProxyDirectory \<Rightarrow> ProxyDirectory" where
  "recordBundleRefreshFailure env now key b d =
    snd (recordRefreshFailureLocked env now key (if cb_error b = '''' then d else noteRefreshError key b d))"

text \<open>What the winner of a refresh records of the solver's answer, and what it returns.\<close>

definition winnerRecord ::
    "ProxyEnv \<Rightarrow> int \<Rightarrow> BundleKey \<Rightarrow> solved \<Rightarrow> ProxyDirectory \<Rightarrow> (goerr + ClearanceBundle option) \<times> ProxyDirectory" where
  "winnerRecord env now key answer d =
    (case answer of
       (b, ok, Some e) \<Rightarrow> (Inl e, d)
     | (b, ok, None) \<Rightarrow>
         if \<not> ok then (case recordRefreshFailureLocked env now key d of (fallback, d1) \<Rightarrow> (Inr fallback, d1))
         else (case recordSuccessfulBundleRefresh now key b d of (out, d1) \<Rightarrow> (Inr (Some out), d1)))"

definition finishRefresh :: "BundleKey \<Rightarrow> ProxyDirectory \<Rightarrow> ProxyDirectory" where
  "finishRefresh key d = d\<lparr>pd_events := fmdrop key (pd_events d)\<rparr>"

definition buildBundleAsWinner ::
    "ProxyEnv \<Rightarrow> int \<Rightarrow> ClearanceMode \<Rightarrow> BundleKey \<Rightarrow> string \<Rightarrow> string \<Rightarrow> ProxyDirectory \<Rightarrow>
     (goerr + ClearanceBundle option) \<times> ProxyDirectory" where
  "buildBundleAsWinner env now mode key proxyURL origin d =
    (case winnerRecord env now key (refreshBundle env mode key proxyURL origin) d of
       (r, d1) \<Rightarrow> (r, finishRefresh key d1))"

text \<open>A caller alone: no result stands for waiting on another caller, which the step relation models.
  \<open>now\<close> is the time of the request, \<open>later\<close> the time of the solver's answer.\<close>

definition getOrBuildBundle ::
    "ProxyEnv \<Rightarrow> int \<Rightarrow> int \<Rightarrow> string \<Rightarrow> string \<Rightarrow> string \<Rightarrow> ProxyDirectory \<Rightarrow>
     ((goerr + ClearanceBundle option) \<times> ProxyDirectory) option" where
  "getOrBuildBundle env now later affinityKey proxyURL origin d =
    (let key = \<lparr>bk_affinity = affinityKey, bk_host = clearanceHost (px_host env) origin\<rparr>
     in case bundleRefreshState now key d of
          (NoClearance, d1) \<Rightarrow> Some (Inr None, d1)
        | (UseBundle b, d1) \<Rightarrow> Some (Inr (Some b), d1)
        | (Suppressed, d1) \<Rightarrow> Some (Inr None, d1)
        | (WaitFor ev, d1) \<Rightarrow> None
        | (BuildAs ev, d1) \<Rightarrow> Some (buildBundleAsWinner env later (pd_clearance d1) key proxyURL origin d1))"

record AcquireOptions =
  aq_scope :: "ProxyScope option"
  aq_kind :: "RequestKind option"
  aq_resource :: bool
  aq_origin :: string

definition leaseOf :: "ProxyEnv \<Rightarrow> int \<Rightarrow> AcquireOptions \<Rightarrow> string \<Rightarrow> string option \<Rightarrow> ClearanceBundle option \<Rightarrow> ProxyLease" where
  "leaseOf env later o1 origin proxyURL bundle =
    (let l = (NewProxyLease (px_id env))\<lparr>pl_url := proxyURL, pl_host := clearanceHost (px_host env) origin,
           pl_scope := (case aq_scope o1 of None \<Rightarrow> ProxyScopeApp | Some s \<Rightarrow> s),
           pl_kind := (case aq_kind o1 of None \<Rightarrow> RequestKindHTTP | Some k \<Rightarrow> k), pl_acquired := later\<rparr>
     in case bundle of
          None \<Rightarrow> l
        | Some b \<Rightarrow> l\<lparr>pl_cookies := cb_cookies b, pl_agent := cb_agent b\<rparr>)"

definition AcquireProxy ::
    "ProxyEnv \<Rightarrow> int \<Rightarrow> int \<Rightarrow> AcquireOptions \<Rightarrow> ProxyDirectory \<Rightarrow> ((goerr + ProxyLease) \<times> ProxyDirectory) option" where
  "AcquireProxy env now later o1 d =
    (let proxyURL = pickProxyURL (aq_resource o1) d;
         affinity = (case proxyURL of None \<Rightarrow> ''direct'' | Some u \<Rightarrow> u);
         proxyValue = (case proxyURL of None \<Rightarrow> '''' | Some u \<Rightarrow> u);
         origin = (if aq_origin o1 = '''' then px_base env else aq_origin o1)
     in case getOrBuildBundle env now later affinity proxyValue origin d of
          None \<Rightarrow> None
        | Some (Inl e, d1) \<Rightarrow> Some (Inl e, d1)
        | Some (Inr bundle, d1) \<Rightarrow> Some (Inr (leaseOf env later o1 origin proxyURL bundle), d1))"

section \<open>The scheduled refresh\<close>

definition InvalidateClearance :: "ProxyDirectory \<Rightarrow> ProxyDirectory" where
  "InvalidateClearance d = d\<lparr>pd_bundles := fmmap invalidateBundle (pd_bundles d)\<rparr>"

definition affinityItems :: "EgressNode list \<Rightarrow> (string \<times> string) list" where
  "affinityItems nodes =
    (if nodes = [] then [(''direct'', '''')]
     else map (\<lambda>n. if nonEmptyURL (en_url n) then (the (en_url n), the (en_url n)) else (''direct'', '''')) nodes)"

fun warmUpItems ::
    "ProxyEnv \<Rightarrow> int \<Rightarrow> int \<Rightarrow> (string \<times> string) list \<Rightarrow> ProxyDirectory \<Rightarrow> (goerr option \<times> ProxyDirectory) option" where
  "warmUpItems env now later [] d = Some (None, d)"
| "warmUpItems env now later ((affinity, proxyURL) # items) d =
    (case getOrBuildBundle env now later affinity proxyURL defaultClearanceOrigin d of
       None \<Rightarrow> None
     | Some (Inl e, d1) \<Rightarrow> Some (Some e, d1)
     | Some (Inr _, d1) \<Rightarrow> warmUpItems env now later items d1)"

definition WarmUp :: "ProxyEnv \<Rightarrow> int \<Rightarrow> int \<Rightarrow> ProxyDirectory \<Rightarrow> (goerr option \<times> ProxyDirectory) option" where
  "WarmUp env now later d =
    (if pd_clearance d = ClearanceModeNone then Some (None, d)
     else warmUpItems env now later (affinityItems (pd_nodes d)) d)"

text \<open>The bundles to refresh, each with its proxy and origin: those of the nodes and those in the cache.\<close>

definition nodeTargets :: "ProxyEnv \<Rightarrow> EgressNode list \<Rightarrow> (BundleKey, string \<times> string) fmap" where
  "nodeTargets env nodes =
    fold (\<lambda>(affinity, proxyURL) m. fmupd \<lparr>bk_affinity = affinity, bk_host = clearanceHost (px_host env) defaultClearanceOrigin\<rparr>
        (proxyURL, defaultClearanceOrigin) m) (affinityItems nodes) fmempty"

definition addTarget :: "BundleKey \<Rightarrow> (BundleKey, string \<times> string) fmap \<Rightarrow> (BundleKey, string \<times> string) fmap" where
  "addTarget key targets =
    (if fmlookup targets key \<noteq> None then targets
     else fmupd key (if bk_affinity key = ''direct'' then '''' else bk_affinity key, ''https://'' @ bk_host key) targets)"

definition refreshTargets :: "ProxyEnv \<Rightarrow> EgressNode list \<Rightarrow> BundleKey list \<Rightarrow> (BundleKey, string \<times> string) fmap" where
  "refreshTargets env nodes existing = fold addTarget existing (nodeTargets env nodes)"

fun refreshAllTargets ::
    "ProxyEnv \<Rightarrow> int \<Rightarrow> ClearanceMode \<Rightarrow> (BundleKey \<Rightarrow> bool) \<Rightarrow> (BundleKey, string \<times> string) fmap \<Rightarrow> BundleKey list \<Rightarrow>
     ProxyDirectory \<Rightarrow> goerr option \<times> ProxyDirectory" where
  "refreshAllTargets env now mode skip targets [] d = (None, d)"
| "refreshAllTargets env now mode skip targets (key # keys) d =
    (if skip key then refreshAllTargets env now mode skip targets keys d
     else case fmlookup targets key of
       None \<Rightarrow> refreshAllTargets env now mode skip targets keys d
     | Some (proxyURL, origin) \<Rightarrow>
         (case refreshBundle env mode key proxyURL origin of
            (b, ok, Some e) \<Rightarrow> (Some e, d)
          | (b, ok, None) \<Rightarrow>
              refreshAllTargets env now mode skip targets keys
                (if ok then snd (recordSuccessfulBundleRefresh now key b d) else recordBundleRefreshFailure env now key b d)))"

text \<open>\<open>iter\<close> is the order in which Go ranges over the keys of a map.\<close>

definition refreshClearance ::
    "ProxyEnv \<Rightarrow> (BundleKey fset \<Rightarrow> BundleKey list) \<Rightarrow> int \<Rightarrow> (BundleKey \<Rightarrow> bool) \<Rightarrow> ProxyDirectory \<Rightarrow> goerr option \<times> ProxyDirectory" where
  "refreshClearance env iter now skip d =
    (if pd_clearance d = ClearanceModeNone then (None, d)
     else let targets = refreshTargets env (pd_nodes d) (iter (fmdom (pd_bundles d)))
          in refreshAllTargets env now (pd_clearance d) skip targets (iter (fmdom targets)) d)"

end
