(* ===== verification/ProxyRefresh.thy ===== *)
theory ProxyRefresh
  imports ProxyDirectory
begin

text \<open>
  Concurrent callers of \<open>getOrBuildBundle\<close> (\<open>proxy_lifecycle.go\<close>) as a step relation: every section
  under the lock is a step, so is the answer of the solver and the closing of a channel. The callers share one
  refresh of a key; no caller waits on a channel that nobody will close.
\<close>

section \<open>Steps\<close>

text \<open>Where a caller is: about to look at the state (\<open>Asking\<close>), blocked on a channel, running the solver,
  done recording (\<open>Closing\<close>), after the removal of its event (\<open>Leaving\<close>), or back.\<close>

datatype Caller =
    Asking BundleKey
  | Waiting BundleKey nat
  | Fetching BundleKey nat ClearanceMode
  | Closing BundleKey nat "goerr + ClearanceBundle option"
  | Leaving BundleKey nat "goerr + ClearanceBundle option"
  | Returned "goerr + ClearanceBundle option"

record RefreshSystem =
  ys_dir :: ProxyDirectory
  ys_callers :: "nat \<Rightarrow> Caller option"
  ys_closed :: "nat set"

fun afterState :: "BundleKey \<Rightarrow> ClearanceMode \<Rightarrow> RefreshState \<Rightarrow> Caller" where
  "afterState key mode NoClearance = Returned (Inr None)"
| "afterState key mode (UseBundle b) = Returned (Inr (Some b))"
| "afterState key mode Suppressed = Returned (Inr None)"
| "afterState key mode (WaitFor ev) = Waiting key ev"
| "afterState key mode (BuildAs ev) = Fetching key ev mode"

definition setCaller :: "nat \<Rightarrow> Caller \<Rightarrow> ProxyDirectory \<Rightarrow> RefreshSystem \<Rightarrow> RefreshSystem" where
  "setCaller t c d s = s\<lparr>ys_dir := d, ys_callers := (ys_callers s)(t \<mapsto> c)\<rparr>"

lemma setCaller_simps [simp]:
  "ys_dir (setCaller t c d s) = d"
  "ys_callers (setCaller t c d s) = (ys_callers s)(t \<mapsto> c)"
  "ys_closed (setCaller t c d s) = ys_closed s"
  by (simp_all add: setCaller_def)

inductive caller_step :: "ProxyEnv \<Rightarrow> RefreshSystem \<Rightarrow> RefreshSystem \<Rightarrow> bool" for env where
  ask: "ys_callers s t = Some (Asking key) \<Longrightarrow> bundleRefreshState now key (ys_dir s) = (st, d) \<Longrightarrow>
     caller_step env s (setCaller t (afterState key (pd_clearance d) st) d s)"
| answer: "ys_callers s t = Some (Fetching key ev mode) \<Longrightarrow> winnerRecord env now key reply (ys_dir s) = (r, d) \<Longrightarrow>
     caller_step env s (setCaller t (Closing key ev r) d s)"
| finish: "ys_callers s t = Some (Closing key ev r) \<Longrightarrow>
     caller_step env s (setCaller t (Leaving key ev r) (finishRefresh key (ys_dir s)) s)"
| close1: "ys_callers s t = Some (Leaving key ev r) \<Longrightarrow>
     caller_step env s ((setCaller t (Returned r) (ys_dir s) s)\<lparr>ys_closed := insert ev (ys_closed s)\<rparr>)"
| wake: "ys_callers s t = Some (Waiting key ev) \<Longrightarrow> ev \<in> ys_closed s \<Longrightarrow>
     caller_step env s (setCaller t (Asking key) (ys_dir s) s)"

text \<open>What happens beside the callers: new callers, cancelled ones, feedback, the scheduled refresh and the
  invalidation of all bundles.\<close>

inductive other_step :: "ProxyEnv \<Rightarrow> RefreshSystem \<Rightarrow> RefreshSystem \<Rightarrow> bool" for env where
  arrive: "ys_callers s t = None \<Longrightarrow> other_step env s (setCaller t (Asking key) (ys_dir s) s)"
| cancel: "ys_callers s t = Some (Waiting key ev) \<Longrightarrow>
     other_step env s (setCaller t (Returned (Inl ErrCancelled)) (ys_dir s) s)"
| feedback: "other_step env s (s\<lparr>ys_dir := proxyFeedback lease result (ys_dir s)\<rparr>)"
| invalidate: "other_step env s (s\<lparr>ys_dir := InvalidateClearance (ys_dir s)\<rparr>)"
| refreshed: "other_step env s (s\<lparr>ys_dir := snd (recordSuccessfulBundleRefresh now key b (ys_dir s))\<rparr>)"
| failed: "other_step env s (s\<lparr>ys_dir := recordBundleRefreshFailure env now key b (ys_dir s)\<rparr>)"

inductive reload_step :: "RefreshSystem \<Rightarrow> RefreshSystem \<Rightarrow> bool" where
  reload: "reload_step s (s\<lparr>ys_dir := snd (LoadProxies cfg (ys_dir s))\<rparr>)"

inductive_cases caller_stepE: "caller_step env s s'"
inductive_cases other_stepE: "other_step env s s'"
inductive_cases reload_stepE: "reload_step s s'"

definition startSystem :: "ProxyDirectory \<Rightarrow> RefreshSystem" where
  "startSystem d = \<lparr>ys_dir = d, ys_callers = Map.empty, ys_closed = {}\<rparr>"

section \<open>What the operations do to the events\<close>

lemma cooldown_frame [simp]:
  "pd_events (snd (cooldownBundleLocked now key b d)) = pd_events d"
  "pd_next (snd (cooldownBundleLocked now key b d)) = pd_next d"
  "pd_clearance (snd (cooldownBundleLocked now key b d)) = pd_clearance d"
  "pd_fails (snd (cooldownBundleLocked now key b d)) = pd_fails d"
  by (auto simp: cooldownBundleLocked_def Let_def split: option.split)

lemma failure_frame [simp]:
  "pd_events (snd (recordRefreshFailureLocked env now key d)) = pd_events d"
  "pd_next (snd (recordRefreshFailureLocked env now key d)) = pd_next d"
  "pd_clearance (snd (recordRefreshFailureLocked env now key d)) = pd_clearance d"
  by (simp_all add: recordRefreshFailureLocked_def Let_def)

lemma success_frame [simp]:
  "pd_events (snd (recordSuccessfulBundleRefresh now key b d)) = pd_events d"
  "pd_next (snd (recordSuccessfulBundleRefresh now key b d)) = pd_next d"
  "pd_clearance (snd (recordSuccessfulBundleRefresh now key b d)) = pd_clearance d"
  by (simp_all add: recordSuccessfulBundleRefresh_def recordRefreshSuccessLocked_def Let_def)

lemma note_frame [simp]:
  "pd_events (noteRefreshError key b d) = pd_events d" "pd_next (noteRefreshError key b d) = pd_next d"
  by (simp_all add: noteRefreshError_def Let_def split: option.split)

lemma bundleFailure_frame [simp]:
  "pd_events (recordBundleRefreshFailure env now key b d) = pd_events d"
  "pd_next (recordBundleRefreshFailure env now key b d) = pd_next d"
  by (simp_all add: recordBundleRefreshFailure_def)

lemma winner_events:
  "pd_events (snd (winnerRecord env now key reply d)) = pd_events d"
  "pd_next (snd (winnerRecord env now key reply d)) = pd_next d"
  by (simp_all add: winnerRecord_def case_prod_unfold split: option.split)

lemma winner_frame:
  "winnerRecord env now key reply d = (r, d1) \<Longrightarrow> pd_events d1 = pd_events d \<and> pd_next d1 = pd_next d"
  using winner_events [of env now key reply d] by simp

lemma feedback_frame [simp]:
  "pd_events (proxyFeedback lease result d) = pd_events d"
  "pd_next (proxyFeedback lease result d) = pd_next d"
  by (simp_all add: proxyFeedback_def Let_def split: option.split)

lemma invalidate_frame [simp]:
  "pd_events (InvalidateClearance d) = pd_events d" "pd_next (InvalidateClearance d) = pd_next d"
  by (simp_all add: InvalidateClearance_def)

lemma finish_frame [simp]:
  "pd_events (finishRefresh key d) = fmdrop key (pd_events d)" "pd_next (finishRefresh key d) = pd_next d"
  by (simp_all add: finishRefresh_def)

lemma load_frame:
  "pd_next (snd (LoadProxies cfg d)) = pd_next d"
  "fmlookup (pd_events (snd (LoadProxies cfg d))) key = Some ev \<Longrightarrow> fmlookup (pd_events d) key = Some ev"
  by (auto simp: LoadProxies_def loadSignature_def keepAffinities_def Let_def case_prod_unfold split: sum.splits if_splits)

text \<open>The events change only when a caller becomes the one that refreshes, and then the key had none.\<close>

lemma ask_frame:
  assumes "bundleRefreshState now key d = (st, d1)"
  shows "(\<forall>ev. st \<noteq> BuildAs ev) \<and> pd_events d1 = pd_events d \<and> pd_next d1 = pd_next d \<and>
      (\<forall>ev. st = WaitFor ev \<longrightarrow> fmlookup (pd_events d) key = Some ev)
    \<or> st = BuildAs (pd_next d) \<and> fmlookup (pd_events d) key = None \<and>
      pd_events d1 = fmupd key (pd_next d) (pd_events d) \<and> pd_next d1 = pd_next d + 1"
proof -
  have start: ?thesis if "startRefresh now key cur d = (st, d1)" for cur
    using that cooldown_frame(1,2) [of now key cur d]
    by (auto simp: startRefresh_def simp del: cooldown_frame split: prod.splits option.splits if_splits)
  show ?thesis
    using assms start
    by (auto simp: bundleRefreshState_def split: if_splits option.splits)
qed

section \<open>Invariants\<close>

text \<open>A caller holds a channel from the moment it wins until it has closed it, and its key until it has removed
  the event.\<close>

fun holds :: "Caller \<Rightarrow> nat \<Rightarrow> bool" where
  "holds (Fetching key ev mode) n \<longleftrightarrow> ev = n"
| "holds (Closing key ev r) n \<longleftrightarrow> ev = n"
| "holds (Leaving key ev r) n \<longleftrightarrow> ev = n"
| "holds _ n \<longleftrightarrow> False"

fun owns :: "Caller \<Rightarrow> BundleKey \<Rightarrow> nat \<Rightarrow> bool" where
  "owns (Fetching key ev mode) k n \<longleftrightarrow> key = k \<and> ev = n"
| "owns (Closing key ev r) k n \<longleftrightarrow> key = k \<and> ev = n"
| "owns _ k n \<longleftrightarrow> False"

lemma owns_holds: "owns c k n \<Longrightarrow> holds c n"
  by (cases c) auto

definition caller_holds :: "RefreshSystem \<Rightarrow> nat \<Rightarrow> nat \<Rightarrow> bool" where
  "caller_holds s t ev \<longleftrightarrow> (\<exists>c. ys_callers s t = Some c \<and> holds c ev)"

definition caller_owns :: "RefreshSystem \<Rightarrow> nat \<Rightarrow> BundleKey \<Rightarrow> nat \<Rightarrow> bool" where
  "caller_owns s t key ev \<longleftrightarrow> (\<exists>c. ys_callers s t = Some c \<and> owns c key ev)"

lemma owner_holds: "caller_owns s t key ev \<Longrightarrow> caller_holds s t ev"
  using owns_holds by (auto simp: caller_owns_def caller_holds_def)

text \<open>Channels are fresh, held by one caller, open while held; an event in the table belongs to a caller, and so
  does every channel somebody waits for, unless it is closed.\<close>

definition fresh_inv :: "RefreshSystem \<Rightarrow> bool" where
  "fresh_inv s \<longleftrightarrow> (\<forall>t ev. caller_holds s t ev \<longrightarrow> ev < pd_next (ys_dir s)) \<and>
     (\<forall>ev \<in> ys_closed s. ev < pd_next (ys_dir s))"

definition hold_inv :: "RefreshSystem \<Rightarrow> bool" where
  "hold_inv s \<longleftrightarrow> (\<forall>t t' ev. caller_holds s t ev \<longrightarrow> caller_holds s t' ev \<longrightarrow> t = t') \<and>
     (\<forall>t ev. caller_holds s t ev \<longrightarrow> ev \<notin> ys_closed s)"

definition event_inv :: "RefreshSystem \<Rightarrow> bool" where
  "event_inv s \<longleftrightarrow> (\<forall>key ev. fmlookup (pd_events (ys_dir s)) key = Some ev \<longrightarrow> (\<exists>t. caller_owns s t key ev))"

definition wait_inv :: "RefreshSystem \<Rightarrow> bool" where
  "wait_inv s \<longleftrightarrow> (\<forall>t key ev. ys_callers s t = Some (Waiting key ev) \<longrightarrow>
     ev \<in> ys_closed s \<or> (\<exists>t'. caller_holds s t' ev))"

definition flight_inv :: "RefreshSystem \<Rightarrow> bool" where
  "flight_inv s \<longleftrightarrow> fresh_inv s \<and> hold_inv s \<and> event_inv s \<and> wait_inv s"

text \<open>Without a reload the table names the channel of every caller that refreshes.\<close>

definition owner_inv :: "RefreshSystem \<Rightarrow> bool" where
  "owner_inv s \<longleftrightarrow> (\<forall>t key ev. caller_owns s t key ev \<longrightarrow> fmlookup (pd_events (ys_dir s)) key = Some ev)"

lemma holds_upd [simp]:
  "caller_holds (setCaller t c d s) t' ev \<longleftrightarrow> (if t' = t then holds c ev else caller_holds s t' ev)"
  "caller_owns (setCaller t c d s) t' key ev \<longleftrightarrow> (if t' = t then owns c key ev else caller_owns s t' key ev)"
  "caller_holds (s\<lparr>ys_closed := cl\<rparr>) t' ev \<longleftrightarrow> caller_holds s t' ev"
  "caller_owns (s\<lparr>ys_closed := cl\<rparr>) t' key ev \<longleftrightarrow> caller_owns s t' key ev"
  "caller_holds (s\<lparr>ys_dir := d\<rparr>) t' ev \<longleftrightarrow> caller_holds s t' ev"
  "caller_owns (s\<lparr>ys_dir := d\<rparr>) t' key ev \<longleftrightarrow> caller_owns s t' key ev"
  by (auto simp: caller_holds_def caller_owns_def)

lemma holds_at: "ys_callers s t = Some c \<Longrightarrow> caller_holds s t ev \<longleftrightarrow> holds c ev"
  "ys_callers s t = Some c \<Longrightarrow> caller_owns s t key ev \<longleftrightarrow> owns c key ev"
  by (auto simp: caller_holds_def caller_owns_def)

lemmas flight_defs = flight_inv_def fresh_inv_def hold_inv_def event_inv_def wait_inv_def

lemma flightD:
  assumes "flight_inv s"
  shows "caller_holds s t ev \<Longrightarrow> ev < pd_next (ys_dir s)"
    and "ev \<in> ys_closed s \<Longrightarrow> ev < pd_next (ys_dir s)"
    and "caller_holds s t ev \<Longrightarrow> caller_holds s t' ev \<Longrightarrow> t = t'"
    and "caller_holds s t ev \<Longrightarrow> ev \<notin> ys_closed s"
    and "fmlookup (pd_events (ys_dir s)) key = Some ev \<Longrightarrow> \<exists>t. caller_owns s t key ev"
    and "ys_callers s t = Some (Waiting key ev) \<Longrightarrow> ev \<in> ys_closed s \<or> (\<exists>t'. caller_holds s t' ev)"
  using assms unfolding flight_defs by blast+

text \<open>A caller that neither gains nor loses a channel, over an unchanged table.\<close>

lemma quiet_step:
  assumes "flight_inv s" "pd_events d = pd_events (ys_dir s)" "pd_next d = pd_next (ys_dir s)"
    and "\<And>ev. holds c ev \<longleftrightarrow> caller_holds s t ev" "\<And>key ev. owns c key ev \<longleftrightarrow> caller_owns s t key ev"
    and "\<And>key ev. c = Waiting key ev \<Longrightarrow> ev \<in> ys_closed s \<or> (\<exists>t'. caller_holds s t' ev)"
  shows "flight_inv (setCaller t c d s) \<and> (owner_inv s \<longrightarrow> owner_inv (setCaller t c d s))"
proof -
  have same: "caller_holds (setCaller t c d s) t' ev = caller_holds s t' ev"
    "caller_owns (setCaller t c d s) t' key ev = caller_owns s t' key ev" for t' key ev
    using assms(4,5) by simp_all
  have "wait_inv (setCaller t c d s)"
    using assms(1,6) unfolding wait_inv_def same by (auto simp: flight_defs)
  then show ?thesis
    using assms(1-3) by (simp only: flight_inv_def fresh_inv_def hold_inv_def event_inv_def owner_inv_def same setCaller_simps) blast
qed

lemma quiet_dir:
  assumes "flight_inv s" "pd_events d = pd_events (ys_dir s)" "pd_next d = pd_next (ys_dir s)"
  shows "flight_inv (s\<lparr>ys_dir := d\<rparr>) \<and> (owner_inv s \<longrightarrow> owner_inv (s\<lparr>ys_dir := d\<rparr>))"
  using assms by (simp add: flight_defs owner_inv_def)

text \<open>A caller that wins the refresh of a key.\<close>

lemma win_step:
  assumes "flight_inv s" "fmlookup (pd_events (ys_dir s)) key = None" "\<And>ev. \<not> caller_holds s t ev"
    and "pd_events d = fmupd key (pd_next (ys_dir s)) (pd_events (ys_dir s))" "pd_next d = pd_next (ys_dir s) + 1"
    and "c = Fetching key (pd_next (ys_dir s)) mode"
  shows "flight_inv (setCaller t c d s) \<and> (owner_inv s \<longrightarrow> owner_inv (setCaller t c d s))"
proof -
  let ?n = "pd_next (ys_dir s)" and ?s = "setCaller t c d s"
  have old: "ev < ?n" if "caller_holds s t' ev" for t' ev using assms(1) that by (auto simp: flight_defs)
  have closed: "ev < ?n" if "ev \<in> ys_closed s" for ev using assms(1) that by (auto simp: flight_defs)
  have other: "t' \<noteq> t" if "caller_holds s t' ev" for t' ev using that assms(3) by blast
  have fresh: "fresh_inv ?s" using old closed by (auto simp: fresh_inv_def assms(5,6) less_Suc_eq split: if_splits)
  have hold: "hold_inv ?s"
    using assms(1) old closed by (fastforce simp: flight_defs assms(6) split: if_splits)
  have event: "event_inv ?s"
    unfolding event_inv_def
  proof (intro allI impI)
    fix k ev assume "fmlookup (pd_events (ys_dir ?s)) k = Some ev"
    then have "(if k = key then Some ?n else fmlookup (pd_events (ys_dir s)) k) = Some ev"
      by (cases "k = key") (simp_all add: assms(4))
    then consider "k = key" "ev = ?n" | "fmlookup (pd_events (ys_dir s)) k = Some ev" by (metis option.inject)
    then show "\<exists>t'. caller_owns ?s t' k ev"
    proof cases
      case 1
      then show ?thesis by (auto simp: assms(6))
    next
      case 2
      then obtain t' where "caller_owns s t' k ev" using flightD(5) [OF assms(1)] by blast
      then show ?thesis using other [OF owner_holds] by (intro exI [of _ t']) auto
    qed
  qed
  have wait: "wait_inv ?s"
    unfolding wait_inv_def
  proof (intro allI impI)
    fix u k ev assume "ys_callers ?s u = Some (Waiting k ev)"
    then have "ys_callers s u = Some (Waiting k ev)" by (auto simp: assms(6) split: if_splits)
    then have "ev \<in> ys_closed s \<or> (\<exists>t'. caller_holds s t' ev)" by (rule flightD(6) [OF assms(1)])
    then show "ev \<in> ys_closed ?s \<or> (\<exists>t'. caller_holds ?s t' ev)" using other by fastforce
  qed
  have "owner_inv ?s" if "owner_inv s"
    using that assms(2) by (auto simp: owner_inv_def assms(4,6) split: if_splits)
  then show ?thesis using fresh hold event wait by (simp add: flight_inv_def)
qed

text \<open>A caller that has removed its event.\<close>

lemma finish_step:
  assumes "flight_inv s" "ys_callers s t = Some (Closing key ev r)"
  shows "flight_inv (setCaller t (Leaving key ev r) (finishRefresh key (ys_dir s)) s) \<and>
    (owner_inv s \<longrightarrow> owner_inv (setCaller t (Leaving key ev r) (finishRefresh key (ys_dir s)) s))"
proof -
  let ?s = "setCaller t (Leaving key ev r) (finishRefresh key (ys_dir s)) s"
  have me: "caller_holds s t n \<longleftrightarrow> n = ev" "caller_owns s t k n \<longleftrightarrow> k = key \<and> n = ev" for k n
    using holds_at [OF assms(2)] by auto
  have same: "caller_holds ?s t' n = caller_holds s t' n" for t' n using me by auto
  have "event_inv ?s"
    unfolding event_inv_def
  proof (intro allI impI)
    fix k n assume "fmlookup (pd_events (ys_dir ?s)) k = Some n"
    then have k: "k \<noteq> key" "fmlookup (pd_events (ys_dir s)) k = Some n" by (auto split: if_splits)
    then obtain t' where "caller_owns s t' k n" using flightD(5) [OF assms(1)] by blast
    then show "\<exists>t'. caller_owns ?s t' k n" using k(1) me(2) by (intro exI [of _ t']) auto
  qed
  moreover have "wait_inv ?s"
    using assms(1) unfolding wait_inv_def same by (auto simp: flight_defs split: if_splits)
  moreover have "fresh_inv ?s" "hold_inv ?s"
    using assms(1) unfolding fresh_inv_def hold_inv_def same by (simp_all add: flight_defs)
  moreover have "owner_inv ?s" if "owner_inv s"
    unfolding owner_inv_def
  proof (intro allI impI)
    fix t' k n assume own: "caller_owns ?s t' k n"
    then have "t' \<noteq> t" "caller_owns s t' k n" by (auto split: if_splits)
    moreover have "k \<noteq> key"
    proof
      assume "k = key"
      then have "n = ev" using \<open>owner_inv s\<close> calculation(2) me(2) by (metis option.inject owner_inv_def)
      then show False
        using flightD(3) [OF assms(1)] calculation me(1) owner_holds by blast
    qed
    ultimately show "fmlookup (pd_events (ys_dir ?s)) k = Some n" using that by (simp add: owner_inv_def)
  qed
  ultimately show ?thesis by (simp add: flight_inv_def)
qed

text \<open>A caller that closes its channel.\<close>

lemma close_step:
  assumes "flight_inv s" "ys_callers s t = Some (Leaving key ev r)"
  defines "s' \<equiv> (setCaller t (Returned r) (ys_dir s) s)\<lparr>ys_closed := insert ev (ys_closed s)\<rparr>"
  shows "flight_inv s' \<and> (owner_inv s \<longrightarrow> owner_inv s')"
proof -
  have me: "caller_holds s t n \<longleftrightarrow> n = ev" "\<not> caller_owns s t k n" for k n using holds_at [OF assms(2)] by auto
  have hold: "caller_holds s' t' n \<longleftrightarrow> t' \<noteq> t \<and> caller_holds s t' n" "caller_owns s' t' k n = caller_owns s t' k n" for t' k n
    using me by (auto simp: s'_def)
  have parts: "ys_closed s' = insert ev (ys_closed s)" "ys_dir s' = ys_dir s"
    "ys_callers s' = (ys_callers s)(t \<mapsto> Returned r)"
    by (simp_all add: s'_def)
  have "wait_inv s'"
    unfolding wait_inv_def
  proof (intro allI impI)
    fix u k n assume "ys_callers s' u = Some (Waiting k n)"
    then have "ys_callers s u = Some (Waiting k n)" by (auto simp: parts split: if_splits)
    then have "n \<in> ys_closed s \<or> (\<exists>t'. caller_holds s t' n)" by (rule flightD(6) [OF assms(1)])
    then show "n \<in> ys_closed s' \<or> (\<exists>t'. caller_holds s' t' n)" using me(1) hold(1) parts(1) by blast
  qed
  moreover have "fresh_inv s'"
    using flightD(1,2) [OF assms(1)] me(1) unfolding fresh_inv_def hold parts by blast
  moreover have "hold_inv s'"
    using flightD(3,4) [OF assms(1)] me(1) unfolding hold_inv_def hold parts by blast
  moreover have "event_inv s'" using flightD(5) [OF assms(1)] unfolding event_inv_def hold parts by blast
  moreover have "owner_inv s \<longrightarrow> owner_inv s'" unfolding owner_inv_def hold parts by blast
  ultimately show ?thesis by (simp add: flight_inv_def)
qed

lemma caller_step_keeps:
  assumes "caller_step env s s'" "flight_inv s"
  shows "flight_inv s' \<and> (owner_inv s \<longrightarrow> owner_inv s')"
  using assms(1)
proof cases
  case (ask t key now st d)
  note none = holds_at [OF ask(2)]
  consider "\<forall>ev. st \<noteq> BuildAs ev" "pd_events d = pd_events (ys_dir s)" "pd_next d = pd_next (ys_dir s)"
      "\<And>ev. st = WaitFor ev \<Longrightarrow> fmlookup (pd_events (ys_dir s)) key = Some ev"
    | "st = BuildAs (pd_next (ys_dir s))" "fmlookup (pd_events (ys_dir s)) key = None"
      "pd_events d = fmupd key (pd_next (ys_dir s)) (pd_events (ys_dir s))" "pd_next d = pd_next (ys_dir s) + 1"
    using ask_frame [OF ask(3)] by metis
  then show ?thesis
  proof cases
    case 1
    have "ev \<in> ys_closed s \<or> (\<exists>t'. caller_holds s t' ev)" if "st = WaitFor ev" for ev
      using flightD(5) [OF assms(2) 1(4) [OF that]] owner_holds by blast
    then show ?thesis
      unfolding ask(1) using 1 none by (intro quiet_step [OF assms(2)]) (cases st; simp)+
  next
    case 2
    then show ?thesis unfolding ask(1) using none by (intro win_step [OF assms(2)]) simp_all
  qed
next
  case (answer t key ev mode now reply r d)
  show ?thesis
    unfolding answer(1) using winner_frame [OF answer(3)] holds_at [OF answer(2)]
    by (intro quiet_step [OF assms(2)]) auto
next
  case (finish t key ev r)
  then show ?thesis using finish_step [OF assms(2)] by blast
next
  case (close1 t key ev r)
  then show ?thesis using close_step [OF assms(2)] by blast
next
  case (wake t key ev)
  show ?thesis
    unfolding wake(1) using holds_at [OF wake(2)] by (intro quiet_step [OF assms(2)]) auto
qed

lemma other_step_keeps:
  assumes "other_step env s s'" "flight_inv s"
  shows "flight_inv s' \<and> (owner_inv s \<longrightarrow> owner_inv s')"
  using assms(1)
proof cases
  case (arrive t key)
  then have "\<not> caller_holds s t ev" "\<not> caller_owns s t k ev" for k ev
    by (simp_all add: caller_holds_def caller_owns_def)
  then show ?thesis unfolding arrive(1) by (intro quiet_step [OF assms(2)]) auto
next
  case (cancel t key ev)
  show ?thesis
    unfolding cancel(1) using holds_at [OF cancel(2)] by (intro quiet_step [OF assms(2)]) auto
qed (use quiet_dir [OF assms(2)] in simp_all)

lemma reload_step_keeps:
  assumes "reload_step s s'" "flight_inv s"
  shows "flight_inv s'"
  using assms(1)
proof cases
  case (reload cfg)
  have "event_inv s'"
    unfolding event_inv_def
  proof (intro allI impI)
    fix key ev assume "fmlookup (pd_events (ys_dir s')) key = Some ev"
    then have "fmlookup (pd_events (snd (LoadProxies cfg (ys_dir s)))) key = Some ev" by (simp add: reload)
    then have "fmlookup (pd_events (ys_dir s)) key = Some ev" by (rule load_frame(2))
    then obtain t where "caller_owns s t key ev" using flightD(5) [OF assms(2)] by blast
    then show "\<exists>t. caller_owns s' t key ev" unfolding reload by (intro exI [of _ t]) simp
  qed
  moreover have "fresh_inv s'" "hold_inv s'" "wait_inv s'"
    using assms(2) by (simp_all add: reload load_frame(1) flight_defs)
  ultimately show ?thesis by (simp add: flight_inv_def)
qed

text \<open>Histories, without and with a change of the configuration.\<close>

definition run_step :: "ProxyEnv \<Rightarrow> RefreshSystem \<Rightarrow> RefreshSystem \<Rightarrow> bool" where
  "run_step env s s' \<longleftrightarrow> caller_step env s s' \<or> other_step env s s'"

definition any_step :: "ProxyEnv \<Rightarrow> RefreshSystem \<Rightarrow> RefreshSystem \<Rightarrow> bool" where
  "any_step env s s' \<longleftrightarrow> run_step env s s' \<or> reload_step s s'"

lemma start_inv: "pd_events d = fmempty \<Longrightarrow> flight_inv (startSystem d) \<and> owner_inv (startSystem d)"
  by (simp add: startSystem_def flight_defs owner_inv_def caller_holds_def caller_owns_def)

lemma run_step_keeps:
  "run_step env s s' \<Longrightarrow> flight_inv s \<Longrightarrow> flight_inv s' \<and> (owner_inv s \<longrightarrow> owner_inv s')"
  unfolding run_step_def using caller_step_keeps other_step_keeps by blast

lemma run_keeps:
  "(run_step env)\<^sup>*\<^sup>* s s' \<Longrightarrow> flight_inv s \<Longrightarrow> flight_inv s' \<and> (owner_inv s \<longrightarrow> owner_inv s')"
proof (induction rule: rtranclp_induct)
  case (step b c)
  then show ?case using run_step_keeps [OF step.hyps(2)] by blast
qed simp

lemma any_keeps: "(any_step env)\<^sup>*\<^sup>* s s' \<Longrightarrow> flight_inv s \<Longrightarrow> flight_inv s'"
proof (induction rule: rtranclp_induct)
  case (step b c)
  then show ?case using run_step_keeps [of env b c] reload_step_keeps [of b c] unfolding any_step_def by blast
qed simp

text \<open>C5. Single flight: as long as the configuration is not reloaded, at most one caller at a time refreshes a
  key, whatever the callers, the feedback and the scheduled refresh do.\<close>

theorem single_flight:
  assumes "pd_events d = fmempty" "(run_step env)\<^sup>*\<^sup>* (startSystem d) s"
    and "ys_callers s t = Some (Fetching key ev mode)" "ys_callers s t' = Some (Fetching key ev' mode')"
  shows "t = t'"
proof -
  have I: "flight_inv s" "owner_inv s" using run_keeps [OF assms(2)] start_inv [OF assms(1)] by auto
  have own: "caller_owns s t key ev" "caller_owns s t' key ev'" using holds_at(2) assms(3,4) by auto
  then have "ev = ev'" using I(2) by (metis owner_inv_def option.inject)
  then show ?thesis using flightD(3) [OF I(1)] own owner_holds by blast
qed

section \<open>Every caller can return\<close>

lemma steps1: "caller_step env s s' \<Longrightarrow> (caller_step env)\<^sup>*\<^sup>* s' s'' \<Longrightarrow> (caller_step env)\<^sup>*\<^sup>* s s''"
  by (rule converse_rtranclp_into_rtranclp)

text \<open>The holder of a channel can close it, leaving everything else as it is but for its own event.\<close>

definition closed_by :: "nat \<Rightarrow> nat \<Rightarrow> RefreshSystem \<Rightarrow> RefreshSystem \<Rightarrow> bool" where
  "closed_by t ev s s' \<longleftrightarrow> ev \<in> ys_closed s' \<and> (\<exists>r. ys_callers s' t = Some (Returned r)) \<and>
     (\<forall>u. u \<noteq> t \<longrightarrow> ys_callers s' u = ys_callers s u) \<and>
     (\<forall>key. caller_owns s t key ev \<longrightarrow> pd_events (ys_dir s') = fmdrop key (pd_events (ys_dir s)))"

lemma leaving_closes:
  assumes "ys_callers s t = Some (Leaving key ev r)"
  shows "\<exists>s'. (caller_step env)\<^sup>*\<^sup>* s s' \<and> closed_by t ev s s' \<and> pd_events (ys_dir s') = pd_events (ys_dir s)"
proof -
  let ?s = "(setCaller t (Returned r) (ys_dir s) s)\<lparr>ys_closed := insert ev (ys_closed s)\<rparr>"
  have "caller_step env s ?s" by (rule caller_step.close1 [OF assms])
  moreover have "closed_by t ev s ?s" using holds_at(2) [OF assms] by (auto simp: closed_by_def)
  ultimately show ?thesis by (intro exI [of _ ?s]) auto
qed

lemma closing_closes:
  assumes "ys_callers s t = Some (Closing key ev r)"
  shows "\<exists>s'. (caller_step env)\<^sup>*\<^sup>* s s' \<and> closed_by t ev s s'"
proof -
  let ?s = "setCaller t (Leaving key ev r) (finishRefresh key (ys_dir s)) s"
  obtain s' where s': "(caller_step env)\<^sup>*\<^sup>* ?s s'" "closed_by t ev ?s s'" "pd_events (ys_dir s') = pd_events (ys_dir ?s)"
    using leaving_closes [of ?s t key ev r env] by auto
  have "caller_step env s ?s" by (rule caller_step.finish [OF assms])
  moreover have "closed_by t ev s s'"
    using s'(2,3) holds_at(2) [OF assms] by (auto simp: closed_by_def)
  ultimately show ?thesis using steps1 s'(1) by blast
qed

lemma fetching_closes:
  assumes "ys_callers s t = Some (Fetching key ev mode)"
  shows "\<exists>s'. (caller_step env)\<^sup>*\<^sup>* s s' \<and> closed_by t ev s s'"
proof -
  let ?reply = "(zeroBundle, False, Some ErrCancelled)"
  let ?s = "setCaller t (Closing key ev (Inl ErrCancelled)) (ys_dir s) s"
  have "winnerRecord env 0 key ?reply (ys_dir s) = (Inl ErrCancelled, ys_dir s)" by (simp add: winnerRecord_def)
  then have "caller_step env s ?s" by (rule caller_step.answer [OF assms])
  moreover obtain s' where s': "(caller_step env)\<^sup>*\<^sup>* ?s s'" "closed_by t ev ?s s'"
    using closing_closes [of ?s t key ev] by auto
  moreover have "closed_by t ev s s'"
    using s'(2) holds_at(2) [OF assms] by (auto simp: closed_by_def)
  ultimately show ?thesis using steps1 by blast
qed

lemma holder_closes:
  assumes "caller_holds s t ev"
  shows "\<exists>s'. (caller_step env)\<^sup>*\<^sup>* s s' \<and> closed_by t ev s s'"
proof -
  obtain c where c: "ys_callers s t = Some c" "holds c ev" using assms by (auto simp: caller_holds_def)
  then show ?thesis
    using fetching_closes closing_closes leaving_closes by (cases c) (simp_all, blast+)
qed

definition can_return :: "ProxyEnv \<Rightarrow> RefreshSystem \<Rightarrow> nat \<Rightarrow> bool" where
  "can_return env s t \<longleftrightarrow> (\<exists>s' r. (caller_step env)\<^sup>*\<^sup>* s s' \<and> ys_callers s' t = Some (Returned r))"

lemma can_return_steps: "(caller_step env)\<^sup>*\<^sup>* s s' \<Longrightarrow> can_return env s' t \<Longrightarrow> can_return env s t"
  unfolding can_return_def by (meson rtranclp_trans)

lemma holder_returns:
  assumes "caller_holds s t ev"
  shows "can_return env s t"
  using holder_closes [OF assms, of env] unfolding can_return_def closed_by_def by blast

lemma free_returns:
  assumes "ys_callers s t = Some (Asking key)" "fmlookup (pd_events (ys_dir s)) key = None"
  shows "can_return env s t"
proof -
  obtain st d where ask: "bundleRefreshState 0 key (ys_dir s) = (st, d)" by fastforce
  let ?s = "setCaller t (afterState key (pd_clearance d) st) d s"
  have step: "(caller_step env)\<^sup>*\<^sup>* s ?s" using caller_step.ask [OF assms(1) ask] by blast
  have "can_return env ?s t"
  proof (cases st)
    case (WaitFor ev)
    then show ?thesis using ask_frame [OF ask] assms(2) by auto
  next
    case (BuildAs ev)
    then show ?thesis by (intro holder_returns [of _ _ ev]) simp
  qed (auto simp: can_return_def intro!: exI [of _ ?s])
  then show ?thesis by (rule can_return_steps [OF step])
qed

lemma woken_returns:
  assumes "ys_callers s t = Some (Waiting key ev)" "ev \<in> ys_closed s" "fmlookup (pd_events (ys_dir s)) key = None"
  shows "can_return env s t"
proof -
  have "(caller_step env)\<^sup>*\<^sup>* s (setCaller t (Asking key) (ys_dir s) s)"
    using caller_step.wake [OF assms(1,2)] by blast
  then show ?thesis by (rule can_return_steps) (intro free_returns [of _ _ key], simp_all add: assms(3))
qed

lemma asking_returns:
  assumes "flight_inv s" "ys_callers s t = Some (Asking key)"
  shows "can_return env s t"
proof (cases "fmlookup (pd_events (ys_dir s)) key")
  case None
  then show ?thesis by (rule free_returns [OF assms(2)])
next
  case (Some ev)
  obtain st d where ask: "bundleRefreshState 0 key (ys_dir s) = (st, d)" by fastforce
  let ?s = "setCaller t (afterState key (pd_clearance d) st) d s"
  have step: "(caller_step env)\<^sup>*\<^sup>* s ?s" using caller_step.ask [OF assms(2) ask] by blast
  have "can_return env ?s t"
  proof (cases st)
    case (WaitFor n)
    have d: "pd_events d = pd_events (ys_dir s)" "n = ev" using ask_frame [OF ask] WaitFor Some by auto
    obtain t' where own: "caller_owns s t' key ev" using flightD(5) [OF assms(1) Some] by blast
    then have "t' \<noteq> t" using holds_at(2) [OF assms(2)] by auto
    then have own': "caller_owns ?s t' key ev" using own by simp
    obtain s2 where s2: "(caller_step env)\<^sup>*\<^sup>* ?s s2" "closed_by t' ev ?s s2"
      using holder_closes [OF owner_holds [OF own'], of env] by blast
    then have "ys_callers s2 t = Some (Waiting key ev)" "ev \<in> ys_closed s2"
      "fmlookup (pd_events (ys_dir s2)) key = None"
      using \<open>t' \<noteq> t\<close> own' WaitFor d(2) by (simp_all add: closed_by_def del: holds_upd)
    then show ?thesis using can_return_steps [OF s2(1) woken_returns] by blast
  next
    case (BuildAs n)
    then show ?thesis by (intro holder_returns [of _ _ n]) simp
  qed (auto simp: can_return_def intro!: exI [of _ ?s])
  then show ?thesis by (rule can_return_steps [OF step])
qed

lemma waiting_returns:
  assumes "flight_inv s" "ys_callers s t = Some (Waiting key ev)" "ev \<in> ys_closed s"
  shows "can_return env s t"
proof -
  have step: "caller_step env s (setCaller t (Asking key) (ys_dir s) s)" by (rule caller_step.wake [OF assms(2,3)])
  then have "flight_inv (setCaller t (Asking key) (ys_dir s) s)" using caller_step_keeps assms(1) by blast
  then show ?thesis by (intro can_return_steps [OF r_into_rtranclp, OF step] asking_returns [of _ _ key]) simp_all
qed

text \<open>C6. No caller is stuck: in every state that any history reaches, configuration changes included, every
  caller has a way to return by steps of the callers alone, without being cancelled and without any help of the clock;
  a caller that waits does so on a channel that is closed or that another caller holds and will close.\<close>

theorem callers_return:
  assumes "pd_events d = fmempty" "(any_step env)\<^sup>*\<^sup>* (startSystem d) s" "ys_callers s t = Some c"
  shows "\<exists>s' r. (caller_step env)\<^sup>*\<^sup>* s s' \<and> ys_callers s' t = Some (Returned r)"
proof -
  have I: "flight_inv s" using any_keeps [OF assms(2)] start_inv [OF assms(1)] by blast
  have "can_return env s t"
  proof (cases c)
    case (Waiting key ev)
    show ?thesis
    proof (cases "ev \<in> ys_closed s")
      case False
      then obtain t' where hold: "caller_holds s t' ev" using flightD(6) [OF I] assms(3) Waiting by blast
      then have "t' \<noteq> t" using holds_at(1) [OF assms(3)] Waiting by auto
      obtain s2 where s2: "(caller_step env)\<^sup>*\<^sup>* s s2" "closed_by t' ev s s2"
        using holder_closes [OF hold, of env] by blast
      have "(run_step env)\<^sup>*\<^sup>* s s2" using s2(1) by (rule rtranclp_mono [THEN predicate2D, rotated]) (auto simp: run_step_def)
      then have "flight_inv s2" using run_keeps I by blast
      moreover have "ys_callers s2 t = Some (Waiting key ev)" "ev \<in> ys_closed s2"
        using s2(2) \<open>t' \<noteq> t\<close> assms(3) Waiting by (simp_all add: closed_by_def)
      ultimately show ?thesis using can_return_steps [OF s2(1) waiting_returns] by blast
    qed (use waiting_returns [OF I] assms(3) Waiting in simp)
  next
    case (Returned r)
    then show ?thesis using assms(3) unfolding can_return_def by blast
  qed (use assms(3) asking_returns [OF I] holder_returns holds_at(1) [OF assms(3)] in fastforce)+
  then show ?thesis by (simp add: can_return_def)
qed

section \<open>Histories\<close>

text \<open>A configuration with one proxy and a solver.\<close>

definition singleConfig :: "string \<Rightarrow> ProxyConfig" where
  "singleConfig url = emptyDirectoryConfig\<lparr>pc_str := (\<lambda>key v.
     if key = ''proxy.egress.mode'' then ''single_proxy'' else if key = ''proxy.egress.proxy_url'' then url
     else if key = ''proxy.clearance.mode'' then ''flaresolverr'' else v)\<rparr>"

definition singleSignature :: "string \<Rightarrow> ConfigSignature" where
  "singleSignature url = configSignature (singleConfig url) EgressModeSingleProxy ClearanceModeFlareSolverr"

lemma single_modes: "LoadModes (singleConfig url) = Inr (EgressModeSingleProxy, ClearanceModeFlareSolverr)"
  by (simp add: LoadModes_def singleConfig_def parseEgressMode_def parseClearanceModeString_def
      validateClearanceMode_def string_eval Let_def)

lemma single_load: "LoadProxies (singleConfig url) d =
    (None, loadSignature EgressModeSingleProxy ClearanceModeFlareSolverr (singleSignature url) d)"
  by (simp add: LoadProxies_def single_modes singleSignature_def)

lemma single_url: "sg_baseURL (singleSignature url) = url" "sg_resourceURL (singleSignature url) = ''''"
  by (simp_all add: singleSignature_def configSignature_def singleConfig_def emptyDirectoryConfig_def Let_def)

lemma single_switch:
  assumes "url \<noteq> ''''" "pd_sig d \<noteq> Some (singleSignature url)"
  defines "d' \<equiv> snd (LoadProxies (singleConfig url) d)"
  shows "pd_sig d' = Some (singleSignature url)" "pd_clearance d' = ClearanceModeFlareSolverr"
    "pd_events d' = keepAffinities [url] (pd_events d)" "pd_until d' = keepAffinities [url] (pd_until d)"
    "pd_bundles d' = invalidateMatchingBundles (pd_bundles d) [url]" "pd_next d' = pd_next d"
  using assms(1,2)
  by (simp_all add: d'_def single_load loadSignature_def buildEgressNodes_def single_url validAffinities_def
      nodeURLs_def newEgressNode_def Let_def)

lemma empty_ask:
  assumes "pd_clearance d \<noteq> ClearanceModeNone" "fmlookup (pd_bundles d) key = None" "fmlookup (pd_until d) key = None"
    "fmlookup (pd_events d) key = None"
  shows "bundleRefreshState now key d =
    (BuildAs (pd_next d), d\<lparr>pd_events := fmupd key (pd_next d) (pd_events d), pd_next := pd_next d + 1\<rparr>)"
  using assms by (simp add: bundleRefreshState_def startRefresh_def cooldownBundleLocked_def)

text \<open>A history of one caller on a fresh directory.\<close>

definition sampleProxyEnv :: ProxyEnv where
  "sampleProxyEnv = \<lparr>px_config = singleConfig ''A'', px_manual = None, px_flare = None, px_byparr = None, px_id = ''id'',
     px_host = (\<lambda>_. Some ''grok.com''), px_base = ''https://grok.com'', px_pow = (\<lambda>m n. m ^ nat n)\<rparr>"

definition loadedA :: ProxyDirectory where
  "loadedA = snd (LoadProxies (singleConfig ''A'') NewProxyDirectory)"

definition sampleKey :: BundleKey where
  "sampleKey = \<lparr>bk_affinity = ''A'', bk_host = ''grok.com''\<rparr>"

lemma loadedA_simps: "pd_sig loadedA = Some (singleSignature ''A'')" "pd_clearance loadedA = ClearanceModeFlareSolverr"
  "pd_events loadedA = fmempty" "pd_until loadedA = fmempty" "pd_bundles loadedA = fmempty" "pd_next loadedA = 0"
  using single_switch [of "''A''" NewProxyDirectory]
  by (simp_all add: loadedA_def NewProxyDirectory_def keepAffinities_def invalidateMatchingBundles_def)

definition firstDir :: ProxyDirectory where
  "firstDir = loadedA\<lparr>pd_events := fmupd sampleKey 0 fmempty, pd_next := 1\<rparr>"

definition firstFetch :: RefreshSystem where
  "firstFetch = setCaller 0 (Fetching sampleKey 0 ClearanceModeFlareSolverr) firstDir
     (setCaller 0 (Asking sampleKey) loadedA (startSystem loadedA))"

lemma firstFetch_run: "(run_step env)\<^sup>*\<^sup>* (startSystem loadedA) firstFetch"
proof -
  let ?s = "setCaller 0 (Asking sampleKey) loadedA (startSystem loadedA)"
  have "other_step env (startSystem loadedA) ?s"
    using other_step.arrive [of "startSystem loadedA" 0 env sampleKey] by (simp add: startSystem_def)
  then have "run_step env (startSystem loadedA) ?s" by (simp add: run_step_def)
  moreover have "bundleRefreshState 0 sampleKey loadedA = (BuildAs 0, firstDir)"
    using empty_ask [of loadedA sampleKey 0] by (simp add: loadedA_simps firstDir_def)
  then have "caller_step env ?s firstFetch"
    using caller_step.ask [of ?s 0 sampleKey 0 "BuildAs 0" firstDir env]
    by (simp add: firstFetch_def firstDir_def loadedA_simps)
  then have "run_step env ?s firstFetch" by (simp add: run_step_def)
  ultimately show ?thesis by (meson converse_rtranclp_into_rtranclp rtranclp.rtrancl_refl)
qed

theorem single_flight_witness: "{t. \<exists>ev mode. ys_callers firstFetch t = Some (Fetching sampleKey ev mode)} = {0}"
proof -
  have first: "ys_callers firstFetch 0 = Some (Fetching sampleKey 0 ClearanceModeFlareSolverr)"
    by (simp add: firstFetch_def)
  show ?thesis
    using single_flight [OF loadedA_simps(3) firstFetch_run [of sampleProxyEnv] _ first] first by blast
qed

theorem callers_return_witness:
  "\<exists>s' r. (caller_step sampleProxyEnv)\<^sup>*\<^sup>* firstFetch s' \<and> ys_callers s' 0 = Some (Returned r)"
proof -
  have "(any_step sampleProxyEnv)\<^sup>*\<^sup>* (startSystem loadedA) firstFetch"
    using firstFetch_run by (rule rtranclp_mono [THEN predicate2D, rotated]) (auto simp: any_step_def)
  from callers_return [OF loadedA_simps(3) this, of 0] show ?thesis by (simp add: firstFetch_def)
qed

text \<open>A change of the configuration breaks the single flight: while a caller refreshes the key of a proxy,
  a reload without that proxy forgets its event, and after a reload with it the next caller refreshes the same key
  a second time.\<close>

theorem reload_double_flight:
  "\<exists>s key t t' ev ev' mode. (any_step env)\<^sup>*\<^sup>* (startSystem NewProxyDirectory) s \<and> t \<noteq> t' \<and>
     ys_callers s t = Some (Fetching key ev mode) \<and> ys_callers s t' = Some (Fetching key ev' mode)"
proof -
  let ?A = "singleConfig ''A''" and ?B = "singleConfig ''B''"
  let ?d2 = "snd (LoadProxies ?B firstDir)"
  let ?d3 = "snd (LoadProxies ?A ?d2)"
  let ?s2 = "firstFetch\<lparr>ys_dir := ?d2\<rparr>" and ?s3 = "firstFetch\<lparr>ys_dir := ?d3\<rparr>"
  let ?s4 = "setCaller 1 (Asking sampleKey) ?d3 ?s3"
  let ?d5 = "?d3\<lparr>pd_events := fmupd sampleKey (pd_next ?d3) (pd_events ?d3), pd_next := pd_next ?d3 + 1\<rparr>"
  let ?s5 = "setCaller 1 (Fetching sampleKey (pd_next ?d3) (pd_clearance ?d5)) ?d5 ?s4"
  have differ: "singleSignature ''A'' \<noteq> singleSignature ''B''"
  proof
    assume "singleSignature ''A'' = singleSignature ''B''"
    then have "sg_baseURL (singleSignature ''A'') = sg_baseURL (singleSignature ''B'')" by (rule arg_cong)
    then show False unfolding single_url by simp
  qed
  have first: "pd_sig firstDir = Some (singleSignature ''A'')" "pd_until firstDir = fmempty" "pd_bundles firstDir = fmempty"
    "pd_events firstDir = fmupd sampleKey 0 fmempty"
    by (simp_all add: firstDir_def loadedA_simps)
  have d2: "pd_sig ?d2 = Some (singleSignature ''B'')" "pd_events ?d2 = fmempty" "pd_until ?d2 = fmempty"
    "pd_bundles ?d2 = fmempty"
    using single_switch [of "''B''" firstDir] differ
    by (simp_all add: first keepAffinities_def invalidateMatchingBundles_def sampleKey_def)
  have d3: "pd_clearance ?d3 = ClearanceModeFlareSolverr" "pd_events ?d3 = fmempty" "pd_until ?d3 = fmempty"
    "pd_bundles ?d3 = fmempty"
    using single_switch [of "''A''" ?d2] differ
    by (simp_all add: d2 keepAffinities_def invalidateMatchingBundles_def)
  have "startSystem loadedA = (startSystem NewProxyDirectory)\<lparr>ys_dir := snd (LoadProxies ?A NewProxyDirectory)\<rparr>"
    by (simp add: startSystem_def loadedA_def)
  then have s0: "any_step env (startSystem NewProxyDirectory) (startSystem loadedA)"
    using reload_step.reload [of "startSystem NewProxyDirectory" ?A] by (simp add: any_step_def startSystem_def)
  have s1: "(any_step env)\<^sup>*\<^sup>* (startSystem loadedA) firstFetch"
    using firstFetch_run by (rule rtranclp_mono [THEN predicate2D, rotated]) (auto simp: any_step_def)
  have s2: "any_step env firstFetch ?s2"
    using reload_step.reload [of firstFetch ?B] by (simp add: any_step_def firstFetch_def)
  have s3: "any_step env ?s2 ?s3" using reload_step.reload [of ?s2 ?A] by (simp add: any_step_def)
  have s4: "any_step env ?s3 ?s4"
    using other_step.arrive [of ?s3 1 env sampleKey] by (simp add: any_step_def run_step_def firstFetch_def startSystem_def)
  have "bundleRefreshState 0 sampleKey ?d3 = (BuildAs (pd_next ?d3), ?d5)" using empty_ask d3 by simp
  then have s5: "any_step env ?s4 ?s5"
    using caller_step.ask [of ?s4 1 sampleKey 0 "BuildAs (pd_next ?d3)" ?d5 env] by (simp add: any_step_def run_step_def)
  have "(any_step env)\<^sup>*\<^sup>* (startSystem NewProxyDirectory) ?s5"
    using s0 s1 s2 s3 s4 s5
    by (meson converse_rtranclp_into_rtranclp rtranclp.rtrancl_into_rtrancl rtranclp_trans)
  moreover have "ys_callers ?s5 0 = Some (Fetching sampleKey 0 ClearanceModeFlareSolverr)"
    "ys_callers ?s5 1 = Some (Fetching sampleKey (pd_next ?d3) ClearanceModeFlareSolverr)"
    by (simp_all add: firstFetch_def d3(1))
  moreover have "(0 :: nat) \<noteq> 1" by simp
  ultimately show ?thesis by blast
qed

end
