(* ===== verification/ProxyProps.thy ===== *)
theory ProxyProps
  imports ProxyRefresh "HOL-Library.Multiset"
begin

text \<open>
  What the proxy directory guarantees: the circuit breaker keeps the solver from being called during a
  cooldown and how long one lasts, what a change of the configuration keeps, the rotation of the pool, and
  what the scheduled refresh does to each bundle.
\<close>

section \<open>The circuit breaker\<close>

text \<open>Whether a caller runs the solver or waits for another one that does.\<close>

fun upstream :: "RefreshState \<Rightarrow> bool" where
  "upstream (BuildAs ev) = True"
| "upstream (WaitFor ev) = True"
| "upstream _ = False"

lemma cooling_ask:
  assumes "fmlookup (pd_until d) key = Some u" "now < u" "0 < u"
  shows "\<not> upstream (fst (bundleRefreshState now key d))"
    and "fmlookup (pd_until (snd (bundleRefreshState now key d))) key = Some u"
  using assms
  by (auto simp: bundleRefreshState_def startRefresh_def cooldownBundleLocked_def Let_def split: option.split)

text \<open>Requests of a key at the given times, one after the other; what each is told to do.\<close>

fun asks :: "int list \<Rightarrow> BundleKey \<Rightarrow> ProxyDirectory \<Rightarrow> RefreshState list" where
  "asks [] key d = []"
| "asks (now # ts) key d = (case bundleRefreshState now key d of (st, d1) \<Rightarrow> st # asks ts key d1)"

lemma cooling_asks:
  "fmlookup (pd_until d) key = Some u \<Longrightarrow> \<forall>now \<in> set ts. now < u \<Longrightarrow> 0 < u \<Longrightarrow>
     \<not> list_ex upstream (asks ts key d)"
proof (induction ts arbitrary: d)
  case (Cons now ts)
  then show ?case using cooling_ask [of d key u now] by (simp add: case_prod_unfold)
qed simp

text \<open>A key without a fresh bundle: during the cooldown the requests leave it so, after it the next one goes to the solver.\<close>

definition lacking :: "BundleKey \<Rightarrow> int \<Rightarrow> ProxyDirectory \<Rightarrow> bool" where
  "lacking key u d \<longleftrightarrow> fmlookup (pd_until d) key = Some u \<and> pd_clearance d \<noteq> ClearanceModeNone \<and>
     (\<forall>b. fmlookup (pd_bundles d) key = Some b \<longrightarrow> cb_state b \<noteq> ClearanceBundleValid)"

lemma lacking_ask:
  assumes "lacking key u d" "0 < u"
  shows "now < u \<Longrightarrow> lacking key u (snd (bundleRefreshState now key d))"
    and "u \<le> now \<Longrightarrow> upstream (fst (bundleRefreshState now key d))"
  using assms
  by (auto simp: lacking_def bundleRefreshState_def startRefresh_def cooldownBundleLocked_def Let_def split: option.split)

lemma lacking_asks:
  "lacking key u d \<Longrightarrow> \<forall>now \<in> set ts. now < u \<Longrightarrow> 0 < u \<Longrightarrow> u \<le> t \<Longrightarrow>
     map upstream (asks (ts @ [t]) key d) = replicate (length ts) False @ [True]"
proof (induction ts arbitrary: d)
  case (Cons now ts)
  then have "now < u" by simp
  moreover from this have "\<not> upstream (fst (bundleRefreshState now key d))"
    using cooling_ask(1) [of d key u now] Cons.prems by (simp add: lacking_def)
  ultimately show ?case
    using Cons.IH [OF lacking_ask(1) [OF Cons.prems(1,3)]] Cons.prems by (simp add: case_prod_unfold)
qed (simp add: lacking_ask(2) case_prod_unfold)

lemma failure_until:
  assumes "0 < cooldownMS (px_pow env) (backoffConfig (px_config env)) (failuresOf key d + 1)" "0 \<le> now"
  defines "d' \<equiv> snd (recordRefreshFailureLocked env now key d)"
  shows "fmlookup (pd_until d') key =
      Some (now + cooldownMS (px_pow env) (backoffConfig (px_config env)) (failuresOf key d + 1))"
    and "failuresOf key d' = failuresOf key d + 1"
  using assms
  by (auto simp: d'_def recordRefreshFailureLocked_def cooldownBundleLocked_def failuresOf_def Let_def split: option.split)

lemma failure_lacking:
  assumes "\<forall>b. fmlookup (pd_bundles d) key = Some b \<longrightarrow> cb_state b \<noteq> ClearanceBundleValid" "pd_clearance d \<noteq> ClearanceModeNone"
    and "fmlookup (pd_until (snd (recordRefreshFailureLocked env now key d))) key = Some u"
  shows "lacking key u (snd (recordRefreshFailureLocked env now key d))"
  using assms
  by (auto simp: lacking_def recordRefreshFailureLocked_def cooldownBundleLocked_def Let_def split: option.splits if_splits)

text \<open>\<open>math.Pow\<close> of a base from 1 on with an exponent from 0 on is at least 1.\<close>

definition pow_grows :: "(rat \<Rightarrow> int \<Rightarrow> rat) \<Rightarrow> bool" where
  "pow_grows pow \<longleftrightarrow> (\<forall>m k. 1 \<le> m \<longrightarrow> 0 \<le> k \<longrightarrow> 1 \<le> pow m k)"

definition backoff_small :: "BackoffConfig \<Rightarrow> bool" where
  "backoff_small cfg \<longleftrightarrow> bc_max cfg * 1000 < 2 ^ 53 \<and> bc_halfOpen cfg * 1000 < 2 ^ 53"

lemma backoff_range:
  "1 \<le> bc_base (backoffConfig cfg)" "bc_base (backoffConfig cfg) \<le> bc_max (backoffConfig cfg)"
  "1 \<le> bc_maxFails (backoffConfig cfg)" "1 \<le> bc_multiplier (backoffConfig cfg)" "1 \<le> bc_halfOpen (backoffConfig cfg)"
  by (auto simp: backoffConfig_def Let_def split: option.split)

lemma cooldown_range:
  assumes "pow_grows pow" "backoff_small (backoffConfig cfg)" "1 \<le> n"
  shows "cooldownMS pow (backoffConfig cfg) n \<in>
    {1000 * min (bc_base (backoffConfig cfg)) (bc_halfOpen (backoffConfig cfg))..
     1000 * max (bc_max (backoffConfig cfg)) (bc_halfOpen (backoffConfig cfg))}"
proof -
  let ?c = "backoffConfig cfg"
  note range = backoff_range [of cfg]
  define sec where "sec = (if n \<ge> bc_maxFails ?c then of_int (bc_halfOpen ?c)
    else min (of_int (bc_max ?c)) (fl (of_int (bc_base ?c) * pow (bc_multiplier ?c) (n - 1))))"
  have "of_int (bc_base ?c) * 1 \<le> of_int (bc_base ?c) * pow (bc_multiplier ?c) (n - 1)"
    using assms(1,3) range by (intro mult_left_mono) (auto simp: pow_grows_def)
  moreover have "\<bar>bc_base ?c\<bar> < 2 ^ 53" using range assms(2) by (simp add: backoff_small_def)
  ultimately have "of_int (bc_base ?c) \<le> fl (of_int (bc_base ?c) * pow (bc_multiplier ?c) (n - 1))"
    by (intro fl_ge_int) simp_all
  then have low: "of_int (min (bc_base ?c) (bc_halfOpen ?c)) \<le> sec" using range by (auto simp: sec_def)
  have high: "sec \<le> of_int (max (bc_max ?c) (bc_halfOpen ?c))" by (auto simp: sec_def)
  have small: "\<bar>1000 * min (bc_base ?c) (bc_halfOpen ?c)\<bar> < 2 ^ 53" "\<bar>1000 * max (bc_max ?c) (bc_halfOpen ?c)\<bar> < 2 ^ 53"
    using range assms(2) by (auto simp: backoff_small_def)
  have "of_int (1000 * min (bc_base ?c) (bc_halfOpen ?c)) \<le> fl (sec * 1000)"
    using low small(1) by (intro fl_ge_int) simp_all
  moreover have "fl (sec * 1000) \<le> of_int (1000 * max (bc_max ?c) (bc_halfOpen ?c))"
    using high small(2) by (intro fl_le_int) simp_all
  moreover have "0 \<le> 1000 * min (bc_base ?c) (bc_halfOpen ?c)" using range by simp
  ultimately show ?thesis
    using truncRat_ge_int truncRat_le_int by (auto simp: cooldownMS_def Let_def sec_def [symmetric])
qed

text \<open>C26. The circuit breaker: a failed refresh counts one failure more and starts a cooldown, of at least the smaller of
  the base and the half-open delay and at most the larger of the cap and the half-open delay. No request of that key that
  comes during it runs the solver or waits for it, and the first one that comes after it does, if clearance is in use
  and the key has no valid bundle.\<close>

theorem breaker_blocks:
  assumes "pow_grows (px_pow env)" "backoff_small (backoffConfig (px_config env))" "0 \<le> failuresOf key d" "0 \<le> now"
    and "d' = snd (recordRefreshFailureLocked env now key d)"
  shows "\<exists>ms. ms \<in> {1000 * min (bc_base (backoffConfig (px_config env))) (bc_halfOpen (backoffConfig (px_config env)))..
        1000 * max (bc_max (backoffConfig (px_config env))) (bc_halfOpen (backoffConfig (px_config env)))} \<and>
      failuresOf key d' = failuresOf key d + 1 \<and>
      (\<forall>ts. (\<forall>t \<in> set ts. t < now + ms) \<longrightarrow> \<not> list_ex upstream (asks ts key d') \<and>
        (pd_clearance d \<noteq> ClearanceModeNone \<longrightarrow>
         (\<forall>b. fmlookup (pd_bundles d) key = Some b \<longrightarrow> cb_state b \<noteq> ClearanceBundleValid) \<longrightarrow>
         (\<forall>t \<ge> now + ms. map upstream (asks (ts @ [t]) key d') = replicate (length ts) False @ [True])))"
proof -
  let ?ms = "cooldownMS (px_pow env) (backoffConfig (px_config env)) (failuresOf key d + 1)"
  have range: "?ms \<in> {1000 * min (bc_base (backoffConfig (px_config env))) (bc_halfOpen (backoffConfig (px_config env)))..
      1000 * max (bc_max (backoffConfig (px_config env))) (bc_halfOpen (backoffConfig (px_config env)))}"
    using cooldown_range [OF assms(1,2)] assms(3) by simp
  then have pos: "0 < ?ms" using backoff_range [of "px_config env"] by auto
  then have later: "0 < now + ?ms" using assms(4) by simp
  note until = failure_until [OF pos assms(4), folded assms(5)]
  have blocked: "\<not> list_ex upstream (asks ts key d')" if "\<forall>t \<in> set ts. t < now + ?ms" for ts
    by (rule cooling_asks [OF until(1) that later])
  have over: "map upstream (asks (ts @ [t]) key d') = replicate (length ts) False @ [True]"
    if "\<forall>t \<in> set ts. t < now + ?ms" "now + ?ms \<le> t" "pd_clearance d \<noteq> ClearanceModeNone"
      "\<forall>b. fmlookup (pd_bundles d) key = Some b \<longrightarrow> cb_state b \<noteq> ClearanceBundleValid" for ts t
    using lacking_asks [OF failure_lacking [OF that(4,3) until(1) [unfolded assms(5)]] that(1) later that(2)] assms(5) by simp
  show ?thesis
    using range until(2) blocked over by blast
qed

theorem breaker_blocks_witness:
  "map upstream (asks [6, 20000, 1005, 3600005] sampleKey
     (snd (recordRefreshFailureLocked sampleProxyEnv 5 sampleKey loadedA))) = [False, False, False, True]"
proof -
  let ?d = "snd (recordRefreshFailureLocked sampleProxyEnv 5 sampleKey loadedA)"
  have cfg: "backoffConfig (px_config sampleProxyEnv) =
      \<lparr>bc_base = 300, bc_maxFails = 5, bc_multiplier = 2, bc_max = 3600, bc_halfOpen = 30\<rparr>"
    by (simp add: backoffConfig_def sampleProxyEnv_def singleConfig_def emptyDirectoryConfig_def)
  have "pow_grows (px_pow sampleProxyEnv)" by (simp add: pow_grows_def sampleProxyEnv_def one_le_power)
  moreover have "failuresOf sampleKey loadedA = 0"
    using single_switch [of "''A''" NewProxyDirectory]
    by (simp add: failuresOf_def loadedA_def single_load loadSignature_def NewProxyDirectory_def keepAffinities_def
        case_prod_unfold Let_def)
  ultimately obtain ms where ms: "30000 \<le> ms" "ms \<le> 3600000" "\<forall>ts. (\<forall>t \<in> set ts. t < 5 + ms) \<longrightarrow>
      (\<forall>t \<ge> 5 + ms. map upstream (asks (ts @ [t]) sampleKey ?d) = replicate (length ts) False @ [True])"
    using breaker_blocks [of sampleProxyEnv sampleKey loadedA 5, OF _ _ _ _ refl]
    by (auto simp: cfg backoff_small_def loadedA_simps)
  from ms(1) have "\<forall>t \<in> set [6, 20000, 1005]. t < 5 + ms" by simp
  moreover have "5 + ms \<le> 3600005" using ms(2) by simp
  ultimately have "map upstream (asks ([6, 20000, 1005] @ [3600005]) sampleKey ?d) =
      replicate (length [6, 20000, 1005 :: int]) False @ [True]"
    using ms(3) by blast
  then show ?thesis by simp
qed

text \<open>The cooldowns of the running program do not depend on the configuration: whatever the numbers
  under \<open>proxy.clearance\<close> are, they are 5, 10, 20 and 40 minutes and from the fifth failure on 30 seconds.\<close>

theorem production_backoff:
  assumes "\<forall>k \<in> {0..3}. pow 2 k = 2 ^ nat k" "1 \<le> n"
  shows "cooldownMS pow (backoffConfig (globalDirectoryConfig sprint getStr getList getInt)) n =
    (if n \<ge> 5 then 30000 else 300000 * 2 ^ nat (n - 1))"
proof -
  have int: "fl (of_int k) = of_int k" if "\<bar>k\<bar> < 2 ^ 53" for k using fl_of_int [OF that] .
  have eq: "cooldownMS pow (backoffConfig (globalDirectoryConfig sprint getStr getList getInt)) n =
      truncRat (fl ((if n \<ge> 5 then 30 else min 3600 (fl (300 * pow 2 (n - 1)))) * 1000))"
    by (simp add: cooldownMS_def backoffConfig_def globalDirectoryConfig_def)
  show ?thesis
  proof (cases "n \<ge> 5")
    case True
    then show ?thesis using int [of 30000] truncRat_of_int [of 30000] by (simp add: eq)
  next
    case False
    then consider "n = 1" | "n = 2" | "n = 3" | "n = 4" using assms(2) by linarith
    moreover have "pow 2 0 = 1" "pow 2 1 = 2" "pow 2 2 = 4" "pow 2 3 = 8" using assms(1) by simp_all
    ultimately show ?thesis
      unfolding eq using int [of 300] int [of 600] int [of 1200] int [of 2400] int [of 300000] int [of 600000]
        int [of 1200000] int [of 2400000] truncRat_of_int [of 300000] truncRat_of_int [of 600000]
        truncRat_of_int [of 1200000] truncRat_of_int [of 2400000]
      by cases (simp_all add: eq)
  qed
qed

theorem production_backoff_witness:
  "cooldownMS (\<lambda>m n. m ^ nat n) (backoffConfig (globalDirectoryConfig (\<lambda>_. '''') (\<lambda>_ v. v) (\<lambda>_ v. v) (\<lambda>_ _. 7))) 3 = 1200000"
  using production_backoff [of "\<lambda>m n. m ^ nat n" 3 "\<lambda>_. ''''" "\<lambda>_ v. v" "\<lambda>_ v. v" "\<lambda>_ _. 7"] by simp

section \<open>Configuration changes\<close>

lemma kept_lookup:
  "fmlookup (keepAffinities valid m) key = (if bk_affinity key \<in> set valid then fmlookup m key else None)"
  by (simp add: keepAffinities_def)

lemma sig_modes: "LoadModes cfg = Inr (egress, clearance) \<Longrightarrow>
    sg_egress (configSignature cfg egress clearance) = egressString egress"
  by (simp add: configSignature_def Let_def)

text \<open>Loading the configuration: a second load of the same configuration changes nothing; a load that
  changes something marks every bundle that is left invalid, so none is handed out as fresh, and keeps bundles, events, cooldowns
  and failure counts only of proxies that are still configured.\<close>

theorem load_effect:
  assumes "LoadProxies cfg d = (None, d')"
  shows "LoadProxies cfg d' = (None, d') \<and>
    (d' = d \<or> (\<forall>key. (fmlookup (pd_bundles d') key =
        (if bk_affinity key \<in> set (validAffinities (pd_nodes d') (pd_resource d'))
         then map_option invalidateBundle (fmlookup (pd_bundles d) key) else None)) \<and>
      (fmlookup (pd_until d') key =
        (if bk_affinity key \<in> set (validAffinities (pd_nodes d') (pd_resource d')) then fmlookup (pd_until d) key else None)) \<and>
      failuresOf key d' =
        (if bk_affinity key \<in> set (validAffinities (pd_nodes d') (pd_resource d')) then failuresOf key d else 0) \<and>
      (\<forall>now. \<nexists>b. cb_state b = ClearanceBundleValid \<and> fst (bundleRefreshState now key d') = UseBundle b)))"
proof -
  obtain egress clearance where modes: "LoadModes cfg = Inr (egress, clearance)"
    using assms by (auto simp: LoadProxies_def split: sum.splits)
  let ?sig = "configSignature cfg egress clearance"
  have d': "d' = loadSignature egress clearance ?sig d" using assms modes by (simp add: LoadProxies_def)
  have sig: "pd_sig d' = Some ?sig" by (simp add: d' loadSignature_def case_prod_unfold Let_def)
  have "LoadProxies cfg d' = (None, d')"
    using sig by (simp add: LoadProxies_def modes loadSignature_def case_prod_unfold Let_def)
  moreover have "?thesis" if "pd_sig d = Some ?sig"
    using calculation that by (simp add: d' loadSignature_def case_prod_unfold Let_def)
  moreover have ?thesis if "pd_sig d \<noteq> Some ?sig"
  proof -
    let ?ns = "buildEgressNodes egress (sg_baseURL ?sig) (sg_resourceURL ?sig) (pool (sg_basePool ?sig)) (pool (sg_resourcePool ?sig))"
    have parts: "pd_bundles d' = invalidateMatchingBundles (pd_bundles d) (validAffinities (pd_nodes d') (pd_resource d'))"
      "pd_until d' = keepAffinities (validAffinities (pd_nodes d') (pd_resource d')) (pd_until d)"
      "pd_fails d' = keepAffinities (validAffinities (pd_nodes d') (pd_resource d')) (pd_fails d)"
      using that by (simp_all add: d' loadSignature_def case_prod_unfold Let_def)
    have invalid: "cb_state b = ClearanceBundleInvalid" if "fmlookup (pd_bundles d') key = Some b" for key b
      using that by (auto simp: parts(1) invalidateMatchingBundles_def invalidateBundle_def)
    have "\<nexists>b. cb_state b = ClearanceBundleValid \<and> fst (bundleRefreshState now key d') = UseBundle b" for now key
      using invalid [of key]
      by (auto simp: bundleRefreshState_def startRefresh_def cooldownBundleLocked_def Let_def split: option.splits if_splits)
    moreover have "fmlookup (pd_bundles d') key =
        (if bk_affinity key \<in> set (validAffinities (pd_nodes d') (pd_resource d'))
         then map_option invalidateBundle (fmlookup (pd_bundles d) key) else None)" for key
      unfolding parts(1) by (simp add: invalidateMatchingBundles_def kept_lookup)
    moreover have "fmlookup (pd_until d') key =
        (if bk_affinity key \<in> set (validAffinities (pd_nodes d') (pd_resource d')) then fmlookup (pd_until d) key else None)" for key
      unfolding parts(2) by (rule kept_lookup)
    moreover have "failuresOf key d' =
        (if bk_affinity key \<in> set (validAffinities (pd_nodes d') (pd_resource d')) then failuresOf key d else 0)" for key
      unfolding failuresOf_def parts(3) by (simp add: kept_lookup)
    ultimately show ?thesis using \<open>LoadProxies cfg d' = (None, d')\<close> by blast
  qed
  ultimately show ?thesis by blast
qed

theorem load_effect_witness:
  "LoadProxies (singleConfig ''A'') loadedA = (None, loadedA)"
  using load_effect [of "singleConfig ''A''" NewProxyDirectory loadedA] by (simp add: loadedA_def single_load)

section \<open>The pool\<close>

text \<open>\<open>k\<close> reports that a proxy of the pool has failed.\<close>

definition rotations :: "nat \<Rightarrow> ProxyLease \<Rightarrow> ProxyFeedback \<Rightarrow> ProxyDirectory \<Rightarrow> ProxyDirectory" where
  "rotations k lease result = (proxyFeedback lease result) ^^ k"

lemma rotation_step:
  assumes "pd_egress d = EgressModeProxyPool" "HasProxy lease" "rotatesPool (pf_kind result)"
  shows "pd_egress (proxyFeedback lease result d) = EgressModeProxyPool \<and> pd_cursor (proxyFeedback lease result d) = pd_cursor d + 1 \<and>
    pd_nodes (proxyFeedback lease result d) = pd_nodes d \<and> pd_resource (proxyFeedback lease result d) = pd_resource d"
  using assms by (auto simp: proxyFeedback_def Let_def split: option.split)

lemma rotations_cursor:
  assumes "pd_egress d = EgressModeProxyPool" "HasProxy lease" "rotatesPool (pf_kind result)"
  shows "pd_egress (rotations k lease result d) = EgressModeProxyPool \<and>
    pd_cursor (rotations k lease result d) = pd_cursor d + int k \<and>
    pd_nodes (rotations k lease result d) = pd_nodes d \<and> pd_resource (rotations k lease result d) = pd_resource d"
proof (induction k)
  case (Suc k)
  then show ?case using rotation_step [of "rotations k lease result d" lease result] assms(2,3)
    by (simp add: rotations_def)
qed (simp add: rotations_def assms(1))

text \<open>Rotation: with \<open>n\<close> proxies in the pool, the \<open>k\<close>-th report of a failure moves to the proxy \<open>k\<close>
  places on, so any \<open>n\<close> reports in a row try every proxy of the pool once.\<close>

theorem pool_rotation:
  assumes "pd_egress d = EgressModeProxyPool" "pd_nodes d \<noteq> []" "0 \<le> pd_cursor d" "HasProxy lease" "rotatesPool (pf_kind result)"
  shows "mset (map (\<lambda>k. pickProxyURL False (rotations k lease result d)) [0..<length (pd_nodes d)]) =
    mset (map en_url (pd_nodes d))"
proof -
  let ?n = "length (pd_nodes d)" and ?c = "nat (pd_cursor d)"
  have "pickProxyURL False (rotations k lease result d) = en_url (pd_nodes d ! ((?c + k) mod ?n))" for k
  proof -
    have "truncMod (pd_cursor d + int k) (int ?n) = (pd_cursor d + int k) mod int ?n"
      using assms(2,3)
      by (cases "pd_cursor d + int k = 0") (auto simp: truncMod_def truncDiv_def sgn_if minus_mult_div_eq_mod)
    also have "\<dots> = int ((?c + k) mod ?n)" using assms(3) by (simp add: of_nat_mod)
    finally show ?thesis
      using rotations_cursor [OF assms(1,4,5), of k] assms(2) by (simp add: pickProxyURL_def Let_def)
  qed
  then have "map (\<lambda>k. pickProxyURL False (rotations k lease result d)) [0..<?n] =
      map (\<lambda>k. en_url (pd_nodes d ! ((?c + k) mod ?n))) [0..<?n]" by simp
  also have "\<dots> = map en_url (rotate ?c (pd_nodes d))"
    by (rule nth_equalityI) (simp_all add: nth_rotate)
  finally have "mset (map (\<lambda>k. pickProxyURL False (rotations k lease result d)) [0..<?n]) =
      image_mset en_url (mset (rotate ?c (pd_nodes d)))" by simp
  moreover have "mset (rotate k xs) = mset xs" for k and xs :: "EgressNode list"
    by (metis add.commute append_take_drop_id mset_append rotate_drop_take)
  ultimately show ?thesis by simp
qed

definition samplePool :: ProxyDirectory where
  "samplePool = NewProxyDirectory\<lparr>pd_egress := EgressModeProxyPool,
     pd_nodes := [newEgressNode ''pool-0'' ''A'', newEgressNode ''pool-1'' ''B'', newEgressNode ''pool-2'' ''C''], pd_cursor := 4\<rparr>"

theorem pool_rotation_witness:
  "mset (map (\<lambda>k. pickProxyURL False (rotations k ((NewProxyLease ''id'')\<lparr>pl_url := Some ''A''\<rparr>) (BuildFeedback 403 False '''' None)
      samplePool)) [0..<3]) = {#Some ''A'', Some ''B'', Some ''C''#}"
proof -
  have "pd_egress samplePool = EgressModeProxyPool" "pd_nodes samplePool \<noteq> []" "0 \<le> pd_cursor samplePool"
    "HasProxy ((NewProxyLease ''id'')\<lparr>pl_url := Some ''A''\<rparr>)" "rotatesPool (pf_kind (BuildFeedback 403 False '''' None))"
    by (simp_all add: samplePool_def HasProxy_def nonEmptyURL_def rotatesPool_def BuildFeedback_def ClassifyStatusCode_def)
  moreover have "length (pd_nodes samplePool) = 3"
    "mset (map en_url (pd_nodes samplePool)) = {#Some ''A'', Some ''B'', Some ''C''#}"
    by (simp_all add: samplePool_def newEgressNode_def)
  ultimately show ?thesis by (metis pool_rotation)
qed

section \<open>The scheduled refresh\<close>

text \<open>What refreshing a bundle leaves of its key: a solved bundle is stored, fresh and counted, and closes the
  circuit; a failure counts one more.\<close>

definition refreshed_key :: "ProxyEnv \<Rightarrow> int \<Rightarrow> ClearanceMode \<Rightarrow> BundleKey \<Rightarrow> string \<times> string \<Rightarrow> ProxyDirectory \<Rightarrow> ProxyDirectory \<Rightarrow> bool" where
  "refreshed_key env now mode key target d d' \<longleftrightarrow>
    (case refreshBundle env mode key (fst target) (snd target) of (b, ok, err) \<Rightarrow>
       if ok then fmlookup (pd_bundles d') key = Some (fst (recordSuccessfulBundleRefresh now key b d)) \<and>
         failuresOf key d' = 0 \<and> fmlookup (pd_until d') key = None
       else failuresOf key d' = failuresOf key d + 1)"

definition same_key :: "BundleKey \<Rightarrow> ProxyDirectory \<Rightarrow> ProxyDirectory \<Rightarrow> bool" where
  "same_key key d d' \<longleftrightarrow> fmlookup (pd_bundles d') key = fmlookup (pd_bundles d) key \<and>
     fmlookup (pd_until d') key = fmlookup (pd_until d) key \<and> fmlookup (pd_fails d') key = fmlookup (pd_fails d) key"

lemma same_key_refl [simp]: "same_key key d d" by (simp add: same_key_def)

lemma same_key_trans: "same_key key a b \<Longrightarrow> same_key key b c \<Longrightarrow> same_key key a c"
  by (simp add: same_key_def)

lemma cooldown_same: "k \<noteq> key \<Longrightarrow> same_key k d (snd (cooldownBundleLocked now key b d))"
  by (auto simp: cooldownBundleLocked_def same_key_def Let_def split: option.split)

lemma failure_same: "k \<noteq> key \<Longrightarrow> same_key k d (snd (recordRefreshFailureLocked env now key d))"
  unfolding recordRefreshFailureLocked_def Let_def
  by (rule same_key_trans [OF _ cooldown_same]) (simp_all add: same_key_def)

lemma failure_counts: "failuresOf key (snd (recordRefreshFailureLocked env now key d)) = failuresOf key d + 1"
  by (simp add: recordRefreshFailureLocked_def failuresOf_def Let_def)

lemma note_same: "k \<noteq> key \<Longrightarrow> same_key k d (noteRefreshError key b d)"
  by (simp add: noteRefreshError_def same_key_def Let_def split: option.split)

lemma note_counts: "failuresOf key (noteRefreshError key b d) = failuresOf key d"
  by (simp add: noteRefreshError_def failuresOf_def Let_def split: option.split)

lemma bundleFailure_same: "k \<noteq> key \<Longrightarrow> same_key k d (recordBundleRefreshFailure env now key b d)"
  unfolding recordBundleRefreshFailure_def
  by (rule same_key_trans [OF _ failure_same]) (simp_all add: note_same)

lemma bundleFailure_counts: "failuresOf key (recordBundleRefreshFailure env now key b d) = failuresOf key d + 1"
  by (simp add: recordBundleRefreshFailure_def failure_counts note_counts)

lemma success_same: "k \<noteq> key \<Longrightarrow> same_key k d (snd (recordSuccessfulBundleRefresh now key b d))"
  by (simp add: recordSuccessfulBundleRefresh_def recordRefreshSuccessLocked_def same_key_def Let_def)

lemma success_key:
  "fmlookup (pd_bundles (snd (recordSuccessfulBundleRefresh now key b d))) key = Some (fst (recordSuccessfulBundleRefresh now key b d))"
  "failuresOf key (snd (recordSuccessfulBundleRefresh now key b d)) = 0"
  "fmlookup (pd_until (snd (recordSuccessfulBundleRefresh now key b d))) key = None"
  by (simp_all add: recordSuccessfulBundleRefresh_def recordRefreshSuccessLocked_def failuresOf_def Let_def)

text \<open>The result for a key depends on the directory at that key only.\<close>

lemma refreshed_cong:
  assumes "same_key key a b" "same_key key c d" "refreshed_key env now mode key target b c"
  shows "refreshed_key env now mode key target a d"
  using assms
  by (auto simp: refreshed_key_def same_key_def failuresOf_def recordSuccessfulBundleRefresh_def Let_def
      split: prod.splits if_splits)

definition one_refresh :: "ProxyEnv \<Rightarrow> int \<Rightarrow> ClearanceMode \<Rightarrow> BundleKey \<Rightarrow> string \<times> string \<Rightarrow> ProxyDirectory \<Rightarrow> ProxyDirectory" where
  "one_refresh env now mode key target d =
    (case refreshBundle env mode key (fst target) (snd target) of (b, ok, err) \<Rightarrow>
       if ok then snd (recordSuccessfulBundleRefresh now key b d) else recordBundleRefreshFailure env now key b d)"

lemma one_refresh_effect:
  "refreshed_key env now mode key target d (one_refresh env now mode key target d)"
  "k \<noteq> key \<Longrightarrow> same_key k d (one_refresh env now mode key target d)"
  by (simp_all add: refreshed_key_def one_refresh_def success_key bundleFailure_counts success_same bundleFailure_same
      split: prod.split)

lemma refreshAll_each:
  assumes "\<forall>key target. fmlookup targets key = Some target \<longrightarrow> snd (snd (refreshBundle env mode key (fst target) (snd target))) = None"
    and "distinct keys" "set keys \<subseteq> fset (fmdom targets)"
  shows "fst (refreshAllTargets env now mode skip targets keys d) = None \<and>
    (\<forall>key. if key \<in> set keys \<and> \<not> skip key
       then refreshed_key env now mode key (the (fmlookup targets key)) d (snd (refreshAllTargets env now mode skip targets keys d))
       else same_key key d (snd (refreshAllTargets env now mode skip targets keys d)))"
  using assms(2,3)
proof (induction keys arbitrary: d)
  case (Cons key keys)
  show ?case
  proof (cases "skip key")
    case True
    then show ?thesis using Cons.IH [of d] Cons.prems by auto
  next
    case False
    obtain target where target: "fmlookup targets key = Some target" using Cons.prems(2) by (auto simp: fmlookup_dom_iff)
    obtain b ok where ans: "refreshBundle env mode key (fst target) (snd target) = (b, ok, None)"
      using assms(1) target by (metis prod.collapse)
    let ?d1 = "one_refresh env now mode key target d"
    have step: "refreshAllTargets env now mode skip targets (key # keys) d = refreshAllTargets env now mode skip targets keys ?d1"
      using False target ans by (auto simp: one_refresh_def split: prod.splits)
    let ?r = "refreshAllTargets env now mode skip targets keys ?d1"
    have IH: "fst ?r = None" "\<And>k. if k \<in> set keys \<and> \<not> skip k
       then refreshed_key env now mode k (the (fmlookup targets k)) ?d1 (snd ?r) else same_key k ?d1 (snd ?r)"
      using Cons.IH [of ?d1] Cons.prems by auto
    have "if k \<in> set (key # keys) \<and> \<not> skip k
       then refreshed_key env now mode k (the (fmlookup targets k)) d (snd ?r) else same_key k d (snd ?r)" for k
    proof (cases "k = key")
      case True
      then have "same_key key ?d1 (snd ?r)" using IH(2) [of key] Cons.prems(1) by simp
      then show ?thesis
        using True False target refreshed_cong [OF same_key_refl _ one_refresh_effect(1)] by simp
    next
      case other: False
      then have "same_key k d ?d1" by (rule one_refresh_effect(2))
      then show ?thesis
        using IH(2) [of k] other refreshed_cong [OF _ same_key_refl] same_key_trans by (auto split: if_splits)
    qed
    then show ?thesis unfolding step using IH(1) by blast
  qed
qed simp

lemma nodeTargets_dom:
  "fset (fmdom (nodeTargets env nodes)) =
    {\<lparr>bk_affinity = a, bk_host = clearanceHost (px_host env) defaultClearanceOrigin\<rparr> |a u. (a, u) \<in> set (affinityItems nodes)}"
proof -
  let ?f = "\<lambda>(a, u). fmupd \<lparr>bk_affinity = a, bk_host = clearanceHost (px_host env) defaultClearanceOrigin\<rparr> (u, defaultClearanceOrigin)"
  have "fset (fmdom (fold ?f items m)) = fset (fmdom m) \<union>
      {\<lparr>bk_affinity = a, bk_host = clearanceHost (px_host env) defaultClearanceOrigin\<rparr> |a u. (a, u) \<in> set items}" for items m
    by (induction items arbitrary: m) auto
  from this [of "affinityItems nodes" fmempty] show ?thesis by (simp add: nodeTargets_def)
qed

lemma refreshTargets_dom:
  "fset (fmdom (refreshTargets env nodes keys)) = fset (fmdom (nodeTargets env nodes)) \<union> set keys"
proof -
  have "fset (fmdom (addTarget key m)) = insert key (fset (fmdom m))" for key m
    by (auto simp: addTarget_def fmlookup_dom_iff)
  then have "fset (fmdom (fold addTarget keys m)) = fset (fmdom m) \<union> set keys" for m
    by (induction keys arbitrary: m) auto
  then show ?thesis by (simp add: refreshTargets_def)
qed

text \<open>The scheduled refresh, when no solver reports an error: in whatever order Go visits the map, every
  bundle of a node and every bundle in the cache that is not skipped is refreshed once - stored fresh, its
  circuit closed, or one failure more -, and nothing else changes.\<close>

theorem scheduled_refresh:
  assumes "pd_clearance d \<noteq> ClearanceModeNone"
    and "\<And>S. S \<in> {fmdom (pd_bundles d), fmdom targets} \<Longrightarrow> set (iter S) = fset S \<and> distinct (iter S)"
    and "\<And>key proxyURL origin. snd (snd (refreshBundle env (pd_clearance d) key proxyURL origin)) = None"
    and "refreshClearance env iter now skip d = (err, d')"
    and "targets = refreshTargets env (pd_nodes d) (iter (fmdom (pd_bundles d)))"
  shows "err = None \<and>
    fset (fmdom targets) = fset (fmdom (nodeTargets env (pd_nodes d))) \<union> fset (fmdom (pd_bundles d)) \<and>
    (\<forall>key. if key \<in> fset (fmdom targets) \<and> \<not> skip key
       then refreshed_key env now (pd_clearance d) key (the (fmlookup targets key)) d d' else same_key key d d')"
proof -
  have run: "refreshAllTargets env now (pd_clearance d) skip targets (iter (fmdom targets)) d = (err, d')"
    using assms(1,4,5) by (simp add: refreshClearance_def Let_def)
  have "fset (fmdom targets) = fset (fmdom (nodeTargets env (pd_nodes d))) \<union> fset (fmdom (pd_bundles d))"
    using assms(2) [of "fmdom (pd_bundles d)"] by (simp add: assms(5) refreshTargets_dom)
  moreover have "set (iter (fmdom targets)) = fset (fmdom targets)" "distinct (iter (fmdom targets))"
    using assms(2) by auto
  moreover from this have "err = None \<and> (\<forall>key. if key \<in> set (iter (fmdom targets)) \<and> \<not> skip key
       then refreshed_key env now (pd_clearance d) key (the (fmlookup targets key)) d d' else same_key key d d')"
    using refreshAll_each [of targets env "pd_clearance d" "iter (fmdom targets)" now skip d] assms(3)
    unfolding run fst_conv snd_conv by blast
  ultimately show ?thesis by simp
qed

definition sampleIter :: "BundleKey fset \<Rightarrow> BundleKey list" where
  "sampleIter S = (if S = {||} then [] else [sampleKey])"

theorem scheduled_refresh_witness:
  "\<exists>d'. refreshClearance sampleProxyEnv sampleIter 7 (\<lambda>_. False) loadedA = (None, d') \<and> failuresOf sampleKey d' = 1"
proof -
  obtain err d' where run: "refreshClearance sampleProxyEnv sampleIter 7 (\<lambda>_. False) loadedA = (err, d')" by fastforce
  have nodes: "pd_nodes loadedA = [newEgressNode ''single'' ''A'']" "pd_fails loadedA = fmempty"
    by (simp_all add: loadedA_def single_load loadSignature_def NewProxyDirectory_def single_url buildEgressNodes_def
        keepAffinities_def Let_def)
  have "clearanceHost (px_host sampleProxyEnv) defaultClearanceOrigin = ''grok.com''"
    by (simp add: clearanceHost_def sampleProxyEnv_def string_eval Let_def)
  then have targets: "refreshTargets sampleProxyEnv (pd_nodes loadedA) [] = fmupd sampleKey (''A'', defaultClearanceOrigin) fmempty"
    by (simp add: nodes refreshTargets_def nodeTargets_def affinityItems_def newEgressNode_def nonEmptyURL_def sampleKey_def)
  have answer: "refreshBundle sampleProxyEnv ClearanceModeFlareSolverr key url origin = (zeroBundle, False, None)" for key url origin
    by (simp add: refreshBundle_def solve_def sampleProxyEnv_def Let_def)
  have iter: "sampleIter (fmdom (pd_bundles loadedA)) = []" by (simp add: sampleIter_def loadedA_simps)
  have "err = None \<and> refreshed_key sampleProxyEnv 7 ClearanceModeFlareSolverr sampleKey (''A'', defaultClearanceOrigin) loadedA d'"
  proof -
    let ?T = "fmupd sampleKey (''A'', defaultClearanceOrigin) fmempty"
    have iterS: "set (sampleIter S) = fset S \<and> distinct (sampleIter S)" if "S \<in> {fmdom (pd_bundles loadedA), fmdom ?T}" for S
      using that by (auto simp: sampleIter_def loadedA_simps)
    have T: "?T = refreshTargets sampleProxyEnv (pd_nodes loadedA) (sampleIter (fmdom (pd_bundles loadedA)))"
      using iter targets by simp
    have mode: "pd_clearance loadedA \<noteq> ClearanceModeNone" by (simp add: loadedA_simps)
    have ok: "snd (snd (refreshBundle sampleProxyEnv (pd_clearance loadedA) key url origin)) = None" for key url origin
      by (simp add: loadedA_simps answer)
    have eff: "err = None \<and> fset (fmdom ?T) = fset (fmdom (nodeTargets sampleProxyEnv (pd_nodes loadedA))) \<union>
        fset (fmdom (pd_bundles loadedA)) \<and>
      (\<forall>key. if key \<in> fset (fmdom ?T) \<and> \<not> False
         then refreshed_key sampleProxyEnv 7 (pd_clearance loadedA) key (the (fmlookup ?T key)) loadedA d'
         else same_key key loadedA d')"
      by (rule scheduled_refresh [OF mode iterS ok run T])
    have "refreshed_key sampleProxyEnv 7 ClearanceModeFlareSolverr sampleKey (''A'', defaultClearanceOrigin) loadedA d'"
      using spec [OF conjunct2 [OF conjunct2 [OF eff]], of sampleKey] by (simp add: loadedA_simps)
    then show ?thesis using conjunct1 [OF eff] by blast
  qed
  then show ?thesis using run by (auto simp: refreshed_key_def answer failuresOf_def nodes)
qed

end
