(* ===== verification/Spec2Isabelle.thy ===== *)
theory Spec2Isabelle
  imports MessagesService ChatService AnthropicProps ResponseProps TextRunProps ChatAdapterProps MediaCacheProps AccessProps ReplayStore Pacer AsyncTask ToolSieveProps GrpcWeb CredentialCipher BuildTokens FeedbackMachine AccountRepoProps DirectoryProps RefreshProps UpkeepProps DispatchProps ProxyProps
begin

text \<open>
  Gork is a gateway in Go: it offers the interfaces of OpenAI and Anthropic over a pool of upstream accounts. This
  library models the program's own logic, file by file under \<open>src/app\<close>, and proves what it promises.

  \<^bold>\<open>The path of a request.\<close> A router checks the key of the client (\<open>Access\<close>). A chat request names a model
  (\<open>ModelRegistry\<close>), whose mode and pools give the candidates; the dispatch loop (\<open>Dispatch\<close>) reserves a slot of the runtime
  table through the directory (\<open>DirectorySync\<close>, \<open>Selector\<close>, \<open>RuntimeTable\<close>), calls the upstream with that account, reports the
  outcome, releases the slot and tries another account after an error that may be retried (\<open>UpstreamErrors\<close>). The lines of
  the answer go through the adapter (\<open>ChatAdapter\<close>) and the sieve for tool calls (\<open>ToolSieve\<close>) and come out as chat frames
  (\<open>TextRun\<close>; \<open>ChatService\<close> puts them and the dispatch together), Anthropic blocks (\<open>AnthropicStream\<close>, with the
  dispatch in \<open>MessagesService\<close>) or Responses items (\<open>ResponseStream\<close>). The directory follows the repository
  of accounts (\<open>AccountRepo\<close>, with records in \<open>AccountRecord\<close>, quotas in \<open>AccountQuota\<close> and the state machine in
  \<open>FeedbackMachine\<close>) through a feed of changes. The refresh service (\<open>RefreshService\<close>) and the upkeep (\<open>AccountUpkeep\<close>) write to
  that repository. A second upstream has its own pool (\<open>BuildPool\<close>, \<open>BuildStore\<close>, \<open>BuildDispatch\<close>) with sealed credentials
  (\<open>CredentialCipher\<close>). Requests leave through egress proxies (\<open>ProxyDirectory\<close>, \<open>ProxyRefresh\<close>), console requests at a pace
  (\<open>Pacer\<close>). Beside the path of a request stand the gRPC-web codec (\<open>GrpcWeb\<close>), the store of reasoning items (\<open>ReplayStore\<close>), the
  files of generated media (\<open>MediaCache\<close>) and the background tasks of the administration (\<open>AsyncTask\<close>).

  \<^bold>\<open>Theories and code.\<close>
  \<^item> \<open>GoPrelude\<close>, \<open>GoStrings\<close>, \<open>Base64\<close>, \<open>Json\<close>: what the code uses of Go and its library (errors, 64-bit integers, float64
    rounding, UTF-8, number parsing, the dynamic type \<open>any\<close>, \<open>encoding/base64\<close>, JSON values), with the shared lemmas.
  \<^item> \<open>AccountQuota\<close>, \<open>AccountRecord\<close>, \<open>FeedbackMachine\<close>, \<open>AccountRepo\<close>: \<open>control/account\<close> (\<open>models_*.go\<close>, \<open>commands.go\<close>,
    \<open>state_machine*.go\<close>) and \<open>backends/local*.go\<close>; the rows of the SQL table are a list, each statement an update of it.
  \<^item> \<open>RuntimeTable\<close>, \<open>Selector\<close>, \<open>DirectorySync\<close>: \<open>dataplane/account\<close>. The columns of the table are lists of equal length; the
    indexes are finite maps. The order of Go maps and random numbers are arguments.
  \<^item> \<open>UpstreamErrors\<close>, \<open>RefreshService\<close>, \<open>AccountUpkeep\<close>: \<open>platform/errors.go\<close>, \<open>protocol/xai_usage.go\<close>, \<open>sso_session.go\<close>,
    \<open>control/account/refresh_*.go\<close>, \<open>sso_validation.go\<close>, \<open>auto_clean.go\<close>.
  \<^item> \<open>ModelRegistry\<close>, \<open>Dispatch\<close>: \<open>control/model\<close>, \<open>products/dispatch.go\<close>, \<open>account_selection.go\<close>, \<open>products/openai/chat.go\<close>.
  \<^item> \<open>ChatAdapter\<close>, \<open>ToolSieve\<close>, \<open>TextRun\<close>, \<open>ChatService\<close>, \<open>AnthropicStream\<close>, \<open>MessagesService\<close>, \<open>ResponseStream\<close>:
    \<open>reverse/protocol/xai_chat*.go\<close>, \<open>tool_sieve.go\<close>, \<open>text_run_stream.go\<close>, \<open>chat_consume.go\<close>, \<open>chat_response.go\<close>,
    \<open>chat_stream.go\<close>, \<open>messages_stream_format.go\<close>, \<open>messages_response.go\<close>, \<open>messages_flow.go\<close>, \<open>responses_stream.go\<close>,
    \<open>responses_format.go\<close>. A frame of a stream is a constructor for its JSON document.
  \<^item> \<open>BuildPool\<close>, \<open>BuildStore\<close>, \<open>BuildDispatch\<close>, \<open>CredentialCipher\<close>, \<open>ReplayStore\<close>: \<open>dataplane/build\<close>, \<open>control/buildaccount\<close>,
    \<open>products/openai/build_*.go\<close>, \<open>platform/security/cipher.go\<close>, \<open>reasoningreplay/store.go\<close>.
  \<^item> \<open>ProxyDirectory\<close>, \<open>ProxyRefresh\<close>: \<open>control/proxy\<close>; concurrent callers are a step relation whose steps are the sections
    under the lock.
  \<^item> \<open>Access\<close>, \<open>Pacer\<close>, \<open>AsyncTask\<close>, \<open>MediaCache\<close>, \<open>GrpcWeb\<close>: \<open>platform/auth\<close> and \<open>web/ratelimit\<close>, \<open>console_rate_limit.go\<close>,
    \<open>platform/runtime/task.go\<close> (a step relation with bounded channels), \<open>platform/storage\<close>, \<open>platform/net/grpc.go\<close>.
  \<^item> A theory \<open>XProps\<close> (and \<open>BuildTokens\<close>) holds the properties of the theory \<open>X\<close> and the lemmas only they need.

  \<^bold>\<open>What is shown.\<close>
  \<^item> Dispatch: a chat request calls distinct accounts within its limit, reaches the upstream whenever a slot can serve it, and
    releases what it reserved. So does an Anthropic request. The loop is verified once, in the locale \<open>dispatch_directory\<close>,
    interpreted on the chat service and on the message service.
  \<^item> Directory: reservations are sound and complete for the selectable slots (locale \<open>slot_selector\<close>, interpreted on both
    selections); the table converges to the repository through the feed (locale \<open>change_feed\<close>, interpreted on the local
    repository) and its invariant survives every history; feedback withdraws a slot, after a 401 for good, after a 429 for
    the mode until its window is reset. The index of available slots is exact under the directory's operations;
    \<open>ApplyStatusChange\<close> to active, which nothing calls today, may break it (\<open>table_invariant\<close> says when).
  \<^item> Repository, state machine, refresh, upkeep: keys stay distinct and revisions fresh; the transition table of feedback;
    quota sets survive being written and read; every due account is counted once; accounts are deleted only at the
    thresholds, and by the cleaner only when they are dead for the configured age.
  \<^item> Streams: citations point at their text in the whole answer; reasoning comes before text; what the sieve lets through
    does not depend on how the text was cut (locale \<open>holdback\<close>, interpreted on the boundary of tags); collected and
    incremental frames agree; a client that streams and offers no tools gets one end exactly when its request succeeded;
    exactly when the streamed text is the answer; exactly when blocks and items are well formed.
  \<^item> Build pool, codecs, proxies, tasks, media, access: no two live rows of a user; a pool drained by 429 until an
    administrator acts; the round trip of gRPC-web frames; one refresh of a clearance bundle at a time, and every
    caller can return; the cooldown of the breaker, from below and from above; the streams of tasks; the media index and its limit; the rate at which a key can be guessed (locale
    \<open>login_guard\<close>, interpreted on both guards).

  \<^bold>\<open>Bounds and fuel.\<close> Integers that may overflow are bounded by the invariants or wrapped at 64 bits; float64 values are
  rationals rounded by \<open>fl\<close>. \<open>ApplyChanges\<close> takes fuel: its theorem shows that as many rounds as the repository
  has accounts and one more are enough. The dispatch loop counts down its attempts. The cleaner reads at most 20 pages, as the code does. The sieve
  gives up a block at 64 KiB; the theorem about blocks assumes that the block fits. \<open>parseFrames\<close>, \<open>renderAll\<close> and \<open>attrsFrom\<close>
  recurse on a text that gets shorter, with termination proofs. Channels of tasks hold 200 events.

  \<^bold>\<open>Not modelled.\<close> HTTP routing and transports, SQL drivers and the other repositories, configuration files, process start:
  I/O through the standard library and third-party packages. Requests are not converted (message extraction, payloads, tool
  prompts), tool calls are not parsed and reasoning is not summarised: traversals of dynamic JSON and regular expressions over
  Unicode text; the parser and the aggregator are arguments of the streams, as are token estimates, JSON text, image
  downloads, AES-GCM, solvers, clocks and random numbers. Images, video, console endpoints and the formats of the second
  upstream are not modelled. Contexts never expire; operations under a lock are atomic.
\<close>

end
